(* ===== verification/Prelude.thy ===== *)
theory Prelude
  imports Main "HOL-Library.Word" "HOL-Library.Multiset"
begin

unbundle bit_operations_syntax

text \<open>
  Shared vocabulary of the development: the C integer types of the kernel sources as words, the
  faults a kernel function can run into as a datatype, the result type of fallible code with its
  sequencing operator, six-byte Ethernet addresses, fixed-size byte buffers with checked writes,
  and the lemma collections the component theories extend.
\<close>

section \<open>Lemma collections\<close>

named_theorems result_simps \<open>rewriting of sequenced fallible computations\<close>
named_theorems table_simps \<open>list view of the chained hash tables\<close>
named_theorems frame_simps \<open>frame-control classification\<close>

section \<open>Machine integers\<close>

type_synonym u8 = "8 word"
type_synonym u16 = "16 word"
type_synonym u32 = "32 word"
type_synonym u64 = "64 word"

text \<open>
  Signed C integers are mathematical integers; arithmetic that may leave the range of a 32-bit
  \<open>int\<close> is wrapped explicitly (the kernel is built with \<^verbatim>\<open>-fno-strict-overflow\<close>).
\<close>

definition s32_wrap :: "int \<Rightarrow> int" where
  "s32_wrap x = (x + 2 ^ 31) mod 2 ^ 32 - 2 ^ 31"

lemma s32_wrap_id [simp]: "- (2 ^ 31) \<le> x \<Longrightarrow> x < 2 ^ 31 \<Longrightarrow> s32_wrap x = x"
  by (simp add: s32_wrap_def)

lemma s32_wrap_range: "- (2 ^ 31) \<le> s32_wrap x \<and> s32_wrap x < 2 ^ 31"
proof -
  have "0 \<le> (x + 2 ^ 31) mod (2 ^ 32 :: int)" and "(x + 2 ^ 31) mod (2 ^ 32 :: int) < 2 ^ 32"
    by simp_all
  then show ?thesis by (simp add: s32_wrap_def)
qed

section \<open>Faults and fallible computations\<close>

text \<open>
  A dereference of a null or dangling pointer, an access beyond the end of a buffer, the use of a
  variable that was never assigned and a loop that does not end are the faults the modelled code can
  run into; after each one nothing more is said of the computation.
\<close>

datatype fault = NullDeref | OutOfBounds | Uninitialised | Hangs | ShiftRange | DivideByZero

type_synonym 'a result = "fault + 'a"

definition rbind :: "'a result \<Rightarrow> ('a \<Rightarrow> 'b result) \<Rightarrow> 'b result" where
  "rbind r f = (case r of Inl e \<Rightarrow> Inl e | Inr x \<Rightarrow> f x)"

lemma rbind_simps [simp, result_simps]:
  "rbind (Inl e) f = Inl e"
  "rbind (Inr x) f = f x"
  by (simp_all add: rbind_def)

lemma rbind_Inr_iff [result_simps]:
  "rbind r f = Inr y \<longleftrightarrow> (\<exists>x. r = Inr x \<and> f x = Inr y)"
  by (cases r) simp_all

lemma rbind_InrE:
  assumes "rbind r f = Inr y"
  obtains x where "r = Inr x" and "f x = Inr y"
  using assms by (auto simp: rbind_Inr_iff)

lemma rbind_cong [fundef_cong]:
  "r = r' \<Longrightarrow> (\<And>x. r' = Inr x \<Longrightarrow> f x = g x) \<Longrightarrow> rbind r f = rbind r' g"
  by (cases r') (simp_all add: rbind_def)

text \<open>A pointer is followed through the store that holds the objects it may point to.\<close>

definition deref :: "('p \<Rightarrow> 'a option) \<Rightarrow> 'p \<Rightarrow> 'a result" where
  "deref h p = (case h p of None \<Rightarrow> Inl NullDeref | Some x \<Rightarrow> Inr x)"

lemma deref_Some [simp, result_simps]: "h p = Some x \<Longrightarrow> deref h p = Inr x"
  by (simp add: deref_def)

lemma deref_None [simp, result_simps]: "h p = None \<Longrightarrow> deref h p = Inl NullDeref"
  by (simp add: deref_def)

lemma deref_Inr_iff [result_simps]: "deref h p = Inr x \<longleftrightarrow> h p = Some x"
  by (simp add: deref_def split: option.splits)

text \<open>Array access \<^verbatim>\<open>a[i]\<close>.\<close>

definition arr_get :: "'a list \<Rightarrow> nat \<Rightarrow> 'a result" where
  "arr_get a i = (if i < length a then Inr (a ! i) else Inl OutOfBounds)"

lemma arr_get_ok [simp, result_simps]: "i < length a \<Longrightarrow> arr_get a i = Inr (a ! i)"
  by (simp add: arr_get_def)

lemma arr_get_Inr_iff [result_simps]: "arr_get a i = Inr x \<longleftrightarrow> i < length a \<and> x = a ! i"
  by (auto simp: arr_get_def)

section \<open>Byte buffers\<close>

text \<open>\<^verbatim>\<open>memcpy(buf + off, src, n)\<close> into a buffer of fixed size.\<close>

definition buf_write :: "u8 list \<Rightarrow> nat \<Rightarrow> u8 list \<Rightarrow> u8 list result" where
  "buf_write buf off src =
     (if off + length src \<le> length buf
      then Inr (take off buf @ src @ drop (off + length src) buf)
      else Inl OutOfBounds)"

lemma buf_write_length: "buf_write buf off src = Inr b \<Longrightarrow> length b = length buf"
  by (auto simp: buf_write_def split: if_splits)

lemma buf_write_ok:
  "off + length src \<le> length buf \<Longrightarrow>
     buf_write buf off src = Inr (take off buf @ src @ drop (off + length src) buf)"
  by (simp add: buf_write_def)

lemma buf_write_overflow: "length buf < off + length src \<Longrightarrow> buf_write buf off src = Inl OutOfBounds"
  by (simp add: buf_write_def)

text \<open>The bytes of a 64-bit value in the little-endian order of the target (x86-64).\<close>

definition le64_bytes :: "u64 \<Rightarrow> u8 list" where
  "le64_bytes x = map (\<lambda>i. ucast (drop_bit (8 * i) x)) [0..<8]"

lemma length_le64_bytes [simp]: "length (le64_bytes x) = 8"
  by (simp add: le64_bytes_def)

text \<open>16-bit fields of a frame, little-endian in memory.\<close>

definition le16_bytes :: "u16 \<Rightarrow> u8 list" where
  "le16_bytes x = [ucast x, ucast (drop_bit 8 x)]"

definition le16_of :: "u8 \<Rightarrow> u8 \<Rightarrow> u16" where
  "le16_of lo hi = ucast lo OR push_bit 8 (ucast hi)"

lemma length_le16_bytes [simp]: "length (le16_bytes x) = 2"
  by (simp add: le16_bytes_def)

lemma le16_of_bytes [simp]: "le16_of (ucast x) (ucast (drop_bit 8 x)) = x"
  unfolding le16_of_def
  by (rule bit_word_eqI) (auto simp: bit_simps)

lemma le16_bytes_of [simp]:
  "ucast (le16_of lo hi) = lo" "ucast (drop_bit 8 (le16_of lo hi)) = hi"
  unfolding le16_of_def
  by (rule bit_word_eqI; auto simp: bit_simps dest: bit_imp_le_length)+

section \<open>Ethernet addresses\<close>

text \<open>
  \<^verbatim>\<open>u8[ETH_ALEN]\<close>: six bytes, compared by \<open>memcmp\<close> over all six of them, which is equality.
\<close>

abbreviation (input) ETH_ALEN :: nat where "ETH_ALEN \<equiv> 6"

datatype mac = Mac u8 u8 u8 u8 u8 u8

fun mac_bytes :: "mac \<Rightarrow> u8 list" where
  "mac_bytes (Mac a b c d e f) = [a, b, c, d, e, f]"

text \<open>\<^verbatim>\<open>memcpy(mac, buf, ETH_ALEN)\<close>: the first six bytes of a buffer as an address.\<close>

fun mac_of_bytes :: "u8 list \<Rightarrow> mac result" where
  "mac_of_bytes (a # b # c # d # e # f # rest) = Inr (Mac a b c d e f)"
| "mac_of_bytes _ = Inl OutOfBounds"

lemma length_mac_bytes [simp]: "length (mac_bytes m) = ETH_ALEN"
  by (cases m) simp

lemma mac_of_bytes_mac_bytes [simp]: "mac_of_bytes (mac_bytes m @ xs) = Inr m"
  by (cases m) simp

lemma mac_bytes_inj: "mac_bytes m = mac_bytes n \<Longrightarrow> m = n"
  by (cases m; cases n) simp

lemma mac_of_bytes_ok:
  assumes "ETH_ALEN \<le> length xs"
  shows "\<exists>m. mac_of_bytes xs = Inr m \<and> mac_bytes m = take ETH_ALEN xs"
proof -
  obtain a b c d e f rest where "xs = a # b # c # d # e # f # rest"
    using assms by (auto simp: numeral_eq_Suc Suc_le_length_iff)
  then show ?thesis by simp
qed

section \<open>Lists searched by a key\<close>

lemma find_append: "find P (xs @ ys) = (case find P xs of Some x \<Rightarrow> Some x | None \<Rightarrow> find P ys)"
  by (induction xs) auto

text \<open>
  With distinct keys the first match of a scan is the only one, so a scan is membership.
\<close>

lemma find_key_iff:
  assumes "distinct (map k xs)"
  shows "find (\<lambda>x. k x = a) xs = Some e \<longleftrightarrow> e \<in> set xs \<and> k e = a"
  using assms by (induction xs) (auto simp: rev_image_eqI)

lemma find_SomeD: "find P xs = Some x \<Longrightarrow> x \<in> set xs \<and> P x"
  by (induction xs) (auto split: if_splits)

lemma find_map_key: "find P (map f xs) = map_option f (find (\<lambda>x. P (f x)) xs)"
  by (induction xs) auto

lemma find_key_None_iff: "find (\<lambda>x. k x = a) xs = None \<longleftrightarrow> a \<notin> k ` set xs"
  by (auto simp: find_None_iff)

fun upd_first :: "('a \<Rightarrow> bool) \<Rightarrow> ('a \<Rightarrow> 'a) \<Rightarrow> 'a list \<Rightarrow> 'a list" where
  "upd_first P f [] = []"
| "upd_first P f (x # xs) = (if P x then f x # xs else x # upd_first P f xs)"

lemma upd_first_none [simp]: "\<forall>x\<in>set xs. \<not> P x \<Longrightarrow> upd_first P f xs = xs"
  by (induction xs) auto

lemma upd_first_append:
  "upd_first P f (xs @ ys) =
     (if \<exists>x\<in>set xs. P x then upd_first P f xs @ ys else xs @ upd_first P f ys)"
  by (induction xs) auto

lemma length_upd_first [simp]: "length (upd_first P f xs) = length xs"
  by (induction xs) auto

lemma map_upd_first_same: "(\<And>x. k (f x) = k x) \<Longrightarrow> map k (upd_first P f xs) = map k xs"
  by (induction xs) auto

lemma find_upd_first_other:
  assumes "\<And>x. P x \<Longrightarrow> \<not> Q x" and "\<And>x. P x \<Longrightarrow> \<not> Q (f x)"
  shows "find Q (upd_first P f xs) = find Q xs"
  using assms by (induction xs) auto

lemma find_upd_first_same:
  assumes "\<And>x. P x \<Longrightarrow> P (f x)"
  shows "find P (upd_first P f xs) = map_option f (find P xs)"
  using assms by (induction xs) auto

lemma sum_list_update:
  fixes f g :: "'a \<Rightarrow> int"
  assumes "distinct xs" "\<And>x. x \<in> set xs \<Longrightarrow> x \<noteq> a \<Longrightarrow> f x = g x"
  shows "(\<Sum>x\<leftarrow>xs. f x) = (\<Sum>x\<leftarrow>xs. g x) + (if a \<in> set xs then f a - g a else 0)"
  using assms
proof (induction xs)
  case (Cons x xs)
  then show ?case by (cases "x = a") auto
qed simp

end
