(* ===== verification/Chained_Table.thy ===== *)
theory Chained_Table
  imports Prelude
begin

text \<open>
  Hash tables with separate chaining, as the two address tables of the repository use them: an
  array of buckets, each a singly linked list of entries. A table is a list of chains, a pointer
  to an entry is the pair of its bucket index and its position in the chain. The loops the table
  functions share (walk one chain; walk all buckets in index order) are defined here once, with
  the lemmas that reduce them to a scan of the concatenation of all chains.
\<close>

section \<open>The loops\<close>

text \<open>\<^verbatim>\<open>while (entry != NULL) { if (match) return entry; entry = entry->next; }\<close>\<close>

fun chain_scan :: "('e \<Rightarrow> bool) \<Rightarrow> 'e list \<Rightarrow> nat \<Rightarrow> nat option" where
  "chain_scan P [] j = None"
| "chain_scan P (e # es) j = (if P e then Some j else chain_scan P es (Suc j))"

text \<open>\<^verbatim>\<open>for (index = 0; index < TABLE_SIZE; ++index)\<close> around the walk of one chain.\<close>

fun table_scan :: "('e \<Rightarrow> bool) \<Rightarrow> 'e list list \<Rightarrow> nat \<Rightarrow> (nat \<times> nat) option" where
  "table_scan P [] i = None"
| "table_scan P (c # cs) i =
     (case chain_scan P c 0 of
        Some j \<Rightarrow> Some (i, j)
      | None \<Rightarrow> table_scan P cs (Suc i))"

definition entry_at :: "'e list list \<Rightarrow> nat \<times> nat \<Rightarrow> 'e" where
  "entry_at t p = t ! fst p ! snd p"

definition entry_put :: "'e list list \<Rightarrow> nat \<times> nat \<Rightarrow> 'e \<Rightarrow> 'e list list" where
  "entry_put t p e = t[fst p := (t ! fst p)[snd p := e]]"

text \<open>
  The unlinking loop, with \<open>prev_entry\<close> trailing \<open>entry\<close>: the nodes before the match keep their
  order, the match is dropped, and \<^const>\<open>None\<close> says the end of the chain was reached.
\<close>

fun chain_unlink :: "('e \<Rightarrow> bool) \<Rightarrow> 'e list \<Rightarrow> 'e list option" where
  "chain_unlink P [] = None"
| "chain_unlink P (e # es) =
     (if P e then Some es else map_option (\<lambda>es'. e # es') (chain_unlink P es))"

text \<open>Linking a new node in at the head of a bucket, and unlinking the first match of a bucket.\<close>

definition push_entry :: "nat \<Rightarrow> 'e \<Rightarrow> 'e list list \<Rightarrow> 'e list list" where
  "push_entry i e t = t[i := e # t ! i]"

definition unlink_entry :: "('e \<Rightarrow> bool) \<Rightarrow> nat \<Rightarrow> 'e list list \<Rightarrow> 'e list list" where
  "unlink_entry P i t = (case chain_unlink P (t ! i) of Some c \<Rightarrow> t[i := c] | None \<Rightarrow> t)"

section \<open>Chains\<close>

lemma chain_scan_None_iff: "chain_scan P c j = None \<longleftrightarrow> (\<forall>e\<in>set c. \<not> P e)"
  by (induction c arbitrary: j) auto

lemma chain_scan_SomeD:
  "chain_scan P c j = Some n \<Longrightarrow>
     j \<le> n \<and> n - j < length c \<and> P (c ! (n - j)) \<and> find P c = Some (c ! (n - j)) \<and>
     c[n - j := e'] = upd_first P (\<lambda>_. e') c"
proof (induction c arbitrary: j)
  case Nil
  then show ?case by simp
next
  case (Cons a c)
  show ?case
  proof (cases "P a")
    case True
    with Cons.prems show ?thesis by simp
  next
    case False
    with Cons.prems have "chain_scan P c (Suc j) = Some n" by simp
    from Cons.IH [OF this] False obtain k where "n = Suc j + k" "k < length c" "P (c ! k)"
      "find P c = Some (c ! k)" "c[k := e'] = upd_first P (\<lambda>_. e') c"
      by (auto simp: le_iff_add)
    with False show ?thesis by simp
  qed
qed

lemma chain_unlink_None_iff: "chain_unlink P c = None \<longleftrightarrow> (\<forall>e\<in>set c. \<not> P e)"
  by (induction c) auto

lemma chain_unlink_SomeD:
  "chain_unlink P c = Some c' \<Longrightarrow>
     \<exists>xs e ys. c = xs @ e # ys \<and> c' = xs @ ys \<and> P e \<and> (\<forall>x\<in>set xs. \<not> P x)"
proof (induction c arbitrary: c')
  case Nil
  then show ?case by simp
next
  case (Cons a c)
  show ?case
  proof (cases "P a")
    case True
    with Cons.prems have "a # c = [] @ a # c \<and> c' = [] @ c \<and> P a \<and> (\<forall>x\<in>set []. \<not> P x)" by simp
    then show ?thesis by blast
  next
    case False
    with Cons.prems obtain d where "chain_unlink P c = Some d" "c' = a # d" by auto
    with Cons.IH obtain xs e ys where "c = xs @ e # ys" "d = xs @ ys" "P e" "\<forall>x\<in>set xs. \<not> P x"
      by blast
    with False \<open>c' = a # d\<close>
    have "a # c = (a # xs) @ e # ys \<and> c' = (a # xs) @ ys \<and> P e \<and> (\<forall>x\<in>set (a # xs). \<not> P x)"
      by simp
    then show ?thesis by blast
  qed
qed

section \<open>Tables\<close>

lemma table_scan_None_iff: "table_scan P t i = None \<longleftrightarrow> (\<forall>e\<in>set (concat t). \<not> P e)"
proof (induction t arbitrary: i)
  case Nil
  then show ?case by simp
next
  case (Cons c t)
  then show ?case
    using chain_scan_None_iff [of P c 0] by (cases "chain_scan P c 0") auto
qed

lemma table_scan_SomeD:
  "table_scan P t i = Some (a, b) \<Longrightarrow>
     i \<le> a \<and> a - i < length t \<and> b < length (t ! (a - i)) \<and>
     find P (concat t) = Some (t ! (a - i) ! b) \<and>
     concat (t[a - i := (t ! (a - i))[b := e']]) = upd_first P (\<lambda>_. e') (concat t)"
proof (induction t arbitrary: i)
  case Nil
  then show ?case by simp
next
  case (Cons c t)
  show ?case
  proof (cases "chain_scan P c 0")
    case None
    with Cons.prems have *: "table_scan P t (Suc i) = Some (a, b)" by simp
    from None have "\<forall>e\<in>set c. \<not> P e" by (simp add: chain_scan_None_iff)
    then have "find P c = None" by (simp add: find_None_iff)
    then have "find P (c @ concat t) = find P (concat t)" by (simp add: find_append)
    moreover from Cons.IH [OF *] obtain k where "a = Suc i + k"
      by (auto simp: le_iff_add)
    ultimately show ?thesis
      using Cons.IH [OF *] \<open>\<forall>e\<in>set c. \<not> P e\<close> by (auto simp: upd_first_append)
  next
    case (Some j)
    with Cons.prems have "a = i" "b = j" by auto
    moreover from chain_scan_SomeD [OF Some, of e'] have
      j: "j < length c" "P (c ! j)" "find P c = Some (c ! j)" "c[j := e'] = upd_first P (\<lambda>_. e') c"
      by auto
    moreover from j(3) have "find P (c @ concat t) = Some (c ! j)" by (simp add: find_append)
    moreover from j(1,2) have "\<exists>x\<in>set c. P x" by (meson nth_mem)
    ultimately show ?thesis by (auto simp: upd_first_append)
  qed
qed

text \<open>All entries of a table in the order the walk visits them.\<close>

definition flat :: "'e list list \<Rightarrow> 'e list" where
  "flat t = concat t"

lemma flat_simps: "flat [] = []" "flat (c # t) = c @ flat t"
  by (simp_all add: flat_def)

lemma table_scan_flat_None [table_simps]: "table_scan P t i = None \<longleftrightarrow> (\<forall>e\<in>set (flat t). \<not> P e)"
  by (simp add: flat_def table_scan_None_iff)

lemma table_scan_find [table_simps]:
  "map_option (entry_at t) (table_scan P t 0) = find P (flat t)"
proof (cases "table_scan P t 0")
  case None
  then have "find P (flat t) = None" by (simp add: table_scan_flat_None find_None_iff)
  with None show ?thesis by simp
next
  case (Some p)
  then show ?thesis by (cases p) (auto dest: table_scan_SomeD simp: entry_at_def flat_def)
qed

lemma flat_entry_put_const:
  "table_scan P t 0 = Some p \<Longrightarrow> flat (entry_put t p e) = upd_first P (\<lambda>_. e) (flat t)"
  by (cases p) (auto dest: table_scan_SomeD [where e' = e] simp: entry_put_def flat_def)

lemma entry_at_scan: "table_scan P t 0 = Some p \<Longrightarrow> find P (flat t) = Some (entry_at t p)"
  by (metis option.simps(9) table_scan_find)

text \<open>Writing through the pointer a search returned updates the first match of the walk.\<close>

lemma flat_entry_put [table_simps]:
  assumes "table_scan P t 0 = Some p"
  shows "flat (entry_put t p (f (entry_at t p))) = upd_first P f (flat t)"
proof -
  have "find P xs = Some e \<Longrightarrow> upd_first P (\<lambda>_. f e) xs = upd_first P f xs" for xs e
    by (induction xs) (auto split: if_splits)
  with entry_at_scan [OF assms] show ?thesis by (simp add: flat_entry_put_const [OF assms])
qed

lemma length_entry_put [simp]: "length (entry_put t p e) = length t"
  by (simp add: entry_put_def)

lemma length_push_entry [simp]: "length (push_entry i e t) = length t"
  by (simp add: push_entry_def)

lemma mset_flat_push:
  "i < length t \<Longrightarrow> mset (flat (push_entry i e t)) = add_mset e (mset (flat t))"
proof (induction t arbitrary: i)
  case Nil
  then show ?case by simp
next
  case (Cons c t)
  then show ?case by (cases i) (auto simp: flat_simps push_entry_def)
qed

lemma flat_push_empty: "i < n \<Longrightarrow> flat (push_entry i e (replicate n [])) = [e]"
  using mset_flat_push [of i "replicate n []" e] by (simp add: flat_def)

lemma set_flat_push: "i < length t \<Longrightarrow> set (flat (push_entry i e t)) = insert e (set (flat t))"
  using arg_cong [OF mset_flat_push, of i t set_mset e] by simp

lemma mset_flat_drop:
  assumes "i < length t" and "t ! i = xs @ e # ys"
  shows "mset (flat t) = add_mset e (mset (flat (t[i := xs @ ys])))"
proof -
  have "t = take i t @ (xs @ e # ys) # drop (Suc i) t"
    using assms by (metis id_take_nth_drop)
  moreover have "t[i := xs @ ys] = take i t @ (xs @ ys) # drop (Suc i) t"
    using assms by (simp add: upd_conv_take_nth_drop)
  ultimately have "mset (flat t) = mset (concat (take i t @ (xs @ e # ys) # drop (Suc i) t))"
    and "mset (flat (t[i := xs @ ys])) = mset (concat (take i t @ (xs @ ys) # drop (Suc i) t))"
    by (simp_all add: flat_def)
  then show ?thesis by simp
qed

lemma set_chain_flat: "i < length t \<Longrightarrow> set (t ! i) \<subseteq> set (flat t)"
  by (auto simp: flat_def intro: nth_mem)

lemma length_unlink_entry [simp]: "length (unlink_entry P i t) = length t"
  by (simp add: unlink_entry_def split: option.splits)

lemma unlink_entry_absent: "\<forall>e\<in>set (t ! i). \<not> P e \<Longrightarrow> unlink_entry P i t = t"
  by (simp add: unlink_entry_def chain_unlink_None_iff [THEN iffD2])

lemma unlink_entry_present:
  assumes "i < length t" and "\<exists>e\<in>set (t ! i). P e"
  shows "\<exists>e. P e \<and> mset (flat t) = add_mset e (mset (flat (unlink_entry P i t)))"
proof -
  from assms(2) obtain c where c: "chain_unlink P (t ! i) = Some c"
    by (metis chain_unlink_None_iff not_None_eq)
  then obtain xs e ys where "t ! i = xs @ e # ys" "c = xs @ ys" "P e"
    by (blast dest: chain_unlink_SomeD)
  with c mset_flat_drop [OF assms(1)] show ?thesis by (auto simp: unlink_entry_def)
qed

end
