(* ===== verification/Mac_Store.thy ===== *)
theory Mac_Store
  imports Chained_Table
begin

text \<open>
  The interface between the address tables and the code that rewrites frame headers. A store holds
  pairs of a base address and the random address currently in use for it; its clients look up in
  both directions and replace the random address of a base. The laws are those of the two tables
  of the repository, which interpret this locale.
\<close>

definition bases :: "(mac \<times> mac) list \<Rightarrow> mac list" where
  "bases ps = map fst ps"

definition randoms :: "(mac \<times> mac) list \<Rightarrow> mac list" where
  "randoms ps = map snd ps"

text \<open>
  Rewriting one address field: the replacement when the lookup finds one, else the field is left
  alone.
\<close>

definition subst_addr :: "(mac \<Rightarrow> mac option) \<Rightarrow> mac \<Rightarrow> mac" where
  "subst_addr look a = (case look a of Some b \<Rightarrow> b | None \<Rightarrow> a)"

lemma subst_addr_Some [simp]: "look a = Some b \<Longrightarrow> subst_addr look a = b"
  by (simp add: subst_addr_def)

lemma subst_addr_None [simp]: "look a = None \<Longrightarrow> subst_addr look a = a"
  by (simp add: subst_addr_def)

locale mac_store =
  fixes invar :: "'t \<Rightarrow> bool"
    and pairs :: "'t \<Rightarrow> (mac \<times> mac) list"
    and rnd_of :: "'t \<Rightarrow> mac \<Rightarrow> mac option"
    and base_of :: "'t \<Rightarrow> mac \<Rightarrow> mac option"
  assumes rnd_of_find: "rnd_of t b = map_option snd (find (\<lambda>p. fst p = b) (pairs t))"
    and base_of_find: "base_of t r = map_option fst (find (\<lambda>p. snd p = r) (pairs t))"
    and distinct_bases: "invar t \<Longrightarrow> distinct (bases (pairs t))"
begin

lemma rnd_of_iff: "invar t \<Longrightarrow> rnd_of t b = Some r \<longleftrightarrow> (b, r) \<in> set (pairs t)"
  using find_key_iff [of fst "pairs t" b] distinct_bases [of t]
  by (auto simp: rnd_of_find bases_def)

lemma rnd_of_None_iff: "rnd_of t b = None \<longleftrightarrow> b \<notin> set (bases (pairs t))"
  by (simp add: rnd_of_find find_key_None_iff bases_def)

lemma base_of_iff:
  "distinct (randoms (pairs t)) \<Longrightarrow> base_of t r = Some b \<longleftrightarrow> (b, r) \<in> set (pairs t)"
  using find_key_iff [of snd "pairs t" r] by (auto simp: base_of_find randoms_def)

lemma base_of_None_iff: "base_of t r = None \<longleftrightarrow> r \<notin> set (randoms (pairs t))"
  by (simp add: base_of_find find_key_None_iff randoms_def)

text \<open>
  With pairwise distinct random addresses, rewriting an address to its random one and back gives
  the address again: for an address of the store, and for a foreign address that is not in use as
  a random address.
\<close>

lemma subst_round_trip:
  assumes "invar t" and "distinct (randoms (pairs t))"
    and "a \<in> set (bases (pairs t)) \<or> a \<notin> set (randoms (pairs t))"
  shows "subst_addr (base_of t) (subst_addr (rnd_of t) a) = a"
proof (cases "rnd_of t a")
  case None
  with assms(3) have "a \<notin> set (randoms (pairs t))" by (simp add: rnd_of_None_iff)
  then have "base_of t a = None" by (simp add: base_of_None_iff)
  with None show ?thesis by simp
next
  case (Some r)
  with assms(1) have "(a, r) \<in> set (pairs t)" by (simp add: rnd_of_iff)
  with assms(2) have "base_of t r = Some a" by (simp add: base_of_iff)
  with Some show ?thesis by simp
qed

end

text \<open>A store whose entries can be inserted and re-randomised.\<close>

locale mac_store_upd = mac_store +
  fixes ins :: "mac \<Rightarrow> mac \<Rightarrow> 't \<Rightarrow> 't"
    and upd :: "mac \<Rightarrow> mac \<Rightarrow> 't \<Rightarrow> 't"
    and can_upd :: "'t \<Rightarrow> mac \<Rightarrow> bool"
  assumes ins_rnd_of: "invar t \<Longrightarrow> rnd_of t b = None \<Longrightarrow> rnd_of (ins b r t) = (rnd_of t)(b \<mapsto> r)"
    and ins_invar: "invar t \<Longrightarrow> rnd_of t b = None \<Longrightarrow> invar (ins b r t)"
    and upd_rnd_of: "invar t \<Longrightarrow> can_upd t b \<Longrightarrow> rnd_of (upd b r t) = (rnd_of t)(b \<mapsto> r)"
    and upd_invar: "invar t \<Longrightarrow> can_upd t b \<Longrightarrow> invar (upd b r t)"
    and can_upd_mono: "invar t \<Longrightarrow> can_upd t b \<Longrightarrow> can_upd t c \<Longrightarrow> can_upd (upd b r t) c"
begin

text \<open>
  Re-randomising a list of bases one after the other: every base gets the last random address
  given for it, no other entry changes.
\<close>

lemma fold_upd:
  assumes "invar t" and "\<forall>p\<in>set ps. can_upd t (fst p)"
  shows "invar (fold (\<lambda>p. upd (fst p) (snd p)) ps t) \<and>
    rnd_of (fold (\<lambda>p. upd (fst p) (snd p)) ps t) = rnd_of t ++ map_of (rev ps)"
  using assms
proof (induction ps arbitrary: t)
  case Nil
  then show ?case by simp
next
  case (Cons p ps)
  let ?t = "upd (fst p) (snd p) t"
  from Cons.prems have t: "invar ?t" "rnd_of ?t = (rnd_of t)(fst p \<mapsto> snd p)"
    by (auto intro: upd_invar upd_rnd_of)
  from Cons.prems have "\<forall>q\<in>set ps. can_upd ?t (fst q)" by (auto intro: can_upd_mono)
  from Cons.IH [OF t(1) this] t(2) show ?case
    by (cases p) (simp add: map_add_def fun_eq_iff split: option.splits)
qed

end

section \<open>Chained tables as stores\<close>

text \<open>
  What the two address tables have in common: entries with a base and a random address, walked by
  \<^const>\<open>table_scan\<close>. The view of such a table as a store, whatever its size and hash function.
\<close>

definition tbl_invar :: "nat \<Rightarrow> ('e \<Rightarrow> mac) \<Rightarrow> 'e list list \<Rightarrow> bool" where
  "tbl_invar n bm t \<longleftrightarrow> length t = n \<and> distinct (map bm (flat t))"

definition tbl_pairs :: "('e \<Rightarrow> mac) \<Rightarrow> ('e \<Rightarrow> mac) \<Rightarrow> 'e list list \<Rightarrow> (mac \<times> mac) list" where
  "tbl_pairs bm rm t = map (\<lambda>e. (bm e, rm e)) (flat t)"

text \<open>
  \<open>tbl_get key val t a\<close>: find the first entry whose \<open>key\<close> is \<open>a\<close> and read its \<open>val\<close> through the
  returned pointer.
\<close>

definition tbl_get :: "('e \<Rightarrow> mac) \<Rightarrow> ('e \<Rightarrow> mac) \<Rightarrow> 'e list list \<Rightarrow> mac \<Rightarrow> mac option" where
  "tbl_get key val t a = map_option (\<lambda>p. val (entry_at t p)) (table_scan (\<lambda>e. key e = a) t 0)"

lemma tbl_get_find [table_simps]:
  "tbl_get key val t a = map_option val (find (\<lambda>e. key e = a) (flat t))"
  by (simp add: tbl_get_def table_scan_find [symmetric] option.map_comp comp_def)

lemma tbl_get_None_iff: "tbl_get key val t a = None \<longleftrightarrow> a \<notin> key ` set (flat t)"
  by (simp add: tbl_get_find find_key_None_iff)

lemma tbl_get_scan_None: "tbl_get key val t a = None \<longleftrightarrow> table_scan (\<lambda>e. key e = a) t 0 = None"
  by (simp add: tbl_get_def)

lemma tbl_get_iff:
  assumes "distinct (map key (flat t))"
  shows "tbl_get key val t a = Some v \<longleftrightarrow> (\<exists>e\<in>set (flat t). key e = a \<and> val e = v)"
  using find_key_iff [OF assms, of a] by (auto simp: tbl_get_find)

locale chained_pairs =
  fixes n :: nat
    and bm :: "'e \<Rightarrow> mac"
    and rm :: "'e \<Rightarrow> mac"
    and set_rm :: "mac \<Rightarrow> 'e \<Rightarrow> 'e"
  assumes bm_set_rm: "bm (set_rm r e) = bm e"
    and rm_set_rm: "rm (set_rm r e) = r"

sublocale chained_pairs \<subseteq> mac_store "tbl_invar n bm" "tbl_pairs bm rm" "tbl_get bm rm" "tbl_get rm bm"
proof
  fix t :: "'e list list" and b r
  show "tbl_get bm rm t b = map_option snd (find (\<lambda>p. fst p = b) (tbl_pairs bm rm t))"
    by (simp add: tbl_get_find tbl_pairs_def find_map_key comp_def option.map_comp)
  show "tbl_get rm bm t r = map_option fst (find (\<lambda>p. snd p = r) (tbl_pairs bm rm t))"
    by (simp add: tbl_get_find tbl_pairs_def find_map_key comp_def option.map_comp)
  assume "tbl_invar n bm t"
  then show "distinct (bases (tbl_pairs bm rm t))"
    by (simp add: tbl_invar_def tbl_pairs_def bases_def comp_def)
qed

context chained_pairs
begin

lemma push_invar:
  assumes "tbl_invar n bm t" and "i < n" and "tbl_get bm rm t (bm e) = None"
  shows "tbl_invar n bm (push_entry i e t)"
proof -
  have "mset (map bm (flat (push_entry i e t))) = mset (bm e # map bm (flat t))"
    using assms(1,2) mset_flat_push [of i t e] by (simp add: tbl_invar_def mset_map)
  moreover have "distinct (bm e # map bm (flat t))"
    using assms(1,3) by (auto simp: tbl_invar_def tbl_get_None_iff)
  ultimately have "distinct (map bm (flat (push_entry i e t)))"
    using mset_eq_imp_distinct_iff by blast
  with assms(1) show ?thesis by (simp add: tbl_invar_def)
qed

lemma push_get:
  assumes "tbl_invar n bm t" and "i < n" and "tbl_get bm rm t (bm e) = None"
  shows "tbl_get bm rm (push_entry i e t) = (tbl_get bm rm t)(bm e \<mapsto> rm e)"
proof (rule ext)
  fix x
  have d: "distinct (map bm (flat t))" "distinct (map bm (flat (push_entry i e t)))"
    using assms push_invar [OF assms] by (simp_all add: tbl_invar_def)
  have s: "set (flat (push_entry i e t)) = insert e (set (flat t))"
    using assms(1,2) by (simp add: set_flat_push tbl_invar_def)
  have b: "\<forall>a\<in>set (flat t). bm a \<noteq> bm e"
    using assms(3) by (metis tbl_get_None_iff imageI)
  have "tbl_get bm rm (push_entry i e t) x = Some y \<longleftrightarrow>
      ((tbl_get bm rm t)(bm e \<mapsto> rm e)) x = Some y" for y
    using b by (auto simp: tbl_get_iff [OF d(1)] tbl_get_iff [OF d(2)] s)
  then show "tbl_get bm rm (push_entry i e t) x = ((tbl_get bm rm t)(bm e \<mapsto> rm e)) x"
    by (metis not_None_eq)
qed

lemma put_flat:
  "table_scan (\<lambda>e. bm e = b) t 0 = Some p \<Longrightarrow>
     flat (entry_put t p (set_rm r (entry_at t p))) = upd_first (\<lambda>e. bm e = b) (set_rm r) (flat t)"
  by (rule flat_entry_put)

lemma put_invar:
  assumes "tbl_invar n bm t" and "table_scan (\<lambda>e. bm e = b) t 0 = Some p"
  shows "tbl_invar n bm (entry_put t p (set_rm r (entry_at t p)))"
  using assms by (simp add: tbl_invar_def put_flat map_upd_first_same bm_set_rm)

lemma put_get:
  assumes "table_scan (\<lambda>e. bm e = b) t 0 = Some p"
  shows "tbl_get bm rm (entry_put t p (set_rm r (entry_at t p))) = (tbl_get bm rm t)(b \<mapsto> r)"
proof (rule ext)
  fix x
  have some: "find (\<lambda>e. bm e = b) (flat t) = Some (entry_at t p)"
    by (rule entry_at_scan [OF assms])
  show "tbl_get bm rm (entry_put t p (set_rm r (entry_at t p))) x = ((tbl_get bm rm t)(b \<mapsto> r)) x"
  proof (cases "x = b")
    case True
    with some show ?thesis
      by (simp add: tbl_get_find put_flat [OF assms] find_upd_first_same bm_set_rm rm_set_rm)
  next
    case False
    then have "find (\<lambda>e. bm e = x) (upd_first (\<lambda>e. bm e = b) (set_rm r) (flat t)) =
        find (\<lambda>e. bm e = x) (flat t)"
      by (intro find_upd_first_other) (auto simp: bm_set_rm)
    with False show ?thesis by (simp add: tbl_get_find put_flat [OF assms])
  qed
qed

text \<open>Removing by random address: nothing else changes, and the bases stay distinct.\<close>

lemma unlink_invar:
  assumes "tbl_invar n bm t" and "i < n"
  shows "tbl_invar n bm (unlink_entry P i t)"
proof (cases "\<exists>e\<in>set (t ! i). P e")
  case True
  with assms obtain e where "mset (flat t) = add_mset e (mset (flat (unlink_entry P i t)))"
    using unlink_entry_present [of i t P] by (auto simp: tbl_invar_def)
  then have "mset (map bm (flat t)) = mset (bm e # map bm (flat (unlink_entry P i t)))"
    by (simp add: mset_map)
  with assms(1) have "distinct (bm e # map bm (flat (unlink_entry P i t)))"
    using mset_eq_imp_distinct_iff unfolding tbl_invar_def by blast
  with assms(1) show ?thesis by (simp add: tbl_invar_def)
next
  case False
  with assms(1) show ?thesis by (simp add: unlink_entry_absent)
qed

lemma put_bucket_bases:
  assumes "table_scan (\<lambda>e. bm e = b) t 0 = Some p"
  shows "map bm (entry_put t p (set_rm r (entry_at t p)) ! i) = map bm (t ! i)"
proof (cases "i = fst p")
  case True
  from assms have "fst p < length t" "snd p < length (t ! fst p)"
    by (cases p; auto dest: table_scan_SomeD)+
  with True show ?thesis
    by (simp add: entry_put_def entry_at_def map_update bm_set_rm list_update_same_conv)
next
  case False
  then show ?thesis by (simp add: entry_put_def)
qed

text \<open>Unlinking from one bucket does not touch an entry that lives in another bucket.\<close>

lemma unlink_other_bucket:
  assumes "tbl_invar n bm t" and "i < n" and "j < n" and "i \<noteq> j" and "e \<in> set (t ! i)"
  shows "tbl_get bm rm (unlink_entry P j t) (bm e) = Some (rm e)"
proof -
  have "unlink_entry P j t ! i = t ! i"
    using assms(4) by (simp add: unlink_entry_def split: option.split)
  then have "e \<in> set (flat (unlink_entry P j t))"
    using assms(1,2,5) set_chain_flat [of i "unlink_entry P j t"] by (auto simp: tbl_invar_def)
  with unlink_invar [OF assms(1,3)] show ?thesis
    by (auto simp: tbl_invar_def tbl_get_iff)
qed

text \<open>
  An entry filed under bucket \<open>i\<close> and then given a random address that hashes to another bucket
  \<open>j\<close> survives a removal that looks in \<open>j\<close> only.
\<close>

lemma unlink_after_put:
  fixes r :: mac
  assumes inv: "tbl_invar n bm t" and "i < n" and "j < n" and "i \<noteq> j"
    and new: "tbl_get bm rm t (bm e) = None"
    and p: "table_scan (\<lambda>x. bm x = bm e) (push_entry i e t) 0 = Some p"
  defines "t' \<equiv> entry_put (push_entry i e t) p (set_rm r (entry_at (push_entry i e t) p))"
  shows "tbl_get bm rm (unlink_entry P j t') (bm e) = Some r"
proof -
  have inv1: "tbl_invar n bm (push_entry i e t)"
    by (rule push_invar [OF inv assms(2) new])
  then have inv': "tbl_invar n bm t'" unfolding t'_def by (rule put_invar [OF _ p])
  have get': "tbl_get bm rm t' (bm e) = Some r"
    unfolding t'_def by (simp add: put_get [OF p])
  have "map bm (t' ! i) = map bm (push_entry i e t ! i)"
    unfolding t'_def by (rule put_bucket_bases [OF p])
  moreover have "bm e \<in> set (map bm (push_entry i e t ! i))"
    using inv assms(2) by (simp add: push_entry_def tbl_invar_def)
  ultimately have "bm e \<in> set (map bm (t' ! i))" by simp
  then obtain x where x: "x \<in> set (t' ! i)" "bm x = bm e" by auto
  then have "x \<in> set (flat t')"
    using inv' assms(2) set_chain_flat [of i t'] by (auto simp: tbl_invar_def)
  with inv' x(2) have "tbl_get bm rm t' (bm e) = Some (rm x)"
    by (auto simp: tbl_invar_def tbl_get_iff)
  with get' have "rm x = r" by simp
  with unlink_other_bucket [OF inv' assms(2-4) x(1), of P] x(2) show ?thesis by simp
qed

end

end
