(* ===== verification/Mac_Translation_Table.thy ===== *)
theory Mac_Translation_Table
  imports Mac_Store
begin

text \<open>
  \<^verbatim>\<open>net/mac80211/mac_translation_table.c\<close>: the table of the access point that maps the base
  address of every associated station to the random address it currently uses. A global array of
  \<open>TABLE_SIZE\<close> chains; an entry is filed under the hash of the random address it is inserted with.
\<close>

section \<open>State and operations\<close>

abbreviation (input) TABLE_SIZE :: nat where "TABLE_SIZE \<equiv> 100"

record mac_translation_entry =
  base_mac :: mac
  random_mac :: mac

type_synonym translation_table = "mac_translation_entry list list"

definition translation_table_init :: translation_table where
  "translation_table_init = replicate TABLE_SIZE []"

text \<open>\<^verbatim>\<open>hash = (hash << 5) + mac[i]\<close> over the six bytes, in 32-bit arithmetic.\<close>

fun hash_loop :: "u32 \<Rightarrow> u8 list \<Rightarrow> u32" where
  "hash_loop h [] = h"
| "hash_loop h (b # bs) = hash_loop (push_bit 5 h + ucast b) bs"

definition hash_function :: "mac \<Rightarrow> nat" where
  "hash_function m = unat (hash_loop 0 (mac_bytes m) mod 100)"

text \<open>
  \<open>kmalloc_ok\<close> is the outcome of the allocation of the new node.
\<close>

definition insert_entry :: "bool \<Rightarrow> mac \<Rightarrow> mac \<Rightarrow> translation_table \<Rightarrow> translation_table" where
  "insert_entry kmalloc_ok base random t =
     (let index = hash_function random in
      if \<not> kmalloc_ok then t
      else push_entry index \<lparr>base_mac = base, random_mac = random\<rparr> t)"

definition search_by_random_mac :: "translation_table \<Rightarrow> mac \<Rightarrow> (nat \<times> nat) option" where
  "search_by_random_mac t random = table_scan (\<lambda>e. random_mac e = random) t 0"

definition search_by_base_mac :: "translation_table \<Rightarrow> mac \<Rightarrow> (nat \<times> nat) option" where
  "search_by_base_mac t base = table_scan (\<lambda>e. base_mac e = base) t 0"

definition update_entry_by_base :: "bool \<Rightarrow> mac \<Rightarrow> mac \<Rightarrow> translation_table \<Rightarrow> translation_table" where
  "update_entry_by_base kmalloc_ok base new_random t =
     (case search_by_base_mac t base of
        Some p \<Rightarrow> entry_put t p ((entry_at t p)\<lparr>random_mac := new_random\<rparr>)
      | None \<Rightarrow> insert_entry kmalloc_ok base new_random t)"

definition update_entry_by_random :: "mac \<Rightarrow> mac \<Rightarrow> translation_table \<Rightarrow> translation_table" where
  "update_entry_by_random random new_base t =
     (case search_by_random_mac t random of
        Some p \<Rightarrow> entry_put t p ((entry_at t p)\<lparr>base_mac := new_base\<rparr>)
      | None \<Rightarrow> t)"

text \<open>The lines the debug print writes: every pair, in the order of the walk.\<close>

fun print_mac_translation_table :: "translation_table \<Rightarrow> (mac \<times> mac) list" where
  "print_mac_translation_table [] = []"
| "print_mac_translation_table (c # cs) =
     map (\<lambda>e. (base_mac e, random_mac e)) c @ print_mac_translation_table cs"

definition delete_entry :: "mac \<Rightarrow> translation_table \<Rightarrow> translation_table" where
  "delete_entry random t =
     (let index = hash_function random in
      unlink_entry (\<lambda>e. random_mac e = random) index t)"

section \<open>The hash\<close>

lemma hash_function_bound [simp]: "hash_function m < TABLE_SIZE"
proof -
  have "unat (x mod 100) < 100" for x :: u32
    by (simp add: unat_mod)
  then show ?thesis by (simp add: hash_function_def)
qed

section \<open>The table as a store of address pairs\<close>

abbreviation mtt_invar :: "translation_table \<Rightarrow> bool" where
  "mtt_invar \<equiv> tbl_invar TABLE_SIZE base_mac"

abbreviation mtt_pairs :: "translation_table \<Rightarrow> (mac \<times> mac) list" where
  "mtt_pairs \<equiv> tbl_pairs base_mac random_mac"

abbreviation random_of_base :: "translation_table \<Rightarrow> mac \<Rightarrow> mac option" where
  "random_of_base \<equiv> tbl_get base_mac random_mac"

abbreviation base_of_random :: "translation_table \<Rightarrow> mac \<Rightarrow> mac option" where
  "base_of_random \<equiv> tbl_get random_mac base_mac"

interpretation mtt: chained_pairs TABLE_SIZE base_mac random_mac
  "\<lambda>r e. e\<lparr>random_mac := r\<rparr>"
  by unfold_locales simp_all

lemma search_by_base_mac_None_iff [table_simps]:
  "search_by_base_mac t b = None \<longleftrightarrow> random_of_base t b = None"
  by (simp add: search_by_base_mac_def tbl_get_scan_None)

lemma print_mac_translation_table_pairs: "print_mac_translation_table t = mtt_pairs t"
  by (induction t) (simp_all add: tbl_pairs_def flat_simps)

lemma mtt_invar_init: "mtt_invar translation_table_init"
  by (simp add: tbl_invar_def translation_table_init_def flat_def)

lemma random_of_base_init [simp]: "random_of_base translation_table_init b = None"
  by (simp add: tbl_get_None_iff translation_table_init_def flat_def)

lemma insert_entry_fail [simp]: "insert_entry False b r t = t"
  by (simp add: insert_entry_def)

lemma insert_entry_invar:
  "mtt_invar t \<Longrightarrow> random_of_base t b = None \<Longrightarrow> mtt_invar (insert_entry ok b r t)"
  by (simp add: insert_entry_def mtt.push_invar)

lemma insert_entry_random_of_base:
  "mtt_invar t \<Longrightarrow> random_of_base t b = None \<Longrightarrow>
     random_of_base (insert_entry True b r t) = (random_of_base t)(b \<mapsto> r)"
  by (simp add: insert_entry_def mtt.push_get)

lemma update_entry_by_base_invar:
  "mtt_invar t \<Longrightarrow> mtt_invar (update_entry_by_base ok b r t)"
  by (auto simp: update_entry_by_base_def insert_entry_invar search_by_base_mac_def mtt.put_invar
      tbl_get_scan_None split: option.split)

lemma update_entry_by_base_random_of_base:
  "mtt_invar t \<Longrightarrow> ok \<or> random_of_base t b \<noteq> None \<Longrightarrow>
     random_of_base (update_entry_by_base ok b r t) = (random_of_base t)(b \<mapsto> r)"
  by (auto simp: update_entry_by_base_def insert_entry_random_of_base search_by_base_mac_def
      mtt.put_get tbl_get_scan_None split: option.split)

lemma update_entry_by_base_no_memory:
  "random_of_base t b = None \<Longrightarrow> update_entry_by_base False b r t = t"
  by (simp add: update_entry_by_base_def search_by_base_mac_None_iff [THEN iffD2])

lemma delete_entry_invar: "mtt_invar t \<Longrightarrow> mtt_invar (delete_entry r t)"
  by (simp add: delete_entry_def mtt.unlink_invar)

interpretation mtt: mac_store_upd mtt_invar mtt_pairs random_of_base base_of_random
  "insert_entry True" "update_entry_by_base True" "\<lambda>t b. True"
  by unfold_locales
    (auto simp: insert_entry_random_of_base insert_entry_invar update_entry_by_base_invar
      update_entry_by_base_random_of_base)

section \<open>Properties\<close>

text \<open>
  The bucket index is the value of the six bytes as digits of weight 32 (the shift by five
  bits), reduced to 32 bits and then modulo the table size; in particular it always is a valid
  index of the table.
\<close>

theorem hash_function_value:
  "hash_function (Mac a b c d e f) =
     (unat a * 32 ^ 5 + unat b * 32 ^ 4 + unat c * 32 ^ 3 + unat d * 32 ^ 2 + unat e * 32 + unat f)
       mod 2 ^ 32 mod TABLE_SIZE \<and>
   hash_function (Mac a b c d e f) < TABLE_SIZE"
proof -
  let ?h = "hash_loop 0 (mac_bytes (Mac a b c d e f))"
  have "?h = word_of_nat (unat a * 32 ^ 5 + unat b * 32 ^ 4 + unat c * 32 ^ 3 + unat d * 32 ^ 2 +
      unat e * 32 + unat f)"
    by (simp add: push_bit_eq_mult algebra_simps)
  then have "unat ?h = (unat a * 32 ^ 5 + unat b * 32 ^ 4 + unat c * 32 ^ 3 + unat d * 32 ^ 2 +
      unat e * 32 + unat f) mod 2 ^ 32"
    by (simp only: unat_of_nat) simp
  then show ?thesis using hash_function_bound [of "Mac a b c d e f"]
    by (simp only: hash_function_def unat_mod) simp
qed

text \<open>
  C28: Updating the translation table by base address refines a map update: provided the allocation
  of a new node succeeds when one is needed, exactly the given base address maps to the new random
  address afterwards and no other base address is affected; when the allocation fails the table is
  unchanged. The invariant (100 chains, no base address twice) is kept in every case.
\<close>

theorem update_entry_by_base_refines:
  assumes "mtt_invar t"
  shows "mtt_invar (update_entry_by_base ok b r t) \<and>
    random_of_base (update_entry_by_base ok b r t) =
      (if ok \<or> random_of_base t b \<noteq> None then (random_of_base t)(b \<mapsto> r) else random_of_base t)"
  using assms by (auto simp: update_entry_by_base_invar update_entry_by_base_random_of_base
      update_entry_by_base_no_memory)

theorem update_entry_by_base_refines_witness:
  "mtt_invar translation_table_init \<and>
   random_of_base (update_entry_by_base True (Mac 1 2 3 4 5 6) (Mac 2 0 0 0 0 9) translation_table_init)
     (Mac 1 2 3 4 5 6) = Some (Mac 2 0 0 0 0 9)"
  using update_entry_by_base_refines [OF mtt_invar_init, of True "Mac 1 2 3 4 5 6" "Mac 2 0 0 0 0 9"]
  by (simp add: mtt_invar_init)

text \<open>
  Deleting by the random address an entry was inserted with restores the table exactly.
\<close>

theorem delete_insert_round_trip:
  assumes "length t = TABLE_SIZE"
  shows "delete_entry r (insert_entry True b r t) = t"
  using assms by (simp add: delete_entry_def insert_entry_def unlink_entry_def push_entry_def)

theorem delete_insert_round_trip_witness:
  "delete_entry (Mac 2 0 0 0 0 9) (insert_entry True (Mac 1 2 3 4 5 6) (Mac 2 0 0 0 0 9)
     translation_table_init) = translation_table_init"
  by (rule delete_insert_round_trip) (simp add: translation_table_init_def)

text \<open>
  C34: An entry keeps the bucket of the random address it was inserted with. Once it has been
  re-randomised to an address that hashes to another bucket, deleting by the current random address
  does not remove it: the station is still translated afterwards.
\<close>

theorem delete_entry_misses_rerandomised:
  assumes "mtt_invar t" and "random_of_base t b = None" and "hash_function r1 \<noteq> hash_function r2"
  shows "random_of_base
    (delete_entry r2 (update_entry_by_base ok b r2 (insert_entry True b r1 t))) b = Some r2"
proof -
  let ?e = "\<lparr>base_mac = b, random_mac = r1\<rparr>"
  let ?t = "push_entry (hash_function r1) ?e t"
  have "random_of_base ?t b = Some r1"
    using assms(1,2) mtt.push_get [of t "hash_function r1" ?e] by simp
  then obtain p where p: "table_scan (\<lambda>x. base_mac x = base_mac ?e) ?t 0 = Some p"
    by (metis mac_translation_entry.select_convs(1) not_None_eq tbl_get_scan_None)
  with mtt.unlink_after_put [OF assms(1) _ _ assms(3) _ p, of "\<lambda>e. random_mac e = r2" r2] assms(2)
  show ?thesis
    by (simp add: insert_entry_def update_entry_by_base_def search_by_base_mac_def delete_entry_def)
qed

theorem delete_entry_misses_rerandomised_witness:
  "random_of_base (delete_entry (Mac 2 0 0 0 0 9) (update_entry_by_base True (Mac 1 2 3 4 5 6)
     (Mac 2 0 0 0 0 9) (insert_entry True (Mac 1 2 3 4 5 6) (Mac 1 2 3 4 5 6) translation_table_init)))
     (Mac 1 2 3 4 5 6) = Some (Mac 2 0 0 0 0 9)"
  by (rule delete_entry_misses_rerandomised)
    (simp_all add: mtt_invar_init hash_function_def push_bit_eq_mult)

end
