(* ===== verification/Mac_Pair_Station.thy ===== *)
theory Mac_Pair_Station
  imports Mac_Store
begin

text \<open>
  \<^verbatim>\<open>net/mac80211/mac_pair_station.c\<close>: the table of a station that pairs its interface address
  with the random address it currently uses. Like the translation table of the access point, with
  ten chains, and with an update that does not insert.
\<close>

section \<open>State and operations\<close>

abbreviation (input) S_TABLE_SIZE :: nat where "S_TABLE_SIZE \<equiv> 10"

record mac_pair =
  s_base_mac :: mac
  s_random_mac :: mac

type_synonym s_translation_table = "mac_pair list list"

definition s_translation_table_init :: s_translation_table where
  "s_translation_table_init = replicate S_TABLE_SIZE []"

fun s_hash_loop :: "u32 \<Rightarrow> u8 list \<Rightarrow> u32" where
  "s_hash_loop h [] = h"
| "s_hash_loop h (b # bs) = s_hash_loop (push_bit 5 h + ucast b) bs"

definition s_hash_function :: "mac \<Rightarrow> nat" where
  "s_hash_function m = unat (s_hash_loop 0 (mac_bytes m) mod 10)"

definition s_insert_entry :: "bool \<Rightarrow> mac \<Rightarrow> mac \<Rightarrow> s_translation_table \<Rightarrow> s_translation_table" where
  "s_insert_entry kmalloc_ok base random t =
     (let index = s_hash_function random in
      if \<not> kmalloc_ok then t
      else push_entry index \<lparr>s_base_mac = base, s_random_mac = random\<rparr> t)"

definition s_search_by_random_mac :: "s_translation_table \<Rightarrow> mac \<Rightarrow> (nat \<times> nat) option" where
  "s_search_by_random_mac t random = table_scan (\<lambda>e. s_random_mac e = random) t 0"

definition s_search_by_base_mac :: "s_translation_table \<Rightarrow> mac \<Rightarrow> (nat \<times> nat) option" where
  "s_search_by_base_mac t base = table_scan (\<lambda>e. s_base_mac e = base) t 0"

definition s_update_entry_by_base :: "mac \<Rightarrow> mac \<Rightarrow> s_translation_table \<Rightarrow> s_translation_table" where
  "s_update_entry_by_base base new_random t =
     (case s_search_by_base_mac t base of
        Some p \<Rightarrow> entry_put t p ((entry_at t p)\<lparr>s_random_mac := new_random\<rparr>)
      | None \<Rightarrow> t)"

definition s_update_entry_by_random :: "mac \<Rightarrow> mac \<Rightarrow> s_translation_table \<Rightarrow> s_translation_table" where
  "s_update_entry_by_random random new_base t =
     (case s_search_by_random_mac t random of
        Some p \<Rightarrow> entry_put t p ((entry_at t p)\<lparr>s_base_mac := new_base\<rparr>)
      | None \<Rightarrow> t)"

fun print_mac_pair_table :: "s_translation_table \<Rightarrow> (mac \<times> mac) list" where
  "print_mac_pair_table [] = []"
| "print_mac_pair_table (c # cs) =
     map (\<lambda>e. (s_base_mac e, s_random_mac e)) c @ print_mac_pair_table cs"

definition s_delete_entry :: "mac \<Rightarrow> s_translation_table \<Rightarrow> s_translation_table" where
  "s_delete_entry random t =
     (let index = s_hash_function random in
      unlink_entry (\<lambda>e. s_random_mac e = random) index t)"

section \<open>The hash\<close>

lemma s_hash_function_bound [simp]: "s_hash_function m < S_TABLE_SIZE"
proof -
  have "unat (x mod 10) < 10" for x :: u32
    by (simp add: unat_mod)
  then show ?thesis by (simp add: s_hash_function_def)
qed

section \<open>The table as a store of address pairs\<close>

abbreviation mp_invar :: "s_translation_table \<Rightarrow> bool" where
  "mp_invar \<equiv> tbl_invar S_TABLE_SIZE s_base_mac"

abbreviation mp_pairs :: "s_translation_table \<Rightarrow> (mac \<times> mac) list" where
  "mp_pairs \<equiv> tbl_pairs s_base_mac s_random_mac"

abbreviation s_random_of_base :: "s_translation_table \<Rightarrow> mac \<Rightarrow> mac option" where
  "s_random_of_base \<equiv> tbl_get s_base_mac s_random_mac"

abbreviation s_base_of_random :: "s_translation_table \<Rightarrow> mac \<Rightarrow> mac option" where
  "s_base_of_random \<equiv> tbl_get s_random_mac s_base_mac"

interpretation mp: chained_pairs S_TABLE_SIZE s_base_mac s_random_mac
  "\<lambda>r e. e\<lparr>s_random_mac := r\<rparr>"
  by unfold_locales simp_all

lemma s_search_by_base_mac_None_iff [table_simps]:
  "s_search_by_base_mac t b = None \<longleftrightarrow> s_random_of_base t b = None"
  by (simp add: s_search_by_base_mac_def tbl_get_scan_None)

lemma print_mac_pair_table_pairs: "print_mac_pair_table t = mp_pairs t"
  by (induction t) (simp_all add: tbl_pairs_def flat_simps)

lemma mp_invar_init: "mp_invar s_translation_table_init"
  by (simp add: tbl_invar_def s_translation_table_init_def flat_def)

lemma s_random_of_base_init [simp]: "s_random_of_base s_translation_table_init b = None"
  by (simp add: tbl_get_None_iff s_translation_table_init_def flat_def)

lemma s_insert_entry_fail [simp]: "s_insert_entry False b r t = t"
  by (simp add: s_insert_entry_def)

lemma s_insert_entry_invar:
  "mp_invar t \<Longrightarrow> s_random_of_base t b = None \<Longrightarrow> mp_invar (s_insert_entry ok b r t)"
  by (simp add: s_insert_entry_def mp.push_invar)

lemma s_insert_entry_random_of_base:
  "mp_invar t \<Longrightarrow> s_random_of_base t b = None \<Longrightarrow>
     s_random_of_base (s_insert_entry True b r t) = (s_random_of_base t)(b \<mapsto> r)"
  by (simp add: s_insert_entry_def mp.push_get)

lemma s_update_entry_by_base_invar:
  "mp_invar t \<Longrightarrow> mp_invar (s_update_entry_by_base b r t)"
  by (auto simp: s_update_entry_by_base_def s_search_by_base_mac_def mp.put_invar
      split: option.split)

lemma s_update_entry_by_base_random_of_base:
  "s_random_of_base t b \<noteq> None \<Longrightarrow>
     s_random_of_base (s_update_entry_by_base b r t) = (s_random_of_base t)(b \<mapsto> r)"
  by (auto simp: s_update_entry_by_base_def s_search_by_base_mac_def mp.put_get
      tbl_get_scan_None split: option.split)

lemma s_update_entry_by_base_absent:
  "s_random_of_base t b = None \<Longrightarrow> s_update_entry_by_base b r t = t"
  by (simp add: s_update_entry_by_base_def s_search_by_base_mac_None_iff [THEN iffD2])

lemma s_delete_entry_invar: "mp_invar t \<Longrightarrow> mp_invar (s_delete_entry r t)"
  by (simp add: s_delete_entry_def mp.unlink_invar)

lemma s_delete_entry_absent:
  assumes "mp_invar t" and "s_base_of_random t r = None"
  shows "s_delete_entry r t = t"
proof -
  have "set (t ! s_hash_function r) \<subseteq> set (flat t)"
    using assms(1) by (intro set_chain_flat) (simp add: tbl_invar_def)
  with assms(2) have "\<forall>e\<in>set (t ! s_hash_function r). s_random_mac e \<noteq> r"
    by (auto simp: tbl_get_None_iff)
  then show ?thesis by (simp add: s_delete_entry_def unlink_entry_absent)
qed

interpretation mp: mac_store_upd mp_invar mp_pairs s_random_of_base s_base_of_random
  "s_insert_entry True" s_update_entry_by_base "\<lambda>t b. s_random_of_base t b \<noteq> None"
  by unfold_locales
    (auto simp: s_insert_entry_random_of_base s_insert_entry_invar s_update_entry_by_base_invar
      s_update_entry_by_base_random_of_base)

section \<open>Properties\<close>

text \<open>
  When a station re-randomises its interface address, the pair table afterwards behaves as the
  table before with exactly that one base address mapped to the new random address; a base address
  that has no entry leaves the table untouched (unlike the access point's update, nothing is
  inserted). The invariant is kept in both cases.
\<close>

theorem s_update_entry_by_base_refines:
  assumes "mp_invar t"
  shows "mp_invar (s_update_entry_by_base b r t) \<and>
    (s_random_of_base t b \<noteq> None \<longrightarrow>
       s_random_of_base (s_update_entry_by_base b r t) = (s_random_of_base t)(b \<mapsto> r)) \<and>
    (s_random_of_base t b = None \<longrightarrow> s_update_entry_by_base b r t = t)"
  using assms by (simp add: s_update_entry_by_base_invar s_update_entry_by_base_random_of_base
      s_update_entry_by_base_absent)

theorem s_update_entry_by_base_refines_witness:
  "mp_invar s_translation_table_init \<and>
   s_update_entry_by_base (Mac 1 2 3 4 5 6) (Mac 2 0 0 0 0 9) s_translation_table_init =
     s_translation_table_init"
  using s_update_entry_by_base_refines [OF mp_invar_init, of "Mac 1 2 3 4 5 6" "Mac 2 0 0 0 0 9"]
  by (simp add: mp_invar_init)

end
