(* ===== verification/Ieee80211.thy ===== *)
theory Ieee80211
  imports Prelude
begin

text \<open>
  \<^verbatim>\<open>include/linux/ieee80211.h\<close>: frame headers, the classification of frames by their frame-control
  field and modulo-4096 sequence-number arithmetic, with \<open>ieee80211_hdrlen\<close> of
  \<^verbatim>\<open>net/wireless/util.c\<close>. Frame-control and sequence-control fields are held in CPU byte order;
  the target is little-endian, so the \<open>cpu_to_le16\<close> conversions of the source are the identity.
\<close>

section \<open>Frame control\<close>

abbreviation (input) IEEE80211_FCTL_FTYPE :: u16 where "IEEE80211_FCTL_FTYPE \<equiv> 0x000c"
abbreviation (input) IEEE80211_FCTL_STYPE :: u16 where "IEEE80211_FCTL_STYPE \<equiv> 0x00f0"
abbreviation (input) IEEE80211_FTYPE_MGMT :: u16 where "IEEE80211_FTYPE_MGMT \<equiv> 0x0000"
abbreviation (input) IEEE80211_FTYPE_CTL :: u16 where "IEEE80211_FTYPE_CTL \<equiv> 0x0004"
abbreviation (input) IEEE80211_FTYPE_DATA :: u16 where "IEEE80211_FTYPE_DATA \<equiv> 0x0008"

definition ieee80211_has_tods :: "u16 \<Rightarrow> bool" where
  "ieee80211_has_tods fc \<longleftrightarrow> fc AND 0x0100 \<noteq> 0"

definition ieee80211_has_fromds :: "u16 \<Rightarrow> bool" where
  "ieee80211_has_fromds fc \<longleftrightarrow> fc AND 0x0200 \<noteq> 0"

definition ieee80211_has_a4 :: "u16 \<Rightarrow> bool" where
  "ieee80211_has_a4 fc \<longleftrightarrow> fc AND 0x0300 = 0x0300"

definition ieee80211_has_morefrags :: "u16 \<Rightarrow> bool" where
  "ieee80211_has_morefrags fc \<longleftrightarrow> fc AND 0x0400 \<noteq> 0"

definition ieee80211_has_retry :: "u16 \<Rightarrow> bool" where
  "ieee80211_has_retry fc \<longleftrightarrow> fc AND 0x0800 \<noteq> 0"

definition ieee80211_has_pm :: "u16 \<Rightarrow> bool" where
  "ieee80211_has_pm fc \<longleftrightarrow> fc AND 0x1000 \<noteq> 0"

definition ieee80211_has_moredata :: "u16 \<Rightarrow> bool" where
  "ieee80211_has_moredata fc \<longleftrightarrow> fc AND 0x2000 \<noteq> 0"

definition ieee80211_has_protected :: "u16 \<Rightarrow> bool" where
  "ieee80211_has_protected fc \<longleftrightarrow> fc AND 0x4000 \<noteq> 0"

definition ieee80211_has_order :: "u16 \<Rightarrow> bool" where
  "ieee80211_has_order fc \<longleftrightarrow> fc AND 0x8000 \<noteq> 0"

definition ieee80211_is_mgmt :: "u16 \<Rightarrow> bool" where
  "ieee80211_is_mgmt fc \<longleftrightarrow> fc AND IEEE80211_FCTL_FTYPE = IEEE80211_FTYPE_MGMT"

definition ieee80211_is_ctl :: "u16 \<Rightarrow> bool" where
  "ieee80211_is_ctl fc \<longleftrightarrow> fc AND IEEE80211_FCTL_FTYPE = IEEE80211_FTYPE_CTL"

definition ieee80211_is_data :: "u16 \<Rightarrow> bool" where
  "ieee80211_is_data fc \<longleftrightarrow> fc AND IEEE80211_FCTL_FTYPE = IEEE80211_FTYPE_DATA"

definition ieee80211_is_data_qos :: "u16 \<Rightarrow> bool" where
  "ieee80211_is_data_qos fc \<longleftrightarrow> fc AND (IEEE80211_FCTL_FTYPE OR 0x0080) = IEEE80211_FTYPE_DATA OR 0x0080"

definition ieee80211_is_data_present :: "u16 \<Rightarrow> bool" where
  "ieee80211_is_data_present fc \<longleftrightarrow> fc AND (IEEE80211_FCTL_FTYPE OR 0x40) = IEEE80211_FTYPE_DATA"

text \<open>The type and subtype of a frame, as the single-subtype predicates compare them.\<close>

definition fc_type_stype :: "u16 \<Rightarrow> u16" where
  "fc_type_stype fc = fc AND (IEEE80211_FCTL_FTYPE OR IEEE80211_FCTL_STYPE)"

definition ieee80211_is_assoc_req :: "u16 \<Rightarrow> bool" where
  "ieee80211_is_assoc_req fc \<longleftrightarrow> fc_type_stype fc = IEEE80211_FTYPE_MGMT OR 0x0000"

definition ieee80211_is_assoc_resp :: "u16 \<Rightarrow> bool" where
  "ieee80211_is_assoc_resp fc \<longleftrightarrow> fc_type_stype fc = IEEE80211_FTYPE_MGMT OR 0x0010"

definition ieee80211_is_reassoc_req :: "u16 \<Rightarrow> bool" where
  "ieee80211_is_reassoc_req fc \<longleftrightarrow> fc_type_stype fc = IEEE80211_FTYPE_MGMT OR 0x0020"

definition ieee80211_is_reassoc_resp :: "u16 \<Rightarrow> bool" where
  "ieee80211_is_reassoc_resp fc \<longleftrightarrow> fc_type_stype fc = IEEE80211_FTYPE_MGMT OR 0x0030"

definition ieee80211_is_probe_req :: "u16 \<Rightarrow> bool" where
  "ieee80211_is_probe_req fc \<longleftrightarrow> fc_type_stype fc = IEEE80211_FTYPE_MGMT OR 0x0040"

definition ieee80211_is_probe_resp :: "u16 \<Rightarrow> bool" where
  "ieee80211_is_probe_resp fc \<longleftrightarrow> fc_type_stype fc = IEEE80211_FTYPE_MGMT OR 0x0050"

definition ieee80211_is_beacon :: "u16 \<Rightarrow> bool" where
  "ieee80211_is_beacon fc \<longleftrightarrow> fc_type_stype fc = IEEE80211_FTYPE_MGMT OR 0x0080"

definition ieee80211_is_atim :: "u16 \<Rightarrow> bool" where
  "ieee80211_is_atim fc \<longleftrightarrow> fc_type_stype fc = IEEE80211_FTYPE_MGMT OR 0x0090"

definition ieee80211_is_disassoc :: "u16 \<Rightarrow> bool" where
  "ieee80211_is_disassoc fc \<longleftrightarrow> fc_type_stype fc = IEEE80211_FTYPE_MGMT OR 0x00A0"

definition ieee80211_is_auth :: "u16 \<Rightarrow> bool" where
  "ieee80211_is_auth fc \<longleftrightarrow> fc_type_stype fc = IEEE80211_FTYPE_MGMT OR 0x00B0"

definition ieee80211_is_deauth :: "u16 \<Rightarrow> bool" where
  "ieee80211_is_deauth fc \<longleftrightarrow> fc_type_stype fc = IEEE80211_FTYPE_MGMT OR 0x00C0"

definition ieee80211_is_action :: "u16 \<Rightarrow> bool" where
  "ieee80211_is_action fc \<longleftrightarrow> fc_type_stype fc = IEEE80211_FTYPE_MGMT OR 0x00D0"

definition ieee80211_is_back_req :: "u16 \<Rightarrow> bool" where
  "ieee80211_is_back_req fc \<longleftrightarrow> fc_type_stype fc = IEEE80211_FTYPE_CTL OR 0x0080"

definition ieee80211_is_back :: "u16 \<Rightarrow> bool" where
  "ieee80211_is_back fc \<longleftrightarrow> fc_type_stype fc = IEEE80211_FTYPE_CTL OR 0x0090"

definition ieee80211_is_pspoll :: "u16 \<Rightarrow> bool" where
  "ieee80211_is_pspoll fc \<longleftrightarrow> fc_type_stype fc = IEEE80211_FTYPE_CTL OR 0x00A0"

definition ieee80211_is_nullfunc :: "u16 \<Rightarrow> bool" where
  "ieee80211_is_nullfunc fc \<longleftrightarrow> fc_type_stype fc = IEEE80211_FTYPE_DATA OR 0x0040"

definition ieee80211_is_qos_nullfunc :: "u16 \<Rightarrow> bool" where
  "ieee80211_is_qos_nullfunc fc \<longleftrightarrow> fc_type_stype fc = IEEE80211_FTYPE_DATA OR 0x00C0"

definition ieee80211_is_any_nullfunc :: "u16 \<Rightarrow> bool" where
  "ieee80211_is_any_nullfunc fc \<longleftrightarrow> ieee80211_is_nullfunc fc \<or> ieee80211_is_qos_nullfunc fc"

definition ieee80211_is_bufferable_mmpdu :: "u16 \<Rightarrow> bool" where
  "ieee80211_is_bufferable_mmpdu fc \<longleftrightarrow>
     ieee80211_is_mgmt fc \<and>
     (ieee80211_is_action fc \<or> ieee80211_is_disassoc fc \<or> ieee80211_is_deauth fc)"

definition ieee80211_is_first_frag :: "u16 \<Rightarrow> bool" where
  "ieee80211_is_first_frag seq_ctrl \<longleftrightarrow> seq_ctrl AND 0x000F = 0"

section \<open>Headers\<close>

record ieee80211_hdr =
  frame_control :: u16
  duration_id :: u16
  addr1 :: mac
  addr2 :: mac
  addr3 :: mac
  seq_ctrl :: u16
  addr4 :: mac

definition ieee80211_is_frag :: "ieee80211_hdr \<Rightarrow> bool" where
  "ieee80211_is_frag hdr \<longleftrightarrow>
     ieee80211_has_morefrags (frame_control hdr) \<or> seq_ctrl hdr AND 0x000F \<noteq> 0"

text \<open>
  The packed 30-byte structure as it lies over the bytes of a frame. The \<open>addr4\<close> field is bytes
  24 to 29 of the frame, whether or not the frame has a fourth address.
\<close>

fun hdr_load :: "u8 list \<Rightarrow> ieee80211_hdr result" where
  "hdr_load (f0 # f1 # d0 # d1 # a1 # a2 # a3 # a4 # a5 # a6 # b1 # b2 # b3 # b4 # b5 # b6 #
     c1 # c2 # c3 # c4 # c5 # c6 # s0 # s1 # e1 # e2 # e3 # e4 # e5 # e6 # rest) =
     Inr \<lparr>frame_control = le16_of f0 f1, duration_id = le16_of d0 d1,
          addr1 = Mac a1 a2 a3 a4 a5 a6, addr2 = Mac b1 b2 b3 b4 b5 b6,
          addr3 = Mac c1 c2 c3 c4 c5 c6, seq_ctrl = le16_of s0 s1,
          addr4 = Mac e1 e2 e3 e4 e5 e6\<rparr>"
| "hdr_load _ = Inl OutOfBounds"

text \<open>
  Code that reads single fields of a short frame touches only the bytes of those fields.
\<close>

definition hdr_fc :: "u8 list \<Rightarrow> u16 result" where
  "hdr_fc bs = rbind (arr_get bs 0) (\<lambda>lo. rbind (arr_get bs 1) (\<lambda>hi. Inr (le16_of lo hi)))"

definition hdr_seq_ctrl :: "u8 list \<Rightarrow> u16 result" where
  "hdr_seq_ctrl bs = rbind (arr_get bs 22) (\<lambda>lo. rbind (arr_get bs 23) (\<lambda>hi. Inr (le16_of lo hi)))"

definition hdr_addr1 :: "u8 list \<Rightarrow> mac result" where
  "hdr_addr1 bs = mac_of_bytes (drop 4 bs)"

definition set_hdr_fc :: "u16 \<Rightarrow> u8 list \<Rightarrow> u8 list result" where
  "set_hdr_fc fc bs = buf_write bs 0 (le16_bytes fc)"

definition set_hdr_seq_ctrl :: "u16 \<Rightarrow> u8 list \<Rightarrow> u8 list result" where
  "set_hdr_seq_ctrl sc bs = buf_write bs 22 (le16_bytes sc)"

definition hdr_bytes :: "ieee80211_hdr \<Rightarrow> u8 list" where
  "hdr_bytes h = le16_bytes (frame_control h) @ le16_bytes (duration_id h) @ mac_bytes (addr1 h) @
     mac_bytes (addr2 h) @ mac_bytes (addr3 h) @ le16_bytes (seq_ctrl h) @ mac_bytes (addr4 h)"

definition hdr_store :: "ieee80211_hdr \<Rightarrow> u8 list \<Rightarrow> u8 list" where
  "hdr_store h bs = hdr_bytes h @ drop 30 bs"

lemma length_hdr_bytes [simp]: "length (hdr_bytes h) = 30"
  by (simp add: hdr_bytes_def)

lemma hdr_load_append: "hdr_load (hdr_bytes h @ rest) = Inr h"
  by (cases "addr1 h"; cases "addr2 h"; cases "addr3 h"; cases "addr4 h")
    (simp add: hdr_bytes_def le16_bytes_def)

lemma hdr_load_store: "hdr_load (hdr_store h bs) = Inr h"
  by (simp add: hdr_store_def hdr_load_append)

lemma length_hdr_store: "30 \<le> length bs \<Longrightarrow> length (hdr_store h bs) = length bs"
  by (simp add: hdr_store_def)

lemma hdr_load_ok: "30 \<le> length bs \<Longrightarrow> \<exists>h. hdr_load bs = Inr h \<and> hdr_store h bs = bs"
proof -
  assume "30 \<le> length bs"
  then obtain f0 f1 d0 d1 a1 a2 a3 a4 a5 a6 b1 b2 b3 b4 b5 b6 c1 c2 c3 c4 c5 c6 s0 s1
      e1 e2 e3 e4 e5 e6 rest where
    "bs = f0 # f1 # d0 # d1 # a1 # a2 # a3 # a4 # a5 # a6 # b1 # b2 # b3 # b4 # b5 # b6 #
     c1 # c2 # c3 # c4 # c5 # c6 # s0 # s1 # e1 # e2 # e3 # e4 # e5 # e6 # rest"
    by (auto simp: numeral_eq_Suc Suc_le_length_iff)
  then show ?thesis by (simp add: hdr_store_def hdr_bytes_def le16_bytes_def)
qed

text \<open>Multicast addresses have the group bit, the lowest bit of the first byte, set.\<close>

fun is_multicast_ether_addr :: "mac \<Rightarrow> bool" where
  "is_multicast_ether_addr (Mac a b c d e f) = (a AND 0x01 \<noteq> 0)"

fun is_local_ether_addr :: "mac \<Rightarrow> bool" where
  "is_local_ether_addr (Mac a b c d e f) = (a AND 0x02 \<noteq> 0)"

definition ieee80211_get_SA :: "ieee80211_hdr \<Rightarrow> mac" where
  "ieee80211_get_SA hdr =
     (if ieee80211_has_a4 (frame_control hdr) then addr4 hdr
      else if ieee80211_has_fromds (frame_control hdr) then addr3 hdr
      else addr2 hdr)"

definition ieee80211_get_DA :: "ieee80211_hdr \<Rightarrow> mac" where
  "ieee80211_get_DA hdr =
     (if ieee80211_has_tods (frame_control hdr) then addr3 hdr else addr1 hdr)"

section \<open>Header length\<close>

abbreviation (input) IEEE80211_QOS_CTL_LEN :: nat where "IEEE80211_QOS_CTL_LEN \<equiv> 2"
abbreviation (input) IEEE80211_HT_CTL_LEN :: nat where "IEEE80211_HT_CTL_LEN \<equiv> 4"

definition ieee80211_hdrlen :: "u16 \<Rightarrow> nat" where
  "ieee80211_hdrlen fc =
     (if ieee80211_is_data fc then
        (let hdrlen = (if ieee80211_has_a4 fc then 30 else 24) in
         if ieee80211_is_data_qos fc then
           (let hdrlen = hdrlen + IEEE80211_QOS_CTL_LEN in
            if ieee80211_has_order fc then hdrlen + IEEE80211_HT_CTL_LEN else hdrlen)
         else hdrlen)
      else if ieee80211_is_mgmt fc then
        (if ieee80211_has_order fc then 24 + IEEE80211_HT_CTL_LEN else 24)
      else if ieee80211_is_ctl fc then
        (if fc AND 0x00E0 = 0x00C0 then 10 else 16)
      else 24)"

definition ieee80211_get_qos_ctl :: "u16 \<Rightarrow> nat" where
  "ieee80211_get_qos_ctl fc = (if ieee80211_has_a4 fc then 30 else 24)"

text \<open>The TID is the low four bits of the first QoS control byte of the frame.\<close>

definition ieee80211_get_tid :: "u8 list \<Rightarrow> u8 result" where
  "ieee80211_get_tid bs =
     rbind (hdr_fc bs) (\<lambda>fc.
     rbind (arr_get bs (ieee80211_get_qos_ctl fc)) (\<lambda>b. Inr (b AND 0x0f)))"

section \<open>Robust and group-privacy management frames\<close>

text \<open>The category byte of an action frame is byte 24; the checked variants take the frame length.\<close>

abbreviation (input) IEEE80211_MIN_ACTION_SIZE :: nat where "IEEE80211_MIN_ACTION_SIZE \<equiv> 25"

definition ieee80211_is_robust_mgmt_frame_hdr :: "u8 list \<Rightarrow> bool result" where
  "ieee80211_is_robust_mgmt_frame_hdr bs =
     rbind (hdr_fc bs) (\<lambda>fc.
     if ieee80211_is_disassoc fc \<or> ieee80211_is_deauth fc then Inr True
     else if ieee80211_is_action fc then
       (if ieee80211_has_protected fc then Inr True
        else rbind (arr_get bs 24) (\<lambda>category.
          Inr (category \<noteq> 4 \<and> category \<noteq> 7 \<and> category \<noteq> 11 \<and> category \<noteq> 15 \<and>
               category \<noteq> 20 \<and> category \<noteq> 21 \<and> category \<noteq> 127)))
     else Inr False)"

definition ieee80211_is_robust_mgmt_frame :: "nat \<Rightarrow> u8 list \<Rightarrow> bool result" where
  "ieee80211_is_robust_mgmt_frame len bs =
     (if len < IEEE80211_MIN_ACTION_SIZE then Inr False else ieee80211_is_robust_mgmt_frame_hdr bs)"

definition ieee80211_is_public_action :: "nat \<Rightarrow> u8 list \<Rightarrow> bool result" where
  "ieee80211_is_public_action len bs =
     (if len < IEEE80211_MIN_ACTION_SIZE then Inr False
      else rbind (hdr_fc bs) (\<lambda>fc.
        if \<not> ieee80211_is_action fc then Inr False
        else rbind (arr_get bs 24) (\<lambda>category. Inr (category = 4))))"

definition ieee80211_is_group_privacy_action_hdr :: "u8 list \<Rightarrow> bool result" where
  "ieee80211_is_group_privacy_action_hdr bs =
     rbind (hdr_fc bs) (\<lambda>fc.
     if \<not> ieee80211_is_action fc then Inr False
     else rbind (hdr_addr1 bs) (\<lambda>a1.
       if \<not> is_multicast_ether_addr a1 then Inr False
       else rbind (arr_get bs 24) (\<lambda>category. Inr (category = 13 \<or> category = 14))))"

definition ieee80211_is_group_privacy_action :: "nat \<Rightarrow> u8 list \<Rightarrow> bool result" where
  "ieee80211_is_group_privacy_action len bs =
     (if len < IEEE80211_MIN_ACTION_SIZE then Inr False
      else ieee80211_is_group_privacy_action_hdr bs)"

section \<open>Sequence numbers\<close>

abbreviation (input) IEEE80211_SN_MASK :: u16 where "IEEE80211_SN_MASK \<equiv> 0x0fff"

definition ieee80211_sn_less :: "u16 \<Rightarrow> u16 \<Rightarrow> bool" where
  "ieee80211_sn_less sn1 sn2 \<longleftrightarrow> (sn1 - sn2) AND IEEE80211_SN_MASK > 2048"

definition ieee80211_sn_add :: "u16 \<Rightarrow> u16 \<Rightarrow> u16" where
  "ieee80211_sn_add sn1 sn2 = (sn1 + sn2) AND IEEE80211_SN_MASK"

definition ieee80211_sn_inc :: "u16 \<Rightarrow> u16" where
  "ieee80211_sn_inc sn = ieee80211_sn_add sn 1"

definition ieee80211_sn_sub :: "u16 \<Rightarrow> u16 \<Rightarrow> u16" where
  "ieee80211_sn_sub sn1 sn2 = (sn1 - sn2) AND IEEE80211_SN_MASK"

section \<open>Facts about the classification\<close>

lemma frame_types_exclusive [frame_simps]:
  "ieee80211_is_data fc \<Longrightarrow> \<not> ieee80211_is_mgmt fc"
  "ieee80211_is_data fc \<Longrightarrow> \<not> ieee80211_is_ctl fc"
  "ieee80211_is_mgmt fc \<Longrightarrow> \<not> ieee80211_is_ctl fc"
  by (auto simp: ieee80211_is_data_def ieee80211_is_mgmt_def ieee80211_is_ctl_def)

lemma fc_type_stype_ftype: "fc_type_stype fc AND IEEE80211_FCTL_FTYPE = fc AND IEEE80211_FCTL_FTYPE"
  by (simp add: fc_type_stype_def and.assoc)

lemma deauth_is_mgmt [frame_simps]: "ieee80211_is_deauth fc \<Longrightarrow> ieee80211_is_mgmt fc"
  using fc_type_stype_ftype [of fc] by (simp add: ieee80211_is_deauth_def ieee80211_is_mgmt_def)

lemma qos_is_data [frame_simps]: "ieee80211_is_data_qos fc \<Longrightarrow> ieee80211_is_data fc"
proof -
  assume "ieee80211_is_data_qos fc"
  then have "(fc AND 0x8c) AND 0x0c = 0x88 AND 0x0c" by (simp add: ieee80211_is_data_qos_def)
  then show ?thesis by (simp add: ieee80211_is_data_def and.assoc)
qed

lemma mask12: "x AND IEEE80211_SN_MASK = take_bit 12 x"
  by (simp add: take_bit_eq_mask mask_eq_exp_minus_1)

lemma unat_sn_mask: "unat (x AND IEEE80211_SN_MASK) = unat x mod 4096"
  by (simp only: mask12 unsigned_take_bit_eq) (simp add: take_bit_eq_mod)

lemma uint_sn_mask: "uint (x AND IEEE80211_SN_MASK) = uint x mod 4096"
  by (simp only: mask12 unsigned_take_bit_eq) (simp add: take_bit_eq_mod)

lemma uint_sn_add: "uint (ieee80211_sn_add a b) = (uint a + uint b) mod 4096"
  by (simp add: ieee80211_sn_add_def uint_sn_mask uint_word_ariths mod_mod_cancel)

lemma uint_sn_sub: "uint (ieee80211_sn_sub a b) = (uint a - uint b) mod 4096"
  by (simp add: ieee80211_sn_sub_def uint_sn_mask uint_word_ariths mod_mod_cancel)

lemma unat_sn_add: "unat (ieee80211_sn_add a b) = (unat a + unat b) mod 4096"
  by (simp add: ieee80211_sn_add_def unat_sn_mask unat_word_ariths mod_mod_cancel)

lemma sn_add_bound: "unat (ieee80211_sn_add a b) < 4096"
  by (simp add: unat_sn_add)

lemma sn_sub_bound: "unat (ieee80211_sn_sub a b) < 4096"
  by (simp add: ieee80211_sn_sub_def unat_sn_mask)

lemma sn_sub_add:
  assumes "uint a < 4096"
  shows "ieee80211_sn_sub (ieee80211_sn_add a b) b = a"
proof -
  have "uint (ieee80211_sn_sub (ieee80211_sn_add a b) b) = uint a mod 4096"
    by (simp add: uint_sn_sub uint_sn_add mod_simps)
  with assms show ?thesis by (simp add: word_uint_eq_iff)
qed

section \<open>Facts about header fields\<close>

lemma hdrlen_values: "ieee80211_hdrlen fc \<in> {10, 16, 24, 26, 28, 30, 32, 36}"
  by (simp add: ieee80211_hdrlen_def Let_def)

lemma hdr_fc_ok: "2 \<le> length bs \<Longrightarrow> hdr_fc bs = Inr (le16_of (bs ! 0) (bs ! 1))"
  by (auto simp: hdr_fc_def arr_get_def)

lemma hdr_load_fields:
  assumes "hdr_load bs = Inr h"
  shows "30 \<le> length bs" "hdr_fc bs = Inr (frame_control h)" "hdr_addr1 bs = Inr (addr1 h)"
    "hdr_seq_ctrl bs = Inr (seq_ctrl h)"
  using assms
  by (auto simp: hdr_fc_def hdr_addr1_def hdr_seq_ctrl_def arr_get_def elim!: hdr_load.elims)

lemma is_action_is_mgmt [frame_simps]: "ieee80211_is_action fc \<Longrightarrow> ieee80211_is_mgmt fc"
  using fc_type_stype_ftype [of fc] by (simp add: ieee80211_is_action_def ieee80211_is_mgmt_def fc_type_stype_def)

lemma is_data_present_is_data [frame_simps]: "ieee80211_is_data_present fc \<Longrightarrow> ieee80211_is_data fc"
proof -
  assume "ieee80211_is_data_present fc"
  then have "fc AND 0x004c = 0x0008" by (simp add: ieee80211_is_data_present_def)
  then have "(fc AND 0x004c) AND 0x000c = (8 :: u16)" by simp
  then show ?thesis by (simp add: and.assoc ieee80211_is_data_def)
qed

section \<open>Properties\<close>

text \<open>
  The header length of a frame is one of eight values, and only control frames have a header
  shorter than the 24 bytes of a three-address header; a data frame's length accounts for its
  fourth address, its QoS control field and its HT control field.
\<close>

theorem ieee80211_hdrlen_values:
  "ieee80211_hdrlen fc \<in> {10, 16, 24, 26, 28, 30, 32, 36} \<and>
   (ieee80211_hdrlen fc < 24 \<longleftrightarrow> ieee80211_is_ctl fc) \<and>
   (ieee80211_is_data fc \<longrightarrow>
      ieee80211_hdrlen fc = 24 + (if ieee80211_has_a4 fc then 6 else 0) +
        (if ieee80211_is_data_qos fc then 2 + (if ieee80211_has_order fc then 4 else 0) else 0))"
proof (intro conjI)
  show "ieee80211_hdrlen fc \<in> {10, 16, 24, 26, 28, 30, 32, 36}" by (rule hdrlen_values)
  show "ieee80211_hdrlen fc < 24 \<longleftrightarrow> ieee80211_is_ctl fc"
    using frame_types_exclusive [of fc] by (auto simp: ieee80211_hdrlen_def Let_def)
  show "ieee80211_is_data fc \<longrightarrow> ieee80211_hdrlen fc = 24 + (if ieee80211_has_a4 fc then 6 else 0) +
      (if ieee80211_is_data_qos fc then 2 + (if ieee80211_has_order fc then 4 else 0) else 0)"
    by (simp add: ieee80211_hdrlen_def Let_def)
qed

theorem ieee80211_hdrlen_values_witness:
  "ieee80211_is_data 0x0388 \<and> ieee80211_hdrlen 0x0388 = 32"
  using ieee80211_hdrlen_values [of "0x0388"]
  by (simp add: ieee80211_is_data_def ieee80211_has_a4_def ieee80211_is_data_qos_def ieee80211_has_order_def)

end
