(* ===== verification/Mac80211_State.thy ===== *)
theory Mac80211_State
  imports Mac_Translation_Table Mac_Pair_Station Ieee80211
begin

text \<open>
  The objects of mac80211 the address randomisation reads and writes: keys, stations and virtual
  interfaces, in explicit stores indexed by pointers (natural numbers), because stations share the
  interface they belong to and an interface's multicast key is shared by all of them. One
  \<open>ieee80211_local\<close> is modelled; its fields and the module's globals are the fields of \<open>world\<close>.
\<close>

section \<open>Enumerations\<close>

datatype nl80211_iftype =
    NL80211_IFTYPE_UNSPECIFIED | NL80211_IFTYPE_ADHOC | NL80211_IFTYPE_STATION
  | NL80211_IFTYPE_AP | NL80211_IFTYPE_AP_VLAN | NL80211_IFTYPE_WDS | NL80211_IFTYPE_MONITOR
  | NL80211_IFTYPE_MESH_POINT | NL80211_IFTYPE_P2P_CLIENT | NL80211_IFTYPE_P2P_GO
  | NL80211_IFTYPE_P2P_DEVICE | NL80211_IFTYPE_OCB | NL80211_IFTYPE_NAN

datatype ieee80211_sta_state =
    IEEE80211_STA_NOTEXIST | IEEE80211_STA_NONE | IEEE80211_STA_AUTH | IEEE80211_STA_ASSOC
  | IEEE80211_STA_AUTHORIZED

text \<open>The station states are ordered as the enumeration lists them.\<close>

fun sta_state_rank :: "ieee80211_sta_state \<Rightarrow> nat" where
  "sta_state_rank IEEE80211_STA_NOTEXIST = 0"
| "sta_state_rank IEEE80211_STA_NONE = 1"
| "sta_state_rank IEEE80211_STA_AUTH = 2"
| "sta_state_rank IEEE80211_STA_ASSOC = 3"
| "sta_state_rank IEEE80211_STA_AUTHORIZED = 4"

instantiation ieee80211_sta_state :: linorder
begin

definition less_eq_ieee80211_sta_state :: "ieee80211_sta_state \<Rightarrow> ieee80211_sta_state \<Rightarrow> bool" where
  "less_eq_ieee80211_sta_state a b \<longleftrightarrow> sta_state_rank a \<le> sta_state_rank b"

definition less_ieee80211_sta_state :: "ieee80211_sta_state \<Rightarrow> ieee80211_sta_state \<Rightarrow> bool" where
  "less_ieee80211_sta_state a b \<longleftrightarrow> sta_state_rank a < sta_state_rank b"

instance
proof
  fix x y :: ieee80211_sta_state
  show "x \<le> y \<Longrightarrow> y \<le> x \<Longrightarrow> x = y"
    by (cases x; cases y) (simp_all add: less_eq_ieee80211_sta_state_def)
qed (auto simp: less_eq_ieee80211_sta_state_def less_ieee80211_sta_state_def)

end

section \<open>Objects\<close>

type_synonym key_ptr = nat
type_synonym sta_ptr = nat
type_synonym sdata_ptr = nat

text \<open>The contexts of the TKIP key mixing: the phase 1 key and the counter it was computed for.\<close>

datatype ieee80211_internal_tkip_state =
    TKIP_STATE_NOT_INIT | TKIP_STATE_PHASE1_DONE | TKIP_STATE_PHASE1_HW_UPLOADED

record tkip_ctx =
  p1k :: "u16 list"
  p1k_iv32 :: u32
  tkip_state :: ieee80211_internal_tkip_state

record tkip_ctx_rx =
  rx_ctx :: tkip_ctx
  rx_iv32 :: u32
  rx_iv16 :: u16

text \<open>
  \<open>conf_key\<close> is \<^verbatim>\<open>conf.key[0..keylen)\<close>, so \<^verbatim>\<open>conf.keylen\<close> is its length. Of the union \<open>u\<close> of the key
  structure the members in use for its cipher matter: the receive packet numbers per TID of CCMP and
  GCMP (\<open>key_rx_pn\<close>), the one of the management ciphers (\<open>bip_rx_pn\<close>), the transmit state of TKIP, its receive
  state per TID and the error counters.
\<close>

record ieee80211_key =
  conf_tx_pn :: u64
  conf_cipher :: u32
  conf_flags :: u16
  conf_iv_len :: nat
  conf_keyidx :: u8
  conf_key :: "u8 list"
  key_flags :: u32
  key_rx_pn :: "u8 list list"
  bip_rx_pn :: "u8 list"
  key_replays :: u32
  key_icverrors :: u32
  tkip_tx :: tkip_ctx
  tkip_rx :: "tkip_ctx_rx list"
  mic_failures :: u32
  key_sdata :: "sdata_ptr option"
  key_sta :: "sta_ptr option"
  conf_icv_len :: nat

text \<open>
  A linear socket buffer: the headroom \<open>skb_head\<close> before \<open>skb->data\<close>, the bytes from \<open>skb->data\<close> to the
  end of the allocated buffer, the first \<open>skb_len\<close> of which are the frame, and the control-block
  fields the transmit path uses.
\<close>

record sk_buff =
  skb_head :: "u8 list"
  skb_data :: "u8 list"
  skb_len :: nat
  skb_protocol :: u16
  info_flags :: u32
  info_control_flags :: u32
  info_hw_key :: "key_ptr option"
  info_vif :: "sdata_ptr option"
  info_hw_queue :: nat
  info_rates_idx :: "int list"
  info_jiffies :: u64
  skb_queue_mapping :: nat
  skb_priority :: nat

text \<open>
  An entry of the reassembly table of an interface, with the queued buffers and the \<open>flag\<close> and \<open>rx_flags\<close>
  of their receive status, and a cipher scheme of the hardware.
\<close>

type_synonym frag_skb = "sk_buff \<times> u32 \<times> u8"

record ieee80211_fragment_entry =
  frag_skb_list :: "frag_skb list"
  first_frag_time :: u64
  frag_seq :: u16
  extra_len :: nat
  last_frag :: u16
  frag_rx_queue :: nat
  check_sequential_pn :: bool
  frag_last_pn :: "u8 list"

record ieee80211_cipher_scheme =
  cs_hdr_len :: nat
  cs_pn_len :: nat
  cs_pn_off :: nat
  cs_key_idx_off :: nat
  cs_key_idx_mask :: u8
  cs_key_idx_shift :: nat
  cs_mic_len :: nat

text \<open>
  Power save: what an access point keeps for its sleeping stations (\<open>ps_data\<close>, in the interface), and of a station's structure the frames
  buffered for it (the two arrays of queues as functions of the access category), the traffic identifiers with frames in the driver and in the
  intermediate queues, and its parameters.
\<close>

record ps_data =
  ps_tim :: "u8 list"
  bc_buf :: "sk_buff list"
  num_sta_ps :: int

record sta_ps_data =
  ps_tx_buf :: "nat \<Rightarrow> sk_buff list"
  tx_filtered :: "nat \<Rightarrow> sk_buff list"
  driver_buffered_tids :: u64
  txq_buffered_tids :: u64
  sta_aid :: u16
  uapsd_queues :: u8
  max_sp :: u8
  listen_interval :: u16

record ieee80211_sub_if_data =
  vif_type :: nl80211_iftype
  vif_addr :: mac
  sequence_number :: u16
  default_unicast_key :: "key_ptr option"
  default_multicast_key :: "key_ptr option"
  default_mgmt_key :: "key_ptr option"
  sdata_start_time_period :: int
  control_port_protocol :: u16
  control_port_no_encrypt :: bool
  monitor_active :: bool
  sdata_bss :: "sdata_ptr option"
  vif_hw_queue :: "nat list"
  fragments :: "ieee80211_fragment_entry list"
  fragment_next :: nat
  sdata_keys :: "key_ptr option list"
  use_4addr :: bool
  ibss_bssid :: mac
  wds_remote_addr :: mac
  dev_addr :: mac
  mgd_bssid :: mac
  wdev_use_4addr :: bool
  vlan_sta :: "sta_ptr option"
  num_mcast_sta :: int
  sdata_flags :: u32
  has_chanctx :: bool
  control_port_over_nl80211 :: bool
  encrypt_headroom :: nat
  crypto_tx_tailroom_needed_cnt :: int
  dev_rx_packets :: u64
  dev_rx_bytes :: u64
  sdata_ps :: ps_data
  beacon_int :: u16
  iface_running :: bool
  key_list :: "key_ptr list"
  crypto_tx_tailroom_pending_dec :: int
  ap_vlans :: "sdata_ptr list"
  mgd_mfp :: bool

text \<open>
  \<open>sta_flags\<close> is the flag word \<open>_flags\<close>, whose bits the state machine and power save use; the flags for encryption, management
  frame protection, TDLS and the four-address event have fields of their own.
\<close>

record sta_info =
  sta_addr :: mac
  sta_sdata :: sdata_ptr
  ptk :: "key_ptr option list"
  ptk_idx :: nat
  start_time_period :: int
  sta_state :: ieee80211_sta_state
  sta_uses_encryption :: bool
  sta_mfp :: bool
  tid_seq :: "u16 list"
  uploaded :: bool
  tx_msdu :: "u64 list"
  tx_bytes :: "u64 list"
  tx_packets :: "u64 list"
  gtk :: "key_ptr option list"
  cipher_scheme :: "ieee80211_cipher_scheme option"
  last_seq_ctrl :: "u16 list"
  num_duplicates :: u64
  rx_packets :: u64
  sta_wme :: bool
  tdls_peer :: bool
  tdls_authorized :: bool
  four_addr_event :: bool
  rx_msdu :: "u64 list"
  sta_flags :: u64
  sta_ps :: sta_ps_data
  sta_dead :: bool
  sta_removed :: bool

record wireless_dev =
  wdev_netdev :: bool
  iftype :: nl80211_iftype

text \<open>
  \<open>sta_hash\<close> is the content of the station hash table (an \<open>rhltable\<close> of the kernel): the stations
  filed under an address.
\<close>

record world =
  translation_table :: translation_table
  s_translation_table :: s_translation_table
  keys :: "key_ptr \<Rightarrow> ieee80211_key option"
  stas :: "sta_ptr \<Rightarrow> sta_info option"
  sdatas :: "sdata_ptr \<Rightarrow> ieee80211_sub_if_data option"
  sta_list :: "sta_ptr list"
  interfaces :: "sdata_ptr list"
  wdev_list :: "wireless_dev list"
  sta_hash :: "mac \<Rightarrow> sta_ptr list"
  ccmp_reset :: bool
  send_custom_packet :: bool
  RND_MAC :: bool
  wep_iv :: u32
  num_sta :: int
  sta_generation :: int
  total_ps_buffered :: int

text \<open>
  The buffer operations: \<open>skb_push\<close>, \<open>skb_pull\<close>, \<open>skb_put\<close> and \<open>skb_trim\<close>. Growing beyond the headroom
  or the tailroom stops the kernel; pulling more than there is leaves the buffer alone.
\<close>

definition skb_tailroom :: "sk_buff \<Rightarrow> nat" where
  "skb_tailroom skb = length (skb_data skb) - skb_len skb"

definition skb_headroom :: "sk_buff \<Rightarrow> nat" where
  "skb_headroom skb = length (skb_head skb)"

definition skb_push :: "nat \<Rightarrow> sk_buff \<Rightarrow> sk_buff result" where
  "skb_push n skb =
     (if skb_headroom skb < n then Inl OutOfBounds
      else let k = skb_headroom skb - n in
        Inr (skb\<lparr>skb_head := take k (skb_head skb), skb_data := drop k (skb_head skb) @ skb_data skb,
                skb_len := skb_len skb + n\<rparr>))"

definition skb_pull :: "nat \<Rightarrow> sk_buff \<Rightarrow> sk_buff" where
  "skb_pull n skb =
     (if skb_len skb < n then skb
      else skb\<lparr>skb_head := skb_head skb @ take n (skb_data skb), skb_data := drop n (skb_data skb),
              skb_len := skb_len skb - n\<rparr>)"

definition skb_put :: "nat \<Rightarrow> sk_buff \<Rightarrow> sk_buff result" where
  "skb_put n skb =
     (if skb_tailroom skb < n then Inl OutOfBounds else Inr (skb\<lparr>skb_len := skb_len skb + n\<rparr>))"

definition skb_trim :: "nat \<Rightarrow> sk_buff \<Rightarrow> sk_buff" where
  "skb_trim n skb = (if n < skb_len skb then skb\<lparr>skb_len := n\<rparr> else skb)"

text \<open>\<^verbatim>\<open>struct ieee80211_tx_data\<close>; \<open>tx_local\<close> says whether the pointer is set.\<close>

record ieee80211_tx_data =
  tx_skb :: "sk_buff option"
  tx_skbs :: "sk_buff list"
  tx_local :: bool
  tx_sdata :: "sdata_ptr option"
  tx_sta :: "sta_ptr option"
  tx_key :: "key_ptr option"
  tx_flags :: u32

text \<open>\<^verbatim>\<open>atomic64_set(&key->conf.tx_pn, pn)\<close>\<close>

definition set_tx_pn :: "key_ptr \<Rightarrow> u64 \<Rightarrow> world \<Rightarrow> world result" where
  "set_tx_pn kp pn w =
     rbind (deref (keys w) kp) (\<lambda>k. Inr (w\<lparr>keys := (keys w)(kp \<mapsto> k\<lparr>conf_tx_pn := pn\<rparr>)\<rparr>))"

definition put_key :: "key_ptr \<Rightarrow> ieee80211_key \<Rightarrow> world \<Rightarrow> world" where
  "put_key kp k w = w\<lparr>keys := (keys w)(kp \<mapsto> k)\<rparr>"

definition put_sdata :: "sdata_ptr \<Rightarrow> ieee80211_sub_if_data \<Rightarrow> world \<Rightarrow> world" where
  "put_sdata sp sd w = w\<lparr>sdatas := (sdatas w)(sp \<mapsto> sd)\<rparr>"

definition put_sta :: "sta_ptr \<Rightarrow> sta_info \<Rightarrow> world \<Rightarrow> world" where
  "put_sta p s w = w\<lparr>stas := (stas w)(p \<mapsto> s)\<rparr>"

definition ieee80211_vif_get_num_mcast_if :: "ieee80211_sub_if_data \<Rightarrow> int" where
  "ieee80211_vif_get_num_mcast_if sdata =
     (if vif_type sdata = NL80211_IFTYPE_AP \<or> vif_type sdata = NL80211_IFTYPE_AP_VLAN \<and> vlan_sta sdata = None
      then num_mcast_sta sdata else - 1)"

text \<open>\<^verbatim>\<open>rcu_dereference(sta->ptk[sta->ptk_idx])\<close>\<close>

definition sta_ptk :: "sta_info \<Rightarrow> key_ptr option result" where
  "sta_ptk s = arr_get (ptk s) (ptk_idx s)"

text \<open>
  Well-formed worlds: the tables satisfy their invariants and every pointer the station list and
  the interface list can reach is valid.
\<close>

definition sdata_ok :: "world \<Rightarrow> ieee80211_sub_if_data \<Rightarrow> bool" where
  "sdata_ok w sd \<longleftrightarrow>
     (\<forall>k. default_multicast_key sd = Some k \<longrightarrow> keys w k \<noteq> None) \<and>
     (\<forall>k. default_unicast_key sd = Some k \<longrightarrow> keys w k \<noteq> None) \<and>
     (\<forall>k. default_mgmt_key sd = Some k \<longrightarrow> keys w k \<noteq> None)"

definition sta_ok :: "world \<Rightarrow> sta_info \<Rightarrow> bool" where
  "sta_ok w s \<longleftrightarrow>
     (\<exists>sd. sdatas w (sta_sdata s) = Some sd \<and> sdata_ok w sd) \<and>
     ptk_idx s < length (ptk s) \<and>
     (\<forall>k. ptk s ! ptk_idx s = Some k \<longrightarrow> keys w k \<noteq> None)"

definition world_ok :: "world \<Rightarrow> bool" where
  "world_ok w \<longleftrightarrow>
     mtt_invar (translation_table w) \<and> mp_invar (s_translation_table w) \<and>
     (\<forall>p\<in>set (sta_list w). \<exists>s. stas w p = Some s \<and> sta_ok w s) \<and>
     (\<forall>sp\<in>set (interfaces w). \<exists>sd. sdatas w sp = Some sd)"

end
