(* ===== verification/Mac_Add_Gen.thy ===== *)
theory Mac_Add_Gen
  imports Mac80211_State "HOL-Library.Signed_Division"
begin

text \<open>
  \<^verbatim>\<open>net/mac80211/mac_add_gen.c\<close>: derivation of the random addresses from the pairwise key, the base
  address and the time period, for every station of an access point and for a station itself, with
  the reset of the sequence counter and of the CCMP packet numbers that goes with a new address.

  SHA-1 is the kernel's crypto API: a parameter \<open>sha1\<close> of the definitions. Allocation outcomes and
  the clock readings of \<open>generate_pn\<close> are the fields of an environment record.
\<close>

section \<open>Packet numbers\<close>

abbreviation (input) RND_TP :: int where "RND_TP \<equiv> 15"

text \<open>
  \<^verbatim>\<open>while (result >>= 1) log_result++;\<close> on a signed \<open>int\<close>: the arithmetic shift of a negative number
  never reaches zero, so the loop may not end.
\<close>

partial_function (option) log_loop :: "int \<Rightarrow> int \<Rightarrow> int option" where
  "log_loop result log_result =
     (let result = drop_bit 1 result in
      if result \<noteq> 0 then log_loop result (log_result + 1) else Some log_result)"

definition calculate_l :: "int \<Rightarrow> int \<Rightarrow> int option" where
  "calculate_l bitrate avg_frame_size =
     Option.bind (log_loop (s32_wrap (bitrate * RND_TP) sdiv avg_frame_size) 0)
       (\<lambda>log_result. Some (log_result + 1))"

definition calculate_h :: "int \<Rightarrow> int" where
  "calculate_h l = 48 - l"

text \<open>
  \<open>generate_pn\<close> computes \<open>l\<close> and \<open>h\<close> and then overwrites both with 24; \<open>t_epoch\<close> is the reading
  of \<open>ktime_get_real_seconds\<close> as an unsigned 64-bit value.
\<close>

definition generate_pn :: "u64 \<Rightarrow> u64 option" where
  "generate_pn t_epoch =
     Option.bind (calculate_l 94000 1500) (\<lambda>l.
     let h = calculate_h l;
         h = 24; l = 24;
         pn_h = (t_epoch div 15) mod push_bit h 1;
         pn_l = 0
     in Some (push_bit l pn_h OR pn_l))"

section \<open>Environment\<close>

abbreviation (input) GEN_DATA_SIZE :: nat where "GEN_DATA_SIZE \<equiv> 30"

text \<open>
  \<open>data_alloc\<close> is the result of \<^verbatim>\<open>kmalloc(total_size)\<close>: \<^const>\<open>None\<close> on failure, else the
  (arbitrary) initial contents of the 30 bytes. \<open>entry_alloc\<close> is the outcome of the table-node
  allocation and \<open>pn_clock\<close> the clock reading of \<open>generate_pn\<close> made while a station is processed.
\<close>

record gen_env =
  data_alloc :: "u8 list option"
  shash_alloc :: bool
  desc_alloc :: bool
  entry_alloc :: "sta_ptr \<Rightarrow> bool"
  pn_clock :: "sta_ptr \<Rightarrow> u64"

text \<open>\<^verbatim>\<open>hash[0] = (hash[0] & 0xFC) | 0x02; memcpy(r_mac, hash, ETH_ALEN)\<close>\<close>

fun fix_first_byte :: "u8 list \<Rightarrow> u8 list" where
  "fix_first_byte [] = []"
| "fix_first_byte (h # hs) = ((h AND 0xFC) OR 0x02) # hs"

definition mac_from_hash :: "u8 list \<Rightarrow> mac result" where
  "mac_from_hash hash = mac_of_bytes (fix_first_byte hash)"

text \<open>
  The packet number loop of \<open>generate_pn\<close> always ends (its inputs are constants), so a call of it
  from the generators has a value; \<^const>\<open>None\<close> would be a call that hangs.
\<close>

definition gen_pn_of :: "u64 \<Rightarrow> u64 result" where
  "gen_pn_of t = (case generate_pn t of Some pn \<Rightarrow> Inr pn | None \<Rightarrow> Inl Hangs)"

section \<open>All stations of an access point\<close>

text \<open>
  The part of the loop body that derives \<open>r_mac\<close>: the shared buffer \<open>data\<close> is filled with the key
  at offset 0, the address at 16 and the period at 22, and hashed as a whole. Without a pairwise
  key the base address is kept.
\<close>

definition ap_r_mac ::
  "(u8 list \<Rightarrow> u8 list) \<Rightarrow> int \<Rightarrow> ieee80211_key option \<Rightarrow> mac \<Rightarrow> u8 list \<Rightarrow> (mac \<times> u8 list) result" where
  "ap_r_mac sha1 current_tp key dest_mac_addr data =
     (case key of
        None \<Rightarrow> Inr (dest_mac_addr, data)
      | Some k \<Rightarrow>
          rbind (buf_write data 0 (conf_key k)) (\<lambda>data.
          rbind (buf_write data 16 (mac_bytes dest_mac_addr)) (\<lambda>data.
          rbind (buf_write data (ETH_ALEN + 16) (le64_bytes (word_of_int current_tp))) (\<lambda>data.
          rbind (mac_from_hash (sha1 data)) (\<lambda>r_mac. Inr (r_mac, data))))))"

text \<open>
  Reset of the packet numbers: the pairwise key through the pointer \<open>key\<close>, which may be null, and
  the interface's multicast key if there is one.
\<close>

definition ap_reset_pn ::
  "u64 \<Rightarrow> key_ptr option \<Rightarrow> ieee80211_sub_if_data \<Rightarrow> world \<Rightarrow> world result" where
  "ap_reset_pn t key sdata w =
     (if ccmp_reset w then
        rbind (gen_pn_of t) (\<lambda>rndpn64.
        case key of
          None \<Rightarrow> Inl NullDeref
        | Some kp \<Rightarrow>
            rbind (set_tx_pn kp rndpn64 w) (\<lambda>w.
            case default_multicast_key sdata of
              None \<Rightarrow> Inr w
            | Some gk \<Rightarrow> set_tx_pn gk rndpn64 w))
      else Inr w)"

definition ap_gen_station ::
  "(u8 list \<Rightarrow> u8 list) \<Rightarrow> gen_env \<Rightarrow> int \<Rightarrow> sta_ptr \<Rightarrow> u8 list \<times> world \<Rightarrow> (u8 list \<times> world) result" where
  "ap_gen_station sha1 env current_tp p st =
     (case st of (data, w) \<Rightarrow>
        rbind (deref (stas w) p) (\<lambda>sta.
        rbind (sta_ptk sta) (\<lambda>kp.
        rbind (case kp of None \<Rightarrow> Inr None | Some q \<Rightarrow> rbind (deref (keys w) q) (\<lambda>k. Inr (Some k))) (\<lambda>key.
        rbind (ap_r_mac sha1 current_tp key (sta_addr sta) data) (\<lambda>(r_mac, data).
        rbind (deref (sdatas w) (sta_sdata sta)) (\<lambda>sdata.
        let sdata = sdata\<lparr>sequence_number := 0\<rparr>;
            w = put_sdata (sta_sdata sta) sdata w
        in rbind (ap_reset_pn (pn_clock env p) kp sdata w) (\<lambda>w.
           Inr (data,
             w\<lparr>translation_table :=
                 update_entry_by_base (entry_alloc env p) (sta_addr sta) r_mac
                   (translation_table w)\<rparr>))))))))"

fun ap_gen_loop ::
  "(u8 list \<Rightarrow> u8 list) \<Rightarrow> gen_env \<Rightarrow> int \<Rightarrow> sta_ptr list \<Rightarrow> u8 list \<times> world \<Rightarrow> (u8 list \<times> world) result" where
  "ap_gen_loop sha1 env current_tp [] st = Inr st"
| "ap_gen_loop sha1 env current_tp (p # ps) st =
     rbind (ap_gen_station sha1 env current_tp p st) (ap_gen_loop sha1 env current_tp ps)"

definition generate_mac_add_ap_all ::
  "(u8 list \<Rightarrow> u8 list) \<Rightarrow> gen_env \<Rightarrow> int \<Rightarrow> world \<Rightarrow> world result" where
  "generate_mac_add_ap_all sha1 env current_tp w =
     (case data_alloc env of
        None \<Rightarrow> Inr w
      | Some data \<Rightarrow>
          if \<not> shash_alloc env then Inr w
          else if \<not> desc_alloc env then Inr w
          else
            rbind (ap_gen_loop sha1 env current_tp (sta_list w) (data, w)) (\<lambda>(data, w).
            Inr (w\<lparr>send_custom_packet := True\<rparr>)))"

section \<open>A station\<close>

text \<open>
  The station's own derivation: the same layout, except that the period is written right after the
  \<^emph>\<open>actual\<close> length of the key plus six bytes. Without a key the buffer is hashed as allocated.
\<close>

definition sta_fill_data :: "int \<Rightarrow> ieee80211_key option \<Rightarrow> mac \<Rightarrow> u8 list \<Rightarrow> u8 list result" where
  "sta_fill_data current_tp key interface_mac_addr data =
     (case key of
        None \<Rightarrow> Inr data
      | Some k \<Rightarrow>
          rbind (buf_write data 0 (conf_key k)) (\<lambda>data.
          rbind (buf_write data 16 (mac_bytes interface_mac_addr)) (\<lambda>data.
          buf_write data (ETH_ALEN + length (conf_key k)) (le64_bytes (word_of_int current_tp)))))"

definition generate_mac_add_sta ::
  "(u8 list \<Rightarrow> u8 list) \<Rightarrow> gen_env \<Rightarrow> sta_ptr \<Rightarrow> int \<Rightarrow> world \<Rightarrow> world result" where
  "generate_mac_add_sta sha1 env p current_tp w =
     rbind (deref (stas w) p) (\<lambda>sta.
     rbind (deref (sdatas w) (sta_sdata sta)) (\<lambda>sdata.
     let interface_mac_addr = vif_addr sdata in
     case data_alloc env of
       None \<Rightarrow> Inr w
     | Some data \<Rightarrow>
         if \<not> shash_alloc env then Inr w
         else if \<not> desc_alloc env then Inr w
         else
           rbind (sta_ptk sta) (\<lambda>kp.
           rbind (case kp of None \<Rightarrow> Inr None | Some q \<Rightarrow> rbind (deref (keys w) q) (\<lambda>k. Inr (Some k))) (\<lambda>key.
           rbind (sta_fill_data current_tp key interface_mac_addr data) (\<lambda>data.
           rbind (mac_from_hash (sha1 data)) (\<lambda>r_mac.
           let w = put_sdata (sta_sdata sta) (sdata\<lparr>sequence_number := 0\<rparr>) w in
           rbind (if ccmp_reset w then
                    rbind (gen_pn_of (pn_clock env p)) (\<lambda>rndpn64.
                    case kp of None \<Rightarrow> Inl NullDeref | Some q \<Rightarrow> set_tx_pn q rndpn64 w)
                  else Inr w) (\<lambda>w.
           Inr (w\<lparr>s_translation_table :=
                    s_update_entry_by_base interface_mac_addr r_mac (s_translation_table w)\<rparr>))))))))"

section \<open>Packet numbers: facts\<close>

lemma log_loop_terminates: "0 \<le> n \<Longrightarrow> \<exists>l\<ge>a. log_loop n a = Some l \<and> (0 < n \<longrightarrow> 2 ^ nat (l - a) \<le> n \<and> n < 2 ^ nat (l - a + 1))"
proof (induction "nat n" arbitrary: n a rule: less_induct)
  case less
  show ?case
  proof (cases "n div 2 = 0")
    case True
    with less.prems have "n = 0 \<or> n = 1" by auto
    with True show ?thesis by (subst log_loop.simps) (auto simp: Let_def)
  next
    case False
    with less.prems have pos: "0 < n div 2" and lt: "nat (n div 2) < nat n" by auto
    from less.hyps [OF lt, of "a + 1"] pos less.prems obtain l where
      l: "a + 1 \<le> l" "log_loop (n div 2) (a + 1) = Some l"
      "2 ^ nat (l - (a + 1)) \<le> n div 2" "n div 2 < 2 ^ nat (l - (a + 1) + 1)"
      by auto
    have e: "(2::int) ^ nat (l - a) = 2 * 2 ^ nat (l - (a + 1))" "(2::int) ^ nat (l - a + 1) = 2 * 2 ^ nat (l - (a + 1) + 1)"
      using l(1) by (simp_all flip: power_Suc add: Suc_nat_eq_nat_zadd1)
    have "log_loop n a = Some l"
      using False l(2) by (subst log_loop.simps) (simp add: Let_def drop_bit_eq_div)
    moreover have "2 ^ nat (l - a) \<le> n" "n < 2 ^ nat (l - a + 1)"
      using l(3,4) unfolding e by linarith+
    ultimately show ?thesis using l(1) by force
  qed
qed

lemma calculate_l_example: "calculate_l 94000 1500 = Some 10"
  by (simp add: calculate_l_def log_loop.simps Let_def signed_divide_int_def)

text \<open>The number of the period in the upper 24 bits, zeros in the lower 24.\<close>

definition epoch_pn :: "u64 \<Rightarrow> u64" where
  "epoch_pn t = push_bit 24 (t div 15 mod 2 ^ 24)"

lemma generate_pn_eq: "generate_pn t = Some (epoch_pn t)"
  by (simp add: epoch_pn_def generate_pn_def calculate_l_example push_bit_eq_mult)

lemma unat_epoch_pn:
  "unat (epoch_pn t) = (unat t div 15 mod 2 ^ 24) * 2 ^ 24"
proof -
  have u: "unat (t div 15 mod 2 ^ 24) = unat t div 15 mod 2 ^ 24"
    by (simp add: unat_mod unat_div)
  have "(unat t div 15 mod 2 ^ 24) * 2 ^ 24 < 2 ^ 24 * (2 ^ 24 :: nat)"
    by (rule mult_strict_right_mono) simp_all
  then have "(unat t div 15 mod 2 ^ 24) * 2 ^ 24 < 2 ^ 64" by simp
  with u show ?thesis
    by (simp add: epoch_pn_def push_bit_eq_mult unat_word_ariths)
qed

lemma gen_pn_of_eq: "gen_pn_of t = Inr (epoch_pn t)"
  by (simp add: gen_pn_of_def generate_pn_eq)

lemma log_loop_negative:
  assumes "log_loop n a = Some l"
  shows "0 \<le> n"
proof (rule log_loop.raw_induct [where P = "\<lambda>n a l. 0 \<le> n", OF _ assms])
  fix f :: "int \<Rightarrow> int \<Rightarrow> int option" and n a l
  assume IH: "\<And>n a l. f n a = Some l \<Longrightarrow> 0 \<le> n"
    and eq: "(let r = drop_bit 1 n in if r \<noteq> 0 then f r (a + 1) else Some a) = Some l"
  show "0 \<le> n"
  proof (cases "drop_bit 1 n = 0")
    case True
    then show ?thesis by (simp add: drop_bit_eq_div)
  next
    case False
    with eq have "f (drop_bit 1 n) (a + 1) = Some l" by (simp add: Let_def)
    from IH [OF this] show ?thesis by simp
  qed
qed

section \<open>The derived address\<close>

text \<open>The hash input for a 16-byte key: every byte of the buffer is overwritten.\<close>

definition gen_input :: "u8 list \<Rightarrow> mac \<Rightarrow> int \<Rightarrow> u8 list" where
  "gen_input k a tp = k @ mac_bytes a @ le64_bytes (word_of_int tp)"

lemma ap_r_mac_16:
  assumes "length data = GEN_DATA_SIZE" and "length (conf_key k) = 16"
  shows "ap_r_mac sha1 tp (Some k) a data =
    rbind (mac_from_hash (sha1 (gen_input (conf_key k) a tp)))
      (\<lambda>m. Inr (m, gen_input (conf_key k) a tp))"
  using assms by (simp add: ap_r_mac_def buf_write_def gen_input_def)

lemma sta_fill_data_16:
  assumes "length data = GEN_DATA_SIZE" and "length (conf_key k) = 16"
  shows "sta_fill_data tp (Some k) a data = Inr (gen_input (conf_key k) a tp)"
  using assms by (simp add: sta_fill_data_def buf_write_def gen_input_def)

lemma length_gen_input [simp]: "length k = 16 \<Longrightarrow> length (gen_input k a tp) = GEN_DATA_SIZE"
  by (simp add: gen_input_def)

lemma mac_from_hash_ok: "ETH_ALEN \<le> length h \<Longrightarrow> \<exists>m. mac_from_hash h = Inr m"
  using mac_of_bytes_ok [of "fix_first_byte h"] by (cases h) (auto simp: mac_from_hash_def)

lemma mac_from_hash_flags:
  assumes "mac_from_hash h = Inr m"
  shows "\<not> is_multicast_ether_addr m \<and> is_local_ether_addr m"
proof -
  obtain a b c d e f rest where h: "fix_first_byte h = a # b # c # d # e # f # rest" "m = Mac a b c d e f"
    using assms unfolding mac_from_hash_def by (cases "fix_first_byte h" rule: mac_of_bytes.cases) auto
  then obtain x where a: "a = (x AND 0xFC) OR 0x02" by (cases h) auto
  have "a AND 1 = 0" and "a AND 2 = 2"
    unfolding a by (rule bit_word_eqI; auto simp: bit_simps)+
  with h(2) show ?thesis by simp
qed

definition gen_mac :: "(u8 list \<Rightarrow> u8 list) \<Rightarrow> u8 list \<Rightarrow> mac \<Rightarrow> int \<Rightarrow> mac" where
  "gen_mac sha1 k a tp =
     (case mac_from_hash (sha1 (gen_input k a tp)) of Inr m \<Rightarrow> m | Inl _ \<Rightarrow> a)"

text \<open>What the code relies on of the crypto API: a SHA-1 digest has 20 bytes.\<close>

definition sha1_digest_size :: "(u8 list \<Rightarrow> u8 list) \<Rightarrow> bool" where
  "sha1_digest_size sha1 \<longleftrightarrow> (\<forall>x. length (sha1 x) = 20)"

lemma gen_mac_eq:
  "sha1_digest_size sha1 \<Longrightarrow>
    mac_from_hash (sha1 (gen_input k a tp)) = Inr (gen_mac sha1 k a tp)"
  using mac_from_hash_ok [of "sha1 (gen_input k a tp)"]
  by (auto simp: gen_mac_def sha1_digest_size_def)

section \<open>What a generator may change\<close>

text \<open>
  Packet numbers of keys, sequence numbers of interfaces and the two tables; nothing else.
\<close>

definition gen_frame :: "world \<Rightarrow> world \<Rightarrow> bool" where
  "gen_frame w w' \<longleftrightarrow>
     stas w' = stas w \<and> sta_list w' = sta_list w \<and> interfaces w' = interfaces w \<and>
     wdev_list w' = wdev_list w \<and> ccmp_reset w' = ccmp_reset w \<and> RND_MAC w' = RND_MAC w \<and>
     (\<forall>k. map_option (conf_tx_pn_update (\<lambda>_. 0)) (keys w' k) =
          map_option (conf_tx_pn_update (\<lambda>_. 0)) (keys w k)) \<and>
     (\<forall>s. map_option (sequence_number_update (\<lambda>_. 0)) (sdatas w' s) =
          map_option (sequence_number_update (\<lambda>_. 0)) (sdatas w s))"

lemma gen_frame_refl [simp]: "gen_frame w w"
  by (simp add: gen_frame_def)

lemma gen_frame_trans: "gen_frame w w' \<Longrightarrow> gen_frame w' w'' \<Longrightarrow> gen_frame w w''"
  by (simp add: gen_frame_def)

lemma key_eq_upto_pn:
  "y\<lparr>conf_tx_pn := 0\<rparr> = x\<lparr>conf_tx_pn := 0\<rparr> \<Longrightarrow> y = x\<lparr>conf_tx_pn := conf_tx_pn y\<rparr>"
  for x y :: ieee80211_key
  by (cases x; cases y) simp

lemma sdata_eq_upto_seq:
  "y\<lparr>sequence_number := 0\<rparr> = x\<lparr>sequence_number := 0\<rparr> \<Longrightarrow>
     y = x\<lparr>sequence_number := sequence_number y\<rparr>"
  for x y :: ieee80211_sub_if_data
  by (cases x; cases y) simp

lemma gen_frame_key:
  assumes f: "gen_frame w w'" and x: "keys w k = Some x"
  shows "\<exists>n. keys w' k = Some (x\<lparr>conf_tx_pn := n\<rparr>)"
proof -
  have "map_option (conf_tx_pn_update (\<lambda>_. 0)) (keys w' k) = Some (x\<lparr>conf_tx_pn := 0\<rparr>)"
    using f x by (simp add: gen_frame_def)
  then obtain y where y: "keys w' k = Some y" "y\<lparr>conf_tx_pn := 0\<rparr> = x\<lparr>conf_tx_pn := 0\<rparr>"
    by (cases "keys w' k") auto
  from key_eq_upto_pn [OF y(2)] y(1) show ?thesis by auto
qed

lemma gen_frame_sdata:
  assumes f: "gen_frame w w'" and x: "sdatas w s = Some x"
  shows "\<exists>n. sdatas w' s = Some (x\<lparr>sequence_number := n\<rparr>)"
proof -
  have "map_option (sequence_number_update (\<lambda>_. 0)) (sdatas w' s) = Some (x\<lparr>sequence_number := 0\<rparr>)"
    using f x by (simp add: gen_frame_def)
  then obtain y where y: "sdatas w' s = Some y" "y\<lparr>sequence_number := 0\<rparr> = x\<lparr>sequence_number := 0\<rparr>"
    by (cases "sdatas w' s") auto
  from sdata_eq_upto_seq [OF y(2)] y(1) show ?thesis by auto
qed

lemma gen_frame_sdata_ok:
  assumes f: "gen_frame w w'" and ok: "sdata_ok w sd"
  shows "sdata_ok w' (sd\<lparr>sequence_number := n\<rparr>)"
proof -
  have "keys w k \<noteq> None \<Longrightarrow> keys w' k \<noteq> None" for k
    using gen_frame_key [OF f] by fastforce
  with ok show ?thesis by (auto simp: sdata_ok_def)
qed

lemma gen_frame_sta_ok:
  assumes f: "gen_frame w w'" and ok: "sta_ok w s"
  shows "sta_ok w' s"
proof -
  have "keys w k \<noteq> None \<Longrightarrow> keys w' k \<noteq> None" for k
    using gen_frame_key [OF f] by fastforce
  moreover obtain sd where "sdatas w (sta_sdata s) = Some sd" "sdata_ok w sd"
    using ok by (auto simp: sta_ok_def)
  then have "\<exists>sd'. sdatas w' (sta_sdata s) = Some sd' \<and> sdata_ok w' sd'"
    using gen_frame_sdata [OF f] gen_frame_sdata_ok [OF f] by fastforce
  ultimately show ?thesis using ok by (auto simp: sta_ok_def)
qed

lemma gen_frame_world_ok:
  assumes f: "gen_frame w w'" and ok: "world_ok w"
    and t: "mtt_invar (translation_table w')" "mp_invar (s_translation_table w')"
  shows "world_ok w'"
proof -
  have "stas w' = stas w" "sta_list w' = sta_list w" "interfaces w' = interfaces w"
    using f by (simp_all add: gen_frame_def)
  moreover have "sdatas w sp \<noteq> None \<Longrightarrow> sdatas w' sp \<noteq> None" for sp
    using gen_frame_sdata [OF f] by fastforce
  ultimately show ?thesis
    using ok t gen_frame_sta_ok [OF f] unfolding world_ok_def by (metis not_None_eq)
qed

lemma set_tx_pn_ok:
  "keys w k = Some x \<Longrightarrow>
     set_tx_pn k pn w = Inr (w\<lparr>keys := (keys w)(k \<mapsto> x\<lparr>conf_tx_pn := pn\<rparr>)\<rparr>)"
  by (simp add: set_tx_pn_def)

lemma set_tx_pn_frame:
  assumes "set_tx_pn k pn w = Inr w'"
  shows "gen_frame w w' \<and> translation_table w' = translation_table w \<and>
    s_translation_table w' = s_translation_table w \<and> sdatas w' = sdatas w \<and>
    map_option conf_tx_pn (keys w' k) = Some pn \<and>
    (\<forall>j. j \<noteq> k \<longrightarrow> keys w' j = keys w j)"
  using assms by (auto simp: set_tx_pn_def result_simps gen_frame_def)

lemma ap_reset_pn_ok:
  assumes "ccmp_reset w" and "keys w kp \<noteq> None"
    and "\<forall>g. default_multicast_key sd = Some g \<longrightarrow> keys w g \<noteq> None"
  shows "\<exists>w'. ap_reset_pn t (Some kp) sd w = Inr w' \<and> gen_frame w w' \<and>
    translation_table w' = translation_table w \<and> s_translation_table w' = s_translation_table w \<and>
    sdatas w' = sdatas w \<and>
    (\<forall>j. map_option conf_tx_pn (keys w' j) =
      (if j = kp \<or> default_multicast_key sd = Some j then Some (epoch_pn t) else map_option conf_tx_pn (keys w j)))"
proof -
  obtain x where x: "keys w kp = Some x" using assms(2) by blast
  define w1 where "w1 = w\<lparr>keys := (keys w)(kp \<mapsto> x\<lparr>conf_tx_pn := epoch_pn t\<rparr>)\<rparr>"
  have s1: "set_tx_pn kp (epoch_pn t) w = Inr w1" by (simp add: set_tx_pn_ok [OF x] w1_def)
  note f1 = set_tx_pn_frame [OF s1]
  have e: "ap_reset_pn t (Some kp) sd w =
      (case default_multicast_key sd of None \<Rightarrow> Inr w1 | Some gk \<Rightarrow> set_tx_pn gk (epoch_pn t) w1)"
    using assms(1) s1 by (simp add: ap_reset_pn_def gen_pn_of_eq)
  show ?thesis
  proof (cases "default_multicast_key sd")
    case None
    with e f1 show ?thesis by auto
  next
    case (Some g)
    with assms(3) obtain y where "keys w1 g = Some y"
      by (cases "g = kp") (auto simp: w1_def)
    then obtain w2 where s2: "set_tx_pn g (epoch_pn t) w1 = Inr w2" by (auto simp: set_tx_pn_ok)
    note f2 = set_tx_pn_frame [OF s2]
    from e Some s2 f1 f2 show ?thesis by (auto intro: gen_frame_trans)
  qed
qed

section \<open>All stations of an access point: facts\<close>

text \<open>
  A station the generator can handle: valid pointers and a pairwise key of 16 bytes.
\<close>

definition keyed_sta :: "world \<Rightarrow> sta_ptr \<Rightarrow> mac \<Rightarrow> u8 list \<Rightarrow> bool" where
  "keyed_sta w p a k \<longleftrightarrow>
     (\<exists>s kp x. stas w p = Some s \<and> sta_ok w s \<and> sta_addr s = a \<and> ptk s ! ptk_idx s = Some kp \<and>
        keys w kp = Some x \<and> conf_key x = k \<and> length k = 16)"

lemma gen_frame_keyed_sta: "gen_frame w w' \<Longrightarrow> keyed_sta w p a k \<Longrightarrow> keyed_sta w' p a k"
proof -
  assume f: "gen_frame w w'" and "keyed_sta w p a k"
  then obtain s kp x where s: "stas w p = Some s" "sta_ok w s" "sta_addr s = a"
      "ptk s ! ptk_idx s = Some kp" "keys w kp = Some x" "conf_key x = k" "length k = 16"
    by (auto simp: keyed_sta_def)
  moreover obtain n where "keys w' kp = Some (x\<lparr>conf_tx_pn := n\<rparr>)"
    using gen_frame_key [OF f s(5)] by blast
  moreover have "stas w' = stas w" using f by (simp add: gen_frame_def)
  ultimately show ?thesis
    using gen_frame_sta_ok [OF f s(2)] by (auto simp: keyed_sta_def)
qed

lemma put_sdata_frame:
  "sdatas w sp = Some sd \<Longrightarrow> gen_frame w (put_sdata sp (sd\<lparr>sequence_number := n\<rparr>) w)"
  by (simp add: gen_frame_def put_sdata_def)

text \<open>One iteration of the loop, for a well-behaved environment.\<close>

definition env_ok :: "gen_env \<Rightarrow> bool" where
  "env_ok env \<longleftrightarrow> (\<exists>d. data_alloc env = Some d \<and> length d = GEN_DATA_SIZE) \<and>
     shash_alloc env \<and> desc_alloc env \<and> (\<forall>p. entry_alloc env p)"

lemma ap_gen_station_ok:
  assumes k: "keyed_sta w p a k" and d: "length data = GEN_DATA_SIZE" and "ccmp_reset w"
    and sha: "sha1_digest_size sha1" and e: "entry_alloc env p"
    and inv: "mtt_invar (translation_table w)"
  shows "\<exists>data' w' s. ap_gen_station sha1 env tp p (data, w) = Inr (data', w') \<and>
    length data' = GEN_DATA_SIZE \<and> gen_frame w w' \<and> s_translation_table w' = s_translation_table w \<and>
    translation_table w' = update_entry_by_base True a (gen_mac sha1 k a tp) (translation_table w) \<and>
    stas w p = Some s \<and> map_option sequence_number (sdatas w' (sta_sdata s)) = Some 0 \<and>
    (\<forall>q. q \<noteq> sta_sdata s \<longrightarrow> sdatas w' q = sdatas w q)"
proof -
  obtain s kp x where s: "stas w p = Some s" "sta_ok w s" "sta_addr s = a"
      "ptk s ! ptk_idx s = Some kp" "keys w kp = Some x" "conf_key x = k" "length k = 16"
    using k by (auto simp: keyed_sta_def)
  then obtain sd where sd: "sdatas w (sta_sdata s) = Some sd" "sdata_ok w sd"
    by (auto simp: sta_ok_def)
  define w1 where "w1 = put_sdata (sta_sdata s) (sd\<lparr>sequence_number := 0\<rparr>) w"
  have f1: "gen_frame w w1" unfolding w1_def by (rule put_sdata_frame [OF sd(1)])
  have k1: "keys w1 = keys w" "ccmp_reset w1" "translation_table w1 = translation_table w"
      "s_translation_table w1 = s_translation_table w" "sdatas w1 (sta_sdata s) = Some (sd\<lparr>sequence_number := 0\<rparr>)"
      "\<forall>q. q \<noteq> sta_sdata s \<longrightarrow> sdatas w1 q = sdatas w q"
    using assms(3) by (simp_all add: w1_def put_sdata_def)
  obtain w2 where w2: "ap_reset_pn (pn_clock env p) (Some kp) (sd\<lparr>sequence_number := 0\<rparr>) w1 = Inr w2"
      "gen_frame w1 w2" "translation_table w2 = translation_table w"
      "s_translation_table w2 = s_translation_table w" "sdatas w2 = sdatas w1"
    using ap_reset_pn_ok [of w1 kp "sd\<lparr>sequence_number := 0\<rparr>" "pn_clock env p"] k1 s(5) sd(2)
    by (auto simp: sdata_ok_def)
  define w3 where "w3 = w2\<lparr>translation_table :=
      update_entry_by_base True a (gen_mac sha1 k a tp) (translation_table w)\<rparr>"
  have "gen_frame w2 w3" by (simp add: w3_def gen_frame_def)
  with f1 w2(2) have f3: "gen_frame w w3" by (blast intro: gen_frame_trans)
  have "sta_ptk s = Inr (Some kp)" using s(2,4) by (simp add: sta_ptk_def sta_ok_def)
  then have "ap_gen_station sha1 env tp p (data, w) = Inr (gen_input k a tp, w3)"
    using s sd(1) w2 d e
    by (simp add: ap_gen_station_def ap_r_mac_16 gen_mac_eq [OF sha] w1_def [symmetric] w3_def)
  moreover have "sdatas w3 = sdatas w1" "s_translation_table w3 = s_translation_table w"
      "translation_table w3 = update_entry_by_base True a (gen_mac sha1 k a tp) (translation_table w)"
    using w2 by (simp_all add: w3_def)
  ultimately show ?thesis using f3 s(1,7) k1(5,6) by auto
qed

text \<open>The stations of a list with their addresses and keys.\<close>

definition sta_base :: "world \<Rightarrow> sta_ptr \<Rightarrow> mac" where
  "sta_base w p = (case stas w p of Some s \<Rightarrow> sta_addr s | None \<Rightarrow> Mac 0 0 0 0 0 0)"

definition sta_key :: "world \<Rightarrow> sta_ptr \<Rightarrow> u8 list" where
  "sta_key w p = (case stas w p of None \<Rightarrow> [] | Some s \<Rightarrow>
     (case ptk s ! ptk_idx s of None \<Rightarrow> [] | Some kp \<Rightarrow>
        (case keys w kp of None \<Rightarrow> [] | Some x \<Rightarrow> conf_key x)))"

lemma keyed_sta_iff: "keyed_sta w p a k \<Longrightarrow> a = sta_base w p \<and> k = sta_key w p"
  by (auto simp: keyed_sta_def sta_base_def sta_key_def)

lemma ap_gen_loop_ok:
  assumes "\<forall>p\<in>set ps. keyed_sta w p (b p) (k p)" and "length data = GEN_DATA_SIZE" and "ccmp_reset w"
    and "sha1_digest_size sha1" and "\<forall>p. entry_alloc env p" and "mtt_invar (translation_table w)"
  shows "\<exists>data' w'. ap_gen_loop sha1 env tp ps (data, w) = Inr (data', w') \<and> gen_frame w w' \<and>
    s_translation_table w' = s_translation_table w \<and>
    translation_table w' = fold (\<lambda>q. update_entry_by_base True (fst q) (snd q))
      (map (\<lambda>p. (b p, gen_mac sha1 (k p) (b p) tp)) ps) (translation_table w) \<and>
    (\<forall>sp. map_option sequence_number (sdatas w' sp) =
       (if \<exists>p\<in>set ps. \<exists>s. stas w p = Some s \<and> sta_sdata s = sp then Some 0
        else map_option sequence_number (sdatas w sp)))"
  using assms
proof (induction ps arbitrary: data w)
  case Nil
  then show ?case by simp
next
  case (Cons p ps)
  have inv: "mtt_invar (translation_table w)" by (rule Cons.prems(6))
  obtain data1 w1 s where step: "ap_gen_station sha1 env tp p (data, w) = Inr (data1, w1)"
      "length data1 = GEN_DATA_SIZE" "gen_frame w w1" "s_translation_table w1 = s_translation_table w"
      "translation_table w1 = update_entry_by_base True (b p) (gen_mac sha1 (k p) (b p) tp) (translation_table w)"
      "stas w p = Some s" "map_option sequence_number (sdatas w1 (sta_sdata s)) = Some 0"
      "\<forall>q. q \<noteq> sta_sdata s \<longrightarrow> sdatas w1 q = sdatas w q"
    using ap_gen_station_ok [of w p "b p" "k p" data sha1 env tp] Cons.prems by auto
  have st: "stas w1 = stas w" "ccmp_reset w1" using step(3) Cons.prems(3) by (simp_all add: gen_frame_def)
  have "\<forall>p\<in>set ps. keyed_sta w1 p (b p) (k p)"
    using Cons.prems(1) gen_frame_keyed_sta [OF step(3)] by auto
  moreover have "mtt_invar (translation_table w1)"
    unfolding step(5) by (rule update_entry_by_base_invar [OF inv])
  ultimately obtain data2 w2 where rest: "ap_gen_loop sha1 env tp ps (data1, w1) = Inr (data2, w2)"
      "gen_frame w1 w2" "s_translation_table w2 = s_translation_table w1"
      "translation_table w2 = fold (\<lambda>q. update_entry_by_base True (fst q) (snd q))
        (map (\<lambda>p. (b p, gen_mac sha1 (k p) (b p) tp)) ps) (translation_table w1)"
      "\<And>sp. map_option sequence_number (sdatas w2 sp) =
       (if \<exists>p\<in>set ps. \<exists>s. stas w1 p = Some s \<and> sta_sdata s = sp then Some 0
        else map_option sequence_number (sdatas w1 sp))"
    using Cons.IH [of w1 data1] step(2) st(2) Cons.prems(4,5) by auto
  have "map_option sequence_number (sdatas w2 sp) =
      (if \<exists>q\<in>set (p # ps). \<exists>s. stas w q = Some s \<and> sta_sdata s = sp then Some 0
       else map_option sequence_number (sdatas w sp))" for sp
    using rest(5) [of sp] step(6-8) st(1) by (cases "sp = sta_sdata s") auto
  with step rest show ?case by (auto intro: gen_frame_trans)
qed

lemma put_sdata_simps [simp]:
  "stas (put_sdata p x w) = stas w" "keys (put_sdata p x w) = keys w"
  "translation_table (put_sdata p x w) = translation_table w"
  "s_translation_table (put_sdata p x w) = s_translation_table w"
  "ccmp_reset (put_sdata p x w) = ccmp_reset w" "sta_list (put_sdata p x w) = sta_list w"
  "interfaces (put_sdata p x w) = interfaces w" "wdev_list (put_sdata p x w) = wdev_list w"
  "RND_MAC (put_sdata p x w) = RND_MAC w" "sdatas (put_sdata p x w) = (sdatas w)(p \<mapsto> x)"
  by (simp_all add: put_sdata_def)

lemma generate_mac_add_ap_all_ok:
  assumes "world_ok w" and "ccmp_reset w" and "env_ok env" and "sha1_digest_size sha1"
    and "\<forall>p\<in>set (sta_list w). keyed_sta w p (sta_base w p) (sta_key w p)"
  shows "\<exists>w'. generate_mac_add_ap_all sha1 env tp w = Inr w' \<and> world_ok w' \<and> gen_frame w w' \<and>
    send_custom_packet w' \<and> s_translation_table w' = s_translation_table w \<and>
    random_of_base (translation_table w') = random_of_base (translation_table w) ++
      map_of (rev (map (\<lambda>p. (sta_base w p, gen_mac sha1 (sta_key w p) (sta_base w p) tp)) (sta_list w))) \<and>
    (\<forall>p\<in>set (sta_list w). \<forall>s. stas w p = Some s \<longrightarrow>
       map_option sequence_number (sdatas w' (sta_sdata s)) = Some 0)"
proof -
  obtain d where d: "data_alloc env = Some d" "length d = GEN_DATA_SIZE" "shash_alloc env"
      "desc_alloc env" "\<forall>p. entry_alloc env p"
    using assms(3) by (auto simp: env_ok_def)
  have inv: "mtt_invar (translation_table w)" "mp_invar (s_translation_table w)"
    using assms(1) by (simp_all add: world_ok_def)
  let ?ps = "map (\<lambda>p. (sta_base w p, gen_mac sha1 (sta_key w p) (sta_base w p) tp)) (sta_list w)"
  obtain d' w1 where w1: "ap_gen_loop sha1 env tp (sta_list w) (d, w) = Inr (d', w1)" "gen_frame w w1"
      "s_translation_table w1 = s_translation_table w"
      "translation_table w1 = fold (\<lambda>q. update_entry_by_base True (fst q) (snd q)) ?ps (translation_table w)"
      "\<And>sp. map_option sequence_number (sdatas w1 sp) =
       (if \<exists>p\<in>set (sta_list w). \<exists>s. stas w p = Some s \<and> sta_sdata s = sp then Some 0
        else map_option sequence_number (sdatas w sp))"
    using ap_gen_loop_ok [OF assms(5) d(2) assms(2,4) d(5) inv(1), of tp] by blast
  let ?w' = "w1\<lparr>send_custom_packet := True\<rparr>"
  have f: "gen_frame w ?w'" using w1(2) by (simp add: gen_frame_def)
  note fold = mtt.fold_upd [OF inv(1), of ?ps, folded w1(4)]
  have "world_ok ?w'"
    by (rule gen_frame_world_ok [OF f assms(1)]) (use fold inv(2) w1(3) in simp_all)
  moreover have "generate_mac_add_ap_all sha1 env tp w = Inr ?w'"
    using d w1(1) by (simp add: generate_mac_add_ap_all_def)
  moreover have "\<forall>p\<in>set (sta_list w). \<forall>s. stas w p = Some s \<longrightarrow>
      map_option sequence_number (sdatas ?w' (sta_sdata s)) = Some 0"
    using w1(5) by auto
  ultimately show ?thesis using f fold w1(3) by auto
qed

lemma generate_mac_add_sta_ok:
  assumes "world_ok w" and "ccmp_reset w" and "env_ok env" and "sha1_digest_size sha1"
    and k: "keyed_sta w p a k" and s: "stas w p = Some s" and sd: "sdatas w (sta_sdata s) = Some sd"
  shows "\<exists>w'. generate_mac_add_sta sha1 env p tp w = Inr w' \<and> gen_frame w w' \<and> world_ok w' \<and>
    translation_table w' = translation_table w \<and>
    s_translation_table w' =
      s_update_entry_by_base (vif_addr sd) (gen_mac sha1 k (vif_addr sd) tp) (s_translation_table w) \<and>
    map_option sequence_number (sdatas w' (sta_sdata s)) = Some 0"
proof -
  obtain d where d: "data_alloc env = Some d" "length d = GEN_DATA_SIZE" "shash_alloc env" "desc_alloc env"
    using assms(3) by (auto simp: env_ok_def)
  obtain kp x where x: "sta_ok w s" "ptk s ! ptk_idx s = Some kp" "keys w kp = Some x" "conf_key x = k"
      "length k = 16"
    using k s by (auto simp: keyed_sta_def)
  then have ptk: "sta_ptk s = Inr (Some kp)" by (simp add: sta_ptk_def sta_ok_def)
  define w1 where "w1 = put_sdata (sta_sdata s) (sd\<lparr>sequence_number := 0\<rparr>) w"
  have f1: "gen_frame w w1" unfolding w1_def by (rule put_sdata_frame [OF sd])
  have k1: "keys w1 kp = Some x" "ccmp_reset w1" "sdatas w1 (sta_sdata s) = Some (sd\<lparr>sequence_number := 0\<rparr>)"
    using assms(2) x(3) by (simp_all add: w1_def put_sdata_def)
  obtain w2 where w2: "set_tx_pn kp (epoch_pn (pn_clock env p)) w1 = Inr w2"
    using set_tx_pn_ok [OF k1(1)] by blast
  note f2 = set_tx_pn_frame [OF w2]
  define w3 where "w3 = w2\<lparr>s_translation_table :=
      s_update_entry_by_base (vif_addr sd) (gen_mac sha1 k (vif_addr sd) tp) (s_translation_table w)\<rparr>"
  have t1: "translation_table w1 = translation_table w" "s_translation_table w1 = s_translation_table w"
    by (simp_all add: w1_def put_sdata_def)
  have "gen_frame w2 w3" by (simp add: w3_def gen_frame_def)
  with f1 f2 have f3: "gen_frame w w3" by (blast intro: gen_frame_trans)
  have "generate_mac_add_sta sha1 env p tp w = Inr w3"
    using s sd d x ptk w2 k1(2) f2 t1 assms(2)
    by (simp add: generate_mac_add_sta_def sta_fill_data_16 gen_mac_eq [OF assms(4)] gen_pn_of_eq
        w1_def [symmetric] w3_def Let_def)
  moreover have "world_ok w3"
    by (rule gen_frame_world_ok [OF f3 assms(1)])
      (use assms(1) f2 t1 in \<open>simp_all add: w3_def world_ok_def s_update_entry_by_base_invar\<close>)
  ultimately show ?thesis using f3 f2 t1 k1(3) by (simp add: w3_def)
qed

section \<open>A sample world\<close>

text \<open>One interface with one authorised station and its 16-byte pairwise key, used by witnesses.\<close>

definition sample_base :: mac where "sample_base = Mac 0x02 0x11 0x22 0x33 0x44 0x55"

definition sample_iface :: mac where "sample_iface = Mac 0x02 0xaa 0xbb 0xcc 0xdd 0xee"

definition empty_tkip_ctx :: tkip_ctx where
  "empty_tkip_ctx = \<lparr>p1k = replicate 5 0, p1k_iv32 = 0, tkip_state = TKIP_STATE_NOT_INIT\<rparr>"

definition sample_key :: "nat \<Rightarrow> ieee80211_key" where
  "sample_key n = \<lparr>conf_tx_pn = 7, conf_cipher = 0x000FAC04, conf_flags = 0, conf_iv_len = 8,
     conf_keyidx = 0, conf_key = replicate n 0x5a, key_flags = 0, key_rx_pn = replicate 17 (replicate 6 0),
     bip_rx_pn = replicate 6 0, key_replays = 0, key_icverrors = 0, tkip_tx = empty_tkip_ctx,
     tkip_rx = replicate 16 \<lparr>rx_ctx = empty_tkip_ctx, rx_iv32 = 0, rx_iv16 = 0\<rparr>, mic_failures = 0,
     key_sdata = Some 2, key_sta = Some 5, conf_icv_len = 8\<rparr>"

definition empty_fragment :: ieee80211_fragment_entry where
  "empty_fragment = \<lparr>frag_skb_list = [], first_frag_time = 0, frag_seq = 0, extra_len = 0, last_frag = 0,
     frag_rx_queue = 0, check_sequential_pn = False, frag_last_pn = replicate 6 0\<rparr>"

definition empty_ps_data :: ps_data where
  "empty_ps_data = \<lparr>ps_tim = replicate 256 0, bc_buf = [], num_sta_ps = 0\<rparr>"

definition empty_sta_ps :: sta_ps_data where
  "empty_sta_ps = \<lparr>ps_tx_buf = (\<lambda>_. []), tx_filtered = (\<lambda>_. []), driver_buffered_tids = 0, txq_buffered_tids = 0,
     sta_aid = 1, uapsd_queues = 0, max_sp = 0, listen_interval = 5\<rparr>"

definition sample_world :: "nl80211_iftype \<Rightarrow> key_ptr option \<Rightarrow> nat \<Rightarrow> world" where
  "sample_world ty kp klen =
    \<lparr>translation_table = translation_table_init, s_translation_table = s_translation_table_init,
     keys = [3 \<mapsto> sample_key klen],
     stas = [5 \<mapsto> \<lparr>sta_addr = sample_base, sta_sdata = 2, ptk = [kp, None, None, None], ptk_idx = 0,
              start_time_period = 0, sta_state = IEEE80211_STA_AUTHORIZED,
              sta_uses_encryption = True, sta_mfp = False, tid_seq = replicate 16 0,
              uploaded = True, tx_msdu = replicate 17 0, tx_bytes = replicate 4 0, tx_packets = replicate 4 0,
              gtk = replicate 6 None, cipher_scheme = None, last_seq_ctrl = replicate 17 0, num_duplicates = 0,
              rx_packets = 0, sta_wme = False, tdls_peer = False, tdls_authorized = False, four_addr_event = False,
              rx_msdu = replicate 17 0, sta_flags = 0x10000b, sta_ps = empty_sta_ps, sta_dead = False, sta_removed = False\<rparr>],
     sdatas = [2 \<mapsto> \<lparr>vif_type = ty, vif_addr = sample_iface, sequence_number = 0x30,
              default_unicast_key = None, default_multicast_key = None, default_mgmt_key = None,
              sdata_start_time_period = 0, control_port_protocol = 0x888E, control_port_no_encrypt = False,
              monitor_active = False, sdata_bss = None, vif_hw_queue = [0, 1, 2, 3],
              fragments = replicate 4 empty_fragment, fragment_next = 0, sdata_keys = replicate 6 None,
              use_4addr = False, ibss_bssid = Mac 0 0 0 0 0 0, wds_remote_addr = Mac 0 0 0 0 0 0,
              dev_addr = sample_iface, mgd_bssid = sample_iface, wdev_use_4addr = False, vlan_sta = None,
              num_mcast_sta = 1, sdata_flags = 0, has_chanctx = True, control_port_over_nl80211 = False,
              encrypt_headroom = 8, crypto_tx_tailroom_needed_cnt = 1, dev_rx_packets = 0, dev_rx_bytes = 0,
              sdata_ps = empty_ps_data, beacon_int = 100, iface_running = True, key_list = [], crypto_tx_tailroom_pending_dec = 0,
              ap_vlans = [], mgd_mfp = False\<rparr>],
     sta_list = [5], interfaces = [2], wdev_list = [\<lparr>wdev_netdev = True, iftype = ty\<rparr>],
     sta_hash = (\<lambda>a. if a = sample_base then [5] else []),
     ccmp_reset = True, send_custom_packet = False, RND_MAC = True, wep_iv = 0x030000,
     num_sta = 1, sta_generation = 1, total_ps_buffered = 0\<rparr>"

definition sample_env :: gen_env where
  "sample_env = \<lparr>data_alloc = Some (replicate 30 0), shash_alloc = True, desc_alloc = True,
     entry_alloc = (\<lambda>_. True), pn_clock = (\<lambda>_. 1700000000)\<rparr>"

text \<open>A stand-in for SHA-1 with the digest size of SHA-1.\<close>

definition sample_sha1 :: "u8 list \<Rightarrow> u8 list" where
  "sample_sha1 xs = take 20 (rev xs @ replicate 20 0)"

lemma sample_sha1_size: "sha1_digest_size sample_sha1"
  by (auto simp: sha1_digest_size_def sample_sha1_def min_def)

lemma sample_env_ok: "env_ok sample_env"
  by (simp add: env_ok_def sample_env_def)

lemma sample_world_ok: "kp = None \<or> kp = Some 3 \<Longrightarrow> world_ok (sample_world ty kp n)"
  by (auto simp: world_ok_def sample_world_def sta_ok_def sdata_ok_def mtt_invar_init mp_invar_init)

lemma sample_world_reset: "ccmp_reset (sample_world ty kp n)"
  by (simp add: sample_world_def)

lemma sample_world_sta_list: "sta_list (sample_world ty kp n) = [5]"
  by (simp add: sample_world_def)

lemma sample_world_keyed:
  "keyed_sta (sample_world ty (Some 3) 16) 5 sample_base (replicate 16 0x5a)"
  by (auto simp: keyed_sta_def sample_world_def sta_ok_def sdata_ok_def sample_key_def)

lemma sample_world_base: "sta_base (sample_world ty kp n) 5 = sample_base"
  by (simp add: sta_base_def sample_world_def)

lemma sample_world_key: "sta_key (sample_world ty (Some 3) n) 5 = replicate n 0x5a"
  by (simp add: sta_key_def sample_world_def sample_key_def)

text \<open>The station's side: its interface has the address the access point knows it by.\<close>

definition sample_sta_world :: world where
  "sample_sta_world = put_sdata 2
     \<lparr>vif_type = NL80211_IFTYPE_STATION, vif_addr = sample_base, sequence_number = 0x30,
      default_unicast_key = None, default_multicast_key = None, default_mgmt_key = None,
      sdata_start_time_period = 0, control_port_protocol = 0x888E, control_port_no_encrypt = False,
              monitor_active = False, sdata_bss = None, vif_hw_queue = [0, 1, 2, 3],
              fragments = replicate 4 empty_fragment, fragment_next = 0, sdata_keys = replicate 6 None,
              use_4addr = False, ibss_bssid = Mac 0 0 0 0 0 0, wds_remote_addr = Mac 0 0 0 0 0 0,
              dev_addr = sample_iface, mgd_bssid = sample_iface, wdev_use_4addr = False, vlan_sta = None,
              num_mcast_sta = 1, sdata_flags = 0, has_chanctx = True, control_port_over_nl80211 = False,
              encrypt_headroom = 8, crypto_tx_tailroom_needed_cnt = 1, dev_rx_packets = 0, dev_rx_bytes = 0,
              sdata_ps = empty_ps_data, beacon_int = 100, iface_running = True, key_list = [], crypto_tx_tailroom_pending_dec = 0,
              ap_vlans = [], mgd_mfp = False\<rparr>
     ((sample_world NL80211_IFTYPE_STATION (Some 3) 16)\<lparr>s_translation_table :=
        s_insert_entry True sample_base sample_base s_translation_table_init\<rparr>)"

lemma sample_sta_world_ok:
  "world_ok sample_sta_world" "ccmp_reset sample_sta_world"
  "keyed_sta sample_sta_world 5 sample_base (replicate 16 0x5a)"
  by (auto simp: sample_sta_world_def sample_world_def put_sdata_def world_ok_def sta_ok_def sdata_ok_def
      mtt_invar_init mp_invar_init s_insert_entry_invar keyed_sta_def sample_key_def)

lemma sample_sta_world_iface:
  "\<exists>s sd. stas sample_sta_world 5 = Some s \<and> sdatas sample_sta_world (sta_sdata s) = Some sd \<and>
     vif_addr sd = sample_base"
  by (simp add: sample_sta_world_def sample_world_def put_sdata_def)

lemma sample_sta_world_table:
  "s_random_of_base (s_translation_table sample_sta_world) sample_base = Some sample_base"
  by (simp add: sample_sta_world_def put_sdata_def s_insert_entry_random_of_base mp_invar_init)

lemmas sample_world_facts = sample_world_ok sample_world_reset sample_world_sta_list
  sample_world_keyed sample_world_base sample_world_key sample_env_ok sample_sha1_size

section \<open>Properties\<close>

text \<open>
  C10: At a new period the access point re-randomises all of its stations. In a well-formed state
  where every station has a 16-byte pairwise key and the allocations succeed, the function does not
  fault; afterwards each station's base address translates to the address derived from its key, its
  base address and the period, no other base address is affected, the sequence counter of every
  interface with a station is zero, and nothing changes but packet numbers, sequence counters and
  the table.
\<close>

theorem generate_mac_add_ap_all_correct:
  assumes "world_ok w" and "ccmp_reset w" and "env_ok env" and "sha1_digest_size sha1"
    and "\<forall>p\<in>set (sta_list w). keyed_sta w p (sta_base w p) (sta_key w p)"
  shows "\<exists>w'. generate_mac_add_ap_all sha1 env tp w = Inr w' \<and> world_ok w' \<and> gen_frame w w' \<and>
    random_of_base (translation_table w') = random_of_base (translation_table w) ++
      map_of (rev (map (\<lambda>p. (sta_base w p, gen_mac sha1 (sta_key w p) (sta_base w p) tp)) (sta_list w))) \<and>
    (\<forall>p\<in>set (sta_list w). \<forall>s. stas w p = Some s \<longrightarrow>
       map_option sequence_number (sdatas w' (sta_sdata s)) = Some 0)"
  using generate_mac_add_ap_all_ok [OF assms] by blast

theorem generate_mac_add_ap_all_correct_witness:
  "\<exists>w'. generate_mac_add_ap_all sample_sha1 sample_env 113333333 (sample_world NL80211_IFTYPE_AP (Some 3) 16)
     = Inr w' \<and> world_ok w' \<and>
     random_of_base (translation_table w') sample_base =
       Some (gen_mac sample_sha1 (replicate 16 0x5a) sample_base 113333333)"
  using generate_mac_add_ap_all_correct [of "sample_world NL80211_IFTYPE_AP (Some 3) 16" sample_env sample_sha1
      113333333] by (auto simp: sample_world_facts)

text \<open>
  C1: The two sides derive the same address without exchanging it. For the same 16-byte key, base
  address and period, whatever the buffers contain and whatever else is in the two states, the
  address the access point enters for the station and the address the station enters for its own
  interface are equal.
\<close>

theorem ap_and_sta_derive_same_address:
  assumes ap: "world_ok wa" "ccmp_reset wa" "env_ok ea" "sha1_digest_size sha1"
    "\<forall>p\<in>set (sta_list wa). keyed_sta wa p (sta_base wa p) (sta_key wa p)"
    "distinct (map (sta_base wa) (sta_list wa))" "p \<in> set (sta_list wa)"
    and sta: "world_ok ws" "ccmp_reset ws" "env_ok es" "keyed_sta ws q b k"
    "stas ws q = Some s" "sdatas ws (sta_sdata s) = Some sd"
    "s_random_of_base (s_translation_table ws) (vif_addr sd) \<noteq> None"
    and same: "vif_addr sd = sta_base wa p" "k = sta_key wa p"
  shows "\<exists>wa' ws' m. generate_mac_add_ap_all sha1 ea tp wa = Inr wa' \<and>
    generate_mac_add_sta sha1 es q tp ws = Inr ws' \<and>
    random_of_base (translation_table wa') (sta_base wa p) = Some m \<and>
    s_random_of_base (s_translation_table ws') (vif_addr sd) = Some m"
proof -
  let ?ps = "map (\<lambda>p. (sta_base wa p, gen_mac sha1 (sta_key wa p) (sta_base wa p) tp)) (sta_list wa)"
  obtain wa' where wa': "generate_mac_add_ap_all sha1 ea tp wa = Inr wa'"
      "random_of_base (translation_table wa') = random_of_base (translation_table wa) ++ map_of (rev ?ps)"
    using generate_mac_add_ap_all_ok [OF ap(1-5), of tp] by blast
  have "distinct (map fst (rev ?ps))" using ap(6) by (simp add: rev_map [symmetric] comp_def)
  then have "map_of (rev ?ps) (sta_base wa p) = Some (gen_mac sha1 (sta_key wa p) (sta_base wa p) tp)"
    using ap(7) by (intro map_of_is_SomeI) auto
  with wa'(2) have a: "random_of_base (translation_table wa') (sta_base wa p) =
      Some (gen_mac sha1 (sta_key wa p) (sta_base wa p) tp)" by simp
  obtain ws' where ws': "generate_mac_add_sta sha1 es q tp ws = Inr ws'"
      "s_translation_table ws' =
        s_update_entry_by_base (vif_addr sd) (gen_mac sha1 k (vif_addr sd) tp) (s_translation_table ws)"
    using generate_mac_add_sta_ok [OF sta(1-3) ap(4) sta(4-6), of tp] by blast
  from ws'(2) sta(7) have "s_random_of_base (s_translation_table ws') (vif_addr sd) =
      Some (gen_mac sha1 k (vif_addr sd) tp)"
    by (simp add: s_update_entry_by_base_random_of_base)
  with a wa'(1) ws'(1) same show ?thesis by simp
qed

theorem ap_and_sta_derive_same_address_witness:
  "\<exists>wa' ws' m.
    generate_mac_add_ap_all sample_sha1 sample_env 113333333 (sample_world NL80211_IFTYPE_AP (Some 3) 16) = Inr wa' \<and>
    generate_mac_add_sta sample_sha1 sample_env 5 113333333 sample_sta_world = Inr ws' \<and>
    random_of_base (translation_table wa') sample_base = Some m \<and>
    s_random_of_base (s_translation_table ws') sample_base = Some m"
proof -
  obtain s sd where "stas sample_sta_world 5 = Some s" "sdatas sample_sta_world (sta_sdata s) = Some sd"
      "vif_addr sd = sample_base"
    using sample_sta_world_iface by blast
  note s = this
  let ?wa = "sample_world NL80211_IFTYPE_AP (Some 3) 16"
  have ap: "world_ok ?wa" "\<forall>p\<in>set (sta_list ?wa). keyed_sta ?wa p (sta_base ?wa p) (sta_key ?wa p)"
    "distinct (map (sta_base ?wa) (sta_list ?wa))" "5 \<in> set (sta_list ?wa)"
    by (simp_all add: sample_world_facts)
  have tbl: "s_random_of_base (s_translation_table sample_sta_world) (vif_addr sd) \<noteq> None"
    by (simp add: s(3) sample_sta_world_table)
  have same: "vif_addr sd = sta_base ?wa 5" "replicate 16 0x5a = sta_key ?wa 5"
    by (simp_all add: s(3) sample_world_facts)
  show ?thesis
    using ap_and_sta_derive_same_address [OF ap(1) sample_world_reset sample_env_ok sample_sha1_size ap(2-4)
        sample_sta_world_ok(1,2) sample_env_ok sample_sta_world_ok(3) s(1,2) tbl same, of 113333333]
    unfolding s(3) sample_world_base .
qed

text \<open>
  Every address the generators derive is a valid unicast, locally administered address,
  whatever the hash returns: the group bit is clear and the local bit is set.
\<close>

theorem generated_address_is_local_unicast:
  assumes "generate_mac_add_sta sha1 env p tp w = Inr w'" and "env_ok env"
    and "stas w p = Some s" and "sdatas w (sta_sdata s) = Some sd"
    and "s_random_of_base (s_translation_table w) (vif_addr sd) \<noteq> None"
  shows "\<exists>m. s_random_of_base (s_translation_table w') (vif_addr sd) = Some m \<and>
    \<not> is_multicast_ether_addr m \<and> is_local_ether_addr m"
proof -
  obtain d where d: "data_alloc env = Some d" "shash_alloc env" "desc_alloc env"
    using assms(2) by (auto simp: env_ok_def)
  obtain kp h m wx where m: "mac_from_hash h = Inr m"
      "(if ccmp_reset w then
          rbind (gen_pn_of (pn_clock env p)) (\<lambda>pn.
          case kp of None \<Rightarrow> Inl NullDeref
          | Some q \<Rightarrow> set_tx_pn q pn (put_sdata (sta_sdata s) (sd\<lparr>sequence_number := 0\<rparr>) w))
        else Inr (put_sdata (sta_sdata s) (sd\<lparr>sequence_number := 0\<rparr>) w)) = Inr wx"
      "w' = wx\<lparr>s_translation_table := s_update_entry_by_base (vif_addr sd) m (s_translation_table wx)\<rparr>"
    using assms(1,3,4) d unfolding generate_mac_add_sta_def
    by (fastforce simp: Let_def elim!: rbind_InrE)
  have "s_translation_table wx = s_translation_table w"
    using m(2) set_tx_pn_frame [of _ _ "put_sdata (sta_sdata s) (sd\<lparr>sequence_number := 0\<rparr>) w" wx]
    by (auto simp: gen_pn_of_eq split: option.splits if_splits)
  with m(3) assms(5) have "s_random_of_base (s_translation_table w') (vif_addr sd) = Some m"
    by (simp add: s_update_entry_by_base_random_of_base)
  with mac_from_hash_flags [OF m(1)] show ?thesis by blast
qed

theorem generated_address_is_local_unicast_witness:
  "\<exists>w' m. generate_mac_add_sta sample_sha1 sample_env 5 113333333 sample_sta_world = Inr w' \<and>
    s_random_of_base (s_translation_table w') sample_base = Some m \<and>
    \<not> is_multicast_ether_addr m \<and> is_local_ether_addr m"
proof -
  obtain s sd where s: "stas sample_sta_world 5 = Some s" "sdatas sample_sta_world (sta_sdata s) = Some sd"
      "vif_addr sd = sample_base"
    using sample_sta_world_iface by blast
  obtain w' where w': "generate_mac_add_sta sample_sha1 sample_env 5 113333333 sample_sta_world = Inr w'"
    using generate_mac_add_sta_ok [OF sample_sta_world_ok(1,2) sample_env_ok sample_sha1_size
        sample_sta_world_ok(3) s(1,2), of 113333333] by blast
  have "s_random_of_base (s_translation_table sample_sta_world) (vif_addr sd) \<noteq> None"
    by (simp add: s(3) sample_sta_world_table)
  from generated_address_is_local_unicast [OF w' sample_env_ok s(1,2) this] w' s(3) show ?thesis
    by auto
qed

text \<open>
  C32: A station that is on the list but has no pairwise key yet makes the access point's generator
  dereference a null pointer: the branch that keeps its base address is followed by the
  unconditional reset of the key's packet number.
\<close>

theorem station_without_ptk_faults:
  assumes "sta_list w = ps @ p # qs" and "world_ok w" and "ccmp_reset w" and "env_ok env"
    and "sha1_digest_size sha1" and "\<forall>x\<in>set ps. keyed_sta w x (sta_base w x) (sta_key w x)"
    and "stas w p = Some s" and "ptk s ! ptk_idx s = None"
  shows "generate_mac_add_ap_all sha1 env tp w = Inl NullDeref"
proof -
  obtain d where d: "data_alloc env = Some d" "length d = GEN_DATA_SIZE" "shash_alloc env"
      "desc_alloc env" "\<forall>p. entry_alloc env p"
    using assms(4) by (auto simp: env_ok_def)
  have inv: "mtt_invar (translation_table w)" using assms(2) by (simp add: world_ok_def)
  obtain d1 w1 where w1: "ap_gen_loop sha1 env tp ps (d, w) = Inr (d1, w1)" "gen_frame w w1"
    using ap_gen_loop_ok [OF assms(6) d(2) assms(3,5) d(5) inv, of tp] by blast
  have "sta_ok w s" using assms(1,2,7) by (auto simp: world_ok_def)
  with w1(2) have "sta_ok w1 s" by (rule gen_frame_sta_ok)
  then obtain sd where sd: "sdatas w1 (sta_sdata s) = Some sd" "ptk_idx s < length (ptk s)"
    by (auto simp: sta_ok_def)
  have st: "stas w1 p = Some s" "ccmp_reset w1" using w1(2) assms(3,7) by (simp_all add: gen_frame_def)
  have "ap_gen_station sha1 env tp p (d1, w1) = Inl NullDeref"
    using st sd assms(8)
    by (simp add: ap_gen_station_def sta_ptk_def ap_r_mac_def ap_reset_pn_def gen_pn_of_eq Let_def)
  moreover have "ap_gen_loop sha1 env tp (xs @ ys) st =
      rbind (ap_gen_loop sha1 env tp xs st) (ap_gen_loop sha1 env tp ys)" for xs ys st
    by (induction xs arbitrary: st) (auto simp: rbind_def split: sum.splits)
  ultimately show ?thesis
    using d w1(1) by (simp add: generate_mac_add_ap_all_def assms(1))
qed

theorem station_without_ptk_faults_witness:
  "generate_mac_add_ap_all sample_sha1 sample_env 113333333 (sample_world NL80211_IFTYPE_AP None 16) =
     Inl NullDeref"
proof -
  obtain s where s: "stas (sample_world NL80211_IFTYPE_AP None 16) 5 = Some s" "ptk s ! ptk_idx s = None"
    by (simp add: sample_world_def)
  show ?thesis
    by (rule station_without_ptk_faults [where ps = "[]" and qs = "[]", OF _ _ _ _ _ _ s])
      (simp_all add: sample_world_facts)
qed

text \<open>
  The 30-byte hash input has room for a 16-byte key only. A key of 32 bytes (TKIP, CCMP-256,
  GCMP-256) makes both generators write past the end of the buffer.
\<close>

theorem long_key_overflows_buffer:
  assumes "stas w p = Some s" and "sta_ptk s = Inr (Some kp)" and "keys w kp = Some x"
    and "30 < length (conf_key x)" and "data_alloc env = Some d" and "length d = GEN_DATA_SIZE"
    and "shash_alloc env" and "desc_alloc env" and "sdatas w (sta_sdata s) = Some sd"
  shows "generate_mac_add_ap_all sha1 env tp (w\<lparr>sta_list := p # ps\<rparr>) = Inl OutOfBounds \<and>
    generate_mac_add_sta sha1 env p tp w = Inl OutOfBounds"
  using assms
  by (simp add: generate_mac_add_ap_all_def ap_gen_station_def ap_r_mac_def buf_write_overflow
      generate_mac_add_sta_def sta_fill_data_def Let_def)

theorem long_key_overflows_buffer_witness:
  "generate_mac_add_sta sample_sha1 sample_env 5 113333333 (sample_world NL80211_IFTYPE_STATION (Some 3) 32) =
     Inl OutOfBounds"
proof -
  let ?w = "sample_world NL80211_IFTYPE_STATION (Some 3) 32"
  obtain s sd where "stas ?w 5 = Some s" "sta_ptk s = Inr (Some 3)" "sdatas ?w (sta_sdata s) = Some sd"
    by (simp add: sample_world_def sta_ptk_def)
  with long_key_overflows_buffer [of ?w 5 s 3 "sample_key 32" sample_env "replicate 30 0" sd] show ?thesis
    by (simp add: sample_world_def sample_env_def sample_key_def)
qed

text \<open>
  \<open>generate_pn\<close> always returns; the packet number has the period number modulo 2^24 in its upper
  24 bits and zeros in its lower 24, so it fits the 48 bits of a CCMP packet number.
\<close>

theorem generate_pn_value:
  "\<exists>pn. generate_pn t = Some pn \<and> unat pn = (unat t div 15 mod 2 ^ 24) * 2 ^ 24 \<and>
    unat pn < 2 ^ 48 \<and> pn AND mask 24 = 0"
proof -
  have "(unat t div 15 mod 2 ^ 24) * 2 ^ 24 < 2 ^ 24 * (2 ^ 24 :: nat)"
    by (rule mult_strict_right_mono) simp_all
  then have "unat (epoch_pn t) < 2 ^ 48" by (simp add: unat_epoch_pn)
  moreover have "epoch_pn t AND mask 24 = 0"
    unfolding epoch_pn_def by (rule bit_word_eqI) (auto simp: bit_simps)
  ultimately show ?thesis by (simp add: generate_pn_eq unat_epoch_pn)
qed

text \<open>
  C29: Packet numbers never repeat across periods while the period number does not wrap: if fewer
  than 2^24 frames are sent after the reset of one period, every packet number used in it is
  smaller than the packet number a later period starts with.
\<close>

theorem packet_numbers_increase:
  assumes "unat t1 div 15 < unat t2 div 15" and "unat t1 div 15 div 2 ^ 24 = unat t2 div 15 div 2 ^ 24"
    and "generate_pn t1 = Some pn1" and "generate_pn t2 = Some pn2" and "n < (2 ^ 24 :: nat)"
  shows "unat pn1 + n < unat pn2"
proof -
  let ?e1 = "unat t1 div 15" and ?e2 = "unat t2 div 15"
  have "?e1 mod 2 ^ 24 < ?e2 mod 2 ^ 24"
    using assms(1,2) by (metis add_less_cancel_left div_mult_mod_eq)
  then have "Suc (?e1 mod 2 ^ 24) * 2 ^ 24 \<le> (?e2 mod 2 ^ 24) * 2 ^ 24"
    by (intro mult_right_mono) simp_all
  moreover have "unat pn1 = (?e1 mod 2 ^ 24) * 2 ^ 24" "unat pn2 = (?e2 mod 2 ^ 24) * 2 ^ 24"
    using assms(3,4) by (auto simp: generate_pn_eq unat_epoch_pn)
  ultimately show ?thesis using assms(5) by simp
qed

theorem packet_numbers_increase_witness:
  "\<exists>pn1 pn2. generate_pn 1700000000 = Some pn1 \<and> generate_pn 1700000015 = Some pn2 \<and>
    unat pn1 + 16777215 < unat pn2"
  using packet_numbers_increase [of 1700000000 1700000015 "epoch_pn 1700000000" "epoch_pn 1700000015" 16777215]
  by (simp add: generate_pn_eq)

text \<open>
  Every 15 * 2^24 seconds (about eight years) the period number wraps and the packet number of a
  key starts again from zero, below every packet number used before: the reset is then not a valid
  next packet number for the receiver's replay check.
\<close>

theorem packet_number_wraps:
  "generate_pn (word_of_nat (15 * 2 ^ 24 * 7)) = Some 0 \<and>
   (\<exists>pn. generate_pn (word_of_nat (15 * 2 ^ 24 * 7 - 1)) = Some pn \<and> unat pn = (2 ^ 24 - 1) * 2 ^ 24)"
  by (simp add: generate_pn_eq epoch_pn_def push_bit_eq_mult)

text \<open>
  C33: The logarithm loop of \<open>calculate_l\<close> ends exactly for non-negative inputs; for a positive input
  it adds the position of the highest set bit. (An arithmetic right shift never turns a negative
  number into zero.)
\<close>

theorem log_loop_terminates_iff:
  "(log_loop n a \<noteq> None \<longleftrightarrow> 0 \<le> n) \<and>
   (0 < n \<longrightarrow> (\<exists>l\<ge>a. log_loop n a = Some l \<and> 2 ^ nat (l - a) \<le> n \<and> n < 2 ^ nat (l - a + 1)))"
proof
  show "log_loop n a \<noteq> None \<longleftrightarrow> 0 \<le> n"
    using log_loop_terminates [of n a] log_loop_negative [of n a] by fastforce
  show "0 < n \<longrightarrow> (\<exists>l\<ge>a. log_loop n a = Some l \<and> 2 ^ nat (l - a) \<le> n \<and> n < 2 ^ nat (l - a + 1))"
    using log_loop_terminates [of n a] by force
qed

theorem log_loop_terminates_iff_witness: "\<exists>l\<ge>0. log_loop 940 0 = Some l \<and> 2 ^ nat l \<le> (940 :: int)"
  using log_loop_terminates_iff [of 940 0] by auto

end
