(* ===== verification/Rathan_Debug.thy ===== *)
theory Rathan_Debug
  imports Mac80211_State
begin

text \<open>
  \<^verbatim>\<open>net/mac80211/rathan_debug.c\<close>: finding out whether a device runs as an access point or as a
  station, looking up its access-point interface and its stations, and the debug prints (modelled
  as the values they print).
\<close>

datatype rathan_instance_type = rathan_INSTANCE_UNKNOWN | rathan_INSTANCE_STA | rathan_INSTANCE_AP

section \<open>Which instance\<close>

text \<open>The loop over \<open>wiphy->wdev_list\<close> with the flags \<open>sta\<close> and \<open>ap\<close>.\<close>

fun which_instance_loop :: "wireless_dev list \<Rightarrow> bool \<times> bool \<Rightarrow> bool \<times> bool" where
  "which_instance_loop [] (sta, ap) = (sta, ap)"
| "which_instance_loop (wdev # ws) (sta, ap) =
     (if \<not> wdev_netdev wdev then which_instance_loop ws (sta, ap)
      else which_instance_loop ws
        (case iftype wdev of
           NL80211_IFTYPE_STATION \<Rightarrow> (True, ap)
         | NL80211_IFTYPE_AP \<Rightarrow> (sta, True)
         | _ \<Rightarrow> (sta, ap)))"

definition which_instance :: "bool \<Rightarrow> world \<Rightarrow> rathan_instance_type" where
  "which_instance local w =
     (if \<not> local then rathan_INSTANCE_UNKNOWN
      else
        (let (sta, ap) = which_instance_loop (wdev_list w) (False, False) in
         if ap \<and> sta then rathan_INSTANCE_UNKNOWN
         else if ap then rathan_INSTANCE_AP
         else if sta then rathan_INSTANCE_STA
         else rathan_INSTANCE_UNKNOWN))"

section \<open>Interfaces and stations\<close>

fun get_ap_sdata_loop :: "world \<Rightarrow> sdata_ptr list \<Rightarrow> sdata_ptr option result" where
  "get_ap_sdata_loop w [] = Inr None"
| "get_ap_sdata_loop w (sp # sps) =
     rbind (deref (sdatas w) sp) (\<lambda>sdata.
       if vif_type sdata = NL80211_IFTYPE_AP then Inr (Some sp) else get_ap_sdata_loop w sps)"

definition get_ap_sdata :: "world \<Rightarrow> sdata_ptr option result" where
  "get_ap_sdata w = get_ap_sdata_loop w (interfaces w)"

definition local_to_sta_info :: "world \<Rightarrow> sta_ptr option" where
  "local_to_sta_info w = (case sta_list w of [] \<Rightarrow> None | p # _ \<Rightarrow> Some p)"

text \<open>\<open>sta_info_get\<close> of \<^verbatim>\<open>sta_info.c\<close>: the station with this address on this interface.\<close>

fun sta_info_get_loop :: "world \<Rightarrow> sdata_ptr \<Rightarrow> sta_ptr list \<Rightarrow> sta_ptr option result" where
  "sta_info_get_loop w sdata [] = Inr None"
| "sta_info_get_loop w sdata (p # ps) =
     rbind (deref (stas w) p) (\<lambda>s.
       if sta_sdata s = sdata then Inr (Some p) else sta_info_get_loop w sdata ps)"

definition sta_info_get :: "world \<Rightarrow> sdata_ptr \<Rightarrow> mac \<Rightarrow> sta_ptr option result" where
  "sta_info_get w sdata addr = sta_info_get_loop w sdata (sta_hash w addr)"

definition is_sta_authorized :: "world \<Rightarrow> sdata_ptr \<Rightarrow> mac \<Rightarrow> bool result" where
  "is_sta_authorized w sdata addr =
     rbind (sta_info_get w sdata addr) (\<lambda>sta.
     case sta of
       None \<Rightarrow> Inr False
     | Some p \<Rightarrow> rbind (deref (stas w) p) (\<lambda>s. Inr (sta_state s = IEEE80211_STA_AUTHORIZED)))"

section \<open>Debug prints\<close>

record packet_header_print =
  pr_addr1 :: mac
  pr_addr2 :: mac
  pr_addr3 :: mac
  pr_addr4 :: mac
  pr_seq_num :: u16
  pr_frame_control :: u16
  pr_type :: u8
  pr_subtype :: u8
  pr_duration :: u16
  pr_qos :: "u16 option"
  pr_ht :: "u8 list option"

definition print_packet_header :: "sk_buff option \<Rightarrow> packet_header_print option result" where
  "print_packet_header skb =
     (case skb of
        None \<Rightarrow> Inr None
      | Some s \<Rightarrow>
          rbind (hdr_load (skb_data s)) (\<lambda>hdr.
          let fc = frame_control hdr in
          rbind (if ieee80211_is_data_qos fc
                 then rbind (arr_get (skb_data s) 24) (\<lambda>lo. rbind (arr_get (skb_data s) 25) (\<lambda>hi.
                        Inr (Some (le16_of lo hi))))
                 else Inr None) (\<lambda>qos.
          rbind (if ieee80211_has_order fc
                 then (if 34 \<le> length (skb_data s) then Inr (Some (take 4 (drop 30 (skb_data s))))
                       else Inl OutOfBounds)
                 else Inr None) (\<lambda>ht.
          Inr (Some \<lparr>pr_addr1 = addr1 hdr, pr_addr2 = addr2 hdr, pr_addr3 = addr3 hdr,
            pr_addr4 = addr4 hdr, pr_seq_num = drop_bit 4 (seq_ctrl hdr), pr_frame_control = fc,
            pr_type = ucast (drop_bit 2 (fc AND IEEE80211_FCTL_FTYPE)),
            pr_subtype = ucast (drop_bit 4 (fc AND IEEE80211_FCTL_STYPE)),
            pr_duration = duration_id hdr, pr_qos = qos, pr_ht = ht\<rparr>)))))"

section \<open>Facts\<close>

definition has_iface :: "nl80211_iftype \<Rightarrow> wireless_dev list \<Rightarrow> bool" where
  "has_iface ty ws \<longleftrightarrow> (\<exists>d\<in>set ws. wdev_netdev d \<and> iftype d = ty)"

lemma which_instance_loop_flags:
  "which_instance_loop ws (sta, ap) =
     (sta \<or> has_iface NL80211_IFTYPE_STATION ws, ap \<or> has_iface NL80211_IFTYPE_AP ws)"
  by (induction ws "(sta, ap)" arbitrary: sta ap rule: which_instance_loop.induct)
    (auto simp: has_iface_def split: nl80211_iftype.splits)

lemma get_ap_sdata_loop_ok:
  assumes "\<forall>sp\<in>set sps. \<exists>sd. sdatas w sp = Some sd"
  shows "\<exists>r. get_ap_sdata_loop w sps = Inr r \<and>
    (\<forall>sp. r = Some sp \<longrightarrow> sp \<in> set sps \<and> (\<exists>sd. sdatas w sp = Some sd \<and> vif_type sd = NL80211_IFTYPE_AP)) \<and>
    (r = None \<longrightarrow> (\<forall>sp\<in>set sps. \<forall>sd. sdatas w sp = Some sd \<longrightarrow> vif_type sd \<noteq> NL80211_IFTYPE_AP))"
  using assms by (induction sps) auto

lemma get_ap_sdata_ok: "world_ok w \<Longrightarrow> \<exists>r. get_ap_sdata w = Inr r"
  using get_ap_sdata_loop_ok [of "interfaces w" w] by (auto simp: get_ap_sdata_def world_ok_def)

section \<open>Properties\<close>

text \<open>
  A device counts as an access point exactly when it has an access-point interface and no
  station interface, as a station in the opposite case, and as unknown when it has both or neither;
  interfaces without a network device do not count. In particular the access point role is not
  preferred when both kinds are present.
\<close>

theorem which_instance_spec:
  "which_instance local w =
     (if local \<and> has_iface NL80211_IFTYPE_AP (wdev_list w) \<and> \<not> has_iface NL80211_IFTYPE_STATION (wdev_list w)
      then rathan_INSTANCE_AP
      else if local \<and> has_iface NL80211_IFTYPE_STATION (wdev_list w) \<and> \<not> has_iface NL80211_IFTYPE_AP (wdev_list w)
      then rathan_INSTANCE_STA
      else rathan_INSTANCE_UNKNOWN)"
  by (simp add: which_instance_def which_instance_loop_flags)

end
