(* ===== verification/Mac_Randomizer.thy ===== *)
theory Mac_Randomizer
  imports Mac_Add_Gen Rathan_Debug
begin

text \<open>
  \<^verbatim>\<open>net/mac80211/mac_randomizer.c\<close>: the hooks the transmit and receive paths call. On transmission
  \<open>handle_random_mac\<close> re-randomises addresses when a new period has begun and
  \<open>mac_addr_change_hdr_tx\<close> replaces base by random addresses in the header;
  \<open>mac_addr_change_hdr_rx\<close> does the reverse on reception. The clock reading of
  \<open>ktime_get_real_seconds\<close> is an argument.
\<close>

section \<open>Transmit: new periods\<close>

definition current_period :: "int \<Rightarrow> int" where
  "current_period now = now sdiv RND_TP"

text \<open>The \<open>NL80211_IFTYPE_AP\<close> case.\<close>

definition handle_random_mac_ap ::
  "(u8 list \<Rightarrow> u8 list) \<Rightarrow> gen_env \<Rightarrow> int \<Rightarrow> sta_ptr \<Rightarrow> sta_info \<Rightarrow> world \<Rightarrow> world result" where
  "handle_random_mac_ap sha1 env current_tp p sta w =
     rbind (deref (sdatas w) (sta_sdata sta)) (\<lambda>sdata.
     let (gen_flag, w) =
       (case search_by_base_mac (translation_table w) (sta_addr sta) of
          Some _ \<Rightarrow> (True, w)
        | None \<Rightarrow>
            (False,
             put_sdata (sta_sdata sta) (sdata\<lparr>sdata_start_time_period := current_tp\<rparr>)
               (w\<lparr>translation_table :=
                    insert_entry (entry_alloc env p) (sta_addr sta) (sta_addr sta) (translation_table w)\<rparr>)))
     in rbind (deref (sdatas w) (sta_sdata sta)) (\<lambda>sdata.
        if current_tp \<noteq> sdata_start_time_period sdata \<and> gen_flag then
          rbind (generate_mac_add_ap_all sha1 env current_tp w) (\<lambda>w.
          rbind (deref (sdatas w) (sta_sdata sta)) (\<lambda>sdata.
          Inr (put_sdata (sta_sdata sta) (sdata\<lparr>sdata_start_time_period := current_tp\<rparr>) w)))
        else Inr w))"

text \<open>The \<open>NL80211_IFTYPE_STATION\<close> case.\<close>

definition handle_random_mac_sta ::
  "(u8 list \<Rightarrow> u8 list) \<Rightarrow> gen_env \<Rightarrow> int \<Rightarrow> sta_ptr \<Rightarrow> sta_info \<Rightarrow> world \<Rightarrow> world result" where
  "handle_random_mac_sta sha1 env current_tp p sta w =
     rbind (deref (sdatas w) (sta_sdata sta)) (\<lambda>sdata.
     let interface_mac_addr = vif_addr sdata;
         (gen_flag, w) =
           (case s_search_by_base_mac (s_translation_table w) interface_mac_addr of
              Some _ \<Rightarrow> (True, w)
            | None \<Rightarrow>
                (False,
                 put_sta p (sta\<lparr>start_time_period := current_tp\<rparr>)
                   (w\<lparr>s_translation_table :=
                        s_insert_entry (entry_alloc env p) interface_mac_addr interface_mac_addr
                          (s_translation_table w)\<rparr>)))
     in rbind (deref (stas w) p) (\<lambda>sta.
        if current_tp \<noteq> start_time_period sta \<and> gen_flag then
          rbind (generate_mac_add_sta sha1 env p current_tp w) (\<lambda>w.
          rbind (deref (stas w) p) (\<lambda>sta.
          Inr (put_sta p (sta\<lparr>start_time_period := current_tp\<rparr>) w)))
        else Inr w))"

definition handle_random_mac ::
  "(u8 list \<Rightarrow> u8 list) \<Rightarrow> gen_env \<Rightarrow> int \<Rightarrow> ieee80211_tx_data \<Rightarrow> world \<Rightarrow> world result" where
  "handle_random_mac sha1 env now tx w =
     (let current_tp = current_period now;
          trigger_flag = (tx_sta tx \<noteq> None \<and> tx_local tx \<and> tx_sdata tx \<noteq> None)
      in case tx_sta tx of
           Some p \<Rightarrow>
             rbind (deref (stas w) p) (\<lambda>sta.
             if trigger_flag \<and> sta_state sta = IEEE80211_STA_AUTHORIZED then
               rbind (deref (sdatas w) (sta_sdata sta)) (\<lambda>sdata.
               case vif_type sdata of
                 NL80211_IFTYPE_AP \<Rightarrow> handle_random_mac_ap sha1 env current_tp p sta w
               | NL80211_IFTYPE_STATION \<Rightarrow> handle_random_mac_sta sha1 env current_tp p sta w
               | _ \<Rightarrow> Inr w)
             else Inr w)
         | None \<Rightarrow> Inr w)"

section \<open>Rewriting headers\<close>

text \<open>A search followed by a read through the returned pointer, for each table and direction.\<close>

definition s_entry_random :: "world \<Rightarrow> mac \<Rightarrow> mac option" where
  "s_entry_random w a =
     (case s_search_by_base_mac (s_translation_table w) a of
        Some p \<Rightarrow> Some (s_random_mac (entry_at (s_translation_table w) p)) | None \<Rightarrow> None)"

definition s_entry_base :: "world \<Rightarrow> mac \<Rightarrow> mac option" where
  "s_entry_base w a =
     (case s_search_by_random_mac (s_translation_table w) a of
        Some p \<Rightarrow> Some (s_base_mac (entry_at (s_translation_table w) p)) | None \<Rightarrow> None)"

definition entry_random :: "world \<Rightarrow> mac \<Rightarrow> mac option" where
  "entry_random w a =
     (case search_by_base_mac (translation_table w) a of
        Some p \<Rightarrow> Some (random_mac (entry_at (translation_table w) p)) | None \<Rightarrow> None)"

definition entry_base :: "world \<Rightarrow> mac \<Rightarrow> mac option" where
  "entry_base w a =
     (case search_by_random_mac (translation_table w) a of
        Some p \<Rightarrow> Some (base_mac (entry_at (translation_table w) p)) | None \<Rightarrow> None)"

text \<open>The four address fields in turn; a field without an entry is left alone.\<close>

definition subst_hdr :: "(mac \<Rightarrow> mac option) \<Rightarrow> ieee80211_hdr \<Rightarrow> ieee80211_hdr" where
  "subst_hdr look hdr =
     (let hdr = hdr\<lparr>addr1 := subst_addr look (addr1 hdr)\<rparr>;
          hdr = hdr\<lparr>addr2 := subst_addr look (addr2 hdr)\<rparr>;
          hdr = hdr\<lparr>addr3 := subst_addr look (addr3 hdr)\<rparr>
      in hdr\<lparr>addr4 := subst_addr look (addr4 hdr)\<rparr>)"

text \<open>
  \<open>vif\<close> is \<^const>\<open>None\<close> for a null pointer. The header of the first buffer of the queue is rewritten
  in place.
\<close>

definition rewrite_head :: "(mac \<Rightarrow> mac option) \<Rightarrow> sk_buff list \<Rightarrow> sk_buff list result" where
  "rewrite_head look skbs =
     (case skbs of
        [] \<Rightarrow> Inl NullDeref
      | skb # rest \<Rightarrow>
          rbind (hdr_load (skb_data skb)) (\<lambda>hdr.
          Inr (skb\<lparr>skb_data := hdr_store (subst_hdr look hdr) (skb_data skb)\<rparr> # rest)))"

definition mac_addr_change_hdr_tx ::
  "world \<Rightarrow> sk_buff list \<Rightarrow> nl80211_iftype option \<Rightarrow> sk_buff list result" where
  "mac_addr_change_hdr_tx w skbs vif =
     (case skbs of
        [] \<Rightarrow> Inl NullDeref
      | skb_rnd # _ \<Rightarrow>
          if RND_MAC w then
            (case vif of
               None \<Rightarrow> Inl NullDeref
             | Some NL80211_IFTYPE_STATION \<Rightarrow> rewrite_head (s_entry_random w) skbs
             | Some NL80211_IFTYPE_AP \<Rightarrow> rewrite_head (entry_random w) skbs
             | Some _ \<Rightarrow> Inr skbs)
          else Inr skbs)"

text \<open>
  Reception. The access point first starts a new period if one is due, for all its stations. A null
  \<open>local\<close> leaves \<open>instance_type\<close> unassigned.
\<close>

definition rx_new_period ::
  "(u8 list \<Rightarrow> u8 list) \<Rightarrow> gen_env \<Rightarrow> int \<Rightarrow> world \<Rightarrow> world result" where
  "rx_new_period sha1 env current_tp w =
     rbind (get_ap_sdata w) (\<lambda>sdata_instance.
     case sdata_instance of
       None \<Rightarrow> Inr w
     | Some sp \<Rightarrow>
         rbind (deref (sdatas w) sp) (\<lambda>sdata.
         if current_tp \<noteq> sdata_start_time_period sdata then
           rbind (generate_mac_add_ap_all sha1 env current_tp w) (\<lambda>w.
           rbind (deref (sdatas w) sp) (\<lambda>sdata.
           Inr (put_sdata sp (sdata\<lparr>sdata_start_time_period := current_tp\<rparr>) w)))
         else Inr w))"

definition mac_addr_change_hdr_rx ::
  "(u8 list \<Rightarrow> u8 list) \<Rightarrow> gen_env \<Rightarrow> int \<Rightarrow> bool \<Rightarrow> ieee80211_hdr \<Rightarrow> world \<Rightarrow> (ieee80211_hdr \<times> world) result" where
  "mac_addr_change_hdr_rx sha1 env now local hdr w =
     (let current_tp = current_period now in
      if RND_MAC w then
        (if \<not> local then Inl Uninitialised
         else
           (case which_instance local w of
              rathan_INSTANCE_STA \<Rightarrow> Inr (subst_hdr (s_entry_base w) hdr, w)
            | rathan_INSTANCE_AP \<Rightarrow>
                rbind (rx_new_period sha1 env current_tp w) (\<lambda>w.
                Inr (subst_hdr (entry_base w) hdr, w))
            | rathan_INSTANCE_UNKNOWN \<Rightarrow> Inr (hdr, w)))
      else Inr (hdr, w))"

section \<open>The announcement packet\<close>

text \<open>
  \<open>alloc\<close> is the result of \<^verbatim>\<open>dev_alloc_skb(130)\<close> with the contents of the memory it returns; the
  header fields the function does not assign keep what was there.
\<close>

definition construct_custom_packet :: "u8 list option \<Rightarrow> mac \<Rightarrow> u8 list option result" where
  "construct_custom_packet alloc vifaddr =
     (case alloc of
        None \<Rightarrow> Inr None
      | Some mem \<Rightarrow>
          rbind (buf_write mem 30 (replicate 100 0xab)) (\<lambda>mem.
          rbind (hdr_load mem) (\<lambda>hdr.
          let hdr = hdr\<lparr>frame_control := IEEE80211_FTYPE_MGMT OR 0x00F0\<rparr>;
              hdr = hdr\<lparr>addr1 := Mac 0xFF 0xFF 0xFF 0xFF 0xFF 0xFF\<rparr>;
              hdr = hdr\<lparr>addr2 := vifaddr\<rparr>;
              hdr = hdr\<lparr>addr3 := vifaddr\<rparr>
          in Inr (Some (hdr_store hdr mem)))))"

section \<open>Facts\<close>

lemma s_entry_random_eq [simp]: "s_entry_random w = s_random_of_base (s_translation_table w)"
  by (rule ext) (simp add: s_entry_random_def tbl_get_def s_search_by_base_mac_def split: option.split)

lemma s_entry_base_eq [simp]: "s_entry_base w = s_base_of_random (s_translation_table w)"
  by (rule ext) (simp add: s_entry_base_def tbl_get_def s_search_by_random_mac_def split: option.split)

lemma entry_random_eq [simp]: "entry_random w = random_of_base (translation_table w)"
  by (rule ext) (simp add: entry_random_def tbl_get_def search_by_base_mac_def split: option.split)

lemma entry_base_eq [simp]: "entry_base w = base_of_random (translation_table w)"
  by (rule ext) (simp add: entry_base_def tbl_get_def search_by_random_mac_def split: option.split)

lemma subst_hdr_simps [simp]:
  "addr1 (subst_hdr f h) = subst_addr f (addr1 h)" "addr2 (subst_hdr f h) = subst_addr f (addr2 h)"
  "addr3 (subst_hdr f h) = subst_addr f (addr3 h)" "addr4 (subst_hdr f h) = subst_addr f (addr4 h)"
  "frame_control (subst_hdr f h) = frame_control h" "duration_id (subst_hdr f h) = duration_id h"
  "seq_ctrl (subst_hdr f h) = seq_ctrl h"
  by (simp_all add: subst_hdr_def Let_def)

definition hdr_addrs :: "ieee80211_hdr \<Rightarrow> mac set" where
  "hdr_addrs h = {addr1 h, addr2 h, addr3 h, addr4 h}"

lemma subst_hdr_inverse:
  assumes "\<forall>a\<in>hdr_addrs h. subst_addr g (subst_addr f a) = a"
  shows "subst_hdr g (subst_hdr f h) = h"
  using assms by (intro ieee80211_hdr.equality) (simp_all add: hdr_addrs_def)

lemma rewrite_head_ok:
  "hdr_load (skb_data skb) = Inr h \<Longrightarrow>
     rewrite_head f (skb # rest) =
       Inr (skb\<lparr>skb_data := hdr_store (subst_hdr f h) (skb_data skb)\<rparr> # rest)"
  by (simp add: rewrite_head_def)

text \<open>
  A station's pairs are known to the access point when every pair of the station's table is in the
  access point's table.
\<close>

lemma uplink_addr:
  assumes mp: "mp_invar ts" and sub: "set (mp_pairs ts) \<subseteq> set (mtt_pairs ta)"
    and d: "distinct (randoms (mtt_pairs ta))"
    and a: "a \<in> set (bases (mp_pairs ts)) \<or> a \<notin> set (randoms (mtt_pairs ta))"
  shows "subst_addr (base_of_random ta) (subst_addr (s_random_of_base ts) a) = a"
proof (cases "s_random_of_base ts a")
  case None
  with a have "base_of_random ta a = None"
    by (simp add: mp.rnd_of_None_iff mtt.base_of_None_iff)
  with None show ?thesis by simp
next
  case (Some r)
  with mp have "(a, r) \<in> set (mp_pairs ts)" by (simp add: mp.rnd_of_iff)
  with sub d have "base_of_random ta r = Some a" by (auto simp: mtt.base_of_iff)
  with Some show ?thesis by simp
qed

lemma downlink_addr:
  assumes mp: "mp_invar ts" and mtt: "mtt_invar ta" and sub: "set (mp_pairs ts) \<subseteq> set (mtt_pairs ta)"
    and d: "distinct (randoms (mtt_pairs ta))"
  shows "subst_addr (s_base_of_random ts) (subst_addr (random_of_base ta) a) =
    (case random_of_base ta a of
       None \<Rightarrow> subst_addr (s_base_of_random ts) a
     | Some r \<Rightarrow> if a \<in> set (bases (mp_pairs ts)) then a else r)"
proof (cases "random_of_base ta a")
  case None
  then show ?thesis by simp
next
  case (Some r)
  then have ar: "(a, r) \<in> set (mtt_pairs ta)" using mtt by (simp add: mtt.rnd_of_iff)
  have uniq: "(b, r) \<in> set (mtt_pairs ta) \<Longrightarrow> b = a" for b
    using d ar by (metis mtt.base_of_iff option.inject)
  have "s_base_of_random ts r = (if a \<in> set (bases (mp_pairs ts)) then Some a else None)"
  proof (cases "a \<in> set (bases (mp_pairs ts))")
    case True
    then obtain q where q: "(a, q) \<in> set (mp_pairs ts)" by (auto simp: bases_def)
    with sub mtt Some have "q = r" by (metis mtt.rnd_of_iff option.inject subsetD)
    with q have "r \<in> set (randoms (mp_pairs ts))" by (auto simp: randoms_def rev_image_eqI)
    then have "s_base_of_random ts r \<noteq> None" by (simp add: mp.base_of_None_iff)
    then obtain b where b: "s_base_of_random ts r = Some b" by blast
    then have "(b, r) \<in> set (mp_pairs ts)"
      by (auto simp: mp.base_of_find dest!: find_SomeD)
    with sub uniq b True show ?thesis by auto
  next
    case False
    have "r \<notin> set (randoms (mp_pairs ts))"
    proof
      assume "r \<in> set (randoms (mp_pairs ts))"
      then obtain b where "(b, r) \<in> set (mp_pairs ts)" by (auto simp: randoms_def)
      with sub uniq False show False by (auto simp: bases_def rev_image_eqI)
    qed
    with False show ?thesis by (simp add: mp.base_of_None_iff)
  qed
  with Some show ?thesis by simp
qed

subsection \<open>Periods\<close>

lemma put_sta_simps [simp]:
  "translation_table (put_sta p x w) = translation_table w" "keys (put_sta p x w) = keys w"
  "s_translation_table (put_sta p x w) = s_translation_table w" "sdatas (put_sta p x w) = sdatas w"
  "stas (put_sta p x w) = (stas w)(p \<mapsto> x)"
  by (simp_all add: put_sta_def)

lemma put_sdata_same: "sdatas w sp = Some sd \<Longrightarrow> put_sdata sp sd w = w"
  by (cases w) (simp add: put_sdata_def fun_upd_idem)

text \<open>The state of the period machine after a completed call: entry present, period recorded.\<close>

lemma handle_random_mac_ap_settled:
  assumes "search_by_base_mac (translation_table w) (sta_addr sta) \<noteq> None"
    and "sdatas w (sta_sdata sta) = Some sd" and "sdata_start_time_period sd = tp"
  shows "handle_random_mac_ap sha1 env tp p sta w = Inr w"
  using assms by (auto simp: handle_random_mac_ap_def Let_def split: option.splits)

lemma handle_random_mac_sta_settled:
  assumes "sdatas w (sta_sdata sta) = Some sd" and "stas w p = Some sta"
    and "s_search_by_base_mac (s_translation_table w) (vif_addr sd) \<noteq> None"
    and "start_time_period sta = tp"
  shows "handle_random_mac_sta sha1 env tp p sta w = Inr w"
  using assms by (auto simp: handle_random_mac_sta_def Let_def split: option.splits)

lemma handle_random_mac_sta_new_period:
  assumes "world_ok w" and "ccmp_reset w" and "env_ok env" and "sha1_digest_size sha1"
    and k: "keyed_sta w p a k" and s: "stas w p = Some s" and sd: "sdatas w (sta_sdata s) = Some sd"
    and known: "s_random_of_base (s_translation_table w) (vif_addr sd) \<noteq> None"
    and tp: "start_time_period s \<noteq> tp"
  shows "\<exists>w'. handle_random_mac_sta sha1 env tp p s w = Inr w' \<and>
    s_random_of_base (s_translation_table w') =
      (s_random_of_base (s_translation_table w))(vif_addr sd \<mapsto> gen_mac sha1 k (vif_addr sd) tp) \<and>
    stas w' p = Some (s\<lparr>start_time_period := tp\<rparr>) \<and>
    sdatas w' (sta_sdata s) = Some (sd\<lparr>sequence_number := 0\<rparr>)"
proof -
  obtain w1 where w1: "generate_mac_add_sta sha1 env p tp w = Inr w1" "gen_frame w w1"
      "s_translation_table w1 =
         s_update_entry_by_base (vif_addr sd) (gen_mac sha1 k (vif_addr sd) tp) (s_translation_table w)"
      "map_option sequence_number (sdatas w1 (sta_sdata s)) = Some 0"
    using generate_mac_add_sta_ok [OF assms(1-4) k s sd, of tp] by blast
  have "stas w1 p = Some s" using w1(2) s by (simp add: gen_frame_def)
  moreover have "s_search_by_base_mac (s_translation_table w) (vif_addr sd) \<noteq> None"
    using known by (simp add: s_search_by_base_mac_None_iff)
  ultimately have "handle_random_mac_sta sha1 env tp p s w =
      Inr (put_sta p (s\<lparr>start_time_period := tp\<rparr>) w1)"
    using s sd tp w1(1) by (auto simp: handle_random_mac_sta_def Let_def split: option.split)
  moreover have "sdatas w1 (sta_sdata s) = Some (sd\<lparr>sequence_number := 0\<rparr>)"
    using gen_frame_sdata [OF w1(2) sd] w1(4) by auto
  ultimately show ?thesis
    using w1(3) known by (simp add: s_update_entry_by_base_random_of_base)
qed

lemma handle_random_mac_ap_new_period:
  assumes "world_ok w" and "ccmp_reset w" and "env_ok env" and "sha1_digest_size sha1"
    and "\<forall>q\<in>set (sta_list w). keyed_sta w q (sta_base w q) (sta_key w q)"
    and sd: "sdatas w (sta_sdata s) = Some sd"
    and known: "random_of_base (translation_table w) (sta_addr s) \<noteq> None"
    and tp: "sdata_start_time_period sd \<noteq> tp"
  shows "\<exists>w'. handle_random_mac_ap sha1 env tp p s w = Inr w' \<and>
    random_of_base (translation_table w') = random_of_base (translation_table w) ++
      map_of (rev (map (\<lambda>p. (sta_base w p, gen_mac sha1 (sta_key w p) (sta_base w p) tp)) (sta_list w))) \<and>
    stas w' = stas w \<and>
    (\<exists>n. sdatas w' (sta_sdata s) = Some (sd\<lparr>sequence_number := n, sdata_start_time_period := tp\<rparr>))"
proof -
  obtain w1 where w1: "generate_mac_add_ap_all sha1 env tp w = Inr w1" "world_ok w1" "gen_frame w w1"
      "s_translation_table w1 = s_translation_table w"
      "random_of_base (translation_table w1) = random_of_base (translation_table w) ++
      map_of (rev (map (\<lambda>p. (sta_base w p, gen_mac sha1 (sta_key w p) (sta_base w p) tp)) (sta_list w)))"
    using generate_mac_add_ap_all_ok [OF assms(1-5), of tp] by blast
  obtain n where "sdatas w1 (sta_sdata s) = Some (sd\<lparr>sequence_number := n\<rparr>)"
    using gen_frame_sdata [OF w1(3) sd] by blast
  moreover have "search_by_base_mac (translation_table w) (sta_addr s) \<noteq> None"
    using known by (simp add: search_by_base_mac_None_iff)
  ultimately have "handle_random_mac_ap sha1 env tp p s w = Inr (put_sdata (sta_sdata s)
      (sd\<lparr>sequence_number := n, sdata_start_time_period := tp\<rparr>) w1)"
    using sd tp w1(1) by (auto simp: handle_random_mac_ap_def Let_def split: option.split)
  moreover have "stas w1 = stas w" using w1(3) by (simp add: gen_frame_def)
  ultimately show ?thesis using w1(5) by auto
qed

section \<open>Sample states\<close>

text \<open>
  A station and its access point in the middle of period 0: the station's pair is in both tables.
\<close>

definition sample_random :: mac where "sample_random = Mac 0x02 0x99 0x99 0x99 0x99 0x99"

definition sample_paired_sta :: world where
  "sample_paired_sta = sample_sta_world\<lparr>s_translation_table :=
     s_insert_entry True sample_base sample_random s_translation_table_init\<rparr>"

definition sample_paired_ap :: world where
  "sample_paired_ap = (sample_world NL80211_IFTYPE_AP (Some 3) 16)\<lparr>translation_table :=
     insert_entry True sample_base sample_random translation_table_init\<rparr>"

definition sample_hdr :: ieee80211_hdr where
  "sample_hdr = \<lparr>frame_control = 0x4188, duration_id = 0, addr1 = sample_iface, addr2 = sample_base,
     addr3 = Mac 0xFF 0xFF 0xFF 0xFF 0xFF 0xFF, seq_ctrl = 0x10, addr4 = Mac 0 0 0 0 0 0\<rparr>"

definition sample_skb :: sk_buff where
  "sample_skb = \<lparr>skb_head = replicate 16 0, skb_data = hdr_bytes sample_hdr @ [1, 2, 3, 4], skb_len = 34, skb_protocol = 0x0800,
     info_flags = 0, info_control_flags = 0, info_hw_key = None, info_vif = Some 2, info_hw_queue = 0,
     info_rates_idx = [0, -1, -1, -1], info_jiffies = 0, skb_queue_mapping = 0, skb_priority = 0\<rparr>"

definition sample_tx :: ieee80211_tx_data where
  "sample_tx = \<lparr>tx_skb = Some sample_skb, tx_skbs = [], tx_local = True, tx_sdata = Some 2,
     tx_sta = Some 5, tx_key = None, tx_flags = 0\<rparr>"

lemma sample_pairs:
  "mp_pairs (s_translation_table sample_paired_sta) = [(sample_base, sample_random)]"
  "mtt_pairs (translation_table sample_paired_ap) = [(sample_base, sample_random)]"
  by (simp_all add: sample_paired_sta_def sample_paired_ap_def s_insert_entry_def insert_entry_def
      tbl_pairs_def flat_push_empty s_translation_table_init_def translation_table_init_def)

lemma sample_paired_ok: "world_ok sample_paired_sta" "world_ok sample_paired_ap"
proof -
  have f: "gen_frame sample_sta_world sample_paired_sta"
    "gen_frame (sample_world NL80211_IFTYPE_AP (Some 3) 16) sample_paired_ap"
    by (simp_all add: gen_frame_def sample_paired_sta_def sample_paired_ap_def)
  have inv: "mtt_invar (translation_table sample_paired_sta)" "mp_invar (s_translation_table sample_paired_sta)"
    "mtt_invar (translation_table sample_paired_ap)" "mp_invar (s_translation_table sample_paired_ap)"
    by (simp_all add: sample_paired_sta_def sample_paired_ap_def sample_sta_world_def sample_world_def
        s_insert_entry_invar insert_entry_invar mp_invar_init mtt_invar_init)
  show "world_ok sample_paired_sta"
    by (rule gen_frame_world_ok [OF f(1) sample_sta_world_ok(1) inv(1,2)])
  show "world_ok sample_paired_ap"
    by (rule gen_frame_world_ok [OF f(2) _ inv(3,4)]) (simp add: sample_world_ok)
qed

lemma sample_hdr_load: "hdr_load (skb_data sample_skb) = Inr sample_hdr"
  by (simp add: sample_skb_def hdr_load_append)

lemma sample_paired_instance:
  "which_instance True sample_paired_sta = rathan_INSTANCE_STA"
  "which_instance True sample_paired_ap = rathan_INSTANCE_AP"
  "RND_MAC sample_paired_sta" "RND_MAC sample_paired_ap"
  by (simp_all add: sample_paired_sta_def sample_paired_ap_def sample_sta_world_def sample_world_def
      put_sdata_def which_instance_def)

lemma sample_paired_period: "rx_new_period sha1 env (current_period 7) sample_paired_ap = Inr sample_paired_ap"
  by (simp add: rx_new_period_def get_ap_sdata_def sample_paired_ap_def sample_world_def current_period_def
      signed_divide_int_def)

lemma sample_paired_keyed:
  "keyed_sta sample_paired_sta 5 sample_base (replicate 16 0x5a)" "ccmp_reset sample_paired_sta"
proof -
  have "gen_frame sample_sta_world sample_paired_sta"
    by (simp add: gen_frame_def sample_paired_sta_def)
  then show "keyed_sta sample_paired_sta 5 sample_base (replicate 16 0x5a)"
    by (rule gen_frame_keyed_sta) (rule sample_sta_world_ok)
  show "ccmp_reset sample_paired_sta" by (simp add: sample_paired_sta_def sample_sta_world_ok)
qed

lemma sample_paired_stationE:
  obtains s sd where "stas sample_paired_sta 5 = Some s" "sdatas sample_paired_sta (sta_sdata s) = Some sd"
    "vif_addr sd = sample_base" "sta_state s = IEEE80211_STA_AUTHORIZED" "vif_type sd = NL80211_IFTYPE_STATION"
    "start_time_period s \<noteq> current_period 1700000000"
    "s_random_of_base (s_translation_table sample_paired_sta) (vif_addr sd) \<noteq> None"
proof -
  obtain s sd where "stas sample_paired_sta 5 = Some s" "sdatas sample_paired_sta (sta_sdata s) = Some sd"
    "vif_addr sd = sample_base" "sta_state s = IEEE80211_STA_AUTHORIZED" "vif_type sd = NL80211_IFTYPE_STATION"
    "start_time_period s = 0"
    by (simp add: sample_paired_sta_def sample_sta_world_def sample_world_def)
  moreover have "current_period 1700000000 \<noteq> 0"
    by (simp add: current_period_def signed_divide_int_def)
  ultimately show ?thesis
    by (intro that) (auto simp: mp.rnd_of_None_iff sample_pairs bases_def)
qed

lemma sample_macs [simp]:
  "sample_base \<noteq> sample_random" "sample_iface \<noteq> sample_random" "sample_iface \<noteq> sample_base"
  "sample_base \<noteq> sample_iface"
  by (simp_all add: sample_base_def sample_random_def sample_iface_def)

section \<open>Properties\<close>

text \<open>
  C5: Uplink round trip. Let the access point know the station's current pairs and let no two of its
  entries share a random address. A frame whose address fields are base addresses of the station or
  addresses that nobody uses as a random address, rewritten by the station on transmission, is
  restored to exactly the original header by the access point on reception (within the period of
  the access point's table).
\<close>

theorem uplink_round_trip:
  assumes ws: "world_ok ws" "RND_MAC ws"
    and wa: "RND_MAC wa" "which_instance True wa = rathan_INSTANCE_AP"
    "rx_new_period sha1 env (current_period now) wa = Inr wa"
    and known: "set (mp_pairs (s_translation_table ws)) \<subseteq> set (mtt_pairs (translation_table wa))"
    "distinct (randoms (mtt_pairs (translation_table wa)))"
    and skb: "hdr_load (skb_data skb) = Inr h"
    and addrs: "\<forall>a\<in>hdr_addrs h. a \<in> set (bases (mp_pairs (s_translation_table ws))) \<or>
      a \<notin> set (randoms (mtt_pairs (translation_table wa)))"
  shows "\<exists>skb' h'. mac_addr_change_hdr_tx ws [skb] (Some NL80211_IFTYPE_STATION) = Inr [skb'] \<and>
    hdr_load (skb_data skb') = Inr h' \<and>
    mac_addr_change_hdr_rx sha1 env now True h' wa = Inr (h, wa)"
proof -
  let ?h' = "subst_hdr (s_random_of_base (s_translation_table ws)) h"
  have "subst_hdr (base_of_random (translation_table wa)) ?h' = h"
    using ws(1) known addrs
    by (intro subst_hdr_inverse ballI uplink_addr) (auto simp: world_ok_def)
  then have "mac_addr_change_hdr_rx sha1 env now True ?h' wa = Inr (h, wa)"
    using wa by (simp add: mac_addr_change_hdr_rx_def)
  then show ?thesis
    using ws(2) skb
    by (simp add: mac_addr_change_hdr_tx_def rewrite_head_ok hdr_load_store)
qed

theorem uplink_round_trip_witness:
  "\<exists>skb' h'. mac_addr_change_hdr_tx sample_paired_sta [sample_skb] (Some NL80211_IFTYPE_STATION) = Inr [skb'] \<and>
    hdr_load (skb_data skb') = Inr h' \<and> addr2 h' = sample_random \<and>
    mac_addr_change_hdr_rx sample_sha1 sample_env 7 True h' sample_paired_ap = Inr (sample_hdr, sample_paired_ap)"
proof -
  have "\<forall>a\<in>hdr_addrs sample_hdr. a \<in> set (bases (mp_pairs (s_translation_table sample_paired_sta))) \<or>
      a \<notin> set (randoms (mtt_pairs (translation_table sample_paired_ap)))"
    by (auto simp: sample_pairs hdr_addrs_def sample_hdr_def bases_def randoms_def sample_random_def sample_iface_def)
  then obtain skb' h' where
    1: "mac_addr_change_hdr_tx sample_paired_sta [sample_skb] (Some NL80211_IFTYPE_STATION) = Inr [skb']"
    "hdr_load (skb_data skb') = Inr h'"
    "mac_addr_change_hdr_rx sample_sha1 sample_env 7 True h' sample_paired_ap = Inr (sample_hdr, sample_paired_ap)"
    using uplink_round_trip [OF sample_paired_ok(1) sample_paired_instance(3,4,2)
        sample_paired_period [of sample_sha1 sample_env] _ _
        sample_hdr_load] by (auto simp: sample_pairs randoms_def)
  have "s_random_of_base (s_translation_table sample_paired_sta) sample_base = Some sample_random"
    using sample_paired_ok(1) by (simp add: mp.rnd_of_iff sample_pairs world_ok_def)
  with 1(1,2) have "addr2 h' = sample_random"
    using sample_paired_instance(3)
    by (auto simp: mac_addr_change_hdr_tx_def rewrite_head_ok [OF sample_hdr_load] hdr_load_store
        sample_hdr_def)
  with 1 show ?thesis by blast
qed

text \<open>
  Downlink, field by field. Of a header the access point rewrites on transmission, the receiving
  station restores exactly its own address; an address field that holds the base address of another
  station of the access point arrives as that station's random address; an address unknown to the
  access point passes unless the station itself uses it as a random address.
\<close>

theorem downlink_fields:
  assumes "world_ok ws" and "world_ok wa" and "which_instance True ws = rathan_INSTANCE_STA" and "RND_MAC ws"
    and "set (mp_pairs (s_translation_table ws)) \<subseteq> set (mtt_pairs (translation_table wa))"
    and "distinct (randoms (mtt_pairs (translation_table wa)))"
  shows "\<exists>h'. mac_addr_change_hdr_rx sha1 env now True (subst_hdr (entry_random wa) h) ws = Inr (h', ws) \<and>
    (\<forall>f\<in>{addr1, addr2, addr3, addr4}.
       f h' = (case random_of_base (translation_table wa) (f h) of
         None \<Rightarrow> subst_addr (s_base_of_random (s_translation_table ws)) (f h)
       | Some r \<Rightarrow> if f h \<in> set (bases (mp_pairs (s_translation_table ws))) then f h else r))"
proof -
  have "mp_invar (s_translation_table ws)" "mtt_invar (translation_table wa)"
    using assms(1,2) by (simp_all add: world_ok_def)
  note d = downlink_addr [OF this assms(5,6)]
  show ?thesis
    using assms(3,4) by (simp add: mac_addr_change_hdr_rx_def d)
qed

theorem downlink_fields_witness:
  "\<exists>h'. mac_addr_change_hdr_rx sample_sha1 sample_env 7 True
     (subst_hdr (entry_random sample_paired_ap) sample_hdr) sample_paired_sta = Inr (h', sample_paired_sta) \<and>
     addr2 h' = sample_base"
proof -
  have r: "random_of_base (translation_table sample_paired_ap) sample_base = Some sample_random"
    using sample_paired_ok(2) by (simp add: mtt.rnd_of_iff sample_pairs world_ok_def)
  show ?thesis
    using downlink_fields [OF sample_paired_ok sample_paired_instance(1,3), of sample_sha1 sample_env 7 sample_hdr]
    by (auto simp: sample_pairs randoms_def bases_def sample_hdr_def r)
qed

text \<open>
  The transmit hook at the start of a new period. For an authorised station interface whose pair
  is already in the table, with a 16-byte key and memory available, the interface address maps to
  the address derived for the new period afterwards and the new period is recorded; a second call in
  the same period then changes nothing at all.
\<close>

theorem handle_random_mac_new_period:
  assumes "world_ok w" and "ccmp_reset w" and "env_ok env" and "sha1_digest_size sha1"
    and k: "keyed_sta w p a k" and s: "stas w p = Some s" and sd: "sdatas w (sta_sdata s) = Some sd"
    and "sta_state s = IEEE80211_STA_AUTHORIZED" and "vif_type sd = NL80211_IFTYPE_STATION"
    and "tx_sta tx = Some p" and "tx_local tx" and "tx_sdata tx \<noteq> None"
    and known: "s_random_of_base (s_translation_table w) (vif_addr sd) \<noteq> None"
    and tp: "start_time_period s \<noteq> current_period now"
  shows "\<exists>w'. handle_random_mac sha1 env now tx w = Inr w' \<and>
    s_random_of_base (s_translation_table w') = (s_random_of_base (s_translation_table w))
      (vif_addr sd \<mapsto> gen_mac sha1 k (vif_addr sd) (current_period now)) \<and>
    handle_random_mac sha1 env now tx w' = Inr w'"
proof -
  obtain w' where w': "handle_random_mac_sta sha1 env (current_period now) p s w = Inr w'"
      "s_random_of_base (s_translation_table w') = (s_random_of_base (s_translation_table w))
        (vif_addr sd \<mapsto> gen_mac sha1 k (vif_addr sd) (current_period now))"
      "stas w' p = Some (s\<lparr>start_time_period := current_period now\<rparr>)"
      "sdatas w' (sta_sdata s) = Some (sd\<lparr>sequence_number := 0\<rparr>)"
    using handle_random_mac_sta_new_period [OF assms(1-4) k s sd known tp] by blast
  have "handle_random_mac sha1 env now tx w = Inr w'"
    using w'(1) assms(8-12) s sd by (simp add: handle_random_mac_def Let_def)
  moreover have "s_search_by_base_mac (s_translation_table w') (vif_addr sd) \<noteq> None"
    using w'(2) by (simp add: s_search_by_base_mac_None_iff)
  then have "handle_random_mac_sta sha1 env (current_period now) p
      (s\<lparr>start_time_period := current_period now\<rparr>) w' = Inr w'"
    using w'(3,4) by (intro handle_random_mac_sta_settled [where sd = "sd\<lparr>sequence_number := 0\<rparr>"]) simp_all
  then have "handle_random_mac sha1 env now tx w' = Inr w'"
    using assms(8-12) w'(3,4) by (simp add: handle_random_mac_def Let_def)
  ultimately show ?thesis using w'(2) by blast
qed

theorem handle_random_mac_new_period_witness:
  "\<exists>w'. handle_random_mac sample_sha1 sample_env 1700000000 sample_tx sample_paired_sta = Inr w' \<and>
    s_random_of_base (s_translation_table w') sample_base =
      Some (gen_mac sample_sha1 (replicate 16 0x5a) sample_base (current_period 1700000000)) \<and>
    handle_random_mac sample_sha1 sample_env 1700000000 sample_tx w' = Inr w'"
proof (rule sample_paired_stationE)
  fix s sd
  assume s: "stas sample_paired_sta 5 = Some s" "sdatas sample_paired_sta (sta_sdata s) = Some sd"
      "vif_addr sd = sample_base" "sta_state s = IEEE80211_STA_AUTHORIZED" "vif_type sd = NL80211_IFTYPE_STATION"
      "start_time_period s \<noteq> current_period 1700000000"
      "s_random_of_base (s_translation_table sample_paired_sta) (vif_addr sd) \<noteq> None"
  show ?thesis
    using handle_random_mac_new_period [OF sample_paired_ok(1) sample_paired_keyed(2) sample_env_ok
        sample_sha1_size sample_paired_keyed(1) s(1,2,4,5) _ _ _ s(7,6), of sample_tx]
    by (auto simp: s(3) sample_tx_def)
qed

text \<open>
  Before a station is authorised, without a station, without a device or without an interface,
  the transmit hook leaves everything as it is.
\<close>

theorem handle_random_mac_inactive:
  assumes "tx_sta tx = None \<or> \<not> tx_local tx \<or> tx_sdata tx = None \<or>
    (\<exists>p s. tx_sta tx = Some p \<and> stas w p = Some s \<and> sta_state s < IEEE80211_STA_AUTHORIZED)"
    and "\<forall>p. tx_sta tx = Some p \<longrightarrow> stas w p \<noteq> None"
  shows "handle_random_mac sha1 env now tx w = Inr w"
  using assms by (auto simp: handle_random_mac_def Let_def less_ieee80211_sta_state_def split: option.splits)

theorem handle_random_mac_inactive_witness:
  "handle_random_mac sample_sha1 sample_env 1700000000 (sample_tx\<lparr>tx_sta := None\<rparr>) sample_paired_sta =
     Inr sample_paired_sta"
  by (rule handle_random_mac_inactive) simp_all

text \<open>
  The transmit rewrite touches the four address fields of the 30-byte structure and nothing else:
  the length of the buffer, the frame control, duration and sequence fields and every byte from 30
  on are kept. The \<open>addr4\<close> field is rewritten even when the frame has only three addresses: bytes 24
  to 29, the start of the body, are replaced when they happen to equal a base address of the table.
\<close>

theorem tx_rewrite_frame:
  assumes "RND_MAC w" and "hdr_load (skb_data skb) = Inr h"
  shows "\<exists>skb' h'. mac_addr_change_hdr_tx w (skb # rest) (Some NL80211_IFTYPE_AP) = Inr (skb' # rest) \<and>
    drop 30 (skb_data skb') = drop 30 (skb_data skb) \<and> hdr_load (skb_data skb') = Inr h' \<and>
    frame_control h' = frame_control h \<and> duration_id h' = duration_id h \<and> seq_ctrl h' = seq_ctrl h \<and>
    (\<forall>r. random_of_base (translation_table w) (addr4 h) = Some r \<longrightarrow> addr4 h' = r)"
  using assms
  by (simp add: mac_addr_change_hdr_tx_def rewrite_head_ok hdr_load_store)
    (simp add: hdr_store_def)

theorem tx_rewrite_frame_witness:
  "\<exists>skb'. mac_addr_change_hdr_tx sample_paired_ap [sample_skb] (Some NL80211_IFTYPE_AP) = Inr [skb'] \<and>
    drop 30 (skb_data skb') = drop 30 (skb_data sample_skb)"
  using tx_rewrite_frame [OF sample_paired_instance(4) sample_hdr_load, of "[]"] by blast

text \<open>
  A frame injected on a monitor interface that has no virtual interface to go out on reaches the
  rewrite with a null \<open>vif\<close>, which is dereferenced.
\<close>

theorem tx_rewrite_null_vif:
  assumes "RND_MAC w"
  shows "mac_addr_change_hdr_tx w skbs None = Inl NullDeref"
  using assms by (simp add: mac_addr_change_hdr_tx_def split: list.split)

theorem tx_rewrite_null_vif_witness:
  "mac_addr_change_hdr_tx sample_paired_ap [sample_skb] None = Inl NullDeref"
  by (rule tx_rewrite_null_vif) (rule sample_paired_instance(4))

text \<open>
  The announcement packet is 130 bytes: a management frame of subtype 15 to the broadcast address
  from the interface, with 100 bytes of 0xab. Its duration, sequence control and fourth address
  fields are whatever the allocated memory held.
\<close>

theorem construct_custom_packet_frame:
  assumes "length mem = 130"
  shows "\<exists>bs h. construct_custom_packet (Some mem) a = Inr (Some bs) \<and> length bs = 130 \<and>
    hdr_load bs = Inr h \<and> ieee80211_is_mgmt (frame_control h) \<and>
    frame_control h AND IEEE80211_FCTL_STYPE = 0x00F0 \<and>
    is_multicast_ether_addr (addr1 h) \<and> addr2 h = a \<and> addr3 h = a \<and>
    drop 30 bs = replicate 100 0xab \<and> mac_bytes (addr4 h) = take 6 (drop 24 mem)"
proof -
  let ?m = "take 30 mem @ replicate 100 0xab"
  have w: "buf_write mem 30 (replicate 100 0xab) = Inr ?m"
    using assms by (simp add: buf_write_def)
  obtain h where h: "hdr_load ?m = Inr h" "hdr_store h ?m = ?m"
    using hdr_load_ok [of ?m] assms by auto
  let ?h = "h\<lparr>frame_control := 0xF0, addr1 := Mac 0xFF 0xFF 0xFF 0xFF 0xFF 0xFF, addr2 := a, addr3 := a\<rparr>"
  have c: "construct_custom_packet (Some mem) a = Inr (Some (hdr_store ?h ?m))"
    using h(1) by (simp add: construct_custom_packet_def w)
  have "hdr_bytes h = take 30 mem"
    using h(2) assms by (simp add: hdr_store_def)
  then have "drop 24 (hdr_bytes h) = drop 24 (take 30 mem)" by simp
  then have "mac_bytes (addr4 h) = take 6 (drop 24 mem)"
    by (simp add: hdr_bytes_def drop_take)
  moreover have "drop 30 (hdr_store ?h ?m) = replicate 100 0xab" "length (hdr_store ?h ?m) = 130"
    using assms by (simp_all add: hdr_store_def)
  ultimately show ?thesis
    using c by (auto simp: hdr_load_store ieee80211_is_mgmt_def)
qed

theorem construct_custom_packet_frame_witness:
  "\<exists>bs. construct_custom_packet (Some (replicate 130 0x77)) sample_iface = Inr (Some bs) \<and> length bs = 130"
  using construct_custom_packet_frame [of "replicate 130 0x77" sample_iface] by auto


text \<open>
  C31: A joining station steals the period. When the first transmission of a new period goes to a
  station the access point has no entry for yet, the period is recorded as begun although no address
  is generated: all other translations stay those of the old period, and a transmission to any other
  known station on that interface in the same period does nothing.
\<close>

theorem joining_station_skips_period:
  assumes "mtt_invar (translation_table w)"
    and tx: "tx_sta tx = Some p" "tx_local tx" "tx_sdata tx \<noteq> None"
    and p: "stas w p = Some s" "sta_state s = IEEE80211_STA_AUTHORIZED"
      "random_of_base (translation_table w) (sta_addr s) = None"
    and sd: "sdatas w (sta_sdata s) = Some sd" "vif_type sd = NL80211_IFTYPE_AP"
    and alloc: "entry_alloc env p"
    and tx2: "tx_sta tx2 = Some q" "tx_local tx2" "tx_sdata tx2 \<noteq> None"
    and q: "stas w q = Some t" "sta_state t = IEEE80211_STA_AUTHORIZED" "sta_sdata t = sta_sdata s"
      "random_of_base (translation_table w) (sta_addr t) \<noteq> None"
  shows "\<exists>w'. handle_random_mac sha1 env now tx w = Inr w' \<and>
    random_of_base (translation_table w') = (random_of_base (translation_table w))(sta_addr s \<mapsto> sta_addr s) \<and>
    map_option sdata_start_time_period (sdatas w' (sta_sdata s)) = Some (current_period now) \<and>
    handle_random_mac sha1 env now tx2 w' = Inr w'"
proof -
  let ?sd = "sd\<lparr>sdata_start_time_period := current_period now\<rparr>"
  define w' where "w' = put_sdata (sta_sdata s) ?sd
    (w\<lparr>translation_table := insert_entry True (sta_addr s) (sta_addr s) (translation_table w)\<rparr>)"
  have none: "search_by_base_mac (translation_table w) (sta_addr s) = None"
    using p(3) by (simp add: search_by_base_mac_None_iff)
  have 1: "handle_random_mac sha1 env now tx w = Inr w'"
    using tx p sd alloc none
    by (auto simp: handle_random_mac_def handle_random_mac_ap_def Let_def w'_def)
  have tbl: "random_of_base (translation_table w') = (random_of_base (translation_table w))(sta_addr s \<mapsto> sta_addr s)"
    using assms(1) p(3) by (simp add: w'_def insert_entry_random_of_base)
  then have "search_by_base_mac (translation_table w') (sta_addr t) \<noteq> None"
    using q(4) by (simp add: search_by_base_mac_None_iff)
  then have "handle_random_mac_ap sha1 env (current_period now) q t w' = Inr w'"
    using q(3) by (intro handle_random_mac_ap_settled [where sd = ?sd]) (simp_all add: w'_def)
  then have "handle_random_mac sha1 env now tx2 w' = Inr w'"
    using tx2 q sd by (simp add: handle_random_mac_def w'_def Let_def)
  with 1 tbl show ?thesis by (auto simp: w'_def)
qed

definition sample_joining_ap :: world where
  "sample_joining_ap =
     (case stas sample_paired_ap 5 of
        None \<Rightarrow> sample_paired_ap
      | Some s \<Rightarrow> put_sta 6 (s\<lparr>sta_addr := sample_iface\<rparr>) sample_paired_ap)"

theorem joining_station_skips_period_witness:
  "\<exists>w'. handle_random_mac sample_sha1 sample_env 1700000000 (sample_tx\<lparr>tx_sta := Some 6\<rparr>) sample_joining_ap = Inr w' \<and>
    random_of_base (translation_table w') sample_base = Some sample_random \<and>
    handle_random_mac sample_sha1 sample_env 1700000000 sample_tx w' = Inr w'"
proof -
  obtain t where t: "stas sample_joining_ap 5 = Some t" "sta_state t = IEEE80211_STA_AUTHORIZED" "sta_sdata t = 2"
      "sta_addr t = sample_base" "stas sample_joining_ap 6 = Some (t\<lparr>sta_addr := sample_iface\<rparr>)"
    by (simp add: sample_joining_ap_def sample_paired_ap_def sample_world_def)
  have j: "translation_table sample_joining_ap = translation_table sample_paired_ap"
    "sdatas sample_joining_ap = sdatas sample_paired_ap"
    by (simp_all add: sample_joining_ap_def split: option.split)
  obtain sd where sd: "sdatas sample_paired_ap 2 = Some sd" "vif_type sd = NL80211_IFTYPE_AP"
    by (simp add: sample_paired_ap_def sample_world_def)
  have r: "random_of_base (translation_table sample_paired_ap) sample_base = Some sample_random"
    "random_of_base (translation_table sample_paired_ap) sample_iface = None"
    by (simp_all add: sample_paired_ap_def insert_entry_random_of_base mtt_invar_init sample_world_def)
  have inv: "mtt_invar (translation_table sample_joining_ap)"
    using sample_paired_ok(2) by (simp add: j world_ok_def)
  show ?thesis
    using joining_station_skips_period [OF inv, of "sample_tx\<lparr>tx_sta := Some 6\<rparr>" 6 "t\<lparr>sta_addr := sample_iface\<rparr>"
        sd sample_env sample_tx 5 t sample_sha1 1700000000] t sd r
    by (auto simp: j sample_tx_def sample_env_def)
qed

text \<open>
  C8: The access point's first transmission of a new period to a station it knows re-randomises
  \<^emph>\<open>all\<close> of its stations, and a second transmission in the same period changes nothing more.
\<close>

theorem ap_new_period_rerandomises_all:
  assumes w: "world_ok w" "ccmp_reset w" "env_ok env" "sha1_digest_size sha1"
      "\<forall>q\<in>set (sta_list w). keyed_sta w q (sta_base w q) (sta_key w q)" "distinct (map (sta_base w) (sta_list w))"
    and tx: "tx_sta tx = Some p" "tx_local tx" "tx_sdata tx \<noteq> None"
    and p: "stas w p = Some s" "sta_state s = IEEE80211_STA_AUTHORIZED"
      "random_of_base (translation_table w) (sta_addr s) \<noteq> None"
    and sd: "sdatas w (sta_sdata s) = Some sd" "vif_type sd = NL80211_IFTYPE_AP"
      "sdata_start_time_period sd \<noteq> current_period now"
  shows "\<exists>w'. handle_random_mac sha1 env now tx w = Inr w' \<and>
    (\<forall>q\<in>set (sta_list w). random_of_base (translation_table w') (sta_base w q) =
       Some (gen_mac sha1 (sta_key w q) (sta_base w q) (current_period now))) \<and>
    handle_random_mac sha1 env now tx w' = Inr w'"
proof -
  let ?pairs = "map (\<lambda>q. (sta_base w q, gen_mac sha1 (sta_key w q) (sta_base w q) (current_period now))) (sta_list w)"
  obtain w' n where w': "handle_random_mac_ap sha1 env (current_period now) p s w = Inr w'"
      "random_of_base (translation_table w') = random_of_base (translation_table w) ++ map_of (rev ?pairs)"
      "stas w' = stas w"
      "sdatas w' (sta_sdata s) = Some (sd\<lparr>sequence_number := n, sdata_start_time_period := current_period now\<rparr>)"
    using handle_random_mac_ap_new_period [OF w(1-5) sd(1) p(3) sd(3)] by blast
  have 1: "handle_random_mac sha1 env now tx w = Inr w'"
    using w'(1) tx p sd by (simp add: handle_random_mac_def Let_def)
  have "map_of (rev ?pairs) (sta_base w q) = Some (gen_mac sha1 (sta_key w q) (sta_base w q) (current_period now))"
    if "q \<in> set (sta_list w)" for q
    using that w(6) by (intro map_of_is_SomeI) (auto simp: rev_map [symmetric] comp_def)
  moreover have "search_by_base_mac (translation_table w') (sta_addr s) \<noteq> None"
    using p(3) w'(2) by (auto simp: search_by_base_mac_None_iff map_add_def split: option.split)
  then have "handle_random_mac_ap sha1 env (current_period now) p s w' = Inr w'"
    using w'(4) by (intro handle_random_mac_ap_settled [OF _ w'(4)]) simp_all
  then have "handle_random_mac sha1 env now tx w' = Inr w'"
    using tx p sd w'(3,4) by (simp add: handle_random_mac_def Let_def)
  ultimately show ?thesis using 1 w'(2) by (intro exI [of _ w']) (simp add: map_add_find_right)
qed

theorem ap_new_period_rerandomises_all_witness:
  "\<exists>w'. handle_random_mac sample_sha1 sample_env 1700000000 sample_tx sample_paired_ap = Inr w' \<and>
    random_of_base (translation_table w') sample_base =
      Some (gen_mac sample_sha1 (replicate 16 0x5a) sample_base (current_period 1700000000))"
proof -
  have f: "gen_frame (sample_world NL80211_IFTYPE_AP (Some 3) 16) sample_paired_ap"
    by (simp add: gen_frame_def sample_paired_ap_def)
  have l: "sta_list sample_paired_ap = [5]" "sta_base sample_paired_ap 5 = sample_base"
    "sta_key sample_paired_ap 5 = replicate 16 0x5a" "ccmp_reset sample_paired_ap"
    by (simp_all add: sample_paired_ap_def sample_world_def sta_base_def sta_key_def sample_key_def)
  have k: "keyed_sta sample_paired_ap 5 sample_base (replicate 16 0x5a)"
    by (rule gen_frame_keyed_sta [OF f sample_world_keyed])
  obtain s where s: "stas sample_paired_ap 5 = Some s" "sta_state s = IEEE80211_STA_AUTHORIZED" "sta_sdata s = 2"
      "sta_addr s = sample_base"
    by (simp add: sample_paired_ap_def sample_world_def)
  obtain sd where sd: "sdatas sample_paired_ap (sta_sdata s) = Some sd" "vif_type sd = NL80211_IFTYPE_AP"
      "sdata_start_time_period sd = 0"
    using s(3) by (simp add: sample_paired_ap_def sample_world_def)
  have tp: "sdata_start_time_period sd \<noteq> current_period 1700000000"
    unfolding sd(3) by (simp add: current_period_def signed_divide_int_def)
  have r: "random_of_base (translation_table sample_paired_ap) (sta_addr s) \<noteq> None"
    by (simp add: s(4) sample_paired_ap_def insert_entry_random_of_base mtt_invar_init sample_world_def)
  show ?thesis
    using ap_new_period_rerandomises_all [OF sample_paired_ok(2) l(4) sample_env_ok sample_sha1_size _ _ _ _ _ s(1,2) r sd(1,2) tp,
        of sample_tx] k by (auto simp: l sample_tx_def)
qed

end
