(* ===== verification/Tx.thy ===== *)
theory Tx
  imports Mac_Randomizer
begin

text \<open>
  The transmit handlers of \<^verbatim>\<open>net/mac80211/tx.c\<close> between which the randomisation is hooked: the
  control-port check, key selection, sequence numbers, fragmentation and statistics, and the hand-over
  of the fragments to the driver, where the addresses are rewritten. A handler takes the state and the
  transmit data and returns a verdict with both updated.
\<close>

section \<open>Flags and verdicts\<close>

datatype ieee80211_tx_result = TX_CONTINUE | TX_DROP | TX_QUEUED

abbreviation (input) IEEE80211_TX_CTL_ASSIGN_SEQ :: u32 where "IEEE80211_TX_CTL_ASSIGN_SEQ \<equiv> 0x00000002"
abbreviation (input) IEEE80211_TX_CTL_CLEAR_PS_FILT :: u32 where "IEEE80211_TX_CTL_CLEAR_PS_FILT \<equiv> 0x00000008"
abbreviation (input) IEEE80211_TX_CTL_FIRST_FRAGMENT :: u32 where "IEEE80211_TX_CTL_FIRST_FRAGMENT \<equiv> 0x00000010"
abbreviation (input) IEEE80211_TX_CTL_AMPDU :: u32 where "IEEE80211_TX_CTL_AMPDU \<equiv> 0x00000040"
abbreviation (input) IEEE80211_TX_CTL_RATE_CTRL_PROBE :: u32 where "IEEE80211_TX_CTL_RATE_CTRL_PROBE \<equiv> 0x00001000"
abbreviation (input) IEEE80211_TX_INTFL_OFFCHAN_TX_OK :: u32 where "IEEE80211_TX_INTFL_OFFCHAN_TX_OK \<equiv> 0x00002000"
abbreviation (input) IEEE80211_TX_INTFL_DONT_ENCRYPT :: u32 where "IEEE80211_TX_INTFL_DONT_ENCRYPT \<equiv> 0x00010000"
abbreviation (input) IEEE80211_TX_CTL_MORE_FRAMES :: u32 where "IEEE80211_TX_CTL_MORE_FRAMES \<equiv> 0x00040000"
abbreviation (input) IEEE80211_TX_CTL_USE_MINRATE :: u32 where "IEEE80211_TX_CTL_USE_MINRATE \<equiv> 0x20000000"
abbreviation (input) IEEE80211_TX_CTL_DONTFRAG :: u32 where "IEEE80211_TX_CTL_DONTFRAG \<equiv> 0x40000000"
abbreviation (input) IEEE80211_TX_CTRL_PORT_CTRL_PROTO :: u32 where "IEEE80211_TX_CTRL_PORT_CTRL_PROTO \<equiv> 1"
abbreviation (input) IEEE80211_TX_NO_SEQNO :: u32 where "IEEE80211_TX_NO_SEQNO \<equiv> 1"
abbreviation (input) KEY_FLAG_UPLOADED_TO_HARDWARE :: u32 where "KEY_FLAG_UPLOADED_TO_HARDWARE \<equiv> 1"
abbreviation (input) KEY_FLAG_TAINTED :: u32 where "KEY_FLAG_TAINTED \<equiv> 2"
abbreviation (input) IEEE80211_KEY_FLAG_SW_MGMT_TX :: u16 where "IEEE80211_KEY_FLAG_SW_MGMT_TX \<equiv> 0x0010"
abbreviation (input) IEEE80211_SCTL_FRAG :: u16 where "IEEE80211_SCTL_FRAG \<equiv> 0x000F"
abbreviation (input) IEEE80211_SCTL_SEQ :: u16 where "IEEE80211_SCTL_SEQ \<equiv> 0xFFF0"
abbreviation (input) IEEE80211_FCTL_MOREFRAGS :: u16 where "IEEE80211_FCTL_MOREFRAGS \<equiv> 0x0400"
abbreviation (input) IEEE80211_NUM_TIDS :: nat where "IEEE80211_NUM_TIDS \<equiv> 16"
abbreviation (input) FCS_LEN :: nat where "FCS_LEN \<equiv> 4"

text \<open>The cipher suite selectors, \<^verbatim>\<open>SUITE(0x000FAC, n)\<close>.\<close>

abbreviation (input) SUITE :: "u32 \<Rightarrow> u32" where "SUITE n \<equiv> 0x000FAC00 OR n"

definition wep_tkip_cipher :: "u32 \<Rightarrow> bool" where
  "wep_tkip_cipher c \<longleftrightarrow> c = SUITE 1 \<or> c = SUITE 5 \<or> c = SUITE 2"

definition ccmp_gcmp_cipher :: "u32 \<Rightarrow> bool" where
  "ccmp_gcmp_cipher c \<longleftrightarrow> c = SUITE 4 \<or> c = SUITE 10 \<or> c = SUITE 8 \<or> c = SUITE 9"

definition bip_cipher :: "u32 \<Rightarrow> bool" where
  "bip_cipher c \<longleftrightarrow> c = SUITE 6 \<or> c = SUITE 13 \<or> c = SUITE 11 \<or> c = SUITE 12"

text \<open>\<open>tx->skb\<close> and \<open>tx->sdata\<close> as the handlers dereference them.\<close>

definition tx_skb_of :: "ieee80211_tx_data \<Rightarrow> sk_buff result" where
  "tx_skb_of tx = (case tx_skb tx of None \<Rightarrow> Inl NullDeref | Some skb \<Rightarrow> Inr skb)"

definition tx_sdata_of :: "world \<Rightarrow> ieee80211_tx_data \<Rightarrow> ieee80211_sub_if_data result" where
  "tx_sdata_of w tx = (case tx_sdata tx of None \<Rightarrow> Inl NullDeref | Some sp \<Rightarrow> deref (sdatas w) sp)"

definition tx_sta_of :: "world \<Rightarrow> ieee80211_tx_data \<Rightarrow> sta_info option result" where
  "tx_sta_of w tx =
     (case tx_sta tx of None \<Rightarrow> Inr None | Some p \<Rightarrow> rbind (deref (stas w) p) (\<lambda>s. Inr (Some s)))"

section \<open>Early handlers\<close>

definition ieee80211_use_mfp :: "u16 \<Rightarrow> sta_info option \<Rightarrow> sk_buff \<Rightarrow> bool result" where
  "ieee80211_use_mfp fc sta skb =
     (if \<not> ieee80211_is_mgmt fc then Inr False
      else case sta of
        None \<Rightarrow> Inr False
      | Some s \<Rightarrow>
          if \<not> sta_mfp s then Inr False
          else ieee80211_is_robust_mgmt_frame (skb_len skb) (skb_data skb))"

definition ieee80211_tx_h_check_control_port_protocol ::
  "world \<Rightarrow> ieee80211_tx_data \<Rightarrow> (ieee80211_tx_result \<times> ieee80211_tx_data) result" where
  "ieee80211_tx_h_check_control_port_protocol w tx =
     rbind (tx_skb_of tx) (\<lambda>skb.
     rbind (tx_sdata_of w tx) (\<lambda>sdata.
     let skb' =
       (if control_port_protocol sdata = skb_protocol skb then
          (let skb = (if control_port_no_encrypt sdata
                      then skb\<lparr>info_flags := info_flags skb OR IEEE80211_TX_INTFL_DONT_ENCRYPT\<rparr>
                      else skb);
               skb = skb\<lparr>info_control_flags := info_control_flags skb OR IEEE80211_TX_CTRL_PORT_CTRL_PROTO\<rparr>
           in skb\<lparr>info_flags := info_flags skb OR IEEE80211_TX_CTL_USE_MINRATE\<rparr>)
        else skb)
     in Inr (TX_CONTINUE, tx\<lparr>tx_skb := Some skb'\<rparr>)))"

text \<open>
  \<open>ieee80211_tx_h_select_key\<close>: the key the frame is a candidate for (the chain of conditions that
  assigns \<open>tx->key\<close>), then the restriction by the key's cipher.
\<close>

definition select_key_candidate ::
  "sta_info option \<Rightarrow> ieee80211_sub_if_data \<Rightarrow> sk_buff \<Rightarrow> u16 \<Rightarrow> mac \<Rightarrow> key_ptr option result" where
  "select_key_candidate sta sdata skb fc a1 =
     rbind (case sta of None \<Rightarrow> Inr None | Some s \<Rightarrow> sta_ptk s) (\<lambda>k.
     if k \<noteq> None then Inr k
     else
       rbind (ieee80211_is_group_privacy_action (skb_len skb) (skb_data skb)) (\<lambda>gpa.
       if gpa \<and> default_multicast_key sdata \<noteq> None then Inr (default_multicast_key sdata)
       else
         rbind (if ieee80211_is_mgmt fc \<and> is_multicast_ether_addr a1
                then ieee80211_is_robust_mgmt_frame (skb_len skb) (skb_data skb) else Inr False) (\<lambda>robust.
         if robust \<and> default_mgmt_key sdata \<noteq> None then Inr (default_mgmt_key sdata)
         else if is_multicast_ether_addr a1 \<and> default_multicast_key sdata \<noteq> None
         then Inr (default_multicast_key sdata)
         else if \<not> is_multicast_ether_addr a1 \<and> default_unicast_key sdata \<noteq> None
         then Inr (default_unicast_key sdata)
         else Inr None)))"

text \<open>The \<open>switch\<close> on the cipher: whether the frame keeps the key, and \<open>skip_hw\<close>.\<close>

definition select_key_cipher ::
  "ieee80211_key \<Rightarrow> sta_info option \<Rightarrow> sk_buff \<Rightarrow> u16 \<Rightarrow> (bool \<times> bool) result" where
  "select_key_cipher key sta skb fc =
     (if wep_tkip_cipher (conf_cipher key) then Inr (ieee80211_is_data_present fc, False)
      else if ccmp_gcmp_cipher (conf_cipher key) then
        rbind (if ieee80211_is_data_present fc then Inr True
               else rbind (ieee80211_use_mfp fc sta skb) (\<lambda>mfp.
                 if mfp then Inr True
                 else ieee80211_is_group_privacy_action (skb_len skb) (skb_data skb))) (\<lambda>keep.
        Inr (if keep
             then (True, conf_flags key AND IEEE80211_KEY_FLAG_SW_MGMT_TX \<noteq> 0 \<and> ieee80211_is_mgmt fc)
             else (False, False)))
      else if bip_cipher (conf_cipher key) then Inr (ieee80211_is_mgmt fc, False)
      else Inr (True, False))"

definition ieee80211_tx_h_select_key ::
  "world \<Rightarrow> ieee80211_tx_data \<Rightarrow> (ieee80211_tx_result \<times> ieee80211_tx_data) result" where
  "ieee80211_tx_h_select_key w tx =
     rbind (tx_skb_of tx) (\<lambda>skb.
     if info_flags skb AND IEEE80211_TX_INTFL_DONT_ENCRYPT \<noteq> 0
     then Inr (TX_CONTINUE, tx\<lparr>tx_key := None\<rparr>)
     else
       rbind (tx_sdata_of w tx) (\<lambda>sdata.
       rbind (tx_sta_of w tx) (\<lambda>sta.
       rbind (hdr_fc (skb_data skb)) (\<lambda>fc.
       rbind (hdr_addr1 (skb_data skb)) (\<lambda>a1.
       rbind (select_key_candidate sta sdata skb fc a1) (\<lambda>k.
       case k of
         Some kp \<Rightarrow>
           rbind (deref (keys w) kp) (\<lambda>key.
           rbind (select_key_cipher key sta skb fc) (\<lambda>(keep, skip_hw).
           if keep \<and> key_flags key AND KEY_FLAG_TAINTED \<noteq> 0 \<and> \<not> ieee80211_is_deauth fc
           then Inr (TX_DROP, tx\<lparr>tx_key := Some kp\<rparr>)
           else
             let skb' = (if \<not> skip_hw \<and> keep \<and> key_flags key AND KEY_FLAG_UPLOADED_TO_HARDWARE \<noteq> 0
                         then skb\<lparr>info_hw_key := Some kp\<rparr> else skb)
             in Inr (TX_CONTINUE, tx\<lparr>tx_key := (if keep then Some kp else None), tx_skb := Some skb'\<rparr>)))
       | None \<Rightarrow>
           if \<not> ieee80211_is_mgmt fc \<and> (case sta of None \<Rightarrow> False | Some s \<Rightarrow> sta_uses_encryption s)
           then Inr (TX_DROP, tx\<lparr>tx_key := None\<rparr>)
           else Inr (TX_CONTINUE, tx\<lparr>tx_key := None\<rparr>)))))))"

section \<open>Sequence numbers\<close>

text \<open>
  \<open>ieee80211_tx_next_seq\<close> returns the counter of the TID and advances it by one sequence number,
  which is 16 because the low four bits of the sequence control field hold the fragment number.
\<close>

definition ieee80211_tx_next_seq :: "nat \<Rightarrow> sta_info \<Rightarrow> (u16 \<times> sta_info) result" where
  "ieee80211_tx_next_seq tid sta =
     rbind (arr_get (tid_seq sta) tid) (\<lambda>seq.
     Inr (seq, sta\<lparr>tid_seq := (tid_seq sta)[tid := (seq + 0x10) AND IEEE80211_SCTL_SEQ]\<rparr>))"

definition count_msdu :: "nat \<Rightarrow> sta_info \<Rightarrow> sta_info result" where
  "count_msdu i sta =
     rbind (arr_get (tx_msdu sta) i) (\<lambda>n. Inr (sta\<lparr>tx_msdu := (tx_msdu sta)[i := n + 1]\<rparr>))"

text \<open>The branch that takes the number from the interface's counter.\<close>

definition tx_global_seq ::
  "sk_buff \<Rightarrow> ieee80211_tx_data \<Rightarrow> world \<Rightarrow> (ieee80211_tx_result \<times> ieee80211_tx_data \<times> world) result" where
  "tx_global_seq skb tx w =
     (case tx_sdata tx of
        None \<Rightarrow> Inl NullDeref
      | Some sp \<Rightarrow>
          rbind (deref (sdatas w) sp) (\<lambda>sdata.
          rbind (set_hdr_seq_ctrl (sequence_number sdata) (skb_data skb)) (\<lambda>bs.
          let skb' = skb\<lparr>info_flags := info_flags skb OR IEEE80211_TX_CTL_ASSIGN_SEQ, skb_data := bs\<rparr>;
              w = put_sdata sp (sdata\<lparr>sequence_number := sequence_number sdata + 0x10\<rparr>) w;
              tx = tx\<lparr>tx_skb := Some skb'\<rparr>
          in case tx_sta tx of
               None \<Rightarrow> Inr (TX_CONTINUE, tx, w)
             | Some p \<Rightarrow>
                 rbind (deref (stas w) p) (\<lambda>sta.
                 rbind (count_msdu IEEE80211_NUM_TIDS sta) (\<lambda>sta.
                 Inr (TX_CONTINUE, tx, put_sta p sta w))))))"

text \<open>The branch that takes it from the station's counter of the frame's TID.\<close>

definition tx_tid_seq ::
  "sk_buff \<Rightarrow> ieee80211_tx_data \<Rightarrow> world \<Rightarrow> (ieee80211_tx_result \<times> ieee80211_tx_data \<times> world) result" where
  "tx_tid_seq skb tx w =
     (case tx_sta tx of
        None \<Rightarrow> Inr (TX_CONTINUE, tx, w)
      | Some p \<Rightarrow>
          rbind (ieee80211_get_tid (skb_data skb)) (\<lambda>tid.
          rbind (deref (stas w) p) (\<lambda>sta.
          rbind (count_msdu (unat tid) sta) (\<lambda>sta.
          rbind (ieee80211_tx_next_seq (unat tid) sta) (\<lambda>(seq, sta).
          rbind (set_hdr_seq_ctrl seq (skb_data skb)) (\<lambda>bs.
          Inr (TX_CONTINUE, tx\<lparr>tx_skb := Some (skb\<lparr>skb_data := bs\<rparr>)\<rparr>, put_sta p sta w)))))))"

definition ieee80211_tx_h_sequence ::
  "ieee80211_tx_data \<Rightarrow> world \<Rightarrow> (ieee80211_tx_result \<times> ieee80211_tx_data \<times> world) result" where
  "ieee80211_tx_h_sequence tx w =
     rbind (tx_skb_of tx) (\<lambda>skb.
     rbind (case info_vif skb of None \<Rightarrow> Inl NullDeref | Some sp \<Rightarrow> deref (sdatas w) sp) (\<lambda>vif.
     if vif_type vif = NL80211_IFTYPE_MONITOR then Inr (TX_CONTINUE, tx, w)
     else
       rbind (hdr_fc (skb_data skb)) (\<lambda>fc.
       if ieee80211_is_ctl fc then Inr (TX_CONTINUE, tx, w)
       else if ieee80211_hdrlen fc < 24 then Inr (TX_CONTINUE, tx, w)
       else if ieee80211_is_qos_nullfunc fc then Inr (TX_CONTINUE, tx, w)
       else
         rbind (if \<not> ieee80211_is_data_qos fc then Inr True
                else rbind (hdr_addr1 (skb_data skb)) (\<lambda>a1. Inr (is_multicast_ether_addr a1))) (\<lambda>global.
         if global then
           (if tx_flags tx AND IEEE80211_TX_NO_SEQNO \<noteq> 0 then Inr (TX_CONTINUE, tx, w)
            else tx_global_seq skb tx w)
         else tx_tid_seq skb tx w))))"

section \<open>Fragmentation\<close>

text \<open>
  The loop of \<open>ieee80211_fragment\<close>. \<open>allocs\<close> lists the buffers that \<open>dev_alloc_skb\<close> still returns,
  each cut where \<open>skb_reserve\<close> leaves \<open>data\<close>; when it is empty the next allocation fails. The
  result is the return value with the fragments queued so far. A \<open>skb_put_data\<close> beyond the end of
  the new buffer (which a negative length is) stops the kernel.
\<close>

fun frag_loop ::
  "(u8 list \<times> u8 list) list \<Rightarrow> sk_buff \<Rightarrow> nat \<Rightarrow> int \<Rightarrow> int \<Rightarrow> int \<Rightarrow> sk_buff list \<Rightarrow> (int \<times> sk_buff list) result" where
  "frag_loop allocs skb hdrlen per_fragm pos rem skbs =
     (if rem = 0 then Inr (0, skbs)
      else case allocs of
        [] \<Rightarrow> Inr (- 12, skbs)
      | (head, mem) # allocs \<Rightarrow>
          let fraglen = (if per_fragm > rem then rem else per_fragm);
              rem = rem - fraglen
          in if fraglen < 0 \<or> pos < 0 \<or> pos + fraglen > int (length (skb_data skb)) \<or>
                hdrlen > length (skb_data skb) then Inl OutOfBounds
             else
               rbind (buf_write mem 0 (take hdrlen (skb_data skb))) (\<lambda>mem.
               rbind (buf_write mem hdrlen (take (nat fraglen) (drop (nat pos) (skb_data skb)))) (\<lambda>mem.
               let fl = info_flags skb AND
                     NOT (IEEE80211_TX_CTL_CLEAR_PS_FILT OR IEEE80211_TX_CTL_FIRST_FRAGMENT);
                   fl = (if rem \<noteq> 0 then fl OR IEEE80211_TX_CTL_MORE_FRAMES else fl);
                   tmp = skb\<lparr>skb_head := head, skb_data := mem, skb_len := hdrlen + nat fraglen, skb_protocol := 0,
                            info_flags := fl\<rparr>
               in frag_loop allocs skb hdrlen per_fragm (pos + fraglen) rem (skbs @ [tmp]))))"

declare frag_loop.simps [simp del]

text \<open>
  \<open>skb\<close> is the last element of the queue \<open>before @ [skb]\<close> when the function is called; it is trimmed
  to the first fragment at the end.
\<close>

definition ieee80211_fragment ::
  "(u8 list \<times> u8 list) list \<Rightarrow> sk_buff list \<Rightarrow> sk_buff \<Rightarrow> nat \<Rightarrow> int \<Rightarrow> (int \<times> sk_buff list) result" where
  "ieee80211_fragment allocs before skb hdrlen frag_threshold =
     (let per_fragm = frag_threshold - int hdrlen - int FCS_LEN;
          pos = int hdrlen + per_fragm;
          rem = int (skb_len skb) - int hdrlen - per_fragm
      in if rem < 0 then Inr (- 22, before @ [skb])
         else
           rbind (frag_loop allocs skb hdrlen per_fragm pos rem []) (\<lambda>(ret, frags).
           if ret \<noteq> 0 then Inr (ret, before @ [skb] @ frags)
           else
             let len = nat (int hdrlen + per_fragm)
             in Inr (0, before @ [skb\<lparr>skb_len := (if skb_len skb > len then len else skb_len skb)\<rparr>] @ frags)))"

text \<open>The walk over the queue that numbers the fragments and sets their more-fragments bit.\<close>

fun number_frags :: "nat \<Rightarrow> sk_buff list \<Rightarrow> sk_buff list result" where
  "number_frags fragnum [] = Inr []"
| "number_frags fragnum (skb # rest) =
     rbind (hdr_fc (skb_data skb)) (\<lambda>fc.
     rbind (hdr_seq_ctrl (skb_data skb)) (\<lambda>sc.
     let skb' = (if rest \<noteq> []
                 then skb\<lparr>info_rates_idx := (info_rates_idx skb)[1 := - 1, 2 := - 1, 3 := - 1],
                          info_flags := info_flags skb AND NOT IEEE80211_TX_CTL_RATE_CTRL_PROBE\<rparr>
                 else skb);
         fc' = (if rest \<noteq> [] then fc OR IEEE80211_FCTL_MOREFRAGS else fc AND NOT IEEE80211_FCTL_MOREFRAGS)
     in rbind (set_hdr_fc fc' (skb_data skb)) (\<lambda>bs.
        rbind (set_hdr_seq_ctrl (sc OR (of_nat fragnum AND IEEE80211_SCTL_FRAG)) bs) (\<lambda>bs.
        rbind (number_frags (Suc fragnum) rest) (\<lambda>rest.
        Inr (skb'\<lparr>skb_data := bs\<rparr> # rest))))))"

text \<open>
  \<open>supports_tx_frag\<close> and \<open>frag_threshold\<close> are the hardware flag and the wiphy's 32-bit setting. The
  length is compared with the threshold as unsigned 32-bit numbers.
\<close>

definition ieee80211_tx_h_fragment ::
  "bool \<Rightarrow> u32 \<Rightarrow> (u8 list \<times> u8 list) list \<Rightarrow> ieee80211_tx_data \<Rightarrow> (ieee80211_tx_result \<times> ieee80211_tx_data) result" where
  "ieee80211_tx_h_fragment supports_tx_frag frag_threshold allocs tx =
     rbind (tx_skb_of tx) (\<lambda>skb.
     let before = tx_skbs tx;
         tx = tx\<lparr>tx_skbs := before @ [skb], tx_skb := None\<rparr>
     in if info_flags skb AND IEEE80211_TX_CTL_DONTFRAG \<noteq> 0 then Inr (TX_CONTINUE, tx)
        else if supports_tx_frag then Inr (TX_CONTINUE, tx)
        else if info_flags skb AND IEEE80211_TX_CTL_AMPDU \<noteq> 0 then Inr (TX_DROP, tx)
        else
          rbind (hdr_fc (skb_data skb)) (\<lambda>fc.
          if of_nat (skb_len skb + FCS_LEN) \<le> frag_threshold then Inr (TX_DROP, tx)
          else
            rbind (ieee80211_fragment allocs before skb (ieee80211_hdrlen fc) (sint frag_threshold))
              (\<lambda>(ret, skbs).
            if ret \<noteq> 0 then Inr (TX_DROP, tx\<lparr>tx_skbs := skbs\<rparr>)
            else rbind (number_frags 0 skbs) (\<lambda>skbs. Inr (TX_CONTINUE, tx\<lparr>tx_skbs := skbs\<rparr>)))))"

section \<open>Statistics\<close>

fun stats_bytes :: "sk_buff list \<Rightarrow> u64 list \<Rightarrow> u64 list result" where
  "stats_bytes [] bytes = Inr bytes"
| "stats_bytes (skb # rest) bytes =
     rbind (arr_get bytes (skb_queue_mapping skb)) (\<lambda>n.
     stats_bytes rest (bytes[skb_queue_mapping skb := n + of_nat (skb_len skb)]))"

definition ieee80211_tx_h_stats :: "ieee80211_tx_data \<Rightarrow> world \<Rightarrow> (ieee80211_tx_result \<times> world) result" where
  "ieee80211_tx_h_stats tx w =
     (case tx_sta tx of
        None \<Rightarrow> Inr (TX_CONTINUE, w)
      | Some p \<Rightarrow>
          rbind (deref (stas w) p) (\<lambda>sta.
          rbind (stats_bytes (tx_skbs tx) (tx_bytes sta)) (\<lambda>bytes.
          let sta = sta\<lparr>tx_bytes := bytes\<rparr>
          in if tx_skbs tx = [] then Inr (TX_CONTINUE, put_sta p sta w)
             else
               let ac = skb_queue_mapping (last (tx_skbs tx))
               in rbind (arr_get (tx_packets sta) ac) (\<lambda>n.
                  Inr (TX_CONTINUE, put_sta p (sta\<lparr>tx_packets := (tx_packets sta)[ac := n + 1]\<rparr>) w)))))"

section \<open>Hand-over to the driver\<close>

text \<open>
  The transmit queues of \<open>ieee80211_local\<close>: the reasons a hardware queue is stopped for, the frames
  pending on it, and, as a record of the effects, the frames given to the driver (\<open>drv_tx\<close>, with the
  station) and the frames freed.
\<close>

record tx_local_queues =
  queue_stop_reasons :: "u64 list"
  pending :: "sk_buff list list"
  sent :: "(sk_buff \<times> sta_ptr option) list"
  purged :: "sk_buff list"

abbreviation (input) STOP_REASON_OFFCHANNEL :: u64 where "STOP_REASON_OFFCHANNEL \<equiv> 0x40"

definition vif_type_of :: "world \<Rightarrow> sdata_ptr option \<Rightarrow> nl80211_iftype option result" where
  "vif_type_of w vif =
     (case vif of None \<Rightarrow> Inr None | Some sp \<Rightarrow> rbind (deref (sdatas w) sp) (\<lambda>sd. Inr (Some (vif_type sd))))"

text \<open>
  The walk removes each buffer from the queue before it goes on, so the buffer it stands at is the
  head of \<open>skbs\<close>, which is the one \<open>mac_addr_change_hdr_tx\<close> rewrites.
\<close>

fun ieee80211_tx_frags ::
  "world \<Rightarrow> sdata_ptr option \<Rightarrow> sta_ptr option \<Rightarrow> sk_buff list \<Rightarrow> bool \<Rightarrow> tx_local_queues \<Rightarrow>
     (bool \<times> tx_local_queues) result" where
  "ieee80211_tx_frags w vif sta [] txpending l = Inr (True, l)"
| "ieee80211_tx_frags w vif sta (skb # rest) txpending l =
     (let q = info_hw_queue skb in
      rbind (arr_get (queue_stop_reasons l) q) (\<lambda>reasons.
      rbind (arr_get (pending l) q) (\<lambda>pend.
      let blocked = (reasons \<noteq> 0 \<or> \<not> txpending \<and> pend \<noteq> []);
          offchan = (info_flags skb AND IEEE80211_TX_INTFL_OFFCHAN_TX_OK \<noteq> 0)
      in if blocked \<and> offchan \<and> reasons AND NOT STOP_REASON_OFFCHANNEL \<noteq> 0
         then Inr (True, l\<lparr>purged := purged l @ skb # rest\<rparr>)
         else if blocked \<and> \<not> offchan
         then Inr (False, l\<lparr>pending := (pending l)[q :=
                (if txpending then (skb # rest) @ pend else pend @ skb # rest)]\<rparr>)
         else
           rbind (vif_type_of w vif) (\<lambda>ty.
           rbind (if RND_MAC w then mac_addr_change_hdr_tx w (skb\<lparr>info_vif := vif\<rparr> # rest) ty
                  else Inr (skb\<lparr>info_vif := vif\<rparr> # rest)) (\<lambda>skbs.
           case skbs of
             [] \<Rightarrow> Inl NullDeref
           | skb # _ \<Rightarrow>
               ieee80211_tx_frags w vif sta rest txpending (l\<lparr>sent := sent l @ [(skb, sta)]\<rparr>))))))"

text \<open>
  \<open>__ieee80211_tx\<close>: \<open>monitor_sdata\<close> and \<open>queue_control\<close> are the device's monitor interface and its
  \<open>QUEUE_CONTROL\<close> flag. The frame's interface decides which interface the driver is told; the LED
  trigger is left out.
\<close>

definition ieee80211_tx_dunder ::
  "world \<Rightarrow> sdata_ptr option \<Rightarrow> bool \<Rightarrow> sk_buff list \<Rightarrow> sta_ptr option \<Rightarrow> bool \<Rightarrow> tx_local_queues \<Rightarrow>
     (bool \<times> tx_local_queues) result" where
  "ieee80211_tx_dunder w monitor_sdata queue_control skbs sta txpending l =
     (case skbs of
        [] \<Rightarrow> Inr (True, l)
      | skb # rest \<Rightarrow>
          (case info_vif skb of
             None \<Rightarrow> Inl NullDeref
           | Some sp \<Rightarrow>
               rbind (deref (sdatas w) sp) (\<lambda>sdata.
               rbind (case sta of None \<Rightarrow> Inr None
                      | Some p \<Rightarrow> rbind (deref (stas w) p) (\<lambda>s. Inr (if uploaded s then Some p else None)))
                 (\<lambda>pubsta.
               case vif_type sdata of
                 NL80211_IFTYPE_MONITOR \<Rightarrow>
                   if monitor_active sdata then ieee80211_tx_frags w (Some sp) pubsta skbs txpending l
                   else
                     (case monitor_sdata of
                        Some mp \<Rightarrow>
                          rbind (deref (sdatas w) mp) (\<lambda>msd.
                          rbind (arr_get (vif_hw_queue msd) (skb_queue_mapping skb)) (\<lambda>q.
                          ieee80211_tx_frags w (Some mp) pubsta (skb\<lparr>info_hw_queue := q\<rparr> # rest) txpending l))
                      | None \<Rightarrow>
                          if queue_control then Inr (True, l\<lparr>purged := purged l @ skbs\<rparr>)
                          else ieee80211_tx_frags w None pubsta skbs txpending l)
               | NL80211_IFTYPE_AP_VLAN \<Rightarrow>
                   (case sdata_bss sdata of
                      None \<Rightarrow> Inl NullDeref
                    | Some bp \<Rightarrow> ieee80211_tx_frags w (Some bp) pubsta skbs txpending l)
               | _ \<Rightarrow> ieee80211_tx_frags w (Some sp) pubsta skbs txpending l))))"


section \<open>Facts about the hand-over\<close>

text \<open>What the driver is given for a frame: the addresses looked up by the interface's role.\<close>

definition tx_look :: "world \<Rightarrow> nl80211_iftype \<Rightarrow> mac \<Rightarrow> mac option" where
  "tx_look w ty =
     (if \<not> RND_MAC w then (\<lambda>_. None)
      else case ty of
        NL80211_IFTYPE_STATION \<Rightarrow> s_random_of_base (s_translation_table w)
      | NL80211_IFTYPE_AP \<Rightarrow> random_of_base (translation_table w)
      | _ \<Rightarrow> (\<lambda>_. None))"

definition rewrite_bytes :: "(mac \<Rightarrow> mac option) \<Rightarrow> u8 list \<Rightarrow> u8 list" where
  "rewrite_bytes look bs =
     (case hdr_load bs of Inl _ \<Rightarrow> bs | Inr h \<Rightarrow> hdr_store (subst_hdr look h) bs)"

definition sent_frame :: "world \<Rightarrow> sdata_ptr \<Rightarrow> nl80211_iftype \<Rightarrow> sk_buff \<Rightarrow> sk_buff" where
  "sent_frame w vif ty skb =
     skb\<lparr>info_vif := Some vif, skb_data := rewrite_bytes (tx_look w ty) (skb_data skb)\<rparr>"

lemma subst_hdr_None [simp]: "subst_hdr (\<lambda>_. None) h = h"
  by (simp add: subst_hdr_def subst_addr_def)

lemma rewrite_bytes_None [simp]: "rewrite_bytes (\<lambda>_. None) bs = bs"
  using hdr_load_ok [of bs] hdr_load_fields(1) [of bs]
  by (cases "hdr_load bs") (auto simp: rewrite_bytes_def)

lemma rewrite_head_eq:
  "30 \<le> length (skb_data s) \<Longrightarrow>
     rewrite_head look (s # rest) = Inr (s\<lparr>skb_data := rewrite_bytes look (skb_data s)\<rparr> # rest)"
  using hdr_load_ok [of "skb_data s"] by (auto simp: rewrite_head_def rewrite_bytes_def)

lemma frame_rewritten:
  assumes "30 \<le> length (skb_data s)"
  shows "(if RND_MAC w then mac_addr_change_hdr_tx w (s\<lparr>info_vif := Some vp\<rparr> # rest) (Some ty)
          else Inr (s\<lparr>info_vif := Some vp\<rparr> # rest)) = Inr (sent_frame w vp ty s # rest)"
  using assms
  by (cases ty) (simp_all add: mac_addr_change_hdr_tx_def sent_frame_def tx_look_def rewrite_head_eq)

text \<open>When the walk stops at a frame, and what happens to the rest of the queue there.\<close>

definition queue_blocked :: "bool \<Rightarrow> tx_local_queues \<Rightarrow> nat \<Rightarrow> bool" where
  "queue_blocked txpending l q \<longleftrightarrow>
     queue_stop_reasons l ! q \<noteq> 0 \<or> \<not> txpending \<and> pending l ! q \<noteq> []"

definition splice_pending :: "bool \<Rightarrow> sk_buff list \<Rightarrow> tx_local_queues \<Rightarrow> sk_buff list list" where
  "splice_pending txpending rest l =
     (let q = info_hw_queue (hd rest) in
      (pending l)[q := (if txpending then rest @ pending l ! q else pending l ! q @ rest)])"

definition walk_outcome :: "bool \<Rightarrow> tx_local_queues \<Rightarrow> sk_buff list \<Rightarrow> bool \<Rightarrow> tx_local_queues \<Rightarrow> bool" where
  "walk_outcome txpending l rest ret l' \<longleftrightarrow>
     queue_stop_reasons l' = queue_stop_reasons l \<and>
     (rest \<noteq> [] \<longrightarrow> queue_blocked txpending l (info_hw_queue (hd rest))) \<and>
     (ret \<and> pending l' = pending l \<and> purged l' = purged l @ rest \<or>
      \<not> ret \<and> rest \<noteq> [] \<and> purged l' = purged l \<and> pending l' = splice_pending txpending rest l)"

lemma walk_outcome_sent [simp]:
  "walk_outcome txpending (l\<lparr>sent := x\<rparr>) rest ret l' = walk_outcome txpending l rest ret l'"
  by (cases txpending) (simp_all add: walk_outcome_def queue_blocked_def splice_pending_def Let_def)

lemma tx_frags_step:
  assumes "sdatas w vp = Some sd" and "30 \<le> length (skb_data s)"
    and "info_hw_queue s < length (queue_stop_reasons l)" and "info_hw_queue s < length (pending l)"
  shows "ieee80211_tx_frags w (Some vp) sta (s # rest) txpending l =
           ieee80211_tx_frags w (Some vp) sta rest txpending
             (l\<lparr>sent := sent l @ [(sent_frame w vp (vif_type sd) s, sta)]\<rparr>) \<or>
         (\<exists>ret l'. ieee80211_tx_frags w (Some vp) sta (s # rest) txpending l = Inr (ret, l') \<and>
            sent l' = sent l \<and> walk_outcome txpending l (s # rest) ret l')"
  using assms
  by (auto simp: vif_type_of_def frame_rewritten Let_def walk_outcome_def queue_blocked_def splice_pending_def)

text \<open>
  C11: The hand-over to the driver accounts for every frame of the queue. The frames are split in two: a
  first part goes to the driver, each frame exactly once, in order and with its addresses rewritten by
  the role of the interface (and nothing else of it changed but the interface pointer); the walk
  stops only at a frame whose hardware queue is stopped or has frames pending before it, and the rest
  is then either freed or, unchanged, put in one piece on the pending list of that queue, before
  what is already there if it comes from the pending list and after it otherwise. The function
  returns false exactly when frames were put on a pending list.
\<close>

theorem tx_frags_accounts:
  assumes "sdatas w vp = Some sd"
    and "\<forall>s\<in>set skbs. 30 \<le> length (skb_data s) \<and> info_hw_queue s < length (queue_stop_reasons l)"
    and "length (pending l) = length (queue_stop_reasons l)"
  shows "\<exists>done rest ret l'. skbs = done @ rest \<and>
     ieee80211_tx_frags w (Some vp) sta skbs txpending l = Inr (ret, l') \<and>
     sent l' = sent l @ map (\<lambda>s. (sent_frame w vp (vif_type sd) s, sta)) done \<and>
     walk_outcome txpending l rest ret l'"
  using assms
proof (induction skbs arbitrary: l)
  case Nil
  then show ?case by (auto simp: walk_outcome_def)
next
  case (Cons s skbs)
  let ?l = "l\<lparr>sent := sent l @ [(sent_frame w vp (vif_type sd) s, sta)]\<rparr>"
  consider (go) "ieee80211_tx_frags w (Some vp) sta (s # skbs) txpending l =
        ieee80211_tx_frags w (Some vp) sta skbs txpending ?l"
    | (stop) ret l' where "ieee80211_tx_frags w (Some vp) sta (s # skbs) txpending l = Inr (ret, l')"
        "sent l' = sent l" "walk_outcome txpending l (s # skbs) ret l'"
    using tx_frags_step [of w vp sd s l sta skbs txpending] Cons.prems by auto
  then show ?case
  proof cases
    case go
    obtain d r ret l' where IH: "skbs = d @ r"
      "ieee80211_tx_frags w (Some vp) sta skbs txpending ?l = Inr (ret, l')"
      "sent l' = sent ?l @ map (\<lambda>s. (sent_frame w vp (vif_type sd) s, sta)) d"
      "walk_outcome txpending ?l r ret l'"
      using Cons.IH [of ?l] Cons.prems by auto
    then show ?thesis
      using IH go by (intro exI [of _ "s # d"] exI [of _ r] exI [of _ ret] exI [of _ l']) simp
  next
    case stop
    then show ?thesis by (intro exI [of _ "[]"] exI [of _ "s # skbs"] exI [of _ ret] exI [of _ l']) simp
  qed
qed

definition sample_queues :: "u64 \<Rightarrow> tx_local_queues" where
  "sample_queues r = \<lparr>queue_stop_reasons = [r, 0, 0, 0], pending = [[], [], [], []], sent = [], purged = []\<rparr>"

lemma sample_skb_length: "30 \<le> length (skb_data sample_skb)"
  by (simp add: sample_skb_def)

theorem tx_frags_accounts_witness:
  "\<exists>done rest ret l'. [sample_skb, sample_skb] = done @ rest \<and>
     ieee80211_tx_frags sample_paired_ap (Some 2) (Some 5) [sample_skb, sample_skb] False (sample_queues 0) =
       Inr (ret, l') \<and>
     sent l' = sent (sample_queues 0) @ map (\<lambda>s. (sent_frame sample_paired_ap 2 NL80211_IFTYPE_AP s, Some 5)) done \<and>
     walk_outcome False (sample_queues 0) rest ret l'"
proof -
  have "\<exists>sd. sdatas sample_paired_ap 2 = Some sd \<and> vif_type sd = NL80211_IFTYPE_AP"
    by (simp add: sample_paired_ap_def sample_world_def)
  then obtain sd where "sdatas sample_paired_ap 2 = Some sd" "vif_type sd = NL80211_IFTYPE_AP" by blast
  then show ?thesis
    using tx_frags_accounts [of sample_paired_ap 2 sd "[sample_skb, sample_skb]" "sample_queues 0" "Some 5" False]
      sample_skb_length by (simp add: sample_queues_def sample_skb_def)
qed

section \<open>Facts about key selection\<close>

lemma data_present_simps:
  assumes "ieee80211_is_data_present fc"
  shows "\<not> ieee80211_is_mgmt fc" "\<not> ieee80211_is_action fc"
  using frame_types_exclusive(1) is_data_present_is_data [OF assms] is_action_is_mgmt by blast+

lemma data_no_group_privacy:
  assumes "ieee80211_is_data_present fc" and "hdr_fc bs = Inr fc"
  shows "ieee80211_is_group_privacy_action len bs = Inr False"
  using assms by (simp add: ieee80211_is_group_privacy_action_def ieee80211_is_group_privacy_action_hdr_def
      data_present_simps)

text \<open>The key a data frame is a candidate for.\<close>

definition data_key :: "sta_info option \<Rightarrow> ieee80211_sub_if_data \<Rightarrow> mac \<Rightarrow> key_ptr option" where
  "data_key sta sdata a1 =
     (case sta of
        Some s \<Rightarrow> (if ptk s ! ptk_idx s \<noteq> None then ptk s ! ptk_idx s
                   else if is_multicast_ether_addr a1 then default_multicast_key sdata
                   else default_unicast_key sdata)
      | None \<Rightarrow> (if is_multicast_ether_addr a1 then default_multicast_key sdata
                 else default_unicast_key sdata))"

lemma select_key_candidate_data:
  assumes "ieee80211_is_data_present fc" and "hdr_fc (skb_data skb) = Inr fc"
    and "\<forall>s. sta = Some s \<longrightarrow> ptk_idx s < length (ptk s)"
  shows "select_key_candidate sta sdata skb fc a1 = Inr (data_key sta sdata a1)"
  using assms
  by (cases sta; cases "is_multicast_ether_addr a1")
    (auto simp: select_key_candidate_def data_key_def data_no_group_privacy data_present_simps sta_ptk_def)

lemma select_key_cipher_data:
  assumes "ieee80211_is_data_present fc"
  shows "select_key_cipher key sta skb fc = Inr (\<not> bip_cipher (conf_cipher key), False)"
  using assms
  by (auto simp: select_key_cipher_def data_present_simps wep_tkip_cipher_def ccmp_gcmp_cipher_def bip_cipher_def)


section \<open>Key selection for data frames\<close>

text \<open>
  C22: A data frame for a station that uses encryption never leaves key selection without a key, unless
  the frame is marked as not to be encrypted: it is dropped, or it continues with the station's
  pairwise key (the interface's default key for the kind of destination if the station has none),
  which is not tainted.
\<close>

theorem data_frame_never_in_clear:
  assumes "tx_skb tx = Some skb" and "info_flags skb AND IEEE80211_TX_INTFL_DONT_ENCRYPT = 0"
    and "tx_sta tx = Some p" and "stas w p = Some s" and "sta_ok w s" and "sta_uses_encryption s"
    and "tx_sdata tx = Some sp" and "sdatas w sp = Some sd" and "sdata_ok w sd"
    and "hdr_load (skb_data skb) = Inr h" and "ieee80211_is_data_present (frame_control h)"
    and nb: "\<forall>kp k. data_key (Some s) sd (addr1 h) = Some kp \<and> keys w kp = Some k \<longrightarrow> \<not> bip_cipher (conf_cipher k)"
  shows "\<exists>res tx'. ieee80211_tx_h_select_key w tx = Inr (res, tx') \<and>
    (res = TX_DROP \<or>
     res = TX_CONTINUE \<and>
     (\<exists>kp k. data_key (Some s) sd (addr1 h) = Some kp \<and> tx_key tx' = Some kp \<and>
        keys w kp = Some k \<and> key_flags k AND KEY_FLAG_TAINTED = 0))"
proof -
  have hd: "hdr_fc (skb_data skb) = Inr (frame_control h)" "hdr_addr1 (skb_data skb) = Inr (addr1 h)"
    using hdr_load_fields [OF assms(10)] by simp_all
  have nd: "\<not> ieee80211_is_deauth (frame_control h)" "\<not> ieee80211_is_mgmt (frame_control h)"
    using data_present_simps [OF assms(11)] deauth_is_mgmt by blast+
  have cand: "select_key_candidate (Some s) sd skb (frame_control h) (addr1 h) =
      Inr (data_key (Some s) sd (addr1 h))"
    using assms(5,11) hd(1) by (intro select_key_candidate_data) (auto simp: sta_ok_def)
  have valid: "\<exists>k. keys w kp = Some k" if "data_key (Some s) sd (addr1 h) = Some kp" for kp
    using that assms(5,9) by (auto simp: data_key_def sta_ok_def sdata_ok_def split: if_splits)
  show ?thesis
  proof (cases "data_key (Some s) sd (addr1 h)")
    case None
    then show ?thesis
      using assms hd cand nd
      by (simp add: ieee80211_tx_h_select_key_def tx_skb_of_def tx_sdata_of_def tx_sta_of_def)
  next
    case (Some kp)
    then obtain k where k: "keys w kp = Some k" "\<not> bip_cipher (conf_cipher k)"
      using valid nb by blast
    then show ?thesis
      using assms(1-11) hd cand nd Some select_key_cipher_data [OF assms(11), of k "Some s" skb]
      by (cases "key_flags k AND KEY_FLAG_TAINTED = 0")
        (simp_all add: ieee80211_tx_h_select_key_def tx_skb_of_def tx_sdata_of_def tx_sta_of_def Let_def)
  qed
qed

section \<open>Sequence numbers\<close>

lemma set_tx_pn_stas: "set_tx_pn k pn w = Inr w' \<Longrightarrow> stas w' = stas w"
  by (auto simp: set_tx_pn_def result_simps)

lemma ap_reset_pn_stas: "ap_reset_pn t key sd w = Inr w' \<Longrightarrow> stas w' = stas w"
  by (auto simp: ap_reset_pn_def result_simps dest!: set_tx_pn_stas split: if_splits option.splits)

lemma ap_gen_station_stas: "ap_gen_station sha1 env tp p (d, w) = Inr (d', w') \<Longrightarrow> stas w' = stas w"
  by (auto simp: ap_gen_station_def result_simps Let_def dest!: ap_reset_pn_stas)

lemma ap_gen_loop_stas: "ap_gen_loop sha1 env tp ps (d, w) = Inr (d', w') \<Longrightarrow> stas w' = stas w"
proof (induction ps arbitrary: d w)
  case (Cons p ps)
  then show ?case by (auto simp: rbind_Inr_iff) (metis ap_gen_station_stas)
qed simp

lemma generate_mac_add_ap_all_stas: "generate_mac_add_ap_all sha1 env tp w = Inr w' \<Longrightarrow> stas w' = stas w"
  by (auto simp: generate_mac_add_ap_all_def result_simps dest: ap_gen_loop_stas split: option.splits if_splits)

lemma generate_mac_add_sta_stas: "generate_mac_add_sta sha1 env p tp w = Inr w' \<Longrightarrow> stas w' = stas w"
  unfolding generate_mac_add_sta_def Let_def
  by (auto elim!: rbind_InrE dest!: set_tx_pn_stas split: option.split_asm if_split_asm)

lemma handle_random_mac_ap_tid_seq:
  assumes "handle_random_mac_ap sha1 env tp p s w = Inr w'"
  shows "stas w' = stas w"
  using assms unfolding handle_random_mac_ap_def Let_def
  by (auto elim!: rbind_InrE dest!: generate_mac_add_ap_all_stas split: option.split_asm if_split_asm)

text \<open>Of a station, the transmit hook changes nothing but the recorded period.\<close>

definition sta_kept :: "sta_info option \<Rightarrow> sta_info option \<Rightarrow> bool" where
  "sta_kept s s' \<longleftrightarrow> map_option (start_time_period_update (\<lambda>_. 0)) s' = map_option (start_time_period_update (\<lambda>_. 0)) s"

lemma sta_keptD: "sta_kept (Some s) x \<Longrightarrow> \<exists>t. x = Some (s\<lparr>start_time_period := t\<rparr>)"
proof -
  assume "sta_kept (Some s) x"
  then obtain y where y: "x = Some y" "y\<lparr>start_time_period := 0\<rparr> = s\<lparr>start_time_period := 0\<rparr>"
    by (auto simp: sta_kept_def)
  have "y = (s\<lparr>start_time_period := 0\<rparr>)\<lparr>start_time_period := start_time_period y\<rparr>"
    using y(2)[symmetric] by simp
  then show ?thesis using y(1) by auto
qed

lemma handle_random_mac_sta_kept:
  assumes "handle_random_mac_sta sha1 env tp p s w = Inr w'" and "stas w p = Some s"
  shows "sta_kept (stas w q) (stas w' q)"
  using assms unfolding handle_random_mac_sta_def Let_def
  by (auto elim!: rbind_InrE dest!: generate_mac_add_sta_stas simp: deref_Inr_iff sta_kept_def
      split: option.split_asm if_split_asm)

lemma handle_random_mac_sta_info:
  assumes "handle_random_mac sha1 env now tx w = Inr w'"
  shows "sta_kept (stas w q) (stas w' q)"
proof (cases "\<exists>p s. tx_sta tx = Some p \<and> stas w p = Some s \<and>
    handle_random_mac_sta sha1 env (current_period now) p s w = Inr w'")
  case True
  then show ?thesis using handle_random_mac_sta_kept by blast
next
  case False
  then show ?thesis
    using assms unfolding handle_random_mac_def Let_def
    by (auto elim!: rbind_InrE dest!: handle_random_mac_ap_tid_seq simp: deref_Inr_iff sta_kept_def
        split: option.split_asm if_split_asm nl80211_iftype.split_asm)
qed

lemma hdr_seq_ctrl_set:
  "24 \<le> length bs \<Longrightarrow> \<exists>bs'. set_hdr_seq_ctrl x bs = Inr bs' \<and> hdr_seq_ctrl bs' = Inr x \<and> length bs' = length bs"
  by (auto simp: set_hdr_seq_ctrl_def buf_write_ok hdr_seq_ctrl_def nth_append le16_bytes_def)

lemma get_tid_range:
  "ieee80211_get_tid bs = Inr tid \<Longrightarrow> unat tid < 16"
proof -
  assume "ieee80211_get_tid bs = Inr tid"
  then obtain b where "tid = b AND 0x0f" by (auto simp: ieee80211_get_tid_def result_simps)
  then have "tid \<le> 0x0f" by (simp add: word_and_le1)
  then show ?thesis by (simp add: word_le_nat_alt)
qed

lemma data_qos_simps:
  assumes "ieee80211_is_data_qos fc"
  shows "\<not> ieee80211_is_ctl fc" "\<not> ieee80211_hdrlen fc < 24" "ieee80211_is_data fc"
proof -
  show d: "ieee80211_is_data fc"
  proof -
    have "fc AND 0x008c = 0x0088" using assms by (simp add: ieee80211_is_data_qos_def)
    then have "(fc AND 0x008c) AND 0x000c = (0x0008 :: u16)" by simp
    then show ?thesis by (simp add: and.assoc ieee80211_is_data_def)
  qed
  show "\<not> ieee80211_is_ctl fc" using d frame_types_exclusive(2) by blast
  then show "\<not> ieee80211_hdrlen fc < 24" using d by (simp add: ieee80211_hdrlen_def Let_def)
qed

text \<open>
  C30: Re-randomising does not restart the sequence numbers of unicast QoS data: the frame that follows
  the transmit hook carries the next number of its station's and TID's counter as it was before the
  address change, so the numbers run on under the new address.
\<close>

theorem qos_sequence_survives_rerandomisation:
  assumes "handle_random_mac sha1 env now tx w = Inr w'"
    and "tx_skb tx = Some skb" and "info_vif skb = Some vp" and "sdatas w' vp = Some vsd"
    and "vif_type vsd \<noteq> NL80211_IFTYPE_MONITOR"
    and "hdr_load (skb_data skb) = Inr h" and "ieee80211_is_data_qos (frame_control h)"
    and "\<not> ieee80211_is_qos_nullfunc (frame_control h)" and "\<not> is_multicast_ether_addr (addr1 h)"
    and "tx_sta tx = Some p" and "stas w p = Some s"
    and "length (tid_seq s) = IEEE80211_NUM_TIDS" and "length (tx_msdu s) = IEEE80211_NUM_TIDS + 1"
    and "ieee80211_get_tid (skb_data skb) = Inr tid"
  shows "\<exists>tx' w'' skb' s'. ieee80211_tx_h_sequence tx w' = Inr (TX_CONTINUE, tx', w'') \<and>
    tx_skb tx' = Some skb' \<and> hdr_seq_ctrl (skb_data skb') = Inr (tid_seq s ! unat tid) \<and>
    stas w'' p = Some s' \<and>
    tid_seq s' = (tid_seq s)[unat tid := (tid_seq s ! unat tid + 0x10) AND IEEE80211_SCTL_SEQ]"
proof -
  obtain t where t: "stas w' p = Some (s\<lparr>start_time_period := t\<rparr>)"
    using sta_keptD handle_random_mac_sta_info [OF assms(1), of p] assms(11) by auto
  have hd: "hdr_fc (skb_data skb) = Inr (frame_control h)" "hdr_addr1 (skb_data skb) = Inr (addr1 h)"
    "24 \<le> length (skb_data skb)"
    using hdr_load_fields [OF assms(6)] by simp_all
  obtain bs where bs: "set_hdr_seq_ctrl (tid_seq s ! unat tid) (skb_data skb) = Inr bs"
    "hdr_seq_ctrl bs = Inr (tid_seq s ! unat tid)"
    using hdr_seq_ctrl_set [OF hd(3)] by blast
  have tid: "unat tid < 16" "unat tid < 17" using get_tid_range [OF assms(14)] by auto
  show ?thesis
    using assms hd t bs tid data_qos_simps [OF assms(7)]
    by (simp add: ieee80211_tx_h_sequence_def tx_skb_of_def tx_tid_seq_def count_msdu_def ieee80211_tx_next_seq_def)
qed

lemma sample_paired_handled:
  obtains w' where "handle_random_mac sample_sha1 sample_env 1700000000 sample_tx sample_paired_sta = Inr w'"
    "map_option vif_type (sdatas w' 2) = Some NL80211_IFTYPE_STATION"
proof (rule sample_paired_stationE)
  fix s sd
  assume s: "stas sample_paired_sta 5 = Some s" "sdatas sample_paired_sta (sta_sdata s) = Some sd"
      "sta_state s = IEEE80211_STA_AUTHORIZED" "vif_type sd = NL80211_IFTYPE_STATION"
      "start_time_period s \<noteq> current_period 1700000000"
      "s_random_of_base (s_translation_table sample_paired_sta) (vif_addr sd) \<noteq> None"
  have "sta_sdata s = 2" using s(1)
    by (auto simp: sample_paired_sta_def sample_sta_world_def sample_world_def)
  then show ?thesis
    using handle_random_mac_sta_new_period [OF sample_paired_ok(1) sample_paired_keyed(2) sample_env_ok
        sample_sha1_size sample_paired_keyed(1) s(1,2,6,5)] s that
    by (auto simp: handle_random_mac_def sample_tx_def)
qed

theorem qos_sequence_survives_rerandomisation_witness:
  "\<exists>w' tx' w'' skb'. handle_random_mac sample_sha1 sample_env 1700000000 sample_tx sample_paired_sta = Inr w' \<and>
     ieee80211_tx_h_sequence sample_tx w' = Inr (TX_CONTINUE, tx', w'') \<and>
     tx_skb tx' = Some skb' \<and> hdr_seq_ctrl (skb_data skb') = Inr 0"
proof (rule sample_paired_handled)
  fix w'
  assume w': "handle_random_mac sample_sha1 sample_env 1700000000 sample_tx sample_paired_sta = Inr w'"
    "map_option vif_type (sdatas w' 2) = Some NL80211_IFTYPE_STATION"
  obtain vsd where vsd: "sdatas w' 2 = Some vsd" "vif_type vsd \<noteq> NL80211_IFTYPE_MONITOR"
    using w'(2) by auto
  obtain s where s: "stas sample_paired_sta 5 = Some s" "tid_seq s = replicate 16 0" "tx_msdu s = replicate 17 0"
    by (simp add: sample_paired_sta_def sample_sta_world_def sample_world_def)
  have tid: "ieee80211_get_tid (skb_data sample_skb) = Inr 0"
    by (simp add: sample_skb_def ieee80211_get_tid_def ieee80211_get_qos_ctl_def sample_hdr_def hdr_bytes_def
        le16_bytes_def hdr_fc_def arr_get_def sample_iface_def sample_base_def le16_of_def
        ieee80211_has_a4_def)
  have fc: "ieee80211_is_data_qos (frame_control sample_hdr)"
    "\<not> ieee80211_is_qos_nullfunc (frame_control sample_hdr)" "\<not> is_multicast_ether_addr (addr1 sample_hdr)"
    by (simp_all add: sample_hdr_def ieee80211_is_data_qos_def ieee80211_is_qos_nullfunc_def
        fc_type_stype_def sample_iface_def)
  show ?thesis
    using qos_sequence_survives_rerandomisation [OF w'(1) _ _ vsd sample_hdr_load fc, of 5 s 0] s tid w'(1)
    by (fastforce simp: sample_tx_def sample_skb_def)
qed

text \<open>
  In a station's first transmission of a period, a frame that takes its sequence number from the
  interface's counter (anything but unicast QoS data) carries number zero, and the counter goes on
  from there.
\<close>

theorem new_period_restarts_interface_sequence:
  assumes "world_ok w" and "ccmp_reset w" and "env_ok env" and "sha1_digest_size sha1"
    and k: "keyed_sta w p a k" and s: "stas w p = Some s" and sd: "sdatas w (sta_sdata s) = Some sd"
    and "sta_state s = IEEE80211_STA_AUTHORIZED" and ty: "vif_type sd = NL80211_IFTYPE_STATION"
    and "s_random_of_base (s_translation_table w) (vif_addr sd) \<noteq> None"
    and "start_time_period s \<noteq> current_period now"
    and tx: "tx_sta tx = Some p" "tx_local tx" "tx_sdata tx = Some (sta_sdata s)" "tx_skb tx = Some skb"
      "info_vif skb = Some (sta_sdata s)" "tx_flags tx AND IEEE80211_TX_NO_SEQNO = 0"
    and h: "hdr_load (skb_data skb) = Inr h"
    and fc: "\<not> ieee80211_is_ctl (frame_control h)" "\<not> ieee80211_is_qos_nullfunc (frame_control h)"
      "\<not> ieee80211_is_data_qos (frame_control h) \<or> is_multicast_ether_addr (addr1 h)"
    and len: "length (tx_msdu s) = IEEE80211_NUM_TIDS + 1"
  shows "\<exists>w' tx' w'' skb' sd'. handle_random_mac sha1 env now tx w = Inr w' \<and>
    ieee80211_tx_h_sequence tx w' = Inr (TX_CONTINUE, tx', w'') \<and> tx_skb tx' = Some skb' \<and>
    hdr_seq_ctrl (skb_data skb') = Inr 0 \<and> info_flags skb' AND IEEE80211_TX_CTL_ASSIGN_SEQ \<noteq> 0 \<and>
    sdatas w'' (sta_sdata s) = Some sd' \<and> sequence_number sd' = 0x10"
proof -
  obtain w' where w': "handle_random_mac_sta sha1 env (current_period now) p s w = Inr w'"
      "stas w' p = Some (s\<lparr>start_time_period := current_period now\<rparr>)"
      "sdatas w' (sta_sdata s) = Some (sd\<lparr>sequence_number := 0\<rparr>)"
    using handle_random_mac_sta_new_period [OF assms(1-7,10,11)] by blast
  have 1: "handle_random_mac sha1 env now tx w = Inr w'"
    using w'(1) assms(8) ty tx(1-3) s sd by (simp add: handle_random_mac_def Let_def)
  have hd: "hdr_fc (skb_data skb) = Inr (frame_control h)" "hdr_addr1 (skb_data skb) = Inr (addr1 h)"
    "24 \<le> length (skb_data skb)"
    using hdr_load_fields [OF h] by simp_all
  obtain bs where bs: "set_hdr_seq_ctrl 0 (skb_data skb) = Inr bs" "hdr_seq_ctrl bs = Inr 0"
    using hdr_seq_ctrl_set [OF hd(3)] by blast
  have hl: "\<not> ieee80211_hdrlen (frame_control h) < 24"
    using fc(1) by (auto simp: ieee80211_hdrlen_def Let_def)
  have fl: "(info_flags skb OR 2) AND (2 :: u32) \<noteq> 0"
    by (simp add: bit.conj_disj_distrib2)
  have "ieee80211_tx_h_sequence tx w' = tx_global_seq skb tx w'"
    using tx w' hd hl fc ty by (auto simp: ieee80211_tx_h_sequence_def tx_skb_of_def)
  moreover have "\<exists>tx' w'' skb' sd'. tx_global_seq skb tx w' = Inr (TX_CONTINUE, tx', w'') \<and>
    tx_skb tx' = Some skb' \<and> hdr_seq_ctrl (skb_data skb') = Inr 0 \<and> info_flags skb' AND 2 \<noteq> 0 \<and>
    sdatas w'' (sta_sdata s) = Some sd' \<and> sequence_number sd' = 0x10"
    using tx(1,3,4) w'(2,3) bs fl len by (simp add: tx_global_seq_def count_msdu_def Let_def)
  ultimately show ?thesis using 1 by metis
qed

text \<open>The sample frame without its QoS control field.\<close>

definition sample_data_hdr :: ieee80211_hdr where
  "sample_data_hdr = sample_hdr\<lparr>frame_control := 0x4108\<rparr>"

definition sample_data_tx :: ieee80211_tx_data where
  "sample_data_tx = sample_tx\<lparr>tx_skb := Some (sample_skb\<lparr>skb_data := hdr_bytes sample_data_hdr @ [1, 2, 3, 4]\<rparr>)\<rparr>"

theorem new_period_restarts_interface_sequence_witness:
  "\<exists>w' tx' w'' skb'. handle_random_mac sample_sha1 sample_env 1700000000 sample_data_tx sample_paired_sta = Inr w' \<and>
     ieee80211_tx_h_sequence sample_data_tx w' = Inr (TX_CONTINUE, tx', w'') \<and>
     tx_skb tx' = Some skb' \<and> hdr_seq_ctrl (skb_data skb') = Inr 0"
proof (rule sample_paired_stationE)
  fix s sd
  assume s: "stas sample_paired_sta 5 = Some s" "sdatas sample_paired_sta (sta_sdata s) = Some sd"
      "sta_state s = IEEE80211_STA_AUTHORIZED" "vif_type sd = NL80211_IFTYPE_STATION"
      "start_time_period s \<noteq> current_period 1700000000"
      "s_random_of_base (s_translation_table sample_paired_sta) (vif_addr sd) \<noteq> None"
  have two: "sta_sdata s = 2" "length (tx_msdu s) = IEEE80211_NUM_TIDS + 1" using s(1)
    by (auto simp: sample_paired_sta_def sample_sta_world_def sample_world_def)
  have fc: "\<not> ieee80211_is_ctl (frame_control sample_data_hdr)" "\<not> ieee80211_is_qos_nullfunc (frame_control sample_data_hdr)"
    "\<not> ieee80211_is_data_qos (frame_control sample_data_hdr) \<or> is_multicast_ether_addr (addr1 sample_data_hdr)"
    by (simp_all add: sample_data_hdr_def ieee80211_is_data_qos_def ieee80211_is_qos_nullfunc_def
        ieee80211_is_ctl_def fc_type_stype_def)
  have tx: "tx_sta sample_data_tx = Some 5" "tx_local sample_data_tx" "tx_sdata sample_data_tx = Some (sta_sdata s)"
    "tx_skb sample_data_tx = Some (sample_skb\<lparr>skb_data := hdr_bytes sample_data_hdr @ [1, 2, 3, 4]\<rparr>)"
    "info_vif (sample_skb\<lparr>skb_data := hdr_bytes sample_data_hdr @ [1, 2, 3, 4]\<rparr>) = Some (sta_sdata s)"
    "tx_flags sample_data_tx AND IEEE80211_TX_NO_SEQNO = 0"
    by (simp_all add: sample_data_tx_def sample_tx_def sample_skb_def two)
  have h: "hdr_load (skb_data (sample_skb\<lparr>skb_data := hdr_bytes sample_data_hdr @ [1, 2, 3, 4]\<rparr>)) = Inr sample_data_hdr"
    by (simp add: hdr_load_append)
  show ?thesis
    using new_period_restarts_interface_sequence [OF sample_paired_ok(1) sample_paired_keyed(2) sample_env_ok
        sample_sha1_size sample_paired_keyed(1) s(1-4,6,5) tx h fc two(2)] by blast
qed

theorem data_frame_never_in_clear_witness:
  "\<exists>res tx'. ieee80211_tx_h_select_key sample_paired_sta sample_tx = Inr (res, tx') \<and>
     (res = TX_DROP \<or> res = TX_CONTINUE \<and> tx_key tx' = Some 3)"
proof -
  obtain s where s: "stas sample_paired_sta 5 = Some s" "sta_ok sample_paired_sta s" "sta_uses_encryption s"
      "ptk s ! ptk_idx s = Some 3"
    by (simp add: sample_paired_sta_def sample_sta_world_def sample_world_def sta_ok_def sdata_ok_def put_sdata_def)
  obtain sd where sd: "sdatas sample_paired_sta 2 = Some sd" "sdata_ok sample_paired_sta sd"
    by (simp add: sample_paired_sta_def sample_sta_world_def sample_world_def sdata_ok_def put_sdata_def)
  have dk: "data_key (Some s) sd (addr1 sample_hdr) = Some 3" using s(4) by (simp add: data_key_def)
  have key: "keys sample_paired_sta 3 = Some (sample_key 16)"
    by (simp add: sample_paired_sta_def sample_sta_world_def sample_world_def put_sdata_def)
  have nb: "\<forall>kp k. data_key (Some s) sd (addr1 sample_hdr) = Some kp \<and> keys sample_paired_sta kp = Some k \<longrightarrow>
      \<not> bip_cipher (conf_cipher k)"
    using key by (auto simp: dk sample_key_def bip_cipher_def)
  have fc: "ieee80211_is_data_present (frame_control sample_hdr)"
    by (simp add: sample_hdr_def ieee80211_is_data_present_def)
  have tx: "tx_skb sample_tx = Some sample_skb" "info_flags sample_skb AND IEEE80211_TX_INTFL_DONT_ENCRYPT = 0"
    "tx_sta sample_tx = Some 5" "tx_sdata sample_tx = Some 2"
    by (simp_all add: sample_tx_def sample_skb_def)
  show ?thesis
    using data_frame_never_in_clear [OF tx(1-3) s(1-3) tx(4) sd sample_hdr_load fc nb] dk by auto
qed


section \<open>Facts about fragmentation\<close>

definition frag_payload :: "nat \<Rightarrow> sk_buff \<Rightarrow> u8 list" where
  "frag_payload hdrlen f = drop hdrlen (take (skb_len f) (skb_data f))"

lemma buf_write_drop:
  "buf_write bs off src = Inr bs' \<Longrightarrow> off + length src \<le> n \<Longrightarrow> drop n bs' = drop n bs"
  by (auto simp: buf_write_def split: if_splits)

lemma frag_written:
  assumes "length h + length d \<le> length mem"
  shows "\<exists>m1 m. buf_write mem 0 h = Inr m1 \<and> buf_write m1 (length h) d = Inr m \<and>
    take (length h) m = h \<and> drop (length h) (take (length h + length d) m) = d \<and> length m = length mem"
  using assms by (auto simp: buf_write_def)

lemma frag_loop_ok:
  assumes "0 < per" and "0 \<le> rem" and "0 \<le> pos" and "pos + rem \<le> int (length (skb_data skb))"
    and "hdrlen \<le> length (skb_data skb)" and "rem \<le> per * int (length allocs)"
    and "\<forall>m\<in>set allocs. int hdrlen + per \<le> int (length (snd m))"
  shows "\<exists>fs. frag_loop allocs skb hdrlen per pos rem skbs = Inr (0, skbs @ fs) \<and>
    concat (map (frag_payload hdrlen) fs) = take (nat rem) (drop (nat pos) (skb_data skb)) \<and>
    (0 < rem \<longrightarrow> fs \<noteq> []) \<and>
    (\<forall>f\<in>set fs. take hdrlen (skb_data f) = take hdrlen (skb_data skb) \<and>
       int (skb_len f) \<le> int hdrlen + per \<and> skb_len f \<le> length (skb_data f) \<and> hdrlen < skb_len f)"
  using assms
proof (induction allocs arbitrary: pos rem skbs)
  case Nil
  then show ?case by (subst frag_loop.simps) simp
next
  case (Cons hm allocs)
  obtain head mem where hm: "hm = (head, mem)" by fastforce
  show ?case
  proof (cases "rem = 0")
    case True
    then show ?thesis by (subst frag_loop.simps) simp
  next
    case False
    define fl where "fl = (if per > rem then rem else per)"
    have fl: "0 < fl" "fl \<le> per" "fl \<le> rem" using False Cons.prems by (auto simp: fl_def)
    let ?h = "take hdrlen (skb_data skb)" and ?d = "take (nat fl) (drop (nat pos) (skb_data skb))"
    have len: "length ?h = hdrlen" "length ?d = nat fl" using Cons.prems fl by auto
    have "length ?h + length ?d \<le> length mem" using len fl Cons.prems by (auto simp: hm)
    from frag_written [OF this] obtain m1 m where m: "buf_write mem 0 ?h = Inr m1"
        "buf_write m1 hdrlen ?d = Inr m" "take hdrlen m = ?h" "drop hdrlen (take (hdrlen + nat fl) m) = ?d"
        "length m = length mem"
      unfolding len by blast
    define g where "g = info_flags skb AND
         NOT (IEEE80211_TX_CTL_CLEAR_PS_FILT OR IEEE80211_TX_CTL_FIRST_FRAGMENT)"
    define tmp where "tmp = skb\<lparr>skb_head := head, skb_data := m, skb_len := hdrlen + nat fl, skb_protocol := 0,
         info_flags := (if rem - fl \<noteq> 0 then g OR IEEE80211_TX_CTL_MORE_FRAMES else g)\<rparr>"
    have step: "frag_loop (hm # allocs) skb hdrlen per pos rem skbs =
        frag_loop allocs skb hdrlen per (pos + fl) (rem - fl) (skbs @ [tmp])"
      using False Cons.prems fl m
      by (subst frag_loop.simps) (simp add: Let_def fl_def [symmetric] tmp_def g_def hm)
    have need: "rem - fl \<le> per * int (length allocs)"
      using Cons.prems fl by (auto simp: fl_def algebra_simps split: if_splits)
    obtain fs where fs: "frag_loop allocs skb hdrlen per (pos + fl) (rem - fl) (skbs @ [tmp]) = Inr (0, (skbs @ [tmp]) @ fs)"
        "concat (map (frag_payload hdrlen) fs) = take (nat (rem - fl)) (drop (nat (pos + fl)) (skb_data skb))"
        "\<forall>f\<in>set fs. take hdrlen (skb_data f) = take hdrlen (skb_data skb) \<and>
       int (skb_len f) \<le> int hdrlen + per \<and> skb_len f \<le> length (skb_data f) \<and> hdrlen < skb_len f"
      using Cons.IH [of "rem - fl" "pos + fl" "skbs @ [tmp]"] Cons.prems fl need by auto
    have pay: "frag_payload hdrlen tmp = ?d" using m by (simp add: frag_payload_def tmp_def)
    have "nat rem = nat fl + nat (rem - fl)" "nat (pos + fl) = nat fl + nat pos" using fl Cons.prems by auto
    then have "take (nat rem) (drop (nat pos) (skb_data skb)) =
        ?d @ take (nat (rem - fl)) (drop (nat (pos + fl)) (skb_data skb))"
      by (simp only: take_add drop_drop)
    moreover have "int (skb_len tmp) \<le> int hdrlen + per" "hdrlen < skb_len tmp"
        "skb_len tmp \<le> length (skb_data tmp)"
      using fl m(5) Cons.prems by (auto simp: tmp_def hm)
    ultimately show ?thesis
      using step fs pay m(3) by (intro exI [of _ "tmp # fs"]) (auto simp: tmp_def)
  qed
qed

lemma number_one:
  assumes "24 \<le> length bs" and "24 \<le> n" and "set_hdr_fc x bs = Inr b1" and "set_hdr_seq_ctrl y b1 = Inr b2"
  shows "hdr_fc b2 = Inr x" "hdr_seq_ctrl b2 = Inr y" "length b2 = length bs" "drop n b2 = drop n bs"
proof -
  show "hdr_fc b2 = Inr x" "hdr_seq_ctrl b2 = Inr y" "length b2 = length bs"
    using assms
    by (auto simp: set_hdr_fc_def set_hdr_seq_ctrl_def buf_write_def hdr_fc_def hdr_seq_ctrl_def arr_get_def
        nth_append le16_bytes_def split: if_splits)
  show "drop n b2 = drop n bs"
    using buf_write_drop [OF assms(4) [unfolded set_hdr_seq_ctrl_def], of n]
      buf_write_drop [OF assms(3) [unfolded set_hdr_fc_def], of n] assms(2) by simp
qed

text \<open>The sequence control and frame control fields of the fragments of one frame.\<close>

definition frag_seqs :: "u16 \<Rightarrow> nat \<Rightarrow> nat \<Rightarrow> u16 list" where
  "frag_seqs sc k n = map (\<lambda>i. sc OR (of_nat i AND IEEE80211_SCTL_FRAG)) [k..<k + n]"

definition frag_fcs :: "u16 \<Rightarrow> nat \<Rightarrow> u16 list" where
  "frag_fcs fc n = (if n = 0 then [] else
     replicate (n - 1) (fc OR IEEE80211_FCTL_MOREFRAGS) @ [fc AND NOT IEEE80211_FCTL_MOREFRAGS])"

lemma frag_fields_Suc:
  "frag_seqs sc k (Suc n) = (sc OR (of_nat k AND IEEE80211_SCTL_FRAG)) # frag_seqs sc (Suc k) n"
  "frag_fcs fc (Suc n) =
     (if n \<noteq> 0 then fc OR IEEE80211_FCTL_MOREFRAGS else fc AND NOT IEEE80211_FCTL_MOREFRAGS) # frag_fcs fc n"
  by (simp_all add: frag_seqs_def frag_fcs_def upt_conv_Cons Cons_replicate_eq del: upt_Suc) (cases n; simp)

lemma number_frags_ok:
  assumes "\<forall>f\<in>set fs. 24 \<le> length (skb_data f) \<and> hdr_fc (skb_data f) = Inr fc \<and> hdr_seq_ctrl (skb_data f) = Inr sc"
    and "24 \<le> hdrlen"
  shows "\<exists>fs'. number_frags k fs = Inr fs' \<and> map (frag_payload hdrlen) fs' = map (frag_payload hdrlen) fs \<and>
    map skb_len fs' = map skb_len fs \<and>
    map (\<lambda>f. hdr_seq_ctrl (skb_data f)) fs' = map Inr (frag_seqs sc k (length fs)) \<and>
    map (\<lambda>f. hdr_fc (skb_data f)) fs' = map Inr (frag_fcs fc (length fs))"
  using assms
proof (induction fs arbitrary: k)
  case Nil
  then show ?case by (simp add: frag_seqs_def frag_fcs_def)
next
  case (Cons f fs)
  obtain fs' where fs': "number_frags (Suc k) fs = Inr fs'"
    "map (frag_payload hdrlen) fs' = map (frag_payload hdrlen) fs" "map skb_len fs' = map skb_len fs"
    "map (\<lambda>f. hdr_seq_ctrl (skb_data f)) fs' = map Inr (frag_seqs sc (Suc k) (length fs))"
    "map (\<lambda>f. hdr_fc (skb_data f)) fs' = map Inr (frag_fcs fc (length fs))"
    using Cons.IH [of "Suc k"] Cons.prems by auto
  define x where "x = (if fs \<noteq> [] then fc OR IEEE80211_FCTL_MOREFRAGS else fc AND NOT IEEE80211_FCTL_MOREFRAGS)"
  define y where "y = sc OR (of_nat k AND IEEE80211_SCTL_FRAG)"
  have len: "24 \<le> length (skb_data f)" using Cons.prems by simp
  obtain b1 where b1: "set_hdr_fc x (skb_data f) = Inr b1" "length b1 = length (skb_data f)"
    using len by (auto simp: set_hdr_fc_def buf_write_def)
  obtain b2 where b2: "set_hdr_seq_ctrl y b1 = Inr b2"
    using len b1(2) by (auto simp: set_hdr_seq_ctrl_def buf_write_def)
  note n1 = number_one [OF len Cons.prems(2) b1(1) b2]
  define f0 where "f0 = (if fs \<noteq> []
                 then f\<lparr>info_rates_idx := (info_rates_idx f)[1 := - 1, 2 := - 1, 3 := - 1],
                          info_flags := info_flags f AND NOT IEEE80211_TX_CTL_RATE_CTRL_PROBE\<rparr> else f)"
  define f' where "f' = f0\<lparr>skb_data := b2\<rparr>"
  have "number_frags k (f # fs) = Inr (f' # fs')"
    using Cons.prems fs'(1) b1(1) b2 by (simp add: Let_def x_def y_def f'_def f0_def)
  moreover have "skb_len f' = skb_len f" "skb_data f' = b2" by (simp_all add: f'_def f0_def)
  moreover have "frag_payload hdrlen f' = frag_payload hdrlen f"
    using n1(4) by (simp add: frag_payload_def f'_def f0_def drop_take)
  ultimately show ?case
    using fs' n1 by (intro exI [of _ "f' # fs'"]) (simp add: frag_fields_Suc x_def y_def)
qed

lemma sint_small:
  fixes x :: u32
  assumes "unat x < 2 ^ 31"
  shows "sint x = int (unat x)"
proof -
  have u: "int (unat x) = uint x" by simp
  have "int (unat x) < int (2 ^ 31)" using assms by (simp only: of_nat_less_iff)
  then have "uint x < 2 ^ 31" by simp
  moreover have "0 \<le> uint x" by simp
  ultimately have "signed_take_bit 31 (uint x) = uint x"
    by (intro signed_take_bit_int_eq_self) linarith+
  then show ?thesis by (simp only: u sint_uint) simp
qed

lemma ieee80211_fragment_ok:
  assumes len: "skb_len skb \<le> length (skb_data skb)" and t: "hl + FCS_LEN < t" "t < skb_len skb + FCS_LEN"
    and mem: "\<forall>m\<in>set allocs. t \<le> length (snd m)" "skb_len skb \<le> length allocs"
  shows "\<exists>frags. ieee80211_fragment allocs [] skb hl (int t) = Inr (0, frags) \<and> 2 \<le> length frags \<and>
    concat (map (frag_payload hl) frags) = frag_payload hl skb \<and>
    (\<forall>f\<in>set frags. take hl (skb_data f) = take hl (skb_data skb) \<and> hl \<le> length (skb_data f) \<and>
       skb_len f + FCS_LEN \<le> t \<and> hl \<le> skb_len f \<and> skb_len f \<le> length (skb_data f))"
proof -
  define per where "per = int t - int hl - 4"
  have per: "0 < per" "int hl + per = int t - 4" "int (skb_len skb) - int hl - per > 0"
    using t by (auto simp: per_def)
  have "int (length allocs) \<le> per * int (length allocs)"
    using per(1) by (simp add: mult_le_cancel_right1)
  then have need: "int (skb_len skb) - int hl - per \<le> per * int (length allocs)"
    using mem(2) per(1) by linarith
  have room: "\<forall>m\<in>set allocs. int hl + per \<le> int (length (snd m))"
    using mem(1) per(2) by fastforce
  have rest: "0 \<le> int hl + per" "0 \<le> int (skb_len skb) - int hl - per"
    "int hl + per + (int (skb_len skb) - int hl - per) \<le> int (length (skb_data skb))"
    "hl \<le> length (skb_data skb)"
    using per len t by simp_all
  note loop = frag_loop_ok [where skbs = "[]", OF per(1) rest(2,1,3,4) need room]
  obtain fs where fs: "frag_loop allocs skb hl per (int hl + per) (int (skb_len skb) - int hl - per) [] = Inr (0, fs)"
      "concat (map (frag_payload hl) fs) =
         take (nat (int (skb_len skb) - int hl - per)) (drop (nat (int hl + per)) (skb_data skb))"
      "fs \<noteq> []" "\<forall>f\<in>set fs. take hl (skb_data f) = take hl (skb_data skb) \<and>
       int (skb_len f) \<le> int hl + per \<and> skb_len f \<le> length (skb_data f) \<and> hl < skb_len f"
    using loop [unfolded append_Nil] per(3) by blast
  define a where "a = nat (int hl + per)"
  have a: "hl \<le> a" "a \<le> skb_len skb" "nat (int (skb_len skb) - int hl - per) = skb_len skb - a" "a + 4 = t"
    using per t by (auto simp: a_def)
  let ?xs = "take (skb_len skb) (skb_data skb)" and ?s = "skb\<lparr>skb_len := a\<rparr>"
  have "ieee80211_fragment allocs [] skb hl (int t) = Inr (0, ?s # fs)"
    using fs(1) per a by (auto simp: ieee80211_fragment_def Let_def per_def a_def)
  moreover have "concat (map (frag_payload hl) (?s # fs)) = frag_payload hl skb"
  proof -
    have "concat (map (frag_payload hl) (?s # fs)) = drop hl (take a (skb_data skb)) @ drop a ?xs"
      by (simp only: list.map concat.simps fs(2) a(3)) (simp add: frag_payload_def a_def drop_take)
    also have "drop hl (take a (skb_data skb)) = drop hl (take a ?xs)" using a by (simp add: min_def)
    also have "drop hl (take a ?xs) @ drop a ?xs = drop hl (take a ?xs @ drop a ?xs)"
      using a len by (simp del: append_take_drop_id)
    also have "\<dots> = frag_payload hl skb" by (simp only: append_take_drop_id frag_payload_def)
    finally show ?thesis .
  qed
  moreover have "take hl (skb_data f) = take hl (skb_data skb) \<and> hl \<le> length (skb_data f) \<and> skb_len f + FCS_LEN \<le> t \<and>
      hl \<le> skb_len f \<and> skb_len f \<le> length (skb_data f)"
    if "f \<in> set (?s # fs)" for f
    using that fs(4) per(2) a len rest(4) by (cases "f \<in> set fs") fastforce+
  moreover have "2 \<le> length (?s # fs)" using fs(3) by (cases fs) auto
  ultimately show ?thesis by blast
qed

lemma hdr_fields_of_take:
  assumes "take n bs = take n cs" and "24 \<le> n" and "n \<le> length bs" "n \<le> length cs"
  shows "hdr_fc bs = hdr_fc cs" "hdr_seq_ctrl bs = hdr_seq_ctrl cs"
proof -
  have nth: "bs ! i = cs ! i" if "i < 24" for i
    using arg_cong [OF assms(1), of "\<lambda>xs. xs ! i"] that assms(2) by simp
  have "24 \<le> length bs" "24 \<le> length cs" using assms by linarith+
  then show "hdr_fc bs = hdr_fc cs" "hdr_seq_ctrl bs = hdr_seq_ctrl cs"
    by (auto simp: hdr_fc_def hdr_seq_ctrl_def arr_get_def nth)
qed

text \<open>The handler cuts the frame and numbers the pieces.\<close>

lemma tx_h_fragment_steps:
  assumes tx: "tx_skb tx = Some skb" "tx_skbs tx = []" "skb_len skb \<le> length (skb_data skb)"
      "info_flags skb AND IEEE80211_TX_CTL_DONTFRAG = 0" "info_flags skb AND IEEE80211_TX_CTL_AMPDU = 0"
    and fc: "hdr_fc (skb_data skb) = Inr fc" "\<not> ieee80211_is_ctl fc"
    and sc: "hdr_seq_ctrl (skb_data skb) = Inr sc"
    and thr: "unat thr < 2 ^ 31" "ieee80211_hdrlen fc + FCS_LEN < unat thr" "unat thr < skb_len skb + FCS_LEN"
      "skb_len skb + FCS_LEN < 2 ^ 32"
    and mem: "\<forall>m\<in>set allocs. unat thr \<le> length (snd m)" "skb_len skb \<le> length allocs"
  defines "hl \<equiv> ieee80211_hdrlen fc"
  shows "24 \<le> hl \<and> hl \<le> length (skb_data skb) \<and> (\<exists>fs frags. number_frags 0 fs = Inr frags \<and>
    ieee80211_tx_h_fragment False thr allocs tx = Inr (TX_CONTINUE, tx\<lparr>tx_skb := None, tx_skbs := frags\<rparr>) \<and> 2 \<le> length fs \<and>
    concat (map (frag_payload hl) fs) = frag_payload hl skb \<and>
    (\<forall>f\<in>set fs. take hl (skb_data f) = take hl (skb_data skb) \<and> hl \<le> length (skb_data f) \<and> skb_len f + FCS_LEN \<le> unat thr \<and>
       hl \<le> skb_len f \<and> skb_len f \<le> length (skb_data f) \<and> hdr_fc (skb_data f) = Inr fc \<and> hdr_seq_ctrl (skb_data f) = Inr sc))"
proof -
  have hl: "24 \<le> hl" "hl \<le> length (skb_data skb)"
    using fc(2) thr tx(3) by (auto simp: hl_def ieee80211_hdrlen_def Let_def)
  obtain fs where fs: "ieee80211_fragment allocs [] skb hl (int (unat thr)) = Inr (0, fs)" "2 \<le> length fs"
      "concat (map (frag_payload hl) fs) = frag_payload hl skb"
      "\<forall>f\<in>set fs. take hl (skb_data f) = take hl (skb_data skb) \<and> hl \<le> length (skb_data f) \<and>
       skb_len f + FCS_LEN \<le> unat thr \<and> hl \<le> skb_len f \<and> skb_len f \<le> length (skb_data f)"
    using ieee80211_fragment_ok [OF tx(3) thr(2,3) mem] unfolding hl_def by blast
  have hdr: "\<forall>f\<in>set fs. 24 \<le> length (skb_data f) \<and> hdr_fc (skb_data f) = Inr fc \<and> hdr_seq_ctrl (skb_data f) = Inr sc"
    using fs(4) hl hdr_fields_of_take [OF _ hl(1) _ hl(2)] fc(1) sc by (metis le_trans)
  from number_frags_ok [OF this hl(1), of 0] obtain frags where frags: "number_frags 0 fs = Inr frags" by blast
  have "unat (of_nat (skb_len skb + FCS_LEN) :: u32) = skb_len skb + FCS_LEN"
    by (simp only: unat_of_nat) (use thr(4) in simp)
  then have "\<not> of_nat (skb_len skb + FCS_LEN) \<le> thr"
    unfolding word_le_nat_alt using thr(3) by (simp only: not_le)
  then have "ieee80211_tx_h_fragment False thr allocs tx = Inr (TX_CONTINUE, tx\<lparr>tx_skb := None, tx_skbs := frags\<rparr>)"
    using tx fc(1) fs(1) frags(1) sint_small [OF thr(1)]
    by (simp add: ieee80211_tx_h_fragment_def tx_skb_of_def Let_def hl_def)
  then show ?thesis using hl frags fs(2-4) hdr by blast
qed

text \<open>
  Fragmentation loses nothing. A frame longer than the threshold is cut into at least two frames, none
  of which exceeds the threshold with its checksum; their payloads in order are the payload of the
  frame, they carry the frame's sequence number with fragment numbers counted from zero (modulo 16),
  and all but the last have the more-fragments bit set. The handler does not fault if the buffers it
  allocates are as large as it asks for and the allocations succeed.
\<close>

theorem tx_h_fragment_reassembles:
  assumes tx: "tx_skb tx = Some skb" "tx_skbs tx = []" "skb_len skb \<le> length (skb_data skb)"
      "info_flags skb AND IEEE80211_TX_CTL_DONTFRAG = 0" "info_flags skb AND IEEE80211_TX_CTL_AMPDU = 0"
    and fc: "hdr_fc (skb_data skb) = Inr fc" "\<not> ieee80211_is_ctl fc"
    and sc: "hdr_seq_ctrl (skb_data skb) = Inr sc"
    and thr: "unat thr < 2 ^ 31" "ieee80211_hdrlen fc + FCS_LEN < unat thr" "unat thr < skb_len skb + FCS_LEN"
      "skb_len skb + FCS_LEN < 2 ^ 32"
    and mem: "\<forall>m\<in>set allocs. unat thr \<le> length (snd m)" "skb_len skb \<le> length allocs"
  shows "\<exists>frags. ieee80211_tx_h_fragment False thr allocs tx = Inr (TX_CONTINUE, tx\<lparr>tx_skb := None, tx_skbs := frags\<rparr>) \<and>
    concat (map (frag_payload (ieee80211_hdrlen fc)) frags) = frag_payload (ieee80211_hdrlen fc) skb \<and>
    (\<forall>f\<in>set frags. skb_len f + FCS_LEN \<le> unat thr) \<and> 2 \<le> length frags \<and>
    map (\<lambda>f. hdr_seq_ctrl (skb_data f)) frags =
      map Inr (frag_seqs sc 0 (length frags)) \<and>
    map (\<lambda>f. hdr_fc (skb_data f)) frags = map Inr (frag_fcs fc (length frags))"
proof -
  let ?hl = "ieee80211_hdrlen fc"
  obtain fs frags where f: "24 \<le> ?hl" "number_frags 0 fs = Inr frags"
      "ieee80211_tx_h_fragment False thr allocs tx = Inr (TX_CONTINUE, tx\<lparr>tx_skb := None, tx_skbs := frags\<rparr>)" "2 \<le> length fs"
      "concat (map (frag_payload ?hl) fs) = frag_payload ?hl skb"
      "\<forall>f\<in>set fs. ?hl \<le> length (skb_data f) \<and> skb_len f + FCS_LEN \<le> unat thr \<and>
        hdr_fc (skb_data f) = Inr fc \<and> hdr_seq_ctrl (skb_data f) = Inr sc"
    using tx_h_fragment_steps [OF assms] by blast
  have "\<forall>f\<in>set fs. 24 \<le> length (skb_data f) \<and> hdr_fc (skb_data f) = Inr fc \<and> hdr_seq_ctrl (skb_data f) = Inr sc"
    using f(1,6) by (meson le_trans)
  from number_frags_ok [OF this f(1), of 0]
  have frags: "map (frag_payload ?hl) frags = map (frag_payload ?hl) fs" "map skb_len frags = map skb_len fs"
      "map (\<lambda>f. hdr_seq_ctrl (skb_data f)) frags = map Inr (frag_seqs sc 0 (length fs))"
      "map (\<lambda>f. hdr_fc (skb_data f)) frags = map Inr (frag_fcs fc (length fs))"
    using f(2) by auto
  have len: "length frags = length fs" using frags(2) map_eq_imp_length_eq by blast
  have "skb_len g + FCS_LEN \<le> unat thr" if "g \<in> set frags" for g
  proof -
    have "skb_len g \<in> set (map skb_len fs)" using that frags(2) by (metis image_eqI list.set_map)
    then show ?thesis using f(6) by auto
  qed
  then show ?thesis using f(3-5) frags(1,3,4) len by (intro exI [of _ frags]) simp
qed

text \<open>A 34-byte data frame cut at a threshold of 34 bytes (6 bytes of payload to a fragment).\<close>

theorem tx_h_fragment_reassembles_witness:
  "\<exists>frags. ieee80211_tx_h_fragment False 34 (replicate 40 ([], replicate 40 0)) sample_data_tx =
      Inr (TX_CONTINUE, sample_data_tx\<lparr>tx_skb := None, tx_skbs := frags\<rparr>) \<and>
    concat (map (frag_payload 24) frags) = [0, 0, 0, 0, 0, 0, 1, 2, 3, 4]"
proof -
  let ?skb = "sample_skb\<lparr>skb_data := hdr_bytes sample_data_hdr @ [1, 2, 3, 4]\<rparr>"
  have fields: "hdr_fc (skb_data ?skb) = Inr 0x4108" "hdr_seq_ctrl (skb_data ?skb) = Inr 0x10"
    using hdr_load_fields [OF hdr_load_append [of sample_data_hdr "[1, 2, 3, 4]"]]
    by (simp_all add: sample_data_hdr_def sample_hdr_def)
  have fc: "\<not> ieee80211_is_ctl 0x4108" "ieee80211_hdrlen 0x4108 = 24"
    by (simp_all add: ieee80211_hdrlen_def ieee80211_is_ctl_def ieee80211_is_data_def ieee80211_has_a4_def
        ieee80211_is_data_qos_def)
  have "frag_payload 24 ?skb = [0, 0, 0, 0, 0, 0, 1, 2, 3, 4]"
    by (simp add: frag_payload_def sample_skb_def sample_data_hdr_def sample_hdr_def hdr_bytes_def le16_bytes_def
        sample_iface_def sample_base_def)
  then show ?thesis
    using tx_h_fragment_reassembles [of sample_data_tx ?skb "0x4108" "0x10" 34 "replicate 40 ([], replicate 40 0)"]
      fields fc by (auto simp: sample_data_tx_def sample_tx_def sample_skb_def)
qed

end
