(* ===== verification/Packet_Number.thy ===== *)
theory Packet_Number
  imports Mac80211_State
begin

text \<open>
  Packet numbers as the ciphers of \<^verbatim>\<open>net/mac80211/wpa.c\<close> handle them: 48-bit counters as six bytes,
  most significant first, compared with \<open>memcmp\<close>. Two interfaces are stated as locales: the
  placing of a packet number in a security header (\<open>pn_codec\<close>) and replay protection
  (\<open>replay_filter\<close>), whose consequence for a whole run of received frames is proved once.
\<close>

section \<open>Bytes and numbers\<close>

text \<open>Only the sign of \<open>memcmp\<close> is used; it compares as many bytes as both arguments have.\<close>

fun memcmp :: "u8 list \<Rightarrow> u8 list \<Rightarrow> int" where
  "memcmp (a # as) (b # bs) = (if a < b then - 1 else if b < a then 1 else memcmp as bs)"
| "memcmp _ _ = 0"

fun be_nat :: "u8 list \<Rightarrow> nat" where
  "be_nat [] = 0"
| "be_nat (b # bs) = unat b * 256 ^ length bs + be_nat bs"

text \<open>The assignments \<^verbatim>\<open>pn[5] = pn64; ... pn[0] = pn64 >> 40\<close>.\<close>

definition pn_be_bytes :: "u64 \<Rightarrow> u8 list" where
  "pn_be_bytes pn64 =
     [ucast (drop_bit 40 pn64), ucast (drop_bit 32 pn64), ucast (drop_bit 24 pn64),
      ucast (drop_bit 16 pn64), ucast (drop_bit 8 pn64), ucast pn64]"

lemma length_pn_be_bytes [simp]: "length (pn_be_bytes x) = 6"
  by (simp add: pn_be_bytes_def)

lemma be_nat_zeros [simp]: "be_nat (replicate n 0) = 0"
  by (induction n) simp_all

lemma be_nat_bound: "be_nat bs < 256 ^ length bs"
proof (induction bs)
  case (Cons b bs)
  have "unat b < 2 ^ LENGTH(8)" by (rule unsigned_less)
  then have "unat b \<le> 255" by simp
  then have "unat b * 256 ^ length bs \<le> 255 * 256 ^ length bs" by (rule mult_le_mono1)
  with Cons have "unat b * 256 ^ length bs + be_nat bs < 255 * 256 ^ length bs + 256 ^ length bs"
    by (rule add_le_less_mono [rotated])
  then show ?case by simp
qed simp

lemma memcmp_be_nat:
  assumes "length as = length bs"
  shows "memcmp as bs = (if be_nat as < be_nat bs then - 1 else if be_nat bs < be_nat as then 1 else 0)"
  using assms
proof (induction as bs rule: list_induct2)
  case (Cons a as b bs)
  have less: "unat x * 256 ^ length bs + p < unat y * 256 ^ length bs + q"
    if "x < y" "p < 256 ^ length bs" for x y :: u8 and p q :: nat
  proof -
    have "Suc (unat x) \<le> unat y" using that(1) by (simp add: word_less_nat_alt Suc_le_eq)
    then have "Suc (unat x) * 256 ^ length bs \<le> unat y * 256 ^ length bs" by (rule mult_le_mono1)
    with that(2) show ?thesis by simp
  qed
  consider "a < b" | "b < a" | "a = b" by fastforce
  then show ?case
  proof cases
    case 1
    then show ?thesis using less [OF 1 be_nat_bound [of as, unfolded Cons.hyps], of "be_nat bs"] Cons.hyps by simp
  next
    case 2
    then show ?thesis using less [OF 2 be_nat_bound [of bs], of "be_nat as"] Cons.hyps by auto
  next
    case 3
    then show ?thesis using Cons by simp
  qed
qed simp

lemma unat_pn_byte: "unat (ucast (drop_bit k x) :: u8) = unat x div 2 ^ k mod 256" for x :: u64
proof -
  have "unat (drop_bit k x) = unat x div 2 ^ k"
    by (simp only: unsigned_drop_bit_eq take_bit_nat_eq_self [OF unsigned_less] drop_bit_eq_div [of k "unat x"])
  then show ?thesis by (simp only: unsigned_ucast_eq take_bit_eq_mod) simp
qed

lemma be_nat_pn: "be_nat (pn_be_bytes x) = unat x mod 2 ^ 48"
proof -
  let ?n = "unat x"
  have digit: "?n mod (2 ^ k * 256) = ?n div 2 ^ k mod 256 * 2 ^ k + ?n mod 2 ^ k" for k
    by (simp add: mod_mult2_eq mult.commute)
  have "unat (ucast x :: u8) = ?n mod 256"
    using unat_pn_byte [of 0 x] by simp
  then show ?thesis
    using digit [of 40] digit [of 32] digit [of 24] digit [of 16] digit [of 8]
    by (simp add: pn_be_bytes_def unat_pn_byte)
qed

lemma be_nat_inj: "length as = length bs \<Longrightarrow> be_nat as = be_nat bs \<Longrightarrow> as = bs"
proof (induction as bs rule: list_induct2)
  case (Cons a as b bs)
  have m: "be_nat as mod 256 ^ length bs = be_nat as" "be_nat bs mod 256 ^ length bs = be_nat bs"
    using be_nat_bound [of as] be_nat_bound [of bs] Cons.hyps by simp_all
  have "(unat a * 256 ^ length bs + be_nat as) mod 256 ^ length bs = (unat b * 256 ^ length bs + be_nat bs) mod 256 ^ length bs"
    using Cons by simp
  then have eq: "be_nat as = be_nat bs" using m by simp
  then have "unat a = unat b" using Cons by simp
  with eq Cons show ?case by (simp add: word_unat_eq_iff)
qed simp

section \<open>Security headers\<close>

locale pn_codec =
  fixes pn2hdr :: "u8 list \<Rightarrow> u8 \<Rightarrow> u8 list" and hdr2pn :: "u8 list \<Rightarrow> u8 list"
  assumes pn2hdr_length: "length pn = 6 \<Longrightarrow> length (pn2hdr pn key_id) = 8"
    and hdr2pn_length: "length (hdr2pn hdr) = 6"
    and hdr2pn_pn2hdr: "length pn = 6 \<Longrightarrow> hdr2pn (pn2hdr pn key_id) = pn"

section \<open>Replay protection\<close>

text \<open>
  A receiver step takes a frame and the receiver's state and says whether the frame is accepted.
  The provider promises that an accepted frame has a packet number above the last one and
  becomes the last one, and that a rejected frame leaves the last one alone.
\<close>

text \<open>The frames of a sequence that a receiver accepts, and its final state.\<close>

fun recv_all :: "('f \<Rightarrow> 's \<Rightarrow> bool \<times> 's) \<Rightarrow> 'f list \<Rightarrow> 's \<Rightarrow> 'f list \<times> 's" where
  "recv_all recv [] s = ([], s)"
| "recv_all recv (f # fs) s =
     (case recv f s of (ok, s') \<Rightarrow>
        (case recv_all recv fs s' of (acc, s'') \<Rightarrow> (if ok then f # acc else acc, s'')))"

locale replay_filter =
  fixes recv :: "'f \<Rightarrow> 's \<Rightarrow> bool \<times> 's" and pn_of :: "'f \<Rightarrow> nat" and last_pn :: "'s \<Rightarrow> nat"
    and inv :: "'s \<Rightarrow> bool"
  assumes accept: "inv s \<Longrightarrow> recv f s = (True, s') \<Longrightarrow> last_pn s < pn_of f \<and> last_pn s' = pn_of f \<and> inv s'"
    and reject: "inv s \<Longrightarrow> recv f s = (False, s') \<Longrightarrow> last_pn s \<le> last_pn s' \<and> inv s'"
begin

lemma recv_all_increasing:
  "inv s \<Longrightarrow> recv_all recv fs s = (acc, s') \<Longrightarrow>
     sorted_wrt (<) (map pn_of acc) \<and> (\<forall>f\<in>set acc. last_pn s < pn_of f) \<and> last_pn s \<le> last_pn s' \<and>
     (\<forall>f\<in>set acc. pn_of f \<le> last_pn s') \<and> inv s'"
proof (induction fs arbitrary: s acc s')
  case (Cons f fs)
  obtain ok s1 where r: "recv f s = (ok, s1)" by fastforce
  obtain acc1 where a: "recv_all recv fs s1 = (acc1, s')" "acc = (if ok then f # acc1 else acc1)"
    using Cons.prems r by (auto split: prod.splits if_splits)
  show ?case
  proof (cases ok)
    case True
    then have "last_pn s < pn_of f" "last_pn s1 = pn_of f" "inv s1"
      using accept [of s f s1] r Cons.prems(1) by simp_all
    then show ?thesis using Cons.IH [OF _ a(1)] a(2) True by auto
  next
    case False
    then have "last_pn s \<le> last_pn s1" "inv s1" using reject [of s f s1] r Cons.prems(1) by simp_all
    then show ?thesis using Cons.IH [OF _ a(1)] a(2) False by fastforce
  qed
qed simp

lemma replay_rejected:
  assumes "inv s" and "recv f s = (True, s1)" and "recv_all recv fs s1 = (acc, s2)" and "recv f s2 = (ok, s3)"
  shows "\<not> ok"
proof
  assume ok
  have 1: "last_pn s1 = pn_of f" "inv s1" using accept [OF assms(1,2)] by simp_all
  then have 2: "last_pn s1 \<le> last_pn s2" "inv s2" using recv_all_increasing [OF _ assms(3)] by simp_all
  then have "last_pn s2 < pn_of f" using accept [OF 2(2), of f s3] assms(4) \<open>ok\<close> by simp
  with 1(1) 2(1) show False by simp
qed

end

end
