(* ===== verification/Ccmp.thy ===== *)
theory Ccmp
  imports Tx Packet_Number
begin

text \<open>
  CCMP and GCMP of \<^verbatim>\<open>net/mac80211/wpa.c\<close> with the wrappers of \<^verbatim>\<open>aead_api.c\<close>, \<^verbatim>\<open>aes_ccm.h\<close> and
  \<^verbatim>\<open>aes_gcm.h\<close>. The two ciphers have the same code around different nonces, so the handling of a
  buffer is defined once, with the security header and the special blocks as arguments. The
  authenticated cipher itself belongs to the kernel's crypto API and is a parameter.
\<close>

section \<open>Reception data\<close>

datatype ieee80211_rx_result = RX_CONTINUE | RX_DROP_UNUSABLE | RX_DROP_MONITOR | RX_QUEUED

record ieee80211_rx_data =
  rx_skb :: sk_buff
  rx_sdata :: "sdata_ptr option"
  rx_sta :: "sta_ptr option"
  rx_key :: "key_ptr option"
  rx_status_flag :: u32
  rx_status_rx_flags :: u8
  seqno_idx :: nat
  security_idx :: nat
  rx_tkip_iv32 :: u32
  rx_tkip_iv16 :: u16

abbreviation (input) RX_FLAG_MMIC_ERROR :: u32 where "RX_FLAG_MMIC_ERROR \<equiv> 0x00000001"
abbreviation (input) RX_FLAG_DECRYPTED :: u32 where "RX_FLAG_DECRYPTED \<equiv> 0x00000002"
abbreviation (input) RX_FLAG_MMIC_STRIPPED :: u32 where "RX_FLAG_MMIC_STRIPPED \<equiv> 0x00000008"
abbreviation (input) RX_FLAG_IV_STRIPPED :: u32 where "RX_FLAG_IV_STRIPPED \<equiv> 0x00000010"
abbreviation (input) RX_FLAG_PN_VALIDATED :: u32 where "RX_FLAG_PN_VALIDATED \<equiv> 0x00000400"
abbreviation (input) RX_FLAG_MIC_STRIPPED :: u32 where "RX_FLAG_MIC_STRIPPED \<equiv> 0x00200000"
abbreviation (input) RX_FLAG_ALLOW_SAME_PN :: u32 where "RX_FLAG_ALLOW_SAME_PN \<equiv> 0x00400000"
abbreviation (input) IEEE80211_KEY_FLAG_GENERATE_IV_MGMT :: u16 where "IEEE80211_KEY_FLAG_GENERATE_IV_MGMT \<equiv> 0x0001"
abbreviation (input) IEEE80211_KEY_FLAG_GENERATE_IV :: u16 where "IEEE80211_KEY_FLAG_GENERATE_IV \<equiv> 0x0002"
abbreviation (input) IEEE80211_KEY_FLAG_PUT_IV_SPACE :: u16 where "IEEE80211_KEY_FLAG_PUT_IV_SPACE \<equiv> 0x0020"
abbreviation (input) IEEE80211_FCTL_PROTECTED :: u16 where "IEEE80211_FCTL_PROTECTED \<equiv> 0x4000"
abbreviation (input) IEEE80211_CCMP_HDR_LEN :: nat where "IEEE80211_CCMP_HDR_LEN \<equiv> 8"
abbreviation (input) IEEE80211_GCMP_MIC_LEN :: nat where "IEEE80211_GCMP_MIC_LEN \<equiv> 16"

section \<open>The cipher\<close>

text \<open>
  \<open>seal key nonce aad data\<close> is the ciphertext and the tag, \<open>open key nonce aad data tag\<close> the plaintext or
  a failed authentication; \<open>req_alloc\<close> says whether the request can be allocated.
\<close>

record aead =
  seal :: "u8 list \<Rightarrow> u8 list \<Rightarrow> u8 list \<Rightarrow> u8 list \<Rightarrow> u8 list \<times> u8 list"
  open_tag :: "u8 list \<Rightarrow> u8 list \<Rightarrow> u8 list \<Rightarrow> u8 list \<Rightarrow> u8 list \<Rightarrow> u8 list option"
  req_alloc :: bool

definition be16_bytes :: "u16 \<Rightarrow> u8 list" where
  "be16_bytes x = [ucast (drop_bit 8 x), ucast x]"

text \<open>
  \<open>ieee80211_aes_ccm_encrypt\<close> and \<open>ieee80211_aes_gcm_encrypt\<close>: the length of the additional data is in
  the first two bytes of the block, the data behind them. The functions work in place on the bytes
  \<open>bs\<close> of the buffer: the data at \<open>pos\<close>, the tag right behind it.
\<close>

definition aead_aad :: "u8 list \<Rightarrow> u8 list result" where
  "aead_aad aad =
     rbind (arr_get aad 0) (\<lambda>hi. rbind (arr_get aad 1) (\<lambda>lo.
     let n = 256 * unat hi + unat lo
     in if 2 + n \<le> length aad then Inr (take n (drop 2 aad)) else Inl OutOfBounds))"

definition aead_encrypt ::
  "aead \<Rightarrow> u8 list \<Rightarrow> u8 list \<Rightarrow> u8 list \<Rightarrow> nat \<Rightarrow> nat \<Rightarrow> u8 list \<Rightarrow> (int \<times> u8 list) result" where
  "aead_encrypt C key b_0 aad pos data_len bs =
     rbind (aead_aad aad) (\<lambda>aad.
     if \<not> req_alloc C then Inr (- 12, bs)
     else
       (case seal C key b_0 aad (take data_len (drop pos bs)) of (ct, mic) \<Rightarrow>
          rbind (buf_write bs pos ct) (\<lambda>bs.
          rbind (buf_write bs (pos + data_len) mic) (\<lambda>bs. Inr (0, bs)))))"

definition aead_decrypt ::
  "aead \<Rightarrow> u8 list \<Rightarrow> u8 list \<Rightarrow> u8 list \<Rightarrow> nat \<Rightarrow> nat \<Rightarrow> nat \<Rightarrow> u8 list \<Rightarrow> (int \<times> u8 list) result" where
  "aead_decrypt C key b_0 aad pos data_len mic_len bs =
     (if data_len = 0 then Inr (- 22, bs)
      else
        rbind (aead_aad aad) (\<lambda>aad.
        if \<not> req_alloc C then Inr (- 12, bs)
        else
          (case open_tag C key b_0 aad (take data_len (drop pos bs)) (take mic_len (drop (pos + data_len) bs)) of
             None \<Rightarrow> Inr (- 74, bs)
           | Some pt \<Rightarrow> rbind (buf_write bs pos pt) (\<lambda>bs. Inr (0, bs)))))"

section \<open>Nonces and security headers\<close>

text \<open>The masked frame control field of the additional authenticated data.\<close>

definition aad_mask_fc :: "u16 \<Rightarrow> u16" where
  "aad_mask_fc fc =
     (let mask_fc = fc AND NOT (0x0800 OR 0x1000 OR 0x2000);
          mask_fc = (if \<not> ieee80211_is_mgmt fc then mask_fc AND NOT 0x0070 else mask_fc)
      in mask_fc OR IEEE80211_FCTL_PROTECTED)"

text \<open>FC | A1 | A2 | A3 | SC | [A4] | [QC], after the two length bytes.\<close>

definition mpdu_aad :: "ieee80211_hdr \<Rightarrow> u8 \<Rightarrow> u8 list" where
  "mpdu_aad hdr qos_tid =
     be16_bytes (of_nat (ieee80211_hdrlen (frame_control hdr) - 2)) @
     le16_bytes (aad_mask_fc (frame_control hdr)) @
     mac_bytes (addr1 hdr) @ mac_bytes (addr2 hdr) @ mac_bytes (addr3 hdr) @
     [ucast (seq_ctrl hdr) AND 0x0f, 0] @
     (if ieee80211_has_a4 (frame_control hdr) then mac_bytes (addr4 hdr) @ [qos_tid, 0]
      else qos_tid # replicate 7 0)"

definition mpdu_qos_tid :: "u16 \<Rightarrow> u8 list \<Rightarrow> u8 result" where
  "mpdu_qos_tid fc bs = (if ieee80211_is_data_qos fc then ieee80211_get_tid bs else Inr 0)"

text \<open>
  The nonce is the part of \<open>b_0\<close> the CCM layer does not overwrite: the flags byte with L, the nonce flags,
  A2 and the packet number. That of GCM is the 12-byte initialisation vector at the start of \<open>j_0\<close>.
\<close>

definition ccmp_special_blocks :: "u8 list \<Rightarrow> u8 list \<Rightarrow> (u8 list \<times> u8 list) result" where
  "ccmp_special_blocks bs pn =
     rbind (hdr_load bs) (\<lambda>hdr.
     rbind (mpdu_qos_tid (frame_control hdr) bs) (\<lambda>qos_tid.
     Inr ([0x1, qos_tid OR (if ieee80211_is_mgmt (frame_control hdr) then 0x10 else 0)] @
            mac_bytes (addr2 hdr) @ pn,
          mpdu_aad hdr qos_tid)))"

definition gcmp_special_blocks :: "u8 list \<Rightarrow> u8 list \<Rightarrow> (u8 list \<times> u8 list) result" where
  "gcmp_special_blocks bs pn =
     rbind (hdr_load bs) (\<lambda>hdr.
     rbind (mpdu_qos_tid (frame_control hdr) bs) (\<lambda>qos_tid.
     Inr (mac_bytes (addr2 hdr) @ pn, mpdu_aad hdr qos_tid)))"

definition ccmp_pn2hdr :: "u8 list \<Rightarrow> u8 \<Rightarrow> u8 list" where
  "ccmp_pn2hdr pn key_id =
     [pn ! 5, pn ! 4, 0, 0x20 OR push_bit 6 key_id, pn ! 3, pn ! 2, pn ! 1, pn ! 0]"

definition ccmp_hdr2pn :: "u8 list \<Rightarrow> u8 list" where
  "ccmp_hdr2pn hdr = [hdr ! 7, hdr ! 6, hdr ! 5, hdr ! 4, hdr ! 1, hdr ! 0]"

definition gcmp_pn2hdr :: "u8 list \<Rightarrow> u8 \<Rightarrow> u8 list" where
  "gcmp_pn2hdr pn key_id =
     [pn ! 5, pn ! 4, 0, 0x20 OR push_bit 6 key_id, pn ! 3, pn ! 2, pn ! 1, pn ! 0]"

definition gcmp_hdr2pn :: "u8 list \<Rightarrow> u8 list" where
  "gcmp_hdr2pn hdr = [hdr ! 7, hdr ! 6, hdr ! 5, hdr ! 4, hdr ! 1, hdr ! 0]"

section \<open>Encryption\<close>

text \<open>\<^verbatim>\<open>atomic64_inc_return(&key->conf.tx_pn)\<close>\<close>

definition inc_tx_pn :: "key_ptr \<Rightarrow> world \<Rightarrow> (u64 \<times> world) result" where
  "inc_tx_pn kp w =
     rbind (deref (keys w) kp) (\<lambda>k.
     let pn = conf_tx_pn k + 1 in Inr (pn, put_key kp (k\<lparr>conf_tx_pn := pn\<rparr>) w))"

text \<open>The flags of \<open>info->control.hw_key\<close>, if it is set.\<close>

definition hw_key_flags :: "world \<Rightarrow> sk_buff \<Rightarrow> u16 option result" where
  "hw_key_flags w skb =
     (case info_hw_key skb of
        None \<Rightarrow> Inr None
      | Some p \<Rightarrow> rbind (deref (keys w) p) (\<lambda>k. Inr (Some (conf_flags k))))"

text \<open>\<^verbatim>\<open>memmove(pos, pos + n, hdrlen)\<close> after \<open>skb_push\<close>: the header moves to the new start.\<close>

definition move_hdr_down :: "nat \<Rightarrow> nat \<Rightarrow> u8 list \<Rightarrow> u8 list result" where
  "move_hdr_down n hdrlen bs =
     (if n + hdrlen \<le> length bs then Inr (take hdrlen (drop n bs) @ drop hdrlen bs) else Inl OutOfBounds)"

definition mpdu_encrypt_skb ::
  "(u8 list \<Rightarrow> u8 \<Rightarrow> u8 list) \<Rightarrow> (u8 list \<Rightarrow> u8 list \<Rightarrow> (u8 list \<times> u8 list) result) \<Rightarrow>
     aead \<Rightarrow> nat \<Rightarrow> key_ptr \<Rightarrow> sk_buff \<Rightarrow> world \<Rightarrow> (int \<times> sk_buff \<times> world) result" where
  "mpdu_encrypt_skb pn2hdr special C mic_len kp skb w =
     rbind (hdr_fc (skb_data skb)) (\<lambda>fc.
     rbind (hw_key_flags w skb) (\<lambda>hw.
     if (case hw of None \<Rightarrow> False
         | Some f \<Rightarrow> f AND IEEE80211_KEY_FLAG_GENERATE_IV = 0 \<and> f AND IEEE80211_KEY_FLAG_PUT_IV_SPACE = 0 \<and>
             \<not> (f AND IEEE80211_KEY_FLAG_GENERATE_IV_MGMT \<noteq> 0 \<and> ieee80211_is_mgmt fc))
     then Inr (0, skb, w)
     else
       let hdrlen = ieee80211_hdrlen fc;
           len = skb_len skb - hdrlen;
           tail = (if hw \<noteq> None then 0 else mic_len)
       in if skb_tailroom skb < tail \<or> skb_headroom skb < IEEE80211_CCMP_HDR_LEN then Inr (- 1, skb, w)
          else
            rbind (skb_push IEEE80211_CCMP_HDR_LEN skb) (\<lambda>skb'.
            rbind (move_hdr_down IEEE80211_CCMP_HDR_LEN hdrlen (skb_data skb')) (\<lambda>bs.
            if (case hw of None \<Rightarrow> False | Some f \<Rightarrow> f AND IEEE80211_KEY_FLAG_PUT_IV_SPACE \<noteq> 0)
            then Inr (0, skb'\<lparr>skb_data := bs\<rparr>, w)
            else
              rbind (deref (keys w) kp) (\<lambda>key.
              rbind (inc_tx_pn kp w) (\<lambda>(pn64, w).
              let pn = pn_be_bytes pn64 in
              rbind (buf_write bs hdrlen (pn2hdr pn (conf_keyidx key))) (\<lambda>bs.
              if hw \<noteq> None then Inr (0, skb'\<lparr>skb_data := bs\<rparr>, w)
              else
                rbind (special bs pn) (\<lambda>(b_0, aad).
                rbind (skb_put mic_len (skb'\<lparr>skb_data := bs\<rparr>)) (\<lambda>skb'.
                if skb_len skb < hdrlen then Inl OutOfBounds
                else
                  rbind (aead_encrypt C (conf_key key) b_0 aad (hdrlen + IEEE80211_CCMP_HDR_LEN) len bs)
                    (\<lambda>(ret, bs). Inr (ret, skb'\<lparr>skb_data := bs\<rparr>, w)))))))))))"

definition ccmp_encrypt_skb ::
  "aead \<Rightarrow> nat \<Rightarrow> key_ptr \<Rightarrow> sk_buff \<Rightarrow> world \<Rightarrow> (int \<times> sk_buff \<times> world) result" where
  "ccmp_encrypt_skb = mpdu_encrypt_skb ccmp_pn2hdr ccmp_special_blocks"

definition gcmp_encrypt_skb ::
  "aead \<Rightarrow> key_ptr \<Rightarrow> sk_buff \<Rightarrow> world \<Rightarrow> (int \<times> sk_buff \<times> world) result" where
  "gcmp_encrypt_skb C = mpdu_encrypt_skb gcmp_pn2hdr gcmp_special_blocks C IEEE80211_GCMP_MIC_LEN"

text \<open>\<open>ieee80211_tx_set_protected\<close> of \<^verbatim>\<open>util.c\<close>: the protected bit of every buffer of the queue.\<close>

fun set_protected :: "sk_buff list \<Rightarrow> sk_buff list result" where
  "set_protected [] = Inr []"
| "set_protected (skb # rest) =
     rbind (hdr_fc (skb_data skb)) (\<lambda>fc.
     rbind (set_hdr_fc (fc OR IEEE80211_FCTL_PROTECTED) (skb_data skb)) (\<lambda>bs.
     rbind (set_protected rest) (\<lambda>rest. Inr (skb\<lparr>skb_data := bs\<rparr> # rest))))"

text \<open>The walk that encrypts every buffer and gives up at the first failure.\<close>

fun encrypt_walk ::
  "(sk_buff \<Rightarrow> world \<Rightarrow> (int \<times> sk_buff \<times> world) result) \<Rightarrow> sk_buff list \<Rightarrow> world \<Rightarrow>
     (ieee80211_tx_result \<times> sk_buff list \<times> world) result" where
  "encrypt_walk enc [] w = Inr (TX_CONTINUE, [], w)"
| "encrypt_walk enc (skb # rest) w =
     rbind (enc skb w) (\<lambda>(ret, skb, w).
     if ret < 0 then Inr (TX_DROP, skb # rest, w)
     else rbind (encrypt_walk enc rest w) (\<lambda>(res, rest, w). Inr (res, skb # rest, w)))"

definition crypto_encrypt ::
  "(key_ptr \<Rightarrow> sk_buff \<Rightarrow> world \<Rightarrow> (int \<times> sk_buff \<times> world) result) \<Rightarrow> ieee80211_tx_data \<Rightarrow> world \<Rightarrow>
     (ieee80211_tx_result \<times> ieee80211_tx_data \<times> world) result" where
  "crypto_encrypt enc tx w =
     rbind (set_protected (tx_skbs tx)) (\<lambda>skbs.
     case tx_key tx of
       None \<Rightarrow> Inl NullDeref
     | Some kp \<Rightarrow>
         rbind (encrypt_walk (enc kp) skbs w) (\<lambda>(res, skbs, w). Inr (res, tx\<lparr>tx_skbs := skbs\<rparr>, w)))"

definition ieee80211_crypto_ccmp_encrypt ::
  "aead \<Rightarrow> nat \<Rightarrow> ieee80211_tx_data \<Rightarrow> world \<Rightarrow> (ieee80211_tx_result \<times> ieee80211_tx_data \<times> world) result" where
  "ieee80211_crypto_ccmp_encrypt C mic_len = crypto_encrypt (ccmp_encrypt_skb C mic_len)"

definition ieee80211_crypto_gcmp_encrypt ::
  "aead \<Rightarrow> ieee80211_tx_data \<Rightarrow> world \<Rightarrow> (ieee80211_tx_result \<times> ieee80211_tx_data \<times> world) result" where
  "ieee80211_crypto_gcmp_encrypt C = crypto_encrypt (gcmp_encrypt_skb C)"

section \<open>Decryption\<close>

text \<open>Removal of header and tag: the header moves over the security header, which is pulled off.\<close>

definition strip_mpdu :: "nat \<Rightarrow> nat \<Rightarrow> nat \<Rightarrow> sk_buff \<Rightarrow> sk_buff result" where
  "strip_mpdu n hdrlen mic_len skb =
     (let skb = skb_trim (skb_len skb - mic_len) skb in
      rbind (buf_write (skb_data skb) n (take hdrlen (skb_data skb))) (\<lambda>bs.
      Inr (skb_pull n (skb\<lparr>skb_data := bs\<rparr>))))"

definition mpdu_decrypt ::
  "(u8 list \<Rightarrow> u8 list) \<Rightarrow> (u8 list \<Rightarrow> u8 list \<Rightarrow> (u8 list \<times> u8 list) result) \<Rightarrow>
     aead \<Rightarrow> nat \<Rightarrow> ieee80211_rx_data \<Rightarrow> world \<Rightarrow> (ieee80211_rx_result \<times> ieee80211_rx_data \<times> world) result" where
  "mpdu_decrypt hdr2pn special C mic_len rx w =
     (let skb = rx_skb rx;
          flag = rx_status_flag rx;
          decrypted = (flag AND RX_FLAG_DECRYPTED \<noteq> 0)
      in rbind (hdr_fc (skb_data skb)) (\<lambda>fc.
         rbind (if ieee80211_is_data fc then Inr True
                else ieee80211_is_robust_mgmt_frame (skb_len skb) (skb_data skb)) (\<lambda>handled.
         if \<not> handled then Inr (RX_CONTINUE, rx, w)
         else
           let hdrlen = ieee80211_hdrlen fc in
           if decrypted \<and> skb_len skb < hdrlen + IEEE80211_CCMP_HDR_LEN then Inr (RX_DROP_UNUSABLE, rx, w)
           else
             let mic_len = (if decrypted \<and> flag AND RX_FLAG_MIC_STRIPPED \<noteq> 0 then 0 else mic_len) in
             if rx_sta rx = None \<or> skb_len skb < hdrlen + IEEE80211_CCMP_HDR_LEN + mic_len
             then Inr (RX_DROP_UNUSABLE, rx, w)
             else
               let data_len = skb_len skb - hdrlen - IEEE80211_CCMP_HDR_LEN - mic_len in
               if flag AND RX_FLAG_PN_VALIDATED \<noteq> 0 then
                 rbind (strip_mpdu IEEE80211_CCMP_HDR_LEN hdrlen mic_len skb) (\<lambda>skb.
                 Inr (RX_CONTINUE, rx\<lparr>rx_skb := skb\<rparr>, w))
               else
                 (case rx_key rx of
                    None \<Rightarrow> Inl NullDeref
                  | Some kp \<Rightarrow>
                      rbind (deref (keys w) kp) (\<lambda>key.
                      rbind (if hdrlen + 8 \<le> length (skb_data skb) then Inr () else Inl OutOfBounds) (\<lambda>_.
                      let pn = hdr2pn (take 8 (drop hdrlen (skb_data skb))) in
                      rbind (arr_get (key_rx_pn key) (security_idx rx)) (\<lambda>last.
                      let res = memcmp pn last in
                      if res < 0 \<or> res = 0 \<and> flag AND RX_FLAG_ALLOW_SAME_PN = 0
                      then Inr (RX_DROP_UNUSABLE, rx, put_key kp (key\<lparr>key_replays := key_replays key + 1\<rparr>) w)
                      else
                        rbind (if decrypted then Inr (0, skb_data skb)
                               else
                                 rbind (special (skb_data skb) pn) (\<lambda>(b_0, aad).
                                 aead_decrypt C (conf_key key) b_0 aad (hdrlen + IEEE80211_CCMP_HDR_LEN)
                                   data_len mic_len (skb_data skb))) (\<lambda>(err, bs).
                        let rx = rx\<lparr>rx_skb := skb\<lparr>skb_data := bs\<rparr>\<rparr> in
                        if err \<noteq> 0 then Inr (RX_DROP_UNUSABLE, rx, w)
                        else
                          let w = put_key kp (key\<lparr>key_rx_pn := (key_rx_pn key)[security_idx rx := pn]\<rparr>) w in
                          rbind (strip_mpdu IEEE80211_CCMP_HDR_LEN hdrlen mic_len (rx_skb rx)) (\<lambda>skb.
                          Inr (RX_CONTINUE, rx\<lparr>rx_skb := skb\<rparr>, w))))))))))"

definition ieee80211_crypto_ccmp_decrypt ::
  "aead \<Rightarrow> nat \<Rightarrow> ieee80211_rx_data \<Rightarrow> world \<Rightarrow> (ieee80211_rx_result \<times> ieee80211_rx_data \<times> world) result" where
  "ieee80211_crypto_ccmp_decrypt = mpdu_decrypt ccmp_hdr2pn ccmp_special_blocks"

definition ieee80211_crypto_gcmp_decrypt ::
  "aead \<Rightarrow> ieee80211_rx_data \<Rightarrow> world \<Rightarrow> (ieee80211_rx_result \<times> ieee80211_rx_data \<times> world) result" where
  "ieee80211_crypto_gcmp_decrypt C = mpdu_decrypt gcmp_hdr2pn gcmp_special_blocks C IEEE80211_GCMP_MIC_LEN"


section \<open>Facts about buffers\<close>

text \<open>The bytes of the frame in a buffer.\<close>

definition frame_bytes :: "sk_buff \<Rightarrow> u8 list" where
  "frame_bytes skb = take (skb_len skb) (skb_data skb)"

lemma buf_write_mid:
  "length a = off \<Longrightarrow> length src = length b \<Longrightarrow> buf_write (a @ b @ c) off src = Inr (a @ src @ c)"
  by (auto simp: buf_write_def)

lemma skb_push_ok:
  assumes "n \<le> skb_headroom skb"
  shows "\<exists>h r. length r = n \<and> skb_push n skb =
    Inr (skb\<lparr>skb_head := h, skb_data := r @ skb_data skb, skb_len := skb_len skb + n\<rparr>)"
proof -
  let ?k = "skb_headroom skb - n"
  have "length (drop ?k (skb_head skb)) = n" using assms by (simp add: skb_headroom_def)
  then show ?thesis
    using assms by (intro exI [of _ "take ?k (skb_head skb)"] exI [of _ "drop ?k (skb_head skb)"])
      (simp add: skb_push_def Let_def)
qed

lemma move_hdr_down_push:
  "length r = n \<Longrightarrow> n + hl \<le> length (r @ d) \<Longrightarrow> move_hdr_down n hl (r @ d) = Inr (take hl d @ drop hl (r @ d))"
  by (simp add: move_hdr_down_def)

text \<open>Making room of \<open>n\<close> bytes between the header and the rest of a frame and filling it.\<close>

lemma insert_after_hdr:
  assumes "length r = length x" and "length x = n" and "hl \<le> length d"
  shows "buf_write (take hl d @ drop hl (r @ d)) hl x = Inr (take hl d @ x @ drop hl d)"
proof -
  define q where "q = take n (drop hl (r @ d))"
  have len: "length q = n" using assms by (simp add: q_def)
  have "drop n (drop hl (r @ d)) = drop hl (drop n (r @ d))" by (simp only: drop_drop add.commute)
  also have "drop n (r @ d) = d" using assms by simp
  finally have "drop hl (r @ d) = q @ drop hl d"
    unfolding q_def by (metis append_take_drop_id)
  then show ?thesis using assms len buf_write_mid [of "take hl d" hl x q "drop hl d"] by (simp only: length_take)
qed

lemma strip_mpdu_ok:
  assumes "skb_data s = h @ x @ p @ t" and "length h = hl" and "length x = n"
    and "skb_len s = hl + n + length p + m" and "m \<le> length t"
  shows "\<exists>s'. strip_mpdu n hl m s = Inr s' \<and> skb_data s' = h @ p @ t \<and> skb_len s' = hl + length p"
proof -
  have hx: "h @ x @ p @ t = take n (h @ x) @ drop n (h @ x) @ p @ t"
    by (metis append.assoc append_take_drop_id)
  have "buf_write (h @ x @ p @ t) n h = Inr (take n (h @ x) @ h @ p @ t)"
    unfolding hx using assms by (intro buf_write_mid) simp_all
  then show ?thesis
    using assms by (simp add: strip_mpdu_def Let_def skb_trim_def skb_pull_def)
qed

section \<open>The cipher contract\<close>

text \<open>
  Documented behaviour of an authenticated cipher: the ciphertext is as long as the data, the tag has
  the size the cipher is set to, and opening what was sealed with the same key, nonce and
  additional data gives the data back.
\<close>

definition aead_correct :: "aead \<Rightarrow> nat \<Rightarrow> bool" where
  "aead_correct C mic_len \<longleftrightarrow> req_alloc C \<and>
     (\<forall>k n a d. case seal C k n a d of (ct, t) \<Rightarrow>
        length ct = length d \<and> length t = mic_len \<and> open_tag C k n a ct t = Some d)"

lemma aead_encrypt_ok:
  assumes "aead_correct C m" and "aead_aad aad = Inr a" and "length h = pos" and "m \<le> length t"
  shows "\<exists>ct mic. aead_encrypt C k b aad pos (length p) (h @ p @ t) = Inr (0, h @ ct @ mic @ drop m t) \<and>
    length ct = length p \<and> length mic = m \<and> seal C k b a p = (ct, mic)"
proof -
  obtain ct mic where s: "seal C k b a p = (ct, mic)" by fastforce
  have l: "length ct = length p" "length mic = m" "req_alloc C"
    using assms(1) s by (auto simp: aead_correct_def split: prod.splits)
  have t: "t = take m t @ drop m t" by simp
  have "buf_write (h @ ct @ t) (pos + length p) mic = Inr (h @ ct @ mic @ drop m t)"
    using buf_write_mid [of "h @ ct" "pos + length p" mic "take m t" "drop m t"] l assms by simp
  moreover have "buf_write (h @ p @ t) pos ct = Inr (h @ ct @ t)"
    using l assms by (intro buf_write_mid) simp_all
  ultimately show ?thesis
    using l s assms by (simp add: aead_encrypt_def)
qed

lemma aead_decrypt_ok:
  assumes "aead_correct C m" and "aead_aad aad = Inr a" and "length h = pos"
    and "seal C k b a p = (ct, mic)" and "p \<noteq> []"
  shows "aead_decrypt C k b aad pos (length p) m (h @ ct @ mic @ t) = Inr (0, h @ p @ mic @ t)"
proof -
  have l: "length ct = length p" "length mic = m" "req_alloc C" "open_tag C k b a ct mic = Some p"
    using assms by (auto simp: aead_correct_def split: prod.splits)
  have "buf_write (h @ ct @ mic @ t) pos p = Inr (h @ p @ mic @ t)"
    using l assms by (intro buf_write_mid) simp_all
  then show ?thesis
    using l assms by (simp add: aead_decrypt_def)
qed

section \<open>The ciphers as instances of one interface\<close>

text \<open>
  The receiver as a filter of data frames under one key and one packet-number counter, for frames
  without status flags (nothing done by the hardware).
\<close>

definition mpdu_recv ::
  "(u8 list \<Rightarrow> u8 list) \<Rightarrow> (u8 list \<Rightarrow> u8 list \<Rightarrow> (u8 list \<times> u8 list) result) \<Rightarrow> aead \<Rightarrow> nat \<Rightarrow> key_ptr \<Rightarrow> nat \<Rightarrow>
     ieee80211_rx_data \<Rightarrow> world \<Rightarrow> bool \<times> world" where
  "mpdu_recv hdr2pn special C m kp q f w =
     (case hdr_fc (skb_data (rx_skb f)) of
        Inl _ \<Rightarrow> (False, w)
      | Inr fc \<Rightarrow>
          if \<not> ieee80211_is_data fc then (False, w)
          else
            (case mpdu_decrypt hdr2pn special C m (f\<lparr>rx_key := Some kp, security_idx := q, rx_status_flag := 0\<rparr>) w of
               Inl _ \<Rightarrow> (False, w)
             | Inr (res, _, w') \<Rightarrow> (res = RX_CONTINUE, w')))"

definition mpdu_pn :: "(u8 list \<Rightarrow> u8 list) \<Rightarrow> ieee80211_rx_data \<Rightarrow> nat" where
  "mpdu_pn hdr2pn f =
     (case hdr_fc (skb_data (rx_skb f)) of
        Inl _ \<Rightarrow> 0
      | Inr fc \<Rightarrow> be_nat (hdr2pn (take 8 (drop (ieee80211_hdrlen fc) (skb_data (rx_skb f))))))"

definition last_rx_pn :: "key_ptr \<Rightarrow> nat \<Rightarrow> world \<Rightarrow> nat" where
  "last_rx_pn kp q w = (case keys w kp of None \<Rightarrow> 0 | Some key \<Rightarrow> be_nat (key_rx_pn key ! q))"

definition rx_pn_ok :: "key_ptr \<Rightarrow> nat \<Rightarrow> world \<Rightarrow> bool" where
  "rx_pn_ok kp q w \<longleftrightarrow>
     (\<exists>key. keys w kp = Some key \<and> q < length (key_rx_pn key) \<and> length (key_rx_pn key ! q) = 6)"

locale mpdu_cipher = pn_codec +
  fixes special :: "u8 list \<Rightarrow> u8 list \<Rightarrow> (u8 list \<times> u8 list) result"
  assumes special_prefix:
      "hdr_fc bs = Inr fc \<Longrightarrow> 24 \<le> ieee80211_hdrlen fc \<Longrightarrow> ieee80211_hdrlen fc + 8 \<le> length bs \<Longrightarrow>
       ieee80211_hdrlen fc + 8 \<le> length bs' \<Longrightarrow>
       take (ieee80211_hdrlen fc + 8) bs = take (ieee80211_hdrlen fc + 8) bs' \<Longrightarrow> special bs pn = special bs' pn"
    and special_ok:
      "hdr_fc bs = Inr fc \<Longrightarrow> 24 \<le> ieee80211_hdrlen fc \<Longrightarrow> ieee80211_hdrlen fc \<le> 32 \<Longrightarrow>
       ieee80211_hdrlen fc + 8 \<le> length bs \<Longrightarrow> \<exists>b aad a. special bs pn = Inr (b, aad) \<and> aead_aad aad = Inr a"
begin

lemma encrypt_ok:
  assumes C: "aead_correct C m" and fc: "hdr_fc (h @ p @ t) = Inr fc"
    and hl: "length h = ieee80211_hdrlen fc" "24 \<le> length h" "length h \<le> 32"
    and s: "skb_data s = h @ p @ t" "skb_len s = length h + length p" "m \<le> length t" "8 \<le> skb_headroom s"
      "info_hw_key s = None"
    and k: "keys w kp = Some key"
  defines "x \<equiv> pn2hdr (pn_be_bytes (conf_tx_pn key + 1)) (conf_keyidx key)"
  shows "\<exists>s' ct mic b aad a. mpdu_encrypt_skb pn2hdr special C m kp s w =
      Inr (0, s', put_key kp (key\<lparr>conf_tx_pn := conf_tx_pn key + 1\<rparr>) w) \<and>
    skb_data s' = h @ x @ ct @ mic @ drop m t \<and> skb_len s' = length h + 8 + length p + m \<and>
    length ct = length p \<and> length mic = m \<and>
    special (h @ x @ p @ t) (pn_be_bytes (conf_tx_pn key + 1)) = Inr (b, aad) \<and>
    aead_aad aad = Inr a \<and> seal C (conf_key key) b a p = (ct, mic)"
proof -
  let ?pn = "pn_be_bytes (conf_tx_pn key + 1)" and ?d = "h @ p @ t"
  obtain hd r where push: "length r = 8"
      "skb_push 8 s = Inr (s\<lparr>skb_head := hd, skb_data := r @ ?d, skb_len := length h + length p + 8\<rparr>)"
    using skb_push_ok [OF s(4)] s(1,2) by auto
  have x: "length x = 8" by (simp add: x_def pn2hdr_length)
  have mv: "move_hdr_down 8 (length h) (r @ ?d) = Inr (h @ drop (length h) (r @ ?d))"
    using push(1) move_hdr_down_push [of r 8 "length h" ?d] by simp
  have ins: "buf_write (h @ drop (length h) (r @ ?d)) (length h) x = Inr (h @ x @ p @ t)"
    using insert_after_hdr [of r x 8 "length h" ?d] push(1) x by simp
  have fcx: "hdr_fc (h @ x @ p @ t) = Inr fc"
    using fc hdr_fields_of_take(1) [of "length h" "h @ x @ p @ t" ?d] hl(2) by simp
  obtain b aad a where sp: "special (h @ x @ p @ t) ?pn = Inr (b, aad)" "aead_aad aad = Inr a"
    using special_ok [OF fcx, of ?pn] hl x by auto
  have "length (h @ x) = ieee80211_hdrlen fc + 8" using hl(1) x by simp
  from aead_encrypt_ok [OF C sp(2) this s(3), of "conf_key key" b p]
  obtain ct mic where enc: "aead_encrypt C (conf_key key) b aad (ieee80211_hdrlen fc + 8) (length p) (h @ x @ p @ t) =
        Inr (0, h @ x @ ct @ mic @ drop m t)"
      "length ct = length p" "length mic = m" "seal C (conf_key key) b a p = (ct, mic)"
    by auto
  show ?thesis
    using fc hl s k push mv ins sp enc x [unfolded x_def]
    unfolding mpdu_encrypt_skb_def inc_tx_pn_def hw_key_flags_def skb_tailroom_def skb_put_def x_def
    by (simp add: Let_def)
qed

lemma decrypt_ok:
  assumes C: "aead_correct C m" and fc: "hdr_fc (h @ x @ ct @ mic @ t) = Inr fc" and data: "ieee80211_is_data fc"
    and hl: "length h = ieee80211_hdrlen fc" "24 \<le> length h"
    and rx: "skb_data (rx_skb rx) = h @ x @ ct @ mic @ t" "skb_len (rx_skb rx) = length h + 8 + length p + m"
      "rx_sta rx \<noteq> None" "rx_status_flag rx = 0" "rx_key rx = Some kp" "length pn = 6" "x = pn2hdr pn kid"
    and k: "keys v kp = Some key" "security_idx rx < length (key_rx_pn key)"
      "length (key_rx_pn key ! security_idx rx) = 6" "be_nat (key_rx_pn key ! security_idx rx) < be_nat pn"
    and sp: "special (h @ x @ p @ t') pn = Inr (b, aad)" "aead_aad aad = Inr a"
      "seal C (conf_key key) b a p = (ct, mic)" "p \<noteq> []"
  shows "\<exists>s'. mpdu_decrypt hdr2pn special C m rx v = Inr (RX_CONTINUE, rx\<lparr>rx_skb := s'\<rparr>,
      put_key kp (key\<lparr>key_rx_pn := (key_rx_pn key)[security_idx rx := pn]\<rparr>) v) \<and> frame_bytes s' = h @ p \<and> skb_len s' = length h + length p"
proof -
  have l: "length ct = length p" "length mic = m"
    using C sp(3) by (auto simp: aead_correct_def split: prod.splits)
  have x: "length x = 8" "hdr2pn x = pn" by (simp_all add: rx pn2hdr_length hdr2pn_pn2hdr)
  have pn: "hdr2pn (take 8 (drop (ieee80211_hdrlen fc) (h @ x @ ct @ mic @ t))) = pn"
    using x hl(1) [symmetric] by simp
  have cmp: "memcmp pn (key_rx_pn key ! security_idx rx) = 1"
    using k(3,4) rx(6) by (simp add: memcmp_be_nat)
  have "special (h @ x @ ct @ mic @ t) pn = special (h @ x @ p @ t') pn"
    using fc hl x by (intro special_prefix [OF fc]) simp_all
  then have sp': "special (h @ x @ ct @ mic @ t) pn = Inr (b, aad)" using sp(1) by simp
  have pos: "length (h @ x) = ieee80211_hdrlen fc + 8" using hl(1) x by simp
  have dec: "aead_decrypt C (conf_key key) b aad (ieee80211_hdrlen fc + 8) (length p) m (h @ x @ ct @ mic @ t) =
      Inr (0, h @ x @ p @ mic @ t)"
    using aead_decrypt_ok [OF C sp(2) pos sp(3,4), of t] by simp
  have len: "skb_len (rx_skb rx) - ieee80211_hdrlen fc - 8 - m = length p" using rx(2) hl(1) by simp
  let ?s = "(rx_skb rx)\<lparr>skb_data := h @ x @ p @ mic @ t\<rparr>"
  obtain s' where s': "strip_mpdu 8 (ieee80211_hdrlen fc) m ?s = Inr s'" "skb_data s' = h @ p @ mic @ t"
      "skb_len s' = ieee80211_hdrlen fc + length p"
    using strip_mpdu_ok [of ?s h x p "mic @ t" "ieee80211_hdrlen fc" 8 m] x hl(1) l rx(2) by auto
  have "frame_bytes s' = h @ p" "skb_len s' = length h + length p" using s'(2,3) hl(1) by (simp_all add: frame_bytes_def)
  moreover have "mpdu_decrypt hdr2pn special C m rx v = Inr (RX_CONTINUE, rx\<lparr>rx_skb := s'\<rparr>,
      put_key kp (key\<lparr>key_rx_pn := (key_rx_pn key)[security_idx rx := pn]\<rparr>) v)"
    using fc data hl(1) rx(1-5) k(1,2) pn cmp sp' dec len s'(1) x(1) l
    unfolding mpdu_decrypt_def by (simp add: Let_def)
  ultimately show ?thesis by blast
qed

lemma round_trip:
  assumes C: "aead_correct C m"
    and s: "hdr_fc (skb_data s) = Inr fc" "ieee80211_is_data fc" "ieee80211_hdrlen fc \<le> 32"
      "ieee80211_hdrlen fc < skb_len s" "skb_len s + m \<le> length (skb_data s)" "8 \<le> skb_headroom s"
      "info_hw_key s = None"
    and k: "keys w kp = Some key"
    and r: "rx_sta rx \<noteq> None" "rx_status_flag rx = 0" "rx_key rx = Some rkp" "keys v rkp = Some rkey"
      "conf_key rkey = conf_key key" "security_idx rx < length (key_rx_pn rkey)"
      "length (key_rx_pn rkey ! security_idx rx) = 6"
      "be_nat (key_rx_pn rkey ! security_idx rx) < unat (conf_tx_pn key + 1) mod 2 ^ 48"
  shows "\<exists>s' w'. mpdu_encrypt_skb pn2hdr special C m kp s w = Inr (0, s', w') \<and>
    (skb_len (rx_skb rx) = skb_len s' \<and> frame_bytes (rx_skb rx) = frame_bytes s' \<longrightarrow>
      (\<exists>rx' v'. mpdu_decrypt hdr2pn special C m rx v = Inr (RX_CONTINUE, rx', v') \<and>
         frame_bytes (rx_skb rx') = frame_bytes s \<and> skb_len (rx_skb rx') = skb_len s))"
proof -
  let ?hl = "ieee80211_hdrlen fc" and ?d = "skb_data s" and ?pn = "pn_be_bytes (conf_tx_pn key + 1)"
  define h where "h = take ?hl ?d"
  define p where "p = take (skb_len s - ?hl) (drop ?hl ?d)"
  define t where "t = drop (skb_len s) ?d"
  define x where "x = pn2hdr ?pn (conf_keyidx key)"
  have hl: "24 \<le> ?hl" using s(2) by (simp add: ieee80211_hdrlen_def Let_def)
  have len: "length h = ?hl" "length p = skb_len s - ?hl" "m \<le> length t" using s by (auto simp: h_def p_def t_def)
  have fb: "frame_bytes s = h @ p"
    using s(4) by (simp add: frame_bytes_def h_def p_def take_add [symmetric])
  then have d: "?d = h @ p @ t" by (metis append.assoc append_take_drop_id frame_bytes_def t_def)
  have skb: "skb_len s = length h + length p" using len s(4) by simp
  have fc: "hdr_fc (h @ p @ t) = Inr fc" using s(1) d by simp
  have hl': "24 \<le> length h" "length h \<le> 32" using hl len(1) s(3) by simp_all
  obtain s' ct mic b aad a where e: "mpdu_encrypt_skb pn2hdr special C m kp s w =
        Inr (0, s', put_key kp (key\<lparr>conf_tx_pn := conf_tx_pn key + 1\<rparr>) w)"
      "skb_data s' = h @ x @ ct @ mic @ drop m t" "skb_len s' = length h + 8 + length p + m"
      "length ct = length p" "length mic = m" "special (h @ x @ p @ t) ?pn = Inr (b, aad)" "aead_aad aad = Inr a"
      "seal C (conf_key key) b a p = (ct, mic)"
    using encrypt_ok [OF C fc len(1) hl' d skb len(3) s(6,7) k] unfolding x_def by blast
  have x8: "length x = 8" by (simp add: x_def pn2hdr_length)
  have "\<exists>rx' v'. mpdu_decrypt hdr2pn special C m rx v = Inr (RX_CONTINUE, rx', v') \<and>
         frame_bytes (rx_skb rx') = frame_bytes s \<and> skb_len (rx_skb rx') = skb_len s"
    if rxs: "skb_len (rx_skb rx) = skb_len s'" "frame_bytes (rx_skb rx) = frame_bytes s'"
  proof -
    define t2 where "t2 = drop (skb_len s') (skb_data (rx_skb rx))"
    have "frame_bytes s' = h @ x @ ct @ mic" using e(2-5) x8 by (simp add: frame_bytes_def)
    then have rd: "skb_data (rx_skb rx) = h @ x @ ct @ mic @ t2"
      using rxs unfolding t2_def frame_bytes_def by (metis append.assoc append_take_drop_id)
    have fc2: "hdr_fc (h @ x @ ct @ mic @ t2) = Inr fc"
      using fc hdr_fields_of_take(1) [of "length h" "h @ x @ ct @ mic @ t2" "h @ p @ t"] hl'(1) by simp
    have bn: "be_nat (key_rx_pn rkey ! security_idx rx) < be_nat ?pn" using r(8) by (simp add: be_nat_pn)
    have ne: "p \<noteq> []" using len(2) s(4) by auto
    show ?thesis
      using decrypt_ok [OF C fc2 s(2) len(1) hl'(1) rd _ r(1-3) length_pn_be_bytes x_def r(4,6,7) bn e(6,7) _ ne]
        rxs(1) e(3,8) r(5) fb skb by auto
  qed
  then show ?thesis using e(1) by blast
qed

lemma decrypt_cases:
  assumes "mpdu_decrypt hdr2pn special C m rx w = Inr (res, rx', w')" and "hdr_fc (skb_data (rx_skb rx)) = Inr fc"
    and "ieee80211_is_data fc" and "rx_status_flag rx = 0" and "rx_key rx = Some kp"
  defines "pn \<equiv> hdr2pn (take 8 (drop (ieee80211_hdrlen fc) (skb_data (rx_skb rx))))"
  shows "if res = RX_CONTINUE
    then \<exists>key. keys w kp = Some key \<and> security_idx rx < length (key_rx_pn key) \<and>
      memcmp pn (key_rx_pn key ! security_idx rx) > 0 \<and>
      w' = put_key kp (key\<lparr>key_rx_pn := (key_rx_pn key)[security_idx rx := pn]\<rparr>) w
    else w' = w \<or> (\<exists>key n. keys w kp = Some key \<and> w' = put_key kp (key\<lparr>key_replays := n\<rparr>) w)"
  using assms(1) unfolding mpdu_decrypt_def Let_def assms(2-5) pn_def
  by (auto elim!: rbind_InrE simp: assms(2-5) deref_Inr_iff arr_get_Inr_iff not_less split: if_split_asm prod.split_asm)

lemma replay_filter: "replay_filter (mpdu_recv hdr2pn special C m kp q) (mpdu_pn hdr2pn) (last_rx_pn kp q) (rx_pn_ok kp q)"
proof
  fix s s' :: world and f :: ieee80211_rx_data
  let ?f = "f\<lparr>rx_key := Some kp, security_idx := q, rx_status_flag := 0\<rparr>"
  assume inv: "rx_pn_ok kp q s"
  then obtain key0 where key0: "keys s kp = Some key0" "length (key_rx_pn key0 ! q) = 6" by (auto simp: rx_pn_ok_def)
  {
    assume "mpdu_recv hdr2pn special C m kp q f s = (True, s')"
    then obtain fc rx' where fc: "hdr_fc (skb_data (rx_skb f)) = Inr fc" "ieee80211_is_data fc"
        "mpdu_decrypt hdr2pn special C m ?f s = Inr (RX_CONTINUE, rx', s')"
      by (auto simp: mpdu_recv_def split: sum.split_asm if_split_asm)
    then show "last_rx_pn kp q s < mpdu_pn hdr2pn f \<and> last_rx_pn kp q s' = mpdu_pn hdr2pn f \<and> rx_pn_ok kp q s'"
      using decrypt_cases [OF fc(3), of fc kp] key0
      by (auto simp: last_rx_pn_def mpdu_pn_def rx_pn_ok_def put_key_def memcmp_be_nat hdr2pn_length split: if_split_asm)
  next
    assume r: "mpdu_recv hdr2pn special C m kp q f s = (False, s')"
    show "last_rx_pn kp q s \<le> last_rx_pn kp q s' \<and> rx_pn_ok kp q s'"
    proof (cases "\<exists>fc res rx'. hdr_fc (skb_data (rx_skb f)) = Inr fc \<and> ieee80211_is_data fc \<and>
        res \<noteq> RX_CONTINUE \<and> mpdu_decrypt hdr2pn special C m ?f s = Inr (res, rx', s')")
      case True
      then obtain fc res rx' where fc: "hdr_fc (skb_data (rx_skb f)) = Inr fc" "ieee80211_is_data fc"
        "res \<noteq> RX_CONTINUE" "mpdu_decrypt hdr2pn special C m ?f s = Inr (res, rx', s')" by blast
      then show ?thesis
        using decrypt_cases [OF fc(4), of fc kp] inv
        by (auto simp: last_rx_pn_def rx_pn_ok_def put_key_def)
    next
      case False
      then have "s' = s" using r by (auto simp: mpdu_recv_def split: sum.split_asm if_split_asm)
      then show ?thesis using inv by simp
    qed
  }
qed

end

section \<open>CCMP and GCMP\<close>

lemma hdr_load_prefix:
  assumes "take n bs = take n bs'" and "30 \<le> n" and "n \<le> length bs" "n \<le> length bs'"
  shows "hdr_load bs = hdr_load bs'"
proof -
  obtain h where h: "hdr_load bs = Inr h" "hdr_store h bs = bs" using hdr_load_ok [of bs] assms by auto
  have "hdr_bytes h = take 30 bs" using h(2) assms by (metis append_eq_conv_conj hdr_store_def length_hdr_bytes)
  also have "\<dots> = take 30 bs'" using assms by (metis min.absorb1 take_take)
  finally have "bs' = hdr_bytes h @ drop 30 bs'" by (metis append_take_drop_id)
  then have "hdr_load bs' = Inr h" by (metis hdr_load_append)
  with h show ?thesis by simp
qed

lemma qos_tid_prefix:
  assumes "hdr_fc bs = Inr fc" and "take n bs = take n bs'" and "32 \<le> n" and "n \<le> length bs" "n \<le> length bs'"
  shows "\<exists>tid. mpdu_qos_tid fc bs = Inr tid \<and> mpdu_qos_tid fc bs' = Inr tid"
proof -
  have fc': "hdr_fc bs' = Inr fc" using assms hdr_fields_of_take(1) [of n bs bs'] by simp
  have "bs ! i = bs' ! i" if "i < 32" for i
    using arg_cong [OF assms(2), of "\<lambda>xs. xs ! i"] that assms(3) by simp
  then show ?thesis
    using assms fc' by (auto simp: mpdu_qos_tid_def ieee80211_get_tid_def ieee80211_get_qos_ctl_def)
qed

lemma aead_aad_mpdu:
  assumes "24 \<le> ieee80211_hdrlen (frame_control h)" and "ieee80211_hdrlen (frame_control h) \<le> 32"
  shows "\<exists>a. aead_aad (mpdu_aad h tid) = Inr a"
proof -
  let ?n = "ieee80211_hdrlen (frame_control h) - 2"
  have "length (mpdu_aad h tid) = 32" by (simp add: mpdu_aad_def be16_bytes_def)
  moreover have "mpdu_aad h tid ! 0 = ucast (drop_bit 8 (of_nat ?n :: u16))" "mpdu_aad h tid ! 1 = ucast (of_nat ?n :: u16)"
    by (simp_all add: mpdu_aad_def be16_bytes_def)
  moreover have "256 * unat (ucast (drop_bit 8 (of_nat ?n :: u16)) :: u8) + unat (ucast (of_nat ?n :: u16) :: u8) = ?n"
  proof -
    consider "?n = 22" | "?n = 24" | "?n = 26" | "?n = 28" | "?n = 30"
      using hdrlen_values [of "frame_control h"] assms by auto
    then show ?thesis by cases simp_all
  qed
  ultimately show ?thesis using assms by (auto simp: aead_aad_def arr_get_def Let_def)
qed

lemma special_blocks_laws:
  assumes "sp = ccmp_special_blocks \<or> sp = gcmp_special_blocks"
    and "hdr_fc bs = Inr fc" and "24 \<le> ieee80211_hdrlen fc" and "ieee80211_hdrlen fc + 8 \<le> length bs"
  shows "ieee80211_hdrlen fc + 8 \<le> length bs' \<Longrightarrow>
      take (ieee80211_hdrlen fc + 8) bs = take (ieee80211_hdrlen fc + 8) bs' \<Longrightarrow> sp bs pn = sp bs' pn"
    and "ieee80211_hdrlen fc \<le> 32 \<Longrightarrow> \<exists>b aad a. sp bs pn = Inr (b, aad) \<and> aead_aad aad = Inr a"
proof -
  obtain h where h: "hdr_load bs = Inr h" "frame_control h = fc"
    using hdr_load_ok [of bs] hdr_load_fields(2) [of bs] assms(2-4) by fastforce
  show "sp bs pn = sp bs' pn" if b: "ieee80211_hdrlen fc + 8 \<le> length bs'"
      "take (ieee80211_hdrlen fc + 8) bs = take (ieee80211_hdrlen fc + 8) bs'"
  proof -
    have "hdr_load bs' = Inr h" using hdr_load_prefix [OF b(2) _ assms(4) b(1)] assms(3) h by simp
    moreover obtain tid where "mpdu_qos_tid fc bs = Inr tid" "mpdu_qos_tid fc bs' = Inr tid"
      using qos_tid_prefix [OF assms(2) b(2) _ assms(4) b(1)] assms(3) by auto
    ultimately show ?thesis using h assms(1) by (auto simp: ccmp_special_blocks_def gcmp_special_blocks_def)
  qed
  show "\<exists>b aad a. sp bs pn = Inr (b, aad) \<and> aead_aad aad = Inr a" if "ieee80211_hdrlen fc \<le> 32"
  proof -
    obtain tid where "mpdu_qos_tid fc bs = Inr tid"
      using qos_tid_prefix [OF assms(2) refl _ assms(4) assms(4)] assms(3) by auto
    then show ?thesis
      using h assms(1,3) that aead_aad_mpdu [of h tid]
      by (auto simp: ccmp_special_blocks_def gcmp_special_blocks_def)
  qed
qed

lemma length_6E:
  assumes "length pn = 6"
  obtains a b c d e f where "pn = [a, b, c, d, e, f]"
  using assms by (auto simp: numeral_eq_Suc length_Suc_conv)

interpretation ccmp: mpdu_cipher ccmp_pn2hdr ccmp_hdr2pn ccmp_special_blocks
proof
  fix pn :: "u8 list" and key_id assume "length pn = 6"
  then show "length (ccmp_pn2hdr pn key_id) = 8" "ccmp_hdr2pn (ccmp_pn2hdr pn key_id) = pn"
    by (auto simp: ccmp_pn2hdr_def ccmp_hdr2pn_def elim!: length_6E)
next
  show "length (ccmp_hdr2pn hdr) = 6" for hdr by (simp add: ccmp_hdr2pn_def)
qed (use special_blocks_laws [of ccmp_special_blocks] in blast)+

interpretation gcmp: mpdu_cipher gcmp_pn2hdr gcmp_hdr2pn gcmp_special_blocks
proof
  fix pn :: "u8 list" and key_id assume "length pn = 6"
  then show "length (gcmp_pn2hdr pn key_id) = 8" "gcmp_hdr2pn (gcmp_pn2hdr pn key_id) = pn"
    by (auto simp: gcmp_pn2hdr_def gcmp_hdr2pn_def elim!: length_6E)
next
  show "length (gcmp_hdr2pn hdr) = 6" for hdr by (simp add: gcmp_hdr2pn_def)
qed (use special_blocks_laws [of gcmp_special_blocks] in blast)+


interpretation ccmp_replay: replay_filter "mpdu_recv ccmp_hdr2pn ccmp_special_blocks C m kp q" "mpdu_pn ccmp_hdr2pn"
  "last_rx_pn kp q" "rx_pn_ok kp q" for C m kp q
  by (rule ccmp.replay_filter)

interpretation gcmp_replay: replay_filter "mpdu_recv gcmp_hdr2pn gcmp_special_blocks C m kp q" "mpdu_pn gcmp_hdr2pn"
  "last_rx_pn kp q" "rx_pn_ok kp q" for C m kp q
  by (rule gcmp.replay_filter)


section \<open>Samples\<close>

text \<open>A stand-in for an authenticated cipher with tags of eight bytes.\<close>

definition sample_tag :: "u8 list \<Rightarrow> u8 list \<Rightarrow> u8 list" where
  "sample_tag a d = replicate 8 (of_nat (length a + length d))"

definition sample_aead :: aead where
  "sample_aead =
     \<lparr>seal = (\<lambda>k n a d. (map (\<lambda>b. b XOR 0x55) d, sample_tag a d)),
      open_tag = (\<lambda>k n a c t. if t = sample_tag a c then Some (map (\<lambda>b. b XOR 0x55) c) else None),
      req_alloc = True\<rparr>"

lemma sample_aead_correct: "aead_correct sample_aead 8"
  by (simp add: aead_correct_def sample_aead_def sample_tag_def comp_def xor.assoc)

definition sample_mpdu :: sk_buff where
  "sample_mpdu = sample_skb\<lparr>skb_data := hdr_bytes sample_data_hdr @ [1, 2, 3, 4] @ replicate 8 0, skb_len := 34\<rparr>"

definition sample_rx :: "sk_buff \<Rightarrow> ieee80211_rx_data" where
  "sample_rx s = \<lparr>rx_skb = s, rx_sdata = Some 2, rx_sta = Some 5, rx_key = Some 3, rx_status_flag = 0,
     rx_status_rx_flags = 0, seqno_idx = 0, security_idx = 0, rx_tkip_iv32 = 0, rx_tkip_iv16 = 0\<rparr>"

lemma sample_mpdu_facts:
  "hdr_fc (skb_data sample_mpdu) = Inr 0x4108" "ieee80211_is_data 0x4108" "ieee80211_hdrlen 0x4108 = 24"
  "skb_len sample_mpdu = 34" "length (skb_data sample_mpdu) = 42" "skb_headroom sample_mpdu = 16"
  "info_hw_key sample_mpdu = None"
proof -
  show "hdr_fc (skb_data sample_mpdu) = Inr 0x4108"
    using hdr_load_fields(2) [OF hdr_load_append [of sample_data_hdr "[1, 2, 3, 4] @ replicate 8 0"]]
    by (simp add: sample_mpdu_def sample_data_hdr_def)
qed (simp_all add: sample_mpdu_def sample_skb_def skb_headroom_def ieee80211_is_data_def ieee80211_hdrlen_def
    ieee80211_has_a4_def ieee80211_is_data_qos_def)

lemma sample_paired_key: "keys sample_paired_sta 3 = Some (sample_key 16)" "keys sample_paired_ap 3 = Some (sample_key 16)"
  by (simp_all add: sample_paired_sta_def sample_paired_ap_def sample_sta_world_def sample_world_def put_sdata_def)

section \<open>Properties\<close>

text \<open>
  C7: CCMP round trip. A data frame encrypted in software by the holder of a key and received unchanged
  by a holder of the same key whose last packet number for the counter is below the sender's next
  one is accepted, and what is left of it is the original frame, header and payload.
\<close>

theorem ccmp_round_trip:
  assumes "aead_correct C m"
    and "hdr_fc (skb_data s) = Inr fc" and "ieee80211_is_data fc" and "ieee80211_hdrlen fc \<le> 32"
    and "ieee80211_hdrlen fc < skb_len s" and "skb_len s + m \<le> length (skb_data s)" and "8 \<le> skb_headroom s"
    and "info_hw_key s = None" and "keys w kp = Some key"
    and "rx_sta rx \<noteq> None" and "rx_status_flag rx = 0" and "rx_key rx = Some rkp" and "keys v rkp = Some rkey"
    and "conf_key rkey = conf_key key" and "security_idx rx < length (key_rx_pn rkey)"
    and "length (key_rx_pn rkey ! security_idx rx) = 6"
    and "be_nat (key_rx_pn rkey ! security_idx rx) < unat (conf_tx_pn key + 1) mod 2 ^ 48"
  shows "\<exists>s' w'. ccmp_encrypt_skb C m kp s w = Inr (0, s', w') \<and>
    (skb_len (rx_skb rx) = skb_len s' \<and> frame_bytes (rx_skb rx) = frame_bytes s' \<longrightarrow>
      (\<exists>rx' v'. ieee80211_crypto_ccmp_decrypt C m rx v = Inr (RX_CONTINUE, rx', v') \<and>
         frame_bytes (rx_skb rx') = frame_bytes s \<and> skb_len (rx_skb rx') = skb_len s))"
  unfolding ccmp_encrypt_skb_def ieee80211_crypto_ccmp_decrypt_def by (rule ccmp.round_trip [OF assms])

theorem ccmp_round_trip_witness:
  "\<exists>s' w'. ccmp_encrypt_skb sample_aead 8 3 sample_mpdu sample_paired_sta = Inr (0, s', w') \<and>
    (\<exists>rx' v'. ieee80211_crypto_ccmp_decrypt sample_aead 8 (sample_rx s') sample_paired_ap = Inr (RX_CONTINUE, rx', v') \<and>
       frame_bytes (rx_skb rx') = frame_bytes sample_mpdu)"
proof -
  have ex: "\<exists>s' w'. ccmp_encrypt_skb sample_aead 8 3 sample_mpdu sample_paired_sta = Inr (0, s', w') \<and>
    (skb_len (rx_skb (sample_rx t)) = skb_len s' \<and> frame_bytes (rx_skb (sample_rx t)) = frame_bytes s' \<longrightarrow>
    (\<exists>rx' v'. ieee80211_crypto_ccmp_decrypt sample_aead 8 (sample_rx t) sample_paired_ap = Inr (RX_CONTINUE, rx', v') \<and>
       frame_bytes (rx_skb rx') = frame_bytes sample_mpdu \<and> skb_len (rx_skb rx') = skb_len sample_mpdu))" for t
    by (rule ccmp_round_trip [OF sample_aead_correct sample_mpdu_facts(1,2) _ _ _ _ sample_mpdu_facts(7)
          sample_paired_key(1) _ _ _ sample_paired_key(2)])
      (simp_all add: sample_mpdu_facts sample_rx_def sample_key_def)
  obtain s' w' where s': "ccmp_encrypt_skb sample_aead 8 3 sample_mpdu sample_paired_sta = Inr (0, s', w')"
    using ex [of sample_mpdu] by blast
  have "rx_skb (sample_rx s') = s'" by (simp add: sample_rx_def)
  with s' ex [of s'] show ?thesis by auto
qed



text \<open>
  The additional data of CCMP is gathered in a buffer of 32 bytes, but its length is taken from the
  header length. For a four-address QoS frame with an HT control field (36 bytes of header) the
  cipher is told to read 34 bytes behind the length field, past the end of the buffer; a received
  frame of this form with a fresh packet number takes the receiver there before its tag is checked.
\<close>

theorem htc_frame_overreads_aad:
  assumes "hdr_fc (skb_data (rx_skb rx)) = Inr fc" and "ieee80211_is_data_qos fc" and "ieee80211_has_a4 fc"
    and "ieee80211_has_order fc" and "skb_len (rx_skb rx) \<le> length (skb_data (rx_skb rx))"
    and "44 + m < skb_len (rx_skb rx)"
    and "rx_sta rx \<noteq> None" and "rx_status_flag rx = 0" and "rx_key rx = Some kp" and "keys v kp = Some key"
    and "security_idx rx < length (key_rx_pn key)"
    and "memcmp (ccmp_hdr2pn (take 8 (drop 36 (skb_data (rx_skb rx))))) (key_rx_pn key ! security_idx rx) > 0"
  shows "ieee80211_crypto_ccmp_decrypt C m rx v = Inl OutOfBounds"
proof -
  let ?bs = "skb_data (rx_skb rx)"
  have d: "ieee80211_is_data fc" using data_qos_simps(3) [OF assms(2)] by simp
  have hl: "ieee80211_hdrlen fc = 36" using d assms(2-4) by (simp add: ieee80211_hdrlen_def Let_def)
  obtain h where h: "hdr_load ?bs = Inr h" "frame_control h = fc"
    using hdr_load_ok [of ?bs] hdr_load_fields(2) [of ?bs] assms(1,5,6) by fastforce
  obtain tid where tid: "mpdu_qos_tid fc ?bs = Inr tid"
    using qos_tid_prefix [OF assms(1) refl, of 32] assms(5,6) by auto
  have "aead_aad (mpdu_aad h tid) = Inl OutOfBounds"
    by (simp add: aead_aad_def arr_get_def mpdu_aad_def be16_bytes_def h(2) hl)
  then show ?thesis
    using assms d hl h tid
    unfolding ieee80211_crypto_ccmp_decrypt_def mpdu_decrypt_def ccmp_special_blocks_def
    by (simp add: Let_def aead_decrypt_def)
qed

definition sample_htc_rx :: ieee80211_rx_data where
  "sample_htc_rx = sample_rx (sample_skb\<lparr>skb_data := hdr_bytes (sample_hdr\<lparr>frame_control := 0x8388\<rparr>) @
     [0, 0, 0, 0, 0, 0, 1, 0, 0, 0x20, 0, 0, 0, 0] @ replicate 10 0, skb_len := 54\<rparr>)"

theorem htc_frame_overreads_aad_witness:
  "ieee80211_crypto_ccmp_decrypt sample_aead 8 sample_htc_rx sample_paired_ap = Inl OutOfBounds"
proof (rule htc_frame_overreads_aad)
  show "hdr_fc (skb_data (rx_skb sample_htc_rx)) = Inr 0x8388"
    using hdr_load_fields(2) [OF hdr_load_append [of "sample_hdr\<lparr>frame_control := 0x8388\<rparr>"]]
    by (simp add: sample_htc_rx_def sample_rx_def)
  show "keys sample_paired_ap 3 = Some (sample_key 16)" by (rule sample_paired_key)
  show "0 < memcmp (ccmp_hdr2pn (take 8 (drop 36 (skb_data (rx_skb sample_htc_rx)))))
      (key_rx_pn (sample_key 16) ! security_idx sample_htc_rx)"
    by (simp add: sample_htc_rx_def sample_rx_def sample_key_def ccmp_hdr2pn_def numeral_eq_Suc)
qed (simp_all add: sample_htc_rx_def sample_rx_def sample_key_def ieee80211_is_data_qos_def
    ieee80211_has_a4_def ieee80211_has_order_def)

end
