(* ===== verification/Michael.thy ===== *)
theory Michael
  imports Mac80211_State
begin

text \<open>
  \<^verbatim>\<open>net/mac80211/michael.c\<close>: the Michael message integrity code of TKIP, block by block as the source
  computes it, and the definition it optimises: the words of the padded message, in order.
\<close>

section \<open>The routine\<close>

record michael_mic_ctx =
  mic_l :: u32
  mic_r :: u32

definition michael_block :: "u32 \<Rightarrow> michael_mic_ctx \<Rightarrow> michael_mic_ctx" where
  "michael_block val m =
     (let l = mic_l m XOR val;
          r = mic_r m XOR word_rotl 17 l;
          l = l + r;
          r = r XOR (drop_bit 8 (l AND 0xff00ff00) OR push_bit 8 (l AND 0x00ff00ff));
          l = l + r;
          r = r XOR word_rotl 3 l;
          l = l + r;
          r = r XOR word_rotr 2 l;
          l = l + r
      in \<lparr>mic_l = l, mic_r = r\<rparr>)"

text \<open>\<^verbatim>\<open>get_unaligned_le32\<close> and \<^verbatim>\<open>put_unaligned_le32\<close>.\<close>

definition le32_of :: "u8 \<Rightarrow> u8 \<Rightarrow> u8 \<Rightarrow> u8 \<Rightarrow> u32" where
  "le32_of a b c d = ucast a OR push_bit 8 (ucast b) OR push_bit 16 (ucast c) OR push_bit 24 (ucast d)"

definition le32_bytes :: "u32 \<Rightarrow> u8 list" where
  "le32_bytes x = [ucast x, ucast (drop_bit 8 x), ucast (drop_bit 16 x), ucast (drop_bit 24 x)]"

definition le32_at :: "u8 list \<Rightarrow> nat \<Rightarrow> u32 result" where
  "le32_at bs i =
     (if i + 4 \<le> length bs then Inr (le32_of (bs ! i) (bs ! (i + 1)) (bs ! (i + 2)) (bs ! (i + 3)))
      else Inl OutOfBounds)"

text \<open>
  \<open>michael_mic_hdr\<close>: the key loads the context, then the pseudo header of destination, source and
  priority. \<open>bs\<close> are the bytes of the frame \<open>hdr\<close> points to.
\<close>

definition michael_mic_hdr :: "u8 list \<Rightarrow> u8 list \<Rightarrow> michael_mic_ctx result" where
  "michael_mic_hdr key bs =
     rbind (hdr_load bs) (\<lambda>hdr.
     let da = mac_bytes (ieee80211_get_DA hdr);
         sa = mac_bytes (ieee80211_get_SA hdr)
     in rbind (if ieee80211_is_data_qos (frame_control hdr) then ieee80211_get_tid bs else Inr 0) (\<lambda>tid.
        rbind (le32_at key 0) (\<lambda>l.
        rbind (le32_at key 4) (\<lambda>r.
        rbind (le32_at da 0) (\<lambda>da0.
        rbind (le32_at sa 2) (\<lambda>sa2.
        let m = \<lparr>mic_l = l, mic_r = r\<rparr>;
            m = michael_block da0 m;
            m = michael_block (ucast (le16_of (da ! 4) (da ! 5)) OR
                               push_bit 16 (ucast (le16_of (sa ! 0) (sa ! 1)))) m;
            m = michael_block sa2 m
        in Inr (michael_block (ucast tid) m)))))))"

text \<open>The loop over the whole blocks and the loop that gathers the bytes left over.\<close>

fun michael_blocks :: "u8 list \<Rightarrow> nat list \<Rightarrow> michael_mic_ctx \<Rightarrow> michael_mic_ctx result" where
  "michael_blocks data [] m = Inr m"
| "michael_blocks data (block # bs) m =
     rbind (le32_at data (block * 4)) (\<lambda>v. michael_blocks data bs (michael_block v m))"

fun michael_left :: "u8 list \<Rightarrow> nat \<Rightarrow> nat \<Rightarrow> u32 \<Rightarrow> u32 result" where
  "michael_left data blocks 0 val = Inr val"
| "michael_left data blocks (Suc left) val =
     rbind (arr_get data (blocks * 4 + left)) (\<lambda>b.
     michael_left data blocks left (push_bit 8 val OR ucast b))"

definition michael_mic :: "u8 list \<Rightarrow> u8 list \<Rightarrow> u8 list \<Rightarrow> u8 list result" where
  "michael_mic key bs data =
     rbind (michael_mic_hdr key bs) (\<lambda>m.
     let blocks = length data div 4;
         left = length data mod 4
     in rbind (michael_blocks data [0..<blocks] m) (\<lambda>m.
        rbind (michael_left data blocks left 0x5a) (\<lambda>val.
        let m = michael_block 0 (michael_block val m)
        in Inr (le32_bytes (mic_l m) @ le32_bytes (mic_r m)))))"

section \<open>The definition of the code\<close>

text \<open>
  Michael is defined on the message \<open>DA, SA, priority, 0, 0, 0, data\<close>, followed by the byte 0x5a and by
  four to seven zero bytes that fill up the last 32-bit word, read as little-endian words.
\<close>

fun le32_words :: "u8 list \<Rightarrow> u32 list" where
  "le32_words (a # b # c # d # rest) = le32_of a b c d # le32_words rest"
| "le32_words _ = []"

definition michael_pad :: "u8 list \<Rightarrow> u8 list" where
  "michael_pad msg = msg @ 0x5a # replicate (7 - length msg mod 4) 0"

definition michael_ctx :: "u8 list \<Rightarrow> michael_mic_ctx" where
  "michael_ctx key = \<lparr>mic_l = hd (le32_words key), mic_r = hd (le32_words (drop 4 key))\<rparr>"

definition michael_spec :: "u8 list \<Rightarrow> u8 list \<Rightarrow> u8 list" where
  "michael_spec key msg =
     (let m = fold michael_block (le32_words (michael_pad msg)) (michael_ctx key)
      in le32_bytes (mic_l m) @ le32_bytes (mic_r m))"

definition pseudo_header :: "ieee80211_hdr \<Rightarrow> u8 \<Rightarrow> u8 list" where
  "pseudo_header hdr tid =
     mac_bytes (ieee80211_get_DA hdr) @ mac_bytes (ieee80211_get_SA hdr) @ [tid, 0, 0, 0]"

section \<open>Facts\<close>

lemma le32_words_append:
  "length xs mod 4 = 0 \<Longrightarrow> le32_words (xs @ ys) = le32_words xs @ le32_words ys"
  by (induction xs rule: le32_words.induct) (auto simp: mod_Suc split: if_splits)

lemma le32_at_drop: "i + 4 \<le> length bs \<Longrightarrow> le32_at bs i = Inr (hd (le32_words (drop i bs)))"
proof -
  assume "i + 4 \<le> length bs"
  then have "drop i bs = bs ! i # bs ! (i + 1) # bs ! (i + 2) # bs ! (i + 3) # drop (i + 4) bs"
    by (simp add: Cons_nth_drop_Suc numeral_eq_Suc)
  then show ?thesis using \<open>i + 4 \<le> length bs\<close> by (simp add: le32_at_def)
qed

lemma take_4: "take (4 + m) (a # b # c # d # xs) = a # b # c # d # take m xs"
proof -
  have "4 + m = Suc (Suc (Suc (Suc m)))" by simp
  then show ?thesis by (simp only: take_Suc_Cons)
qed

lemma michael_blocks_eq:
  assumes "4 * (k + n) \<le> length data"
  shows "michael_blocks data [k..<k + n] m =
     Inr (fold michael_block (le32_words (take (4 * n) (drop (4 * k) data))) m)"
  using assms
proof (induction n arbitrary: k m)
  case (Suc n)
  have up: "[k..<k + Suc n] = k # [Suc k..<Suc k + n]" by (simp add: upt_conv_Cons del: upt_Suc)
  have d: "drop (4 * k) data = data ! (4 * k) # data ! (4 * k + 1) # data ! (4 * k + 2) # data ! (4 * k + 3) #
      drop (4 * Suc k) data"
    using Suc.prems by (simp add: Cons_nth_drop_Suc numeral_eq_Suc)
  have "take (4 * Suc n) (drop (4 * k) data) = data ! (4 * k) # data ! (4 * k + 1) # data ! (4 * k + 2) #
      data ! (4 * k + 3) # take (4 * n) (drop (4 * Suc k) data)"
    unfolding d mult_Suc_right by (rule take_4)
  then show ?case
    using Suc.IH [of "Suc k"] Suc.prems unfolding up
    by (simp add: le32_at_def mult.commute [of _ 4])
qed simp

text \<open>The last words of a padded message as the loop over the left-over bytes assembles them.\<close>

lemma or_rotate: "(z OR y) OR x = x OR y OR z" "((u OR z) OR y) OR x = x OR y OR z OR u"
  for x y z u :: u32
  by (simp_all only: or.assoc or.commute or.left_commute)

lemma le32_of_tail:
  "le32_of 0x5a 0 0 0 = 0x5a" "le32_of 0 0 0 0 = 0"
  "le32_of a 0x5a 0 0 = 0x5a00 OR ucast a"
  "le32_of a b 0x5a 0 = (0x5a0000 OR push_bit 8 (ucast b)) OR ucast a"
  "le32_of a b c 0x5a = ((0x5a000000 OR push_bit 16 (ucast c)) OR push_bit 8 (ucast b)) OR ucast a"
proof -
  show "le32_of 0x5a 0 0 0 = 0x5a" "le32_of 0 0 0 0 = 0" by (simp_all add: le32_of_def)
  show "le32_of a 0x5a 0 0 = 0x5a00 OR ucast a" by (simp add: le32_of_def or.commute)
  show "le32_of a b 0x5a 0 = (0x5a0000 OR push_bit 8 (ucast b)) OR ucast a"
    by (subst or_rotate(1)) (simp add: le32_of_def)
  show "le32_of a b c 0x5a = ((0x5a000000 OR push_bit 16 (ucast c)) OR push_bit 8 (ucast b)) OR ucast a"
    by (subst or_rotate(2)) (simp add: le32_of_def)
qed

lemma replicate_zeros:
  "replicate 4 (0 :: u8) = [0, 0, 0, 0]" "replicate 5 (0 :: u8) = [0, 0, 0, 0, 0]"
  "replicate 6 (0 :: u8) = [0, 0, 0, 0, 0, 0]" "replicate 7 (0 :: u8) = [0, 0, 0, 0, 0, 0, 0]"
  by (simp_all add: numeral_eq_Suc)

lemma michael_left_eq:
  assumes "length data = 4 * blocks + left" and "left < 4"
  shows "\<exists>v. michael_left data blocks left 0x5a = Inr v \<and>
    le32_words (drop (4 * blocks) data @ 0x5a # replicate (7 - left) 0) = [v, 0]"
proof -
  let ?d = "drop (4 * blocks) data"
  have nth: "arr_get data (blocks * 4 + i) = Inr (?d ! i)" if "i < left" for i
    using that assms by (simp add: arr_get_def mult.commute)
  consider "left = 0" "?d = []" | (1) a where "left = 1" "?d = [a]" | (2) a b where "left = 2" "?d = [a, b]"
    | (3) a b c where "left = 3" "?d = [a, b, c]"
    using assms by (cases ?d; cases "tl ?d"; cases "tl (tl ?d)"; cases "tl (tl (tl ?d))")
      (auto simp: drop_eq_Nil dest: arg_cong [of _ _ length])
  then show ?thesis
    using nth [of 0] nth [of 1] nth [of 2]
    by cases (simp_all add: replicate_zeros le32_of_tail push_bit_or numeral_2_eq_2 numeral_3_eq_3)
qed


lemma le32_of_le16: "ucast (le16_of a b) OR push_bit 16 (ucast (le16_of c d)) = le32_of a b c d"
proof (rule bit_word_eqI)
  fix n assume "n < LENGTH(32)"
  then consider "n < 8" | "8 \<le> n" "n < 16" | "16 \<le> n" "n < 24" | "24 \<le> n" "n < 32" by fastforce
  then show "bit (ucast (le16_of a b) OR push_bit 16 (ucast (le16_of c d)) :: u32) n = bit (le32_of a b c d) n"
    by cases (auto simp: le16_of_def le32_of_def bit_simps dest: bit_imp_le_length)
qed

lemma michael_mic_hdr_eq:
  assumes "8 \<le> length key" and "hdr_load bs = Inr hdr"
    and "if ieee80211_is_data_qos (frame_control hdr) then ieee80211_get_tid bs = Inr tid else tid = 0"
  shows "michael_mic_hdr key bs = Inr (fold michael_block (le32_words (pseudo_header hdr tid)) (michael_ctx key))"
proof -
  obtain d0 d1 d2 d3 d4 d5 where da: "ieee80211_get_DA hdr = Mac d0 d1 d2 d3 d4 d5" by (rule mac.exhaust)
  obtain s0 s1 s2 s3 s4 s5 where sa: "ieee80211_get_SA hdr = Mac s0 s1 s2 s3 s4 s5" by (rule mac.exhaust)
  have tid: "le32_of tid 0 0 0 = ucast tid" by (simp add: le32_of_def)
  have key: "le32_at key 0 = Inr (mic_l (michael_ctx key))" "le32_at key 4 = Inr (mic_r (michael_ctx key))"
    using assms(1) by (simp_all add: le32_at_drop michael_ctx_def)
  have t: "(if ieee80211_is_data_qos (frame_control hdr) then ieee80211_get_tid bs else Inr 0) = Inr tid"
    using assms(3) by (auto split: if_splits)
  have ds: "le32_at (mac_bytes (Mac d0 d1 d2 d3 d4 d5)) 0 = Inr (le32_of d0 d1 d2 d3)"
    "le32_at (mac_bytes (Mac s0 s1 s2 s3 s4 s5)) 2 = Inr (le32_of s2 s3 s4 s5)"
    by (simp_all add: le32_at_def numeral_eq_Suc)
  have nths: "mac_bytes (Mac d0 d1 d2 d3 d4 d5) ! 4 = d4" "mac_bytes (Mac d0 d1 d2 d3 d4 d5) ! 5 = d5"
     "mac_bytes (Mac s0 s1 s2 s3 s4 s5) ! 0 = s0" "mac_bytes (Mac s0 s1 s2 s3 s4 s5) ! 1 = s1"
    by (simp_all add: numeral_eq_Suc)
  have pre: "le32_words (pseudo_header hdr tid) =
      [le32_of d0 d1 d2 d3, le32_of d4 d5 s0 s1, le32_of s2 s3 s4 s5, ucast tid]"
    by (simp add: pseudo_header_def da sa tid)
  show ?thesis
    unfolding michael_mic_hdr_def assms(2) rbind_simps Let_def da sa t key ds nths le32_of_le16 pre
    by (simp add: michael_ctx_def)
qed

section \<open>Properties\<close>

text \<open>
  C27: The routine computes the Michael code: reading the pseudo header and the data in place, block by
  block, and assembling the last word from the bytes left over gives the code of the message
  \<open>DA, SA, priority, 0, 0, 0, data\<close> padded with 0x5a and zeros, for every length of the data.
\<close>

theorem michael_mic_correct:
  assumes "8 \<le> length key" and "hdr_load bs = Inr hdr"
    and "if ieee80211_is_data_qos (frame_control hdr) then ieee80211_get_tid bs = Inr tid else tid = 0"
  shows "michael_mic key bs data = Inr (michael_spec key (pseudo_header hdr tid @ data))"
proof -
  let ?b = "length data div 4" and ?l = "length data mod 4" and ?p = "pseudo_header hdr tid"
  have len: "length ?p mod 4 = 0" "length ?p = 16" by (simp_all add: pseudo_header_def)
  obtain v where v: "michael_left data ?b ?l 0x5a = Inr v"
      "le32_words (drop (4 * ?b) data @ 0x5a # replicate (7 - ?l) 0) = [v, 0]"
    using michael_left_eq [of data ?b ?l] by auto
  have "michael_pad (?p @ data) = ?p @ take (4 * ?b) data @ (drop (4 * ?b) data @ 0x5a # replicate (7 - ?l) 0)"
    by (simp add: michael_pad_def len mod_add_left_eq [symmetric])
  moreover have "length (take (4 * ?b) data) = 4 * ?b" by simp
  then have "length (take (4 * ?b) data) mod 4 = 0" by (simp only: mod_mult_self1_is_0)
  ultimately have "le32_words (michael_pad (?p @ data)) =
      le32_words ?p @ le32_words (take (4 * ?b) data) @ [v, 0]"
    using v(2) len(1) by (simp only: le32_words_append)
  moreover have "michael_blocks data [0..<?b] m = Inr (fold michael_block (le32_words (take (4 * ?b) data)) m)" for m
    using michael_blocks_eq [of 0 ?b data m] by simp
  ultimately show ?thesis
    using v(1) by (simp add: michael_mic_def michael_mic_hdr_eq [OF assms] michael_spec_def Let_def)
qed

definition sample_mic_hdr :: ieee80211_hdr where
  "sample_mic_hdr = \<lparr>frame_control = 0x4108, duration_id = 0, addr1 = Mac 2 0 0 0 0 1, addr2 = Mac 2 0 0 0 0 2,
     addr3 = Mac 2 0 0 0 0 3, seq_ctrl = 0, addr4 = Mac 0 0 0 0 0 0\<rparr>"

theorem michael_mic_correct_witness:
  "michael_mic (replicate 8 1) (hdr_bytes sample_mic_hdr) [1, 2, 3, 4, 5] =
     Inr (michael_spec (replicate 8 1) (pseudo_header sample_mic_hdr 0 @ [1, 2, 3, 4, 5]))"
proof (rule michael_mic_correct)
  show "hdr_load (hdr_bytes sample_mic_hdr) = Inr sample_mic_hdr"
    using hdr_load_append [of sample_mic_hdr "[]"] by simp
qed (simp_all add: sample_mic_hdr_def ieee80211_is_data_qos_def)

end
