(* ===== verification/Wep.thy ===== *)
theory Wep
  imports Ccmp Michael
begin

text \<open>
  \<^verbatim>\<open>net/mac80211/wep.c\<close>: software WEP, whose payload routines TKIP uses too. RC4 and the CRC belong to the
  kernel's libraries and are parameters; the buffer, the initialisation vector and the checks
  around them are the code's.
\<close>

section \<open>The library functions\<close>

text \<open>
  \<open>arc4 key data\<close> is \<open>arc4_setkey\<close> followed by \<open>arc4_crypt\<close> over \<open>data\<close>, \<open>crc32_le crc data\<close> the running checksum.
\<close>

record rc4_lib =
  arc4 :: "u8 list \<Rightarrow> u8 list \<Rightarrow> u8 list"
  crc32_le :: "u32 \<Rightarrow> u8 list \<Rightarrow> u32"

abbreviation (input) IEEE80211_WEP_IV_LEN :: nat where "IEEE80211_WEP_IV_LEN \<equiv> 4"
abbreviation (input) IEEE80211_WEP_ICV_LEN :: nat where "IEEE80211_WEP_ICV_LEN \<equiv> 4"
abbreviation (input) RX_FLAG_ICV_STRIPPED :: u32 where "RX_FLAG_ICV_STRIPPED \<equiv> 0x00800000"

section \<open>Initialisation vectors\<close>

text \<open>\<open>rnd\<close> is what \<open>get_random_bytes\<close> stores.\<close>

definition ieee80211_wep_init :: "u32 \<Rightarrow> world \<Rightarrow> int \<times> world" where
  "ieee80211_wep_init rnd w = (0, w\<lparr>wep_iv := rnd\<rparr>)"

definition ieee80211_wep_weak_iv :: "u32 \<Rightarrow> nat \<Rightarrow> bool" where
  "ieee80211_wep_weak_iv iv keylen \<longleftrightarrow>
     iv AND 0xff00 = 0xff00 \<and>
     (let B = unat (drop_bit 16 iv AND 0xff) in 3 \<le> B \<and> B < 3 + keylen)"

definition ieee80211_wep_get_iv :: "nat \<Rightarrow> u8 \<Rightarrow> world \<Rightarrow> u8 list \<times> world" where
  "ieee80211_wep_get_iv keylen keyidx w =
     (let iv = wep_iv w + 1;
          iv = (if ieee80211_wep_weak_iv iv keylen then iv + 0x0100 else iv)
      in ([ucast (drop_bit 16 iv AND 0xff), ucast (drop_bit 8 iv AND 0xff), ucast (iv AND 0xff), push_bit 6 keyidx],
          w\<lparr>wep_iv := iv\<rparr>))"

text \<open>
  The result is the offset of the vector in the buffer, or \<open>None\<close> where the source returns a null pointer.
\<close>

definition ieee80211_wep_add_iv ::
  "nat \<Rightarrow> u8 \<Rightarrow> sk_buff \<Rightarrow> world \<Rightarrow> (nat option \<times> sk_buff \<times> world) result" where
  "ieee80211_wep_add_iv keylen keyidx skb w =
     rbind (hdr_fc (skb_data skb)) (\<lambda>fc.
     let fc = fc OR IEEE80211_FCTL_PROTECTED in
     rbind (set_hdr_fc fc (skb_data skb)) (\<lambda>bs.
     let skb = skb\<lparr>skb_data := bs\<rparr> in
     if skb_headroom skb < IEEE80211_WEP_IV_LEN then Inr (None, skb, w)
     else
       let hdrlen = ieee80211_hdrlen fc in
       rbind (skb_push IEEE80211_WEP_IV_LEN skb) (\<lambda>skb.
       rbind (move_hdr_down IEEE80211_WEP_IV_LEN hdrlen (skb_data skb)) (\<lambda>bs.
       rbind (hw_key_flags w skb) (\<lambda>hw.
       if (case hw of None \<Rightarrow> False | Some f \<Rightarrow> f AND IEEE80211_KEY_FLAG_PUT_IV_SPACE \<noteq> 0)
       then Inr (Some hdrlen, skb\<lparr>skb_data := bs\<rparr>, w)
       else
         (case ieee80211_wep_get_iv keylen keyidx w of (iv, w) \<Rightarrow>
            rbind (buf_write bs hdrlen iv) (\<lambda>bs. Inr (Some hdrlen, skb\<lparr>skb_data := bs\<rparr>, w))))))))"

definition ieee80211_wep_remove_iv :: "sk_buff \<Rightarrow> sk_buff result" where
  "ieee80211_wep_remove_iv skb =
     rbind (hdr_fc (skb_data skb)) (\<lambda>fc.
     strip_mpdu IEEE80211_WEP_IV_LEN (ieee80211_hdrlen fc) 0 skb)"

section \<open>Encryption\<close>

text \<open>Both payload routines work in place on the bytes \<open>bs\<close> of a buffer from \<open>pos\<close> on.\<close>

definition wep_icv :: "rc4_lib \<Rightarrow> u8 list \<Rightarrow> u8 list" where
  "wep_icv R data = le32_bytes (NOT (crc32_le R (NOT 0) data))"

definition ieee80211_wep_encrypt_data ::
  "rc4_lib \<Rightarrow> u8 list \<Rightarrow> nat \<Rightarrow> nat \<Rightarrow> u8 list \<Rightarrow> (int \<times> u8 list) result" where
  "ieee80211_wep_encrypt_data R rc4key pos data_len bs =
     rbind (buf_write bs (pos + data_len) (wep_icv R (take data_len (drop pos bs)))) (\<lambda>bs.
     rbind (buf_write bs pos (arc4 R rc4key (take (data_len + IEEE80211_WEP_ICV_LEN) (drop pos bs)))) (\<lambda>bs.
     Inr (0, bs)))"

text \<open>The RC4 key: three bytes of vector and the secret key, in an array of 16 bytes.\<close>

definition wep_rc4key :: "u8 list \<Rightarrow> u8 list \<Rightarrow> u8 list result" where
  "wep_rc4key iv key =
     rbind (buf_write (replicate 16 0) 0 iv) (\<lambda>k.
     rbind (buf_write k 3 key) (\<lambda>k. Inr (take (3 + length key) k)))"

definition ieee80211_wep_encrypt ::
  "rc4_lib \<Rightarrow> u8 list \<Rightarrow> u8 \<Rightarrow> sk_buff \<Rightarrow> world \<Rightarrow> (int \<times> sk_buff \<times> world) result" where
  "ieee80211_wep_encrypt R key keyidx skb w =
     (if skb_tailroom skb < IEEE80211_WEP_ICV_LEN then Inr (- 1, skb, w)
      else
        rbind (ieee80211_wep_add_iv (length key) keyidx skb w) (\<lambda>(iv, skb, w).
        case iv of
          None \<Rightarrow> Inr (- 1, skb, w)
        | Some iv \<Rightarrow>
            if skb_len skb < iv + IEEE80211_WEP_IV_LEN then Inl OutOfBounds
            else
              let len = skb_len skb - (iv + IEEE80211_WEP_IV_LEN) in
              rbind (wep_rc4key (take 3 (drop iv (skb_data skb))) key) (\<lambda>rc4key.
              rbind (skb_put IEEE80211_WEP_ICV_LEN skb) (\<lambda>skb.
              rbind (ieee80211_wep_encrypt_data R rc4key (iv + IEEE80211_WEP_IV_LEN) len (skb_data skb)) (\<lambda>(ret, bs).
              Inr (ret, skb\<lparr>skb_data := bs\<rparr>, w))))))"

definition wep_encrypt_skb :: "rc4_lib \<Rightarrow> key_ptr \<Rightarrow> sk_buff \<Rightarrow> world \<Rightarrow> (int \<times> sk_buff \<times> world) result" where
  "wep_encrypt_skb R kp skb w =
     rbind (hw_key_flags w skb) (\<lambda>hw.
     case hw of
       None \<Rightarrow>
         rbind (deref (keys w) kp) (\<lambda>key.
         rbind (ieee80211_wep_encrypt R (conf_key key) (conf_keyidx key) skb w) (\<lambda>(ret, skb, w).
         Inr (if ret \<noteq> 0 then - 1 else 0, skb, w)))
     | Some f \<Rightarrow>
         if f AND IEEE80211_KEY_FLAG_GENERATE_IV \<noteq> 0 \<or> f AND IEEE80211_KEY_FLAG_PUT_IV_SPACE \<noteq> 0 then
           rbind (deref (keys w) kp) (\<lambda>key.
           rbind (ieee80211_wep_add_iv (length (conf_key key)) (conf_keyidx key) skb w) (\<lambda>(iv, skb, w).
           Inr (if iv = None then - 1 else 0, skb, w)))
         else Inr (0, skb, w))"

definition ieee80211_crypto_wep_encrypt ::
  "rc4_lib \<Rightarrow> ieee80211_tx_data \<Rightarrow> world \<Rightarrow> (ieee80211_tx_result \<times> ieee80211_tx_data \<times> world) result" where
  "ieee80211_crypto_wep_encrypt R = crypto_encrypt (wep_encrypt_skb R)"

section \<open>Decryption\<close>

definition ieee80211_wep_decrypt_data ::
  "rc4_lib \<Rightarrow> u8 list \<Rightarrow> nat \<Rightarrow> nat \<Rightarrow> u8 list \<Rightarrow> (int \<times> u8 list) result" where
  "ieee80211_wep_decrypt_data R rc4key pos data_len bs =
     rbind (if pos + data_len + IEEE80211_WEP_ICV_LEN \<le> length bs then Inr () else Inl OutOfBounds) (\<lambda>_.
     rbind (buf_write bs pos (arc4 R rc4key (take (data_len + IEEE80211_WEP_ICV_LEN) (drop pos bs)))) (\<lambda>bs.
     if wep_icv R (take data_len (drop pos bs)) \<noteq> take IEEE80211_WEP_ICV_LEN (drop (pos + data_len) bs)
     then Inr (- 1, bs) else Inr (0, bs)))"

definition ieee80211_wep_decrypt ::
  "rc4_lib \<Rightarrow> ieee80211_key option \<Rightarrow> sk_buff \<Rightarrow> (int \<times> sk_buff) result" where
  "ieee80211_wep_decrypt R key skb =
     rbind (hdr_fc (skb_data skb)) (\<lambda>fc.
     if \<not> ieee80211_has_protected fc then Inr (- 1, skb)
     else
       let hdrlen = ieee80211_hdrlen fc in
       if skb_len skb < hdrlen + IEEE80211_WEP_IV_LEN + IEEE80211_WEP_ICV_LEN then Inr (- 1, skb)
       else
         let len = skb_len skb - hdrlen - IEEE80211_WEP_IV_LEN - IEEE80211_WEP_ICV_LEN in
         rbind (arr_get (skb_data skb) (hdrlen + 3)) (\<lambda>b.
         case key of
           None \<Rightarrow> Inr (- 1, skb)
         | Some key \<Rightarrow>
             if drop_bit 6 b \<noteq> conf_keyidx key then Inr (- 1, skb)
             else
               rbind (wep_rc4key (take 3 (drop hdrlen (skb_data skb))) (conf_key key)) (\<lambda>rc4key.
               rbind (ieee80211_wep_decrypt_data R rc4key (hdrlen + IEEE80211_WEP_IV_LEN) len (skb_data skb)) (\<lambda>(ret, bs).
               rbind (strip_mpdu IEEE80211_WEP_IV_LEN hdrlen IEEE80211_WEP_ICV_LEN (skb\<lparr>skb_data := bs\<rparr>)) (\<lambda>skb.
               Inr (if ret \<noteq> 0 then - 1 else 0, skb))))))"

definition ieee80211_crypto_wep_decrypt ::
  "rc4_lib \<Rightarrow> ieee80211_rx_data \<Rightarrow> world \<Rightarrow> (ieee80211_rx_result \<times> ieee80211_rx_data \<times> world) result" where
  "ieee80211_crypto_wep_decrypt R rx w =
     (let skb = rx_skb rx; flag = rx_status_flag rx in
      rbind (hdr_fc (skb_data skb)) (\<lambda>fc.
      if \<not> ieee80211_is_data fc \<and> \<not> ieee80211_is_auth fc then Inr (RX_CONTINUE, rx, w)
      else if flag AND RX_FLAG_DECRYPTED = 0 then
        rbind (case rx_key rx of None \<Rightarrow> Inr None | Some kp \<Rightarrow> rbind (deref (keys w) kp) (\<lambda>k. Inr (Some k))) (\<lambda>key.
        rbind (ieee80211_wep_decrypt R key skb) (\<lambda>(ret, skb).
        Inr (if ret \<noteq> 0 then RX_DROP_UNUSABLE else RX_CONTINUE, rx\<lparr>rx_skb := skb\<rparr>, w)))
      else if flag AND RX_FLAG_IV_STRIPPED = 0 then
        if skb_len skb < ieee80211_hdrlen fc + IEEE80211_WEP_IV_LEN then Inr (RX_DROP_UNUSABLE, rx, w)
        else
          rbind (ieee80211_wep_remove_iv skb) (\<lambda>skb.
          let skb = (if flag AND RX_FLAG_ICV_STRIPPED = 0 then skb_trim (skb_len skb - IEEE80211_WEP_ICV_LEN) skb else skb)
          in Inr (RX_CONTINUE, rx\<lparr>rx_skb := skb\<rparr>, w))
      else Inr (RX_CONTINUE, rx, w)))"

section \<open>Facts\<close>

text \<open>
  Documented behaviour of the stream cipher: it keeps the length, and applying it again under the
  same key undoes it.
\<close>

definition rc4_correct :: "rc4_lib \<Rightarrow> bool" where
  "rc4_correct R \<longleftrightarrow> (\<forall>k d. length (arc4 R k d) = length d \<and> arc4 R k (arc4 R k d) = d)"

lemma length_le32_bytes [simp]: "length (le32_bytes x) = 4"
  by (simp add: le32_bytes_def)

lemma length_wep_icv [simp]: "length (wep_icv R d) = 4"
  by (simp add: wep_icv_def)

lemma wep_encrypt_data_ok:
  assumes "rc4_correct R" and "length h = pos" and "4 \<le> length t"
  shows "ieee80211_wep_encrypt_data R k pos (length p) (h @ p @ t) =
    Inr (0, h @ arc4 R k (p @ wep_icv R p) @ drop 4 t)"
proof -
  have l: "length (arc4 R k (p @ wep_icv R p)) = length p + 4"
    using assms(1) by (simp add: rc4_correct_def)
  have t: "t = take 4 t @ drop 4 t" by simp
  have "buf_write (h @ p @ t) (pos + length p) (wep_icv R p) = Inr (h @ p @ wep_icv R p @ drop 4 t)"
    using buf_write_mid [of "h @ p" "pos + length p" "wep_icv R p" "take 4 t" "drop 4 t"] assms by simp
  moreover have "buf_write (h @ (p @ wep_icv R p) @ drop 4 t) pos (arc4 R k (p @ wep_icv R p)) =
      Inr (h @ arc4 R k (p @ wep_icv R p) @ drop 4 t)"
    using l assms(2) by (intro buf_write_mid) simp_all
  ultimately show ?thesis
    using assms(2) by (simp add: ieee80211_wep_encrypt_data_def)
qed

lemma wep_decrypt_data_ok:
  assumes "rc4_correct R" and "length h = pos"
  shows "ieee80211_wep_decrypt_data R k pos (length p) (h @ arc4 R k (p @ wep_icv R p) @ t) =
    Inr (0, h @ p @ wep_icv R p @ t)"
proof -
  have l: "length (arc4 R k (p @ wep_icv R p)) = length p + 4" "arc4 R k (arc4 R k (p @ wep_icv R p)) = p @ wep_icv R p"
    using assms(1) by (simp_all add: rc4_correct_def)
  have "buf_write (h @ arc4 R k (p @ wep_icv R p) @ t) pos (p @ wep_icv R p) = Inr (h @ (p @ wep_icv R p) @ t)"
    using l assms(2) by (intro buf_write_mid) simp_all
  then show ?thesis
    using l assms(2) by (simp add: ieee80211_wep_decrypt_data_def)
qed

lemma wep_rc4key_ok: "length iv = 3 \<Longrightarrow> length key \<le> 13 \<Longrightarrow> wep_rc4key iv key = Inr (iv @ key)"
  by (simp add: wep_rc4key_def buf_write_def)

lemma wep_rc4key_overflow: "length iv = 3 \<Longrightarrow> 13 < length key \<Longrightarrow> wep_rc4key iv key = Inl OutOfBounds"
  by (simp add: wep_rc4key_def buf_write_def)

lemma set_hdr_fc_same:
  assumes "hdr_fc bs = Inr fc"
  shows "set_hdr_fc fc bs = Inr bs"
proof -
  obtain lo hi rest where "bs = lo # hi # rest" "fc = le16_of lo hi"
    using assms by (cases bs rule: list.exhaust [case_names Nil Cons]; cases "tl bs")
      (auto simp: hdr_fc_def arr_get_def)
  then show ?thesis by (simp add: set_hdr_fc_def buf_write_def le16_bytes_def)
qed

lemma or_protected: "ieee80211_has_protected fc \<Longrightarrow> fc OR IEEE80211_FCTL_PROTECTED = fc"
proof -
  have m: "(0x4000 :: u16) = push_bit 14 1" by simp
  assume "ieee80211_has_protected fc"
  then have "bit fc 14"
    unfolding ieee80211_has_protected_def m by (metis and_exp_eq_0_iff_not_bit push_bit_of_1)
  moreover have "x OR push_bit n 1 = x" if "bit x n" for x :: u16 and n
    using that by (intro bit_word_eqI) (auto simp: bit_simps)
  ultimately show ?thesis unfolding m by blast
qed

text \<open>Skipping a weak vector takes the middle byte from 0xff to 0.\<close>

lemma middle_byte_wraps:
  assumes "(v :: u32) AND 0xff00 = 0xff00"
  shows "(v + 0x100) AND 0xff00 = 0"
proof -
  have m: "uint (x AND 0xff00) = (uint x div 2 ^ 8 mod 2 ^ 8) * 2 ^ 8" for x :: u32
  proof -
    have "x AND push_bit 8 (mask 8) = push_bit 8 (take_bit 8 (drop_bit 8 x))"
      by (intro bit_word_eqI) (auto simp: bit_simps)
    then have "x AND 0xff00 = push_bit 8 (take_bit 8 (drop_bit 8 x))"
      by (simp add: mask_eq_exp_minus_1)
    moreover have "uint (push_bit 8 y) = uint y * 2 ^ 8" if "uint y < 2 ^ 8" for y :: u32
    proof -
      have "uint (push_bit 8 y) = (uint y * 2 ^ 8) mod 2 ^ 32"
        unfolding unsigned_push_bit_eq by (simp add: push_bit_eq_mult take_bit_eq_mod)
      also have "\<dots> = uint y * 2 ^ 8" using that by (intro mod_pos_pos_trivial) simp_all
      finally show ?thesis .
    qed
    moreover have "uint (take_bit 8 (drop_bit 8 x)) = uint x div 2 ^ 8 mod 2 ^ 8"
      unfolding unsigned_take_bit_eq unsigned_drop_bit_eq using uint_bounded [of x]
      by (simp add: take_bit_eq_mod drop_bit_eq_div)
    moreover have "uint x div 2 ^ 8 mod 2 ^ 8 < (2 ^ 8 :: int)" by simp
    ultimately show ?thesis by (metis (no_types))
  qed
  have "(uint v div 2 ^ 8 mod 2 ^ 8) * 2 ^ 8 = 0xff00" using m [of v] assms by simp
  then have "uint v div 2 ^ 8 mod 2 ^ 8 = 255" by simp
  then have "(uint v div 2 ^ 8 + 1) mod 2 ^ 8 = 0" by (simp add: mod_add_left_eq [symmetric])
  moreover have "(uint v + 0x100) div 2 ^ 8 = uint v div 2 ^ 8 + 1" by simp
  moreover have "a mod 2 ^ 32 div 2 ^ 8 mod 2 ^ 8 = a div 2 ^ 8 mod 2 ^ 8" for a :: int
    using drop_bit_take_bit [of 8 32 a] by (simp add: take_bit_eq_mod drop_bit_eq_div mod_mod_cancel)
  ultimately have "(uint v + 0x100) mod 2 ^ 32 div 2 ^ 8 mod 2 ^ 8 = 0" by (metis (no_types))
  then have "uint ((v + 0x100) AND 0xff00) = 0" using m [of "v + 0x100"] by (simp add: uint_word_ariths(1))
  then show ?thesis by (simp only: uint_0_iff)
qed

section \<open>Round trip\<close>

text \<open>What \<open>ieee80211_wep_add_iv\<close> makes of a protected frame handled in software.\<close>

lemma wep_add_iv_ok:
  assumes "hdr_fc (skb_data s) = Inr fc" and "ieee80211_has_protected fc" and "skb_data s = h @ d"
    and "length h = ieee80211_hdrlen fc" and "4 \<le> skb_headroom s" and "info_hw_key s = None"
    and "ieee80211_wep_get_iv kl ki w = (iv, w')"
  shows "\<exists>s'. ieee80211_wep_add_iv kl ki s w = Inr (Some (length h), s', w') \<and> skb_data s' = h @ iv @ d \<and>
    skb_len s' = skb_len s + 4 \<and> length iv = 4"
proof -
  obtain hd r where push: "length r = 4"
      "skb_push 4 s = Inr (s\<lparr>skb_head := hd, skb_data := r @ h @ d, skb_len := skb_len s + 4\<rparr>)"
    using skb_push_ok [OF assms(5)] assms(3) by auto
  have iv: "length iv = 4" using assms(7) by (auto simp: ieee80211_wep_get_iv_def Let_def)
  have mv: "move_hdr_down 4 (length h) (r @ h @ d) = Inr (h @ drop (length h) (r @ h @ d))"
    using push(1) move_hdr_down_push [of r 4 "length h" "h @ d"] by simp
  have ins: "buf_write (h @ drop (length h) (r @ h @ d)) (length h) iv = Inr (h @ iv @ d)"
    using insert_after_hdr [of r iv 4 "length h" "h @ d"] push(1) iv by simp
  have same: "set_hdr_fc fc (skb_data s) = Inr (skb_data s)" by (rule set_hdr_fc_same [OF assms(1)])
  show ?thesis
    using assms(1,4-7) or_protected [OF assms(2)] same push mv ins iv
    unfolding ieee80211_wep_add_iv_def hw_key_flags_def
    by (simp add: Let_def assms(3) [symmetric])
qed

lemma wep_get_iv_keyidx:
  "ieee80211_wep_get_iv kl ki w = (iv, w') \<Longrightarrow> iv ! 3 = push_bit 6 ki"
  by (auto simp: ieee80211_wep_get_iv_def Let_def)

lemma wep_encrypt_ok:
  assumes R: "rc4_correct R" and fc: "hdr_fc (skb_data s) = Inr fc" "ieee80211_has_protected fc"
    and s: "skb_data s = h @ p @ t" "length h = ieee80211_hdrlen fc" "skb_len s = length h + length p"
      "4 \<le> length t" "4 \<le> skb_headroom s" "info_hw_key s = None"
    and k: "keys w kp = Some key" "length (conf_key key) \<le> 13"
    and iv: "ieee80211_wep_get_iv (length (conf_key key)) (conf_keyidx key) w = (iv, w')"
  defines "c \<equiv> arc4 R (take 3 iv @ conf_key key) (p @ wep_icv R p)"
  shows "\<exists>s'. wep_encrypt_skb R kp s w = Inr (0, s', w') \<and> skb_data s' = h @ iv @ c @ drop 4 t \<and>
    skb_len s' = length h + 4 + length p + 4 \<and> length iv = 4"
proof -
  obtain s1 where s1: "ieee80211_wep_add_iv (length (conf_key key)) (conf_keyidx key) s w = Inr (Some (length h), s1, w')"
      "skb_data s1 = h @ iv @ p @ t" "skb_len s1 = skb_len s + 4" "length iv = 4"
    using wep_add_iv_ok [OF fc s(1,2,5,6) iv] by auto
  have key: "wep_rc4key (take 3 (drop (length h) (skb_data s1))) (conf_key key) = Inr (take 3 iv @ conf_key key)"
    using s1(2,4) k(2) by (simp add: wep_rc4key_ok)
  have len: "skb_len s1 - (length h + 4) = length p" "\<not> skb_len s1 < length h + 4" using s1(3) s(3) by simp_all
  have put: "skb_put 4 s1 = Inr (s1\<lparr>skb_len := skb_len s1 + 4\<rparr>)"
    using s1(2-4) s(3,4) by (simp add: skb_put_def skb_tailroom_def)
  have enc: "ieee80211_wep_encrypt_data R (take 3 iv @ conf_key key) (length h + 4) (length p) (skb_data s1) =
      Inr (0, h @ iv @ c @ drop 4 t)"
    using wep_encrypt_data_ok [OF R, of "h @ iv" "length h + 4" t "take 3 iv @ conf_key key" p] s1(2,4) s(4)
    by (simp add: c_def)
  have tail: "\<not> skb_tailroom s < 4" using s(1,3,4) by (simp add: skb_tailroom_def)
  show ?thesis
    using s(3,6) k(1) s1(1,3,4) key len put enc tail
    by (simp add: wep_encrypt_skb_def ieee80211_wep_encrypt_def hw_key_flags_def Let_def)
qed

lemma keyidx_field: "(ki :: u8) < 4 \<Longrightarrow> drop_bit 6 (push_bit 6 ki) = ki"
proof -
  assume "ki < 4"
  then have "unat ki < 4" by (simp add: word_less_nat_alt)
  then have "unat ki = 0 \<or> unat ki = 1 \<or> unat ki = 2 \<or> unat ki = 3" by auto
  then have "ki \<in> {0, 1, 2, 3}" by (auto simp: word_unat_eq_iff)
  then show ?thesis by auto
qed

lemma wep_decrypt_ok:
  assumes R: "rc4_correct R" and fc: "hdr_fc (skb_data s) = Inr fc" "ieee80211_has_protected fc"
    and s: "skb_data s = h @ iv @ arc4 R (take 3 iv @ conf_key key) (p @ wep_icv R p) @ t"
      "length h = ieee80211_hdrlen fc" "length iv = 4" "skb_len s = length h + 4 + length p + 4"
    and k: "length (conf_key key) \<le> 13" "drop_bit 6 (iv ! 3) = conf_keyidx key"
  shows "\<exists>s'. ieee80211_wep_decrypt R (Some key) s = Inr (0, s') \<and> frame_bytes s' = h @ p"
proof -
  let ?c = "arc4 R (take 3 iv @ conf_key key) (p @ wep_icv R p)"
  have key: "wep_rc4key (take 3 (drop (length h) (skb_data s))) (conf_key key) = Inr (take 3 iv @ conf_key key)"
    using s(1,3) k(1) by (simp add: wep_rc4key_ok)
  have b: "arr_get (skb_data s) (length h + 3) = Inr (iv ! 3)"
    using s(1,3) by (simp add: arr_get_def nth_append)
  have len: "skb_len s - length h - 4 - 4 = length p" "\<not> skb_len s < length h + 4 + 4" using s(4) by simp_all
  have dec: "ieee80211_wep_decrypt_data R (take 3 iv @ conf_key key) (length h + 4) (length p) (skb_data s) =
      Inr (0, h @ iv @ p @ wep_icv R p @ t)"
    using wep_decrypt_data_ok [OF R, of "h @ iv" "length h + 4" "take 3 iv @ conf_key key" p t] s(1,3) by simp
  obtain s' where s': "strip_mpdu 4 (length h) 4 (s\<lparr>skb_data := h @ iv @ p @ wep_icv R p @ t\<rparr>) = Inr s'"
      "skb_data s' = h @ p @ wep_icv R p @ t" "skb_len s' = length h + length p"
    using strip_mpdu_ok [of "s\<lparr>skb_data := h @ iv @ p @ wep_icv R p @ t\<rparr>" h iv p "wep_icv R p @ t" "length h" 4 4] s(3,4)
    by auto
  have "frame_bytes s' = h @ p" using s'(2,3) by (simp add: frame_bytes_def)
  moreover have "ieee80211_wep_decrypt R (Some key) s = Inr (0, s')"
    using fc k(2) s(2) key b len dec s'(1) by (simp add: ieee80211_wep_decrypt_def Let_def)
  ultimately show ?thesis by blast
qed

section \<open>Samples\<close>

definition sample_rc4 :: rc4_lib where
  "sample_rc4 = \<lparr>arc4 = (\<lambda>k. map (\<lambda>b. b XOR foldr (XOR) k 0x55)), crc32_le = (\<lambda>c d. foldr (\<lambda>b a. a + ucast b) d c)\<rparr>"

lemma sample_rc4_correct: "rc4_correct sample_rc4"
  by (simp add: rc4_correct_def sample_rc4_def comp_def xor.assoc)

definition sample_wep_world :: world where
  "sample_wep_world = put_key 3 ((sample_key 5)\<lparr>conf_keyidx := 1\<rparr>) sample_paired_sta"

section \<open>Properties\<close>

text \<open>
  WEP round trip. A protected data frame encrypted in software and received unchanged by a holder of the
  same key at the same index is accepted, and what is left of it is the original frame.
\<close>

theorem wep_round_trip:
  assumes "rc4_correct R" and "hdr_fc (skb_data s) = Inr fc" and "ieee80211_is_data fc"
    and "ieee80211_has_protected fc" and "ieee80211_hdrlen fc \<le> skb_len s"
    and "skb_len s + 4 \<le> length (skb_data s)" and "4 \<le> skb_headroom s" and "info_hw_key s = None"
    and "keys w kp = Some key" and "length (conf_key key) \<le> 13" and "conf_keyidx key < 4"
    and "rx_status_flag rx = 0" and "rx_key rx = Some rkp" and "keys v rkp = Some rkey"
    and "conf_key rkey = conf_key key" and "conf_keyidx rkey = conf_keyidx key"
  shows "\<exists>s' w'. wep_encrypt_skb R kp s w = Inr (0, s', w') \<and>
    (skb_len (rx_skb rx) = skb_len s' \<and> frame_bytes (rx_skb rx) = frame_bytes s' \<longrightarrow>
      (\<exists>rx'. ieee80211_crypto_wep_decrypt R rx v = Inr (RX_CONTINUE, rx', v) \<and>
         frame_bytes (rx_skb rx') = frame_bytes s))"
proof -
  let ?hl = "ieee80211_hdrlen fc" and ?d = "skb_data s"
  define h where "h = take ?hl ?d"
  define p where "p = take (skb_len s - ?hl) (drop ?hl ?d)"
  define t where "t = drop (skb_len s) ?d"
  have len: "length h = ?hl" "skb_len s = length h + length p" "4 \<le> length t"
    using assms(5,6) by (auto simp: h_def p_def t_def)
  have fb: "frame_bytes s = h @ p"
    using assms(5) by (simp add: frame_bytes_def h_def p_def take_add [symmetric])
  then have d: "?d = h @ p @ t" by (metis append.assoc append_take_drop_id frame_bytes_def t_def)
  obtain iv w' where iv: "ieee80211_wep_get_iv (length (conf_key key)) (conf_keyidx key) w = (iv, w')" by fastforce
  let ?c = "arc4 R (take 3 iv @ conf_key key) (p @ wep_icv R p)"
  obtain s' where s': "wep_encrypt_skb R kp s w = Inr (0, s', w')" "skb_data s' = h @ iv @ ?c @ drop 4 t"
      "skb_len s' = length h + 4 + length p + 4" "length iv = 4"
    using wep_encrypt_ok [OF assms(1,2,4) d len(1,2,3) assms(7-10) iv] by blast
  have lc: "length ?c = length p + 4" using assms(1) by (simp add: rc4_correct_def)
  have "\<exists>rx'. ieee80211_crypto_wep_decrypt R rx v = Inr (RX_CONTINUE, rx', v) \<and> frame_bytes (rx_skb rx') = frame_bytes s"
    if rxs: "skb_len (rx_skb rx) = skb_len s'" "frame_bytes (rx_skb rx) = frame_bytes s'"
  proof -
    define t2 where "t2 = drop (skb_len s') (skb_data (rx_skb rx))"
    have "frame_bytes s' = h @ iv @ ?c" using s'(2-4) lc by (simp add: frame_bytes_def)
    then have rd: "skb_data (rx_skb rx) = h @ iv @ ?c @ t2"
      using rxs unfolding t2_def frame_bytes_def by (metis append.assoc append_take_drop_id)
    have "24 \<le> ?hl" using assms(3) by (simp add: ieee80211_hdrlen_def Let_def)
    then have fc2: "hdr_fc (skb_data (rx_skb rx)) = Inr fc"
      using hdr_fields_of_take(1) [of ?hl "skb_data (rx_skb rx)" ?d] assms(2) d rd len(1) by simp
    have ki: "drop_bit 6 (iv ! 3) = conf_keyidx rkey"
      using wep_get_iv_keyidx [OF iv] keyidx_field [OF assms(11)] assms(16) by simp
    obtain s2 where "ieee80211_wep_decrypt R (Some rkey) (rx_skb rx) = Inr (0, s2)" "frame_bytes s2 = h @ p"
      using wep_decrypt_ok [OF assms(1) fc2 assms(4), of h iv rkey p t2] rd len(1) s'(3,4) rxs(1) assms(10,15) ki by auto
    then show ?thesis
      using fc2 assms(3,12-14) fb by (simp add: ieee80211_crypto_wep_decrypt_def Let_def)
  qed
  with s'(1) show ?thesis by blast
qed

theorem wep_round_trip_witness:
  "\<exists>s' w'. wep_encrypt_skb sample_rc4 3 sample_mpdu sample_wep_world = Inr (0, s', w') \<and>
    (\<exists>rx'. ieee80211_crypto_wep_decrypt sample_rc4 (sample_rx s') sample_wep_world = Inr (RX_CONTINUE, rx', sample_wep_world) \<and>
       frame_bytes (rx_skb rx') = frame_bytes sample_mpdu)"
proof -
  have k: "keys sample_wep_world 3 = Some ((sample_key 5)\<lparr>conf_keyidx := 1\<rparr>)"
    by (simp add: sample_wep_world_def put_key_def)
  have ex: "\<exists>s' w'. wep_encrypt_skb sample_rc4 3 sample_mpdu sample_wep_world = Inr (0, s', w') \<and>
    (skb_len (rx_skb (sample_rx t)) = skb_len s' \<and> frame_bytes (rx_skb (sample_rx t)) = frame_bytes s' \<longrightarrow>
    (\<exists>rx'. ieee80211_crypto_wep_decrypt sample_rc4 (sample_rx t) sample_wep_world = Inr (RX_CONTINUE, rx', sample_wep_world) \<and>
       frame_bytes (rx_skb rx') = frame_bytes sample_mpdu))" for t
    by (rule wep_round_trip [OF sample_rc4_correct sample_mpdu_facts(1,2) _ _ _ _ sample_mpdu_facts(7) k _ _ _ _ k])
      (simp_all add: sample_mpdu_facts sample_rx_def sample_key_def ieee80211_has_protected_def)
  obtain s' w' where s': "wep_encrypt_skb sample_rc4 3 sample_mpdu sample_wep_world = Inr (0, s', w')"
    using ex [of sample_mpdu] by blast
  have "rx_skb (sample_rx s') = s'" by (simp add: sample_rx_def)
  with s' ex [of s'] show ?thesis by auto
qed

text \<open>
  No weak vector is used. Whatever the value of the counter, the initialisation vector that goes out with a
  frame is not one of those the source calls weak for the length of the key, and it is the counter's
  new value in network order with the key index behind it.
\<close>

theorem wep_iv_never_weak:
  "case ieee80211_wep_get_iv keylen keyidx w of (iv, w') \<Rightarrow>
     \<not> ieee80211_wep_weak_iv (wep_iv w') keylen \<and>
     iv = [ucast (drop_bit 16 (wep_iv w')), ucast (drop_bit 8 (wep_iv w')), ucast (wep_iv w'), push_bit 6 keyidx]"
proof -
  have byte: "ucast (x AND 0xff) = (ucast x :: u8)" for x :: u32
  proof -
    have "ucast (x AND mask 8) = (ucast x :: u8)" by (intro bit_word_eqI) (auto simp: bit_simps)
    then show ?thesis by (simp add: mask_eq_exp_minus_1)
  qed
  have "\<not> ieee80211_wep_weak_iv (v + 0x100) keylen" if "ieee80211_wep_weak_iv v keylen" for v
  proof -
    have "v AND 0xff00 = 0xff00" using that by (simp add: ieee80211_wep_weak_iv_def)
    from middle_byte_wraps [OF this] show ?thesis by (simp add: ieee80211_wep_weak_iv_def)
  qed
  from this [of "wep_iv w + 1"] show ?thesis by (simp add: ieee80211_wep_get_iv_def Let_def byte add.commute)
qed

end
