(* ===== verification/Tkip.thy ===== *)
theory Tkip
  imports Wep
begin

text \<open>
  TKIP: the key mixing and payload routines of \<^verbatim>\<open>net/mac80211/tkip.c\<close> and, of \<^verbatim>\<open>net/mac80211/wpa.c\<close>, the
  encryption and decryption of a frame and the handlers that add and verify its Michael code.
  The hardware's side of it (\<open>drv_update_tkip_key\<close>) is the driver's and leaves no trace in the state
  other than the one the code records.
\<close>

section \<open>Key mixing\<close>

definition tkip_sbox :: "u16 list" where
  "tkip_sbox =
     [0xC6A5, 0xF884, 0xEE99, 0xF68D, 0xFF0D, 0xD6BD, 0xDEB1, 0x9154,
      0x6050, 0x0203, 0xCEA9, 0x567D, 0xE719, 0xB562, 0x4DE6, 0xEC9A,
      0x8F45, 0x1F9D, 0x8940, 0xFA87, 0xEF15, 0xB2EB, 0x8EC9, 0xFB0B,
      0x41EC, 0xB367, 0x5FFD, 0x45EA, 0x23BF, 0x53F7, 0xE496, 0x9B5B,
      0x75C2, 0xE11C, 0x3DAE, 0x4C6A, 0x6C5A, 0x7E41, 0xF502, 0x834F,
      0x685C, 0x51F4, 0xD134, 0xF908, 0xE293, 0xAB73, 0x6253, 0x2A3F,
      0x080C, 0x9552, 0x4665, 0x9D5E, 0x3028, 0x37A1, 0x0A0F, 0x2FB5,
      0x0E09, 0x2436, 0x1B9B, 0xDF3D, 0xCD26, 0x4E69, 0x7FCD, 0xEA9F,
      0x121B, 0x1D9E, 0x5874, 0x342E, 0x362D, 0xDCB2, 0xB4EE, 0x5BFB,
      0xA4F6, 0x764D, 0xB761, 0x7DCE, 0x527B, 0xDD3E, 0x5E71, 0x1397,
      0xA6F5, 0xB968, 0x0000, 0xC12C, 0x4060, 0xE31F, 0x79C8, 0xB6ED,
      0xD4BE, 0x8D46, 0x67D9, 0x724B, 0x94DE, 0x98D4, 0xB0E8, 0x854A,
      0xBB6B, 0xC52A, 0x4FE5, 0xED16, 0x86C5, 0x9AD7, 0x6655, 0x1194,
      0x8ACF, 0xE910, 0x0406, 0xFE81, 0xA0F0, 0x7844, 0x25BA, 0x4BE3,
      0xA2F3, 0x5DFE, 0x80C0, 0x058A, 0x3FAD, 0x21BC, 0x7048, 0xF104,
      0x63DF, 0x77C1, 0xAF75, 0x4263, 0x2030, 0xE51A, 0xFD0E, 0xBF6D,
      0x814C, 0x1814, 0x2635, 0xC32F, 0xBEE1, 0x35A2, 0x88CC, 0x2E39,
      0x9357, 0x55F2, 0xFC82, 0x7A47, 0xC8AC, 0xBAE7, 0x322B, 0xE695,
      0xC0A0, 0x1998, 0x9ED1, 0xA37F, 0x4466, 0x547E, 0x3BAB, 0x0B83,
      0x8CCA, 0xC729, 0x6BD3, 0x283C, 0xA779, 0xBCE2, 0x161D, 0xAD76,
      0xDB3B, 0x6456, 0x744E, 0x141E, 0x92DB, 0x0C0A, 0x486C, 0xB8E4,
      0x9F5D, 0xBD6E, 0x43EF, 0xC4A6, 0x39A8, 0x31A4, 0xD337, 0xF28B,
      0xD532, 0x8B43, 0x6E59, 0xDAB7, 0x018C, 0xB164, 0x9CD2, 0x49E0,
      0xD8B4, 0xACFA, 0xF307, 0xCF25, 0xCAAF, 0xF48E, 0x47E9, 0x1018,
      0x6FD5, 0xF088, 0x4A6F, 0x5C72, 0x3824, 0x57F1, 0x73C7, 0x9751,
      0xCB23, 0xA17C, 0xE89C, 0x3E21, 0x96DD, 0x61DC, 0x0D86, 0x0F85,
      0xE090, 0x7C42, 0x71C4, 0xCCAA, 0x90D8, 0x0605, 0xF701, 0x1C12,
      0xC2A3, 0x6A5F, 0xAEF9, 0x69D0, 0x1791, 0x9958, 0x3A27, 0x27B9,
      0xD938, 0xEB13, 0x2BB3, 0x2233, 0xD2BB, 0xA970, 0x0789, 0x33A7,
      0x2DB6, 0x3C22, 0x1592, 0xC920, 0x8749, 0xAAFF, 0x5078, 0xA57A,
      0x038F, 0x59F8, 0x0980, 0x1A17, 0x65DA, 0xD731, 0x84C6, 0xD0B8,
      0x82C3, 0x29B0, 0x5A77, 0x1E11, 0x7BCB, 0xA8FC, 0x6DD6, 0x2C3A]"

definition swab16 :: "u16 \<Rightarrow> u16" where
  "swab16 x = push_bit 8 x OR drop_bit 8 x"

definition tkipS :: "u16 \<Rightarrow> u16" where
  "tkipS val = tkip_sbox ! unat (val AND 0xff) XOR swab16 (tkip_sbox ! unat (drop_bit 8 val))"

definition write_tkip_iv :: "u16 \<Rightarrow> u8 list" where
  "write_tkip_iv iv16 =
     [ucast (drop_bit 8 iv16), (ucast (drop_bit 8 iv16) OR 0x20) AND 0x7f, ucast (iv16 AND 0xff)]"

text \<open>\<^verbatim>\<open>get_unaligned_le16(bs + i)\<close>; the mixing functions read all 16 bytes of the temporal key.\<close>

definition le16_get :: "u8 list \<Rightarrow> nat \<Rightarrow> u16" where
  "le16_get bs i = le16_of (bs ! i) (bs ! (i + 1))"

fun phase1_round :: "u8 list \<Rightarrow> nat \<Rightarrow> u16 \<times> u16 \<times> u16 \<times> u16 \<times> u16 \<Rightarrow> u16 \<times> u16 \<times> u16 \<times> u16 \<times> u16" where
  "phase1_round tk i (p0, p1, p2, p3, p4) =
     (let j = 2 * (i mod 2);
          p0 = p0 + tkipS (p4 XOR le16_get tk (0 + j));
          p1 = p1 + tkipS (p0 XOR le16_get tk (4 + j));
          p2 = p2 + tkipS (p1 XOR le16_get tk (8 + j));
          p3 = p3 + tkipS (p2 XOR le16_get tk (12 + j));
          p4 = p4 + (tkipS (p3 XOR le16_get tk (0 + j)) + of_nat i)
      in (p0, p1, p2, p3, p4))"

definition phase1_p1k :: "u8 list \<Rightarrow> mac \<Rightarrow> u32 \<Rightarrow> u16 list" where
  "phase1_p1k tk ta tsc_IV32 =
     (let t = mac_bytes ta in
      case fold (phase1_round tk) [0..<8]
        (ucast (tsc_IV32 AND 0xFFFF), ucast (drop_bit 16 tsc_IV32), le16_get t 0, le16_get t 2, le16_get t 4)
      of (p0, p1, p2, p3, p4) \<Rightarrow> [p0, p1, p2, p3, p4])"

definition tkip_mixing_phase1 :: "u8 list \<Rightarrow> mac \<Rightarrow> u32 \<Rightarrow> tkip_ctx result" where
  "tkip_mixing_phase1 tk ta tsc_IV32 =
     (if length tk < 16 then Inl OutOfBounds
      else Inr \<lparr>p1k = phase1_p1k tk ta tsc_IV32, p1k_iv32 = tsc_IV32, tkip_state = TKIP_STATE_PHASE1_DONE\<rparr>)"

definition phase2_key :: "u8 list \<Rightarrow> u16 list \<Rightarrow> u16 \<Rightarrow> u8 list" where
  "phase2_key tk k tsc_IV16 =
     (let ppk0 = k ! 0; ppk1 = k ! 1; ppk2 = k ! 2; ppk3 = k ! 3; ppk4 = k ! 4;
          ppk5 = k ! 4 + tsc_IV16;
          ppk0 = ppk0 + tkipS (ppk5 XOR le16_get tk 0);
          ppk1 = ppk1 + tkipS (ppk0 XOR le16_get tk 2);
          ppk2 = ppk2 + tkipS (ppk1 XOR le16_get tk 4);
          ppk3 = ppk3 + tkipS (ppk2 XOR le16_get tk 6);
          ppk4 = ppk4 + tkipS (ppk3 XOR le16_get tk 8);
          ppk5 = ppk5 + tkipS (ppk4 XOR le16_get tk 10);
          ppk0 = ppk0 + word_rotr 1 (ppk5 XOR le16_get tk 12);
          ppk1 = ppk1 + word_rotr 1 (ppk0 XOR le16_get tk 14);
          ppk2 = ppk2 + word_rotr 1 ppk1;
          ppk3 = ppk3 + word_rotr 1 ppk2;
          ppk4 = ppk4 + word_rotr 1 ppk3;
          ppk5 = ppk5 + word_rotr 1 ppk4
      in write_tkip_iv tsc_IV16 @ [ucast (drop_bit 1 (ppk5 XOR le16_get tk 0) AND 0xff)] @
         concat (map le16_bytes [ppk0, ppk1, ppk2, ppk3, ppk4, ppk5]))"

definition tkip_mixing_phase2 :: "u8 list \<Rightarrow> tkip_ctx \<Rightarrow> u16 \<Rightarrow> u8 list result" where
  "tkip_mixing_phase2 tk ctx tsc_IV16 =
     (if length tk < 16 \<or> length (p1k ctx) < 5 then Inl OutOfBounds else Inr (phase2_key tk (p1k ctx) tsc_IV16))"

abbreviation (input) TKIP_PN_TO_IV16 :: "u64 \<Rightarrow> u16" where "TKIP_PN_TO_IV16 pn \<equiv> ucast (pn AND 0xffff)"
abbreviation (input) TKIP_PN_TO_IV32 :: "u64 \<Rightarrow> u32" where "TKIP_PN_TO_IV32 pn \<equiv> ucast (drop_bit 16 pn AND 0xffffffff)"
abbreviation (input) NL80211_TKIP_DATA_OFFSET_TX_MIC_KEY :: nat where "NL80211_TKIP_DATA_OFFSET_TX_MIC_KEY \<equiv> 16"
abbreviation (input) NL80211_TKIP_DATA_OFFSET_RX_MIC_KEY :: nat where "NL80211_TKIP_DATA_OFFSET_RX_MIC_KEY \<equiv> 24"

text \<open>The eight bytes \<open>ieee80211_tkip_add_iv\<close> writes.\<close>

definition ieee80211_tkip_add_iv :: "u8 \<Rightarrow> u64 \<Rightarrow> u8 list" where
  "ieee80211_tkip_add_iv keyidx pn =
     write_tkip_iv (TKIP_PN_TO_IV16 pn) @ [push_bit 6 keyidx OR push_bit 5 1] @ le32_bytes (TKIP_PN_TO_IV32 pn)"

section \<open>The transmit context\<close>

definition ieee80211_compute_tkip_p1k :: "key_ptr \<Rightarrow> u32 \<Rightarrow> world \<Rightarrow> world result" where
  "ieee80211_compute_tkip_p1k kp iv32 w =
     rbind (deref (keys w) kp) (\<lambda>key.
     let ctx = tkip_tx key in
     if p1k_iv32 ctx \<noteq> iv32 \<or> tkip_state ctx = TKIP_STATE_NOT_INIT then
       (case key_sdata key of
          None \<Rightarrow> Inl NullDeref
        | Some sp \<Rightarrow>
            rbind (deref (sdatas w) sp) (\<lambda>sdata.
            rbind (tkip_mixing_phase1 (conf_key key) (vif_addr sdata) iv32) (\<lambda>ctx.
            Inr (put_key kp (key\<lparr>tkip_tx := ctx\<rparr>) w))))
     else Inr w)"

definition ieee80211_get_tkip_p1k_iv :: "key_ptr \<Rightarrow> u32 \<Rightarrow> world \<Rightarrow> (u16 list \<times> world) result" where
  "ieee80211_get_tkip_p1k_iv kp iv32 w =
     rbind (ieee80211_compute_tkip_p1k kp iv32 w) (\<lambda>w.
     rbind (deref (keys w) kp) (\<lambda>key. Inr (p1k (tkip_tx key), w)))"

definition ieee80211_get_tkip_rx_p1k :: "u8 list \<Rightarrow> mac \<Rightarrow> u32 \<Rightarrow> u16 list result" where
  "ieee80211_get_tkip_rx_p1k key ta iv32 = rbind (tkip_mixing_phase1 key ta iv32) (\<lambda>ctx. Inr (p1k ctx))"

text \<open>\<open>bs\<close> are the bytes of the frame; its counter is read back from the vector behind the header.\<close>

definition ieee80211_get_tkip_p2k :: "key_ptr \<Rightarrow> u8 list \<Rightarrow> world \<Rightarrow> (u8 list \<times> world) result" where
  "ieee80211_get_tkip_p2k kp bs w =
     rbind (hdr_fc bs) (\<lambda>fc.
     let data = drop (ieee80211_hdrlen fc) bs in
     rbind (le32_at data 4) (\<lambda>iv32.
     let iv16 = le16_of (data ! 2) (data ! 0) in
     rbind (ieee80211_compute_tkip_p1k kp iv32 w) (\<lambda>w.
     rbind (deref (keys w) kp) (\<lambda>key.
     rbind (tkip_mixing_phase2 (conf_key key) (tkip_tx key) iv16) (\<lambda>p2k. Inr (p2k, w))))))"

section \<open>Payload routines\<close>

definition ieee80211_tkip_encrypt_data ::
  "rc4_lib \<Rightarrow> key_ptr \<Rightarrow> nat \<Rightarrow> nat \<Rightarrow> u8 list \<Rightarrow> world \<Rightarrow> (int \<times> u8 list \<times> world) result" where
  "ieee80211_tkip_encrypt_data R kp pos payload_len bs w =
     rbind (ieee80211_get_tkip_p2k kp bs w) (\<lambda>(rc4key, w).
     rbind (ieee80211_wep_encrypt_data R rc4key pos payload_len bs) (\<lambda>(ret, bs). Inr (ret, bs, w)))"

abbreviation (input) TKIP_DECRYPT_OK :: int where "TKIP_DECRYPT_OK \<equiv> 0"
abbreviation (input) TKIP_DECRYPT_NO_EXT_IV :: int where "TKIP_DECRYPT_NO_EXT_IV \<equiv> - 1"
abbreviation (input) TKIP_DECRYPT_INVALID_KEYIDX :: int where "TKIP_DECRYPT_INVALID_KEYIDX \<equiv> - 2"
abbreviation (input) TKIP_DECRYPT_REPLAY :: int where "TKIP_DECRYPT_REPLAY \<equiv> - 3"

text \<open>The replay check against the last accepted counter of the queue.\<close>

definition tkip_replay :: "tkip_ctx_rx \<Rightarrow> u32 \<Rightarrow> u16 \<Rightarrow> bool" where
  "tkip_replay r iv32 iv16 \<longleftrightarrow>
     iv32 < rx_iv32 r \<or>
     (iv32 = rx_iv32 r \<and>
      (iv16 < rx_iv16 r \<or>
       (iv16 = rx_iv16 r \<and>
        (rx_iv32 r \<noteq> 0 \<or> rx_iv16 r \<noteq> 0 \<or> tkip_state (rx_ctx r) \<noteq> TKIP_STATE_NOT_INIT))))"

text \<open>
  \<open>upd\<close> says whether the driver has an \<open>update_tkip_key\<close> operation. The payload lies in \<open>bs\<close> from \<open>pos\<close> on.
  The result is the return value, the bytes, the counters stored through \<open>out_iv32\<close> and \<open>out_iv16\<close> if
  they are, and the state.
\<close>

definition tkip_rx_phase1 :: "bool \<Rightarrow> u8 list \<Rightarrow> ieee80211_key \<Rightarrow> mac \<Rightarrow> u32 \<Rightarrow> tkip_ctx_rx \<Rightarrow> tkip_ctx result" where
  "tkip_rx_phase1 upd tk key ta iv32 r =
     rbind (if tkip_state (rx_ctx r) = TKIP_STATE_NOT_INIT \<or> rx_iv32 r \<noteq> iv32
            then tkip_mixing_phase1 tk ta iv32 else Inr (rx_ctx r)) (\<lambda>ctx.
     if upd \<and> key_flags key AND KEY_FLAG_UPLOADED_TO_HARDWARE \<noteq> 0 \<and>
        tkip_state ctx \<noteq> TKIP_STATE_PHASE1_HW_UPLOADED
     then (if key_sdata key = None then Inl NullDeref
           else Inr (ctx\<lparr>tkip_state := TKIP_STATE_PHASE1_HW_UPLOADED\<rparr>))
     else Inr ctx)"

definition ieee80211_tkip_decrypt_data ::
  "rc4_lib \<Rightarrow> bool \<Rightarrow> key_ptr \<Rightarrow> nat \<Rightarrow> nat \<Rightarrow> mac \<Rightarrow> bool \<Rightarrow> nat \<Rightarrow> u8 list \<Rightarrow> world \<Rightarrow>
     (int \<times> u8 list \<times> (u32 \<times> u16) option \<times> world) result" where
  "ieee80211_tkip_decrypt_data R upd kp pos payload_len ta only_iv queue bs w =
     (if payload_len < 12 then Inr (- 1, bs, None, w)
      else
        rbind (deref (keys w) kp) (\<lambda>key.
        rbind (arr_get (tkip_rx key) queue) (\<lambda>r.
        let tk = conf_key key; data = drop pos bs in
        rbind (le32_at data 4) (\<lambda>iv32.
        let iv16 = le16_of (data ! 2) (data ! 0); keyid = data ! 3 in
        if keyid AND push_bit 5 1 = 0 then Inr (TKIP_DECRYPT_NO_EXT_IV, bs, None, w)
        else if drop_bit 6 keyid \<noteq> conf_keyidx key then Inr (TKIP_DECRYPT_INVALID_KEYIDX, bs, None, w)
        else if tkip_replay r iv32 iv16 then Inr (TKIP_DECRYPT_REPLAY, bs, None, w)
        else
          let put = (\<lambda>ctx. put_key kp (key\<lparr>tkip_rx := (tkip_rx key)[queue := r\<lparr>rx_ctx := ctx\<rparr>]\<rparr>) w) in
          if only_iv
          then Inr (TKIP_DECRYPT_OK, bs, Some (iv32, iv16),
                    put ((rx_ctx r)\<lparr>tkip_state := TKIP_STATE_PHASE1_HW_UPLOADED\<rparr>))
          else
            rbind (tkip_rx_phase1 upd tk key ta iv32 r) (\<lambda>ctx.
            rbind (tkip_mixing_phase2 tk ctx iv16) (\<lambda>rc4key.
            rbind (ieee80211_wep_decrypt_data R rc4key (pos + 8) (payload_len - 12) bs) (\<lambda>(res, bs).
            Inr (res, bs, if res = TKIP_DECRYPT_OK then Some (iv32, iv16) else None, put ctx))))))))"

section \<open>Frames\<close>

abbreviation (input) MICHAEL_MIC_LEN :: nat where "MICHAEL_MIC_LEN \<equiv> 8"
abbreviation (input) IEEE80211_TKIP_IV_LEN :: nat where "IEEE80211_TKIP_IV_LEN \<equiv> 8"
abbreviation (input) IEEE80211_TKIP_ICV_LEN :: nat where "IEEE80211_TKIP_ICV_LEN \<equiv> 4"
abbreviation (input) WLAN_CIPHER_SUITE_TKIP :: u32 where "WLAN_CIPHER_SUITE_TKIP \<equiv> SUITE 2"
abbreviation (input) IEEE80211_KEY_FLAG_GENERATE_MMIC :: u16 where "IEEE80211_KEY_FLAG_GENERATE_MMIC \<equiv> 0x0004"
abbreviation (input) IEEE80211_KEY_FLAG_PUT_MIC_SPACE :: u16 where "IEEE80211_KEY_FLAG_PUT_MIC_SPACE \<equiv> 0x0100"
abbreviation (input) IEEE80211_TX_INTFL_TKIP_MIC_FAILURE :: u32 where "IEEE80211_TX_INTFL_TKIP_MIC_FAILURE \<equiv> 0x04000000"

text \<open>\<open>tx_frag\<close> says whether the hardware supports fragmentation (\<open>SUPPORTS_TX_FRAG\<close>).\<close>

definition ieee80211_tx_h_michael_mic_add ::
  "bool \<Rightarrow> ieee80211_tx_data \<Rightarrow> world \<Rightarrow> (ieee80211_tx_result \<times> ieee80211_tx_data) result" where
  "ieee80211_tx_h_michael_mic_add tx_frag tx w =
     rbind (tx_skb_of tx) (\<lambda>skb.
     rbind (hdr_fc (skb_data skb)) (\<lambda>fc.
     case tx_key tx of
       None \<Rightarrow> Inr (TX_CONTINUE, tx)
     | Some kp \<Rightarrow>
         rbind (deref (keys w) kp) (\<lambda>key.
         if conf_cipher key \<noteq> WLAN_CIPHER_SUITE_TKIP \<or> skb_len skb < 24 \<or> \<not> ieee80211_is_data_present fc
         then Inr (TX_CONTINUE, tx)
         else
           let hdrlen = ieee80211_hdrlen fc in
           if skb_len skb < hdrlen then Inr (TX_DROP, tx)
           else
             let data_len = skb_len skb - hdrlen;
                 skb = (if info_flags skb AND IEEE80211_TX_INTFL_TKIP_MIC_FAILURE \<noteq> 0
                        then skb\<lparr>info_hw_key := None\<rparr> else skb)
             in if info_hw_key skb \<noteq> None \<and> (info_flags skb AND IEEE80211_TX_CTL_DONTFRAG \<noteq> 0 \<or> tx_frag) \<and>
                   conf_flags key AND (IEEE80211_KEY_FLAG_GENERATE_MMIC OR IEEE80211_KEY_FLAG_PUT_MIC_SPACE) = 0
                then Inr (TX_CONTINUE, tx\<lparr>tx_skb := Some skb\<rparr>)
                else
                  let tail = MICHAEL_MIC_LEN + (if info_hw_key skb = None then IEEE80211_TKIP_ICV_LEN else 0) in
                  if skb_tailroom skb < tail \<or> skb_headroom skb < IEEE80211_TKIP_IV_LEN
                  then Inr (TX_DROP, tx\<lparr>tx_skb := Some skb\<rparr>)
                  else
                    let mic_pos = skb_len skb in
                    rbind (skb_put MICHAEL_MIC_LEN skb) (\<lambda>skb.
                    rbind (if conf_flags key AND IEEE80211_KEY_FLAG_PUT_MIC_SPACE \<noteq> 0
                           then Inr (replicate MICHAEL_MIC_LEN 0)
                           else
                             rbind (michael_mic (drop NL80211_TKIP_DATA_OFFSET_TX_MIC_KEY (conf_key key)) (skb_data skb)
                                      (take data_len (drop hdrlen (skb_data skb)))) (\<lambda>mic.
                             Inr (if info_flags skb AND IEEE80211_TX_INTFL_TKIP_MIC_FAILURE \<noteq> 0
                                  then mic[0 := mic ! 0 + 1] else mic))) (\<lambda>mic.
                    rbind (buf_write (skb_data skb) mic_pos mic) (\<lambda>bs.
                    Inr (TX_CONTINUE, tx\<lparr>tx_skb := Some (skb\<lparr>skb_data := bs\<rparr>)\<rparr>)))))))"

text \<open>The end of the verification: the counter of the frame becomes the last one of its queue.\<close>

definition tkip_update_iv :: "ieee80211_rx_data \<Rightarrow> world \<Rightarrow> (ieee80211_rx_result \<times> ieee80211_rx_data \<times> world) result" where
  "tkip_update_iv rx w =
     (case rx_key rx of
        None \<Rightarrow> Inl NullDeref
      | Some kp \<Rightarrow>
          rbind (deref (keys w) kp) (\<lambda>key.
          rbind (arr_get (tkip_rx key) (security_idx rx)) (\<lambda>r.
          Inr (RX_CONTINUE, rx,
               put_key kp (key\<lparr>tkip_rx := (tkip_rx key)[security_idx rx :=
                 r\<lparr>rx_iv32 := rx_tkip_iv32 rx, rx_iv16 := rx_tkip_iv16 rx\<rparr>]\<rparr>) w))))"

text \<open>The report of a failed code to user space leaves no state here.\<close>

definition tkip_mic_fail :: "ieee80211_rx_data \<Rightarrow> world \<Rightarrow> (ieee80211_rx_result \<times> ieee80211_rx_data \<times> world) result" where
  "tkip_mic_fail rx w =
     (case rx_key rx of
        None \<Rightarrow> Inl NullDeref
      | Some kp \<Rightarrow>
          rbind (deref (keys w) kp) (\<lambda>key.
          Inr (RX_DROP_UNUSABLE, rx, put_key kp (key\<lparr>mic_failures := mic_failures key + 1\<rparr>) w)))"

definition rx_key_of :: "ieee80211_rx_data \<Rightarrow> world \<Rightarrow> ieee80211_key option result" where
  "rx_key_of rx w = (case rx_key rx of None \<Rightarrow> Inr None | Some kp \<Rightarrow> rbind (deref (keys w) kp) (\<lambda>k. Inr (Some k)))"

definition ieee80211_rx_h_michael_mic_verify ::
  "ieee80211_rx_data \<Rightarrow> world \<Rightarrow> (ieee80211_rx_result \<times> ieee80211_rx_data \<times> world) result" where
  "ieee80211_rx_h_michael_mic_verify rx w =
     (let skb = rx_skb rx; flag = rx_status_flag rx in
      rbind (hdr_fc (skb_data skb)) (\<lambda>fc.
      if \<not> ieee80211_is_data_present fc then Inr (RX_CONTINUE, rx, w)
      else
        rbind (rx_key_of rx w) (\<lambda>key.
        let tkip = (case key of None \<Rightarrow> False | Some k \<Rightarrow> conf_cipher k = WLAN_CIPHER_SUITE_TKIP) in
        if flag AND (RX_FLAG_MMIC_STRIPPED OR RX_FLAG_IV_STRIPPED) \<noteq> 0 then
          if flag AND RX_FLAG_MMIC_ERROR \<noteq> 0 then Inr (RX_DROP_UNUSABLE, rx, w)
          else if flag AND RX_FLAG_IV_STRIPPED = 0 \<and> tkip then tkip_update_iv rx w
          else Inr (RX_CONTINUE, rx, w)
        else if \<not> tkip \<or> flag AND RX_FLAG_DECRYPTED = 0 then Inr (RX_CONTINUE, rx, w)
        else
          rbind (case rx_sdata rx of None \<Rightarrow> Inl NullDeref | Some sp \<Rightarrow> deref (sdatas w) sp) (\<lambda>sdata.
          if vif_type sdata = NL80211_IFTYPE_AP \<and> conf_keyidx (the key) \<noteq> 0 then Inr (RX_DROP_UNUSABLE, rx, w)
          else if flag AND RX_FLAG_MMIC_ERROR \<noteq> 0 then tkip_mic_fail rx w
          else
            let hdrlen = ieee80211_hdrlen fc in
            if skb_len skb < hdrlen + MICHAEL_MIC_LEN then Inr (RX_DROP_UNUSABLE, rx, w)
            else
              let data_len = skb_len skb - hdrlen - MICHAEL_MIC_LEN;
                  data = drop hdrlen (skb_data skb)
              in rbind (michael_mic (drop NL80211_TKIP_DATA_OFFSET_RX_MIC_KEY (conf_key (the key))) (skb_data skb)
                          (take data_len data)) (\<lambda>mic.
                 if mic \<noteq> take MICHAEL_MIC_LEN (drop data_len data) then tkip_mic_fail rx w
                 else tkip_update_iv (rx\<lparr>rx_skb := skb_trim (skb_len skb - MICHAEL_MIC_LEN) skb\<rparr>) w)))))"

definition tkip_encrypt_skb :: "rc4_lib \<Rightarrow> key_ptr \<Rightarrow> sk_buff \<Rightarrow> world \<Rightarrow> (int \<times> sk_buff \<times> world) result" where
  "tkip_encrypt_skb R kp skb w =
     rbind (hw_key_flags w skb) (\<lambda>hw.
     if (case hw of None \<Rightarrow> False
         | Some f \<Rightarrow> f AND IEEE80211_KEY_FLAG_GENERATE_IV = 0 \<and> f AND IEEE80211_KEY_FLAG_PUT_IV_SPACE = 0)
     then Inr (0, skb, w)
     else
       rbind (hdr_fc (skb_data skb)) (\<lambda>fc.
       let hdrlen = ieee80211_hdrlen fc;
           len = skb_len skb - hdrlen;
           tail = (if hw \<noteq> None then 0 else IEEE80211_TKIP_ICV_LEN)
       in if skb_tailroom skb < tail \<or> skb_headroom skb < IEEE80211_TKIP_IV_LEN then Inr (- 1, skb, w)
          else
            rbind (skb_push IEEE80211_TKIP_IV_LEN skb) (\<lambda>skb'.
            rbind (move_hdr_down IEEE80211_TKIP_IV_LEN hdrlen (skb_data skb')) (\<lambda>bs.
            if (case hw of None \<Rightarrow> False | Some f \<Rightarrow> f AND IEEE80211_KEY_FLAG_PUT_IV_SPACE \<noteq> 0)
            then Inr (0, skb'\<lparr>skb_data := bs\<rparr>, w)
            else
              rbind (deref (keys w) kp) (\<lambda>key.
              rbind (inc_tx_pn kp w) (\<lambda>(pn, w).
              rbind (buf_write bs hdrlen (ieee80211_tkip_add_iv (conf_keyidx key) pn)) (\<lambda>bs.
              if hw \<noteq> None then Inr (0, skb'\<lparr>skb_data := bs\<rparr>, w)
              else
                rbind (skb_put IEEE80211_TKIP_ICV_LEN (skb'\<lparr>skb_data := bs\<rparr>)) (\<lambda>skb'.
                if skb_len skb < hdrlen then Inl OutOfBounds
                else
                  rbind (ieee80211_tkip_encrypt_data R kp (hdrlen + IEEE80211_TKIP_IV_LEN) len bs w) (\<lambda>(ret, bs, w).
                  Inr (ret, skb'\<lparr>skb_data := bs\<rparr>, w))))))))))"

definition ieee80211_crypto_tkip_encrypt ::
  "rc4_lib \<Rightarrow> ieee80211_tx_data \<Rightarrow> world \<Rightarrow> (ieee80211_tx_result \<times> ieee80211_tx_data \<times> world) result" where
  "ieee80211_crypto_tkip_encrypt R = crypto_encrypt (tkip_encrypt_skb R)"

text \<open>
  \<^verbatim>\<open>skb->len - hdrlen < 12\<close> is an unsigned comparison: a frame shorter than its header passes it.
\<close>

definition u32_sub :: "nat \<Rightarrow> nat \<Rightarrow> nat" where
  "u32_sub a b = (a + 2 ^ 32 - b) mod 2 ^ 32"

lemma u32_sub_ok:
  assumes "b \<le> a" and "a < 2 ^ 32"
  shows "u32_sub a b = a - b"
proof -
  have "a + 2 ^ 32 - b = (a - b) + 2 ^ 32" "a - b < 2 ^ 32" using assms by simp_all
  then show ?thesis by (simp only: u32_sub_def mod_add_self2 mod_less)
qed

definition ieee80211_crypto_tkip_decrypt ::
  "rc4_lib \<Rightarrow> bool \<Rightarrow> ieee80211_rx_data \<Rightarrow> world \<Rightarrow> (ieee80211_rx_result \<times> ieee80211_rx_data \<times> world) result" where
  "ieee80211_crypto_tkip_decrypt R upd rx w =
     (let skb = rx_skb rx; flag = rx_status_flag rx in
      rbind (hdr_fc (skb_data skb)) (\<lambda>fc.
      let hdrlen = ieee80211_hdrlen fc in
      if \<not> ieee80211_is_data fc then Inr (RX_CONTINUE, rx, w)
      else
        let payload_len = u32_sub (skb_len skb) hdrlen in
        case rx_sta rx of
          None \<Rightarrow> Inr (RX_DROP_UNUSABLE, rx, w)
        | Some p \<Rightarrow>
            if payload_len < 12 then Inr (RX_DROP_UNUSABLE, rx, w)
            else
              rbind (deref (stas w) p) (\<lambda>sta.
              case rx_key rx of
                None \<Rightarrow> Inl NullDeref
              | Some kp \<Rightarrow>
                  rbind (ieee80211_tkip_decrypt_data R upd kp hdrlen payload_len (sta_addr sta)
                           (flag AND RX_FLAG_DECRYPTED \<noteq> 0) (security_idx rx) (skb_data skb) w) (\<lambda>(res, bs, out, w).
                  let skb = skb\<lparr>skb_data := bs\<rparr>;
                      rx = (case out of None \<Rightarrow> rx
                            | Some (iv32, iv16) \<Rightarrow> rx\<lparr>rx_tkip_iv32 := iv32, rx_tkip_iv16 := iv16\<rparr>)
                  in if res \<noteq> TKIP_DECRYPT_OK then Inr (RX_DROP_UNUSABLE, rx\<lparr>rx_skb := skb\<rparr>, w)
                     else
                       rbind (strip_mpdu IEEE80211_TKIP_IV_LEN hdrlen
                                (if flag AND RX_FLAG_ICV_STRIPPED = 0 then IEEE80211_TKIP_ICV_LEN else 0) skb) (\<lambda>skb.
                       Inr (RX_CONTINUE, rx\<lparr>rx_skb := skb\<rparr>, w))))))"

section \<open>Facts about the counter and the mixing\<close>

lemma le32_of_bytes: "le32_of (ucast x) (ucast (drop_bit 8 x)) (ucast (drop_bit 16 x)) (ucast (drop_bit 24 x)) = x"
  unfolding le32_of_def
  apply (rule bit_word_eqI)
  subgoal for n by (cases "n < 16"; cases "n < 24") (auto simp: bit_simps)
  done

lemma le16_of_low_byte: "le16_of (ucast (x AND 0xff)) (ucast (drop_bit 8 x)) = x"
proof -
  have "ucast (x AND mask 8) = (ucast x :: u8)" for x :: u16 by (intro bit_word_eqI) (auto simp: bit_simps)
  then have "ucast (x AND 0xff) = (ucast x :: u8)" by (simp add: mask_eq_exp_minus_1)
  then show ?thesis by simp
qed

lemma length_tkip_add_iv [simp]: "length (ieee80211_tkip_add_iv k pn) = 8"
  by (simp add: ieee80211_tkip_add_iv_def write_tkip_iv_def le32_bytes_def)

lemma ext_iv_bits:
  assumes "(k :: u8) < 4"
  shows "(push_bit 6 k OR push_bit 5 1) AND push_bit 5 1 \<noteq> 0" "drop_bit 6 (push_bit 6 k OR push_bit 5 1) = k"
proof -
  have "unat k < 4" using assms by (simp add: word_less_nat_alt)
  then have "unat k = 0 \<or> unat k = 1 \<or> unat k = 2 \<or> unat k = 3" by auto
  then have "k \<in> {0, 1, 2, 3}" by (auto simp: word_unat_eq_iff)
  then show "(push_bit 6 k OR push_bit 5 1) AND push_bit 5 1 \<noteq> 0" "drop_bit 6 (push_bit 6 k OR push_bit 5 1) = k"
    by auto
qed

text \<open>What the receiver reads of the vector the sender wrote.\<close>

lemma tkip_iv_fields:
  fixes pn :: u64 and k :: u8
  defines "x \<equiv> ieee80211_tkip_add_iv k pn"
  shows "le32_at (x @ y) 4 = Inr (TKIP_PN_TO_IV32 pn)" "le16_of ((x @ y) ! 2) ((x @ y) ! 0) = TKIP_PN_TO_IV16 pn"
    "(x @ y) ! 3 = push_bit 6 k OR push_bit 5 1"
  by (simp_all add: x_def ieee80211_tkip_add_iv_def write_tkip_iv_def le32_bytes_def le32_at_def le32_of_bytes
      le16_of_low_byte del: push_bit_of_1)

definition p1k_ok :: "u8 list \<Rightarrow> mac \<Rightarrow> tkip_ctx \<Rightarrow> bool" where
  "p1k_ok tk ta ctx \<longleftrightarrow> tkip_state ctx = TKIP_STATE_NOT_INIT \<or> p1k ctx = phase1_p1k tk ta (p1k_iv32 ctx)"

lemma length_phase1_p1k [simp]: "length (phase1_p1k tk ta iv) = 5"
  by (simp add: phase1_p1k_def Let_def split: prod.split)

lemma compute_p1k_ok:
  assumes "keys w kp = Some key" and "key_sdata key = Some sp" and "sdatas w sp = Some sd"
    and "16 \<le> length (conf_key key)" and "p1k_ok (conf_key key) (vif_addr sd) (tkip_tx key)"
  shows "\<exists>ctx. ieee80211_compute_tkip_p1k kp iv32 w = Inr (w\<lparr>keys := (keys w)(kp \<mapsto> key\<lparr>tkip_tx := ctx\<rparr>)\<rparr>) \<and>
    p1k ctx = phase1_p1k (conf_key key) (vif_addr sd) iv32 \<and> p1k_iv32 ctx = iv32 \<and>
    p1k_ok (conf_key key) (vif_addr sd) ctx"
proof (cases "p1k_iv32 (tkip_tx key) \<noteq> iv32 \<or> tkip_state (tkip_tx key) = TKIP_STATE_NOT_INIT")
  case True
  then show ?thesis
    using assms by (auto simp: ieee80211_compute_tkip_p1k_def tkip_mixing_phase1_def p1k_ok_def put_key_def)
next
  case False
  moreover have "w\<lparr>keys := (keys w)(kp \<mapsto> key)\<rparr> = w"
    using assms(1) by (simp add: fun_upd_idem)
  ultimately show ?thesis
    using assms by (intro exI [of _ "tkip_tx key"]) (auto simp: ieee80211_compute_tkip_p1k_def p1k_ok_def)
qed

lemma phase2_ok: "16 \<le> length tk \<Longrightarrow> length (p1k ctx) = 5 \<Longrightarrow> tkip_mixing_phase2 tk ctx iv16 = Inr (phase2_key tk (p1k ctx) iv16)"
  by (simp add: tkip_mixing_phase2_def)

text \<open>The RC4 key of a frame, as the standard defines it from the temporal key, the sender and the counter.\<close>

definition tkip_frame_key :: "u8 list \<Rightarrow> mac \<Rightarrow> u64 \<Rightarrow> u8 list" where
  "tkip_frame_key tk ta pn = phase2_key tk (phase1_p1k tk ta (TKIP_PN_TO_IV32 pn)) (TKIP_PN_TO_IV16 pn)"

section \<open>Encryption and decryption\<close>

lemma tkip_encrypt_ok:
  assumes R: "rc4_correct R" and fc: "hdr_fc (skb_data s) = Inr fc"
    and s: "skb_data s = h @ p @ t" "length h = ieee80211_hdrlen fc" "24 \<le> length h" "skb_len s = length h + length p"
      "4 \<le> length t" "8 \<le> skb_headroom s" "info_hw_key s = None"
    and k: "keys w kp = Some key" "16 \<le> length (conf_key key)" "key_sdata key = Some sp" "sdatas w sp = Some sd"
      "p1k_ok (conf_key key) (vif_addr sd) (tkip_tx key)"
  defines "pn \<equiv> conf_tx_pn key + 1"
  defines "x \<equiv> ieee80211_tkip_add_iv (conf_keyidx key) pn"
  defines "c \<equiv> arc4 R (tkip_frame_key (conf_key key) (vif_addr sd) pn) (p @ wep_icv R p)"
  shows "\<exists>s' w'. tkip_encrypt_skb R kp s w = Inr (0, s', w') \<and> skb_data s' = h @ x @ c @ drop 4 t \<and>
    skb_len s' = length h + 8 + length p + 4"
proof -
  obtain hd r where push: "length r = 8"
      "skb_push 8 s = Inr (s\<lparr>skb_head := hd, skb_data := r @ h @ p @ t, skb_len := length h + length p + 8\<rparr>)"
    using skb_push_ok [OF s(6)] s(1,4) by auto
  have x: "length x = 8" by (simp add: x_def)
  have mv: "move_hdr_down 8 (length h) (r @ h @ p @ t) = Inr (h @ drop (length h) (r @ h @ p @ t))"
    using push(1) move_hdr_down_push [of r 8 "length h" "h @ p @ t"] by simp
  have ins: "buf_write (h @ drop (length h) (r @ h @ p @ t)) (length h) x = Inr (h @ x @ p @ t)"
    using insert_after_hdr [of r x 8 "length h" "h @ p @ t"] push(1) x by simp
  have fcx: "hdr_fc (h @ x @ p @ t) = Inr fc"
    using fc s(1,3) hdr_fields_of_take(1) [of "length h" "h @ x @ p @ t" "skb_data s"] by simp
  define w1 where "w1 = put_key kp (key\<lparr>conf_tx_pn := pn\<rparr>) w"
  have k1: "keys w1 kp = Some (key\<lparr>conf_tx_pn := pn\<rparr>)" "sdatas w1 sp = Some sd"
    using k(4) by (simp_all add: w1_def put_key_def)
  obtain ctx where ctx: "ieee80211_compute_tkip_p1k kp (TKIP_PN_TO_IV32 pn) w1 =
        Inr (w1\<lparr>keys := (keys w1)(kp \<mapsto> key\<lparr>conf_tx_pn := pn, tkip_tx := ctx\<rparr>)\<rparr>)"
      "p1k ctx = phase1_p1k (conf_key key) (vif_addr sd) (TKIP_PN_TO_IV32 pn)"
    using compute_p1k_ok [OF k1(1) _ k1(2), of "TKIP_PN_TO_IV32 pn"] k by auto
  define w2 where "w2 = w1\<lparr>keys := (keys w1)(kp \<mapsto> key\<lparr>conf_tx_pn := pn, tkip_tx := ctx\<rparr>)\<rparr>"
  have p2k: "ieee80211_get_tkip_p2k kp (h @ x @ p @ t) w1 = Inr (tkip_frame_key (conf_key key) (vif_addr sd) pn, w2)"
    using fcx ctx(1) [folded w2_def] ctx(2) k(2) tkip_iv_fields [of "conf_keyidx key" pn "p @ t", folded x_def] s(2) [symmetric]
    by (simp add: ieee80211_get_tkip_p2k_def tkip_frame_key_def phase2_ok w2_def)
  have enc: "ieee80211_wep_encrypt_data R (tkip_frame_key (conf_key key) (vif_addr sd) pn) (length h + 8) (length p)
      (h @ x @ p @ t) = Inr (0, h @ x @ c @ drop 4 t)"
    using wep_encrypt_data_ok [OF R, of "h @ x" "length h + 8" t _ p] s(5) x by (simp add: c_def)
  have inc: "inc_tx_pn kp w = Inr (pn, w1)" using k(1) by (simp add: inc_tx_pn_def w1_def pn_def Let_def)
  show ?thesis
    using fc s k(1) push mv ins x inc p2k enc
    unfolding tkip_encrypt_skb_def hw_key_flags_def ieee80211_tkip_encrypt_data_def skb_tailroom_def skb_put_def
    by (simp add: Let_def x_def [symmetric])
qed

text \<open>The receiver's context of a queue: what it caches is the phase 1 key of the last accepted counter.\<close>

definition rx_p1k_ok :: "u8 list \<Rightarrow> mac \<Rightarrow> tkip_ctx_rx \<Rightarrow> bool" where
  "rx_p1k_ok tk ta r \<longleftrightarrow> tkip_state (rx_ctx r) = TKIP_STATE_NOT_INIT \<or> p1k (rx_ctx r) = phase1_p1k tk ta (rx_iv32 r)"

lemma tkip_rx_phase1_ok:
  assumes "rx_p1k_ok tk ta r" and "16 \<le> length tk" and "key_sdata key \<noteq> None"
  shows "\<exists>ctx. tkip_rx_phase1 upd tk key ta iv32 r = Inr ctx \<and> p1k ctx = phase1_p1k tk ta iv32 \<and>
    tkip_state ctx \<noteq> TKIP_STATE_NOT_INIT"
  using assms by (auto simp: tkip_rx_phase1_def rx_p1k_ok_def tkip_mixing_phase1_def)

lemma tkip_decrypt_ok:
  assumes R: "rc4_correct R" and fc: "hdr_fc (skb_data (rx_skb rx)) = Inr fc" "ieee80211_is_data fc"
    and s: "skb_data (rx_skb rx) = h @ x @ arc4 R (tkip_frame_key (conf_key key) (sta_addr sta) pn) (p @ wep_icv R p) @ t"
      "x = ieee80211_tkip_add_iv (conf_keyidx key) pn"
      "length h = ieee80211_hdrlen fc" "skb_len (rx_skb rx) = length h + 8 + length p + 4" "skb_len (rx_skb rx) < 2 ^ 32"
    and r: "rx_status_flag rx = 0" "rx_key rx = Some kp" "keys v kp = Some key" "rx_sta rx = Some sp" "stas v sp = Some sta"
      "16 \<le> length (conf_key key)" "conf_keyidx key < 4" "key_sdata key \<noteq> None" "security_idx rx < length (tkip_rx key)"
    and q: "tkip_rx key ! security_idx rx = r" "rx_p1k_ok (conf_key key) (sta_addr sta) r"
      "\<not> tkip_replay r (TKIP_PN_TO_IV32 pn) (TKIP_PN_TO_IV16 pn)"
  shows "\<exists>s' ctx. ieee80211_crypto_tkip_decrypt R upd rx v =
      Inr (RX_CONTINUE, rx\<lparr>rx_skb := s', rx_tkip_iv32 := TKIP_PN_TO_IV32 pn, rx_tkip_iv16 := TKIP_PN_TO_IV16 pn\<rparr>,
        put_key kp (key\<lparr>tkip_rx := (tkip_rx key)[security_idx rx := r\<lparr>rx_ctx := ctx\<rparr>]\<rparr>) v) \<and>
    p1k ctx = phase1_p1k (conf_key key) (sta_addr sta) (TKIP_PN_TO_IV32 pn) \<and>
    skb_len s' = length h + length p \<and> (\<exists>t'. skb_data s' = h @ p @ t')"
proof -
  let ?k = "tkip_frame_key (conf_key key) (sta_addr sta) pn" and ?bs = "skb_data (rx_skb rx)" and ?hl = "ieee80211_hdrlen fc"
  let ?iv32 = "TKIP_PN_TO_IV32 pn" and ?iv16 = "TKIP_PN_TO_IV16 pn"
  have x8: "length x = 8" by (simp add: s(2))
  obtain ctx where ctx: "tkip_rx_phase1 upd (conf_key key) key (sta_addr sta) ?iv32 r = Inr ctx"
      "p1k ctx = phase1_p1k (conf_key key) (sta_addr sta) ?iv32"
    using tkip_rx_phase1_ok [OF q(2) r(6,8), of upd ?iv32] by auto
  have p2: "tkip_mixing_phase2 (conf_key key) ctx ?iv16 = Inr ?k"
    using phase2_ok [OF r(6)] ctx(2) by (simp add: tkip_frame_key_def)
  have dec: "ieee80211_wep_decrypt_data R ?k (?hl + 8) (length p) ?bs = Inr (0, h @ x @ p @ wep_icv R p @ t)"
    using wep_decrypt_data_ok [OF R, of "h @ x" "?hl + 8" ?k p t] s(1,3) x8 by simp
  have plen: "u32_sub (skb_len (rx_skb rx)) ?hl = length p + 12" using u32_sub_ok [of ?hl "skb_len (rx_skb rx)"] s(3-5) by simp
  have data: "drop ?hl ?bs = x @ arc4 R ?k (p @ wep_icv R p) @ t" using s(1,3) by simp
  have dd: "ieee80211_tkip_decrypt_data R upd kp ?hl (length p + 12) (sta_addr sta) False (security_idx rx) ?bs v =
      Inr (0, h @ x @ p @ wep_icv R p @ t, Some (?iv32, ?iv16),
        put_key kp (key\<lparr>tkip_rx := (tkip_rx key)[security_idx rx := r\<lparr>rx_ctx := ctx\<rparr>]\<rparr>) v)"
    unfolding ieee80211_tkip_decrypt_data_def data Let_def
    using tkip_iv_fields [of "conf_keyidx key" pn "arc4 R ?k (p @ wep_icv R p) @ t", folded s(2)]
      ext_iv_bits [OF r(7)] r(3,9) q(1,3) ctx(1) p2 dec by simp
  let ?s = "(rx_skb rx)\<lparr>skb_data := h @ x @ p @ wep_icv R p @ t\<rparr>"
  obtain s' where s': "strip_mpdu 8 ?hl 4 ?s = Inr s'" "skb_data s' = h @ p @ wep_icv R p @ t" "skb_len s' = ?hl + length p"
    using strip_mpdu_ok [of ?s h x p "wep_icv R p @ t" ?hl 8 4] s(3,4) x8 by auto
  have "ieee80211_crypto_tkip_decrypt R upd rx v =
      Inr (RX_CONTINUE, rx\<lparr>rx_skb := s', rx_tkip_iv32 := ?iv32, rx_tkip_iv16 := ?iv16\<rparr>,
        put_key kp (key\<lparr>tkip_rx := (tkip_rx key)[security_idx rx := r\<lparr>rx_ctx := ctx\<rparr>]\<rparr>) v)"
    unfolding ieee80211_crypto_tkip_decrypt_def Let_def
    using fc r(1,2,4,5) plen dd s'(1) by simp
  then show ?thesis using ctx(2) s'(2,3) s(3) by auto
qed

text \<open>The code depends on the first 32 bytes of the frame and the data.\<close>

lemma michael_mic_prefix:
  assumes "take 32 bs = take 32 bs'" and "32 \<le> length bs" and "32 \<le> length bs'"
  shows "michael_mic k bs d = michael_mic k bs' d"
proof -
  obtain h where h: "hdr_load bs = Inr h" using hdr_load_ok [of bs] assms(2) by auto
  then have h': "hdr_load bs' = Inr h" using hdr_load_prefix [OF assms(1) _ assms(2,3)] by simp
  obtain tid where "mpdu_qos_tid (frame_control h) bs = Inr tid" "mpdu_qos_tid (frame_control h) bs' = Inr tid"
    using qos_tid_prefix [OF hdr_load_fields(2) [OF h] assms(1) order_refl assms(2,3)] by blast
  then show ?thesis
    using h h' by (simp add: michael_mic_def michael_mic_hdr_def mpdu_qos_tid_def)
qed

lemma michael_mic_ok:
  assumes "8 \<le> length k" and "32 \<le> length bs"
  shows "\<exists>mic. michael_mic k bs d = Inr mic \<and> length mic = 8"
proof -
  obtain h where h: "hdr_load bs = Inr h" using hdr_load_ok [of bs] assms(2) by auto
  obtain tid where "mpdu_qos_tid (frame_control h) bs = Inr tid"
    using qos_tid_prefix [OF hdr_load_fields(2) [OF h] refl order_refl assms(2,2)] by blast
  then obtain m where m: "michael_mic_hdr k bs = Inr m"
    using h assms(1) by (simp add: michael_mic_hdr_def mpdu_qos_tid_def le32_at_def Let_def)
  obtain m' where "michael_blocks d [0..<length d div 4] m = Inr m'"
    using michael_blocks_eq [of 0 "length d div 4" d m] by simp
  moreover obtain v where "michael_left d (length d div 4) (length d mod 4) 0x5a = Inr v"
    using michael_left_eq [of d "length d div 4" "length d mod 4"] by auto
  ultimately show ?thesis using m by (simp add: michael_mic_def Let_def)
qed

lemma mic_add_ok:
  assumes t: "tx_skb tx = Some s" "tx_key tx = Some kp" "keys w kp = Some key" "conf_cipher key = WLAN_CIPHER_SUITE_TKIP"
      "conf_flags key AND IEEE80211_KEY_FLAG_PUT_MIC_SPACE = 0" "24 \<le> length (conf_key key)"
    and fc: "hdr_fc (skb_data s) = Inr fc" "ieee80211_is_data_present fc"
    and s: "skb_data s = h @ p @ m @ t" "length h = ieee80211_hdrlen fc" "skb_len s = length h + length p" "32 \<le> skb_len s"
      "length m = 8" "4 \<le> length t" "8 \<le> skb_headroom s" "info_hw_key s = None" 
      "info_flags s AND IEEE80211_TX_INTFL_TKIP_MIC_FAILURE = 0"
    and mic: "michael_mic (drop 16 (conf_key key)) (skb_data s) p = Inr mic" "length mic = 8"
  shows "ieee80211_tx_h_michael_mic_add tx_frag tx w =
    Inr (TX_CONTINUE, tx\<lparr>tx_skb := Some (s\<lparr>skb_data := h @ p @ mic @ t, skb_len := skb_len s + 8\<rparr>)\<rparr>)"
proof -
  have put: "skb_put 8 s = Inr (s\<lparr>skb_len := skb_len s + 8\<rparr>)"
    using s(1,3,5) by (simp add: skb_put_def skb_tailroom_def)
  have wr: "buf_write (h @ p @ m @ t) (length h + length p) mic = Inr (h @ p @ mic @ t)"
    using buf_write_mid [of "h @ p" "length h + length p" mic m t] s(5) mic(2) by simp
  have tail: "\<not> skb_tailroom s < 12" using s(1,3,5,6) by (simp add: skb_tailroom_def)
  show ?thesis
    using t fc(1,2) s(2-4,7,8,9) put wr tail mic s(1)
    by (simp add: ieee80211_tx_h_michael_mic_add_def tx_skb_of_def Let_def)
qed

lemma mic_verify_ok:
  assumes r: "rx_key rx = Some kp" "keys v kp = Some key" "conf_cipher key = WLAN_CIPHER_SUITE_TKIP"
      "rx_status_flag rx = RX_FLAG_DECRYPTED" "rx_sdata rx = Some sp" "sdatas v sp = Some sd"
      "vif_type sd = NL80211_IFTYPE_AP \<longrightarrow> conf_keyidx key = 0" "security_idx rx < length (tkip_rx key)"
    and fc: "hdr_fc (skb_data (rx_skb rx)) = Inr fc" "ieee80211_is_data_present fc"
    and s: "skb_data (rx_skb rx) = h @ p @ mic @ t" "length h = ieee80211_hdrlen fc" "length mic = 8"
      "skb_len (rx_skb rx) = length h + length p + 8"
    and mic: "michael_mic (drop 24 (conf_key key)) (skb_data (rx_skb rx)) p = Inr mic"
  defines "r \<equiv> tkip_rx key ! security_idx rx"
  shows "\<exists>s'. ieee80211_rx_h_michael_mic_verify rx v =
      Inr (RX_CONTINUE, rx\<lparr>rx_skb := s'\<rparr>,
        put_key kp (key\<lparr>tkip_rx := (tkip_rx key)[security_idx rx :=
          r\<lparr>rx_iv32 := rx_tkip_iv32 rx, rx_iv16 := rx_tkip_iv16 rx\<rparr>]\<rparr>) v) \<and> frame_bytes s' = h @ p"
proof -
  let ?s = "skb_trim (skb_len (rx_skb rx) - 8) (rx_skb rx)"
  have "frame_bytes ?s = h @ p" using s by (simp add: frame_bytes_def skb_trim_def)
  moreover have "ieee80211_rx_h_michael_mic_verify rx v =
      Inr (RX_CONTINUE, rx\<lparr>rx_skb := ?s\<rparr>, put_key kp (key\<lparr>tkip_rx := (tkip_rx key)[security_idx rx :=
          r\<lparr>rx_iv32 := rx_tkip_iv32 rx, rx_iv16 := rx_tkip_iv16 rx\<rparr>]\<rparr>) v)"
    using assms by (simp add: ieee80211_rx_h_michael_mic_verify_def tkip_update_iv_def rx_key_of_def Let_def)
  ultimately show ?thesis by blast
qed

text \<open>The mixing reads the temporal key, the Michael key its own eight bytes.\<close>

lemma tkip_frame_key_prefix:
  assumes "take 16 tk = take 16 tk'"
  shows "tkip_frame_key tk ta pn = tkip_frame_key tk' ta pn" 
proof -
  have "tk ! i = tk' ! i" if "i < 16" for i
    using arg_cong [OF assms, of "\<lambda>xs. xs ! i"] that by simp
  then have g: "le16_get tk i = le16_get tk' i" if "i < 15" for i using that by (simp add: le16_get_def)
  have "phase1_round tk = phase1_round tk'"
  proof (intro ext)
    fix i :: nat and x :: "u16 \<times> u16 \<times> u16 \<times> u16 \<times> u16"
    have "2 * (i mod 2) < 3" by simp
    then show "phase1_round tk i x = phase1_round tk' i x"
      by (cases x) (simp add: g Let_def)
  qed
  then have "phase1_p1k tk ta iv = phase1_p1k tk' ta iv" for iv by (simp add: phase1_p1k_def)
  moreover have "le16_get tk 0 = le16_get tk' 0" "le16_get tk 2 = le16_get tk' 2" "le16_get tk 4 = le16_get tk' 4"
      "le16_get tk 6 = le16_get tk' 6" "le16_get tk 8 = le16_get tk' 8" "le16_get tk 10 = le16_get tk' 10"
      "le16_get tk 12 = le16_get tk' 12" "le16_get tk 14 = le16_get tk' 14"
    by (simp_all add: g)
  ultimately show ?thesis by (simp only: tkip_frame_key_def phase2_key_def)
qed

lemma michael_mic_key_prefix:
  assumes "take 8 k = take 8 k'" and "8 \<le> length k" and "8 \<le> length k'"
  shows "michael_mic k bs d = michael_mic k' bs d"
proof -
  have "k ! i = k' ! i" if "i < 8" for i
    using arg_cong [OF assms(1), of "\<lambda>xs. xs ! i"] that by simp
  then show ?thesis
    using assms(2,3) by (simp add: michael_mic_def michael_mic_hdr_def le32_at_def)
qed

lemma frame_bytes_data: "frame_bytes s = xs \<Longrightarrow> skb_data s = xs @ drop (skb_len s) (skb_data s)"
  by (metis append_take_drop_id frame_bytes_def)

section \<open>The sender and the receiver\<close>

lemma tkip_send_ok:
  assumes R: "rc4_correct R"
    and s: "hdr_fc (skb_data s) = Inr fc" "ieee80211_is_data_present fc" "ieee80211_hdrlen fc \<le> skb_len s" "32 \<le> skb_len s"
      "skb_len s + 12 \<le> length (skb_data s)" "8 \<le> skb_headroom s" "info_hw_key s = None"
      "info_flags s AND IEEE80211_TX_INTFL_TKIP_MIC_FAILURE = 0"
    and t: "tx_skb tx = Some s" "tx_key tx = Some kp" "keys w kp = Some key" "conf_cipher key = WLAN_CIPHER_SUITE_TKIP"
      "conf_flags key AND IEEE80211_KEY_FLAG_PUT_MIC_SPACE = 0" "length (conf_key key) = 32" "key_sdata key = Some sp"
      "sdatas w sp = Some sd" "p1k_ok (conf_key key) (vif_addr sd) (tkip_tx key)"
  shows "\<exists>s1 s2 w' h p mic. ieee80211_tx_h_michael_mic_add tx_frag tx w = Inr (TX_CONTINUE, tx\<lparr>tx_skb := Some s1\<rparr>) \<and>
    tkip_encrypt_skb R kp s1 w = Inr (0, s2, w') \<and> frame_bytes s = h @ p \<and> length h = ieee80211_hdrlen fc \<and>
    length mic = 8 \<and> michael_mic (drop 16 (conf_key key)) (skb_data s) p = Inr mic \<and>
    frame_bytes s2 = h @ ieee80211_tkip_add_iv (conf_keyidx key) (conf_tx_pn key + 1) @
      arc4 R (tkip_frame_key (conf_key key) (vif_addr sd) (conf_tx_pn key + 1)) ((p @ mic) @ wep_icv R (p @ mic)) \<and>
    skb_len s2 = length h + 8 + length (p @ mic) + 4"
proof -
  let ?hl = "ieee80211_hdrlen fc" and ?d = "skb_data s" and ?pn = "conf_tx_pn key + 1"
  define h where "h = take ?hl ?d"
  define p where "p = take (skb_len s - ?hl) (drop ?hl ?d)"
  define m where "m = take 8 (drop (skb_len s) ?d)"
  define t' where "t' = drop (skb_len s + 8) ?d"
  have len: "length h = ?hl" "skb_len s = length h + length p" "length m = 8" "4 \<le> length t'"
    using s(3,5) by (auto simp: h_def p_def m_def t'_def)
  have fb: "frame_bytes s = h @ p"
    using s(3) by (simp add: frame_bytes_def h_def p_def take_add [symmetric])
  have "drop (skb_len s) ?d = m @ t'" unfolding m_def t'_def by (metis add.commute append_take_drop_id drop_drop)
  with fb have d: "?d = h @ p @ m @ t'" by (metis append.assoc append_take_drop_id frame_bytes_def)
  have hl: "24 \<le> ?hl" using s(2) by (simp add: ieee80211_hdrlen_def Let_def frame_simps)
  obtain mic where mic: "michael_mic (drop 16 (conf_key key)) ?d p = Inr mic" "length mic = 8"
    using michael_mic_ok [of "drop 16 (conf_key key)" ?d p] t(6) s(4,5) by auto
  define s1 where "s1 = s\<lparr>skb_data := h @ p @ mic @ t', skb_len := skb_len s + 8\<rparr>"
  have add: "ieee80211_tx_h_michael_mic_add tx_frag tx w = Inr (TX_CONTINUE, tx\<lparr>tx_skb := Some s1\<rparr>)"
    using mic_add_ok [OF t(1-5) _ s(1,2) d len(1,2) s(4) len(3,4) s(6,7,8) mic] t(6) by (simp add: s1_def)
  have fc1: "hdr_fc (skb_data s1) = Inr fc"
    using hdr_fields_of_take(1) [of ?hl "skb_data s1" ?d] s(1) d hl len(1) by (simp add: s1_def)
  let ?x = "ieee80211_tkip_add_iv (conf_keyidx key) ?pn"
  let ?c = "arc4 R (tkip_frame_key (conf_key key) (vif_addr sd) ?pn) ((p @ mic) @ wep_icv R (p @ mic))"
  have "skb_headroom s1 = skb_headroom s" by (simp add: s1_def skb_headroom_def)
  then obtain s2 w' where enc: "tkip_encrypt_skb R kp s1 w = Inr (0, s2, w')" "skb_data s2 = h @ ?x @ ?c @ drop 4 t'"
      "skb_len s2 = length h + 8 + length (p @ mic) + 4"
    using tkip_encrypt_ok [OF R fc1, where h = h and p = "p @ mic" and t = t' and kp = kp and w = w and key = key and sp = sp and sd = sd] len hl s(6,7) mic(2) t(3,6,7,8,9)
    by (auto simp: s1_def)
  have "length ?c = length (p @ mic) + 4" using R by (simp add: rc4_correct_def)
  then have "frame_bytes s2 = h @ ?x @ ?c" using enc(2,3) by (simp add: frame_bytes_def)
  then show ?thesis using add enc fb len(1) mic by blast
qed

lemma tkip_receive_ok:
  assumes R: "rc4_correct R" and fc: "hdr_fc (skb_data (rx_skb rx)) = Inr fc" "ieee80211_is_data_present fc"
    and s: "frame_bytes (rx_skb rx) = h @ ieee80211_tkip_add_iv (conf_keyidx key) pn @
        arc4 R (tkip_frame_key (conf_key key) (sta_addr sta) pn) ((p @ mic) @ wep_icv R (p @ mic))"
      "length h = ieee80211_hdrlen fc" "length mic = 8" "skb_len (rx_skb rx) = length h + 8 + length (p @ mic) + 4"
      "skb_len (rx_skb rx) < 2 ^ 32"
    and r: "rx_status_flag rx = 0" "rx_key rx = Some kp" "keys v kp = Some key" "rx_sta rx = Some rp" "stas v rp = Some sta"
      "conf_cipher key = WLAN_CIPHER_SUITE_TKIP" "length (conf_key key) = 32"
      "conf_keyidx key < 4" "key_sdata key \<noteq> None" "security_idx rx < length (tkip_rx key)"
      "rx_sdata rx = Some rsp" "sdatas v rsp = Some rsd" "vif_type rsd = NL80211_IFTYPE_AP \<longrightarrow> conf_keyidx key = 0"
    and mic: "\<And>t. michael_mic (drop 24 (conf_key key)) (h @ p @ mic @ t) p = Inr mic"
    and q: "rx_p1k_ok (conf_key key) (sta_addr sta) (tkip_rx key ! security_idx rx)"
      "\<not> tkip_replay (tkip_rx key ! security_idx rx) (TKIP_PN_TO_IV32 pn) (TKIP_PN_TO_IV16 pn)"
  shows "\<exists>rx1 v1 rx2 v2 key'. ieee80211_crypto_tkip_decrypt R upd rx v = Inr (RX_CONTINUE, rx1, v1) \<and>
    ieee80211_rx_h_michael_mic_verify (rx1\<lparr>rx_status_flag := RX_FLAG_DECRYPTED\<rparr>) v1 = Inr (RX_CONTINUE, rx2, v2) \<and>
    frame_bytes (rx_skb rx2) = h @ p \<and> keys v2 kp = Some key' \<and>
    rx_iv32 (tkip_rx key' ! security_idx rx) = TKIP_PN_TO_IV32 pn \<and>
    rx_iv16 (tkip_rx key' ! security_idx rx) = TKIP_PN_TO_IV16 pn \<and>
    rx_p1k_ok (conf_key key') (sta_addr sta) (tkip_rx key' ! security_idx rx)"
proof -
  let ?q = "security_idx rx" and ?hl = "ieee80211_hdrlen fc" and ?bs = "skb_data (rx_skb rx)"
  obtain t2 where rd: "?bs = h @ ieee80211_tkip_add_iv (conf_keyidx key) pn @
      arc4 R (tkip_frame_key (conf_key key) (sta_addr sta) pn) ((p @ mic) @ wep_icv R (p @ mic)) @ t2"
    using frame_bytes_data [OF s(1)] by simp
  have data: "ieee80211_is_data fc" using fc(2) by (simp add: frame_simps)
  then have hl: "24 \<le> length h" using s(2) by (simp add: ieee80211_hdrlen_def Let_def)
  obtain s' ctx t3 where dec: "ieee80211_crypto_tkip_decrypt R upd rx v =
        Inr (RX_CONTINUE, rx\<lparr>rx_skb := s', rx_tkip_iv32 := TKIP_PN_TO_IV32 pn, rx_tkip_iv16 := TKIP_PN_TO_IV16 pn\<rparr>,
          put_key kp (key\<lparr>tkip_rx := (tkip_rx key)[?q := (tkip_rx key ! ?q)\<lparr>rx_ctx := ctx\<rparr>]\<rparr>) v)"
      "p1k ctx = phase1_p1k (conf_key key) (sta_addr sta) (TKIP_PN_TO_IV32 pn)"
      "skb_len s' = length h + length (p @ mic)" "skb_data s' = h @ (p @ mic) @ t3"
    using tkip_decrypt_ok [OF R fc(1) data rd refl s(2) s(4,5) r(1-5) _ r(8,9,10) refl q, of upd] r(7) by auto
  let ?key1 = "key\<lparr>tkip_rx := (tkip_rx key)[?q := (tkip_rx key ! ?q)\<lparr>rx_ctx := ctx\<rparr>]\<rparr>"
  let ?rx1 = "rx\<lparr>rx_skb := s', rx_tkip_iv32 := TKIP_PN_TO_IV32 pn, rx_tkip_iv16 := TKIP_PN_TO_IV16 pn,
    rx_status_flag := RX_FLAG_DECRYPTED\<rparr>"
  have fc3: "hdr_fc (skb_data s') = Inr fc"
    using hdr_fields_of_take(1) [of "length h" "skb_data s'" ?bs] fc(1) rd dec(4) hl by simp
  obtain s3 where "ieee80211_rx_h_michael_mic_verify ?rx1 (put_key kp ?key1 v) =
        Inr (RX_CONTINUE, ?rx1\<lparr>rx_skb := s3\<rparr>,
          put_key kp (?key1\<lparr>tkip_rx := (tkip_rx ?key1)[?q := (tkip_rx ?key1 ! ?q)
            \<lparr>rx_iv32 := TKIP_PN_TO_IV32 pn, rx_iv16 := TKIP_PN_TO_IV16 pn\<rparr>]\<rparr>) (put_key kp ?key1 v))"
      "frame_bytes s3 = h @ p"
    using mic_verify_ok [of ?rx1 kp "put_key kp ?key1 v" ?key1 rsp rsd fc h p mic t3]
      r fc3 fc(2) s(2,3) dec(3,4) mic [of t3] by (auto simp: put_key_def)
  then show ?thesis
    using dec(1,2) r(10) by (auto simp: put_key_def rx_p1k_ok_def)
qed

section \<open>Properties\<close>

text \<open>
  C6: TKIP round trip. A data frame to which the Michael code is added and that is encrypted in software, received
  unchanged by a station with the same temporal key and the matching Michael key, whose counter for
  the queue the frame's counter passes, is decrypted, verified and left as the original frame. The
  sender's cached phase 1 key may be stale or missing; the receiver then holds the frame's counter
  as the last one of the queue, and its cache is that of this counter.
\<close>

theorem tkip_round_trip:
  assumes R: "rc4_correct R"
    and s: "hdr_fc (skb_data s) = Inr fc" "ieee80211_is_data_present fc" "ieee80211_hdrlen fc \<le> skb_len s" "32 \<le> skb_len s"
      "skb_len s + 12 \<le> length (skb_data s)" "8 \<le> skb_headroom s" "info_hw_key s = None" "skb_len s + 20 < 2 ^ 32"
      "info_flags s AND IEEE80211_TX_INTFL_TKIP_MIC_FAILURE = 0"
    and t: "tx_skb tx = Some s" "tx_key tx = Some kp" "keys w kp = Some key" "conf_cipher key = WLAN_CIPHER_SUITE_TKIP"
      "conf_flags key AND IEEE80211_KEY_FLAG_PUT_MIC_SPACE = 0" "length (conf_key key) = 32" "key_sdata key = Some sp"
      "sdatas w sp = Some sd" "p1k_ok (conf_key key) (vif_addr sd) (tkip_tx key)"
    and r: "rx_status_flag rx = 0" "rx_key rx = Some rkp" "keys v rkp = Some rkey" "rx_sta rx = Some rp" "stas v rp = Some sta"
      "sta_addr sta = vif_addr sd" "conf_cipher rkey = WLAN_CIPHER_SUITE_TKIP" "length (conf_key rkey) = 32"
      "conf_keyidx rkey = conf_keyidx key" "conf_keyidx rkey < 4" "key_sdata rkey \<noteq> None" "security_idx rx < length (tkip_rx rkey)"
      "rx_sdata rx = Some rsp" "sdatas v rsp = Some rsd" "vif_type rsd = NL80211_IFTYPE_AP \<longrightarrow> conf_keyidx rkey = 0"
    and k: "take 16 (conf_key rkey) = take 16 (conf_key key)"
      "take 8 (drop 24 (conf_key rkey)) = take 8 (drop 16 (conf_key key))"
    and q: "rx_p1k_ok (conf_key rkey) (sta_addr sta) (tkip_rx rkey ! security_idx rx)"
      "\<not> tkip_replay (tkip_rx rkey ! security_idx rx) (TKIP_PN_TO_IV32 (conf_tx_pn key + 1)) (TKIP_PN_TO_IV16 (conf_tx_pn key + 1))"
  shows "\<exists>s1 s2 w'. ieee80211_tx_h_michael_mic_add tx_frag tx w = Inr (TX_CONTINUE, tx\<lparr>tx_skb := Some s1\<rparr>) \<and>
    tkip_encrypt_skb R kp s1 w = Inr (0, s2, w') \<and>
    (skb_len (rx_skb rx) = skb_len s2 \<and> frame_bytes (rx_skb rx) = frame_bytes s2 \<longrightarrow>
      (\<exists>rx1 v1 rx2 v2 rkey'. ieee80211_crypto_tkip_decrypt R upd rx v = Inr (RX_CONTINUE, rx1, v1) \<and>
         ieee80211_rx_h_michael_mic_verify (rx1\<lparr>rx_status_flag := RX_FLAG_DECRYPTED\<rparr>) v1 = Inr (RX_CONTINUE, rx2, v2) \<and>
         frame_bytes (rx_skb rx2) = frame_bytes s \<and> keys v2 rkp = Some rkey' \<and>
         rx_iv32 (tkip_rx rkey' ! security_idx rx) = TKIP_PN_TO_IV32 (conf_tx_pn key + 1) \<and>
         rx_iv16 (tkip_rx rkey' ! security_idx rx) = TKIP_PN_TO_IV16 (conf_tx_pn key + 1) \<and>
         rx_p1k_ok (conf_key rkey') (sta_addr sta) (tkip_rx rkey' ! security_idx rx)))"
proof -
  let ?d = "skb_data s" and ?pn = "conf_tx_pn key + 1"
  obtain s1 s2 w' h p mic where send: "ieee80211_tx_h_michael_mic_add tx_frag tx w = Inr (TX_CONTINUE, tx\<lparr>tx_skb := Some s1\<rparr>)"
      "tkip_encrypt_skb R kp s1 w = Inr (0, s2, w')"
    and fr: "frame_bytes s = h @ p" "length h = ieee80211_hdrlen fc" "length mic = 8"
    and mic: "michael_mic (drop 16 (conf_key key)) ?d p = Inr mic"
    and s2: "frame_bytes s2 = h @ ieee80211_tkip_add_iv (conf_keyidx key) ?pn @
        arc4 R (tkip_frame_key (conf_key key) (vif_addr sd) ?pn) ((p @ mic) @ wep_icv R (p @ mic))"
      "skb_len s2 = length h + 8 + length (p @ mic) + 4"
    using tkip_send_ok [OF R s(1-7,9) t] by blast
  have key: "tkip_frame_key (conf_key key) (vif_addr sd) ?pn = tkip_frame_key (conf_key rkey) (sta_addr sta) ?pn"
    using tkip_frame_key_prefix [OF k(1)] r(6) by simp
  have hp: "length (h @ p) = skb_len s" "take (skb_len s) ?d = h @ p"
    using arg_cong [OF fr(1), of length] fr(1) s(5) by (simp_all add: frame_bytes_def)
  have rmic: "michael_mic (drop 24 (conf_key rkey)) (h @ p @ mic @ u) p = Inr mic" for u
  proof -
    have "take 32 ?d = take 32 (h @ p)" using hp(2) s(4) by (metis min.absorb1 take_take)
    moreover have "take 32 ((h @ p) @ mic @ u) = take 32 (h @ p)" using hp(1) s(4) by (simp del: append.assoc)
    ultimately have "take 32 (h @ p @ mic @ u) = take 32 ?d" by simp
    then show ?thesis
      using mic michael_mic_prefix [of "h @ p @ mic @ u" ?d] michael_mic_key_prefix [OF k(2)] hp(1) s(4,5) r(8) t(6) by simp
  qed
  have hl: "24 \<le> length h" using s(2) fr(2) by (simp add: ieee80211_hdrlen_def Let_def frame_simps)
  have "hdr_fc (skb_data (rx_skb rx)) = Inr fc" if "frame_bytes (rx_skb rx) = frame_bytes s2"
  proof -
    have "take (length h) (skb_data (rx_skb rx)) = h" "take (length h) ?d = h"
        "length h \<le> length (skb_data (rx_skb rx))" "length h \<le> length ?d"
      using frame_bytes_data [OF that [unfolded s2(1)]] frame_bytes_data [OF fr(1)]
      by (metis append.assoc append_eq_conv_conj length_append le_add1)+
    then show ?thesis
      using hdr_fields_of_take(1) [of "length h" "skb_data (rx_skb rx)" ?d] s(1) hl by simp
  qed
  then show ?thesis
    using send fr tkip_receive_ok [OF R _ s(2), of rx h rkey ?pn sta p mic rkp v rp rsp rsd upd] s2 key rmic r q hp(1) s(8)
    by auto
qed

definition sample_tkip_key :: ieee80211_key where
  "sample_tkip_key = (sample_key 32)\<lparr>conf_cipher := 0x000FAC02\<rparr>"

definition sample_tkip_sta :: world where
  "sample_tkip_sta = put_key 3 sample_tkip_key sample_paired_sta"

definition sample_tkip_ap :: world where
  "sample_tkip_ap = put_key 3 sample_tkip_key sample_paired_ap"

definition sample_tkip_skb :: sk_buff where
  "sample_tkip_skb = sample_skb\<lparr>skb_data := hdr_bytes sample_data_hdr @ [1, 2, 3, 4] @ replicate 12 0, skb_len := 34\<rparr>"

lemma sample_tkip_keys: "keys sample_tkip_sta 3 = Some sample_tkip_key" "keys sample_tkip_ap 3 = Some sample_tkip_key"
  by (simp_all add: sample_tkip_sta_def sample_tkip_ap_def put_key_def)

lemma sample_tkip_ends:
  obtains sd sta rsd where "sdatas sample_tkip_sta 2 = Some sd" "stas sample_tkip_ap 5 = Some sta" "sta_addr sta = vif_addr sd"
    "sdatas sample_tkip_ap 2 = Some rsd"
  by (simp add: sample_tkip_sta_def sample_tkip_ap_def put_key_def sample_paired_sta_def sample_paired_ap_def
      sample_sta_world_def sample_world_def put_sdata_def)

lemma sample_tkip_skb_facts:
  "hdr_fc (skb_data sample_tkip_skb) = Inr 0x4108" "ieee80211_is_data_present 0x4108" "ieee80211_hdrlen 0x4108 = 24"
  "skb_len sample_tkip_skb = 34" "length (skb_data sample_tkip_skb) = 46" "skb_headroom sample_tkip_skb = 16"
  "info_hw_key sample_tkip_skb = None" "info_flags sample_tkip_skb = 0"
proof -
  show "hdr_fc (skb_data sample_tkip_skb) = Inr 0x4108"
    using hdr_load_fields(2) [OF hdr_load_append [of sample_data_hdr "[1, 2, 3, 4] @ replicate 12 0"]]
    by (simp add: sample_tkip_skb_def sample_data_hdr_def)
qed (simp_all add: sample_tkip_skb_def sample_skb_def skb_headroom_def ieee80211_is_data_present_def ieee80211_is_data_def
    ieee80211_hdrlen_def ieee80211_has_a4_def ieee80211_is_data_qos_def)

theorem tkip_round_trip_witness:
  "\<exists>s1 s2 w'. ieee80211_tx_h_michael_mic_add False (sample_tx\<lparr>tx_skb := Some sample_tkip_skb, tx_key := Some 3\<rparr>) sample_tkip_sta =
      Inr (TX_CONTINUE, sample_tx\<lparr>tx_skb := Some s1, tx_key := Some 3\<rparr>) \<and>
    tkip_encrypt_skb sample_rc4 3 s1 sample_tkip_sta = Inr (0, s2, w') \<and>
    (\<exists>rx1 v1 rx2 v2. ieee80211_crypto_tkip_decrypt sample_rc4 False (sample_rx s2) sample_tkip_ap = Inr (RX_CONTINUE, rx1, v1) \<and>
         ieee80211_rx_h_michael_mic_verify (rx1\<lparr>rx_status_flag := RX_FLAG_DECRYPTED\<rparr>) v1 = Inr (RX_CONTINUE, rx2, v2) \<and>
         frame_bytes (rx_skb rx2) = frame_bytes sample_tkip_skb)"
proof -
  obtain sd sta rsd where w: "sdatas sample_tkip_sta 2 = Some sd" "stas sample_tkip_ap 5 = Some sta"
      "sta_addr sta = vif_addr sd" "sdatas sample_tkip_ap 2 = Some rsd"
    by (rule sample_tkip_ends)
  let ?tx = "sample_tx\<lparr>tx_skb := Some sample_tkip_skb, tx_key := Some 3\<rparr>"
  note ex = tkip_round_trip [OF sample_rc4_correct sample_tkip_skb_facts(1,2) _ _ _ _ sample_tkip_skb_facts(7) _ _ _ _
      sample_tkip_keys(1) _ _ _ _ w(1) _ _ _ sample_tkip_keys(2) _ w(2,3) _ _ _ _ _ _ _ w(4),
      of ?tx "sample_rx t" False False for t]
  have ex: "\<exists>s1 s2 w'. ieee80211_tx_h_michael_mic_add False ?tx sample_tkip_sta =
      Inr (TX_CONTINUE, ?tx\<lparr>tx_skb := Some s1\<rparr>) \<and> tkip_encrypt_skb sample_rc4 3 s1 sample_tkip_sta = Inr (0, s2, w') \<and>
    (skb_len t = skb_len s2 \<and> frame_bytes t = frame_bytes s2 \<longrightarrow>
    (\<exists>rx1 v1 rx2 v2. ieee80211_crypto_tkip_decrypt sample_rc4 False (sample_rx t) sample_tkip_ap = Inr (RX_CONTINUE, rx1, v1) \<and>
         ieee80211_rx_h_michael_mic_verify (rx1\<lparr>rx_status_flag := RX_FLAG_DECRYPTED\<rparr>) v1 = Inr (RX_CONTINUE, rx2, v2) \<and>
         frame_bytes (rx_skb rx2) = frame_bytes sample_tkip_skb))" for t
    using ex [of t]
    by (simp add: sample_tkip_skb_facts sample_tkip_key_def sample_key_def sample_rx_def sample_tx_def p1k_ok_def rx_p1k_ok_def
        tkip_replay_def empty_tkip_ctx_def) blast
  obtain s1 s2 w' where e: "ieee80211_tx_h_michael_mic_add False ?tx sample_tkip_sta = Inr (TX_CONTINUE, ?tx\<lparr>tx_skb := Some s1\<rparr>)"
      "tkip_encrypt_skb sample_rc4 3 s1 sample_tkip_sta = Inr (0, s2, w')"
    using ex [of sample_tkip_skb] by blast
  obtain s1' s2' w'' where f: "ieee80211_tx_h_michael_mic_add False ?tx sample_tkip_sta = Inr (TX_CONTINUE, ?tx\<lparr>tx_skb := Some s1'\<rparr>)"
      "tkip_encrypt_skb sample_rc4 3 s1' sample_tkip_sta = Inr (0, s2', w'')"
      "skb_len s2 = skb_len s2' \<and> frame_bytes s2 = frame_bytes s2' \<longrightarrow>
       (\<exists>rx1 v1 rx2 v2. ieee80211_crypto_tkip_decrypt sample_rc4 False (sample_rx s2) sample_tkip_ap = Inr (RX_CONTINUE, rx1, v1) \<and>
         ieee80211_rx_h_michael_mic_verify (rx1\<lparr>rx_status_flag := RX_FLAG_DECRYPTED\<rparr>) v1 = Inr (RX_CONTINUE, rx2, v2) \<and>
         frame_bytes (rx_skb rx2) = frame_bytes sample_tkip_skb)"
    using ex [of s2] by blast
  have "tx_skb (?tx\<lparr>tx_skb := Some s1\<rparr>) = tx_skb (?tx\<lparr>tx_skb := Some s1'\<rparr>)" using e(1) f(1) by (metis Inr_inject snd_conv)
  then have "s1' = s1" by simp
  then have "s2' = s2" using e(2) f(2) by simp
  moreover have "?tx\<lparr>tx_skb := Some s1\<rparr> = sample_tx\<lparr>tx_skb := Some s1, tx_key := Some 3\<rparr>" by simp
  ultimately show ?thesis using e f(3) by metis
qed

text \<open>
  The cache of phase 1 keys is transparent. Whatever counter the transmit context was last used with, the phase 1
  key handed out for a counter is the one mixed afresh from the temporal key, the interface address
  and the counter, as the receive side computes it; the context stays consistent for the next call,
  and nothing but this context changes.
\<close>

theorem tkip_p1k_cache_transparent:
  assumes "keys w kp = Some key" and "key_sdata key = Some sp" and "sdatas w sp = Some sd"
    and "16 \<le> length (conf_key key)" and "p1k_ok (conf_key key) (vif_addr sd) (tkip_tx key)"
  shows "\<exists>k ctx. ieee80211_get_tkip_p1k_iv kp iv32 w = Inr (k, w\<lparr>keys := (keys w)(kp \<mapsto> key\<lparr>tkip_tx := ctx\<rparr>)\<rparr>) \<and>
    ieee80211_get_tkip_rx_p1k (conf_key key) (vif_addr sd) iv32 = Inr k \<and> p1k_ok (conf_key key) (vif_addr sd) ctx"
proof -
  obtain ctx where ctx: "ieee80211_compute_tkip_p1k kp iv32 w = Inr (w\<lparr>keys := (keys w)(kp \<mapsto> key\<lparr>tkip_tx := ctx\<rparr>)\<rparr>)"
      "p1k ctx = phase1_p1k (conf_key key) (vif_addr sd) iv32" "p1k_ok (conf_key key) (vif_addr sd) ctx"
    using compute_p1k_ok [OF assms] by blast
  then show ?thesis
    using assms(4) by (auto simp: ieee80211_get_tkip_p1k_iv_def ieee80211_get_tkip_rx_p1k_def tkip_mixing_phase1_def)
qed

theorem tkip_p1k_cache_transparent_witness:
  "\<exists>k w'. ieee80211_get_tkip_p1k_iv 3 7 sample_tkip_sta = Inr (k, w') \<and>
     ieee80211_get_tkip_rx_p1k (replicate 32 0x5a) sample_base 7 = Inr k"
proof -
  obtain sd where sd: "sdatas sample_tkip_sta 2 = Some sd" "vif_addr sd = sample_base"
    by (simp add: sample_tkip_sta_def put_key_def sample_paired_sta_def sample_sta_world_def sample_world_def put_sdata_def)
  show ?thesis
    using tkip_p1k_cache_transparent [OF sample_tkip_keys(1) _ sd(1), of 7] sd(2)
    by (auto simp: sample_tkip_key_def sample_key_def p1k_ok_def empty_tkip_ctx_def)
qed

section \<open>The receiver as a replay filter\<close>

lemma buf_write_prefix: "buf_write bs off src = Inr b \<Longrightarrow> n \<le> off \<Longrightarrow> take n b = take n bs"
  by (auto simp: buf_write_def min_def split: if_splits)

lemma wep_decrypt_data_prefix:
  "ieee80211_wep_decrypt_data R k pos n bs = Inr (res, bs') \<Longrightarrow> take pos bs' = take pos bs \<and> length bs' = length bs"
  by (auto simp: ieee80211_wep_decrypt_data_def elim!: rbind_InrE split: if_splits
      dest: buf_write_prefix [where n = pos] buf_write_length)

lemma strip_mpdu_fc:
  assumes "strip_mpdu n hl m s = Inr s'" and "n + m \<le> skb_len s" and "2 \<le> hl" and "hl \<le> length (skb_data s)"
  shows "hdr_fc (skb_data s') = hdr_fc (skb_data s)"
proof -
  have "skb_data s' = take hl (skb_data s) @ drop (n + hl) (skb_data s)"
    using assms by (auto simp: strip_mpdu_def Let_def skb_trim_def skb_pull_def buf_write_def min_def split: if_splits
        elim!: rbind_InrE)
  then show ?thesis using assms(3,4) by (auto simp: hdr_fc_def arr_get_def nth_append)
qed

definition tkip_recv :: "rc4_lib \<Rightarrow> bool \<Rightarrow> key_ptr \<Rightarrow> nat \<Rightarrow> ieee80211_rx_data \<Rightarrow> world \<Rightarrow> bool \<times> world" where
  "tkip_recv R upd kp q f w =
     (case hdr_fc (skb_data (rx_skb f)) of
        Inl _ \<Rightarrow> (False, w)
      | Inr fc \<Rightarrow>
          if \<not> ieee80211_is_data_present fc \<or> skb_len (rx_skb f) < ieee80211_hdrlen fc \<or> 2 ^ 32 \<le> skb_len (rx_skb f)
          then (False, w)
          else
            (case ieee80211_crypto_tkip_decrypt R upd (f\<lparr>rx_key := Some kp, security_idx := q, rx_status_flag := 0\<rparr>) w of
               Inl _ \<Rightarrow> (False, w)
             | Inr (res, f1, w1) \<Rightarrow>
                 if res \<noteq> RX_CONTINUE then (False, w1)
                 else
                   (case ieee80211_rx_h_michael_mic_verify (f1\<lparr>rx_status_flag := RX_FLAG_DECRYPTED\<rparr>) w1 of
                      Inl _ \<Rightarrow> (False, w1)
                    | Inr (res, _, w2) \<Rightarrow> (res = RX_CONTINUE, w2))))"

text \<open>The 48-bit counter of a frame and the last one of a queue, counted from one; zero before the first frame.\<close>

definition tsc :: "u32 \<Rightarrow> u16 \<Rightarrow> nat" where
  "tsc iv32 iv16 = 1 + unat iv32 * 2 ^ 16 + unat iv16"

definition tkip_tsc :: "ieee80211_rx_data \<Rightarrow> nat" where
  "tkip_tsc f =
     (case hdr_fc (skb_data (rx_skb f)) of
        Inl _ \<Rightarrow> 0
      | Inr fc \<Rightarrow>
          let data = drop (ieee80211_hdrlen fc) (skb_data (rx_skb f)) in
          (case le32_at data 4 of Inl _ \<Rightarrow> 0 | Inr iv32 \<Rightarrow> tsc iv32 (le16_of (data ! 2) (data ! 0))))"

definition queue_tsc :: "tkip_ctx_rx \<Rightarrow> nat" where
  "queue_tsc r =
     (if rx_iv32 r = 0 \<and> rx_iv16 r = 0 \<and> tkip_state (rx_ctx r) = TKIP_STATE_NOT_INIT then 0
      else tsc (rx_iv32 r) (rx_iv16 r))"

definition tkip_last_tsc :: "key_ptr \<Rightarrow> nat \<Rightarrow> world \<Rightarrow> nat" where
  "tkip_last_tsc kp q w = (case keys w kp of None \<Rightarrow> 0 | Some key \<Rightarrow> queue_tsc (tkip_rx key ! q))"

definition tkip_rx_ok :: "key_ptr \<Rightarrow> nat \<Rightarrow> world \<Rightarrow> bool" where
  "tkip_rx_ok kp q w \<longleftrightarrow>
     (\<exists>key. keys w kp = Some key \<and> conf_cipher key = WLAN_CIPHER_SUITE_TKIP \<and> q < length (tkip_rx key))"

text \<open>The replay check compares the two halves of the counter as one number.\<close>

lemma tsc_less: "tsc a b < tsc c d \<longleftrightarrow> a < c \<or> a = c \<and> b < d"
proof -
  have b: "unat b < 2 ^ 16" "unat d < 2 ^ 16" using unsigned_less [of b] unsigned_less [of d] by simp_all
  have "unat a = unat c \<or> unat a < unat c \<or> unat c < unat a" by linarith
  then show ?thesis
    using b by (auto simp: tsc_def word_less_nat_alt word_unat_eq_iff)
qed

lemma tkip_replay_tsc: "\<not> tkip_replay r iv32 iv16 \<longleftrightarrow> queue_tsc r < tsc iv32 iv16"
proof (cases "rx_iv32 r = 0 \<and> rx_iv16 r = 0 \<and> tkip_state (rx_ctx r) = TKIP_STATE_NOT_INIT")
  case True
  then show ?thesis by (simp add: queue_tsc_def tkip_replay_def tsc_def)
next
  case False
  then show ?thesis by (auto simp: queue_tsc_def tkip_replay_def tsc_less not_less)
qed

lemma tkip_rx_phase1_state: "tkip_rx_phase1 upd tk key ta iv32 r = Inr ctx \<Longrightarrow> tkip_state ctx \<noteq> TKIP_STATE_NOT_INIT"
  by (auto simp: tkip_rx_phase1_def tkip_mixing_phase1_def elim!: rbind_InrE split: if_split_asm)

lemma tkip_decrypt_data_cases:
  assumes "ieee80211_tkip_decrypt_data R upd kp pos n ta False q bs w = Inr (res, bs', out, w1)"
  shows "w1 = w \<and> res \<noteq> 0 \<or>
    (\<exists>key ctx iv32 iv16. keys w kp = Some key \<and> q < length (tkip_rx key) \<and> tkip_state ctx \<noteq> TKIP_STATE_NOT_INIT \<and>
       le32_at (drop pos bs) 4 = Inr iv32 \<and> iv16 = le16_of (drop pos bs ! 2) (drop pos bs ! 0) \<and>
       \<not> tkip_replay (tkip_rx key ! q) iv32 iv16 \<and>
       w1 = put_key kp (key\<lparr>tkip_rx := (tkip_rx key)[q := (tkip_rx key ! q)\<lparr>rx_ctx := ctx\<rparr>]\<rparr>) w \<and>
       (res = 0 \<longrightarrow> out = Some (iv32, iv16)) \<and> take pos bs' = take pos bs \<and> length bs' = length bs \<and> 12 \<le> n)"
proof -
  have prefix: "take pos b = take pos bs \<and> length b = length bs"
    if "ieee80211_wep_decrypt_data R k (pos + 8) m bs = Inr (r, b)" for k m r b
    using wep_decrypt_data_prefix [OF that] by (metis min.absorb1 le_add1 take_take)
  let ?iv16 = "le16_of (drop pos bs ! 2) (drop pos bs ! 0)"
  consider "w1 = w" "res \<noteq> 0"
    | key ctx iv32 k where "keys w kp = Some key" "q < length (tkip_rx key)" "le32_at (drop pos bs) 4 = Inr iv32"
      "\<not> tkip_replay (tkip_rx key ! q) iv32 ?iv16" "tkip_rx_phase1 upd (conf_key key) key ta iv32 (tkip_rx key ! q) = Inr ctx"
      "ieee80211_wep_decrypt_data R k (pos + 8) (n - 12) bs = Inr (res, bs')" "res = 0 \<longrightarrow> out = Some (iv32, ?iv16)" "12 \<le> n"
      "w1 = put_key kp (key\<lparr>tkip_rx := (tkip_rx key)[q := (tkip_rx key ! q)\<lparr>rx_ctx := ctx\<rparr>]\<rparr>) w"
    using assms unfolding ieee80211_tkip_decrypt_data_def Let_def
    by (auto elim!: rbind_InrE simp: deref_Inr_iff arr_get_Inr_iff not_less split: if_split_asm)
  then show ?thesis
  proof cases
    case 2
    then show ?thesis using prefix [OF 2(6)] tkip_rx_phase1_state [OF 2(5)] by blast
  qed simp
qed

lemma tkip_decrypt_cases:
  assumes "ieee80211_crypto_tkip_decrypt R upd rx w = Inr (res, rx1, w1)" and "hdr_fc (skb_data (rx_skb rx)) = Inr fc"
    and "ieee80211_is_data fc" and "rx_status_flag rx = 0" and "rx_key rx = Some kp"
    and "ieee80211_hdrlen fc \<le> skb_len (rx_skb rx)" and "skb_len (rx_skb rx) < 2 ^ 32"
  shows "w1 = w \<and> res \<noteq> RX_CONTINUE \<or>
    (\<exists>key ctx iv32 iv16. keys w kp = Some key \<and> security_idx rx < length (tkip_rx key) \<and>
       tkip_state ctx \<noteq> TKIP_STATE_NOT_INIT \<and> tkip_tsc rx = tsc iv32 iv16 \<and>
       \<not> tkip_replay (tkip_rx key ! security_idx rx) iv32 iv16 \<and>
       w1 = put_key kp (key\<lparr>tkip_rx := (tkip_rx key)[security_idx rx := (tkip_rx key ! security_idx rx)\<lparr>rx_ctx := ctx\<rparr>]\<rparr>) w \<and>
       (res = RX_CONTINUE \<longrightarrow> (\<exists>s'. rx1 = rx\<lparr>rx_tkip_iv32 := iv32, rx_tkip_iv16 := iv16, rx_skb := s'\<rparr> \<and>
          hdr_fc (skb_data s') = Inr fc)))"
proof -
  let ?hl = "ieee80211_hdrlen fc" and ?bs = "skb_data (rx_skb rx)" and ?q = "security_idx rx"
  have hl: "24 \<le> ?hl" using assms(3) by (simp add: ieee80211_hdrlen_def Let_def)
  have pl: "u32_sub (skb_len (rx_skb rx)) ?hl = skb_len (rx_skb rx) - ?hl" using u32_sub_ok [OF assms(6,7)] .
  have *: "\<exists>s'. rx1 = rx\<lparr>rx_tkip_iv32 := iv32, rx_tkip_iv16 := iv16, rx_skb := s'\<rparr> \<and> hdr_fc (skb_data s') = Inr fc"
    if "strip_mpdu 8 ?hl 4 ((rx_skb rx)\<lparr>skb_data := bs'\<rparr>) = Inr s'" "take ?hl bs' = take ?hl ?bs" "length bs' = length ?bs"
      "12 \<le> skb_len (rx_skb rx) - ?hl" "?hl + 8 \<le> length ?bs"
      "rx1 = rx\<lparr>rx_tkip_iv32 := iv32, rx_tkip_iv16 := iv16, rx_skb := s'\<rparr>" for s' bs' iv32 iv16
  proof -
    have "hdr_fc (skb_data s') = hdr_fc bs'" using strip_mpdu_fc [OF that(1)] that(3-5) hl by simp
    also have "\<dots> = Inr fc" using hdr_fields_of_take(1) [of ?hl bs' ?bs] that(2,3,5) hl assms(2) by simp
    finally show ?thesis using that(6) by blast
  qed
  have len: "?hl + 8 \<le> length ?bs" if "le32_at (drop ?hl ?bs) 4 = Inr x" for x
    using that by (auto simp: le32_at_def split: if_splits)
  show ?thesis
  proof (cases "rx_sta rx = None \<or> skb_len (rx_skb rx) - ?hl < 12")
    case True
    then show ?thesis
      using assms(1) unfolding ieee80211_crypto_tkip_decrypt_def Let_def
      by (auto simp: assms(2,3) pl split: option.split_asm)
  next
    case False
    then obtain p sta dres bs' out where st: "rx_sta rx = Some p" "stas w p = Some sta"
        "ieee80211_tkip_decrypt_data R upd kp ?hl (skb_len (rx_skb rx) - ?hl) (sta_addr sta) False ?q ?bs w = Inr (dres, bs', out, w1)"
      and res: "dres \<noteq> 0 \<and> res \<noteq> RX_CONTINUE \<or> dres = 0 \<and> res = RX_CONTINUE \<and>
        (\<exists>s'. strip_mpdu 8 ?hl 4 ((rx_skb rx)\<lparr>skb_data := bs'\<rparr>) = Inr s' \<and>
          rx1 = (case out of None \<Rightarrow> rx | Some (iv32, iv16) \<Rightarrow> rx\<lparr>rx_tkip_iv32 := iv32, rx_tkip_iv16 := iv16\<rparr>)\<lparr>rx_skb := s'\<rparr>)"
      using assms(1) unfolding ieee80211_crypto_tkip_decrypt_def Let_def
      by (auto simp: assms(2-5) pl deref_Inr_iff elim!: rbind_InrE split: if_split_asm)
    show ?thesis
    proof (cases "w1 = w \<and> dres \<noteq> 0")
      case True
      then show ?thesis using res by blast
    next
      case False
      then obtain key ctx iv32 iv16 where c: "keys w kp = Some key" "?q < length (tkip_rx key)"
          "tkip_state ctx \<noteq> TKIP_STATE_NOT_INIT" "le32_at (drop ?hl ?bs) 4 = Inr iv32"
          "iv16 = le16_of (drop ?hl ?bs ! 2) (drop ?hl ?bs ! 0)" "\<not> tkip_replay (tkip_rx key ! ?q) iv32 iv16"
          "w1 = put_key kp (key\<lparr>tkip_rx := (tkip_rx key)[?q := (tkip_rx key ! ?q)\<lparr>rx_ctx := ctx\<rparr>]\<rparr>) w"
          "dres = 0 \<longrightarrow> out = Some (iv32, iv16)" "take ?hl bs' = take ?hl ?bs" "length bs' = length ?bs"
          "12 \<le> skb_len (rx_skb rx) - ?hl"
        using tkip_decrypt_data_cases [OF st(3)] by blast
      have "tkip_tsc rx = tsc iv32 iv16" using c(4,5) by (simp add: tkip_tsc_def assms(2) Let_def)
      moreover have "\<exists>s'. rx1 = rx\<lparr>rx_tkip_iv32 := iv32, rx_tkip_iv16 := iv16, rx_skb := s'\<rparr> \<and> hdr_fc (skb_data s') = Inr fc"
        if c0: "res = RX_CONTINUE"
      proof -
        obtain s' where "strip_mpdu 8 ?hl 4 ((rx_skb rx)\<lparr>skb_data := bs'\<rparr>) = Inr s'"
            "rx1 = rx\<lparr>rx_tkip_iv32 := iv32, rx_tkip_iv16 := iv16, rx_skb := s'\<rparr>"
          using res c0 c(8) by auto
        then show ?thesis using * [OF _ c(9,10,11) len [OF c(4)]] by blast
      qed
      ultimately show ?thesis using c(1-3,6,7) by blast
    qed
  qed
qed

lemma mic_verify_cases:
  assumes "ieee80211_rx_h_michael_mic_verify rx w = Inr (res, rx', w')" and "hdr_fc (skb_data (rx_skb rx)) = Inr fc"
    and "ieee80211_is_data_present fc" and "rx_status_flag rx = RX_FLAG_DECRYPTED" and "rx_key rx = Some kp"
    and "keys w kp = Some key" and "conf_cipher key = WLAN_CIPHER_SUITE_TKIP"
  shows "if res = RX_CONTINUE
    then w' = put_key kp (key\<lparr>tkip_rx := (tkip_rx key)[security_idx rx :=
      (tkip_rx key ! security_idx rx)\<lparr>rx_iv32 := rx_tkip_iv32 rx, rx_iv16 := rx_tkip_iv16 rx\<rparr>]\<rparr>) w
    else w' = w \<or> w' = put_key kp (key\<lparr>mic_failures := mic_failures key + 1\<rparr>) w"
  using assms(1) unfolding ieee80211_rx_h_michael_mic_verify_def Let_def rx_key_of_def
  by (auto elim!: rbind_InrE simp: assms(2-7) tkip_update_iv_def tkip_mic_fail_def arr_get_Inr_iff
      split: if_split_asm option.split_asm)

lemma queue_tsc_ctx: "tkip_state c \<noteq> TKIP_STATE_NOT_INIT \<Longrightarrow> queue_tsc r \<le> queue_tsc (r\<lparr>rx_ctx := c\<rparr>)"
  by (simp add: queue_tsc_def tsc_def)

lemma tkip_recv_step:
  assumes key: "keys s kp = Some key" "conf_cipher key = WLAN_CIPHER_SUITE_TKIP" "q < length (tkip_rx key)"
    and r: "tkip_recv R upd kp q f s = (ok, s')"
  shows "tkip_rx_ok kp q s' \<and> (if ok then tkip_last_tsc kp q s < tkip_tsc f \<and> tkip_last_tsc kp q s' = tkip_tsc f
      else tkip_last_tsc kp q s \<le> tkip_last_tsc kp q s')"
proof (cases "s' = s \<and> \<not> ok")
  case True
  then show ?thesis using key by (simp add: tkip_rx_ok_def)
next
  case False
  let ?f = "f\<lparr>rx_key := Some kp, security_idx := q, rx_status_flag := 0\<rparr>" and ?r = "tkip_rx key ! q"
  obtain fc res f1 w1 where fc: "hdr_fc (skb_data (rx_skb ?f)) = Inr fc" "ieee80211_is_data_present fc"
      "ieee80211_hdrlen fc \<le> skb_len (rx_skb ?f)" "skb_len (rx_skb ?f) < 2 ^ 32"
    and dec: "ieee80211_crypto_tkip_decrypt R upd ?f s = Inr (res, f1, w1)"
    using r False unfolding tkip_recv_def by (auto split: sum.split_asm if_split_asm)
  let ?g = "f1\<lparr>rx_status_flag := RX_FLAG_DECRYPTED\<rparr>"
  have step: "(if res \<noteq> RX_CONTINUE then (False, w1)
      else case ieee80211_rx_h_michael_mic_verify ?g w1 of
        Inl _ \<Rightarrow> (False, w1) | Inr (res, _, w2) \<Rightarrow> (res = RX_CONTINUE, w2)) = (ok, s')"
    using r fc dec by (simp add: tkip_recv_def not_less)
  have data: "ieee80211_is_data fc" using fc(2) by (simp add: frame_simps)
  have nw: "\<not> (w1 = s \<and> res \<noteq> RX_CONTINUE)" using step False by (auto split: if_split_asm)
  have p: "rx_status_flag ?f = 0" "rx_key ?f = Some kp" "security_idx ?f = q" by simp_all
  obtain key' ctx iv32 iv16 where k': "keys s kp = Some key'"
    and c': "tkip_state ctx \<noteq> TKIP_STATE_NOT_INIT" "tkip_tsc ?f = tsc iv32 iv16"
      "\<not> tkip_replay (tkip_rx key' ! q) iv32 iv16" "w1 = put_key kp (key'\<lparr>tkip_rx := (tkip_rx key')[q := (tkip_rx key' ! q)\<lparr>rx_ctx := ctx\<rparr>]\<rparr>) s"
      "res = RX_CONTINUE \<longrightarrow> (\<exists>s'. f1 = ?f\<lparr>rx_tkip_iv32 := iv32, rx_tkip_iv16 := iv16, rx_skb := s'\<rparr> \<and> hdr_fc (skb_data s') = Inr fc)"
    using tkip_decrypt_cases [OF dec fc(1) data p(1,2) fc(3,4), unfolded p(3)] nw by blast
  have "key' = key" using key(1) k' by simp
  note c = c' [unfolded this]
  let ?key1 = "key\<lparr>tkip_rx := (tkip_rx key)[q := ?r\<lparr>rx_ctx := ctx\<rparr>]\<rparr>"
  have k1: "keys w1 kp = Some ?key1" by (simp add: c(4) put_key_def)
  have tf: "tkip_tsc f = tsc iv32 iv16" using c(2) fc(1) by (simp add: tkip_tsc_def)
  have rej: "tkip_rx_ok kp q w1 \<and> tkip_last_tsc kp q s \<le> tkip_last_tsc kp q w1"
    using key k1 queue_tsc_ctx [OF c(1)] by (simp add: tkip_rx_ok_def tkip_last_tsc_def)
  show ?thesis
  proof (cases "ok \<or> s' \<noteq> w1")
    case False
    then show ?thesis using rej by simp
  next
    case True
    then obtain res2 rx2 where v: "res = RX_CONTINUE" "ieee80211_rx_h_michael_mic_verify ?g w1 = Inr (res2, rx2, s')"
        "ok = (res2 = RX_CONTINUE)"
      using step by (auto split: if_split_asm sum.split_asm)
    then obtain s2 where f1: "f1 = ?f\<lparr>rx_tkip_iv32 := iv32, rx_tkip_iv16 := iv16, rx_skb := s2\<rparr>" "hdr_fc (skb_data s2) = Inr fc"
      using c(5) by blast
    have "if res2 = RX_CONTINUE
      then s' = put_key kp (?key1\<lparr>tkip_rx := (tkip_rx ?key1)[q := (tkip_rx ?key1 ! q)\<lparr>rx_iv32 := iv32, rx_iv16 := iv16\<rparr>]\<rparr>) w1
      else s' = w1 \<or> s' = put_key kp (?key1\<lparr>mic_failures := mic_failures ?key1 + 1\<rparr>) w1"
      using mic_verify_cases [OF v(2) _ fc(2) _ _ k1] f1 key(2) by (simp split: if_split_asm)
    then show ?thesis
      using v(3) key c(1,3) rej tf
      by (auto simp: tkip_rx_ok_def tkip_last_tsc_def put_key_def tkip_replay_tsc k1 queue_tsc_def split: if_split_asm)
  qed
qed

interpretation tkip_replay: replay_filter "tkip_recv R upd kp q" tkip_tsc "tkip_last_tsc kp q" "tkip_rx_ok kp q" for R upd kp q
proof
  fix s s' f
  assume "tkip_rx_ok kp q s"
  then obtain key where key: "keys s kp = Some key" "conf_cipher key = WLAN_CIPHER_SUITE_TKIP" "q < length (tkip_rx key)"
    by (auto simp: tkip_rx_ok_def)
  show "tkip_recv R upd kp q f s = (True, s') \<Longrightarrow>
      tkip_last_tsc kp q s < tkip_tsc f \<and> tkip_last_tsc kp q s' = tkip_tsc f \<and> tkip_rx_ok kp q s'"
    using tkip_recv_step [OF key, of R upd f True s'] by simp
  show "tkip_recv R upd kp q f s = (False, s') \<Longrightarrow> tkip_last_tsc kp q s \<le> tkip_last_tsc kp q s' \<and> tkip_rx_ok kp q s'"
    using tkip_recv_step [OF key, of R upd f False s'] by simp
qed



text \<open>The fields of a TKIP frame whose vector starts at \<open>pos\<close>, for a key.\<close>

definition tkip_header :: "u8 list \<Rightarrow> nat \<Rightarrow> ieee80211_key \<Rightarrow> u32 \<Rightarrow> u16 \<Rightarrow> bool" where
  "tkip_header bs pos key iv32 iv16 \<longleftrightarrow>
     le32_at (drop pos bs) 4 = Inr iv32 \<and> le16_of (drop pos bs ! 2) (drop pos bs ! 0) = iv16 \<and>
     drop pos bs ! 3 AND push_bit 5 1 \<noteq> 0 \<and> drop_bit 6 (drop pos bs ! 3) = conf_keyidx key"

lemma tkip_decrypt_data_run:
  assumes "keys w kp = Some key" and "q < length (tkip_rx key)" and "16 \<le> length (conf_key key)" and "12 \<le> n"
    and "tkip_header bs pos key iv32 iv16" and "\<not> tkip_replay (tkip_rx key ! q) iv32 iv16"
    and "tkip_rx_phase1 False (conf_key key) key ta iv32 (tkip_rx key ! q) = Inr ctx" and "length (p1k ctx) = 5"
    and "ieee80211_wep_decrypt_data R (phase2_key (conf_key key) (p1k ctx) iv16) (pos + 8) (n - 12) bs = Inr (res, bs')"
  shows "ieee80211_tkip_decrypt_data R False kp pos n ta False q bs w =
    Inr (res, bs', if res = 0 then Some (iv32, iv16) else None,
      put_key kp (key\<lparr>tkip_rx := (tkip_rx key)[q := (tkip_rx key ! q)\<lparr>rx_ctx := ctx\<rparr>]\<rparr>) w)"
proof -
  have "tkip_mixing_phase2 (conf_key key) ctx iv16 = Inr (phase2_key (conf_key key) (p1k ctx) iv16)"
    by (rule phase2_ok [OF assms(3,8)])
  then show ?thesis
    using assms(1,2,4-7,9) unfolding ieee80211_tkip_decrypt_data_def tkip_header_def Let_def by simp
qed

text \<open>
  A forged counter blocks a queue. The phase 1 key of a frame is mixed into the receive context before the frame is
  authenticated, but the context is recomputed only when a frame's upper counter differs from that
  of the last frame accepted. So after one forged frame with a larger upper counter, whose check
  fails, the genuine frames of the current upper counter are decrypted with the forged frame's
  phase 1 key. A frame that the receiver would have decrypted is then rejected, and again each time,
  since the rejection leaves the state as it is.
\<close>

theorem forged_counter_blocks_queue:
  assumes key: "keys w kp = Some key" "q < length (tkip_rx key)" "16 \<le> length (conf_key key)"
    and r: "tkip_rx key ! q = r" "tkip_state (rx_ctx r) \<noteq> TKIP_STATE_NOT_INIT" "rx_p1k_ok (conf_key key) ta r"
    and g: "tkip_header gb pos key (rx_iv32 r) g16" "rx_iv16 r < g16" "12 \<le> n"
      "ieee80211_wep_decrypt_data R (phase2_key (conf_key key) (phase1_p1k (conf_key key) ta (rx_iv32 r)) g16) (pos + 8) (n - 12) gb =
         Inr (0, gb')"
    and f: "tkip_header fb pos key f32 f16" "rx_iv32 r < f32" "12 \<le> m"
      "ieee80211_wep_decrypt_data R (phase2_key (conf_key key) (phase1_p1k (conf_key key) ta f32) f16) (pos + 8) (m - 12) fb =
         Inr (- 1, fb')"
    and stale: "ieee80211_wep_decrypt_data R (phase2_key (conf_key key) (phase1_p1k (conf_key key) ta f32) g16) (pos + 8) (n - 12) gb =
         Inr (- 1, gb'')"
  shows "(\<exists>w'. ieee80211_tkip_decrypt_data R False kp pos n ta False q gb w = Inr (0, gb', Some (rx_iv32 r, g16), w')) \<and>
    (\<exists>w1. ieee80211_tkip_decrypt_data R False kp pos m ta False q fb w = Inr (- 1, fb', None, w1) \<and>
      ieee80211_tkip_decrypt_data R False kp pos n ta False q gb w1 = Inr (- 1, gb'', None, w1))"
proof -
  let ?c = "\<lparr>p1k = phase1_p1k (conf_key key) ta f32, p1k_iv32 = f32, tkip_state = TKIP_STATE_PHASE1_DONE\<rparr>"
  let ?key1 = "key\<lparr>tkip_rx := (tkip_rx key)[q := r\<lparr>rx_ctx := ?c\<rparr>]\<rparr>"
  have o: "\<not> g16 < rx_iv16 r" "g16 \<noteq> rx_iv16 r" "\<not> f32 < rx_iv32 r" "f32 \<noteq> rx_iv32 r" using g(2) f(2) by auto
  have pk: "p1k (rx_ctx r) = phase1_p1k (conf_key key) ta (rx_iv32 r)" using r(2,3) by (simp add: rx_p1k_ok_def)
  have "ieee80211_tkip_decrypt_data R False kp pos n ta False q gb w =
      Inr (0, gb', Some (rx_iv32 r, g16), put_key kp (key\<lparr>tkip_rx := (tkip_rx key)[q := r\<lparr>rx_ctx := rx_ctx r\<rparr>]\<rparr>) w)"
    using tkip_decrypt_data_run [OF key g(3,1), of ta "rx_ctx r" R 0 gb'] o g(4) r pk
    by (simp add: tkip_replay_def tkip_rx_phase1_def)
  moreover have "ieee80211_tkip_decrypt_data R False kp pos m ta False q fb w = Inr (- 1, fb', None, put_key kp ?key1 w)"
    using tkip_decrypt_data_run [OF key f(3,1), of ta ?c R "- 1" fb'] o f(4) r key(3)
    by (simp add: tkip_replay_def tkip_rx_phase1_def tkip_mixing_phase1_def)
  moreover have "ieee80211_tkip_decrypt_data R False kp pos n ta False q gb (put_key kp ?key1 w) =
      Inr (- 1, gb'', None, put_key kp ?key1 w)"
  proof -
    have k1: "keys (put_key kp ?key1 w) kp = Some ?key1" by (simp add: put_key_def)
    have hd: "tkip_header gb pos ?key1 (rx_iv32 r) g16" using g(1) by (simp add: tkip_header_def)
    show ?thesis
      using tkip_decrypt_data_run [OF k1 _ _ g(3) hd, of q ta ?c R "- 1" gb''] key o r(2) stale
      by (simp add: tkip_replay_def tkip_rx_phase1_def put_key_def)
  qed
  ultimately show ?thesis by blast
qed

definition sample_rx_queue :: tkip_ctx_rx where
  "sample_rx_queue = \<lparr>rx_ctx = \<lparr>p1k = phase1_p1k (replicate 32 0x5a) sample_base 1, p1k_iv32 = 1, tkip_state = TKIP_STATE_PHASE1_DONE\<rparr>,
     rx_iv32 = 1, rx_iv16 = 5\<rparr>"

definition sample_genuine :: "u8 list" where
  "sample_genuine = [0, 0x20, 6, 0x20, 1, 0, 0, 0] @
     arc4 sample_rc4 (phase2_key (replicate 32 0x5a) (phase1_p1k (replicate 32 0x5a) sample_base 1) 6)
       ([9] @ wep_icv sample_rc4 [9])"

definition sample_forged :: "u8 list" where
  "sample_forged = [0, 0x20, 1, 0x20, 2, 0, 0, 0, 1, 2, 3, 4, 5]"

lemma sample_forged_fails:
  "ieee80211_wep_decrypt_data sample_rc4 (phase2_key (replicate 32 0x5a) (phase1_p1k (replicate 32 0x5a) sample_base 2) 1) 8 1 sample_forged
     = Inr (- 1, snd (projr (ieee80211_wep_decrypt_data sample_rc4
         (phase2_key (replicate 32 0x5a) (phase1_p1k (replicate 32 0x5a) sample_base 2) 1) 8 1 sample_forged)))"
  by code_simp

lemma sample_genuine_stale:
  "ieee80211_wep_decrypt_data sample_rc4 (phase2_key (replicate 32 0x5a) (phase1_p1k (replicate 32 0x5a) sample_base 2) 6) 8 1 sample_genuine
     = Inr (- 1, snd (projr (ieee80211_wep_decrypt_data sample_rc4
         (phase2_key (replicate 32 0x5a) (phase1_p1k (replicate 32 0x5a) sample_base 2) 6) 8 1 sample_genuine)))"
  by code_simp

theorem forged_counter_blocks_queue_witness:
  "\<exists>w fb' gb'' w1.
     (\<exists>w' gb'. ieee80211_tkip_decrypt_data sample_rc4 False 3 0 13 sample_base False 0 sample_genuine w = Inr (0, gb', Some (1, 6), w')) \<and>
     ieee80211_tkip_decrypt_data sample_rc4 False 3 0 13 sample_base False 0 sample_forged w = Inr (- 1, fb', None, w1) \<and>
     ieee80211_tkip_decrypt_data sample_rc4 False 3 0 13 sample_base False 0 sample_genuine w1 = Inr (- 1, gb'', None, w1)"
proof -
  let ?key = "sample_tkip_key\<lparr>tkip_rx := [sample_rx_queue]\<rparr>"
  let ?w = "put_key 3 ?key sample_tkip_ap"
  have k: "keys ?w 3 = Some ?key" by (simp add: put_key_def)
  have ck: "conf_key sample_tkip_key = replicate 32 0x5a" by (simp add: sample_tkip_key_def sample_key_def)
  have g: "tkip_header sample_genuine 0 ?key (rx_iv32 sample_rx_queue) 6" "tkip_header sample_forged 0 ?key 2 1"
    by (simp_all add: tkip_header_def sample_genuine_def sample_forged_def sample_rx_queue_def le32_at_def le32_of_def le16_of_def
        sample_tkip_key_def sample_key_def)
  have gd: "ieee80211_wep_decrypt_data sample_rc4
      (phase2_key (replicate 32 0x5a) (phase1_p1k (replicate 32 0x5a) sample_base 1) 6) 8 1 sample_genuine =
      Inr (0, [0, 0x20, 6, 0x20, 1, 0, 0, 0] @ [9] @ wep_icv sample_rc4 [9])"
    using wep_decrypt_data_ok [OF sample_rc4_correct, of "[0, 0x20, 6, 0x20, 1, 0, 0, 0]" 8 _ "[9]" "[]"]
    by (simp add: sample_genuine_def)
  have q: "tkip_rx ?key ! 0 = sample_rx_queue" "tkip_state (rx_ctx sample_rx_queue) \<noteq> TKIP_STATE_NOT_INIT"
      "rx_p1k_ok (conf_key ?key) sample_base sample_rx_queue"
    by (simp_all add: sample_rx_queue_def rx_p1k_ok_def ck)
  have iv: "rx_iv32 sample_rx_queue = 1" "rx_iv16 sample_rx_queue = 5" by (simp_all add: sample_rx_queue_def)
  show ?thesis
    using forged_counter_blocks_queue [OF k _ _ q g(1) _ _ _ g(2), where n = 13 and m = 13 and R = sample_rc4]
      gd sample_forged_fails sample_genuine_stale
    by (simp add: ck iv) blast
qed

end
