(* ===== verification/Bip.thy ===== *)
theory Bip
  imports Ccmp
begin

text \<open>
  The management-frame protection of \<^verbatim>\<open>net/mac80211/wpa.c\<close>: BIP with CMAC-128, CMAC-256 and GMAC, with
  the wrappers of \<^verbatim>\<open>aes_cmac.c\<close> and \<^verbatim>\<open>aes_gmac.c\<close>. A management MIC element (MMIE) with the packet
  number and the code is appended to a frame and checked and removed on reception. The three
  variants share their code up to the size of the code and how it is computed. CMAC and GMAC
  themselves belong to the crypto API and are parameters.
\<close>

section \<open>The element and its authenticated data\<close>

abbreviation (input) IEEE80211_KEY_FLAG_GENERATE_MMIE :: u16 where "IEEE80211_KEY_FLAG_GENERATE_MMIE \<equiv> 0x0400"
abbreviation (input) WLAN_EID_MMIE :: u8 where "WLAN_EID_MMIE \<equiv> 76"

text \<open>FC (masked) | A1 | A2 | A3.\<close>

definition bip_aad :: "u8 list \<Rightarrow> u8 list result" where
  "bip_aad bs =
     rbind (hdr_fc bs) (\<lambda>fc.
     if 22 \<le> length bs
     then Inr (le16_bytes (fc AND NOT (0x0800 OR 0x1000 OR 0x2000)) @ take 18 (drop 4 bs))
     else Inl OutOfBounds)"

definition bip_ipn_set64 :: "u64 \<Rightarrow> u8 list" where
  "bip_ipn_set64 pn =
     [ucast pn, ucast (drop_bit 8 pn), ucast (drop_bit 16 pn), ucast (drop_bit 24 pn),
      ucast (drop_bit 32 pn), ucast (drop_bit 40 pn)]"

definition bip_ipn_swap :: "u8 list \<Rightarrow> u8 list" where
  "bip_ipn_swap s = [s ! 5, s ! 4, s ! 3, s ! 2, s ! 1, s ! 0]"

section \<open>The codes\<close>

text \<open>
  A code takes the key, the nonce, the additional data and the frame body with its MMIE. The field of the
  code itself, the last bytes of the body, counts as zeros. \<^const>\<open>None\<close> is a negative return value.
\<close>

type_synonym bip_mac = "u8 list \<Rightarrow> u8 list \<Rightarrow> u8 list \<Rightarrow> u8 list \<Rightarrow> u8 list option"

definition mac_input :: "nat \<Rightarrow> u8 list \<Rightarrow> u8 list \<Rightarrow> u8 list" where
  "mac_input mic_len aad data = aad @ take (length data - mic_len) data @ replicate mic_len 0"

definition ieee80211_aes_cmac :: "(u8 list \<Rightarrow> u8 list \<Rightarrow> u8 list) \<Rightarrow> bip_mac" where
  "ieee80211_aes_cmac cmac key nonce aad data = Some (take 8 (cmac key (mac_input 8 aad data)))"

definition ieee80211_aes_cmac_256 :: "(u8 list \<Rightarrow> u8 list \<Rightarrow> u8 list) \<Rightarrow> bip_mac" where
  "ieee80211_aes_cmac_256 cmac key nonce aad data = Some (cmac key (mac_input 16 aad data))"

definition ieee80211_aes_gmac :: "(u8 list \<Rightarrow> u8 list \<Rightarrow> u8 list \<Rightarrow> u8 list) \<Rightarrow> bool \<Rightarrow> bip_mac" where
  "ieee80211_aes_gmac gmac alloc key nonce aad data =
     (if length data < 16 then None
      else if \<not> alloc then None
      else Some (gmac key nonce (mac_input 16 aad data)))"

section \<open>Transmission\<close>

text \<open>
  \<open>sw_mmie\<close>: whether the variant lets a hardware key ask for a software element. The code is written
  into the element only when the frame is protected in software.
\<close>

definition bip_encrypt ::
  "bool \<Rightarrow> nat \<Rightarrow> bip_mac \<Rightarrow> ieee80211_tx_data \<Rightarrow> world \<Rightarrow> (ieee80211_tx_result \<times> ieee80211_tx_data \<times> world) result" where
  "bip_encrypt sw_mmie mic_len mac tx w =
     (case tx_skbs tx of
        [skb] \<Rightarrow>
          (case tx_key tx of
             None \<Rightarrow> Inl NullDeref
           | Some kp \<Rightarrow>
               rbind (deref (keys w) kp) (\<lambda>key.
               let hw = (info_hw_key skb \<noteq> None); n = skb_len skb in
               if hw \<and> \<not> (sw_mmie \<and> conf_flags key AND IEEE80211_KEY_FLAG_GENERATE_MMIE \<noteq> 0)
               then Inr (TX_CONTINUE, tx, w)
               else if skb_tailroom skb < 10 + mic_len then Inr (TX_DROP, tx, w)
               else
                 rbind (skb_put (10 + mic_len) skb) (\<lambda>skb.
                 rbind (inc_tx_pn kp w) (\<lambda>(pn64, w).
                 let mmie = [WLAN_EID_MMIE, of_nat (8 + mic_len)] @ le16_bytes (ucast (conf_keyidx key)) @
                       bip_ipn_set64 pn64
                 in rbind (buf_write (skb_data skb) n mmie) (\<lambda>bs.
                    if hw then Inr (TX_CONTINUE, tx\<lparr>tx_skbs := [skb\<lparr>skb_data := bs\<rparr>]\<rparr>, w)
                    else
                      rbind (bip_aad bs) (\<lambda>aad.
                      let nonce = take 6 (drop 10 bs) @ bip_ipn_swap (bip_ipn_set64 pn64) in
                      if n + 10 + mic_len < 24 then Inl OutOfBounds
                      else
                        (case mac (conf_key key) nonce aad (take (n + 10 + mic_len - 24) (drop 24 bs)) of
                           None \<Rightarrow> Inr (TX_DROP, tx\<lparr>tx_skbs := [skb\<lparr>skb_data := bs\<rparr>]\<rparr>, w)
                         | Some mic \<Rightarrow>
                             rbind (buf_write bs (n + 10) mic) (\<lambda>bs.
                             Inr (TX_CONTINUE, tx\<lparr>tx_skbs := [skb\<lparr>skb_data := bs\<rparr>]\<rparr>, w)))))))))
      | _ \<Rightarrow> Inr (TX_DROP, tx, w))"

definition ieee80211_crypto_aes_cmac_encrypt ::
  "(u8 list \<Rightarrow> u8 list \<Rightarrow> u8 list) \<Rightarrow> ieee80211_tx_data \<Rightarrow> world \<Rightarrow> (ieee80211_tx_result \<times> ieee80211_tx_data \<times> world) result" where
  "ieee80211_crypto_aes_cmac_encrypt cmac = bip_encrypt True 8 (ieee80211_aes_cmac cmac)"

definition ieee80211_crypto_aes_cmac_256_encrypt ::
  "(u8 list \<Rightarrow> u8 list \<Rightarrow> u8 list) \<Rightarrow> ieee80211_tx_data \<Rightarrow> world \<Rightarrow> (ieee80211_tx_result \<times> ieee80211_tx_data \<times> world) result" where
  "ieee80211_crypto_aes_cmac_256_encrypt cmac = bip_encrypt False 16 (ieee80211_aes_cmac_256 cmac)"

definition ieee80211_crypto_aes_gmac_encrypt ::
  "(u8 list \<Rightarrow> u8 list \<Rightarrow> u8 list \<Rightarrow> u8 list) \<Rightarrow> bool \<Rightarrow> ieee80211_tx_data \<Rightarrow> world \<Rightarrow>
     (ieee80211_tx_result \<times> ieee80211_tx_data \<times> world) result" where
  "ieee80211_crypto_aes_gmac_encrypt gmac alloc = bip_encrypt False 16 (ieee80211_aes_gmac gmac alloc)"

section \<open>Reception\<close>

text \<open>\<open>mic_alloc\<close>: the outcome of the allocation of the buffer for the code (GMAC only).\<close>

definition bip_decrypt ::
  "bool \<Rightarrow> nat \<Rightarrow> bip_mac \<Rightarrow> ieee80211_rx_data \<Rightarrow> world \<Rightarrow> (ieee80211_rx_result \<times> ieee80211_rx_data \<times> world) result" where
  "bip_decrypt mic_alloc mic_len mac rx w =
     (let skb = rx_skb rx; bs = skb_data skb in
      rbind (hdr_fc bs) (\<lambda>fc.
      if \<not> ieee80211_is_mgmt fc then Inr (RX_CONTINUE, rx, w)
      else if skb_len skb < 24 + (10 + mic_len) then Inr (RX_DROP_UNUSABLE, rx, w)
      else if length bs < skb_len skb then Inl OutOfBounds
      else
        let off = skb_len skb - (10 + mic_len); mmie = take (10 + mic_len) (drop off bs) in
        if mmie ! 0 \<noteq> WLAN_EID_MMIE \<or> mmie ! 1 \<noteq> of_nat (8 + mic_len) then Inr (RX_DROP_UNUSABLE, rx, w)
        else
          (case rx_key rx of
             None \<Rightarrow> Inl NullDeref
           | Some kp \<Rightarrow>
               rbind (deref (keys w) kp) (\<lambda>key.
               let ipn = bip_ipn_swap (take 6 (drop 4 mmie)) in
               if memcmp ipn (bip_rx_pn key) \<le> 0
               then Inr (RX_DROP_UNUSABLE, rx, put_key kp (key\<lparr>key_replays := key_replays key + 1\<rparr>) w)
               else
                 let accept = Inr (RX_CONTINUE, rx\<lparr>rx_skb := skb_trim off skb\<rparr>,
                                   put_key kp (key\<lparr>bip_rx_pn := ipn\<rparr>) w)
                 in if rx_status_flag rx AND RX_FLAG_DECRYPTED \<noteq> 0 then accept
                    else
                      rbind (bip_aad bs) (\<lambda>aad.
                      if \<not> mic_alloc then Inr (RX_DROP_UNUSABLE, rx, w)
                      else if mac (conf_key key) (take 6 (drop 10 bs) @ ipn) aad
                             (take (skb_len skb - 24) (drop 24 bs)) = Some (drop 10 mmie)
                      then accept
                      else Inr (RX_DROP_UNUSABLE, rx,
                             put_key kp (key\<lparr>key_icverrors := key_icverrors key + 1\<rparr>) w))))))"

definition ieee80211_crypto_aes_cmac_decrypt ::
  "(u8 list \<Rightarrow> u8 list \<Rightarrow> u8 list) \<Rightarrow> ieee80211_rx_data \<Rightarrow> world \<Rightarrow> (ieee80211_rx_result \<times> ieee80211_rx_data \<times> world) result" where
  "ieee80211_crypto_aes_cmac_decrypt cmac = bip_decrypt True 8 (ieee80211_aes_cmac cmac)"

definition ieee80211_crypto_aes_cmac_256_decrypt ::
  "(u8 list \<Rightarrow> u8 list \<Rightarrow> u8 list) \<Rightarrow> ieee80211_rx_data \<Rightarrow> world \<Rightarrow> (ieee80211_rx_result \<times> ieee80211_rx_data \<times> world) result" where
  "ieee80211_crypto_aes_cmac_256_decrypt cmac = bip_decrypt True 16 (ieee80211_aes_cmac_256 cmac)"

definition ieee80211_crypto_aes_gmac_decrypt ::
  "(u8 list \<Rightarrow> u8 list \<Rightarrow> u8 list \<Rightarrow> u8 list) \<Rightarrow> bool \<Rightarrow> bool \<Rightarrow> ieee80211_rx_data \<Rightarrow> world \<Rightarrow>
     (ieee80211_rx_result \<times> ieee80211_rx_data \<times> world) result" where
  "ieee80211_crypto_aes_gmac_decrypt gmac alloc mic_alloc = bip_decrypt mic_alloc 16 (ieee80211_aes_gmac gmac alloc)"

section \<open>Facts\<close>

lemma length_bip_ipn [simp]: "length (bip_ipn_set64 pn) = 6"
  by (simp add: bip_ipn_set64_def)

lemma bip_ipn_swap_set64: "bip_ipn_swap (bip_ipn_set64 pn) = pn_be_bytes pn"
  by (simp add: bip_ipn_swap_def bip_ipn_set64_def pn_be_bytes_def)

text \<open>What the code relies on: the code has its size and does not depend on the bytes of its own field.\<close>

definition bip_mac_ok :: "bip_mac \<Rightarrow> nat \<Rightarrow> bool" where
  "bip_mac_ok mac ml \<longleftrightarrow>
     (\<forall>k n a d x y. length x = ml \<and> length y = ml \<longrightarrow>
        (\<exists>mic. mac k n a (d @ x) = Some mic \<and> mac k n a (d @ y) = Some mic \<and> length mic = ml))"

lemma bip_aad_ok:
  assumes "24 \<le> length f" and "hdr_fc f = Inr fc"
  shows "\<exists>aad. \<forall>x. bip_aad (f @ x) = Inr aad \<and> hdr_fc (f @ x) = Inr fc"
proof -
  have "hdr_fc (f @ x) = Inr fc" for x
    using hdr_fields_of_take(1) [of "length f" "f @ x" f] assms by simp
  then show ?thesis using assms(1) by (simp add: bip_aad_def)
qed

definition mmie_head :: "nat \<Rightarrow> u8 \<Rightarrow> u64 \<Rightarrow> u8 list" where
  "mmie_head ml kid pn = [WLAN_EID_MMIE, of_nat (8 + ml)] @ le16_bytes (ucast kid) @ bip_ipn_set64 pn"

lemma mmie_head_fields:
  "length (mmie_head ml kid pn) = 10" "(mmie_head ml kid pn @ x) ! 0 = WLAN_EID_MMIE"
  "(mmie_head ml kid pn @ x) ! 1 = of_nat (8 + ml)" "(mmie_head ml kid pn @ x) ! Suc 0 = of_nat (8 + ml)"
  "take 6 (drop 4 (mmie_head ml kid pn @ x)) = bip_ipn_set64 pn"
  by (simp_all add: mmie_head_def le16_bytes_def bip_ipn_set64_def)

lemma bip_encrypt_ok:
  assumes mac: "bip_mac_ok mac ml" and f: "24 \<le> length f" "hdr_fc f = Inr fc"
    and s: "skb_data s = f @ t" "skb_len s = length f" "10 + ml \<le> length t" "info_hw_key s = None"
    and tx: "tx_skbs tx = [s]" "tx_key tx = Some kp" "keys w kp = Some key"
  defines "pn \<equiv> conf_tx_pn key + 1" and "mh \<equiv> mmie_head ml (conf_keyidx key) (conf_tx_pn key + 1)"
  shows "\<exists>s' w' mic aad. bip_encrypt sw ml mac tx w = Inr (TX_CONTINUE, tx\<lparr>tx_skbs := [s']\<rparr>, w') \<and>
    frame_bytes s' = f @ mh @ mic \<and> skb_len s' = length f + 10 + ml \<and> length mic = ml \<and> bip_aad f = Inr aad \<and>
    mac (conf_key key) (take 6 (drop 10 f) @ pn_be_bytes pn) aad (drop 24 f @ mh @ mic) = Some mic"
proof -
  have mh: "length mh = 10" by (simp add: mh_def mmie_head_fields)
  define t1 where "t1 = take ml (drop 10 t)"
  define t2 where "t2 = drop (10 + ml) t"
  have t: "t = take 10 t @ t1 @ t2" "length t1 = ml" "length (take 10 t) = 10"
    using s(3) by (simp_all add: t1_def t2_def) (metis add.commute append_take_drop_id drop_drop)
  obtain aad where aad: "bip_aad (f @ x) = Inr aad" for x using bip_aad_ok [OF f] by blast
  let ?nonce = "take 6 (drop 10 f) @ pn_be_bytes pn"
  obtain mic where mic: "mac (conf_key key) ?nonce aad ((drop 24 f @ mh) @ t1) = Some mic" "length mic = ml"
    using mac t(2) unfolding bip_mac_ok_def by blast
  then have mic': "mac (conf_key key) ?nonce aad ((drop 24 f @ mh) @ mic) = Some mic"
    using mac t(2) unfolding bip_mac_ok_def by (metis option.inject)
  have w1: "buf_write (f @ t) (length f) mh = Inr (f @ mh @ t1 @ t2)"
    using buf_write_mid [of f "length f" mh "take 10 t" "t1 @ t2"] t mh by simp
  have w2: "buf_write (f @ mh @ t1 @ t2) (length f + 10) mic = Inr (f @ mh @ mic @ t2)"
    using buf_write_mid [of "f @ mh" "length f + 10" mic t1 t2] t(2) mh mic(2) by simp
  have body: "take (length f + 10 + ml - 24) (drop 24 (f @ mh @ t1 @ t2)) = (drop 24 f @ mh) @ t1"
    using f(1) mh t(2) by simp
  have nonce: "take 6 (drop 10 (f @ mh @ t1 @ t2)) = take 6 (drop 10 f)" using f(1) by simp
  let ?s' = "s\<lparr>skb_len := length f + (10 + ml), skb_data := f @ mh @ mic @ t2\<rparr>"
  have "bip_encrypt sw ml mac tx w = Inr (TX_CONTINUE, tx\<lparr>tx_skbs := [?s']\<rparr>, put_key kp (key\<lparr>conf_tx_pn := pn\<rparr>) w)"
    using tx s f(1) w1 w2 body nonce mic(1) aad [of "mh @ t1 @ t2"]
    unfolding bip_encrypt_def inc_tx_pn_def skb_tailroom_def skb_put_def mh_def mmie_head_def pn_def
    by (simp add: Let_def bip_ipn_swap_set64 add.assoc)
  moreover have "frame_bytes ?s' = f @ mh @ mic" using mh mic(2) by (simp add: frame_bytes_def)
  moreover have "bip_aad f = Inr aad" using aad [of "[]"] by simp
  ultimately show ?thesis using mic(2) mic'
    by (intro exI [of _ ?s'] exI [of _ "put_key kp (key\<lparr>conf_tx_pn := pn\<rparr>) w"] exI [of _ mic] exI [of _ aad]) simp
qed

lemma bip_decrypt_ok:
  assumes mac: "mac (conf_key key) (take 6 (drop 10 f) @ pn_be_bytes pn) aad (drop 24 f @ mh @ mic) = Some mic"
    and f: "24 \<le> length f" "hdr_fc f = Inr fc" "ieee80211_is_mgmt fc" "bip_aad f = Inr aad"
    and mh: "mh = mmie_head ml kid pn" "length mic = ml"
    and rx: "frame_bytes (rx_skb rx) = f @ mh @ mic" "skb_len (rx_skb rx) = length f + 10 + ml"
      "rx_status_flag rx = 0" "rx_key rx = Some kp" "keys v kp = Some key"
    and pn: "length (bip_rx_pn key) = 6" "be_nat (bip_rx_pn key) < be_nat (pn_be_bytes pn)"
  shows "\<exists>s'. bip_decrypt True ml mac rx v = Inr (RX_CONTINUE, rx\<lparr>rx_skb := s'\<rparr>,
      put_key kp (key\<lparr>bip_rx_pn := pn_be_bytes pn\<rparr>) v) \<and> frame_bytes s' = f"
proof -
  let ?bs = "skb_data (rx_skb rx)"
  have l: "length mh = 10" by (simp add: mh mmie_head_fields)
  define t where "t = drop (skb_len (rx_skb rx)) ?bs"
  have bs: "?bs = f @ mh @ mic @ t"
    using rx(1) by (metis append.assoc append_take_drop_id frame_bytes_def t_def)
  obtain aad' where a: "bip_aad (f @ x) = Inr aad'" "hdr_fc (f @ x) = Inr fc" for x
    using bip_aad_ok [OF f(1,2)] by blast
  have aad: "bip_aad ?bs = Inr aad" using a(1) [of "[]"] a(1) [of "mh @ mic @ t"] f(4) bs by simp
  have fc: "hdr_fc ?bs = Inr fc" using a(2) [of "mh @ mic @ t"] bs by simp
  have off: "length f + 10 + ml - (10 + ml) = length f" by simp
  have mmie: "take (10 + ml) (drop (length f) ?bs) = mh @ mic" using bs l mh(2) by simp
  have tail: "drop 10 (mh @ mic) = mic" using l by simp
  have body: "take (length f + 10 + ml - 24) (drop 24 ?bs) = drop 24 f @ mh @ mic"
    using bs f(1) l mh(2) by simp
  have nonce: "take 6 (drop 10 ?bs) = take 6 (drop 10 f)" using bs f(1) by simp
  have cmp: "memcmp (pn_be_bytes pn) (bip_rx_pn key) = 1" using pn by (simp add: memcmp_be_nat)
  have m: "(mh @ mic) ! 0 = WLAN_EID_MMIE" "(mh @ mic) ! 1 = of_nat (8 + ml)" "(mh @ mic) ! Suc 0 = of_nat (8 + ml)"
    "bip_ipn_swap (take 6 (drop 4 (mh @ mic))) = pn_be_bytes pn"
    using mmie_head_fields(2-5) [of ml kid pn mic] by (simp_all add: mh(1) bip_ipn_swap_set64)
  have long: "length f + 10 + ml \<le> length ?bs" using bs l mh(2) by simp
  let ?s' = "skb_trim (length f) (rx_skb rx)"
  have "bip_decrypt True ml mac rx v = Inr (RX_CONTINUE, rx\<lparr>rx_skb := ?s'\<rparr>,
      put_key kp (key\<lparr>bip_rx_pn := pn_be_bytes pn\<rparr>) v)"
    unfolding bip_decrypt_def Let_def fc rx(2-4) off mmie m aad nonce body tail rbind_simps
      option.case using f(1,3) m(2,3) cmp long mac rx(5) by simp
  moreover have "frame_bytes ?s' = f"
    using bs rx(2) l mh(2) by (simp add: frame_bytes_def skb_trim_def)
  ultimately show ?thesis by blast
qed

lemma mac_input_field: "length x = ml \<Longrightarrow> mac_input ml aad (d @ x) = aad @ d @ replicate ml 0"
  by (simp add: mac_input_def)

lemma bip_macs_ok:
  assumes "\<forall>k m. length (cmac k m) = 16" and "\<forall>k n m. length (gmac k n m) = 16"
  shows "bip_mac_ok (ieee80211_aes_cmac cmac) 8" "bip_mac_ok (ieee80211_aes_cmac_256 cmac) 16"
    "bip_mac_ok (ieee80211_aes_gmac gmac True) 16"
  using assms by (simp_all add: bip_mac_ok_def ieee80211_aes_cmac_def ieee80211_aes_cmac_256_def
      ieee80211_aes_gmac_def mac_input_field)

lemma bip_round_trip:
  assumes mac: "bip_mac_ok mac ml"
    and s: "tx_skbs tx = [s]" "hdr_fc (frame_bytes s) = Inr fc" "ieee80211_is_mgmt fc" "24 \<le> skb_len s"
      "skb_len s + 10 + ml \<le> length (skb_data s)" "info_hw_key s = None"
    and k: "tx_key tx = Some kp" "keys w kp = Some key"
    and r: "rx_status_flag rx = 0" "rx_key rx = Some rkp" "keys v rkp = Some rkey" "conf_key rkey = conf_key key"
      "length (bip_rx_pn rkey) = 6" "be_nat (bip_rx_pn rkey) < unat (conf_tx_pn key + 1) mod 2 ^ 48"
  shows "\<exists>s' w'. bip_encrypt sw ml mac tx w = Inr (TX_CONTINUE, tx\<lparr>tx_skbs := [s']\<rparr>, w') \<and>
    (skb_len (rx_skb rx) = skb_len s' \<and> frame_bytes (rx_skb rx) = frame_bytes s' \<longrightarrow>
      (\<exists>rx' v'. bip_decrypt True ml mac rx v = Inr (RX_CONTINUE, rx', v') \<and> frame_bytes (rx_skb rx') = frame_bytes s))"
proof -
  let ?f = "frame_bytes s"
  have f: "24 \<le> length ?f" "skb_len s = length ?f" using s(4,5) by (simp_all add: frame_bytes_def)
  have d: "skb_data s = ?f @ drop (skb_len s) (skb_data s)" by (simp add: frame_bytes_def)
  have room: "10 + ml \<le> length (drop (skb_len s) (skb_data s))" using s(5) by simp
  obtain s' w' mic aad where e: "bip_encrypt sw ml mac tx w = Inr (TX_CONTINUE, tx\<lparr>tx_skbs := [s']\<rparr>, w')"
      "frame_bytes s' = ?f @ mmie_head ml (conf_keyidx key) (conf_tx_pn key + 1) @ mic"
      "skb_len s' = length ?f + 10 + ml" "length mic = ml" "bip_aad ?f = Inr aad"
      "mac (conf_key key) (take 6 (drop 10 ?f) @ pn_be_bytes (conf_tx_pn key + 1)) aad
         (drop 24 ?f @ mmie_head ml (conf_keyidx key) (conf_tx_pn key + 1) @ mic) = Some mic"
    using bip_encrypt_ok [OF mac f(1) s(2) d f(2) room s(6,1) k] by blast
  have pn: "be_nat (bip_rx_pn rkey) < be_nat (pn_be_bytes (conf_tx_pn key + 1))" using r(6) by (simp add: be_nat_pn)
  have "\<exists>rx' v'. bip_decrypt True ml mac rx v = Inr (RX_CONTINUE, rx', v') \<and> frame_bytes (rx_skb rx') = ?f"
    if "skb_len (rx_skb rx) = skb_len s'" "frame_bytes (rx_skb rx) = frame_bytes s'"
    using bip_decrypt_ok [where mac = mac and key = rkey and f = ?f and mic = mic and aad = aad and fc = fc and ml = ml
        and pn = "conf_tx_pn key + 1" and kid = "conf_keyidx key" and rx = rx and kp = rkp and v = v,
        OF e(6) [folded r(4)] f(1) s(2,3) e(5) refl e(4) _ _ r(1-3,5) pn] that e(2,3) by fastforce
  then show ?thesis using e(1) by blast
qed

text \<open>The receiver of protected management frames as a replay filter.\<close>

definition bip_recv :: "nat \<Rightarrow> bip_mac \<Rightarrow> key_ptr \<Rightarrow> ieee80211_rx_data \<Rightarrow> world \<Rightarrow> bool \<times> world" where
  "bip_recv ml mac kp f w =
     (case hdr_fc (skb_data (rx_skb f)) of
        Inl _ \<Rightarrow> (False, w)
      | Inr fc \<Rightarrow>
          if \<not> ieee80211_is_mgmt fc then (False, w)
          else
            (case bip_decrypt True ml mac (f\<lparr>rx_key := Some kp\<rparr>) w of
               Inl _ \<Rightarrow> (False, w)
             | Inr (res, _, w') \<Rightarrow> (res = RX_CONTINUE, w')))"

definition bip_pn :: "nat \<Rightarrow> ieee80211_rx_data \<Rightarrow> nat" where
  "bip_pn ml f =
     (let skb = rx_skb f in
      be_nat (bip_ipn_swap (take 6 (drop 4 (take (10 + ml) (drop (skb_len skb - (10 + ml)) (skb_data skb)))))))"

definition bip_last_pn :: "key_ptr \<Rightarrow> world \<Rightarrow> nat" where
  "bip_last_pn kp w = (case keys w kp of None \<Rightarrow> 0 | Some key \<Rightarrow> be_nat (bip_rx_pn key))"

definition bip_pn_ok :: "key_ptr \<Rightarrow> world \<Rightarrow> bool" where
  "bip_pn_ok kp w \<longleftrightarrow> (\<exists>key. keys w kp = Some key \<and> length (bip_rx_pn key) = 6)"

lemma bip_branches:
  assumes "(if A then Inr (RX_DROP_UNUSABLE, rx, w)
     else if B then Inl OutOfBounds
     else if C then Inr (RX_DROP_UNUSABLE, rx, w)
     else rbind (deref (keys w) kp) (\<lambda>key.
       if memcmp ipn (bip_rx_pn key) \<le> 0
       then Inr (RX_DROP_UNUSABLE, rx, put_key kp (key\<lparr>key_replays := key_replays key + 1\<rparr>) w)
       else if D then Inr (RX_CONTINUE, rx2, put_key kp (key\<lparr>bip_rx_pn := ipn\<rparr>) w)
       else rbind r (\<lambda>aad.
         if E then Inr (RX_DROP_UNUSABLE, rx, w)
         else if F key aad then Inr (RX_CONTINUE, rx2, put_key kp (key\<lparr>bip_rx_pn := ipn\<rparr>) w)
         else Inr (RX_DROP_UNUSABLE, rx, put_key kp (key\<lparr>key_icverrors := key_icverrors key + 1\<rparr>) w))))
     = Inr (res, rx', w')"
  shows "if res = RX_CONTINUE
    then \<exists>key. keys w kp = Some key \<and> memcmp ipn (bip_rx_pn key) > 0 \<and> w' = put_key kp (key\<lparr>bip_rx_pn := ipn\<rparr>) w
    else map_option bip_rx_pn (keys w' kp) = map_option bip_rx_pn (keys w kp)"
  using assms
  by (auto elim!: rbind_InrE simp: deref_Inr_iff not_le put_key_def split: if_split_asm)

lemma bip_decrypt_cases:
  assumes "bip_decrypt al ml mac rx w = Inr (res, rx', w')" and "hdr_fc (skb_data (rx_skb rx)) = Inr fc"
    and "ieee80211_is_mgmt fc" and "rx_key rx = Some kp"
  defines "pn \<equiv> bip_ipn_swap (take 6 (drop 4 (take (10 + ml) (drop (skb_len (rx_skb rx) - (10 + ml)) (skb_data (rx_skb rx))))))"
  shows "if res = RX_CONTINUE
    then \<exists>key. keys w kp = Some key \<and> memcmp pn (bip_rx_pn key) > 0 \<and> w' = put_key kp (key\<lparr>bip_rx_pn := pn\<rparr>) w
    else map_option bip_rx_pn (keys w' kp) = map_option bip_rx_pn (keys w kp)"
proof -
  have nn: "(\<not> ieee80211_is_mgmt fc) = False" using assms(3) by simp
  show ?thesis
    using assms(1) unfolding bip_decrypt_def Let_def assms(2) assms(4) pn_def rbind_simps option.case nn if_False
    by (rule bip_branches)
qed

lemma length_bip_ipn_swap: "length (bip_ipn_swap i) = 6"
  by (simp add: bip_ipn_swap_def)

interpretation bip_replay: replay_filter "bip_recv ml mac kp" "bip_pn ml" "bip_last_pn kp" "bip_pn_ok kp" for ml mac kp
proof
  fix s s' :: world and f :: ieee80211_rx_data
  let ?f = "f\<lparr>rx_key := Some kp\<rparr>"
  assume inv: "bip_pn_ok kp s"
  {
    assume "bip_recv ml mac kp f s = (True, s')"
    then obtain fc rx' where fc: "hdr_fc (skb_data (rx_skb f)) = Inr fc" "ieee80211_is_mgmt fc"
        "bip_decrypt True ml mac ?f s = Inr (RX_CONTINUE, rx', s')"
      by (auto simp: bip_recv_def split: sum.split_asm if_split_asm)
    obtain key where key: "keys s kp = Some key" "length (bip_rx_pn key) = 6" using inv by (auto simp: bip_pn_ok_def)
    let ?pn = "bip_ipn_swap (take 6 (drop 4 (take (10 + ml) (drop (skb_len (rx_skb f) - (10 + ml)) (skb_data (rx_skb f))))))"
    have c: "memcmp ?pn (bip_rx_pn key) > 0" "s' = put_key kp (key\<lparr>bip_rx_pn := ?pn\<rparr>) s"
      using bip_decrypt_cases [OF fc(3), of fc kp] fc(1,2) key(1) by simp_all
    have pn: "bip_pn ml f = be_nat ?pn" by (simp only: bip_pn_def Let_def)
    have l: "length ?pn = length (bip_rx_pn key)" by (simp only: length_bip_ipn_swap key(2))
    have "be_nat (bip_rx_pn key) < be_nat ?pn" using c(1) by (simp only: memcmp_be_nat [OF l] split: if_split_asm)
    then show "bip_last_pn kp s < bip_pn ml f \<and> bip_last_pn kp s' = bip_pn ml f \<and> bip_pn_ok kp s'"
      unfolding pn c(2) by (simp add: bip_last_pn_def bip_pn_ok_def put_key_def key length_bip_ipn_swap)
  next
    assume r: "bip_recv ml mac kp f s = (False, s')"
    show "bip_last_pn kp s \<le> bip_last_pn kp s' \<and> bip_pn_ok kp s'"
    proof (cases "\<exists>fc res rx'. hdr_fc (skb_data (rx_skb f)) = Inr fc \<and> ieee80211_is_mgmt fc \<and>
        res \<noteq> RX_CONTINUE \<and> bip_decrypt True ml mac ?f s = Inr (res, rx', s')")
      case True
      then obtain fc res rx' where fc: "hdr_fc (skb_data (rx_skb f)) = Inr fc" "ieee80211_is_mgmt fc"
        "res \<noteq> RX_CONTINUE" "bip_decrypt True ml mac ?f s = Inr (res, rx', s')" by blast
      then show ?thesis
        using bip_decrypt_cases [OF fc(4), of fc kp] inv
        by (cases "keys s' kp") (auto simp: bip_last_pn_def bip_pn_ok_def)
    next
      case False
      then have "s' = s" using r by (auto simp: bip_recv_def split: sum.split_asm if_split_asm)
      then show ?thesis using inv by simp
    qed
  }
qed

section \<open>Properties\<close>

text \<open>
  Protected management frames (BIP). A group-addressed management frame to which the sender appends the
  management MIC element with \<^verbatim>\<open>AES-128-CMAC\<close>, received unchanged by a holder of the same group key with a lower
  stored packet number, is accepted, and the receiver hands up the frame as it was before the
  element was appended.
\<close>

theorem cmac_round_trip:
  assumes "\<forall>k m. length (cmac k m) = 16"
    and "tx_skbs tx = [s]" and "hdr_fc (frame_bytes s) = Inr fc" and "ieee80211_is_mgmt fc" and "24 \<le> skb_len s"
    and "skb_len s + 18 \<le> length (skb_data s)" and "info_hw_key s = None"
    and "tx_key tx = Some kp" and "keys w kp = Some key"
    and "rx_status_flag rx = 0" and "rx_key rx = Some rkp" and "keys v rkp = Some rkey" and "conf_key rkey = conf_key key"
    and "length (bip_rx_pn rkey) = 6" and "be_nat (bip_rx_pn rkey) < unat (conf_tx_pn key + 1) mod 2 ^ 48"
  shows "\<exists>s' w'. ieee80211_crypto_aes_cmac_encrypt cmac tx w = Inr (TX_CONTINUE, tx\<lparr>tx_skbs := [s']\<rparr>, w') \<and>
    (skb_len (rx_skb rx) = skb_len s' \<and> frame_bytes (rx_skb rx) = frame_bytes s' \<longrightarrow>
      (\<exists>rx' v'. ieee80211_crypto_aes_cmac_decrypt cmac rx v = Inr (RX_CONTINUE, rx', v') \<and>
         frame_bytes (rx_skb rx') = frame_bytes s))"
proof -
  have "bip_mac_ok (ieee80211_aes_cmac cmac) 8"
    using bip_macs_ok(1) [of cmac "\<lambda>k n m. replicate 16 0"] assms(1) by simp
  moreover have "skb_len s + 10 + 8 \<le> length (skb_data s)" using assms(6) by simp
  ultimately show ?thesis
    unfolding ieee80211_crypto_aes_cmac_encrypt_def ieee80211_crypto_aes_cmac_decrypt_def
    by (rule bip_round_trip [OF _ assms(2-5) _ assms(7-15)])
qed

definition sample_deauth :: sk_buff where
  "sample_deauth = sample_skb\<lparr>skb_data := hdr_bytes (sample_hdr\<lparr>frame_control := 0xC0\<rparr>) @ replicate 24 0, skb_len := 26\<rparr>"

definition sample_cmac :: "u8 list \<Rightarrow> u8 list \<Rightarrow> u8 list" where
  "sample_cmac k m = replicate 15 (sum_list m) @ [sum_list k]"

theorem cmac_round_trip_witness:
  "\<exists>s' tx' w'. ieee80211_crypto_aes_cmac_encrypt sample_cmac (sample_tx\<lparr>tx_skbs := [sample_deauth], tx_key := Some 3\<rparr>)
      sample_paired_ap = Inr (TX_CONTINUE, tx', w') \<and> tx_skbs tx' = [s'] \<and>
    (\<exists>rx' v'. ieee80211_crypto_aes_cmac_decrypt sample_cmac (sample_rx s') sample_paired_sta = Inr (RX_CONTINUE, rx', v') \<and>
       frame_bytes (rx_skb rx') = frame_bytes sample_deauth)"
proof -
  let ?tx = "sample_tx\<lparr>tx_skbs := [sample_deauth], tx_key := Some 3\<rparr>"
  have fc: "hdr_fc (frame_bytes sample_deauth) = Inr 0xC0"
    using hdr_load_fields(2) [OF hdr_load_append [of "sample_hdr\<lparr>frame_control := 0xC0\<rparr>" "replicate 24 0"]]
    by (simp add: hdr_fc_def frame_bytes_def sample_deauth_def nth_append)
  have ex: "\<exists>s' w'. ieee80211_crypto_aes_cmac_encrypt sample_cmac ?tx sample_paired_ap =
      Inr (TX_CONTINUE, ?tx\<lparr>tx_skbs := [s']\<rparr>, w') \<and>
    (skb_len (rx_skb (sample_rx t)) = skb_len s' \<and> frame_bytes (rx_skb (sample_rx t)) = frame_bytes s' \<longrightarrow>
    (\<exists>rx' v'. ieee80211_crypto_aes_cmac_decrypt sample_cmac (sample_rx t) sample_paired_sta = Inr (RX_CONTINUE, rx', v') \<and>
       frame_bytes (rx_skb rx') = frame_bytes sample_deauth))" for t
    by (rule cmac_round_trip [OF _ _ fc _ _ _ _ _ sample_paired_key(2) _ _ sample_paired_key(1)])
      (simp_all add: sample_cmac_def sample_deauth_def sample_rx_def sample_key_def ieee80211_is_mgmt_def sample_skb_def)
  obtain s' w' where s': "ieee80211_crypto_aes_cmac_encrypt sample_cmac ?tx sample_paired_ap =
      Inr (TX_CONTINUE, ?tx\<lparr>tx_skbs := [s']\<rparr>, w')"
    using ex [of sample_mpdu] by blast
  have "rx_skb (sample_rx s') = s'" by (simp add: sample_rx_def)
  moreover have "s'' = s'" if "?tx\<lparr>tx_skbs := [s'']\<rparr> = ?tx\<lparr>tx_skbs := [s']\<rparr>" for s''
    using arg_cong [OF that, of tx_skbs] by simp
  ultimately have "\<exists>rx' v'. ieee80211_crypto_aes_cmac_decrypt sample_cmac (sample_rx s') sample_paired_sta =
      Inr (RX_CONTINUE, rx', v') \<and> frame_bytes (rx_skb rx') = frame_bytes sample_deauth"
    using s' ex [of s'] by (metis Pair_inject sum.inject(2))
  then show ?thesis using s' by (intro exI [of _ s'] exI [of _ "?tx\<lparr>tx_skbs := [s']\<rparr>"] exI [of _ w']) simp
qed

end
