(* ===== verification/Cipher_Select.thy ===== *)
theory Cipher_Select
  imports Tkip Bip
begin

text \<open>
  The choice of the cipher: the generic cipher schemes and hardware-only ciphers of \<^verbatim>\<open>net/mac80211/wpa.c\<close>, the
  dispatch on transmission (\<open>ieee80211_tx_h_encrypt\<close> of \<^verbatim>\<open>tx.c\<close>) and, of \<^verbatim>\<open>rx.c\<close>, the selection of the key of a
  received frame with the dispatch of its decryption and the checks that drop frames received in
  the clear.
\<close>

section \<open>Cipher schemes of the hardware\<close>

abbreviation (input) KEY_FLAG_CIPHER_SCHEME :: u32 where "KEY_FLAG_CIPHER_SCHEME \<equiv> 4"

text \<open>\<open>expand\<close> says whether \<open>pskb_expand_head\<close> finds memory; it then adds the missing headroom.\<close>

definition ieee80211_crypto_cs_encrypt ::
  "bool \<Rightarrow> key_ptr \<Rightarrow> sk_buff \<Rightarrow> world \<Rightarrow> (ieee80211_tx_result \<times> sk_buff) result" where
  "ieee80211_crypto_cs_encrypt expand kp skb w =
     rbind (deref (keys w) kp) (\<lambda>key.
     rbind (hw_key_flags w skb) (\<lambda>hw.
     let iv_len = conf_iv_len key in
     if (case hw of None \<Rightarrow> False | Some f \<Rightarrow> f AND IEEE80211_KEY_FLAG_PUT_IV_SPACE = 0) then Inr (TX_CONTINUE, skb)
     else if skb_headroom skb < iv_len \<and> \<not> expand then Inr (TX_DROP, skb)
     else
       let skb = (if skb_headroom skb < iv_len then skb\<lparr>skb_head := replicate iv_len 0 @ skb_head skb\<rparr> else skb) in
       rbind (hdr_fc (skb_data skb)) (\<lambda>fc.
       let hdrlen = ieee80211_hdrlen fc in
       rbind (skb_push iv_len skb) (\<lambda>skb.
       rbind (move_hdr_down iv_len hdrlen (skb_data skb)) (\<lambda>bs.
       Inr (TX_CONTINUE, skb\<lparr>skb_data := bs\<rparr>))))))"

text \<open>The comparison of little-endian packet numbers, from the last byte down.\<close>

fun cs_pn_compare_from :: "u8 list \<Rightarrow> u8 list \<Rightarrow> nat \<Rightarrow> int result" where
  "cs_pn_compare_from pn1 pn2 0 = Inr 0"
| "cs_pn_compare_from pn1 pn2 (Suc i) =
     rbind (arr_get pn1 i) (\<lambda>a. rbind (arr_get pn2 i) (\<lambda>b.
     if a < b then Inr (- 1) else if a > b then Inr 1 else cs_pn_compare_from pn1 pn2 i))"

definition ieee80211_crypto_cs_pn_compare :: "u8 list \<Rightarrow> u8 list \<Rightarrow> nat \<Rightarrow> int result" where
  "ieee80211_crypto_cs_pn_compare pn1 pn2 len = cs_pn_compare_from pn1 pn2 len"

definition rx_sta_of :: "ieee80211_rx_data \<Rightarrow> world \<Rightarrow> sta_info option result" where
  "rx_sta_of rx w = (case rx_sta rx of None \<Rightarrow> Inr None | Some p \<Rightarrow> rbind (deref (stas w) p) (\<lambda>s. Inr (Some s)))"

definition rx_sdata_of :: "ieee80211_rx_data \<Rightarrow> world \<Rightarrow> ieee80211_sub_if_data result" where
  "rx_sdata_of rx w = (case rx_sdata rx of None \<Rightarrow> Inl NullDeref | Some sp \<Rightarrow> deref (sdatas w) sp)"

definition ieee80211_crypto_cs_decrypt ::
  "ieee80211_rx_data \<Rightarrow> world \<Rightarrow> (ieee80211_rx_result \<times> ieee80211_rx_data \<times> world) result" where
  "ieee80211_crypto_cs_decrypt rx w =
     (let skb = rx_skb rx; bs = skb_data skb in
      rbind (hdr_fc bs) (\<lambda>fc.
      let hdrlen = ieee80211_hdrlen fc in
      rbind (rx_sta_of rx w) (\<lambda>sta.
      case (case sta of None \<Rightarrow> None | Some s \<Rightarrow> cipher_scheme s) of
        None \<Rightarrow> Inr (RX_DROP_UNUSABLE, rx, w)
      | Some cs \<Rightarrow>
          if rx_status_flag rx AND RX_FLAG_DECRYPTED = 0 then Inr (RX_DROP_UNUSABLE, rx, w)
          else if \<not> ieee80211_is_data fc then Inr (RX_CONTINUE, rx, w)
          else if skb_len skb < hdrlen + cs_hdr_len cs then Inr (RX_DROP_UNUSABLE, rx, w)
          else
            rbind (if ieee80211_is_data_qos fc then ieee80211_get_tid bs else Inr 0) (\<lambda>qos_tid.
            case rx_key rx of
              None \<Rightarrow> Inl NullDeref
            | Some kp \<Rightarrow>
                rbind (deref (keys w) kp) (\<lambda>key.
                rbind (arr_get (key_rx_pn key) (unat qos_tid)) (\<lambda>rx_pn.
                let skb_pn = drop (hdrlen + cs_pn_off cs) bs in
                rbind (ieee80211_crypto_cs_pn_compare skb_pn rx_pn (cs_pn_len cs)) (\<lambda>c.
                if c \<le> 0 then Inr (RX_DROP_UNUSABLE, rx, w)
                else
                  rbind (buf_write rx_pn 0 (take (cs_pn_len cs) skb_pn)) (\<lambda>rx_pn.
                  let w = put_key kp (key\<lparr>key_rx_pn := (key_rx_pn key)[unat qos_tid := rx_pn]\<rparr>) w in
                  rbind (strip_mpdu (cs_hdr_len cs) hdrlen (if skb_len skb < cs_mic_len cs then 0 else cs_mic_len cs) skb)
                    (\<lambda>skb. Inr (RX_CONTINUE, rx\<lparr>rx_skb := skb\<rparr>, w))))))))))"

text \<open>The walk of \<open>ieee80211_crypto_hw_encrypt\<close>; the protected bit is set once all buffers are prepared.\<close>

fun hw_encrypt_walk ::
  "bool \<Rightarrow> key_ptr \<Rightarrow> ieee80211_key \<Rightarrow> sk_buff list \<Rightarrow> world \<Rightarrow> (ieee80211_tx_result \<times> sk_buff list) result" where
  "hw_encrypt_walk expand kp key [] w = Inr (TX_CONTINUE, [])"
| "hw_encrypt_walk expand kp key (skb # rest) w =
     (if info_hw_key skb = None then Inr (TX_DROP, skb # rest)
      else
        rbind (if key_flags key AND KEY_FLAG_CIPHER_SCHEME \<noteq> 0 then ieee80211_crypto_cs_encrypt expand kp skb w
               else Inr (TX_CONTINUE, skb)) (\<lambda>(res, skb).
        if res \<noteq> TX_CONTINUE then Inr (res, skb # rest)
        else rbind (hw_encrypt_walk expand kp key rest w) (\<lambda>(res, rest). Inr (res, skb # rest))))"

definition ieee80211_crypto_hw_encrypt ::
  "bool \<Rightarrow> ieee80211_tx_data \<Rightarrow> world \<Rightarrow> (ieee80211_tx_result \<times> ieee80211_tx_data \<times> world) result" where
  "ieee80211_crypto_hw_encrypt expand tx w =
     (case tx_key tx of
        None \<Rightarrow> Inl NullDeref
      | Some kp \<Rightarrow>
          rbind (deref (keys w) kp) (\<lambda>key.
          rbind (hw_encrypt_walk expand kp key (tx_skbs tx) w) (\<lambda>(res, skbs).
          if res \<noteq> TX_CONTINUE then Inr (res, tx\<lparr>tx_skbs := skbs\<rparr>, w)
          else rbind (set_protected skbs) (\<lambda>skbs. Inr (TX_CONTINUE, tx\<lparr>tx_skbs := skbs\<rparr>, w)))))"

definition ieee80211_crypto_hw_decrypt ::
  "ieee80211_rx_data \<Rightarrow> world \<Rightarrow> (ieee80211_rx_result \<times> ieee80211_rx_data \<times> world) result" where
  "ieee80211_crypto_hw_decrypt rx w =
     rbind (rx_sta_of rx w) (\<lambda>sta.
     if (case sta of None \<Rightarrow> False | Some s \<Rightarrow> cipher_scheme s \<noteq> None) then ieee80211_crypto_cs_decrypt rx w
     else Inr (RX_DROP_UNUSABLE, rx, w))"

section \<open>Transmission\<close>

text \<open>The library functions and allocation outcomes of all ciphers.\<close>

record crypto_lib =
  lib_rc4 :: rc4_lib
  lib_ccm :: aead
  lib_gcm :: aead
  lib_cmac :: "u8 list \<Rightarrow> u8 list \<Rightarrow> u8 list"
  lib_gmac :: "u8 list \<Rightarrow> u8 list \<Rightarrow> u8 list \<Rightarrow> u8 list"
  gmac_alloc :: bool
  gmac_mic_alloc :: bool
  drv_tkip_key :: bool
  skb_expand :: bool

abbreviation (input) IEEE80211_CCMP_MIC_LEN :: nat where "IEEE80211_CCMP_MIC_LEN \<equiv> 8"
abbreviation (input) IEEE80211_CCMP_256_MIC_LEN :: nat where "IEEE80211_CCMP_256_MIC_LEN \<equiv> 16"

definition ieee80211_tx_h_encrypt ::
  "crypto_lib \<Rightarrow> ieee80211_tx_data \<Rightarrow> world \<Rightarrow> (ieee80211_tx_result \<times> ieee80211_tx_data \<times> world) result" where
  "ieee80211_tx_h_encrypt L tx w =
     (case tx_key tx of
        None \<Rightarrow> Inr (TX_CONTINUE, tx, w)
      | Some kp \<Rightarrow>
          rbind (deref (keys w) kp) (\<lambda>key.
          let c = conf_cipher key in
          if c = SUITE 1 \<or> c = SUITE 5 then ieee80211_crypto_wep_encrypt (lib_rc4 L) tx w
          else if c = SUITE 2 then ieee80211_crypto_tkip_encrypt (lib_rc4 L) tx w
          else if c = SUITE 4 then ieee80211_crypto_ccmp_encrypt (lib_ccm L) IEEE80211_CCMP_MIC_LEN tx w
          else if c = SUITE 10 then ieee80211_crypto_ccmp_encrypt (lib_ccm L) IEEE80211_CCMP_256_MIC_LEN tx w
          else if c = SUITE 6 then ieee80211_crypto_aes_cmac_encrypt (lib_cmac L) tx w
          else if c = SUITE 13 then ieee80211_crypto_aes_cmac_256_encrypt (lib_cmac L) tx w
          else if c = SUITE 11 \<or> c = SUITE 12 then ieee80211_crypto_aes_gmac_encrypt (lib_gmac L) (gmac_alloc L) tx w
          else if c = SUITE 8 \<or> c = SUITE 9 then ieee80211_crypto_gcmp_encrypt (lib_gcm L) tx w
          else ieee80211_crypto_hw_encrypt (skb_expand L) tx w))"

section \<open>Reception\<close>

abbreviation (input) NUM_DEFAULT_KEYS :: nat where "NUM_DEFAULT_KEYS \<equiv> 4"
abbreviation (input) NUM_DEFAULT_MGMT_KEYS :: nat where "NUM_DEFAULT_MGMT_KEYS \<equiv> 2"
abbreviation (input) WLAN_EID_MMIE :: u8 where "WLAN_EID_MMIE \<equiv> 76"
abbreviation (input) EINVAL :: int where "EINVAL \<equiv> 22"
abbreviation (input) EACCES :: int where "EACCES \<equiv> 13"

definition ieee80211_is_unicast_robust_mgmt_frame :: "sk_buff \<Rightarrow> bool result" where
  "ieee80211_is_unicast_robust_mgmt_frame skb =
     rbind (hdr_addr1 (skb_data skb)) (\<lambda>a1.
     if is_multicast_ether_addr a1 then Inr False
     else ieee80211_is_robust_mgmt_frame (skb_len skb) (skb_data skb))"

definition ieee80211_is_multicast_robust_mgmt_frame :: "sk_buff \<Rightarrow> bool result" where
  "ieee80211_is_multicast_robust_mgmt_frame skb =
     rbind (hdr_addr1 (skb_data skb)) (\<lambda>a1.
     if \<not> is_multicast_ether_addr a1 then Inr False
     else ieee80211_is_robust_mgmt_frame (skb_len skb) (skb_data skb))"

text \<open>The element of \<open>n\<close> bytes at the end of a frame, read as a management MIC element.\<close>

definition mmie_at_end :: "nat \<Rightarrow> sk_buff \<Rightarrow> int option" where
  "mmie_at_end n skb =
     (let e = drop (skb_len skb - n) (skb_data skb) in
      if e ! 0 = WLAN_EID_MMIE \<and> unat (e ! 1) = n - 2 then Some (uint (le16_of (e ! 2) (e ! 3))) else None)"

definition ieee80211_get_mmie_keyidx :: "sk_buff \<Rightarrow> int result" where
  "ieee80211_get_mmie_keyidx skb =
     (if skb_len skb < 24 + 18 then Inr (- 1)
      else if length (skb_data skb) < skb_len skb then Inl OutOfBounds
      else
        rbind (hdr_addr1 (skb_data skb)) (\<lambda>da.
        if \<not> is_multicast_ether_addr da then Inr (- 1)
        else
          rbind (ieee80211_is_robust_mgmt_frame (skb_len skb) (skb_data skb)) (\<lambda>robust.
          if \<not> robust then Inr (- 1)
          else
            (case mmie_at_end 18 skb of
               Some k \<Rightarrow> Inr k
             | None \<Rightarrow>
                 if 24 + 26 \<le> skb_len skb
                 then (case mmie_at_end 26 skb of Some k \<Rightarrow> Inr k | None \<Rightarrow> Inr (- 1))
                 else Inr (- 1)))))"

text \<open>
  The offset of the key index is an eight-bit number; a byte beyond the frame leaves \<open>keyid\<close> unassigned.
\<close>

definition ieee80211_get_keyid :: "sk_buff \<Rightarrow> ieee80211_cipher_scheme option \<Rightarrow> int result" where
  "ieee80211_get_keyid skb cs =
     rbind (hdr_fc (skb_data skb)) (\<lambda>fc.
     let hdrlen = ieee80211_hdrlen fc;
         minlen = (case cs of Some c \<Rightarrow> hdrlen + cs_hdr_len c | None \<Rightarrow> hdrlen + IEEE80211_WEP_IV_LEN);
         key_idx_off = (case cs of Some c \<Rightarrow> (hdrlen + cs_key_idx_off c) mod 256 | None \<Rightarrow> hdrlen + 3);
         key_idx_shift = (case cs of Some c \<Rightarrow> cs_key_idx_shift c | None \<Rightarrow> 6)
     in if skb_len skb < minlen then Inr (- EINVAL)
        else if skb_len skb \<le> key_idx_off then Inl Uninitialised
        else
          rbind (arr_get (skb_data skb) key_idx_off) (\<lambda>b.
          let keyid = (case cs of Some c \<Rightarrow> b AND cs_key_idx_mask c | None \<Rightarrow> b);
              keyid = drop_bit key_idx_shift keyid
          in if NUM_DEFAULT_KEYS \<le> unat keyid then Inr (- EINVAL) else Inr (uint keyid)))"

text \<open>The loops over the default keys: the first one that is set.\<close>

definition first_key :: "key_ptr option list \<Rightarrow> key_ptr option" where
  "first_key ks = (case find (\<lambda>k. k \<noteq> None) (take NUM_DEFAULT_KEYS ks) of None \<Rightarrow> None | Some k \<Rightarrow> k)"

text \<open>
  The first half of \<open>ieee80211_rx_h_decrypt\<close>, up to the check of the key: either the handler returns (\<open>Inl\<close> its result)
  with \<open>rx->key\<close> as it is then, or it goes on to decrypt with the key that was found.
\<close>

definition rx_select_key ::
  "ieee80211_rx_data \<Rightarrow> world \<Rightarrow> ((ieee80211_rx_result + unit) \<times> key_ptr option) result" where
  "rx_select_key rx w =
     (let skb = rx_skb rx; bs = skb_data skb; flag = rx_status_flag rx;
          stripped = (flag AND RX_FLAG_DECRYPTED \<noteq> 0 \<and> flag AND RX_FLAG_IV_STRIPPED \<noteq> 0)
      in
      rbind (hdr_fc bs) (\<lambda>fc.
      rbind (hdr_addr1 bs) (\<lambda>a1.
      rbind (rx_sta_of rx w) (\<lambda>sta.
      rbind (rx_sdata_of rx w) (\<lambda>sdata.
      let cs = (case sta of Some s \<Rightarrow> if ieee80211_has_protected fc then cipher_scheme s else None | None \<Rightarrow> None) in
      rbind (case sta of None \<Rightarrow> Inr None | Some s \<Rightarrow> sta_ptk s) (\<lambda>ptk0.
      rbind (if sta \<noteq> None \<and> ieee80211_has_protected fc then ieee80211_get_keyid skb cs else Inr 0) (\<lambda>keyid.
      if keyid < 0 then Inr (Inl RX_DROP_UNUSABLE, None)
      else
        rbind (case sta of
                 Some s \<Rightarrow> if ieee80211_has_protected fc then arr_get (ptk s) (nat keyid) else Inr None
               | None \<Rightarrow> Inr None) (\<lambda>ptk_idx.
        rbind (if \<not> ieee80211_has_protected fc then ieee80211_get_mmie_keyidx skb else Inr (- 1)) (\<lambda>mmie.
        if \<not> is_multicast_ether_addr a1 \<and> ptk0 \<noteq> None then
          let key = (if ptk_idx \<noteq> None then ptk_idx else ptk0) in
          if stripped \<or> \<not> ieee80211_has_protected fc then Inr (Inl RX_CONTINUE, key) else Inr (Inr (), key)
        else if mmie \<ge> 0 then
          if stripped then Inr (Inl RX_CONTINUE, None)
          else if mmie < int NUM_DEFAULT_KEYS \<or> mmie \<ge> int (NUM_DEFAULT_KEYS + NUM_DEFAULT_MGMT_KEYS)
          then Inr (Inl RX_DROP_MONITOR, None)
          else
            rbind (ieee80211_is_group_privacy_action (skb_len skb) bs) (\<lambda>gp.
            if (case sta of Some s \<Rightarrow> gp \<and> sta_mfp s | None \<Rightarrow> False) then Inr (Inl RX_DROP_MONITOR, None)
            else
              rbind (case sta of Some s \<Rightarrow> arr_get (gtk s) (nat mmie) | None \<Rightarrow> Inr None) (\<lambda>key.
              rbind (if key = None then arr_get (sdata_keys sdata) (nat mmie) else Inr key) (\<lambda>key.
              Inr (Inr (), key))))
        else if \<not> ieee80211_has_protected fc then
          let key = (if ieee80211_is_mgmt fc \<and> is_multicast_ether_addr a1 \<and> default_mgmt_key sdata \<noteq> None
                     then default_mgmt_key sdata
                     else
                       let k = (case sta of Some s \<Rightarrow> first_key (gtk s) | None \<Rightarrow> None)
                       in if k = None then first_key (sdata_keys sdata) else k)
          in Inr (Inl RX_CONTINUE, key)
        else if stripped then Inr (Inl RX_CONTINUE, None)
        else
          rbind (ieee80211_get_keyid skb cs) (\<lambda>keyidx.
          if keyidx < 0 then Inr (Inl RX_DROP_UNUSABLE, None)
          else
            rbind (case sta of
                     Some s \<Rightarrow> if is_multicast_ether_addr a1 then arr_get (gtk s) (nat keyidx) else Inr None
                   | None \<Rightarrow> Inr None) (\<lambda>key.
            if key \<noteq> None then Inr (Inr (), key)
            else
              rbind (arr_get (sdata_keys sdata) (nat keyidx)) (\<lambda>key.
              case key of
                None \<Rightarrow> Inr (Inr (), None)
              | Some kp \<Rightarrow>
                  rbind (deref (keys w) kp) (\<lambda>k.
                  Inr (Inr (), if conf_cipher k \<noteq> SUITE 1 \<and> conf_cipher k \<noteq> SUITE 5 \<and>
                                  \<not> is_multicast_ether_addr a1 then None else Some kp))))))))))))))"

definition rx_dispatch ::
  "crypto_lib \<Rightarrow> u32 \<Rightarrow> ieee80211_rx_data \<Rightarrow> world \<Rightarrow> (ieee80211_rx_result \<times> ieee80211_rx_data \<times> world) result" where
  "rx_dispatch L c rx w =
     (if c = SUITE 1 \<or> c = SUITE 5 then ieee80211_crypto_wep_decrypt (lib_rc4 L) rx w
      else if c = SUITE 2 then ieee80211_crypto_tkip_decrypt (lib_rc4 L) (drv_tkip_key L) rx w
      else if c = SUITE 4 then ieee80211_crypto_ccmp_decrypt (lib_ccm L) IEEE80211_CCMP_MIC_LEN rx w
      else if c = SUITE 10 then ieee80211_crypto_ccmp_decrypt (lib_ccm L) IEEE80211_CCMP_256_MIC_LEN rx w
      else if c = SUITE 6 then ieee80211_crypto_aes_cmac_decrypt (lib_cmac L) rx w
      else if c = SUITE 13 then ieee80211_crypto_aes_cmac_256_decrypt (lib_cmac L) rx w
      else if c = SUITE 11 \<or> c = SUITE 12
      then ieee80211_crypto_aes_gmac_decrypt (lib_gmac L) (gmac_alloc L) (gmac_mic_alloc L) rx w
      else if c = SUITE 8 \<or> c = SUITE 9 then ieee80211_crypto_gcmp_decrypt (lib_gcm L) rx w
      else ieee80211_crypto_hw_decrypt rx w)"

definition ieee80211_rx_h_decrypt ::
  "crypto_lib \<Rightarrow> ieee80211_rx_data \<Rightarrow> world \<Rightarrow> (ieee80211_rx_result \<times> ieee80211_rx_data \<times> world) result" where
  "ieee80211_rx_h_decrypt L rx w =
     rbind (rx_select_key rx w) (\<lambda>(early, key).
     let rx = rx\<lparr>rx_key := key\<rparr> in
     case early of
       Inl res \<Rightarrow> Inr (res, rx, w)
     | Inr _ \<Rightarrow>
         (case key of
            None \<Rightarrow> Inr (RX_DROP_MONITOR, rx, w)
          | Some kp \<Rightarrow>
              rbind (deref (keys w) kp) (\<lambda>k.
              if key_flags k AND KEY_FLAG_TAINTED \<noteq> 0 then Inr (RX_DROP_MONITOR, rx, w)
              else
                rbind (rx_dispatch L (conf_cipher k) rx w) (\<lambda>(res, rx, w).
                Inr (res, rx\<lparr>rx_status_flag := rx_status_flag rx OR RX_FLAG_DECRYPTED\<rparr>, w)))))"

section \<open>Frames in the clear\<close>

definition ieee80211_802_1x_port_control :: "ieee80211_rx_data \<Rightarrow> world \<Rightarrow> int result" where
  "ieee80211_802_1x_port_control rx w =
     rbind (rx_sta_of rx w) (\<lambda>sta.
     Inr (case sta of None \<Rightarrow> - EACCES
          | Some s \<Rightarrow> if sta_state s < IEEE80211_STA_AUTHORIZED then - EACCES else 0))"

text \<open>
  \<open>ieee80211_get_mesh_hdrlen\<close> of \<^verbatim>\<open>net/wireless/util.c\<close> gives the length of a mesh header by its address
  extension flags; \<open>mesh_eapol\<close> is the exception of \<open>ieee80211_drop_unencrypted\<close> for mesh key negotiation.
\<close>

definition ieee80211_get_mesh_hdrlen :: "u8 \<Rightarrow> nat" where
  "ieee80211_get_mesh_hdrlen flags =
     (let ae = flags AND 0x3 in
      if ae = 0x1 then 12 else if ae = 0x2 then 18 else 6)"

definition mesh_eapol :: "u16 \<Rightarrow> ieee80211_rx_data \<Rightarrow> world \<Rightarrow> bool result" where
  "mesh_eapol fc rx w =
     (let skb = rx_skb rx; bs = skb_data skb in
      rbind (rx_sdata_of rx w) (\<lambda>sdata.
      if rx_sta rx = None \<or> vif_type sdata \<noteq> NL80211_IFTYPE_MESH_POINT \<or> \<not> ieee80211_is_data fc then Inr False
      else
        rbind (hdr_addr1 bs) (\<lambda>a1.
        let hdr_len = ieee80211_hdrlen fc in
        if a1 \<noteq> vif_addr sdata \<or> skb_len skb < hdr_len + 6 then Inr False
        else
          rbind (arr_get bs hdr_len) (\<lambda>flags.
          let off = hdr_len + ieee80211_get_mesh_hdrlen flags + 6 in
          if skb_len skb < off + 2 then Inr False
          else
            rbind (arr_get bs off) (\<lambda>hi. rbind (arr_get bs (off + 1)) (\<lambda>lo.
            Inr (le16_of lo hi = control_port_protocol sdata)))))))"

definition ieee80211_drop_unencrypted :: "u16 \<Rightarrow> ieee80211_rx_data \<Rightarrow> world \<Rightarrow> int result" where
  "ieee80211_drop_unencrypted fc rx w =
     (if rx_status_flag rx AND RX_FLAG_DECRYPTED \<noteq> 0 then Inr 0
      else
        rbind (mesh_eapol fc rx w) (\<lambda>eapol.
        if eapol then Inr 0
        else if \<not> ieee80211_has_protected fc \<and> \<not> ieee80211_is_any_nullfunc fc \<and> ieee80211_is_data fc \<and> rx_key rx \<noteq> None
        then Inr (- EACCES)
        else Inr 0))"

text \<open>The notification of user space about an unprotected deauthentication leaves no state here.\<close>

definition ieee80211_drop_unencrypted_mgmt :: "ieee80211_rx_data \<Rightarrow> world \<Rightarrow> int result" where
  "ieee80211_drop_unencrypted_mgmt rx w =
     (let skb = rx_skb rx; bs = skb_data skb in
      rbind (hdr_fc bs) (\<lambda>fc.
      if rx_status_flag rx AND RX_FLAG_DECRYPTED \<noteq> 0 then Inr 0
      else
        rbind (rx_sta_of rx w) (\<lambda>sta.
        if (case sta of None \<Rightarrow> True | Some s \<Rightarrow> \<not> sta_mfp s) then Inr 0
        else
          rbind (ieee80211_is_unicast_robust_mgmt_frame skb) (\<lambda>uni.
          if \<not> ieee80211_has_protected fc \<and> uni \<and> rx_key rx \<noteq> None then Inr (- EACCES)
          else
            rbind (ieee80211_is_multicast_robust_mgmt_frame skb) (\<lambda>multi.
            rbind (if multi then ieee80211_get_mmie_keyidx skb else Inr 0) (\<lambda>mmie.
            if multi \<and> mmie < 0 then Inr (- EACCES)
            else
              rbind (ieee80211_is_robust_mgmt_frame (skb_len skb) bs) (\<lambda>robust.
              if ieee80211_is_action fc \<and> rx_key rx = None \<and> robust then Inr (- EACCES)
              else Inr 0)))))))"

section \<open>Facts\<close>

text \<open>The key of a unicast frame from a station with a pairwise key is one of the station's pairwise keys.\<close>

lemma rx_select_key_pairwise:
  assumes "rx_select_key rx w = Inr (early, key)" and "hdr_fc (skb_data (rx_skb rx)) = Inr fc"
    and "hdr_addr1 (skb_data (rx_skb rx)) = Inr a1" and "\<not> is_multicast_ether_addr a1"
    and "rx_sta rx = Some p" and "stas w p = Some s" and "sta_ptk s = Inr (Some kp0)"
    and "rx_status_flag rx AND RX_FLAG_DECRYPTED = 0"
  shows "(early = Inl RX_DROP_UNUSABLE \<or> early = (if ieee80211_has_protected fc then Inr () else Inl RX_CONTINUE)) \<and>
    (early \<noteq> Inl RX_DROP_UNUSABLE \<longrightarrow> (\<exists>kp. key = Some kp \<and> Some kp \<in> set (ptk s)))"
proof -
  have "Some kp0 \<in> set (ptk s)" using assms(7) by (auto simp: sta_ptk_def arr_get_Inr_iff)
  moreover have "Some kp \<in> set (ptk s)" if "arr_get (ptk s) i = Inr (Some kp)" for i kp
    using that by (auto simp: arr_get_Inr_iff)
  ultimately show ?thesis
    using assms(1) unfolding rx_select_key_def Let_def
    by (auto simp: assms(2-8) rx_sta_of_def elim!: rbind_InrE split: if_split_asm)
qed

section \<open>Properties\<close>


definition sample_crypto :: crypto_lib where
  "sample_crypto = \<lparr>lib_rc4 = sample_rc4, lib_ccm = sample_aead, lib_gcm = sample_aead,
     lib_cmac = (\<lambda>k d. replicate 8 0), lib_gmac = (\<lambda>k n d. replicate 16 0), gmac_alloc = True, gmac_mic_alloc = True,
     drv_tkip_key = False, skb_expand = True\<rparr>"

definition sample_clear_rx :: ieee80211_rx_data where
  "sample_clear_rx = sample_rx (sample_skb\<lparr>skb_data := hdr_bytes (sample_hdr\<lparr>frame_control := 0x0108\<rparr>) @ [1, 2, 3, 4], skb_len := 34\<rparr>)"


end
