(* ===== verification/Reorder.thy ===== *)
theory Reorder
  imports Mac80211_State "HOL-Library.Signed_Division"
begin

text \<open>
  The receive reorder buffer of a block-ack session (\<^verbatim>\<open>net/mac80211/rx.c\<close>, \<^verbatim>\<open>struct tid_ampdu_rx\<close> of
  \<^verbatim>\<open>sta_info.h\<close>). A ring of \<open>buf_size\<close> queues, one per sequence number of the window that starts at
  \<open>head_seq_num\<close>, holds the frames that arrived ahead of a missing one.

  The ring is a list of frame lists and the driver-reported status of a frame travels with it. Ring
  indices are taken modulo \<open>buf_size\<close>; a division by zero, an index outside an array, a shift of a
  64-bit mask by 64 or more and a loop that never ends are faults. The queue of frames to be
  processed further is an accumulator, as in the code. Time (\<^verbatim>\<open>jiffies\<close>) is an argument, and so is \<^verbatim>\<open>HZ\<close>.
\<close>

section \<open>State\<close>

abbreviation (input) RX_FLAG_AMSDU_MORE :: u32 where "RX_FLAG_AMSDU_MORE \<equiv> 0x00080000"
abbreviation (input) IEEE80211_RX_DEFERRED_RELEASE :: u8 where "IEEE80211_RX_DEFERRED_RELEASE \<equiv> 0x20"
abbreviation (input) IEEE80211_SCTL_FRAG :: u16 where "IEEE80211_SCTL_FRAG \<equiv> 0x000F"
abbreviation (input) IEEE80211_SCTL_SEQ :: u16 where "IEEE80211_SCTL_SEQ \<equiv> 0xFFF0"
abbreviation (input) IEEE80211_SN_MODULO :: nat where "IEEE80211_SN_MODULO \<equiv> 4096"

text \<open>A received frame with the parts of \<^verbatim>\<open>struct ieee80211_rx_status\<close> that reordering uses.\<close>

record rx_frame =
  frm_skb :: sk_buff
  frm_flag :: u32
  frm_rx_flags :: u8

record tid_ampdu_rx =
  reorder_buf_filtered :: u64
  reorder_buf :: "rx_frame list list"
  reorder_time :: "u64 list"
  session_timer :: "u64 option"
  reorder_timer :: "u64 option"
  ra_last_rx :: u64
  head_seq_num :: u16
  stored_mpdu_num :: u16
  ra_ssn :: u16
  buf_size :: u16
  ra_timeout :: u16
  ra_tid :: u8
  auto_seq :: bool
  ra_removed :: bool
  ra_started :: bool

text \<open>\<^verbatim>\<open>BIT_ULL(i)\<close>, undefined beyond the width of the type.\<close>

definition BIT_ULL :: "nat \<Rightarrow> u64 result" where
  "BIT_ULL i = (if i < 64 then Inr (push_bit i 1) else Inl ShiftRange)"

text \<open>\<^verbatim>\<open>time_after(a, b)\<close>: a signed comparison of the wrapped difference.\<close>

definition time_after :: "u64 \<Rightarrow> u64 \<Rightarrow> bool" where
  "time_after a b \<longleftrightarrow> sint (b - a) < 0"

definition HT_RX_REORDER_BUF_TIMEOUT :: "nat \<Rightarrow> u64" where
  "HT_RX_REORDER_BUF_TIMEOUT hz = of_nat (hz div 10)"

text \<open>\<^verbatim>\<open>sn % tid_agg_rx->buf_size\<close>.\<close>

definition ring_index :: "tid_ampdu_rx \<Rightarrow> u16 \<Rightarrow> nat result" where
  "ring_index t sn = (if buf_size t = 0 then Inl DivideByZero else Inr (unat sn mod unat (buf_size t)))"

text \<open>The indices \<^verbatim>\<open>(index + 1) % n, (index + 2) % n, ...\<close> of a loop once around the ring, up to \<^verbatim>\<open>index\<close> itself.\<close>

definition ring_after :: "nat \<Rightarrow> nat \<Rightarrow> nat list" where
  "ring_after n index = map (\<lambda>k. (index + k) mod n) [1..<n]"

section \<open>Releasing frames\<close>

definition ieee80211_rx_reorder_ready :: "tid_ampdu_rx \<Rightarrow> nat \<Rightarrow> bool result" where
  "ieee80211_rx_reorder_ready t index =
     rbind (arr_get (reorder_buf t) index) (\<lambda>frames.
     rbind (BIT_ULL index) (\<lambda>b.
     if reorder_buf_filtered t AND b \<noteq> 0 then Inr True
     else if frames = [] then Inr False
     else if frm_flag (last frames) AND RX_FLAG_AMSDU_MORE \<noteq> 0 then Inr False
     else Inr True))"

definition deferred :: "rx_frame \<Rightarrow> rx_frame" where
  "deferred f = f\<lparr>frm_rx_flags := frm_rx_flags f OR IEEE80211_RX_DEFERRED_RELEASE\<rparr>"

definition ieee80211_release_reorder_frame ::
  "tid_ampdu_rx \<Rightarrow> nat \<Rightarrow> rx_frame list \<Rightarrow> (tid_ampdu_rx \<times> rx_frame list) result" where
  "ieee80211_release_reorder_frame t index frames =
     rbind (arr_get (reorder_buf t) index) (\<lambda>skb_list.
     rbind (if skb_list = [] then Inr (t, frames)
            else
              rbind (ieee80211_rx_reorder_ready t index) (\<lambda>ready.
              if \<not> ready then Inr (t\<lparr>reorder_buf := (reorder_buf t)[index := []]\<rparr>, frames)
              else Inr (t\<lparr>stored_mpdu_num := stored_mpdu_num t - 1, reorder_buf := (reorder_buf t)[index := []]\<rparr>,
                        frames @ map deferred skb_list)))
       (\<lambda>(t, frames).
     rbind (BIT_ULL index) (\<lambda>b.
     Inr (t\<lparr>reorder_buf_filtered := reorder_buf_filtered t AND NOT b,
            head_seq_num := ieee80211_sn_inc (head_seq_num t)\<rparr>, frames))))"

lemma release_reorder_frame_head:
  "ieee80211_release_reorder_frame t index frames = Inr (t', frames') \<Longrightarrow>
     head_seq_num t' = ieee80211_sn_inc (head_seq_num t) \<and> buf_size t' = buf_size t"
  unfolding ieee80211_release_reorder_frame_def
  by (auto elim!: rbind_InrE split: if_split_asm)

lemma int_mod_pred:
  fixes x n :: int
  assumes "x mod 4096 \<noteq> 0"
  shows "(x - 1) mod 4096 < x mod 4096"
proof -
  have "(x - 1) mod 4096 = (x mod 4096 - 1) mod 4096" by (simp add: mod_simps)
  also have "\<dots> = x mod 4096 - 1"
  proof (rule mod_pos_pos_trivial)
    have "0 \<le> x mod 4096" "x mod 4096 < 4096" by simp_all
    with assms show "0 \<le> x mod 4096 - 1" "x mod 4096 - 1 < 4096" by linarith+
  qed
  finally show ?thesis by simp
qed

lemma sn_less_inc_decreases:
  assumes "ieee80211_sn_less a b"
  shows "unat (ieee80211_sn_sub b (ieee80211_sn_inc a)) < unat (ieee80211_sn_sub b a)"
proof -
  have s: "uint (ieee80211_sn_sub b (ieee80211_sn_inc a)) = (uint b - uint a - 1) mod 4096"
    by (simp add: uint_sn_sub uint_sn_add ieee80211_sn_inc_def mod_simps algebra_simps)
  have "uint (ieee80211_sn_sub a b) > 2048"
    using assms by (simp add: ieee80211_sn_less_def ieee80211_sn_sub_def word_less_def)
  then have "(uint a - uint b) mod 4096 \<noteq> 0" by (simp add: uint_sn_sub)
  then have "(uint b - uint a) mod 4096 \<noteq> 0" by (simp add: mod_eq_0_iff_dvd dvd_diff_commute)
  then have "(uint b - uint a - 1) mod 4096 < (uint b - uint a) mod 4096" by (rule int_mod_pred)
  then have "uint (ieee80211_sn_sub b (ieee80211_sn_inc a)) < uint (ieee80211_sn_sub b a)"
    unfolding s unfolding uint_sn_sub .
  then show ?thesis by (simp add: unat_mono word_less_def)
qed

function ieee80211_release_reorder_frames ::
  "tid_ampdu_rx \<Rightarrow> u16 \<Rightarrow> rx_frame list \<Rightarrow> (tid_ampdu_rx \<times> rx_frame list) result" where
  "ieee80211_release_reorder_frames t head frames =
     (if ieee80211_sn_less (head_seq_num t) head
      then
        rbind (ring_index t (head_seq_num t)) (\<lambda>index.
        rbind (ieee80211_release_reorder_frame t index frames) (\<lambda>r.
        ieee80211_release_reorder_frames (fst r) head (snd r)))
      else Inr (t, frames))"
  by pat_completeness auto
termination
  by (relation "measure (\<lambda>(t, head, frames). unat (ieee80211_sn_sub head (head_seq_num t)))")
    (auto dest: release_reorder_frame_head simp: sn_less_inc_decreases)

declare ieee80211_release_reorder_frames.simps [simp del]

section \<open>Releasing what is ready or overdue\<close>

text \<open>\<^verbatim>\<open>__skb_queue_purge\<close> of a list of slots.\<close>

fun purge_slots :: "nat list \<Rightarrow> tid_ampdu_rx \<Rightarrow> tid_ampdu_rx result" where
  "purge_slots [] t = Inr t"
| "purge_slots (i # is) t =
     rbind (arr_get (reorder_buf t) i) (\<lambda>_. purge_slots is (t\<lparr>reorder_buf := (reorder_buf t)[i := []]\<rparr>))"

text \<open>
  The scan for overdue frames: the slots of \<open>js\<close> are still to be visited, \<open>skipped\<close> counts the
  slots that were not ready since the last release. The last component of the result is the slot
  whose frame is ready but not yet overdue, at which the scan was left for the timer.
\<close>

fun reorder_timeout_scan ::
  "u64 \<Rightarrow> u64 \<Rightarrow> nat \<Rightarrow> nat list \<Rightarrow> nat \<Rightarrow> tid_ampdu_rx \<Rightarrow> rx_frame list \<Rightarrow>
     (tid_ampdu_rx \<times> rx_frame list \<times> nat option) result" where
  "reorder_timeout_scan tmo now index [] skipped t frames = Inr (t, frames, None)"
| "reorder_timeout_scan tmo now index (j # js) skipped t frames =
     rbind (ieee80211_rx_reorder_ready t j) (\<lambda>ready.
     if \<not> ready then reorder_timeout_scan tmo now index js (skipped + 1) t frames
     else
       rbind (if skipped \<noteq> 0
              then rbind (arr_get (reorder_time t) j) (\<lambda>tm. Inr (\<not> time_after now (tm + tmo)))
              else Inr False) (\<lambda>early.
       if early then Inr (t, frames, Some j)
       else
         rbind (purge_slots (takeWhile (\<lambda>i. i \<noteq> j) (ring_after (unat (buf_size t)) index)) t) (\<lambda>t.
         rbind (ieee80211_release_reorder_frame t j frames) (\<lambda>(t, frames).
         reorder_timeout_scan tmo now index js 0
           (t\<lparr>head_seq_num := (head_seq_num t + of_nat skipped) AND IEEE80211_SN_MASK\<rparr>) frames))))"

text \<open>The loop that releases the buffer until the next missing frame.\<close>

definition ready_slots :: "tid_ampdu_rx \<Rightarrow> nat set" where
  "ready_slots t = {i. i < length (reorder_buf t) \<and> ieee80211_rx_reorder_ready t i = Inr True}"

lemma release_reorder_frame_ready:
  assumes r: "ieee80211_release_reorder_frame t index frames = Inr (t', frames')"
    and i: "ieee80211_rx_reorder_ready t index = Inr True"
  shows "ready_slots t' \<subset> ready_slots t"
proof -
  have l: "index < length (reorder_buf t)" "index < 64"
    using i by (auto simp: ieee80211_rx_reorder_ready_def BIT_ULL_def arr_get_def rbind_def split: if_split_asm)
  have b: "BIT_ULL index = Inr (push_bit index 1)" using l by (simp add: BIT_ULL_def)
  have t': "reorder_buf t' = (reorder_buf t)[index := []]"
    "reorder_buf_filtered t' = reorder_buf_filtered t AND NOT (push_bit index 1)"
    using r i l b list_update_same_conv [OF l(1), of "[]"]
    by (auto simp: ieee80211_release_reorder_frame_def split: if_split_asm)
  have "ieee80211_rx_reorder_ready t' index \<noteq> Inr True"
    using l b t' by (simp add: ieee80211_rx_reorder_ready_def and.assoc)
  moreover have "ieee80211_rx_reorder_ready t k = Inr True"
    if "ieee80211_rx_reorder_ready t' k = Inr True" "k < length (reorder_buf t')" "k \<noteq> index" for k
  proof -
    have k: "k < 64" "k < length (reorder_buf t)"
      using that t' by (auto simp: ieee80211_rx_reorder_ready_def BIT_ULL_def arr_get_def rbind_def split: if_split_asm)
    have "(reorder_buf_filtered t AND NOT (push_bit index 1)) AND push_bit k 1 = reorder_buf_filtered t AND push_bit k 1"
      using k(1) l(2) that(3)
      by (intro bit_word_eqI) (auto simp: bit_simps)
    then show ?thesis using that(1,3) k t' b
      by (simp add: ieee80211_rx_reorder_ready_def BIT_ULL_def)
  qed
  ultimately show ?thesis using i l(1) t' by (auto simp: ready_slots_def)
qed

function release_while_ready :: "tid_ampdu_rx \<Rightarrow> rx_frame list \<Rightarrow> (tid_ampdu_rx \<times> rx_frame list) result" where
  "release_while_ready t frames =
     rbind (ring_index t (head_seq_num t)) (\<lambda>index.
     rbind (ieee80211_rx_reorder_ready t index) (\<lambda>ready.
     if \<not> ready then Inr (t, frames)
     else
       rbind (ieee80211_release_reorder_frame t index frames) (\<lambda>r.
       release_while_ready (fst r) (snd r))))"
  by pat_completeness auto
termination
proof (relation "measure (\<lambda>(t, frames). card (ready_slots t))", simp)
  fix t frames index ready r
  assume "ieee80211_rx_reorder_ready t index = Inr ready" "\<not> \<not> ready"
    "ieee80211_release_reorder_frame t index frames = Inr r"
  moreover have "finite (ready_slots t)" by (simp add: ready_slots_def)
  ultimately show "((fst r, snd r), t, frames) \<in> measure (\<lambda>(t, frames). card (ready_slots t))"
    using psubset_card_mono [OF _ release_reorder_frame_ready [of t index frames "fst r" "snd r"]]
    by (simp add: case_prod_beta)
qed

declare release_while_ready.simps [simp del]

text \<open>
  The search for the slot the timer is set for. The bound \<^verbatim>\<open>(index - 1) % buf_size\<close> is computed with
  the truncating remainder of C, so for index 0 it is \<open>-1\<close> and the loop only ends at a ready slot.
\<close>

partial_function (option) timer_scan :: "int \<Rightarrow> nat \<Rightarrow> tid_ampdu_rx \<Rightarrow> nat \<Rightarrow> nat result option" where
  "timer_scan stop n t j =
     (if int j = stop then Some (Inr j)
      else
        (case ieee80211_rx_reorder_ready t j of
           Inl e \<Rightarrow> Some (Inl e)
         | Inr ready \<Rightarrow> if ready then Some (Inr j) else timer_scan stop n t ((j + 1) mod n)))"

declare timer_scan.simps [code]

definition set_release_timer :: "u64 \<Rightarrow> nat \<Rightarrow> tid_ampdu_rx \<Rightarrow> tid_ampdu_rx result" where
  "set_release_timer tmo j t =
     (if ra_removed t then Inr t
      else rbind (arr_get (reorder_time t) j) (\<lambda>tm. Inr (t\<lparr>reorder_timer := Some (tm + 1 + tmo)\<rparr>)))"

definition update_release_timer :: "u64 \<Rightarrow> tid_ampdu_rx \<Rightarrow> tid_ampdu_rx result" where
  "update_release_timer tmo t =
     (if stored_mpdu_num t \<noteq> 0
      then
        rbind (ring_index t (head_seq_num t)) (\<lambda>index.
        let n = unat (buf_size t) in
        (case timer_scan ((int index - 1) smod int n) n t index of
           None \<Rightarrow> Inl Hangs
         | Some r \<Rightarrow> rbind r (\<lambda>j. set_release_timer tmo j t)))
      else Inr (t\<lparr>reorder_timer := None\<rparr>))"

definition ieee80211_sta_reorder_release ::
  "nat \<Rightarrow> u64 \<Rightarrow> tid_ampdu_rx \<Rightarrow> rx_frame list \<Rightarrow> (tid_ampdu_rx \<times> rx_frame list) result" where
  "ieee80211_sta_reorder_release hz jiffies t frames =
     (let tmo = HT_RX_REORDER_BUF_TIMEOUT hz in
      rbind (ring_index t (head_seq_num t)) (\<lambda>index.
      rbind (ieee80211_rx_reorder_ready t index) (\<lambda>ready.
      if \<not> ready \<and> stored_mpdu_num t \<noteq> 0
      then
        rbind (reorder_timeout_scan tmo jiffies index (ring_after (unat (buf_size t)) index) 1 t frames)
          (\<lambda>(t, frames, wait).
        rbind (case wait of Some j \<Rightarrow> set_release_timer tmo j t | None \<Rightarrow> update_release_timer tmo t) (\<lambda>t.
        Inr (t, frames)))
      else
        rbind (release_while_ready t frames) (\<lambda>(t, frames).
        rbind (update_release_timer tmo t) (\<lambda>t. Inr (t, frames))))))"

section \<open>A received frame\<close>

text \<open>\<^verbatim>\<open>(le16_to_cpu(hdr->seq_ctrl) & IEEE80211_SCTL_SEQ) >> 4\<close>.\<close>

definition mpdu_seq_num :: "rx_frame \<Rightarrow> u16 result" where
  "mpdu_seq_num f =
     rbind (hdr_seq_ctrl (skb_data (frm_skb f))) (\<lambda>sc. Inr (drop_bit 4 (sc AND IEEE80211_SCTL_SEQ)))"

text \<open>
  The result is whether the frame was consumed. The tests from the window check on are those of the
  code in its order; \<open>started\<close> and \<open>auto_seq\<close> are handled first.
\<close>

definition reorder_place ::
  "nat \<Rightarrow> u64 \<Rightarrow> u16 \<Rightarrow> rx_frame \<Rightarrow> tid_ampdu_rx \<Rightarrow> rx_frame list \<Rightarrow> (bool \<times> tid_ampdu_rx \<times> rx_frame list) result" where
  "reorder_place hz jiffies sn f t frames =
     rbind (ring_index t sn) (\<lambda>index.
     rbind (ieee80211_rx_reorder_ready t index) (\<lambda>ready.
     if ready then Inr (True, t, frames)
     else
       let more = (frm_flag f AND RX_FLAG_AMSDU_MORE \<noteq> 0) in
       if sn = head_seq_num t \<and> stored_mpdu_num t = 0
       then Inr (False, (if more then t else t\<lparr>head_seq_num := ieee80211_sn_inc (head_seq_num t)\<rparr>), frames)
       else
         rbind (arr_get (reorder_buf t) index) (\<lambda>q.
         let t = t\<lparr>reorder_buf := (reorder_buf t)[index := q @ [f]]\<rparr> in
         if more then Inr (True, t, frames)
         else
           rbind (arr_get (reorder_time t) index) (\<lambda>_.
           rbind (ieee80211_sta_reorder_release hz jiffies
                    (t\<lparr>reorder_time := (reorder_time t)[index := jiffies], stored_mpdu_num := stored_mpdu_num t + 1\<rparr>)
                    frames)
             (\<lambda>(t, frames). Inr (True, t, frames))))))"

definition ieee80211_sta_manage_reorder_buf ::
  "nat \<Rightarrow> u64 \<Rightarrow> tid_ampdu_rx \<Rightarrow> rx_frame \<Rightarrow> rx_frame list \<Rightarrow> (bool \<times> tid_ampdu_rx \<times> rx_frame list) result" where
  "ieee80211_sta_manage_reorder_buf hz jiffies t f frames =
     rbind (mpdu_seq_num f) (\<lambda>sn.
     let t = (if auto_seq t then t\<lparr>auto_seq := False, ra_ssn := sn, head_seq_num := sn\<rparr> else t);
         head = head_seq_num t
     in
     if \<not> ra_started t \<and> ieee80211_sn_less sn head then Inr (False, t, frames)
     else
       let t = t\<lparr>ra_started := True\<rparr> in
       if ieee80211_sn_less sn head then Inr (True, t, frames)
       else
         rbind (if \<not> ieee80211_sn_less sn (head + buf_size t)
                then ieee80211_release_reorder_frames t (ieee80211_sn_inc (ieee80211_sn_sub sn (buf_size t))) frames
                else Inr (t, frames))
           (\<lambda>(t, frames). reorder_place hz jiffies sn f t frames))"

section \<open>The window as a map from sequence numbers to frames\<close>

text \<open>
  The reference view: an unbounded position \<open>V\<close> of the head and a partial map \<open>m\<close> from unbounded sequence
  numbers to the frames that are held, all of them in \<open>[V, V + n)\<close>. \<open>ring_view V m t\<close>: the ring
  of \<open>t\<close> holds exactly the frames of \<open>m\<close>, each in the slot of its number.
\<close>

definition slot :: "rx_frame option \<Rightarrow> rx_frame list" where
  "slot x = (case x of None \<Rightarrow> [] | Some f \<Rightarrow> [f])"

lemma slot_simps [simp]: "slot None = []" "slot (Some f) = [f]" "slot x = [] \<longleftrightarrow> x = None"
  by (simp_all add: slot_def split: option.split)

definition reorder_wf :: "tid_ampdu_rx \<Rightarrow> bool" where
  "reorder_wf t \<longleftrightarrow> 2 \<le> unat (buf_size t) \<and> unat (buf_size t) \<le> 64 \<and> unat (buf_size t) dvd 4096 \<and>
     length (reorder_buf t) = unat (buf_size t) \<and> length (reorder_time t) = unat (buf_size t) \<and>
     reorder_buf_filtered t = 0"

definition frame_at :: "nat \<Rightarrow> rx_frame \<Rightarrow> bool" where
  "frame_at v f \<longleftrightarrow> mpdu_seq_num f = Inr (of_nat (v mod 4096)) \<and> frm_flag f AND RX_FLAG_AMSDU_MORE = 0"

definition ring_view :: "nat \<Rightarrow> (nat \<Rightarrow> rx_frame option) \<Rightarrow> tid_ampdu_rx \<Rightarrow> bool" where
  "ring_view V m t \<longleftrightarrow> reorder_wf t \<and> dom m \<subseteq> {V..<V + unat (buf_size t)} \<and>
     (\<forall>v\<in>{V..<V + unat (buf_size t)}. reorder_buf t ! (v mod unat (buf_size t)) = slot (m v)) \<and>
     unat (stored_mpdu_num t) = card (dom m) \<and> (\<forall>v f. m v = Some f \<longrightarrow> frame_at v f)"

definition window_view :: "nat \<Rightarrow> (nat \<Rightarrow> rx_frame option) \<Rightarrow> tid_ampdu_rx \<Rightarrow> bool" where
  "window_view V m t \<longleftrightarrow> ring_view V m t \<and> unat (head_seq_num t) = V mod 4096"

text \<open>The frames held at the numbers from \<open>V\<close> up to \<open>V'\<close>, in this order.\<close>

definition held :: "(nat \<Rightarrow> rx_frame option) \<Rightarrow> nat \<Rightarrow> nat \<Rightarrow> rx_frame list" where
  "held m V V' = List.map_filter m [V..<V']"

lemma held_simps:
  "held m V V = []"
  "V \<le> V' \<Longrightarrow> held m V (Suc V') = held m V V' @ slot (m V')"
  by (simp_all add: held_def map_filter_def slot_def split: option.split)

lemma held_append: "V \<le> V1 \<Longrightarrow> V1 \<le> V2 \<Longrightarrow> held m V V2 = held m V V1 @ held m V1 V2"
  using upt_add_eq_append [of V V1 "V2 - V1"] by (simp add: held_def map_filter_def)

lemma held_first: "V < V' \<Longrightarrow> held m V V' = slot (m V) @ held m (Suc V) V'"
  using held_append [of V "Suc V" V' m] by (simp add: held_simps)

lemma held_cong: "(\<And>v. V \<le> v \<Longrightarrow> v < V' \<Longrightarrow> m v = m' v) \<Longrightarrow> held m V V' = held m' V V'"
  unfolding held_def map_filter_def by (intro arg_cong [where f = "map _"] filter_cong map_cong) auto

lemma held_none: "(\<And>v. V \<le> v \<Longrightarrow> v < V' \<Longrightarrow> m v = None) \<Longrightarrow> held m V V' = []"
  by (simp add: held_def map_filter_def filter_empty_conv)

definition ahead :: "nat \<Rightarrow> (nat \<Rightarrow> 'a option) \<Rightarrow> nat \<Rightarrow> 'a option" where
  "ahead V m v = (if V \<le> v then m v else None)"

lemma ahead_simps:
  "V \<le> V' \<Longrightarrow> ahead V' (ahead V m) = ahead V' m" "V \<le> v \<Longrightarrow> ahead V m v = m v" "v < V \<Longrightarrow> ahead V m v = None"
  by (auto simp: ahead_def fun_eq_iff)

lemma dom_ahead: "dom (ahead V m) = dom m \<inter> {V..}"
  by (auto simp: ahead_def split: if_split_asm)

lemma ring_view_ahead: "ring_view V m t \<Longrightarrow> ahead V m = m"
  unfolding ring_view_def ahead_def by (rule ext) (metis atLeastLessThan_iff domIff subsetD)

section \<open>Facts about single operations\<close>

lemma ring_viewD:
  assumes "ring_view V m t"
  shows "2 \<le> unat (buf_size t)" "unat (buf_size t) \<le> 64" "unat (buf_size t) dvd 4096" "buf_size t \<noteq> 0"
    "length (reorder_buf t) = unat (buf_size t)" "length (reorder_time t) = unat (buf_size t)" "finite (dom m)"
    "card (dom m) = unat (stored_mpdu_num t)" "stored_mpdu_num t = 0 \<longleftrightarrow> dom m = {}"
proof -
  have fin: "finite (dom m)" using assms finite_subset by (auto simp: ring_view_def)
  with assms show "2 \<le> unat (buf_size t)" "unat (buf_size t) \<le> 64" "unat (buf_size t) dvd 4096" "buf_size t \<noteq> 0"
    "length (reorder_buf t) = unat (buf_size t)" "length (reorder_time t) = unat (buf_size t)" "finite (dom m)"
    "card (dom m) = unat (stored_mpdu_num t)"
    by (auto simp: ring_view_def reorder_wf_def)
  then show "stored_mpdu_num t = 0 \<longleftrightarrow> dom m = {}" using fin by (metis card_0_eq unat_eq_zero)
qed

lemma ring_ready:
  assumes "ring_view V m t" and "V \<le> v" and "v < V + unat (buf_size t)"
  shows "ieee80211_rx_reorder_ready t (v mod unat (buf_size t)) = Inr (m v \<noteq> None)"
    "arr_get (reorder_buf t) (v mod unat (buf_size t)) = Inr (slot (m v))"
    "BIT_ULL (v mod unat (buf_size t)) = Inr (push_bit (v mod unat (buf_size t)) 1)"
proof -
  let ?i = "v mod unat (buf_size t)"
  have n: "?i < unat (buf_size t)" using ring_viewD(1) [OF assms(1)] by (intro mod_less_divisor) simp
  show b: "BIT_ULL ?i = Inr (push_bit ?i 1)" using n ring_viewD(2) [OF assms(1)] by (simp add: BIT_ULL_def)
  show g: "arr_get (reorder_buf t) ?i = Inr (slot (m v))"
    using n ring_viewD(5) [OF assms(1)] assms by (simp add: ring_view_def)
  show "ieee80211_rx_reorder_ready t ?i = Inr (m v \<noteq> None)"
    using b g assms(1)
    by (cases "m v") (auto simp: ieee80211_rx_reorder_ready_def ring_view_def reorder_wf_def frame_at_def)
qed

lemma ring_advance:
  assumes "ring_view V m t" and "V \<le> V'" and "V' \<le> V + unat (buf_size t)"
    and "\<And>v. V \<le> v \<Longrightarrow> v < V' \<Longrightarrow> m v = None"
  shows "ring_view V' m t"
proof -
  let ?n = "unat (buf_size t)"
  have "reorder_buf t ! (v mod ?n) = slot (m v)" if v: "V' \<le> v" "v < V' + ?n" for v
  proof (cases "v < V + ?n")
    case True
    then show ?thesis using assms(1,2) v by (simp add: ring_view_def)
  next
    case False
    then have r: "V \<le> v - ?n" "v - ?n < V'" "?n \<le> v" using v by simp_all
    have "m v = None" using assms(1) False by (auto simp: ring_view_def subset_iff domIff)
    moreover have "m (v - ?n) = None" using assms(4) r by simp
    moreover have "(v - ?n) mod ?n = v mod ?n" using r(3) by (metis le_mod_geq)
    moreover have "reorder_buf t ! ((v - ?n) mod ?n) = slot (m (v - ?n))"
      using assms(1) r assms(3) by (auto simp: ring_view_def)
    ultimately show ?thesis by simp
  qed
  moreover have "dom m \<subseteq> {V'..<V' + ?n}"
  proof
    fix v assume v: "v \<in> dom m"
    then have "V \<le> v" "v < V + ?n" using assms(1) by (auto simp: ring_view_def)
    moreover have "\<not> v < V'" using v assms(4) [of v] \<open>V \<le> v\<close> by auto
    ultimately show "v \<in> {V'..<V' + ?n}" using assms(2) by simp
  qed
  ultimately show ?thesis using assms(1) by (simp add: ring_view_def)
qed

lemma mod_inj_window:
  fixes a b V n :: nat
  assumes eq: "a mod n = b mod n" and "V \<le> a" and "a < V + n" and "V \<le> b" and "b < V + n"
  shows "a = b"
proof -
  have d: "n dvd a - b" "n dvd b - a" using eq by (metis mod_eq_dvd_iff_nat nat_le_linear diff_is_0_eq dvd_0_right)+
  moreover have "a - b < n" "b - a < n" using assms by linarith+
  ultimately have "a - b = 0" "b - a = 0" by (auto dest: nat_dvd_not_less)
  then show ?thesis by simp
qed

lemma ring_release:
  assumes r: "ring_view V m t" and v: "V \<le> v" "v < V + unat (buf_size t)"
  obtains t' where
    "ieee80211_release_reorder_frame t (v mod unat (buf_size t)) fr = Inr (t', fr @ map deferred (slot (m v)))"
    and "ring_view V (m(v := None)) t'" and "head_seq_num t' = ieee80211_sn_inc (head_seq_num t)"
    and "buf_size t' = buf_size t" and "reorder_time t' = reorder_time t" and "ra_removed t' = ra_removed t"
    and "reorder_timer t' = reorder_timer t" and "ra_started t' = ra_started t" and "auto_seq t' = auto_seq t"
proof -
  let ?n = "unat (buf_size t)" let ?i = "v mod unat (buf_size t)"
  let ?t = "(if m v = None then t else t\<lparr>stored_mpdu_num := stored_mpdu_num t - 1, reorder_buf := (reorder_buf t)[?i := []]\<rparr>)
      \<lparr>reorder_buf_filtered := 0, head_seq_num := ieee80211_sn_inc (head_seq_num t)\<rparr>"
  note D = ring_viewD [OF r]
  have f: "reorder_buf_filtered t = 0" using r by (simp add: ring_view_def reorder_wf_def)
  have eq: "ieee80211_release_reorder_frame t ?i fr = Inr (?t, fr @ map deferred (slot (m v)))"
    using ring_ready [OF r v] f by (auto simp: ieee80211_release_reorder_frame_def)
  have i: "?i < ?n" using D(1) by (intro mod_less_divisor) simp
  have "reorder_buf ?t ! (u mod ?n) = slot ((m(v := None)) u)" if u: "V \<le> u" "u < V + ?n" for u
  proof (cases "u = v")
    case True
    then show ?thesis using r v i D(5) by (auto simp: ring_view_def)
  next
    case False
    then have "u mod ?n \<noteq> ?i" using mod_inj_window [of u ?n v V] u v by blast
    then show ?thesis using False r u by (auto simp: ring_view_def)
  qed
  moreover have "unat (stored_mpdu_num ?t) = card (dom (m(v := None)))"
  proof (cases "m v")
    case None
    then have "m(v := None) = m" by (simp add: fun_upd_idem)
    then show ?thesis using r None by (simp add: ring_view_def)
  next
    case (Some f)
    then have "v \<in> dom m" by blast
    then have "card (dom m - {v}) = card (dom m) - 1" "stored_mpdu_num t \<noteq> 0" using D(7,9) by auto
    then show ?thesis using Some D(8) by (simp add: unat_minus_one)
  qed
  moreover have "reorder_wf ?t" using r by (simp add: ring_view_def reorder_wf_def)
  ultimately have "ring_view V (m(v := None)) ?t" using r by (auto simp: ring_view_def subset_iff domIff)
  with eq show thesis by (rule that) simp_all
qed

lemma window_index:
  assumes "window_view V m t"
  shows "ring_index t (head_seq_num t) = Inr (V mod unat (buf_size t))"
  using assms ring_viewD(3,4) [of V m t] by (simp add: window_view_def ring_index_def mod_mod_cancel)

lemma unat_sn_inc: "unat (ieee80211_sn_inc a) = (unat a + 1) mod 4096"
  by (simp add: ieee80211_sn_inc_def unat_sn_add)

text \<open>
  \<open>advanced V m t fr r\<close>: the operation ended, gave up the frames below some new head in the order of their
  numbers and kept the others.
\<close>

definition kept :: "tid_ampdu_rx \<Rightarrow> tid_ampdu_rx \<Rightarrow> bool" where
  "kept t t' \<longleftrightarrow> buf_size t' = buf_size t \<and> reorder_time t' = reorder_time t \<and> ra_removed t' = ra_removed t \<and>
     ra_started t' = ra_started t \<and> auto_seq t' = auto_seq t"

lemma kept_trans [trans]: "kept t t' \<Longrightarrow> kept t' t'' \<Longrightarrow> kept t t''" and kept_refl [simp]: "kept t t"
  by (simp_all add: kept_def)

lemma window_release_head:
  assumes w: "window_view V m t"
  obtains t' where
    "ieee80211_release_reorder_frame t (V mod unat (buf_size t)) fr = Inr (t', fr @ map deferred (slot (m V)))"
    and "window_view (Suc V) (m(V := None)) t'" and "kept t t'" and "reorder_timer t' = reorder_timer t"
proof -
  have r: "ring_view V m t" using w by (simp add: window_view_def)
  have n: "V < V + unat (buf_size t)" using ring_viewD(1) [OF r] by simp
  obtain t' where t': "ieee80211_release_reorder_frame t (V mod unat (buf_size t)) fr = Inr (t', fr @ map deferred (slot (m V)))"
    "ring_view V (m(V := None)) t'" "head_seq_num t' = ieee80211_sn_inc (head_seq_num t)" "buf_size t' = buf_size t"
    "reorder_time t' = reorder_time t" "ra_removed t' = ra_removed t" "reorder_timer t' = reorder_timer t"
    "ra_started t' = ra_started t" "auto_seq t' = auto_seq t"
    using ring_release [OF r order.refl n] by blast
  have "ring_view (Suc V) (m(V := None)) t'"
    using ring_advance [OF t'(2), of "Suc V"] ring_viewD(1) [OF t'(2)] by (auto simp: less_Suc_eq)
  moreover have "unat (head_seq_num t') = Suc V mod 4096"
    using w t'(3) by (simp add: window_view_def unat_sn_inc mod_Suc_eq)
  ultimately show thesis using that t' by (simp add: window_view_def kept_def)
qed

lemma ahead_drop: "ring_view V m t \<Longrightarrow> m(V := None) = ahead (Suc V) m"
  by (auto simp: fun_eq_iff ahead_def ring_view_def subset_iff domIff not_less_eq_eq)

lemma release_frames_view:
  assumes "window_view V m t" and "k \<le> 2047"
    and "unat (ieee80211_sn_sub head (head_seq_num t)) = k"
  shows "\<exists>t'. ieee80211_release_reorder_frames t head fr = Inr (t', fr @ map deferred (held m V (V + k))) \<and>
    window_view (V + k) (ahead (V + k) m) t' \<and> kept t t' \<and> reorder_timer t' = reorder_timer t"
  using assms
proof (induction k arbitrary: V m t fr)
  case 0
  have "\<not> ieee80211_sn_less (head_seq_num t) head"
  proof -
    have "uint (ieee80211_sn_sub head (head_seq_num t)) = 0" using 0(3) by (simp only: uint_nat of_nat_0)
    then have "uint (ieee80211_sn_sub (head_seq_num t) head) = 0"
      by (simp only: uint_sn_sub mod_eq_0_iff_dvd dvd_diff_commute)
    then show ?thesis by (simp add: ieee80211_sn_less_def ieee80211_sn_sub_def word_less_def)
  qed
  moreover have "ahead V m = m" using 0(1) ring_view_ahead unfolding window_view_def by blast
  ultimately show ?case using 0(1)
    by (simp add: ieee80211_release_reorder_frames.simps [of t] held_simps window_view_def)
next
  case (Suc k)
  let ?h = "head_seq_num t"
  have "(uint head - uint ?h) mod 4096 = int (Suc k)" using Suc.prems(3) by (metis uint_nat uint_sn_sub)
  then have d: "(uint ?h - uint head) mod 4096 = 4096 - int (Suc k)"
    using Suc.prems(2) by (simp add: zmod_zminus1_eq_if [of "uint head - uint ?h" 4096, simplified])
  then have less: "ieee80211_sn_less ?h head"
    using Suc.prems(2) by (simp add: ieee80211_sn_less_def word_less_def flip: ieee80211_sn_sub_def uint_sn_sub)
  obtain t1 where t1: "ieee80211_release_reorder_frame t (V mod unat (buf_size t)) fr = Inr (t1, fr @ map deferred (slot (m V)))"
    "window_view (Suc V) (m(V := None)) t1" "kept t t1" "reorder_timer t1 = reorder_timer t"
    using window_release_head [OF Suc.prems(1)] by blast
  have h1: "head_seq_num t1 = ieee80211_sn_inc ?h" using release_reorder_frame_head [OF t1(1)] by simp
  have m1: "m(V := None) = ahead (Suc V) m" using ahead_drop Suc.prems(1) by (auto simp: window_view_def)
  have "uint (ieee80211_sn_sub head (head_seq_num t1)) = (uint head - uint ?h - 1) mod 4096"
    by (simp add: h1 uint_sn_sub ieee80211_sn_inc_def uint_sn_add mod_simps algebra_simps)
  also have "\<dots> = ((uint head - uint ?h) mod 4096 - 1) mod 4096" by (simp only: mod_diff_left_eq)
  also have "\<dots> = int k"
    using \<open>(uint head - uint ?h) mod 4096 = int (Suc k)\<close> Suc.prems(2) by simp
  finally have k1: "unat (ieee80211_sn_sub head (head_seq_num t1)) = k"
    by (simp only: uint_nat of_nat_eq_iff)
  have k2: "k \<le> 2047" using Suc.prems(2) by simp
  from Suc.IH [OF t1(2) k2 k1, of "fr @ map deferred (slot (m V))"]
  obtain t2 where t2: "ieee80211_release_reorder_frames t1 head (fr @ map deferred (slot (m V))) =
      Inr (t2, (fr @ map deferred (slot (m V))) @ map deferred (held (m(V := None)) (Suc V) (Suc V + k)))"
    "window_view (Suc V + k) (ahead (Suc V + k) (m(V := None))) t2" "kept t1 t2" "reorder_timer t2 = reorder_timer t1"
    by blast
  have "held (m(V := None)) (Suc V) (Suc V + k) = held m (Suc V) (Suc V + k)" by (rule held_cong) simp
  then have "(fr @ map deferred (slot (m V))) @ map deferred (held (m(V := None)) (Suc V) (Suc V + k)) =
      fr @ map deferred (held m V (V + Suc k))" by (simp add: held_first)
  moreover have "ahead (Suc V + k) (m(V := None)) = ahead (V + Suc k) m" by (auto simp: ahead_def)
  ultimately show ?case
    using t2 t1 less window_index [OF Suc.prems(1)] kept_trans
    by (auto simp: ieee80211_release_reorder_frames.simps [of t])
qed

lemma release_while_ready_view:
  assumes "window_view V m t"
  shows "\<exists>t' k. release_while_ready t fr = Inr (t', fr @ map deferred (held m V (V + k))) \<and>
    window_view (V + k) (ahead (V + k) m) t' \<and> kept t t' \<and> m (V + k) = None"
  using assms
proof (induction "card (dom m)" arbitrary: V m t fr rule: less_induct)
  case less
  have r: "ring_view V m t" using less.prems by (simp add: window_view_def)
  have n: "V < V + unat (buf_size t)" using ring_viewD(1) [OF r] by simp
  show ?case
  proof (cases "m V")
    case None
    then have "release_while_ready t fr = Inr (t, fr)"
      using window_index [OF less.prems] ring_ready(1) [OF r order.refl n] by (simp add: release_while_ready.simps [of t])
    then show ?thesis
      using None less.prems ring_view_ahead [OF r]
      by (intro exI [of _ t] exI [of _ 0]) (simp add: held_simps)
  next
    case (Some f)
    obtain t1 where t1: "ieee80211_release_reorder_frame t (V mod unat (buf_size t)) fr = Inr (t1, fr @ map deferred (slot (m V)))"
      "window_view (Suc V) (m(V := None)) t1" "kept t t1" "reorder_timer t1 = reorder_timer t"
      using window_release_head [OF less.prems] by blast
    have "card (dom (m(V := None))) < card (dom m)"
      using Some ring_viewD(7) [OF r] by (auto intro!: card_Diff1_less)
    from less.hyps [OF this t1(2), of "fr @ map deferred (slot (m V))"]
    obtain t' k where t': "release_while_ready t1 (fr @ map deferred (slot (m V))) =
        Inr (t', (fr @ map deferred (slot (m V))) @ map deferred (held (m(V := None)) (Suc V) (Suc V + k)))"
      "window_view (Suc V + k) (ahead (Suc V + k) (m(V := None))) t'" "kept t1 t'" "(m(V := None)) (Suc V + k) = None"
      by blast
    have "held (m(V := None)) (Suc V) (Suc V + k) = held m (Suc V) (Suc V + k)" by (rule held_cong) simp
    then have "(fr @ map deferred (slot (m V))) @ map deferred (held (m(V := None)) (Suc V) (Suc V + k)) =
        fr @ map deferred (held m V (V + Suc k))" by (simp add: held_first)
    moreover have "ahead (Suc V + k) (m(V := None)) = ahead (V + Suc k) m" by (auto simp: ahead_def)
    moreover have "release_while_ready t fr = release_while_ready t1 (fr @ map deferred (slot (m V)))"
      using window_index [OF less.prems] ring_ready(1) [OF r order.refl n] Some t1(1)
      by (simp add: release_while_ready.simps [of t])
    ultimately show ?thesis
      using t' kept_trans [OF t1(3) t'(3)] by (intro exI [of _ t'] exI [of _ "Suc k"]) (auto split: if_split_asm)
  qed
qed

lemma purge_slots_empty:
  assumes "\<forall>i\<in>set is. i < length (reorder_buf t) \<and> reorder_buf t ! i = []"
  shows "purge_slots is t = Inr t"
  using assms
proof (induction "is")
  case (Cons i "is")
  then have "(reorder_buf t)[i := []] = reorder_buf t" by (metis list.set_intros(1) list_update_id)
  with Cons show ?case by simp
qed simp

lemma takeWhile_map_upt:
  assumes "a \<le> k" and "k < b" and "x \<in> set (takeWhile (\<lambda>i. i \<noteq> g k) (map g [a..<b]))"
  shows "\<exists>l. a \<le> l \<and> l < k \<and> x = g l"
proof -
  have "map g [a..<b] = map g [a..<k] @ g k # map g [Suc k..<b]"
    using assms(1,2) upt_add_eq_append [of a k "b - k"] upt_conv_Cons [of k b] by simp
  then have "set (takeWhile (\<lambda>i. i \<noteq> g k) (map g [a..<b])) \<subseteq> set (map g [a..<k])"
    by (auto dest!: set_takeWhileD simp: takeWhile_append)
  then have "x \<in> g ` {a..<k}" using assms(3) by auto
  then show ?thesis by auto
qed

text \<open>
  How the scan over the slots behind the head ends: the head has moved to some \<open>V'\<close> not below \<open>lo\<close> and the
  frames below it are released. Either nothing is left, or the scan stopped at a frame that is not
  overdue and the new head is missing.
\<close>

definition scan_ends ::
  "nat \<Rightarrow> (nat \<Rightarrow> rx_frame option) \<Rightarrow> tid_ampdu_rx \<Rightarrow> rx_frame list \<Rightarrow> u64 \<Rightarrow> u64 \<Rightarrow> nat \<Rightarrow>
     (tid_ampdu_rx \<times> rx_frame list \<times> nat option) result \<Rightarrow> bool" where
  "scan_ends V m t fr tmo now lo r \<longleftrightarrow>
     (\<exists>t' V' wait. r = Inr (t', fr @ map deferred (held m V V'), wait) \<and> lo \<le> V' \<and> V' \<le> V + unat (buf_size t) \<and>
        ring_view V (ahead V' m) t' \<and> unat (head_seq_num t') = V' mod 4096 \<and> kept t t' \<and>
        (case wait of
           None \<Rightarrow> ahead V' m = Map.empty
         | Some j \<Rightarrow> m V' = None \<and>
             (\<exists>v. j = v mod unat (buf_size t) \<and> V' < v \<and> m v \<noteq> None \<and> \<not> time_after now (reorder_time t ! j + tmo))))"

lemma scan_ends_here:
  assumes "ring_view V m t" and "V \<le> V'" and "V' \<le> V + unat (buf_size t)" and "unat (head_seq_num t) = V' mod 4096"
    and "\<And>v. V \<le> v \<Longrightarrow> v < V' \<Longrightarrow> m v = None"
    and "case wait of None \<Rightarrow> m = Map.empty
      | Some j \<Rightarrow> m V' = None \<and> (\<exists>v. j = v mod unat (buf_size t) \<and> V' < v \<and> m v \<noteq> None \<and> \<not> time_after now (reorder_time t ! j + tmo))"
  shows "scan_ends V m t fr tmo now V' (Inr (t, fr, wait))"
proof -
  have "ahead V' m = m"
  proof (rule ext)
    fix v
    have "ahead V m v = m v" using ring_view_ahead [OF assms(1)] by simp
    then show "ahead V' m v = m v" using assms(5) [of v] by (auto simp: ahead_def split: if_split_asm)
  qed
  moreover have "held m V V' = []" using assms(5) by (rule held_none)
  ultimately show ?thesis unfolding scan_ends_def
    using assms by (intro exI [of _ t] exI [of _ V'] exI [of _ wait]) (auto split: option.split)
qed

lemma scan_ends_released:
  assumes "scan_ends V (m(v := None)) t2 (fr @ map deferred (slot (m v))) tmo now (Suc v) r"
    and "V \<le> v" and "\<And>u. V \<le> u \<Longrightarrow> u < v \<Longrightarrow> m u = None" and "kept t t2" and "lo \<le> Suc v"
  shows "scan_ends V m t fr tmo now lo r"
proof -
  have eqs: "buf_size t2 = buf_size t" "reorder_time t2 = reorder_time t" using assms(4) by (simp_all add: kept_def)
  obtain t' V' wait where R: "r = Inr (t', (fr @ map deferred (slot (m v))) @ map deferred (held (m(v := None)) V V'), wait)"
    "Suc v \<le> V'" "V' \<le> V + unat (buf_size t)" "ring_view V (ahead V' (m(v := None))) t'" "unat (head_seq_num t') = V' mod 4096"
    "kept t2 t'" "case wait of None \<Rightarrow> ahead V' (m(v := None)) = Map.empty
      | Some j \<Rightarrow> (m(v := None)) V' = None \<and>
          (\<exists>u. j = u mod unat (buf_size t) \<and> V' < u \<and> (m(v := None)) u \<noteq> None \<and> \<not> time_after now (reorder_time t ! j + tmo))"
    using assms(1) unfolding scan_ends_def eqs by blast
  have m1: "ahead V' (m(v := None)) = ahead V' m" using R(2) by (auto simp: ahead_def)
  have "held m V V' = held m V v @ slot (m v) @ held m (Suc v) V'"
    using held_append [of V v V' m] held_first [of v V' m] R(2) assms(2) by simp
  moreover have "held (m(v := None)) V V' = held (m(v := None)) V v @ held (m(v := None)) (Suc v) V'"
    using held_append [of V v V' "m(v := None)"] held_first [of v V' "m(v := None)"] R(2) assms(2) by simp
  moreover have "held m V v = []" "held (m(v := None)) V v = []" using assms(3) by (auto intro!: held_none)
  moreover have "held (m(v := None)) (Suc v) V' = held m (Suc v) V'" by (rule held_cong) simp
  ultimately have h: "slot (m v) @ held (m(v := None)) V V' = held m V V'" by simp
  have w: "case wait of None \<Rightarrow> ahead V' m = Map.empty
      | Some j \<Rightarrow> m V' = None \<and>
          (\<exists>u. j = u mod unat (buf_size t) \<and> V' < u \<and> m u \<noteq> None \<and> \<not> time_after now (reorder_time t ! j + tmo))"
    using R(2,7) m1 by (auto split: option.split_asm option.split if_split_asm)
  have "r = Inr (t', fr @ map deferred (held m V V'), wait)" using R(1) by (simp flip: h)
  then show ?thesis unfolding scan_ends_def
    using R(2-5) m1 w kept_trans [OF assms(4) R(6)] assms(5) by (intro exI [of _ t'] exI [of _ V'] exI [of _ wait]) simp
qed

lemma purge_before_scan:
  assumes "ring_view V m t" and "0 < k" and "k < unat (buf_size t)" and "\<And>v. V \<le> v \<Longrightarrow> v < V + k \<Longrightarrow> m v = None"
  defines "n \<equiv> unat (buf_size t)"
  shows "purge_slots (takeWhile (\<lambda>i. i \<noteq> (V + k) mod n) (ring_after n (V mod n))) t = Inr t"
proof (rule purge_slots_empty, rule ballI)
  fix i assume i: "i \<in> set (takeWhile (\<lambda>i. i \<noteq> (V + k) mod n) (ring_after n (V mod n)))"
  have "(V mod n + k) mod n = (V + k) mod n" by (simp add: mod_add_left_eq)
  then obtain l where l: "1 \<le> l" "l < k" "i = (V mod n + l) mod n"
    using takeWhile_map_upt [of 1 k n i "\<lambda>k. (V mod n + k) mod n"] i assms(2,3)
    by (auto simp: ring_after_def n_def)
  then have "i = (V + l) mod n" by (simp add: mod_add_left_eq)
  then show "i < length (reorder_buf t) \<and> reorder_buf t ! i = []"
    using ring_ready(2) [OF assms(1), of "V + l"] assms(4) [of "V + l"] l assms(3)
    by (auto simp: arr_get_def n_def split: if_split_asm)
qed

lemma scan_release_step:
  assumes "ring_view V m t" and "k < unat (buf_size t)" and "skipped \<le> k"
    and "unat (head_seq_num t) = (V + k - skipped) mod 4096"
  obtains t1 where
    "ieee80211_release_reorder_frame t ((V + k) mod unat (buf_size t)) fr = Inr (t1, fr @ map deferred (slot (m (V + k))))"
    and "ring_view V (m(V + k := None)) (t1\<lparr>head_seq_num := (head_seq_num t1 + of_nat skipped) AND IEEE80211_SN_MASK\<rparr>)"
    and "unat ((head_seq_num t1 + of_nat skipped) AND IEEE80211_SN_MASK) = (V + Suc k) mod 4096"
    and "kept t (t1\<lparr>head_seq_num := (head_seq_num t1 + of_nat skipped) AND IEEE80211_SN_MASK\<rparr>)"
proof -
  obtain t1 where t1: "ieee80211_release_reorder_frame t ((V + k) mod unat (buf_size t)) fr = Inr (t1, fr @ map deferred (slot (m (V + k))))"
    "ring_view V (m(V + k := None)) t1" "head_seq_num t1 = ieee80211_sn_inc (head_seq_num t)" "buf_size t1 = buf_size t"
    "reorder_time t1 = reorder_time t" "ra_removed t1 = ra_removed t" "ra_started t1 = ra_started t"
    "auto_seq t1 = auto_seq t"
    using ring_release [OF assms(1), of "V + k" fr] assms(2) by auto
  have "unat (of_nat skipped :: u16) = skipped"
    using assms(2,3) ring_viewD(2) [OF assms(1)] by (intro of_nat_inverse [OF refl]) simp
  then have "unat ((head_seq_num t1 + of_nat skipped) AND IEEE80211_SN_MASK) = ((V + k - skipped + 1) mod 4096 + skipped) mod 4096"
    using assms(4) t1(3) unat_sn_add [of "head_seq_num t1" "of_nat skipped"]
    by (simp add: ieee80211_sn_add_def unat_sn_inc mod_Suc_eq)
  then have "unat ((head_seq_num t1 + of_nat skipped) AND IEEE80211_SN_MASK) = (V + Suc k) mod 4096"
    using assms(3) by (simp add: mod_add_left_eq)
  moreover have "ring_view V (m(V + k := None)) (t1\<lparr>head_seq_num := (head_seq_num t1 + of_nat skipped) AND IEEE80211_SN_MASK\<rparr>)"
    using t1(2) by (simp add: ring_view_def reorder_wf_def)
  ultimately show thesis using that t1 by (simp add: kept_def)
qed

lemma timeout_scan_view:
  assumes "ring_view V m t" and "0 < k" and "k \<le> unat (buf_size t)" and "skipped \<le> k"
    and "unat (head_seq_num t) = (V + k - skipped) mod 4096"
    and "\<And>v. V \<le> v \<Longrightarrow> v < V + k \<Longrightarrow> m v = None"
  shows "scan_ends V m t fr tmo now (V + k - skipped) (reorder_timeout_scan tmo now (V mod unat (buf_size t))
    (map (\<lambda>k. (V mod unat (buf_size t) + k) mod unat (buf_size t)) [k..<unat (buf_size t)]) skipped t fr)"
  using assms
proof (induction "unat (buf_size t) - k" arbitrary: k skipped m t fr)
  case 0
  then have k: "k = unat (buf_size t)" by simp
  have "m v = None" for v
    using 0(2) 0(7) [of v] k by (cases "v < V + k") (auto simp: ring_view_def subset_iff domIff)
  then have "m = Map.empty" by blast
  then show ?case using 0 k by (auto intro!: scan_ends_here)
next
  case (Suc d)
  let ?n = "unat (buf_size t)" let ?v = "V + k" let ?js = "\<lambda>k. map (\<lambda>k. (V mod ?n + k) mod ?n) [k..<?n]"
  have k: "k < ?n" "d = ?n - Suc k" using Suc.hyps(2) by simp_all
  note D = ring_viewD [OF Suc.prems(1)]
  have js: "?js k = ?v mod ?n # ?js (Suc k)" using k by (simp add: upt_conv_Cons mod_add_left_eq)
  have rd: "ieee80211_rx_reorder_ready t (?v mod ?n) = Inr (m ?v \<noteq> None)"
    using ring_ready(1) [OF Suc.prems(1), of ?v] k by simp
  have i: "?v mod ?n < length (reorder_time t)" using D(1,6) by simp
  consider (absent) "m ?v = None" | (early) "m ?v \<noteq> None" "skipped \<noteq> 0" "\<not> time_after now (reorder_time t ! (?v mod ?n) + tmo)"
    | (due) "m ?v \<noteq> None" "\<not> (skipped \<noteq> 0 \<and> \<not> time_after now (reorder_time t ! (?v mod ?n) + tmo))" by blast
  then show ?case
  proof cases
    case absent
    have "reorder_timeout_scan tmo now (V mod ?n) (?js k) skipped t fr = reorder_timeout_scan tmo now (V mod ?n) (?js (Suc k)) (skipped + 1) t fr"
      unfolding js using rd absent by simp
    moreover have "scan_ends V m t fr tmo now (V + Suc k - (skipped + 1)) (reorder_timeout_scan tmo now (V mod ?n) (?js (Suc k)) (skipped + 1) t fr)"
      using Suc.prems absent k by (intro Suc.hyps(1)) (auto simp: less_Suc_eq)
    ultimately show ?thesis by simp
  next
    case early
    have "reorder_timeout_scan tmo now (V mod ?n) (?js k) skipped t fr = Inr (t, fr, Some (?v mod ?n))"
      unfolding js using rd early i by simp
    moreover have "m (V + k - skipped) = None" using Suc.prems(4,6) early(2) by simp
    ultimately show ?thesis using Suc.prems early k by (auto intro!: scan_ends_here exI [of _ "V + k"])
  next
    case due
    obtain t1 where t1: "ieee80211_release_reorder_frame t (?v mod ?n) fr = Inr (t1, fr @ map deferred (slot (m ?v)))"
      "ring_view V (m(?v := None)) (t1\<lparr>head_seq_num := (head_seq_num t1 + of_nat skipped) AND IEEE80211_SN_MASK\<rparr>)"
      "unat ((head_seq_num t1 + of_nat skipped) AND IEEE80211_SN_MASK) = (V + Suc k) mod 4096"
      "kept t (t1\<lparr>head_seq_num := (head_seq_num t1 + of_nat skipped) AND IEEE80211_SN_MASK\<rparr>)"
      using scan_release_step [OF Suc.prems(1) k(1) Suc.prems(4,5)] by blast
    let ?t2 = "t1\<lparr>head_seq_num := (head_seq_num t1 + of_nat skipped) AND IEEE80211_SN_MASK\<rparr>"
    have n2: "buf_size ?t2 = buf_size t" using t1(4) by (simp add: kept_def)
    have sc: "reorder_timeout_scan tmo now (V mod ?n) (?js k) skipped t fr =
        reorder_timeout_scan tmo now (V mod ?n) (?js (Suc k)) 0 ?t2 (fr @ map deferred (slot (m ?v)))"
      unfolding js using rd due i t1(1) purge_before_scan [OF Suc.prems(1,2) k(1) Suc.prems(6)] by auto
    have before: "(m(?v := None)) v = None" if "V \<le> v" "v < V + Suc k" for v
      using Suc.prems(6) that by (auto simp: less_Suc_eq)
    have "scan_ends V (m(?v := None)) ?t2 (fr @ map deferred (slot (m ?v))) tmo now (V + Suc k - 0)
        (reorder_timeout_scan tmo now (V mod ?n) (?js (Suc k)) 0 ?t2 (fr @ map deferred (slot (m ?v))))"
      using Suc.hyps(1) [of ?t2 "Suc k" "m(?v := None)" 0 "fr @ map deferred (slot (m ?v))"] t1(2,3) k n2
        before by simp
    then show ?thesis unfolding sc
      using scan_ends_released [where lo = "V + k - skipped", OF _ _ Suc.prems(6) t1(4)] by simp
  qed
qed

lemma timer_scan_ends:
  assumes "ring_view V m t" and "V \<le> u" and "u \<le> v" and "v < V + unat (buf_size t)" and "m v \<noteq> None"
  shows "\<exists>j<unat (buf_size t). timer_scan stop (unat (buf_size t)) t (u mod unat (buf_size t)) = Some (Inr j)"
  using assms
proof (induction "v - u" arbitrary: u)
  case 0
  then have "u = v" by simp
  moreover have "v mod unat (buf_size t) < unat (buf_size t)" using ring_viewD(1) [OF assms(1)] by simp
  ultimately show ?case using 0 ring_ready(1) [OF assms(1), of v] by (simp add: timer_scan.simps [of stop])
next
  case (Suc d)
  let ?n = "unat (buf_size t)"
  have l: "u mod ?n < ?n" using ring_viewD(1) [OF assms(1)] by simp
  have "ieee80211_rx_reorder_ready t (u mod ?n) = Inr (m u \<noteq> None)"
    using ring_ready(1) [OF assms(1), of u] Suc by simp
  moreover have "(u mod ?n + 1) mod ?n = Suc u mod ?n" by (simp add: mod_Suc_eq)
  moreover have "\<exists>j<?n. timer_scan stop ?n t (Suc u mod ?n) = Some (Inr j)"
    using Suc by (intro Suc.hyps(1)) simp_all
  ultimately show ?case using l by (auto simp: timer_scan.simps [of stop])
qed

definition armed :: "(nat \<Rightarrow> rx_frame option) \<Rightarrow> tid_ampdu_rx \<Rightarrow> bool" where
  "armed m t \<longleftrightarrow> m = Map.empty \<or> ra_removed t \<or> reorder_timer t \<noteq> None"

lemma set_release_timer_view:
  assumes "window_view V m t" and "j < unat (buf_size t)"
  shows "\<exists>t'. set_release_timer tmo j t = Inr t' \<and> window_view V m t' \<and> kept t t' \<and> armed m t'"
  using assms ring_viewD(6) [of V m t]
  by (auto simp: set_release_timer_def window_view_def kept_def armed_def ring_view_def reorder_wf_def)

lemma update_release_timer_view:
  assumes w: "window_view V m t"
  shows "\<exists>t'. update_release_timer tmo t = Inr t' \<and> window_view V m t' \<and> kept t t' \<and> armed m t'"
proof (cases "stored_mpdu_num t = 0")
  case True
  then have "m = Map.empty" using w ring_viewD(9) [of V m t] by (simp add: window_view_def)
  then show ?thesis using True w
    by (simp add: update_release_timer_def kept_def armed_def window_view_def ring_view_def reorder_wf_def)
next
  case False
  have r: "ring_view V m t" using w by (simp add: window_view_def)
  then obtain v where "v \<in> dom m" using False ring_viewD(9) [OF r] by blast
  then have v: "m v \<noteq> None" "V \<le> v" "v < V + unat (buf_size t)"
    using r by (auto simp: ring_view_def)
  let ?n = "unat (buf_size t)"
  obtain j where j: "j < ?n" "timer_scan ((int (V mod ?n) - 1) smod int ?n) ?n t (V mod ?n) = Some (Inr j)"
    using timer_scan_ends [OF r order.refl v(2,3,1)] by blast
  then show ?thesis
    using False window_index [OF w] set_release_timer_view [OF w j(1)] by (simp add: update_release_timer_def)
qed

lemma window_view_ahead:
  assumes "ring_view V (ahead V' m) t" and "V \<le> V'" and "V' \<le> V + unat (buf_size t)" and "unat (head_seq_num t) = V' mod 4096"
  shows "window_view V' (ahead V' m) t"
  using ring_advance [OF assms(1-3)] assms(4) by (simp add: window_view_def ahead_simps)

text \<open>
  \<open>gives_up V m fr r\<close>: the operation returned with the frames below a new head appended to its
  output in the order of their numbers, the others held, the new head missing and the timer armed if
  anything is held.
\<close>

definition gives_up ::
  "nat \<Rightarrow> (nat \<Rightarrow> rx_frame option) \<Rightarrow> tid_ampdu_rx \<Rightarrow> rx_frame list \<Rightarrow> (tid_ampdu_rx \<times> rx_frame list) result \<Rightarrow> nat \<Rightarrow> bool" where
  "gives_up V m t fr r V' \<longleftrightarrow>
     (\<exists>t'. r = Inr (t', fr @ map deferred (held m V V')) \<and> V \<le> V' \<and> window_view V' (ahead V' m) t' \<and>
        kept t t' \<and> m V' = None \<and> armed (ahead V' m) t')"

lemma reorder_release_view:
  assumes w: "window_view V m t"
  shows "\<exists>V'. gives_up V m t fr (ieee80211_sta_reorder_release hz now t fr) V' \<and>
    (ahead V' m = Map.empty \<or> m V \<noteq> None \<or>
       (\<exists>v. m v \<noteq> None \<and> \<not> time_after now (reorder_time t ! (v mod unat (buf_size t)) + HT_RX_REORDER_BUF_TIMEOUT hz)))"
proof -
  let ?n = "unat (buf_size t)" let ?tmo = "HT_RX_REORDER_BUF_TIMEOUT hz"
  have r: "ring_view V m t" using w by (simp add: window_view_def)
  note D = ring_viewD [OF r]
  have rd: "ieee80211_rx_reorder_ready t (V mod ?n) = Inr (m V \<noteq> None)" using ring_ready(1) [OF r, of V] D(1) by simp
  show ?thesis
  proof (cases "m V = None \<and> stored_mpdu_num t \<noteq> 0")
    case True
    have "scan_ends V m t fr ?tmo now (V + 1 - 1) (reorder_timeout_scan ?tmo now (V mod ?n) (ring_after ?n (V mod ?n)) 1 t fr)"
      unfolding ring_after_def using r w D(1) True
      by (intro timeout_scan_view) (auto simp: window_view_def less_Suc_eq)
    then obtain t1 V' wait where s: "reorder_timeout_scan ?tmo now (V mod ?n) (ring_after ?n (V mod ?n)) 1 t fr =
        Inr (t1, fr @ map deferred (held m V V'), wait)" "V \<le> V'" "V' \<le> V + ?n" "ring_view V (ahead V' m) t1"
      "unat (head_seq_num t1) = V' mod 4096" "kept t t1"
      "case wait of None \<Rightarrow> ahead V' m = Map.empty
         | Some j \<Rightarrow> m V' = None \<and> (\<exists>v. j = v mod ?n \<and> V' < v \<and> m v \<noteq> None \<and> \<not> time_after now (reorder_time t ! j + ?tmo))"
      unfolding scan_ends_def by auto
    have n1: "buf_size t1 = buf_size t" using s(6) by (simp add: kept_def)
    have w1: "window_view V' (ahead V' m) t1" using window_view_ahead [OF s(4) s(2) _ s(5)] s(3) n1 by simp
    have "m V' = None" using s(7) ahead_simps(2) [of V' V' m] by (cases wait) auto
    moreover have "\<exists>t2. (case wait of Some j \<Rightarrow> set_release_timer ?tmo j t1 | None \<Rightarrow> update_release_timer ?tmo t1) = Inr t2 \<and>
        window_view V' (ahead V' m) t2 \<and> kept t1 t2 \<and> armed (ahead V' m) t2"
      using update_release_timer_view [OF w1] set_release_timer_view [OF w1] s(7) D(1) n1
      by (cases wait) auto
    ultimately have "gives_up V m t fr (ieee80211_sta_reorder_release hz now t fr) V'"
      using True window_index [OF w] rd s(1,2) kept_trans [OF s(6)]
      by (auto simp: ieee80211_sta_reorder_release_def gives_up_def Let_def)
    then show ?thesis using s(7) by (auto split: option.split_asm)
  next
    case False
    obtain t1 k where t1: "release_while_ready t fr = Inr (t1, fr @ map deferred (held m V (V + k)))"
      "window_view (V + k) (ahead (V + k) m) t1" "kept t t1" "m (V + k) = None"
      using release_while_ready_view [OF w] by blast
    obtain t2 where t2: "update_release_timer ?tmo t1 = Inr t2" "window_view (V + k) (ahead (V + k) m) t2" "kept t1 t2"
      "armed (ahead (V + k) m) t2"
      using update_release_timer_view [OF t1(2)] by blast
    have "gives_up V m t fr (ieee80211_sta_reorder_release hz now t fr) (V + k)"
      using False window_index [OF w] rd t1 t2 kept_trans [OF t1(3) t2(3)]
      by (auto simp: ieee80211_sta_reorder_release_def gives_up_def Let_def)
    moreover have "m V \<noteq> None \<or> ahead (V + k) m = Map.empty" using False D(9) by (auto simp: ahead_def)
    ultimately show ?thesis by blast
  qed
qed

section \<open>A session in order\<close>

lemma int_sn_sub: "int (unat (ieee80211_sn_sub a b)) = (int (unat a) - int (unat b)) mod 4096"
  using uint_sn_sub [of a b] by (simp only: uint_nat)

lemma sn_distance:
  assumes "unat sn < 4096" and "unat h = V mod 4096"
  shows "unat sn = (V + unat (ieee80211_sn_sub sn h)) mod 4096"
proof -
  have "(int V + (int (unat sn) - int V mod 4096) mod 4096) mod 4096 = int (unat sn) mod 4096"
    by (simp only: mod_add_right_eq mod_diff_right_eq) simp
  also have "\<dots> = int (unat sn)" using assms(1) by (intro mod_pos_pos_trivial) linarith+
  finally have "int ((V + unat (ieee80211_sn_sub sn h)) mod 4096) = int (unat sn)"
    by (simp only: zmod_int of_nat_add int_sn_sub assms(2) of_nat_numeral)
  then show ?thesis by (simp only: of_nat_eq_iff)
qed

lemma sn_window:
  fixes sn h n :: u16
  assumes n: "2 \<le> unat n" "unat n \<le> 64" and h: "unat h < 4096"
  defines "d \<equiv> unat (ieee80211_sn_sub sn h)"
  assumes d: "d \<le> 2048"
  shows "ieee80211_sn_less sn (h + n) \<longleftrightarrow> d < unat n"
    and "unat n \<le> d \<Longrightarrow> unat (ieee80211_sn_sub (ieee80211_sn_inc (ieee80211_sn_sub sn n)) h) = d - unat n + 1"
proof -
  let ?s = "int (unat sn)" let ?h = "int (unat h)" let ?n = "int (unat n)"
  have d': "int d = (?s - ?h) mod 4096" by (simp only: d_def int_sn_sub)
  have hn: "unat (h + n) = unat h + unat n" using n h by (subst unat_plus_simple [THEN iffD1]) (simp_all add: word_le_nat_alt unat_word_ariths)
  have e: "int (unat (ieee80211_sn_sub sn (h + n))) = (int d - ?n) mod 4096"
    unfolding int_sn_sub hn d' mod_diff_left_eq by (simp add: algebra_simps)
  have "2048 < int (unat (ieee80211_sn_sub sn (h + n))) \<longleftrightarrow> d < unat n"
  proof (cases "d < unat n")
    case True
    have "(int d - ?n) mod 4096 = (int d - ?n + 4096) mod 4096" by simp
    also have "\<dots> = int d - ?n + 4096" using True n by (intro mod_pos_pos_trivial) linarith+
    finally show ?thesis using True n d e by linarith
  next
    case False
    then have "(int d - ?n) mod 4096 = int d - ?n" using d by (intro mod_pos_pos_trivial) linarith+
    then show ?thesis using False n d e by linarith
  qed
  then have "2048 < unat (ieee80211_sn_sub sn (h + n)) \<longleftrightarrow> d < unat n" by linarith
  then show "ieee80211_sn_less sn (h + n) \<longleftrightarrow> d < unat n"
    by (simp add: ieee80211_sn_less_def word_less_nat_alt flip: ieee80211_sn_sub_def)
  assume nd: "unat n \<le> d"
  have "int (unat (ieee80211_sn_sub (ieee80211_sn_inc (ieee80211_sn_sub sn n)) h)) = ((?s - ?h) - ?n + 1) mod 4096"
    unfolding int_sn_sub unat_sn_inc zmod_int of_nat_add int_sn_sub of_nat_numeral of_nat_1 mod_diff_left_eq mod_add_left_eq
    by (simp add: algebra_simps)
  also have "\<dots> = (int d - ?n + 1) mod 4096"
    unfolding d' by (metis (no_types, opaque_lifting) add_diff_eq diff_add_eq mod_add_left_eq)
  also have "\<dots> = int (d - unat n + 1)" using nd d by (subst mod_pos_pos_trivial) linarith+
  finally show "unat (ieee80211_sn_sub (ieee80211_sn_inc (ieee80211_sn_sub sn n)) h) = d - unat n + 1"
    by (simp only: of_nat_eq_iff)
qed

lemma sn_less_distance: "ieee80211_sn_less sn h \<longleftrightarrow> 2048 < unat (ieee80211_sn_sub sn h)"
  by (simp add: ieee80211_sn_less_def word_less_nat_alt flip: ieee80211_sn_sub_def)

lemma mpdu_seq_num_bound: "mpdu_seq_num f = Inr sn \<Longrightarrow> unat sn < 4096"
proof -
  assume "mpdu_seq_num f = Inr sn"
  then obtain sc :: u16 where "sn = drop_bit 4 (sc AND IEEE80211_SCTL_SEQ)" by (auto simp: mpdu_seq_num_def elim!: rbind_InrE)
  moreover have "unat (drop_bit 4 x) < 4096" for x :: u16
    using unsigned_less [where 'a = nat, of x] by (simp add: unat_drop_bit_eq drop_bit_eq_div unat_div)
  ultimately show ?thesis by (simp only:)
qed

lemma mpdu_seq_num_deferred [simp]: "mpdu_seq_num (deferred f) = mpdu_seq_num f"
  by (simp add: mpdu_seq_num_def deferred_def)

text \<open>
  \<open>session_ok V m t\<close>: a running session (a frame at or above the start was seen) whose window starts
  at \<open>V\<close>, whose head is missing and whose timer is armed while frames are held.
\<close>

definition session_ok :: "nat \<Rightarrow> (nat \<Rightarrow> rx_frame option) \<Rightarrow> tid_ampdu_rx \<Rightarrow> bool" where
  "session_ok V m t \<longleftrightarrow> window_view V m t \<and> m V = None \<and> armed m t \<and> ra_started t \<and> \<not> auto_seq t"

text \<open>\<open>in_order V out V'\<close>: the frames of \<open>out\<close> have strictly increasing numbers from \<open>V\<close> up to below \<open>V'\<close>.\<close>

definition numbered :: "nat \<Rightarrow> rx_frame \<Rightarrow> bool" where
  "numbered v f \<longleftrightarrow> mpdu_seq_num f = Inr (of_nat (v mod 4096))"

definition in_order :: "nat \<Rightarrow> rx_frame list \<Rightarrow> nat \<Rightarrow> bool" where
  "in_order V out V' \<longleftrightarrow> V \<le> V' \<and> (\<exists>vs. sorted_wrt (<) vs \<and> set vs \<subseteq> {V..<V'} \<and> list_all2 numbered vs out)"

lemma in_order_append:
  assumes "in_order V xs V'" and "in_order V' ys V''"
  shows "in_order V (xs @ ys) V''"
proof -
  obtain us vs where u: "sorted_wrt (<) us" "set us \<subseteq> {V..<V'}" "list_all2 numbered us xs" "V \<le> V'"
    and v: "sorted_wrt (<) vs" "set vs \<subseteq> {V'..<V''}" "list_all2 numbered vs ys" "V' \<le> V''"
    using assms by (auto simp: in_order_def)
  have "sorted_wrt (<) (us @ vs)" using u(1,2) v(1,2) by (fastforce simp: sorted_wrt_append)
  moreover have "set (us @ vs) \<subseteq> {V..<V''}" using u(2,4) v(2,4) by fastforce
  moreover have "list_all2 numbered (us @ vs) (xs @ ys)" using u(3) v(3) by (rule list_all2_appendI)
  ultimately show ?thesis using u(4) v(4) unfolding in_order_def by (metis order.trans)
qed

lemma in_order_Nil: "V \<le> V' \<Longrightarrow> in_order V [] V'"
  by (auto simp: in_order_def intro!: exI [of _ "[]"])

lemma in_order_single: "numbered V f \<Longrightarrow> in_order V [f] (Suc V)"
  by (auto simp: in_order_def intro!: exI [of _ "[V]"])

lemma in_order_held:
  assumes "V \<le> V'" and "\<forall>v f. m v = Some f \<longrightarrow> frame_at v f"
  shows "in_order V (map deferred (held m V V')) V'"
  using assms(1)
proof (induction V' rule: nat_induct_at_least)
  case base
  then show ?case by (simp add: held_simps in_order_Nil)
next
  case (Suc W)
  have "in_order W (map deferred (slot (m W))) (Suc W)"
    using assms(2) by (cases "m W") (auto intro!: in_order_Nil in_order_single simp: numbered_def frame_at_def)
  then show ?case using Suc in_order_append by (auto simp: held_simps)
qed

text \<open>
  \<open>takes V m D f fr r\<close>: the operation processed the frame \<open>f\<close>. What it hands on (the output, and \<open>f\<close>
  itself when it is not consumed) is in order, the session is intact, and no frame is lost but \<open>f\<close>
  itself, and \<open>f\<close> only under the condition \<open>D\<close>.
\<close>

definition takes ::
  "nat \<Rightarrow> (nat \<Rightarrow> rx_frame option) \<Rightarrow> bool \<Rightarrow> rx_frame \<Rightarrow> rx_frame list \<Rightarrow>
     (bool \<times> tid_ampdu_rx \<times> rx_frame list) result \<Rightarrow> bool" where
  "takes V m D f fr r \<longleftrightarrow>
     (\<exists>ret t' frames' V' m' out. r = Inr (ret, t', frames') \<and> frames' @ (if ret then [] else [f]) = fr @ out \<and>
        session_ok V' m' t' \<and> in_order V out V' \<and>
        (frm_skb ` (set out \<union> ran m') = frm_skb ` insert f (ran m) \<or>
         frm_skb ` (set out \<union> ran m') = frm_skb ` ran m \<and> D))"

lemma takesI:
  assumes "r = Inr (ret, t', frames')" and "frames' @ (if ret then [] else [f]) = fr @ out" and "session_ok V' m' t'"
    and "in_order V out V'" and "frm_skb ` (set out \<union> ran m') = frm_skb ` insert f (ran m)"
  shows "takes V m D f fr r"
  using assms unfolding takes_def by blast

lemma takes_droppedI:
  assumes "r = Inr (True, t', fr @ out)" and "session_ok V' m' t'"
    and "in_order V out V'" and "frm_skb ` (set out \<union> ran m') = frm_skb ` ran m"
    and D
  shows "takes V m D f fr r"
  unfolding takes_def
  by (rule exI [of _ True], rule exI [of _ t'], rule exI [of _ "fr @ out"], rule exI [of _ V'], rule exI [of _ m'],
      rule exI [of _ out]) (use assms in simp)

lemma set_held: "set (held m V V') = {f. \<exists>v. V \<le> v \<and> v < V' \<and> m v = Some f}"
  unfolding held_def map_filter_def by force

lemma ran_held:
  assumes "dom m \<subseteq> {V..}"
  shows "set (held m V V') \<union> ran (ahead V' m) = ran m"
proof -
  have "V \<le> v" if "m v = Some f" for v f using that assms by auto
  then show ?thesis by (auto simp: set_held ran_def ahead_def split: if_split_asm) (meson not_le)
qed

lemma skbs_deferred: "frm_skb ` (set (map deferred xs) \<union> A) = frm_skb ` (set xs \<union> A)"
  by (simp add: image_Un image_image deferred_def)

lemma ring_store:
  assumes r: "ring_view V m t" and v: "V \<le> v" "v < V + unat (buf_size t)" "m v = None" and f: "frame_at v f"
    and ti: "length ti = unat (buf_size t)"
  shows "ring_view V (m(v \<mapsto> f)) (t\<lparr>reorder_buf := (reorder_buf t)[v mod unat (buf_size t) := [f]],
    reorder_time := ti, stored_mpdu_num := stored_mpdu_num t + 1\<rparr>)"
proof -
  let ?n = "unat (buf_size t)"
  note D = ring_viewD [OF r]
  have i: "v mod ?n < ?n" using D(1) by (intro mod_less_divisor) simp
  have "card (dom m) \<le> card {V..<V + ?n}" using r by (intro card_mono) (auto simp: ring_view_def)
  then have "unat (stored_mpdu_num t) \<le> 64" using D(2,8) by simp
  then have "unat (stored_mpdu_num t + 1) = card (dom (m(v \<mapsto> f)))"
    using D(7,8) v(3) by (subst unat_word_ariths) (simp add: card_insert_if domIff)
  moreover have "(reorder_buf t)[v mod ?n := [f]] ! (u mod ?n) = slot ((m(v \<mapsto> f)) u)" if u: "V \<le> u" "u < V + ?n" for u
  proof (cases "u = v")
    case True
    then show ?thesis using i D(5) by simp
  next
    case False
    then have "u mod ?n \<noteq> v mod ?n" using mod_inj_window [of u ?n v V] u v by blast
    then show ?thesis using False r u by (simp add: ring_view_def)
  qed
  ultimately show ?thesis using r v(1,2) f ti by (auto simp: ring_view_def reorder_wf_def subset_iff)
qed

lemma reorder_place_view:
  assumes w: "window_view V m t" and s: "ra_started t" "\<not> auto_seq t" "armed m t"
    and v: "V \<le> v" "v < V + unat (buf_size t)" "unat sn = v mod 4096"
    and f: "frame_at v f" "m V = None \<or> m v = None"
  shows "takes V m (\<exists>g\<in>ran m. mpdu_seq_num g = mpdu_seq_num f) f fr (reorder_place hz now sn f t fr)"
proof -
  let ?n = "unat (buf_size t)"
  have r: "ring_view V m t" using w by (simp add: window_view_def)
  note D = ring_viewD [OF r]
  have dm: "dom m \<subseteq> {V..}" using r by (auto simp: ring_view_def)
  have ix: "ring_index t sn = Inr (v mod ?n)" using v(3) D(3,4) by (simp add: ring_index_def mod_mod_cancel)
  have rd: "ieee80211_rx_reorder_ready t (v mod ?n) = Inr (m v \<noteq> None)" "arr_get (reorder_buf t) (v mod ?n) = Inr (slot (m v))"
    using ring_ready [OF r v(1,2)] by simp_all
  consider (dup) g where "m v = Some g" | (direct) "m v = None" "sn = head_seq_num t \<and> stored_mpdu_num t = 0"
    | (store) "m v = None" "\<not> (sn = head_seq_num t \<and> stored_mpdu_num t = 0)" by (cases "m v") auto
  then show ?thesis
  proof cases
    case dup
    have "frame_at v g" using r dup by (simp add: ring_view_def)
    then have g: "g \<in> ran m" "mpdu_seq_num g = mpdu_seq_num f" using dup f(1) by (auto simp: ranI frame_at_def)
    have "session_ok V m t" using w s f(2) dup by (simp add: session_ok_def)
    then show ?thesis using ix rd dup g
      by (intro takes_droppedI [where out = "[]"]) (auto simp: reorder_place_def in_order_Nil)
  next
    case direct
    have m: "m = Map.empty" using direct(2) D(9) by simp
    have "v mod 4096 = V mod 4096" using direct(2) v(3) w by (simp add: window_view_def)
    then have V: "v = V" using mod_inj_window [of v 4096 V V] v(1,2) D(2) by simp
    let ?t = "t\<lparr>head_seq_num := ieee80211_sn_inc (head_seq_num t)\<rparr>"
    have "ring_view V Map.empty ?t" using r m by (simp add: ring_view_def reorder_wf_def)
    then have "ring_view (Suc V) Map.empty ?t" using ring_advance [of V Map.empty ?t "Suc V"] D(1) by simp
    then have "session_ok (Suc V) Map.empty ?t" using s m w
      by (simp add: session_ok_def window_view_def armed_def unat_sn_inc mod_Suc_eq)
    moreover have "in_order V [f] (Suc V)" using f(1) V by (intro in_order_single) (simp add: numbered_def frame_at_def)
    ultimately show ?thesis using ix rd direct f(1) m
      by (intro takesI [where out = "[f]" and ret = False]) (auto simp: reorder_place_def Let_def frame_at_def ran_def)
  next
    case store
    let ?t = "t\<lparr>reorder_buf := (reorder_buf t)[v mod ?n := [f]], reorder_time := (reorder_time t)[v mod ?n := now],
      stored_mpdu_num := stored_mpdu_num t + 1\<rparr>"
    have "window_view V (m(v \<mapsto> f)) ?t"
      using ring_store [OF r v(1,2) store(1) f(1)] w D(6) by (simp add: window_view_def)
    then obtain V' where "gives_up V (m(v \<mapsto> f)) ?t fr (ieee80211_sta_reorder_release hz now ?t fr) V'"
      using reorder_release_view by blast
    then obtain t' where t': "ieee80211_sta_reorder_release hz now ?t fr = Inr (t', fr @ map deferred (held (m(v \<mapsto> f)) V V'))"
      "V \<le> V'" "window_view V' (ahead V' (m(v \<mapsto> f))) t'" "kept ?t t'" "(m(v \<mapsto> f)) V' = None" "armed (ahead V' (m(v \<mapsto> f))) t'"
      by (auto simp: gives_up_def)
    have ok: "session_ok V' (ahead V' (m(v \<mapsto> f))) t'" using t' s(1,2) by (simp add: session_ok_def kept_def ahead_def)
    have ord: "in_order V (map deferred (held (m(v \<mapsto> f)) V V')) V'"
      using t'(2) r f(1) by (intro in_order_held) (auto simp: ring_view_def)
    have "set (held (m(v \<mapsto> f)) V V') \<union> ran (ahead V' (m(v \<mapsto> f))) = insert f (ran m)"
      using ran_held [of "m(v \<mapsto> f)" V V'] dm v(1) store(1) by simp
    then have skbs: "frm_skb ` (set (map deferred (held (m(v \<mapsto> f)) V V')) \<union> ran (ahead V' (m(v \<mapsto> f)))) = frm_skb ` insert f (ran m)"
      unfolding skbs_deferred by (rule arg_cong)
    have "reorder_place hz now sn f t fr = Inr (True, t', fr @ map deferred (held (m(v \<mapsto> f)) V V'))"
      unfolding reorder_place_def using ix rd store f(1) t'(1) D(1,6) by (auto simp: Let_def frame_at_def)
    then show ?thesis by (rule takesI [OF _ _ ok ord skbs]) simp
  qed
qed

lemma takes_after:
  assumes "takes V1 (ahead V1 m) D f (fr @ map deferred (held m V V1)) r" and "V \<le> V1" and "ring_view V m t"
    and "D \<Longrightarrow> D'"
  shows "takes V m D' f fr r"
proof -
  let ?h = "map deferred (held m V V1)"
  obtain ret t' frames' V' m' out where
    R: "r = Inr (ret, t', frames')" "frames' @ (if ret then [] else [f]) = (fr @ ?h) @ out" "session_ok V' m' t'" "in_order V1 out V'"
    and skbs: "frm_skb ` (set out \<union> ran m') = frm_skb ` insert f (ran (ahead V1 m)) \<or>
      frm_skb ` (set out \<union> ran m') = frm_skb ` ran (ahead V1 m) \<and> D"
    using assms(1) unfolding takes_def by (elim exE conjE) (rule that)
  have fs: "\<forall>v f. m v = Some f \<longrightarrow> frame_at v f" and dm: "dom m \<subseteq> {V..}" using assms(3) by (auto simp: ring_view_def)
  have ord: "in_order V (?h @ out) V'" using in_order_append [OF in_order_held [OF assms(2) fs] R(4)] .
  have all: "frm_skb ` (set (?h @ out) \<union> ran m') = frm_skb ` set (held m V V1) \<union> frm_skb ` (set out \<union> ran m')"
    using skbs_deferred [of "held m V V1" "set out \<union> ran m'"] by (simp add: Un_assoc image_Un)
  have both: "frm_skb ` set (held m V V1) \<union> frm_skb ` ran (ahead V1 m) = frm_skb ` ran m"
    by (simp only: ran_held [OF dm] flip: image_Un)
  have "frm_skb ` (set (?h @ out) \<union> ran m') = frm_skb ` insert f (ran m) \<or>
      frm_skb ` (set (?h @ out) \<union> ran m') = frm_skb ` ran m \<and> D'"
  proof (cases "frm_skb ` (set out \<union> ran m') = frm_skb ` insert f (ran (ahead V1 m))")
    case True
    show ?thesis unfolding all True image_insert Un_insert_right both by (rule disjI1) (rule refl)
  next
    case False
    with skbs have e: "frm_skb ` (set out \<union> ran m') = frm_skb ` ran (ahead V1 m)" D by blast+
    show ?thesis unfolding all e(1) both using assms(4) e(2) by blast
  qed
  moreover have "frames' @ (if ret then [] else [f]) = fr @ (?h @ out)" using R(2) by (simp only: append_assoc)
  ultimately show ?thesis unfolding takes_def
    by (intro exI conjI) (rule R(1), assumption, rule R(3), rule ord, assumption)
qed

lemma manage_running:
  assumes "mpdu_seq_num f = Inr sn" and "ra_started t" and "\<not> auto_seq t"
  shows "ieee80211_sta_manage_reorder_buf hz now t f fr =
    (if ieee80211_sn_less sn (head_seq_num t) then Inr (True, t, fr)
     else rbind (if \<not> ieee80211_sn_less sn (head_seq_num t + buf_size t)
                 then ieee80211_release_reorder_frames t (ieee80211_sn_inc (ieee80211_sn_sub sn (buf_size t))) fr
                 else Inr (t, fr))
            (\<lambda>(t, fr). reorder_place hz now sn f t fr))"
proof -
  have "t\<lparr>ra_started := True\<rparr> = t" using assms(2) by (cases t) simp
  then show ?thesis
    unfolding ieee80211_sta_manage_reorder_buf_def Let_def by (simp only: assms rbind_simps if_False simp_thms)
qed

lemma manage_reorder_buf_takes:
  assumes ok: "session_ok V m t" and f: "mpdu_seq_num f = Inr sn" "frm_flag f AND RX_FLAG_AMSDU_MORE = 0"
  shows "takes V m (ieee80211_sn_less sn (head_seq_num t) \<or> (\<exists>g\<in>ran m. mpdu_seq_num g = mpdu_seq_num f)) f fr
    (ieee80211_sta_manage_reorder_buf hz now t f fr)"
proof -
  have w: "window_view V m t" and r: "ring_view V m t" using ok by (simp_all add: session_ok_def window_view_def)
  have s: "ra_started t" "\<not> auto_seq t" using ok by (simp_all add: session_ok_def)
  note run = manage_running [OF f(1) s]
  note D = ring_viewD [OF r]
  let ?h = "head_seq_num t" let ?n = "unat (buf_size t)" let ?d = "unat (ieee80211_sn_sub sn ?h)"
  have h: "unat ?h = V mod 4096" using w by (simp add: window_view_def)
  show ?thesis
  proof (cases "ieee80211_sn_less sn ?h")
    case True
    then show ?thesis using ok s f(1)
      by (intro takes_droppedI [where out = "[]"]) (auto simp: run in_order_Nil)
  next
    case False
    then have d: "?d \<le> 2048" by (simp add: sn_less_distance)
    have sn: "unat sn = (V + ?d) mod 4096" using sn_distance [OF mpdu_seq_num_bound [OF f(1)] h] .
    have fa: "frame_at (V + ?d) f" using f by (simp add: frame_at_def flip: sn)
    have win: "ieee80211_sn_less sn (?h + buf_size t) \<longleftrightarrow> ?d < ?n"
      using sn_window(1) [of "buf_size t" ?h sn] D(1,2) h d by simp
    show ?thesis
    proof (cases "?d < ?n")
      case True
      have "takes V m (\<exists>g\<in>ran m. mpdu_seq_num g = mpdu_seq_num f) f fr (reorder_place hz now sn f t fr)"
        using ok True sn fa by (intro reorder_place_view [OF w]) (auto simp: session_ok_def)
      then have "takes V m (ieee80211_sn_less sn ?h \<or> (\<exists>g\<in>ran m. mpdu_seq_num g = mpdu_seq_num f)) f fr (reorder_place hz now sn f t fr)"
        unfolding takes_def by blast
      then show ?thesis using False win True by (simp add: run)
    next
      case far: False
      let ?k = "?d - ?n + 1" let ?V1 = "V + ?k"
      have k: "unat (ieee80211_sn_sub (ieee80211_sn_inc (ieee80211_sn_sub sn (buf_size t))) ?h) = ?k" "?k \<le> 2047"
        using sn_window(2) [of "buf_size t" ?h sn] D(1,2) h d far by simp_all
      obtain t1 where t1: "ieee80211_release_reorder_frames t (ieee80211_sn_inc (ieee80211_sn_sub sn (buf_size t))) fr =
          Inr (t1, fr @ map deferred (held m V ?V1))" "window_view ?V1 (ahead ?V1 m) t1" "kept t t1" "reorder_timer t1 = reorder_timer t"
        using release_frames_view [OF w k(2,1)] by blast
      have "ahead ?V1 m (V + ?d) = None" using r far by (auto simp: ahead_def ring_view_def subset_iff domIff)
      moreover have "armed (ahead ?V1 m) t1" using ok t1(3,4) by (auto simp: session_ok_def armed_def kept_def ahead_def)
      moreover have "buf_size t1 = buf_size t" "ra_started t1" "\<not> auto_seq t1" using t1(3) s by (simp_all add: kept_def)
      ultimately have tk: "takes ?V1 (ahead ?V1 m) (\<exists>g\<in>ran (ahead ?V1 m). mpdu_seq_num g = mpdu_seq_num f) f
          (fr @ map deferred (held m V ?V1)) (reorder_place hz now sn f t1 (fr @ map deferred (held m V ?V1)))"
        using sn fa far D(1) by (intro reorder_place_view [OF t1(2), where v = "V + ?d"]) auto
      have sub: "(\<exists>g\<in>ran (ahead ?V1 m). mpdu_seq_num g = mpdu_seq_num f) \<Longrightarrow> (\<exists>g\<in>ran m. mpdu_seq_num g = mpdu_seq_num f)"
        by (auto simp: ran_def ahead_def split: if_split_asm)
      have "takes V m (ieee80211_sn_less sn ?h \<or> (\<exists>g\<in>ran m. mpdu_seq_num g = mpdu_seq_num f)) f fr
          (reorder_place hz now sn f t1 (fr @ map deferred (held m V ?V1)))"
        by (rule takes_after [OF tk _ r]) (use sub in auto)
      then show ?thesis using False win far t1(1) by (simp add: run)
    qed
  qed
qed

end
