(* ===== verification/Defrag.thy ===== *)
theory Defrag
  imports Cipher_Select Reorder
begin

text \<open>
  Reassembly of fragmented frames on reception (\<^verbatim>\<open>net/mac80211/rx.c\<close>): the table of four partial frames of an
  interface and the handler that files, checks and joins fragments. Time is an argument, as is
  whether \<open>pskb_expand_head\<close> finds memory.
\<close>

section \<open>The reassembly table\<close>

abbreviation (input) IEEE80211_FRAGMENT_MAX :: nat where "IEEE80211_FRAGMENT_MAX \<equiv> 4"
abbreviation (input) IEEE80211_CCMP_PN_LEN :: nat where "IEEE80211_CCMP_PN_LEN \<equiv> 6"

definition hdr_addr2 :: "u8 list \<Rightarrow> mac result" where
  "hdr_addr2 bs = mac_of_bytes (drop 10 bs)"

definition put_frag :: "nat \<Rightarrow> ieee80211_fragment_entry \<Rightarrow> ieee80211_sub_if_data \<Rightarrow> ieee80211_sub_if_data" where
  "put_frag i e sd = sd\<lparr>fragments := (fragments sd)[i := e]\<rparr>"

text \<open>The result is the index of the entry and the interface. An entry in use is overwritten.\<close>

definition ieee80211_reassemble_add ::
  "u64 \<Rightarrow> u16 \<Rightarrow> u16 \<Rightarrow> nat \<Rightarrow> frag_skb \<Rightarrow> ieee80211_sub_if_data \<Rightarrow> (nat \<times> ieee80211_sub_if_data) result" where
  "ieee80211_reassemble_add now frag seq rx_queue skb sdata =
     (let idx = fragment_next sdata;
          sdata = sdata\<lparr>fragment_next := (if IEEE80211_FRAGMENT_MAX \<le> idx + 1 then 0 else idx + 1)\<rparr>
      in rbind (arr_get (fragments sdata) idx) (\<lambda>entry.
         Inr (idx, put_frag idx
           (entry\<lparr>frag_skb_list := [skb], first_frag_time := now, frag_seq := seq, frag_rx_queue := rx_queue,
                  last_frag := frag, check_sequential_pn := False, extra_len := 0\<rparr>) sdata)))"

text \<open>
  The scan of \<open>ieee80211_reassemble_find\<close>, with \<open>n\<close> rounds left, from the newest entry back. \<open>bs\<close> are the bytes of the
  received frame. An entry that fits but is older than two seconds is emptied.
\<close>

fun reassemble_scan ::
  "nat \<Rightarrow> u64 \<Rightarrow> u16 \<Rightarrow> u16 \<Rightarrow> nat \<Rightarrow> u8 list \<Rightarrow> nat \<Rightarrow> nat \<Rightarrow> ieee80211_sub_if_data \<Rightarrow>
     (nat option \<times> ieee80211_sub_if_data) result" where
  "reassemble_scan hz now frag seq rx_queue bs 0 idx sdata = Inr (None, sdata)"
| "reassemble_scan hz now frag seq rx_queue bs (Suc n) idx sdata =
     (let idx = (if idx = 0 then IEEE80211_FRAGMENT_MAX - 1 else idx - 1) in
      rbind (arr_get (fragments sdata) idx) (\<lambda>entry.
      case frag_skb_list entry of
        [] \<Rightarrow> reassemble_scan hz now frag seq rx_queue bs n idx sdata
      | (f_skb, _) # _ \<Rightarrow>
          if frag_seq entry \<noteq> seq \<or> frag_rx_queue entry \<noteq> rx_queue \<or> last_frag entry + 1 \<noteq> frag
          then reassemble_scan hz now frag seq rx_queue bs n idx sdata
          else
            rbind (hdr_fc bs) (\<lambda>fc. rbind (hdr_fc (skb_data f_skb)) (\<lambda>f_fc.
            rbind (hdr_addr1 bs) (\<lambda>a1. rbind (hdr_addr1 (skb_data f_skb)) (\<lambda>f_a1.
            rbind (hdr_addr2 bs) (\<lambda>a2. rbind (hdr_addr2 (skb_data f_skb)) (\<lambda>f_a2.
            if (fc XOR f_fc) AND IEEE80211_FCTL_FTYPE \<noteq> 0 \<or> a1 \<noteq> f_a1 \<or> a2 \<noteq> f_a2
            then reassemble_scan hz now frag seq rx_queue bs n idx sdata
            else if time_after now (first_frag_time entry + of_nat (2 * hz))
            then reassemble_scan hz now frag seq rx_queue bs n idx (put_frag idx (entry\<lparr>frag_skb_list := []\<rparr>) sdata)
            else Inr (Some idx, sdata)))))))))"

definition ieee80211_reassemble_find ::
  "nat \<Rightarrow> u64 \<Rightarrow> u16 \<Rightarrow> u16 \<Rightarrow> nat \<Rightarrow> u8 list \<Rightarrow> ieee80211_sub_if_data \<Rightarrow>
     (nat option \<times> ieee80211_sub_if_data) result" where
  "ieee80211_reassemble_find hz now frag seq rx_queue bs sdata =
     reassemble_scan hz now frag seq rx_queue bs IEEE80211_FRAGMENT_MAX (fragment_next sdata) sdata"

section \<open>The handler\<close>

text \<open>The increment of a big-endian packet number, from the last byte on.\<close>

fun pn_inc_from :: "nat \<Rightarrow> u8 list \<Rightarrow> u8 list" where
  "pn_inc_from 0 pn = pn"
| "pn_inc_from (Suc i) pn =
     (let pn = pn[i := pn ! i + 1] in if pn ! i \<noteq> 0 then pn else pn_inc_from i pn)"

definition pn_next :: "u8 list \<Rightarrow> u8 list" where
  "pn_next pn = pn_inc_from IEEE80211_CCMP_PN_LEN pn"

text \<open>\<open>skb_put_data\<close> and the loop that appends the later fragments to the first one.\<close>

definition skb_put_data :: "u8 list \<Rightarrow> sk_buff \<Rightarrow> sk_buff result" where
  "skb_put_data d skb =
     (let off = skb_len skb in
      rbind (skb_put (length d) skb) (\<lambda>skb.
      rbind (buf_write (skb_data skb) off d) (\<lambda>bs. Inr (skb\<lparr>skb_data := bs\<rparr>))))"

fun append_frags :: "frag_skb list \<Rightarrow> sk_buff \<Rightarrow> sk_buff result" where
  "append_frags [] skb = Inr skb"
| "append_frags ((f, _) # rest) skb = rbind (skb_put_data (frame_bytes f) skb) (append_frags rest)"

definition rx_packet :: "ieee80211_rx_data \<Rightarrow> world \<Rightarrow> world result" where
  "rx_packet rx w =
     (case rx_sta rx of
        None \<Rightarrow> Inr w
      | Some p \<Rightarrow> rbind (deref (stas w) p) (\<lambda>s. Inr (put_sta p (s\<lparr>rx_packets := rx_packets s + 1\<rparr>) w)))"

text \<open>
  The check of a fragment's packet number against its entry: \<open>None\<close> drops the fragment, otherwise the
  entry with the number recorded.
\<close>

definition frag_check_pn ::
  "ieee80211_rx_data \<Rightarrow> world \<Rightarrow> ieee80211_fragment_entry \<Rightarrow> ieee80211_fragment_entry option result" where
  "frag_check_pn rx w entry =
     (if \<not> check_sequential_pn entry then Inr (Some entry)
      else
        rbind (rx_key_of rx w) (\<lambda>key.
        case key of
          None \<Rightarrow> Inr None
        | Some k \<Rightarrow>
            if \<not> ccmp_gcmp_cipher (conf_cipher k) then Inr None
            else
              let pn = pn_next (frag_last_pn entry) in
              rbind (arr_get (key_rx_pn k) (security_idx rx)) (\<lambda>rpn.
              if pn \<noteq> rpn then Inr None else Inr (Some (entry\<lparr>frag_last_pn := pn\<rparr>)))))"

definition defrag_first ::
  "u64 \<Rightarrow> u16 \<Rightarrow> u16 \<Rightarrow> u16 \<Rightarrow> ieee80211_rx_data \<Rightarrow> sdata_ptr \<Rightarrow> ieee80211_sub_if_data \<Rightarrow> world \<Rightarrow>
     (ieee80211_rx_result \<times> ieee80211_rx_data \<times> world) result" where
  "defrag_first now fc frag seq rx sp sdata w =
     rbind (ieee80211_reassemble_add now frag seq (seqno_idx rx)
              (rx_skb rx, rx_status_flag rx, rx_status_rx_flags rx) sdata) (\<lambda>(idx, sdata).
     rbind (rx_key_of rx w) (\<lambda>key.
     rbind (case key of
              None \<Rightarrow> Inr sdata
            | Some k \<Rightarrow>
                if ccmp_gcmp_cipher (conf_cipher k) \<and> ieee80211_has_protected fc then
                  rbind (arr_get (key_rx_pn k) (security_idx rx)) (\<lambda>pn.
                  Inr (put_frag idx ((fragments sdata ! idx)\<lparr>check_sequential_pn := True, frag_last_pn := pn\<rparr>) sdata))
                else Inr sdata) (\<lambda>sdata.
     Inr (RX_QUEUED, rx, put_sdata sp sdata w))))"

text \<open>A fragment that passed the checks joins the entry \<open>idx\<close>; the last one completes the frame.\<close>

definition defrag_append ::
  "bool \<Rightarrow> u16 \<Rightarrow> u16 \<Rightarrow> ieee80211_rx_data \<Rightarrow> sdata_ptr \<Rightarrow> ieee80211_sub_if_data \<Rightarrow> nat \<Rightarrow> ieee80211_fragment_entry \<Rightarrow> world \<Rightarrow>
     (ieee80211_rx_result \<times> ieee80211_rx_data \<times> world) result" where
  "defrag_append expand fc frag rx sp sdata idx entry w =
     (let skb = skb_pull (ieee80211_hdrlen fc) (rx_skb rx);
          entry = entry\<lparr>frag_skb_list := frag_skb_list entry @ [(skb, rx_status_flag rx, rx_status_rx_flags rx)],
                        last_frag := frag, extra_len := extra_len entry + skb_len skb\<rparr>
      in if ieee80211_has_morefrags fc
         then Inr (RX_QUEUED, rx, put_sdata sp (put_frag idx entry sdata) w)
         else
           (case frag_skb_list entry of
              [] \<Rightarrow> Inl NullDeref
            | (first, flag, rx_flags) # rest \<Rightarrow>
                let short = (skb_tailroom first < extra_len entry);
                    w = put_sdata sp (put_frag idx (entry\<lparr>frag_skb_list := []\<rparr>) sdata) w;
                    rx = rx\<lparr>rx_skb := first, rx_status_flag := flag, rx_status_rx_flags := rx_flags\<rparr>
                in if short \<and> \<not> expand then Inr (RX_DROP_UNUSABLE, rx, w)
                   else
                     let first = (if short then first\<lparr>skb_data := skb_data first @ replicate (extra_len entry) 0\<rparr> else first)
                     in rbind (append_frags rest first) (\<lambda>skb.
                        rbind (rx_packet rx w) (\<lambda>w.
                        Inr (RX_CONTINUE, rx\<lparr>rx_skb := skb\<rparr>, w)))))"

text \<open>
  A buffer handed to the table is no longer the handler's: after \<open>RX_QUEUED\<close> the \<open>rx_skb\<close> of the result is not used. The
  joined frame has the receive status of its first fragment, whose buffer it is.
\<close>

definition ieee80211_rx_h_defragment ::
  "nat \<Rightarrow> u64 \<Rightarrow> bool \<Rightarrow> ieee80211_rx_data \<Rightarrow> world \<Rightarrow> (ieee80211_rx_result \<times> ieee80211_rx_data \<times> world) result" where
  "ieee80211_rx_h_defragment hz now expand rx w =
     (let bs = skb_data (rx_skb rx) in
      rbind (hdr_fc bs) (\<lambda>fc.
      if ieee80211_is_ctl fc then Inr (RX_CONTINUE, rx, w)
      else
        rbind (hdr_seq_ctrl bs) (\<lambda>sc.
        rbind (hdr_addr1 bs) (\<lambda>a1.
        let frag = sc AND IEEE80211_SCTL_FRAG in
        if is_multicast_ether_addr a1 \<or> \<not> ieee80211_has_morefrags fc \<and> frag = 0
        then rbind (rx_packet rx w) (\<lambda>w. Inr (RX_CONTINUE, rx, w))
        else
          let seq = drop_bit 4 (sc AND IEEE80211_SCTL_SEQ) in
          case rx_sdata rx of
            None \<Rightarrow> Inl NullDeref
          | Some sp \<Rightarrow>
              rbind (deref (sdatas w) sp) (\<lambda>sdata.
              if frag = 0 then defrag_first now fc frag seq rx sp sdata w
              else
                rbind (ieee80211_reassemble_find hz now frag seq (seqno_idx rx) bs sdata) (\<lambda>(found, sdata).
                let w = put_sdata sp sdata w in
                case found of
                  None \<Rightarrow> Inr (RX_DROP_MONITOR, rx, w)
                | Some idx \<Rightarrow>
                    rbind (frag_check_pn rx w (fragments sdata ! idx)) (\<lambda>checked.
                    case checked of
                      None \<Rightarrow> Inr (RX_DROP_UNUSABLE, rx, w)
                    | Some entry \<Rightarrow>
                        defrag_append expand fc frag rx sp sdata idx entry w)))))))"

section \<open>Joining\<close>

definition skb_ok :: "sk_buff \<Rightarrow> bool" where
  "skb_ok skb \<longleftrightarrow> skb_len skb \<le> length (skb_data skb)"

abbreviation frags_len :: "frag_skb list \<Rightarrow> nat" where
  "frags_len fs \<equiv> sum_list (map (\<lambda>f. skb_len (fst f)) fs)"

abbreviation frags_bytes :: "frag_skb list \<Rightarrow> u8 list" where
  "frags_bytes fs \<equiv> concat (map (\<lambda>f. frame_bytes (fst f)) fs)"

lemma length_frame_bytes [simp]: "skb_ok skb \<Longrightarrow> length (frame_bytes skb) = skb_len skb"
  by (simp add: frame_bytes_def skb_ok_def)

lemma skb_put_data_ok:
  assumes "skb_ok skb" and "length d \<le> skb_tailroom skb"
  shows "\<exists>bs. skb_put_data d skb = Inr (skb\<lparr>skb_len := skb_len skb + length d, skb_data := bs\<rparr>) \<and>
    length bs = length (skb_data skb) \<and> take (skb_len skb + length d) bs = frame_bytes skb @ d"
proof -
  let ?bs = "take (skb_len skb) (skb_data skb) @ d @ drop (skb_len skb + length d) (skb_data skb)"
  have "skb_put_data d skb = Inr (skb\<lparr>skb_len := skb_len skb + length d, skb_data := ?bs\<rparr>)"
    using assms by (simp add: skb_put_data_def Let_def skb_put_def skb_tailroom_def skb_ok_def buf_write_def)
  moreover have "length ?bs = length (skb_data skb)" "take (skb_len skb + length d) ?bs = frame_bytes skb @ d"
    using assms by (auto simp: skb_ok_def skb_tailroom_def frame_bytes_def min_def)
  ultimately show ?thesis by blast
qed

lemma append_frags_ok:
  assumes "skb_ok skb" and "\<forall>f\<in>set fs. skb_ok (fst f)" and "frags_len fs \<le> skb_tailroom skb"
  shows "\<exists>skb'. append_frags fs skb = Inr skb' \<and> skb_ok skb' \<and> frame_bytes skb' = frame_bytes skb @ frags_bytes fs"
  using assms
proof (induction fs arbitrary: skb)
  case (Cons f fs)
  obtain g c where f: "f = (g, c)" by (cases f)
  have g: "length (frame_bytes g) = skb_len g" "skb_len g \<le> skb_tailroom skb" using Cons.prems f by auto
  then obtain bs where bs: "skb_put_data (frame_bytes g) skb = Inr (skb\<lparr>skb_len := skb_len skb + skb_len g, skb_data := bs\<rparr>)"
      "length bs = length (skb_data skb)" "take (skb_len skb + skb_len g) bs = frame_bytes skb @ frame_bytes g"
    using skb_put_data_ok [OF Cons.prems(1), of "frame_bytes g"] by auto
  let ?skb = "skb\<lparr>skb_len := skb_len skb + skb_len g, skb_data := bs\<rparr>"
  have "skb_ok ?skb" "frags_len fs \<le> skb_tailroom ?skb" "frame_bytes ?skb = frame_bytes skb @ frame_bytes g"
    using Cons.prems bs f by (auto simp: skb_ok_def skb_tailroom_def frame_bytes_def)
  then show ?case using Cons.IH [of ?skb] Cons.prems(2) bs(1) f by auto
qed simp

lemma frame_bytes_pull:
  assumes "n \<le> skb_len skb"
  shows "frame_bytes (skb_pull n skb) = drop n (frame_bytes skb)" "skb_len (skb_pull n skb) = skb_len skb - n"
    "skb_ok skb \<Longrightarrow> skb_ok (skb_pull n skb)"
  using assms by (simp_all add: frame_bytes_def skb_pull_def skb_ok_def drop_take)

section \<open>A frame received fragment by fragment\<close>

text \<open>
  What the fragments of one frame have in common, and fragment \<open>k\<close> of it as it reaches the handler;
  \<open>follows\<close> says whether it announces another one.
\<close>

record frame_id =
  id_sdata :: sdata_ptr
  id_hdrlen :: nat
  id_addr1 :: mac
  id_addr2 :: mac
  id_type :: u16
  id_seq :: u16
  id_queue :: nat

definition is_fragment :: "frame_id \<Rightarrow> nat \<Rightarrow> bool \<Rightarrow> ieee80211_rx_data \<Rightarrow> bool" where
  "is_fragment i k follows rx \<longleftrightarrow>
     (\<exists>fc sc. let bs = skb_data (rx_skb rx) in
        hdr_fc bs = Inr fc \<and> \<not> ieee80211_is_ctl fc \<and> fc AND IEEE80211_FCTL_FTYPE = id_type i \<and>
        ieee80211_has_morefrags fc = follows \<and> ieee80211_hdrlen fc = id_hdrlen i \<and>
        hdr_seq_ctrl bs = Inr sc \<and> sc AND IEEE80211_SCTL_FRAG = of_nat k \<and> drop_bit 4 (sc AND IEEE80211_SCTL_SEQ) = id_seq i \<and>
        hdr_addr1 bs = Inr (id_addr1 i) \<and> hdr_addr2 bs = Inr (id_addr2 i)) \<and>
     \<not> is_multicast_ether_addr (id_addr1 i) \<and>
     id_hdrlen i \<le> skb_len (rx_skb rx) \<and> skb_ok (rx_skb rx) \<and>
     seqno_idx rx = id_queue i \<and> rx_sdata rx = Some (id_sdata i)"

text \<open>The table holds, as its newest entry, the first fragments of the frame, up to number \<open>k\<close>;
  \<open>pn\<close> is the packet number of the last one if the frame is protected by CCMP or GCMP.\<close>

definition newest :: "ieee80211_sub_if_data \<Rightarrow> nat" where
  "newest sd = (if fragment_next sd = 0 then IEEE80211_FRAGMENT_MAX - 1 else fragment_next sd - 1)"

definition table_ok :: "ieee80211_sub_if_data \<Rightarrow> bool" where
  "table_ok sd \<longleftrightarrow> length (fragments sd) = IEEE80211_FRAGMENT_MAX \<and> fragment_next sd < IEEE80211_FRAGMENT_MAX"

definition holds :: "frame_id \<Rightarrow> nat \<Rightarrow> u8 list option \<Rightarrow> u64 \<Rightarrow> frag_skb \<Rightarrow> frag_skb list \<Rightarrow> world \<Rightarrow> bool" where
  "holds i k pn t first rest w \<longleftrightarrow>
     (\<exists>sd e. sdatas w (id_sdata i) = Some sd \<and> table_ok sd \<and> fragments sd ! newest sd = e \<and>
        frag_skb_list e = first # rest \<and> first_frag_time e = t \<and> frag_seq e = id_seq i \<and> frag_rx_queue e = id_queue i \<and>
        last_frag e = of_nat k \<and> pn = (if check_sequential_pn e then Some (frag_last_pn e) else None) \<and> extra_len e = frags_len rest \<and>
        (\<exists>fc. hdr_fc (skb_data (fst first)) = Inr fc \<and> fc AND IEEE80211_FCTL_FTYPE = id_type i) \<and>
        hdr_addr1 (skb_data (fst first)) = Inr (id_addr1 i) \<and> hdr_addr2 (skb_data (fst first)) = Inr (id_addr2 i) \<and>
        skb_ok (fst first) \<and> (\<forall>f\<in>set rest. skb_ok (fst f)))"

lemma newest_less: "table_ok sd \<Longrightarrow> newest sd < length (fragments sd)"
  by (auto simp: newest_def table_ok_def)

lemma put_frag_newest:
  assumes "table_ok sd"
  shows "table_ok (put_frag (newest sd) e sd)" "newest (put_frag j e sd) = newest sd"
    "fragments (put_frag (newest sd) e sd) ! newest sd = e"
  using assms newest_less [OF assms] by (auto simp: put_frag_def table_ok_def newest_def)

lemma type_xor: "(a XOR b) AND m = 0 \<longleftrightarrow> a AND m = b AND m" for a b m :: u16
  by (auto simp: bit_eq_iff bit_simps)

text \<open>The scan starts with the newest entry, so the frame just begun is found at once.\<close>

lemma find_newest:
  assumes "holds i k pn t first rest w" "sdatas w (id_sdata i) = Some sd" "is_fragment i (Suc k) follows rx"
    and "\<not> time_after now (t + of_nat (2 * hz))"
  shows "ieee80211_reassemble_find hz now (of_nat (Suc k)) (id_seq i) (id_queue i) (skb_data (rx_skb rx)) sd =
    Inr (Some (newest sd), sd)"
proof -
  from assms(3) obtain fc where "hdr_fc (skb_data (rx_skb rx)) = Inr fc" "fc AND IEEE80211_FCTL_FTYPE = id_type i"
      "hdr_addr1 (skb_data (rx_skb rx)) = Inr (id_addr1 i)" "hdr_addr2 (skb_data (rx_skb rx)) = Inr (id_addr2 i)"
    by (auto simp: is_fragment_def Let_def)
  then show ?thesis
    using assms(1,2,4) newest_less [of sd]
    by (cases first) (auto simp: holds_def ieee80211_reassemble_find_def numeral_eq_Suc newest_def type_xor add.commute)
qed

lemma is_fragmentE:
  assumes "is_fragment i k follows rx"
  obtains fc sc where "hdr_fc (skb_data (rx_skb rx)) = Inr fc" "\<not> ieee80211_is_ctl fc" "fc AND IEEE80211_FCTL_FTYPE = id_type i"
    "ieee80211_has_morefrags fc = follows" "ieee80211_hdrlen fc = id_hdrlen i"
    "hdr_seq_ctrl (skb_data (rx_skb rx)) = Inr sc" "sc AND IEEE80211_SCTL_FRAG = of_nat k"
    "drop_bit 4 (sc AND IEEE80211_SCTL_SEQ) = id_seq i"
    "hdr_addr1 (skb_data (rx_skb rx)) = Inr (id_addr1 i)" "hdr_addr2 (skb_data (rx_skb rx)) = Inr (id_addr2 i)"
    "\<not> is_multicast_ether_addr (id_addr1 i)" "id_hdrlen i \<le> skb_len (rx_skb rx)" "skb_ok (rx_skb rx)"
    "seqno_idx rx = id_queue i" "rx_sdata rx = Some (id_sdata i)"
  using assms by (auto simp: is_fragment_def Let_def)

text \<open>The packet number of a received fragment is the next one of the frame.\<close>

definition pn_accepts :: "u8 list option \<Rightarrow> ieee80211_rx_data \<Rightarrow> world \<Rightarrow> bool" where
  "pn_accepts pn rx w \<longleftrightarrow>
     (case pn of None \<Rightarrow> True
      | Some p \<Rightarrow> \<exists>kp key. rx_key rx = Some kp \<and> keys w kp = Some key \<and> ccmp_gcmp_cipher (conf_cipher key) \<and>
          security_idx rx < length (key_rx_pn key) \<and> key_rx_pn key ! security_idx rx = pn_next p)"

lemma frag_check_pn_accepts:
  assumes "pn = (if check_sequential_pn e then Some (frag_last_pn e) else None)" and "pn_accepts pn rx w"
  shows "frag_check_pn rx w e = Inr (Some (case pn of None \<Rightarrow> e | Some p \<Rightarrow> e\<lparr>frag_last_pn := pn_next p\<rparr>))"
  using assms by (auto simp: frag_check_pn_def pn_accepts_def rx_key_of_def)

lemma key_none [simp]: "rx_key rx = None \<Longrightarrow> rx_key_of rx w = Inr None"
  by (simp add: rx_key_of_def)

abbreviation rx_frag :: "ieee80211_rx_data \<Rightarrow> frag_skb" where
  "rx_frag rx \<equiv> (rx_skb rx, rx_status_flag rx, rx_status_rx_flags rx)"

lemma defrag_first_step:
  assumes "is_fragment i 0 True rx" and "sdatas w (id_sdata i) = Some sd" and "table_ok sd" and key: "rx_key rx = None"
  shows "\<exists>w'. ieee80211_rx_h_defragment hz now expand rx w = Inr (RX_QUEUED, rx, w') \<and>
    holds i 0 None now (rx_frag rx) [] w' \<and> stas w' = stas w"
proof -
  obtain fc sc where f: "hdr_fc (skb_data (rx_skb rx)) = Inr fc" "\<not> ieee80211_is_ctl fc" "fc AND IEEE80211_FCTL_FTYPE = id_type i"
    "ieee80211_has_morefrags fc = True" "hdr_seq_ctrl (skb_data (rx_skb rx)) = Inr sc" "sc AND IEEE80211_SCTL_FRAG = of_nat 0"
    "drop_bit 4 (sc AND IEEE80211_SCTL_SEQ) = id_seq i"
    "hdr_addr1 (skb_data (rx_skb rx)) = Inr (id_addr1 i)" "hdr_addr2 (skb_data (rx_skb rx)) = Inr (id_addr2 i)"
    "\<not> is_multicast_ether_addr (id_addr1 i)" "skb_ok (rx_skb rx)"
    "seqno_idx rx = id_queue i" "rx_sdata rx = Some (id_sdata i)"
    using assms(1) by (rule is_fragmentE) blast
  define e where "e = (fragments sd ! fragment_next sd)\<lparr>frag_skb_list := [rx_frag rx], first_frag_time := now, frag_seq := id_seq i,
     frag_rx_queue := id_queue i, last_frag := 0, check_sequential_pn := False, extra_len := 0\<rparr>"
  define sd1 where "sd1 = sd\<lparr>fragment_next := (if IEEE80211_FRAGMENT_MAX \<le> fragment_next sd + 1 then 0 else fragment_next sd + 1)\<rparr>"
  have idx: "fragment_next sd = newest sd1" "fragment_next sd < length (fragments sd)" "table_ok sd1"
    using assms(3) by (auto simp: newest_def sd1_def table_ok_def)
  have "ieee80211_reassemble_add now 0 (id_seq i) (id_queue i) (rx_frag rx) sd = Inr (fragment_next sd, put_frag (fragment_next sd) e sd1)"
    using idx(2) by (simp add: ieee80211_reassemble_add_def Let_def e_def sd1_def)
  then have "ieee80211_rx_h_defragment hz now expand rx w =
      Inr (RX_QUEUED, rx, put_sdata (id_sdata i) (put_frag (newest sd1) e sd1) w)"
    using f assms(2) idx key by (simp add: ieee80211_rx_h_defragment_def defrag_first_def Let_def)
  moreover have "holds i 0 None now (rx_frag rx) [] (put_sdata (id_sdata i) (put_frag (newest sd1) e sd1) w)"
    using f put_frag_newest [OF idx(3), where e = e] by (auto simp: holds_def put_sdata_def e_def)
  ultimately show ?thesis by (auto simp: put_sdata_def)
qed

text \<open>A later fragment is found, filed without its header and, if it is the last, the frame is joined.\<close>

lemma defrag_later:
  assumes h: "holds i k pn t first rest w" and r: "is_fragment i (Suc k) follows rx" and k: "Suc k < 16"
    and t: "\<not> time_after now (t + of_nat (2 * hz))" and a: "pn_accepts pn rx w" and sd: "sdatas w (id_sdata i) = Some sd"
  defines "g \<equiv> (skb_pull (id_hdrlen i) (rx_skb rx), rx_status_flag rx, rx_status_rx_flags rx)"
  defines "e \<equiv> (case pn of None \<Rightarrow> fragments sd ! newest sd | Some p \<Rightarrow> (fragments sd ! newest sd)\<lparr>frag_last_pn := pn_next p\<rparr>)
     \<lparr>frag_skb_list := first # rest @ [g], last_frag := of_nat (Suc k),
     extra_len := frags_len (rest @ [g])\<rparr>"
  defines "f \<equiv> fst first"
  defines "f' \<equiv> (if skb_tailroom f < frags_len (rest @ [g]) then f\<lparr>skb_data := skb_data f @ replicate (frags_len (rest @ [g])) 0\<rparr> else f)"
  defines "rx1 \<equiv> rx\<lparr>rx_skb := f, rx_status_flag := fst (snd first), rx_status_rx_flags := snd (snd first)\<rparr>"
  shows "ieee80211_rx_h_defragment hz now True rx w =
    (if follows then Inr (RX_QUEUED, rx, put_sdata (id_sdata i) (put_frag (newest sd) e sd) w)
     else rbind (append_frags (rest @ [g]) f') (\<lambda>skb.
          rbind (rx_packet rx1 (put_sdata (id_sdata i) (put_frag (newest sd) (e\<lparr>frag_skb_list := []\<rparr>) sd) w)) (\<lambda>w.
          Inr (RX_CONTINUE, rx1\<lparr>rx_skb := skb\<rparr>, w))))"
proof -
  obtain fc sc where p: "hdr_fc (skb_data (rx_skb rx)) = Inr fc" "\<not> ieee80211_is_ctl fc" "ieee80211_has_morefrags fc = follows"
    "ieee80211_hdrlen fc = id_hdrlen i" "hdr_seq_ctrl (skb_data (rx_skb rx)) = Inr sc" "sc AND IEEE80211_SCTL_FRAG = of_nat (Suc k)"
    "drop_bit 4 (sc AND IEEE80211_SCTL_SEQ) = id_seq i" "hdr_addr1 (skb_data (rx_skb rx)) = Inr (id_addr1 i)"
    "\<not> is_multicast_ether_addr (id_addr1 i)" "seqno_idx rx = id_queue i" "rx_sdata rx = Some (id_sdata i)"
    using r by (rule is_fragmentE) blast
  have nz: "of_nat (Suc k) \<noteq> (0 :: u16)"
    using k by (simp only: of_nat_eq_0_iff word_of_nat_eq_0_iff) (auto dest: dvd_imp_le)
  have first: "first = (f, fst (snd first), snd (snd first))" by (simp add: f_def)
  have same: "put_sdata (id_sdata i) sd w = w" using sd by (simp add: put_sdata_def fun_upd_idem)
  have e: "frag_skb_list (fragments sd ! newest sd) = first # rest" "extra_len (fragments sd ! newest sd) = frags_len rest"
    and pn: "pn = (if check_sequential_pn (fragments sd ! newest sd) then Some (frag_last_pn (fragments sd ! newest sd)) else None)"
    using h sd by (auto simp: holds_def)
  define e0 where "e0 = (case pn of None \<Rightarrow> fragments sd ! newest sd | Some p \<Rightarrow> (fragments sd ! newest sd)\<lparr>frag_last_pn := pn_next p\<rparr>)"
  have e0: "frag_skb_list e0 = first # rest" "extra_len e0 = frags_len rest"
    using e by (simp_all add: e0_def split: option.splits)
  show ?thesis
    using p nz find_newest [OF h sd r t] sd e0 first frag_check_pn_accepts [OF pn a, folded e0_def]
    by (auto simp: ieee80211_rx_h_defragment_def defrag_append_def Let_def same e_def e0_def [symmetric] g_def f'_def rx1_def
        split: prod.splits)
qed

lemma holdsE:
  assumes "holds i k pn t first rest w"
  obtains sd where "sdatas w (id_sdata i) = Some sd" "table_ok sd"
    "frag_skb_list (fragments sd ! newest sd) = first # rest"
    "skb_ok (fst first)" "\<forall>f\<in>set rest. skb_ok (fst f)"
  using assms by (auto simp: holds_def)

lemma defrag_middle_step:
  assumes h: "holds i k pn t first rest w" and r: "is_fragment i (Suc k) True rx" and k: "Suc k < 16"
    and t: "\<not> time_after now (t + of_nat (2 * hz))" and a: "pn_accepts pn rx w"
  shows "\<exists>g w'. ieee80211_rx_h_defragment hz now True rx w = Inr (RX_QUEUED, rx, w') \<and>
    holds i (Suc k) (map_option pn_next pn) t first (rest @ [g]) w' \<and> frame_bytes (fst g) = drop (id_hdrlen i) (frame_bytes (rx_skb rx)) \<and> stas w' = stas w"
proof -
  obtain sd where sd: "sdatas w (id_sdata i) = Some sd" "table_ok sd" using h by (rule holdsE)
  have len: "id_hdrlen i \<le> skb_len (rx_skb rx)" "skb_ok (rx_skb rx)" using r by (auto simp: is_fragment_def)
  note pull = frame_bytes_pull [OF len(1)] frame_bytes_pull(3) [OF len]
  let ?g = "(skb_pull (id_hdrlen i) (rx_skb rx), rx_status_flag rx, rx_status_rx_flags rx)"
  let ?e = "(case pn of None \<Rightarrow> fragments sd ! newest sd | Some p \<Rightarrow> (fragments sd ! newest sd)\<lparr>frag_last_pn := pn_next p\<rparr>)
     \<lparr>frag_skb_list := first # rest @ [?g], last_frag := of_nat (Suc k),
     extra_len := frags_len (rest @ [?g])\<rparr>"
  let ?w = "put_sdata (id_sdata i) (put_frag (newest sd) ?e sd) w"
  have "ieee80211_rx_h_defragment hz now True rx w = Inr (RX_QUEUED, rx, ?w)"
    using defrag_later [OF h r k t a sd(1)] by simp
  moreover have "holds i (Suc k) (map_option pn_next pn) t first (rest @ [?g]) ?w"
    using h sd pull(4) put_frag_newest [OF sd(2), where e = ?e]
    by (auto simp: holds_def put_sdata_def split: option.splits)
  ultimately show ?thesis using pull(1) by (intro exI [of _ ?g] exI [of _ ?w]) (simp add: put_sdata_def)
qed

lemma defrag_last_step:
  assumes h: "holds i k pn t first rest w" and r: "is_fragment i (Suc k) False rx" and k: "Suc k < 16"
    and t: "\<not> time_after now (t + of_nat (2 * hz))" and a: "pn_accepts pn rx w" and sta: "\<forall>p. rx_sta rx = Some p \<longrightarrow> stas w p \<noteq> None"
  shows "\<exists>skb w' sd. ieee80211_rx_h_defragment hz now True rx w =
      Inr (RX_CONTINUE, rx\<lparr>rx_skb := skb, rx_status_flag := fst (snd first), rx_status_rx_flags := snd (snd first)\<rparr>, w') \<and>
    frame_bytes skb = frame_bytes (fst first) @ frags_bytes rest @ drop (id_hdrlen i) (frame_bytes (rx_skb rx)) \<and>
    sdatas w' (id_sdata i) = Some sd \<and> frag_skb_list (fragments sd ! newest sd) = []"
proof -
  obtain sd where sd: "sdatas w (id_sdata i) = Some sd" "table_ok sd" and ok: "skb_ok (fst first)" "\<forall>f\<in>set rest. skb_ok (fst f)"
    using h by (rule holdsE)
  have len: "id_hdrlen i \<le> skb_len (rx_skb rx)" "skb_ok (rx_skb rx)" using r by (auto simp: is_fragment_def)
  note pull = frame_bytes_pull [OF len(1)] frame_bytes_pull(3) [OF len]
  define g where "g = (skb_pull (id_hdrlen i) (rx_skb rx), rx_status_flag rx, rx_status_rx_flags rx)"
  define f' where "f' = (if skb_tailroom (fst first) < frags_len (rest @ [g])
    then (fst first)\<lparr>skb_data := skb_data (fst first) @ replicate (frags_len (rest @ [g])) 0\<rparr> else fst first)"
  have "skb_ok f'" "frags_len (rest @ [g]) \<le> skb_tailroom f'" "frame_bytes f' = frame_bytes (fst first)"
    using ok(1) by (auto simp: f'_def skb_ok_def skb_tailroom_def frame_bytes_def)
  moreover have "\<forall>f\<in>set (rest @ [g]). skb_ok (fst f)" using ok(2) pull(4) by (simp add: g_def)
  ultimately obtain skb where skb: "append_frags (rest @ [g]) f' = Inr skb"
      "frame_bytes skb = frame_bytes (fst first) @ frags_bytes (rest @ [g])"
    using append_frags_ok by metis
  define e where "e = (case pn of None \<Rightarrow> fragments sd ! newest sd | Some p \<Rightarrow> (fragments sd ! newest sd)\<lparr>frag_last_pn := pn_next p\<rparr>)
     \<lparr>frag_skb_list := first # rest @ [g], last_frag := of_nat (Suc k),
     extra_len := frags_len (rest @ [g])\<rparr>"
  define w1 where "w1 = put_sdata (id_sdata i) (put_frag (newest sd) (e\<lparr>frag_skb_list := []\<rparr>) sd) w"
  define rx1 where "rx1 = rx\<lparr>rx_skb := fst first, rx_status_flag := fst (snd first), rx_status_rx_flags := snd (snd first)\<rparr>"
  have "\<exists>w2. rx_packet rx1 w1 = Inr w2 \<and> sdatas w2 = sdatas w1"
    using sta by (auto simp: rx_packet_def rx1_def w1_def put_sdata_def put_sta_def split: option.splits)
  then obtain w2 where w2: "rx_packet rx1 w1 = Inr w2" "sdatas w2 = sdatas w1" by blast
  let ?sd = "put_frag (newest sd) (e\<lparr>frag_skb_list := []\<rparr>) sd"
  have "ieee80211_rx_h_defragment hz now True rx w = Inr (RX_CONTINUE, rx1\<lparr>rx_skb := skb\<rparr>, w2)"
    using defrag_later [OF h r k t a sd(1)] skb(1) w2(1) unfolding g_def f'_def e_def w1_def rx1_def by simp
  moreover have "sdatas w2 (id_sdata i) = Some ?sd" using w2(2) by (simp add: w1_def put_sdata_def)
  moreover have "frag_skb_list (fragments ?sd ! newest ?sd) = []" using put_frag_newest [OF sd(2)] by simp
  moreover have "frame_bytes skb = frame_bytes (fst first) @ frags_bytes rest @ drop (id_hdrlen i) (frame_bytes (rx_skb rx))"
    using skb(2) pull(1) by (simp add: g_def)
  ultimately show ?thesis by (intro exI [of _ skb] exI [of _ w2] exI [of _ ?sd]) (simp add: rx1_def)
qed

text \<open>A series of frames given to the handler, each with the time of its reception.\<close>

fun defragment_all ::
  "nat \<Rightarrow> bool \<Rightarrow> (u64 \<times> ieee80211_rx_data) list \<Rightarrow> world \<Rightarrow> ((ieee80211_rx_result \<times> ieee80211_rx_data) list \<times> world) result" where
  "defragment_all hz expand [] w = Inr ([], w)"
| "defragment_all hz expand ((now, rx) # fs) w =
     rbind (ieee80211_rx_h_defragment hz now expand rx w) (\<lambda>(res, rx, w).
     rbind (defragment_all hz expand fs w) (\<lambda>(out, w). Inr ((res, rx) # out, w)))"

text \<open>Frames that continue a frame from fragment \<open>k\<close> on, in order, the last one ending it.\<close>

fun continues :: "frame_id \<Rightarrow> nat \<Rightarrow> ieee80211_rx_data list \<Rightarrow> bool" where
  "continues i k [] \<longleftrightarrow> False"
| "continues i k (rx # rest) \<longleftrightarrow> is_fragment i k (rest \<noteq> []) rx \<and> k < 16 \<and> (rest \<noteq> [] \<longrightarrow> continues i (Suc k) rest)"

abbreviation rx_payload :: "frame_id \<Rightarrow> ieee80211_rx_data \<Rightarrow> u8 list" where
  "rx_payload i rx \<equiv> drop (id_hdrlen i) (frame_bytes (rx_skb rx))"

lemma defragment_rest:
  assumes "holds i k None t first rest w" and "continues i (Suc k) (map snd fs)"
    and "\<forall>(now, rx)\<in>set fs. \<not> time_after now (t + of_nat (2 * hz)) \<and> (\<forall>p. rx_sta rx = Some p \<longrightarrow> stas w p \<noteq> None)"
  shows "\<exists>out rx' w'. defragment_all hz True fs w = Inr (out @ [(RX_CONTINUE, rx')], w') \<and>
    map fst out = replicate (length fs - 1) RX_QUEUED \<and> rx_status_flag rx' = fst (snd first) \<and>
    frame_bytes (rx_skb rx') = frame_bytes (fst first) @ frags_bytes rest @ concat (map (\<lambda>f. rx_payload i (snd f)) fs)"
  using assms
proof (induction fs arbitrary: k rest w)
  case (Cons f fs)
  obtain now rx where f: "f = (now, rx)" by (cases f)
  have r: "is_fragment i (Suc k) (fs \<noteq> []) rx" "Suc k < 16" and t: "\<not> time_after now (t + of_nat (2 * hz))"
    and sta: "\<forall>p. rx_sta rx = Some p \<longrightarrow> stas w p \<noteq> None"
    using Cons.prems(2,3) f by auto
  have a: "pn_accepts None rx w" by (simp add: pn_accepts_def)
  show ?case
  proof (cases "fs = []")
    case True
    then show ?thesis
      using defrag_last_step [OF Cons.prems(1) _ r(2) t a sta] r(1) f
      by (intro exI [of _ "[]"]) auto
  next
    case False
    then have r1: "is_fragment i (Suc k) True rx" using r(1) by simp
    obtain g w1 where w1: "ieee80211_rx_h_defragment hz now True rx w = Inr (RX_QUEUED, rx, w1)"
        "holds i (Suc k) None t first (rest @ [g]) w1" "frame_bytes (fst g) = rx_payload i rx" "stas w1 = stas w"
      using defrag_middle_step [OF Cons.prems(1) r1 r(2) t a] by auto
    have c: "continues i (Suc (Suc k)) (map snd fs)" using Cons.prems(2) f False by simp
    have ts: "\<forall>(now, rx)\<in>set fs. \<not> time_after now (t + of_nat (2 * hz)) \<and> (\<forall>p. rx_sta rx = Some p \<longrightarrow> stas w1 p \<noteq> None)"
      using Cons.prems(3) w1(4) by simp
    obtain out rx' w' where out: "defragment_all hz True fs w1 = Inr (out @ [(RX_CONTINUE, rx')], w')"
        "map fst out = replicate (length fs - 1) RX_QUEUED" "rx_status_flag rx' = fst (snd first)"
        "frame_bytes (rx_skb rx') = frame_bytes (fst first) @ frags_bytes (rest @ [g]) @ concat (map (\<lambda>f. rx_payload i (snd f)) fs)"
      using Cons.IH [OF w1(2) c ts] by blast
    then show ?thesis
      using w1(1,3) f False by (intro exI [of _ "(RX_QUEUED, rx) # out"] exI [of _ rx'] exI [of _ w']) (cases fs; simp)
  qed
qed simp

text \<open>
  Fragments received in order are joined. When the fragments of one unicast frame reach the handler one
  after the other, without a key and all within two seconds of the first, every one but the last is
  queued, and the last one hands on the first fragment, with the receive flags of that fragment,
  followed by the payloads of the others. The handler does not fault and no fragment is dropped as
  long as the buffer can be enlarged.
\<close>

lemma fragments_in_order_reassemble:
  assumes "continues i 0 (map snd ((t, rx) # fs))" and "fs \<noteq> []"
    and "sdatas w (id_sdata i) = Some sd" "table_ok sd" "rx_key rx = None"
    and "\<forall>(now, r)\<in>set fs. \<not> time_after now (t + of_nat (2 * hz)) \<and> (\<forall>p. rx_sta r = Some p \<longrightarrow> stas w p \<noteq> None)"
  shows "\<exists>out rx' w'. defragment_all hz True ((t, rx) # fs) w = Inr (out @ [(RX_CONTINUE, rx')], w') \<and>
    map fst out = replicate (length fs) RX_QUEUED \<and> rx_status_flag rx' = rx_status_flag rx \<and>
    frame_bytes (rx_skb rx') = frame_bytes (rx_skb rx) @ concat (map (\<lambda>f. rx_payload i (snd f)) fs)"
proof -
  have r: "is_fragment i 0 True rx" "continues i (Suc 0) (map snd fs)" using assms(1,2) by auto
  obtain w1 where w1: "ieee80211_rx_h_defragment hz t True rx w = Inr (RX_QUEUED, rx, w1)"
      "holds i 0 None t (rx_frag rx) [] w1" "stas w1 = stas w"
    using defrag_first_step [OF r(1) assms(3,4,5)] by blast
  obtain out rx' w' where out: "defragment_all hz True fs w1 = Inr (out @ [(RX_CONTINUE, rx')], w')"
      "map fst out = replicate (length fs - 1) RX_QUEUED" "rx_status_flag rx' = rx_status_flag rx"
      "frame_bytes (rx_skb rx') = frame_bytes (rx_skb rx) @ concat (map (\<lambda>f. rx_payload i (snd f)) fs)"
    using defragment_rest [OF w1(2) r(2), of hz] assms(6) w1(3) by auto
  then show ?thesis
    using w1(1) assms(2) by (intro exI [of _ "(RX_QUEUED, rx) # out"] exI [of _ rx'] exI [of _ w']) (cases fs; simp)
qed

section \<open>Packet numbers of protected fragments\<close>

lemma be_nat_snoc: "be_nat (xs @ [b]) = 256 * be_nat xs + unat b"
  by (induction xs) (auto simp: algebra_simps)

lemma length_pn_inc_from [simp]: "length (pn_inc_from i pn) = length pn"
  by (induction i arbitrary: pn) (auto simp: Let_def)

lemma unat_incr: "unat (b + 1) = (if b + 1 = 0 then 0 else unat b + 1)" "b + 1 = 0 \<longleftrightarrow> unat b = 255" for b :: u8
proof -
  have b: "unat b < 256" using unsigned_less [of b] by simp
  have u: "unat (b + 1) = (unat b + 1) mod 256" by (simp add: unat_word_ariths)
  have z: "b + 1 = 0 \<longleftrightarrow> unat (b + 1) = 0" by (simp only: unat_eq_0)
  have m: "(n + 1) mod 256 = (if n = 255 then 0 else n + 1)" if "n < 256" for n :: nat using that by simp
  show "b + 1 = 0 \<longleftrightarrow> unat b = 255" unfolding z u m [OF b] by simp
  show "unat (b + 1) = (if b + 1 = 0 then 0 else unat b + 1)" unfolding z u m [OF b] by simp
qed

lemma pn_inc_from_value:
  assumes "length xs = i"
  shows "\<exists>xs'. pn_inc_from i (xs @ ys) = xs' @ ys \<and> length xs' = i \<and> be_nat xs' = (be_nat xs + 1) mod 256 ^ i"
  using assms
proof (induction i arbitrary: xs ys)
  case 0
  then show ?case by (intro exI [of _ "[]"]) simp
next
  case (Suc i)
  then obtain zs b where xs: "xs = zs @ [b]" "length zs = i" by (cases xs rule: rev_cases) auto
  have upd: "(zs @ b # ys)[i := b + 1] = zs @ (b + 1) # ys" using xs(2) by (simp add: list_update_append)
  have bound: "be_nat zs < 256 ^ i" using be_nat_bound [of zs] xs(2) by simp
  show ?case
  proof (cases "b + 1 = 0")
    case False
    have "be_nat xs + 1 < 256 ^ Suc i"
    proof -
      have "unat b < 256" using unsigned_less [of b] by simp
      then have "unat b \<le> 254" using False unat_incr(2) [of b] by linarith
      then show ?thesis using bound by (simp add: xs(1) be_nat_snoc)
    qed
    then show ?thesis
      using False xs upd by (intro exI [of _ "zs @ [b + 1]"]) (simp add: nth_append be_nat_snoc unat_incr)
  next
    case True
    obtain zs' where z: "pn_inc_from i (zs @ (0 # ys)) = zs' @ 0 # ys" "length zs' = i" "be_nat zs' = (be_nat zs + 1) mod 256 ^ i"
      using Suc.IH [OF xs(2), of "0 # ys"] by blast
    have "be_nat xs + 1 = 256 * (be_nat zs + 1)" using True by (simp add: xs(1) be_nat_snoc unat_incr(2))
    then have "be_nat (zs' @ [0]) = (be_nat xs + 1) mod 256 ^ Suc i"
      using z(3) by (simp add: be_nat_snoc mult_mod_right)
    then show ?thesis
      using True xs upd z by (intro exI [of _ "zs' @ [0]"]) (simp add: nth_append)
  qed
qed

lemma pn_next_value: "length pn = 6 \<Longrightarrow> be_nat (pn_next pn) = (be_nat pn + 1) mod 2 ^ 48"
  using pn_inc_from_value [of pn 6 "[]"] by (auto simp: pn_next_def)


text \<open>
  C35: A fragment in the clear can complete a protected frame. Suppose the table holds the beginning of a frame whose
  fragments were decrypted with the pairwise key of a station, and that another frame of the station
  has meanwhile moved the key's receive counter to the number that the next fragment would have. A
  final fragment sent without protection under the station's address then passes the decryption
  handler (which skips it), is joined to the decrypted fragments, and the frame carries the
  decrypted mark of its first fragment, so the check for cleartext lets it through, whatever its
  frame control says.
\<close>

theorem cleartext_fragment_completes_protected_frame:
  assumes h: "holds i k (Some p) t (f, flag, fl) rest w" and flag: "flag AND RX_FLAG_DECRYPTED \<noteq> 0"
    and r: "is_fragment i (Suc k) False rx" "Suc k < 16" "\<not> time_after now (t + of_nat (2 * hz))"
    and fc: "hdr_fc (skb_data (rx_skb rx)) = Inr fc" "\<not> ieee80211_has_protected fc"
    and sta: "rx_sta rx = Some sp" "stas w sp = Some s" "sta_ptk s = Inr (Some kp)"
    and key: "keys w kp = Some key" "ccmp_gcmp_cipher (conf_cipher key)" "security_idx rx < length (key_rx_pn key)"
      "key_rx_pn key ! security_idx rx = pn_next p"
  shows "\<exists>rx1 rx2 w2. ieee80211_rx_h_decrypt L rx w = Inr (RX_CONTINUE, rx1, w) \<and>
    ieee80211_rx_h_defragment hz now True rx1 w = Inr (RX_CONTINUE, rx2, w2) \<and>
    frame_bytes (rx_skb rx2) = frame_bytes f @ frags_bytes rest @ drop (id_hdrlen i) (frame_bytes (rx_skb rx)) \<and>
    (\<forall>fc'. ieee80211_drop_unencrypted fc' rx2 w2 = Inr 0)"
proof -
  obtain sd where sd: "sdatas w (id_sdata i) = Some sd" using h by (rule holdsE)
  have rx: "hdr_addr1 (skb_data (rx_skb rx)) = Inr (id_addr1 i)" "\<not> is_multicast_ether_addr (id_addr1 i)"
      "rx_sdata rx = Some (id_sdata i)" "skb_len (rx_skb rx) \<le> length (skb_data (rx_skb rx))"
    using r(1) by (auto simp: is_fragment_def Let_def skb_ok_def)
  have "ieee80211_get_mmie_keyidx (rx_skb rx) = Inr (- 1)"
    using rx by (simp add: ieee80211_get_mmie_keyidx_def)
  then have "rx_select_key rx w = Inr (Inl RX_CONTINUE, Some kp)"
    using fc rx sta sd by (simp add: rx_select_key_def rx_sta_of_def rx_sdata_of_def Let_def)
  then have d: "ieee80211_rx_h_decrypt L rx w = Inr (RX_CONTINUE, rx\<lparr>rx_key := Some kp\<rparr>, w)"
    by (simp add: ieee80211_rx_h_decrypt_def)
  let ?rx = "rx\<lparr>rx_key := Some kp\<rparr>"
  have a: "is_fragment i (Suc k) False ?rx" "pn_accepts (Some p) ?rx w" "\<forall>q. rx_sta ?rx = Some q \<longrightarrow> stas w q \<noteq> None"
    using r(1) key sta by (simp_all add: is_fragment_def pn_accepts_def)
  obtain skb w2 where "ieee80211_rx_h_defragment hz now True ?rx w =
      Inr (RX_CONTINUE, ?rx\<lparr>rx_skb := skb, rx_status_flag := flag, rx_status_rx_flags := fl\<rparr>, w2)"
      "frame_bytes skb = frame_bytes f @ frags_bytes rest @ drop (id_hdrlen i) (frame_bytes (rx_skb rx))"
    using defrag_last_step [OF h a(1) r(2,3) a(2,3)] by auto
  then show ?thesis
    using d flag by (intro exI [of _ ?rx] exI [of _ "?rx\<lparr>rx_skb := skb, rx_status_flag := flag, rx_status_rx_flags := fl\<rparr>"]
        exI [of _ w2]) (simp add: ieee80211_drop_unencrypted_def)
qed

section \<open>Sample fragments\<close>

lemma hdr_bytes_addr2: "hdr_addr2 (hdr_bytes h @ r) = Inr (addr2 h)"
  by (simp add: hdr_addr2_def hdr_bytes_def le16_bytes_def)

definition sample_frag :: "u16 \<Rightarrow> u16 \<Rightarrow> ieee80211_rx_data" where
  "sample_frag fc sc = sample_rx (sample_skb\<lparr>skb_data :=
     hdr_bytes (sample_hdr\<lparr>frame_control := fc, seq_ctrl := sc\<rparr>) @ [1, 2, 3, 4], skb_len := 34\<rparr>)"

definition sample_frame_id :: frame_id where
  "sample_frame_id = \<lparr>id_sdata = 2, id_hdrlen = 24, id_addr1 = sample_iface, id_addr2 = sample_base, id_type = 8, id_seq = 1,
     id_queue = 0\<rparr>"

lemma sample_frag_fields:
  "hdr_fc (skb_data (rx_skb (sample_frag fc sc))) = Inr fc" "hdr_seq_ctrl (skb_data (rx_skb (sample_frag fc sc))) = Inr sc"
  "hdr_addr1 (skb_data (rx_skb (sample_frag fc sc))) = Inr sample_iface"
  "hdr_addr2 (skb_data (rx_skb (sample_frag fc sc))) = Inr sample_base"
  "skb_len (rx_skb (sample_frag fc sc)) = 34" "skb_ok (rx_skb (sample_frag fc sc))"
  "seqno_idx (sample_frag fc sc) = 0" "rx_sdata (sample_frag fc sc) = Some 2" "rx_sta (sample_frag fc sc) = Some 5"
  "security_idx (sample_frag fc sc) = 0"
  "frame_bytes (rx_skb (sample_frag fc sc)) = hdr_bytes (sample_hdr\<lparr>frame_control := fc, seq_ctrl := sc\<rparr>) @ [1, 2, 3, 4]"
  using hdr_load_fields [OF hdr_load_append [of "sample_hdr\<lparr>frame_control := fc, seq_ctrl := sc\<rparr>" "[1, 2, 3, 4]"]]
    hdr_bytes_addr2 [of "sample_hdr\<lparr>frame_control := fc, seq_ctrl := sc\<rparr>"]
  by (simp_all add: sample_frag_def sample_rx_def skb_ok_def frame_bytes_def sample_hdr_def)

lemma sample_is_fragment:
  "is_fragment sample_frame_id 0 True (sample_frag 0x4508 0x10)"
  "is_fragment sample_frame_id (Suc 0) False (sample_frag 0x0108 0x11)"
  by (simp_all add: is_fragment_def sample_frame_id_def sample_frag_fields ieee80211_is_ctl_def ieee80211_has_morefrags_def
      ieee80211_hdrlen_def ieee80211_is_data_def ieee80211_has_a4_def ieee80211_is_data_qos_def sample_iface_def)

text \<open>An access point that holds one decrypted fragment, number 0 of the frame, with packet number 6; its key has received 7.\<close>

definition sample_held :: frag_skb where
  "sample_held = (rx_skb (sample_frag 0x4508 0x10), RX_FLAG_DECRYPTED, 0)"

definition sample_pn :: "u8 \<Rightarrow> u8 list" where "sample_pn x = [0, 0, 0, 0, 0, x]"

definition sample_frag_ap :: world where
  "sample_frag_ap =
     (let w = sample_paired_ap; sd = the (sdatas w 2); k = the (keys w 3) in
      put_key 3 (k\<lparr>key_rx_pn := (key_rx_pn k)[0 := sample_pn 7]\<rparr>)
        (put_sdata 2 (put_frag 0 (empty_fragment\<lparr>frag_skb_list := [sample_held], first_frag_time := 1000, frag_seq := 1,
           check_sequential_pn := True, frag_last_pn := sample_pn 6\<rparr>) (sd\<lparr>fragment_next := 1\<rparr>)) w))"

lemma pn_next_sample: "pn_next (sample_pn 6) = sample_pn 7"
proof -
  have "be_nat (pn_next (sample_pn 6)) = be_nat (sample_pn 7)" by (simp add: pn_next_value sample_pn_def)
  then show ?thesis by (rule be_nat_inj [rotated]) (simp add: pn_next_def sample_pn_def)
qed

lemma sample_frag_ap_facts:
  "holds sample_frame_id 0 (Some (sample_pn 6)) 1000 sample_held [] sample_frag_ap"
  "\<exists>s. stas sample_frag_ap 5 = Some s \<and> sta_ptk s = Inr (Some 3)"
  "\<exists>k. keys sample_frag_ap 3 = Some k \<and> ccmp_gcmp_cipher (conf_cipher k) \<and> 0 < length (key_rx_pn k) \<and> key_rx_pn k ! 0 = pn_next (sample_pn 6)"
proof -
  show "holds sample_frame_id 0 (Some (sample_pn 6)) 1000 sample_held [] sample_frag_ap"
    by (simp add: holds_def sample_frag_ap_def Let_def put_key_def put_sdata_def sample_frame_id_def put_frag_def newest_def table_ok_def
        sample_held_def sample_frag_fields sample_paired_ap_def sample_world_def empty_fragment_def)
  show "\<exists>s. stas sample_frag_ap 5 = Some s \<and> sta_ptk s = Inr (Some 3)"
    by (simp add: sample_frag_ap_def Let_def put_key_def put_sdata_def sample_paired_ap_def sample_world_def sta_ptk_def)
  show "\<exists>k. keys sample_frag_ap 3 = Some k \<and> ccmp_gcmp_cipher (conf_cipher k) \<and> 0 < length (key_rx_pn k) \<and> key_rx_pn k ! 0 = pn_next (sample_pn 6)"
    by (simp add: sample_frag_ap_def Let_def put_key_def put_sdata_def sample_paired_ap_def sample_world_def pn_next_sample
        sample_key_def ccmp_gcmp_cipher_def)
qed

theorem cleartext_fragment_completes_protected_frame_witness:
  "\<exists>rx1 rx2 w2. ieee80211_rx_h_decrypt sample_crypto (sample_frag 0x0108 0x11) sample_frag_ap = Inr (RX_CONTINUE, rx1, sample_frag_ap) \<and>
    ieee80211_rx_h_defragment 250 1010 True rx1 sample_frag_ap = Inr (RX_CONTINUE, rx2, w2) \<and>
    drop 30 (frame_bytes (rx_skb rx2)) = [1, 2, 3, 4] @ [0, 0, 0, 0, 0, 0] @ [1, 2, 3, 4] \<and>
    ieee80211_drop_unencrypted 0x0108 rx2 w2 = Inr 0"
proof -
  obtain s where s: "stas sample_frag_ap 5 = Some s" "sta_ptk s = Inr (Some 3)" using sample_frag_ap_facts(2) by blast
  obtain k where k: "keys sample_frag_ap 3 = Some k" "ccmp_gcmp_cipher (conf_cipher k)" "0 < length (key_rx_pn k)"
      "key_rx_pn k ! 0 = pn_next (sample_pn 6)" using sample_frag_ap_facts(3) by blast
  have np: "\<not> ieee80211_has_protected 0x0108" by (simp add: ieee80211_has_protected_def)
  have fl: "RX_FLAG_DECRYPTED AND RX_FLAG_DECRYPTED \<noteq> (0 :: u32)" by simp
  have t: "\<not> time_after 1010 (1000 + of_nat (2 * 250))" by (simp add: time_after_def)
  note th = cleartext_fragment_completes_protected_frame [OF sample_frag_ap_facts(1) [unfolded sample_held_def] fl sample_is_fragment(2) _ t
      sample_frag_fields(1) np sample_frag_fields(9) s k(1,2), where L = sample_crypto, unfolded sample_frag_fields(10)]
  obtain rx1 rx2 w2 where o: "ieee80211_rx_h_decrypt sample_crypto (sample_frag 0x0108 0x11) sample_frag_ap = Inr (RX_CONTINUE, rx1, sample_frag_ap)"
    "ieee80211_rx_h_defragment 250 1010 True rx1 sample_frag_ap = Inr (RX_CONTINUE, rx2, w2)"
    "frame_bytes (rx_skb rx2) = frame_bytes (rx_skb (sample_frag 0x4508 0x10)) @ frags_bytes [] @
       drop (id_hdrlen sample_frame_id) (frame_bytes (rx_skb (sample_frag 0x0108 0x11)))"
    "ieee80211_drop_unencrypted 0x0108 rx2 w2 = Inr 0"
    using th k(3,4) by auto
  have "drop 30 (frame_bytes (rx_skb rx2)) = [1, 2, 3, 4] @ [0, 0, 0, 0, 0, 0] @ [1, 2, 3, 4]"
    using o(3) by (simp add: sample_frag_fields sample_frame_id_def hdr_bytes_def le16_bytes_def sample_hdr_def sample_iface_def sample_base_def)
  then show ?thesis using o by blast
qed


section \<open>Well-formed tables\<close>

text \<open>
  The invariant of the reassembly table: four entries, each either empty or starting with a fragment that has a
  header, with the room needed for the other fragments recorded. \<open>defrag_input\<close> is what the handler can rely on when
  it is called.
\<close>

definition frag_entry_ok :: "ieee80211_fragment_entry \<Rightarrow> bool" where
  "frag_entry_ok e \<longleftrightarrow> (\<forall>f\<in>set (frag_skb_list e). skb_ok (fst f)) \<and>
     (case frag_skb_list e of [] \<Rightarrow> True | f # rest \<Rightarrow> 24 \<le> length (skb_data (fst f)) \<and> extra_len e = frags_len rest)"

definition defrag_ok :: "ieee80211_sub_if_data \<Rightarrow> bool" where
  "defrag_ok sd \<longleftrightarrow> table_ok sd \<and> (\<forall>e\<in>set (fragments sd). frag_entry_ok e)"

definition defrag_input :: "ieee80211_rx_data \<Rightarrow> world \<Rightarrow> bool" where
  "defrag_input rx w \<longleftrightarrow>
     24 \<le> length (skb_data (rx_skb rx)) \<and> skb_ok (rx_skb rx) \<and>
     (case rx_sdata rx of None \<Rightarrow> False | Some sp \<Rightarrow> (case sdatas w sp of None \<Rightarrow> False | Some sd \<Rightarrow> defrag_ok sd)) \<and>
     (case rx_sta rx of None \<Rightarrow> True | Some p \<Rightarrow> stas w p \<noteq> None) \<and>
     (case rx_key rx of None \<Rightarrow> True
      | Some kp \<Rightarrow> (case keys w kp of None \<Rightarrow> False | Some k \<Rightarrow> security_idx rx < length (key_rx_pn k)))"

lemma hdr_reads:
  assumes "24 \<le> length bs"
  obtains fc sc a1 a2 where "hdr_fc bs = Inr fc" "hdr_seq_ctrl bs = Inr sc" "hdr_addr1 bs = Inr a1" "hdr_addr2 bs = Inr a2"
proof -
  have l: "arr_get bs i = Inr (bs ! i)" if "i < 24" for i using that assms by simp
  have "6 \<le> length (drop 4 bs)" "6 \<le> length (drop 10 bs)" using assms by simp_all
  then obtain a1 a2 where "hdr_addr1 bs = Inr a1" "hdr_addr2 bs = Inr a2"
    unfolding hdr_addr1_def hdr_addr2_def using mac_of_bytes_ok by metis
  then show thesis using that by (simp add: hdr_fc_def hdr_seq_ctrl_def l del: arr_get_ok)
qed

lemma put_frag_ok:
  assumes "defrag_ok sd" and "frag_entry_ok e"
  shows "defrag_ok (put_frag i e sd)"
  using assms by (auto simp: defrag_ok_def put_frag_def table_ok_def dest!: set_update_subset_insert [THEN subsetD])

lemma entry_ok: "defrag_ok sd \<Longrightarrow> i < 4 \<Longrightarrow> frag_entry_ok (fragments sd ! i)"
  by (simp add: defrag_ok_def table_ok_def)

lemma scan_ok:
  assumes "defrag_ok sd" and "idx < 4" and "24 \<le> length bs"
  shows "\<exists>found sd'. reassemble_scan hz now frag seq q bs n idx sd = Inr (found, sd') \<and> defrag_ok sd' \<and>
    (\<forall>i. found = Some i \<longrightarrow> i < 4 \<and> frag_skb_list (fragments sd' ! i) \<noteq> [])"
  using assms
proof (induction n arbitrary: idx sd)
  case (Suc n)
  define j where "j = (if idx = 0 then IEEE80211_FRAGMENT_MAX - 1 else idx - 1)"
  have j: "j < 4" "j < length (fragments sd)" using Suc.prems by (auto simp: j_def defrag_ok_def table_ok_def)
  let ?e = "fragments sd ! j"
  have e: "frag_entry_ok ?e" using entry_ok [OF Suc.prems(1) j(1)] .
  note IH = Suc.IH [OF _ j(1) Suc.prems(3)]
  show ?case
  proof (cases "frag_skb_list ?e")
    case Nil
    then show ?thesis using j IH [OF Suc.prems(1)] by (simp add: j_def [symmetric] Let_def)
  next
    case (Cons f fs)
    obtain g c where f: "f = (g, c)" by (cases f)
    have g: "24 \<le> length (skb_data g)" using e Cons f by (simp add: frag_entry_ok_def)
    obtain fc sc a1 a2 where b: "hdr_fc bs = Inr fc" "hdr_seq_ctrl bs = Inr sc" "hdr_addr1 bs = Inr a1" "hdr_addr2 bs = Inr a2"
      using hdr_reads [OF Suc.prems(3)] by blast
    obtain fc' sc' b1 b2 where b': "hdr_fc (skb_data g) = Inr fc'" "hdr_seq_ctrl (skb_data g) = Inr sc'" "hdr_addr1 (skb_data g) = Inr b1"
        "hdr_addr2 (skb_data g) = Inr b2"
      using hdr_reads [OF g] by blast
    have "defrag_ok (put_frag j (?e\<lparr>frag_skb_list := []\<rparr>) sd)"
      using put_frag_ok [OF Suc.prems(1)] by (simp add: frag_entry_ok_def)
    note IH2 = IH [OF Suc.prems(1)] IH [OF this]
    show ?thesis
      using j b b' Cons f IH2 Suc.prems(1) by (simp add: j_def [symmetric] Let_def)
  qed
qed simp

lemma check_pn_ok:
  assumes "case rx_key rx of None \<Rightarrow> True
      | Some kp \<Rightarrow> (case keys w kp of None \<Rightarrow> False | Some k \<Rightarrow> security_idx rx < length (key_rx_pn k))"
  shows "\<exists>c. frag_check_pn rx w e = Inr c \<and>
    (\<forall>e'. c = Some e' \<longrightarrow> frag_skb_list e' = frag_skb_list e \<and> extra_len e' = extra_len e)"
  using assms by (auto simp: frag_check_pn_def rx_key_of_def Let_def split: option.splits)

lemma add_ok:
  assumes "defrag_ok sd" "skb_ok (fst f)" "24 \<le> length (skb_data (fst f))"
  shows "\<exists>idx sd1. ieee80211_reassemble_add now frag seq q f sd = Inr (idx, sd1) \<and> defrag_ok sd1 \<and>
    frag_entry_ok ((fragments sd1 ! idx)\<lparr>check_sequential_pn := True, frag_last_pn := pn\<rparr>)"
proof -
  let ?n = "fragment_next sd" and ?sd = "sd\<lparr>fragment_next := (if IEEE80211_FRAGMENT_MAX \<le> fragment_next sd + 1 then 0 else fragment_next sd + 1)\<rparr>"
  define e where "e = (fragments sd ! ?n)\<lparr>frag_skb_list := [f], first_frag_time := now, frag_seq := seq, frag_rx_queue := q,
     last_frag := frag, check_sequential_pn := False, extra_len := 0\<rparr>"
  have n: "?n < length (fragments sd)" and sd: "defrag_ok ?sd" using assms by (auto simp: defrag_ok_def table_ok_def)
  have "ieee80211_reassemble_add now frag seq q f sd = Inr (?n, put_frag ?n e ?sd)"
    using n by (simp add: ieee80211_reassemble_add_def Let_def e_def)
  moreover have "defrag_ok (put_frag ?n e ?sd)" using put_frag_ok [OF sd] assms by (simp add: frag_entry_ok_def e_def)
  moreover have "fragments (put_frag ?n e ?sd) ! ?n = e" using n by (simp add: put_frag_def)
  ultimately show ?thesis using assms by (auto simp: frag_entry_ok_def e_def)
qed

lemma first_ok:
  assumes "defrag_input rx w" "rx_sdata rx = Some sp" "sdatas w sp = Some sd"
  shows "\<exists>sd'. defrag_first now fc frag seq rx sp sd w = Inr (RX_QUEUED, rx, put_sdata sp sd' w) \<and> defrag_ok sd'"
proof (cases "rx_key rx")
  case None
  have i: "defrag_ok sd" "skb_ok (fst (rx_frag rx))" "24 \<le> length (skb_data (fst (rx_frag rx)))"
    using assms by (auto simp: defrag_input_def)
  show ?thesis
    using add_ok [OF i, where now = now and frag = frag and seq = seq and q = "seqno_idx rx" and pn = "[]"] None
    by (auto simp: defrag_first_def)
next
  case (Some kp)
  have i: "defrag_ok sd" "skb_ok (fst (rx_frag rx))" "24 \<le> length (skb_data (fst (rx_frag rx)))"
    using assms by (auto simp: defrag_input_def)
  obtain k where k: "keys w kp = Some k" "security_idx rx < length (key_rx_pn k)"
    using assms(1) Some by (auto simp: defrag_input_def split: option.splits)
  let ?pn = "key_rx_pn k ! security_idx rx"
  obtain idx sd1 where a: "ieee80211_reassemble_add now frag seq (seqno_idx rx) (rx_frag rx) sd = Inr (idx, sd1)" "defrag_ok sd1"
      "frag_entry_ok ((fragments sd1 ! idx)\<lparr>check_sequential_pn := True, frag_last_pn := ?pn\<rparr>)"
    using add_ok [OF i, where now = now and frag = frag and seq = seq and q = "seqno_idx rx"] by blast
  then show ?thesis using put_frag_ok [OF a(2,3)] k Some by (auto simp: defrag_first_def rx_key_of_def)
qed

lemma later_entry_ok:
  assumes "frag_entry_ok e" "frag_skb_list e \<noteq> []" "skb_ok g"
  shows "frag_entry_ok (e\<lparr>frag_skb_list := frag_skb_list e @ [(g, c)], last_frag := frag, extra_len := extra_len e + skb_len g\<rparr>)"
  using assms by (cases "frag_skb_list e") (auto simp: frag_entry_ok_def)

lemma entry_ok_cong:
  "frag_entry_ok e \<Longrightarrow> frag_skb_list e' = frag_skb_list e \<Longrightarrow> extra_len e' = extra_len e \<Longrightarrow> frag_entry_ok e'"
  by (auto simp: frag_entry_ok_def split: list.splits)

lemma skb_pull_ok: "skb_ok skb \<Longrightarrow> skb_ok (skb_pull n skb)"
  by (auto simp: skb_ok_def skb_pull_def)

text \<open>The last fragment: the frame is joined in a buffer that has the room or has been given it.\<close>

lemma join_ok:
  assumes "frag_entry_ok e" "frag_skb_list e = (f, c) # rest"
  defines "f' \<equiv> (if skb_tailroom f < extra_len e then f\<lparr>skb_data := skb_data f @ replicate (extra_len e) 0\<rparr> else f)"
  shows "\<exists>skb. append_frags rest f' = Inr skb \<and> skb_ok skb"
proof -
  have "skb_ok f'" "frags_len rest \<le> skb_tailroom f'" "\<forall>g\<in>set rest. skb_ok (fst g)"
    using assms(1,2) by (auto simp: f'_def frag_entry_ok_def skb_ok_def skb_tailroom_def)
  then show ?thesis using append_frags_ok by blast
qed

lemma rx_packet_ok:
  assumes "case rx_sta rx of None \<Rightarrow> True | Some p \<Rightarrow> stas w p \<noteq> None"
  shows "\<exists>w'. rx_packet rx w = Inr w' \<and> sdatas w' = sdatas w"
  using assms by (auto simp: rx_packet_def put_sta_def split: option.splits)

lemma defrag_append_ok:
  assumes "defrag_ok sd" "frag_entry_ok e0" "frag_skb_list e0 \<noteq> []" "skb_ok (rx_skb rx)"
    and sta: "case rx_sta rx of None \<Rightarrow> True | Some p \<Rightarrow> stas w p \<noteq> None"
  shows "\<exists>res rx' w' sd'. defrag_append expand fc frag rx sp sd idx e0 w = Inr (res, rx', w') \<and>
    sdatas w' sp = Some sd' \<and> defrag_ok sd' \<and> (res = RX_CONTINUE \<longrightarrow> skb_ok (rx_skb rx'))"
proof -
  define g where "g = skb_pull (ieee80211_hdrlen fc) (rx_skb rx)"
  define e where "e = e0\<lparr>frag_skb_list := frag_skb_list e0 @ [(g, rx_status_flag rx, rx_status_rx_flags rx)], last_frag := frag,
    extra_len := extra_len e0 + skb_len g\<rparr>"
  have e: "frag_entry_ok e" unfolding e_def using assms skb_pull_ok by (intro later_entry_ok) (simp_all add: g_def)
  obtain h fl rfl rest where l: "frag_skb_list e = (h, fl, rfl) # rest" using assms(3) by (cases "frag_skb_list e0") (auto simp: e_def)
  obtain skb where skb: "append_frags rest (if skb_tailroom h < extra_len e
      then h\<lparr>skb_data := skb_data h @ replicate (extra_len e) 0\<rparr> else h) = Inr skb" "skb_ok skb"
    using join_ok [OF e l] by blast
  let ?sd = "put_frag idx (e\<lparr>frag_skb_list := []\<rparr>) sd"
  have em: "defrag_ok ?sd" "defrag_ok (put_frag idx e sd)" using put_frag_ok [OF assms(1)] e by (simp_all add: frag_entry_ok_def)
  let ?rx = "rx\<lparr>rx_skb := h, rx_status_flag := fl, rx_status_rx_flags := rfl\<rparr>"
  have "case rx_sta ?rx of None \<Rightarrow> True | Some p \<Rightarrow> stas (put_sdata sp ?sd w) p \<noteq> None" using sta by (simp add: put_sdata_def split: option.splits)
  from rx_packet_ok [OF this] obtain w2 where w2: "rx_packet ?rx (put_sdata sp ?sd w) = Inr w2" "sdatas w2 = sdatas (put_sdata sp ?sd w)" by blast
  have "defrag_append expand fc frag rx sp sd idx e0 w =
      (if ieee80211_has_morefrags fc then Inr (RX_QUEUED, rx, put_sdata sp (put_frag idx e sd) w)
       else if skb_tailroom h < extra_len e \<and> \<not> expand then Inr (RX_DROP_UNUSABLE, ?rx, put_sdata sp ?sd w)
       else Inr (RX_CONTINUE, ?rx\<lparr>rx_skb := skb\<rparr>, w2))"
    using l skb(1) w2(1) unfolding defrag_append_def Let_def g_def [symmetric] e_def [symmetric] by simp
  then show ?thesis using em skb(2) w2(2) by (auto simp: put_sdata_def)
qed

lemma defrag_later_safe:
  assumes rx: "defrag_input rx w" "rx_sdata rx = Some sp" and sd: "sdatas w sp = Some sd" "defrag_ok sd"
    and f: "hdr_fc (skb_data (rx_skb rx)) = Inr fc" "\<not> ieee80211_is_ctl fc" "\<not> is_multicast_ether_addr a1"
      "hdr_addr1 (skb_data (rx_skb rx)) = Inr a1" "hdr_seq_ctrl (skb_data (rx_skb rx)) = Inr sc" "sc AND IEEE80211_SCTL_FRAG \<noteq> 0"
  shows "\<exists>res rx' w' sd'. ieee80211_rx_h_defragment hz now expand rx w = Inr (res, rx', w') \<and>
    sdatas w' sp = Some sd' \<and> defrag_ok sd' \<and> (res = RX_CONTINUE \<longrightarrow> skb_ok (rx_skb rx'))"
proof -
  let ?frag = "sc AND IEEE80211_SCTL_FRAG" and ?seq = "drop_bit 4 (sc AND IEEE80211_SCTL_SEQ)"
  have i: "24 \<le> length (skb_data (rx_skb rx))" "skb_ok (rx_skb rx)" using rx(1) by (auto simp: defrag_input_def)
  have "fragment_next sd < 4" using sd(2) by (simp add: defrag_ok_def table_ok_def)
  from scan_ok [OF sd(2) this i(1)] obtain found sd1 where
    find: "ieee80211_reassemble_find hz now ?frag ?seq (seqno_idx rx) (skb_data (rx_skb rx)) sd = Inr (found, sd1)"
    and sd1: "defrag_ok sd1" "\<And>i. found = Some i \<Longrightarrow> i < 4 \<and> frag_skb_list (fragments sd1 ! i) \<noteq> []"
    unfolding ieee80211_reassemble_find_def by blast
  note unf = ieee80211_rx_h_defragment_def [of hz now expand rx w, unfolded Let_def]
  let ?w = "put_sdata sp sd1 w"
  show ?thesis
  proof (cases found)
    case None
    then show ?thesis using unf f rx(2) sd find sd1(1) f(6) by (simp add: put_sdata_def)
  next
    case (Some idx)
    note x = sd1(2) [OF Some]
    let ?e = "fragments sd1 ! idx"
    have "case rx_key rx of None \<Rightarrow> True
      | Some kp \<Rightarrow> (case keys ?w kp of None \<Rightarrow> False | Some k \<Rightarrow> security_idx rx < length (key_rx_pn k))"
      using rx(1) by (auto simp: defrag_input_def put_sdata_def split: option.splits)
    from check_pn_ok [OF this, of ?e] obtain c where c: "frag_check_pn rx ?w ?e = Inr c"
        "\<And>e'. c = Some e' \<Longrightarrow> frag_skb_list e' = frag_skb_list ?e \<and> extra_len e' = extra_len ?e" by blast
    show ?thesis
    proof (cases c)
      case None
      then show ?thesis
        using unf f rx(2) sd find sd1(1) f(6) Some c(1) by (simp add: put_sdata_def)
    next
      case (Some e0)
      have e0: "frag_entry_ok e0" "frag_skb_list e0 \<noteq> []"
        using c(2) [OF Some] x entry_ok [OF sd1(1)] by (auto intro: entry_ok_cong)
      have "case rx_sta rx of None \<Rightarrow> True | Some p \<Rightarrow> stas ?w p \<noteq> None" using rx(1) by (auto simp: defrag_input_def put_sdata_def split: option.splits)
      from defrag_append_ok [OF sd1(1) e0 i(2) this, of expand fc ?frag sp idx]
      show ?thesis
        using unf f rx(2) sd find f(6) \<open>found = Some idx\<close> c(1) Some by simp
    qed
  qed
qed

text \<open>
  C23: Reassembly is type safe. On a well-formed table and for any frame of at least a header's length, whatever its fields
  say, the handler neither dereferences a null pointer nor leaves a buffer, the table stays
  well-formed, and a frame that is handed on is well-formed.
\<close>

theorem defragment_type_safe:
  assumes "defrag_input rx w" and "rx_sdata rx = Some sp"
  shows "\<exists>res rx' w' sd'. ieee80211_rx_h_defragment hz now expand rx w = Inr (res, rx', w') \<and>
    sdatas w' sp = Some sd' \<and> defrag_ok sd' \<and> (res = RX_CONTINUE \<longrightarrow> skb_ok (rx_skb rx'))"
proof -
  obtain sd where sd: "sdatas w sp = Some sd" "defrag_ok sd" using assms by (auto simp: defrag_input_def split: option.splits)
  have i: "24 \<le> length (skb_data (rx_skb rx))" "skb_ok (rx_skb rx)"
      "case rx_sta rx of None \<Rightarrow> True | Some p \<Rightarrow> stas w p \<noteq> None" using assms(1) by (auto simp: defrag_input_def)
  obtain fc sc a1 a2 where f: "hdr_fc (skb_data (rx_skb rx)) = Inr fc" "hdr_seq_ctrl (skb_data (rx_skb rx)) = Inr sc"
      "hdr_addr1 (skb_data (rx_skb rx)) = Inr a1" using hdr_reads [OF i(1)] by blast
  define frag where "frag = sc AND IEEE80211_SCTL_FRAG"
  define seq where "seq = drop_bit 4 (sc AND IEEE80211_SCTL_SEQ)"
  obtain w0 where w0: "rx_packet rx w = Inr w0" "sdatas w0 = sdatas w" using rx_packet_ok [OF i(3)] by blast
  consider (pass) "ieee80211_is_ctl fc \<or> is_multicast_ether_addr a1 \<or> \<not> ieee80211_has_morefrags fc \<and> frag = 0"
    | (first) "\<not> ieee80211_is_ctl fc" "\<not> is_multicast_ether_addr a1" "ieee80211_has_morefrags fc" "frag = 0"
    | (later) "\<not> ieee80211_is_ctl fc" "\<not> is_multicast_ether_addr a1" "frag \<noteq> 0" by blast
  then show ?thesis
  proof cases
    case pass
    then show ?thesis using f w0 sd i(2) by (auto simp: ieee80211_rx_h_defragment_def frag_def Let_def)
  next
    case first
    obtain sd' where "defrag_first now fc frag seq rx sp sd w = Inr (RX_QUEUED, rx, put_sdata sp sd' w)" "defrag_ok sd'"
      using first_ok [OF assms sd(1)] by blast
    then have "ieee80211_rx_h_defragment hz now expand rx w = Inr (RX_QUEUED, rx, put_sdata sp sd' w)" "defrag_ok sd'"
      using first f sd assms(2) unfolding ieee80211_rx_h_defragment_def Let_def frag_def seq_def by simp_all
    then show ?thesis by (simp add: put_sdata_def)
  next
    case later
    show ?thesis
      using defrag_later_safe [OF assms(1,2) sd f(1) later(1,2)] later(3) f unfolding frag_def by blast
  qed
qed

theorem defragment_type_safe_witness:
  "defrag_input (sample_frag 0x0108 0x11) sample_frag_ap \<and>
   (\<exists>res rx' w' sd'. ieee80211_rx_h_defragment 250 1010 False (sample_frag 0x0108 0x11) sample_frag_ap = Inr (res, rx', w') \<and>
      sdatas w' 2 = Some sd' \<and> defrag_ok sd')"
proof -
  have i: "defrag_input (sample_frag 0x0108 0x11) sample_frag_ap"
  proof -
    have k: "rx_key (sample_frag 0x0108 0x11) = Some 3" by (simp add: sample_frag_def sample_rx_def)
    have l: "24 \<le> length (skb_data (rx_skb (sample_frag a b)))" for a b by (simp add: sample_frag_def sample_rx_def)
    have e: "frag_entry_ok empty_fragment" by (simp add: frag_entry_ok_def empty_fragment_def)
    obtain s k where "stas sample_frag_ap 5 = Some s" "keys sample_frag_ap 3 = Some k" "0 < length (key_rx_pn k)"
      using sample_frag_ap_facts(2,3) by blast
    then show ?thesis
      using k l e sample_frag_fields
      by (simp add: defrag_input_def sample_frag_ap_def Let_def put_key_def put_sdata_def sample_paired_ap_def sample_world_def
          defrag_ok_def table_ok_def put_frag_def frag_entry_ok_def sample_held_def empty_fragment_def numeral_eq_Suc)
  qed
  then show ?thesis using defragment_type_safe [OF i sample_frag_fields(8), of 250 1010 False] by blast
qed

end
