(* ===== verification/Rx.thy ===== *)
theory Rx
  imports Defrag
begin

text \<open>
  The entrance of the receive path (\<^verbatim>\<open>net/mac80211/rx.c\<close>): the frame as the driver hands it over has the
  addresses of its header restored, the station and the interfaces it is for are looked up, each
  interface decides whether to accept it, and the first two handlers filter duplicates and frames of
  the wrong class. What follows (reordering and the handlers of theories \<open>Reorder\<close>, \<open>Cipher_Select\<close> and \<open>Defrag\<close>)
  is an argument here.
\<close>

section \<open>Header fields\<close>

definition hdr_addr3 :: "u8 list \<Rightarrow> mac result" where
  "hdr_addr3 bs = mac_of_bytes (drop 16 bs)"

definition hdr_addr4 :: "u8 list \<Rightarrow> mac result" where
  "hdr_addr4 bs = mac_of_bytes (drop 24 bs)"

abbreviation (input) is_broadcast_ether_addr :: "mac \<Rightarrow> bool" where
  "is_broadcast_ether_addr a \<equiv> a = Mac 0xff 0xff 0xff 0xff 0xff 0xff"

abbreviation (input) RX_FLAG_DUP_VALIDATED :: u32 where "RX_FLAG_DUP_VALIDATED \<equiv> 0x00000800"
abbreviation (input) IEEE80211_RX_AMSDU :: u8 where "IEEE80211_RX_AMSDU \<equiv> 0x08"
abbreviation (input) IEEE80211_NUM_TIDS :: nat where "IEEE80211_NUM_TIDS \<equiv> 16"

definition ieee80211_get_bssid :: "u8 list \<Rightarrow> nat \<Rightarrow> nl80211_iftype \<Rightarrow> mac option result" where
  "ieee80211_get_bssid bs len ty =
     rbind (hdr_fc bs) (\<lambda>fc.
     if ieee80211_is_data fc then
       (if len < 24 then Inr None
        else if ieee80211_has_a4 fc then Inr None
        else if ieee80211_has_tods fc then rbind (hdr_addr1 bs) (\<lambda>a. Inr (Some a))
        else if ieee80211_has_fromds fc then rbind (hdr_addr2 bs) (\<lambda>a. Inr (Some a))
        else rbind (hdr_addr3 bs) (\<lambda>a. Inr (Some a)))
     else if ieee80211_is_mgmt fc then
       (if len < 24 then Inr None else rbind (hdr_addr3 bs) (\<lambda>a. Inr (Some a)))
     else if ieee80211_is_ctl fc \<and> ieee80211_is_pspoll fc then rbind (hdr_addr1 bs) (\<lambda>a. Inr (Some a))
     else if ieee80211_is_ctl fc \<and> ieee80211_is_back_req fc then
       (case ty of
          NL80211_IFTYPE_STATION \<Rightarrow> rbind (hdr_addr2 bs) (\<lambda>a. Inr (Some a))
        | NL80211_IFTYPE_AP \<Rightarrow> rbind (hdr_addr1 bs) (\<lambda>a. Inr (Some a))
        | NL80211_IFTYPE_AP_VLAN \<Rightarrow> rbind (hdr_addr1 bs) (\<lambda>a. Inr (Some a))
        | _ \<Rightarrow> Inr None)
     else Inr None)"

definition ieee80211_bssid_match :: "mac \<Rightarrow> mac \<Rightarrow> bool" where
  "ieee80211_bssid_match raddr addr \<longleftrightarrow> raddr = addr \<or> is_broadcast_ether_addr raddr"

text \<open>The second component of the result is \<open>skb->priority\<close>.\<close>

definition ieee80211_parse_qos :: "ieee80211_rx_data \<Rightarrow> (ieee80211_rx_data \<times> nat) result" where
  "ieee80211_parse_qos rx =
     (let bs = skb_data (rx_skb rx) in
      rbind (hdr_fc bs) (\<lambda>fc.
      if ieee80211_is_data_qos fc then
        rbind (arr_get bs (ieee80211_get_qos_ctl fc)) (\<lambda>qc.
        let tid = unat (qc AND 0x0f);
            rx = (if qc AND 0x80 \<noteq> 0 then rx\<lparr>rx_status_rx_flags := rx_status_rx_flags rx OR IEEE80211_RX_AMSDU\<rparr> else rx)
        in Inr (rx\<lparr>seqno_idx := tid, security_idx := tid\<rparr>, if tid > 7 then 0 else tid))
      else
        Inr (rx\<lparr>seqno_idx := IEEE80211_NUM_TIDS,
                security_idx := (if ieee80211_is_mgmt fc then IEEE80211_NUM_TIDS else 0)\<rparr>, 0)))"

section \<open>What the path depends on\<close>

text \<open>
  Which interfaces are running, the peer links of a mesh (whose state machine is not modelled), the
  answers of \<open>cfg80211_rx_spurious_frame\<close> and of the memory allocation of \<open>skb_copy\<close>, the fast receive path, which may
  take a frame over, and the rest of the path.
\<close>

record rx_env =
  sdata_running :: "sdata_ptr \<Rightarrow> bool"
  plink_estab :: "sta_ptr \<Rightarrow> bool"
  spurious_frame :: bool
  copy_ok :: bool
  invoke_fast_rx :: "ieee80211_rx_data \<Rightarrow> world \<Rightarrow> (bool \<times> world) result"
  rx_rest :: "ieee80211_rx_data \<Rightarrow> world \<Rightarrow> world result"

section \<open>The first handlers\<close>

definition ieee80211_rx_h_check_dup :: "ieee80211_rx_data \<Rightarrow> world \<Rightarrow> (ieee80211_rx_result \<times> world) result" where
  "ieee80211_rx_h_check_dup rx w =
     (let bs = skb_data (rx_skb rx) in
      if rx_status_flag rx AND RX_FLAG_DUP_VALIDATED \<noteq> 0 then Inr (RX_CONTINUE, w)
      else if skb_len (rx_skb rx) < 24 then Inr (RX_CONTINUE, w)
      else
        rbind (hdr_fc bs) (\<lambda>fc.
        rbind (hdr_addr1 bs) (\<lambda>a1.
        if ieee80211_is_ctl fc \<or> ieee80211_is_any_nullfunc fc \<or> is_multicast_ether_addr a1 then Inr (RX_CONTINUE, w)
        else
          (case rx_sta rx of
             None \<Rightarrow> Inr (RX_CONTINUE, w)
           | Some p \<Rightarrow>
               rbind (deref (stas w) p) (\<lambda>sta.
               rbind (hdr_seq_ctrl bs) (\<lambda>sc.
               rbind (arr_get (last_seq_ctrl sta) (seqno_idx rx)) (\<lambda>last.
               if ieee80211_has_retry fc \<and> last = sc
               then Inr (RX_DROP_UNUSABLE, put_sta p (sta\<lparr>num_duplicates := num_duplicates sta + 1\<rparr>) w)
               else if rx_status_flag rx AND RX_FLAG_AMSDU_MORE = 0
               then Inr (RX_CONTINUE, put_sta p (sta\<lparr>last_seq_ctrl := (last_seq_ctrl sta)[seqno_idx rx := sc]\<rparr>) w)
               else Inr (RX_CONTINUE, w))))))))"

definition ieee80211_rx_mesh_check :: "rx_env \<Rightarrow> ieee80211_rx_data \<Rightarrow> world \<Rightarrow> ieee80211_rx_result result" where
  "ieee80211_rx_mesh_check E rx w =
     (let bs = skb_data (rx_skb rx) in
      rbind (rx_sdata_of rx w) (\<lambda>sdata.
      rbind (hdr_fc bs) (\<lambda>fc.
      rbind (hdr_addr1 bs) (\<lambda>a1.
      rbind (if \<not> ieee80211_is_data fc then Inr False
             else if is_multicast_ether_addr a1 then
               if ieee80211_has_tods fc \<or> \<not> ieee80211_has_fromds fc then Inr True
               else rbind (hdr_addr3 bs) (\<lambda>a3. Inr (a3 = vif_addr sdata))
             else if \<not> ieee80211_has_a4 fc then Inr True
             else rbind (hdr_addr4 bs) (\<lambda>a4. Inr (a4 = vif_addr sdata))) (\<lambda>drop.
      if drop then Inr RX_DROP_MONITOR
      else if (case rx_sta rx of None \<Rightarrow> True | Some p \<Rightarrow> \<not> plink_estab E p) then
        if \<not> ieee80211_is_mgmt fc then Inr RX_DROP_MONITOR
        else if ieee80211_is_action fc then
          if skb_len (rx_skb rx) < IEEE80211_MIN_ACTION_SIZE then Inr RX_DROP_MONITOR
          else
            rbind (arr_get bs 24) (\<lambda>category.
            if category \<noteq> 13 \<and> category \<noteq> 15 then Inr RX_DROP_MONITOR else Inr RX_CONTINUE)
        else if ieee80211_is_probe_req fc \<or> ieee80211_is_probe_resp fc \<or> ieee80211_is_beacon fc \<or> ieee80211_is_auth fc
        then Inr RX_CONTINUE
        else Inr RX_DROP_MONITOR
      else Inr RX_CONTINUE)))))"

text \<open>
  The class filter. On a station's interface a deauthentication frame also removes the pair filed
  under the random address \<^verbatim>\<open>addr1\<close>. \<open>rx_not_assoc\<close> is the condition under which a data or poll frame is looked at
  closer.
\<close>

definition rx_not_assoc :: "u16 \<Rightarrow> nl80211_iftype \<Rightarrow> sta_info option \<Rightarrow> bool" where
  "rx_not_assoc fc ty sta \<longleftrightarrow>
     (ieee80211_is_data fc \<or> ieee80211_is_pspoll fc) \<and>
     ty \<noteq> NL80211_IFTYPE_ADHOC \<and> ty \<noteq> NL80211_IFTYPE_WDS \<and> ty \<noteq> NL80211_IFTYPE_OCB \<and>
     (case sta of None \<Rightarrow> True | Some s \<Rightarrow> sta_state s < IEEE80211_STA_ASSOC)"

definition ieee80211_rx_h_check :: "rx_env \<Rightarrow> ieee80211_rx_data \<Rightarrow> world \<Rightarrow> (ieee80211_rx_result \<times> world) result" where
  "ieee80211_rx_h_check E rx w =
     (let skb = rx_skb rx; bs = skb_data skb in
      rbind (hdr_fc bs) (\<lambda>fc.
      rbind (hdr_addr1 bs) (\<lambda>a1.
      rbind (rx_sdata_of rx w) (\<lambda>sdata.
      let w = (if ieee80211_is_deauth fc \<and> vif_type sdata = NL80211_IFTYPE_STATION
               then w\<lparr>s_translation_table := s_delete_entry a1 (s_translation_table w)\<rparr> else w)
      in
      if vif_type sdata = NL80211_IFTYPE_MESH_POINT
      then rbind (ieee80211_rx_mesh_check E rx w) (\<lambda>res. Inr (res, w))
      else
        rbind (rx_sta_of rx w) (\<lambda>sta.
        if \<not> rx_not_assoc fc (vif_type sdata) sta then Inr (RX_CONTINUE, w)
        else
          let eapol = (sta \<noteq> None \<and> vif_type sdata = NL80211_IFTYPE_STATION \<and> ieee80211_is_data_present fc);
              hdrlen = ieee80211_hdrlen fc
          in if eapol \<and> skb_len skb < hdrlen + 8 then Inr (RX_DROP_MONITOR, w)
             else
               rbind (if eapol
                      then rbind (arr_get bs (hdrlen + 6)) (\<lambda>hi. rbind (arr_get bs (hdrlen + 7)) (\<lambda>lo.
                           Inr (le16_of lo hi = control_port_protocol sdata)))
                      else Inr False) (\<lambda>port.
               if port then Inr (RX_CONTINUE, w)
               else if vif_type sdata = NL80211_IFTYPE_AP \<and> spurious_frame E then Inr (RX_DROP_UNUSABLE, w)
               else Inr (RX_DROP_MONITOR, w)))))))"

text \<open>
  Polling for buffered frames: the result has the new value of \<open>local->pspolling\<close> and whether another poll is sent.
\<close>

definition ieee80211_rx_h_check_more_data :: "bool \<Rightarrow> ieee80211_rx_data \<Rightarrow> (ieee80211_rx_result \<times> bool \<times> bool) result" where
  "ieee80211_rx_h_check_more_data pspolling rx =
     (if \<not> pspolling then Inr (RX_CONTINUE, pspolling, False)
      else
        rbind (hdr_fc (skb_data (rx_skb rx))) (\<lambda>fc.
        if \<not> ieee80211_has_fromds fc then Inr (RX_CONTINUE, pspolling, False)
        else if \<not> ieee80211_is_data fc then Inr (RX_CONTINUE, pspolling, False)
        else if \<not> ieee80211_has_moredata fc then Inr (RX_CONTINUE, False, False)
        else Inr (RX_CONTINUE, pspolling, True)))"

section \<open>Acceptance by an interface\<close>

text \<open>
  The second component says whether the frame comes from a station still unknown to an ad-hoc or OCB
  interface, which then has one added (\<open>ieee80211_ibss_rx_no_sta\<close>, \<open>ieee80211_ocb_rx_no_sta\<close>).
\<close>

definition accept_ap :: "u16 \<Rightarrow> mac \<Rightarrow> mac option \<Rightarrow> ieee80211_sub_if_data \<Rightarrow> sk_buff \<Rightarrow> (bool \<times> bool) result" where
  "accept_ap fc a1 bssid sdata skb =
     (let multicast = is_multicast_ether_addr a1; mine = (vif_addr sdata = a1) in
      case bssid of
        None \<Rightarrow> Inr (mine, False)
      | Some b \<Rightarrow>
          if \<not> ieee80211_bssid_match b (vif_addr sdata) then
            if \<not> multicast \<and> \<not> mine then Inr (False, False)
            else
              rbind (ieee80211_is_public_action (skb_len skb) (skb_data skb)) (\<lambda>public.
              Inr (public \<or> ieee80211_is_beacon fc, False))
          else if \<not> ieee80211_has_tods fc \<and> ieee80211_is_data fc then Inr (False, False)
          else if \<not> ieee80211_has_tods fc \<and> ieee80211_is_action fc \<and> \<not> is_broadcast_ether_addr b \<and> b \<noteq> a1
          then Inr (False, False)
          else if ieee80211_is_data fc \<and> multicast then Inr (False, False)
          else Inr (True, False))"

definition ieee80211_accept_frame :: "ieee80211_rx_data \<Rightarrow> world \<Rightarrow> (bool \<times> bool) result" where
  "ieee80211_accept_frame rx w =
     (let skb = rx_skb rx; bs = skb_data skb in
      rbind (rx_sdata_of rx w) (\<lambda>sdata.
      rbind (hdr_fc bs) (\<lambda>fc.
      rbind (hdr_addr1 bs) (\<lambda>a1.
      rbind (ieee80211_get_bssid bs (skb_len skb) (vif_type sdata)) (\<lambda>bssid.
      let multicast = is_multicast_ether_addr a1; mine = (vif_addr sdata = a1); no_sta = (rx_sta rx = None) in
      case vif_type sdata of
        NL80211_IFTYPE_STATION \<Rightarrow>
          if bssid = None \<and> \<not> use_4addr sdata then Inr (False, False)
          else
            rbind (ieee80211_is_robust_mgmt_frame (skb_len skb) bs) (\<lambda>robust.
            if robust \<and> no_sta then Inr (False, False)
            else Inr (multicast \<or> mine, False))
      | NL80211_IFTYPE_ADHOC \<Rightarrow>
          (case bssid of
             None \<Rightarrow> Inr (False, False)
           | Some b \<Rightarrow>
               rbind (hdr_addr2 bs) (\<lambda>a2.
               if vif_addr sdata = a2 \<or> ibss_bssid sdata = a2 then Inr (False, False)
               else if ieee80211_is_beacon fc then Inr (True, False)
               else if \<not> ieee80211_bssid_match b (ibss_bssid sdata) then Inr (False, False)
               else if \<not> multicast \<and> \<not> mine then Inr (False, False)
               else Inr (True, no_sta)))
      | NL80211_IFTYPE_OCB \<Rightarrow>
          (case bssid of
             None \<Rightarrow> Inr (False, False)
           | Some b \<Rightarrow>
               if \<not> ieee80211_is_data_present fc then Inr (False, False)
               else if \<not> is_broadcast_ether_addr b then Inr (False, False)
               else if \<not> multicast \<and> dev_addr sdata \<noteq> a1 then Inr (False, False)
               else Inr (True, no_sta))
      | NL80211_IFTYPE_MESH_POINT \<Rightarrow>
          rbind (hdr_addr2 bs) (\<lambda>a2.
          if vif_addr sdata = a2 then Inr (False, False) else Inr (multicast \<or> mine, False))
      | NL80211_IFTYPE_AP_VLAN \<Rightarrow> accept_ap fc a1 bssid sdata skb
      | NL80211_IFTYPE_AP \<Rightarrow> accept_ap fc a1 bssid sdata skb
      | NL80211_IFTYPE_WDS \<Rightarrow>
          if bssid \<noteq> None \<or> \<not> ieee80211_is_data fc then Inr (False, False)
          else rbind (hdr_addr2 bs) (\<lambda>a2. Inr (wds_remote_addr sdata = a2, False))
      | NL80211_IFTYPE_P2P_DEVICE \<Rightarrow>
          rbind (ieee80211_is_public_action (skb_len skb) bs) (\<lambda>public.
          Inr (public \<or> ieee80211_is_probe_req fc \<or> ieee80211_is_probe_resp fc \<or> ieee80211_is_beacon fc, False))
      | _ \<Rightarrow> Inr (False, False))))))"

section \<open>From the driver to the handlers\<close>

definition ieee80211_invoke_rx_handlers :: "rx_env \<Rightarrow> ieee80211_rx_data \<Rightarrow> world \<Rightarrow> world result" where
  "ieee80211_invoke_rx_handlers E rx w =
     rbind (ieee80211_rx_h_check_dup rx w) (\<lambda>(res, w).
     if res \<noteq> RX_CONTINUE then Inr w
     else
       rbind (ieee80211_rx_h_check E rx w) (\<lambda>(res, w).
       if res \<noteq> RX_CONTINUE then Inr w
       else rx_rest E rx w))"

text \<open>A frame that is not consumed is copied, and the copy handled; a failed copy counts as handled.\<close>

definition ieee80211_prepare_and_rx_handle ::
  "rx_env \<Rightarrow> ieee80211_rx_data \<Rightarrow> bool \<Rightarrow> world \<Rightarrow> (bool \<times> world) result" where
  "ieee80211_prepare_and_rx_handle E rx consume w =
     rbind (if consume \<and> rx_sta rx \<noteq> None then invoke_fast_rx E rx w else Inr (False, w)) (\<lambda>(fast, w).
     if fast then Inr (True, w)
     else
       rbind (ieee80211_accept_frame rx w) (\<lambda>(accepted, _).
       if \<not> accepted then Inr (False, w)
       else if \<not> consume \<and> \<not> copy_ok E then Inr (True, w)
       else rbind (ieee80211_invoke_rx_handlers E rx w) (\<lambda>w. Inr (True, w))))"

fun sta_info_get_bss_loop :: "world \<Rightarrow> sdata_ptr \<Rightarrow> sta_ptr list \<Rightarrow> sta_ptr option result" where
  "sta_info_get_bss_loop w sp [] = Inr None"
| "sta_info_get_bss_loop w sp (p # ps) =
     rbind (deref (stas w) p) (\<lambda>s.
     rbind (deref (sdatas w) (sta_sdata s)) (\<lambda>ssd.
     rbind (deref (sdatas w) sp) (\<lambda>sd.
     if sta_sdata s = sp \<or> sdata_bss ssd \<noteq> None \<and> sdata_bss ssd = sdata_bss sd then Inr (Some p)
     else sta_info_get_bss_loop w sp ps)))"

definition sta_info_get_bss :: "world \<Rightarrow> sdata_ptr \<Rightarrow> mac \<Rightarrow> sta_ptr option result" where
  "sta_info_get_bss w sp addr = sta_info_get_bss_loop w sp (sta_hash w addr)"

text \<open>The loop over the stations with the transmitter's address: the last one consumes the frame.\<close>

fun rx_stas :: "rx_env \<Rightarrow> ieee80211_rx_data \<Rightarrow> sta_ptr list \<Rightarrow> world \<Rightarrow> world result" where
  "rx_stas E rx [] w = Inr w"
| "rx_stas E rx (p # ps) w =
     rbind (deref (stas w) p) (\<lambda>s.
     rbind (ieee80211_prepare_and_rx_handle E (rx\<lparr>rx_sta := Some p, rx_sdata := Some (sta_sdata s)\<rparr>) (ps = []) w) (\<lambda>(_, w).
     rx_stas E rx ps w))"

text \<open>The loop over the interfaces, with the interface \<open>prev\<close> still to be served.\<close>

definition rx_iface :: "rx_env \<Rightarrow> ieee80211_rx_data \<Rightarrow> bool \<Rightarrow> sdata_ptr \<Rightarrow> world \<Rightarrow> world result" where
  "rx_iface E rx consume sp w =
     rbind (hdr_addr2 (skb_data (rx_skb rx))) (\<lambda>a2.
     rbind (sta_info_get_bss w sp a2) (\<lambda>sta.
     rbind (ieee80211_prepare_and_rx_handle E (rx\<lparr>rx_sta := sta, rx_sdata := Some sp\<rparr>) consume w) (\<lambda>(_, w). Inr w)))"

fun rx_ifaces :: "rx_env \<Rightarrow> ieee80211_rx_data \<Rightarrow> sdata_ptr option \<Rightarrow> sdata_ptr list \<Rightarrow> world \<Rightarrow> world result" where
  "rx_ifaces E rx prev [] w = (case prev of None \<Rightarrow> Inr w | Some sp \<Rightarrow> rx_iface E rx True sp w)"
| "rx_ifaces E rx prev (sp # sps) w =
     (if \<not> sdata_running E sp then rx_ifaces E rx prev sps w
      else
        rbind (deref (sdatas w) sp) (\<lambda>sd.
        if vif_type sd = NL80211_IFTYPE_MONITOR \<or> vif_type sd = NL80211_IFTYPE_AP_VLAN then rx_ifaces E rx prev sps w
        else
          (case prev of
             None \<Rightarrow> rx_ifaces E rx (Some sp) sps w
           | Some q \<Rightarrow> rbind (rx_iface E rx False q w) (\<lambda>w. rx_ifaces E rx (Some sp) sps w))))"

text \<open>
  \<open>__ieee80211_rx_handle_packet\<close>. \<open>rx\<close> carries the buffer and its receive status, and no station, interface or key yet;
  \<open>pubsta\<close> is the station the driver names, if it does. The address rewriting works on the buffer in
  place. Beacons and probe responses are also passed to the scan code, which does not change what is
  modelled.
\<close>

definition rx_restore_addrs ::
  "(u8 list \<Rightarrow> u8 list) \<Rightarrow> gen_env \<Rightarrow> int \<Rightarrow> u8 list \<Rightarrow> world \<Rightarrow> (u8 list \<times> world) result" where
  "rx_restore_addrs sha1 env now bs w =
     (if RND_MAC w then
        rbind (hdr_load bs) (\<lambda>hdr.
        rbind (mac_addr_change_hdr_rx sha1 env now True hdr w) (\<lambda>(hdr, w). Inr (hdr_store hdr bs, w)))
      else Inr (bs, w))"

definition rx_handle_packet ::
  "(u8 list \<Rightarrow> u8 list) \<Rightarrow> gen_env \<Rightarrow> int \<Rightarrow> rx_env \<Rightarrow> sta_ptr option \<Rightarrow> ieee80211_rx_data \<Rightarrow> world \<Rightarrow> world result" where
  "rx_handle_packet sha1 env now E pubsta rx w =
     (let skb = rx_skb rx in
      rbind (hdr_fc (skb_data skb)) (\<lambda>fc.
      if skb_len skb < ieee80211_hdrlen fc then Inr w
      else
        rbind (ieee80211_parse_qos rx) (\<lambda>(rx, _).
        rbind (rx_restore_addrs sha1 env now (skb_data skb) w) (\<lambda>(bs, w).
        let rx = rx\<lparr>rx_skb := skb\<lparr>skb_data := bs\<rparr>\<rparr> in
        rbind (if ieee80211_is_data fc
               then (case pubsta of Some p \<Rightarrow> Inr [p] | None \<Rightarrow> rbind (hdr_addr2 bs) (\<lambda>a2. Inr (sta_hash w a2)))
               else Inr []) (\<lambda>ps.
        if ps \<noteq> [] then rx_stas E rx ps w else rx_ifaces E rx None (interfaces w) w)))))"

section \<open>Facts\<close>

lemma parse_qos_keeps:
  assumes "ieee80211_parse_qos rx = Inr (rx', prio)"
  shows "rx_skb rx' = rx_skb rx" "rx_status_flag rx' = rx_status_flag rx" "rx_key rx' = rx_key rx" "seqno_idx rx' \<le> 16"
    "security_idx rx' \<le> 16"
proof -
  have le: "unat (b AND 0x0f) \<le> 16" for b :: u8
    using word_and_le1 [of b "0x0f"] by (simp add: word_le_nat_alt)
  obtain fc where fc: "hdr_fc (skb_data (rx_skb rx)) = Inr fc"
    using assms by (auto simp: ieee80211_parse_qos_def Let_def elim!: rbind_InrE)
  obtain i j fl where "rx' = rx\<lparr>rx_status_rx_flags := fl, seqno_idx := i, security_idx := j\<rparr>" "i \<le> 16" "j \<le> 16"
  proof (cases "ieee80211_is_data_qos fc")
    case True
    then obtain qc where "arr_get (skb_data (rx_skb rx)) (ieee80211_get_qos_ctl fc) = Inr qc"
      using assms fc by (auto simp: ieee80211_parse_qos_def Let_def elim!: rbind_InrE)
    then have "rx' = (if qc AND 0x80 \<noteq> 0 then rx\<lparr>rx_status_rx_flags := rx_status_rx_flags rx OR IEEE80211_RX_AMSDU\<rparr> else rx)
        \<lparr>seqno_idx := unat (qc AND 0x0f), security_idx := unat (qc AND 0x0f)\<rparr>"
      using assms fc True by (simp add: ieee80211_parse_qos_def Let_def split del: if_split)
    with le [of qc] show ?thesis
      by (intro that [of _ _ "if qc AND 0x80 \<noteq> 0 then rx_status_rx_flags rx OR IEEE80211_RX_AMSDU else rx_status_rx_flags rx"]) simp_all
  next
    case False
    then show ?thesis
      using assms fc by (intro that [of "if ieee80211_is_mgmt fc then 16 else 0" 16 "rx_status_rx_flags rx"])
        (auto simp: ieee80211_parse_qos_def Let_def)
  qed
  then show "rx_skb rx' = rx_skb rx" "rx_status_flag rx' = rx_status_flag rx" "rx_key rx' = rx_key rx" "seqno_idx rx' \<le> 16"
    "security_idx rx' \<le> 16" by simp_all
qed

lemma fc_type_of: "fc AND 0xfc = c \<Longrightarrow> fc AND 0xc = c AND 0xc" for fc c :: u16
proof -
  have "fc AND 0xc = (fc AND 0xfc) AND 0xc" by (simp add: and.assoc)
  then show "fc AND 0xfc = c \<Longrightarrow> ?thesis" by simp
qed

text \<open>What a data frame from an associated station to the access point passes on its way to the rest of the path.\<close>

lemma ap_accepts_uplink:
  assumes "rx_sdata rx = Some sp" "sdatas w sp = Some sd" "vif_type sd = NL80211_IFTYPE_AP"
    and "hdr_fc (skb_data (rx_skb rx)) = Inr fc" "ieee80211_is_data fc" "ieee80211_has_tods fc" "\<not> ieee80211_has_a4 fc"
    and "hdr_addr1 (skb_data (rx_skb rx)) = Inr (vif_addr sd)" "\<not> is_multicast_ether_addr (vif_addr sd)"
    and "24 \<le> skb_len (rx_skb rx)"
  shows "ieee80211_accept_frame rx w = Inr (True, False)"
  using assms by (simp add: ieee80211_accept_frame_def ieee80211_get_bssid_def rx_sdata_of_def accept_ap_def
      ieee80211_bssid_match_def Let_def)

definition seen_seq :: "nat \<Rightarrow> u16 \<Rightarrow> sta_info \<Rightarrow> sta_info" where
  "seen_seq i sc s = s\<lparr>last_seq_ctrl := (last_seq_ctrl s)[i := sc]\<rparr>"

lemma check_dup_fresh:
  assumes "hdr_fc (skb_data (rx_skb rx)) = Inr fc" "ieee80211_is_data fc" "\<not> ieee80211_is_any_nullfunc fc"
    and "hdr_addr1 (skb_data (rx_skb rx)) = Inr a1" "\<not> is_multicast_ether_addr a1"
    and "hdr_seq_ctrl (skb_data (rx_skb rx)) = Inr sc" "24 \<le> skb_len (rx_skb rx)" "rx_status_flag rx = 0"
    and "rx_sta rx = Some p" "stas w p = Some s" "seqno_idx rx < length (last_seq_ctrl s)"
    and "\<not> (ieee80211_has_retry fc \<and> last_seq_ctrl s ! seqno_idx rx = sc)"
  shows "ieee80211_rx_h_check_dup rx w = Inr (RX_CONTINUE, put_sta p (seen_seq (seqno_idx rx) sc s) w)"
proof -
  have "\<not> ieee80211_is_ctl fc" using assms(2) by (auto simp: ieee80211_is_ctl_def ieee80211_is_data_def)
  then show ?thesis using assms by (auto simp: ieee80211_rx_h_check_dup_def seen_seq_def Let_def)
qed

lemma check_associated:
  assumes "rx_sdata rx = Some sp" "sdatas w sp = Some sd" "vif_type sd = NL80211_IFTYPE_AP"
    and "hdr_fc (skb_data (rx_skb rx)) = Inr fc" "hdr_addr1 (skb_data (rx_skb rx)) = Inr a1"
    and "rx_sta rx = Some p" "stas w p = Some s" "IEEE80211_STA_ASSOC \<le> sta_state s"
  shows "ieee80211_rx_h_check E rx w = Inr (RX_CONTINUE, w)"
  using assms by (simp add: ieee80211_rx_h_check_def rx_sdata_of_def rx_sta_of_def rx_not_assoc_def Let_def not_less)

lemma handle_packet_uplink:
  assumes bs: "rx_restore_addrs sha1 env now (skb_data (rx_skb rx)) w = Inr (bs, w')"
    and old: "hdr_fc (skb_data (rx_skb rx)) = Inr fc" "ieee80211_hdrlen fc \<le> skb_len (rx_skb rx)" "rx_status_flag rx = 0"
    and qos: "ieee80211_parse_qos rx = Inr (rxq, prio)"
    and fc: "hdr_fc bs = Inr fc" "ieee80211_is_data fc" "ieee80211_has_tods fc" "\<not> ieee80211_has_a4 fc" "\<not> ieee80211_is_any_nullfunc fc"
    and ad: "hdr_addr1 bs = Inr (vif_addr sd)" "\<not> is_multicast_ether_addr (vif_addr sd)" "hdr_addr2 bs = Inr a2"
      "sta_hash w' a2 = [p]"
    and sq: "hdr_seq_ctrl bs = Inr sc" "seqno_idx rxq < length (last_seq_ctrl s)"
      "\<not> (ieee80211_has_retry fc \<and> last_seq_ctrl s ! seqno_idx rxq = sc)"
    and st: "stas w' p = Some s" "IEEE80211_STA_ASSOC \<le> sta_state s" "sdatas w' (sta_sdata s) = Some sd"
      "vif_type sd = NL80211_IFTYPE_AP"
    and fast: "\<And>r v. invoke_fast_rx E r v = Inr (False, v)"
  shows "rx_handle_packet sha1 env now E None rx w =
    rx_rest E (rxq\<lparr>rx_skb := (rx_skb rx)\<lparr>skb_data := bs\<rparr>, rx_sta := Some p, rx_sdata := Some (sta_sdata s)\<rparr>)
      (put_sta p (seen_seq (seqno_idx rxq) sc s) w')"
proof -
  let ?rx = "rxq\<lparr>rx_skb := (rx_skb rx)\<lparr>skb_data := bs\<rparr>, rx_sta := Some p, rx_sdata := Some (sta_sdata s)\<rparr>"
  let ?w = "put_sta p (seen_seq (seqno_idx rxq) sc s) w'"
  have hl: "24 \<le> skb_len (rx_skb rx)" using old(2) fc(2) by (simp add: ieee80211_hdrlen_def Let_def split: if_splits)
  note q = parse_qos_keeps [OF qos]
  have acc: "ieee80211_accept_frame ?rx w' = Inr (True, False)"
    using st fc ad hl by (intro ap_accepts_uplink [where sp = "sta_sdata s" and sd = sd and fc = fc]) simp_all
  have dup: "ieee80211_rx_h_check_dup ?rx w' = Inr (RX_CONTINUE, ?w)"
    using check_dup_fresh [of ?rx fc "vif_addr sd" sc p w' s] st fc ad sq hl old(3) q(2) by simp
  have chk: "ieee80211_rx_h_check E ?rx ?w = Inr (RX_CONTINUE, ?w)"
    using st fc ad by (intro check_associated [where sp = "sta_sdata s" and sd = sd and p = p and s = "seen_seq (seqno_idx rxq) sc s"])
      (simp_all add: put_sta_def seen_seq_def)
  have "ieee80211_prepare_and_rx_handle E ?rx True w' = rbind (rx_rest E ?rx ?w) (\<lambda>w. Inr (True, w))"
    using acc dup chk fast by (simp add: ieee80211_prepare_and_rx_handle_def ieee80211_invoke_rx_handlers_def)
  then show ?thesis
    using old bs qos ad fc st by (cases "rx_rest E ?rx ?w") (simp_all add: rx_handle_packet_def Let_def)
qed

section \<open>Properties\<close>

text \<open>
  An access point takes data addressed to it only. Whatever frame of data type an access point's interface (or
  one of its VLANs) accepts has the interface's own address as its receiver; group-addressed data and data
  for other receivers are refused.
\<close>

theorem ap_accepts_own_data_only:
  assumes "ieee80211_accept_frame rx w = Inr (True, no_sta)" and "rx_sdata rx = Some sp" "sdatas w sp = Some sd"
    and "vif_type sd = NL80211_IFTYPE_AP \<or> vif_type sd = NL80211_IFTYPE_AP_VLAN"
    and "hdr_fc (skb_data (rx_skb rx)) = Inr fc" "ieee80211_is_data fc"
  shows "hdr_addr1 (skb_data (rx_skb rx)) = Inr (vif_addr sd)"
proof -
  let ?bs = "skb_data (rx_skb rx)" and ?len = "skb_len (rx_skb rx)"
  obtain a1 b where a: "hdr_addr1 ?bs = Inr a1" "ieee80211_get_bssid ?bs ?len (vif_type sd) = Inr b"
      "accept_ap fc a1 b sd (rx_skb rx) = Inr (True, no_sta)"
    using assms by (auto simp: ieee80211_accept_frame_def rx_sdata_of_def Let_def elim!: rbind_InrE)
  have na: "\<not> ieee80211_is_action fc" "\<not> ieee80211_is_beacon fc"
    using assms(6) by (auto simp: ieee80211_is_action_def ieee80211_is_beacon_def ieee80211_is_data_def fc_type_stype_def dest!: fc_type_of)
  have "vif_addr sd = a1"
  proof (cases b)
    case None
    then show ?thesis using a(3) by (simp add: accept_ap_def Let_def)
  next
    case (Some c)
    have pub: "ieee80211_is_public_action ?len ?bs = Inr False"
      using na assms(5) by (simp add: ieee80211_is_public_action_def)
    then have m: "ieee80211_bssid_match c (vif_addr sd)" "ieee80211_has_tods fc" "\<not> is_multicast_ether_addr a1"
      using a(3) Some na assms(6) by (auto simp: accept_ap_def Let_def split: if_split_asm)
    then have "c = a1" using a(1,2) Some assms(5,6) by (auto simp: ieee80211_get_bssid_def split: if_split_asm)
    then show ?thesis using m by (auto simp: ieee80211_bssid_match_def)
  qed
  then show ?thesis using a(1) by simp
qed

text \<open>
  Duplicate detection. After a unicast data or management frame of a known station has passed, its retransmission
  (the same sequence control, with the retry bit set, on the same counter) is dropped and counted,
  and changes nothing else.
\<close>

theorem retransmission_dropped:
  assumes "ieee80211_rx_h_check_dup rx w = Inr (RX_CONTINUE, w')" and "rx_sta rx = Some p" "stas w p = Some s"
    and "hdr_fc (skb_data (rx_skb rx)) = Inr fc" "\<not> ieee80211_is_ctl fc" "\<not> ieee80211_is_any_nullfunc fc"
    and "hdr_addr1 (skb_data (rx_skb rx)) = Inr a1" "\<not> is_multicast_ether_addr a1" "24 \<le> skb_len (rx_skb rx)"
    and "hdr_seq_ctrl (skb_data (rx_skb rx)) = Inr sc"
    and "rx_status_flag rx AND RX_FLAG_DUP_VALIDATED = 0" "rx_status_flag rx AND RX_FLAG_AMSDU_MORE = 0"
    and again: "rx_sta rx2 = Some p" "seqno_idx rx2 = seqno_idx rx" "skb_len (rx_skb rx2) = skb_len (rx_skb rx)"
      "hdr_fc (skb_data (rx_skb rx2)) = Inr fc2" "\<not> ieee80211_is_ctl fc2" "\<not> ieee80211_is_any_nullfunc fc2" "ieee80211_has_retry fc2"
      "hdr_addr1 (skb_data (rx_skb rx2)) = Inr a1" "hdr_seq_ctrl (skb_data (rx_skb rx2)) = Inr sc"
      "rx_status_flag rx2 AND RX_FLAG_DUP_VALIDATED = 0"
  shows "\<exists>s'. stas w' p = Some s' \<and> last_seq_ctrl s' ! seqno_idx rx = sc \<and>
    ieee80211_rx_h_check_dup rx2 w' = Inr (RX_DROP_UNUSABLE, put_sta p (s'\<lparr>num_duplicates := num_duplicates s' + 1\<rparr>) w')"
proof -
  from assms(1) have i: "seqno_idx rx < length (last_seq_ctrl s)"
    and w': "w' = put_sta p (s\<lparr>last_seq_ctrl := (last_seq_ctrl s)[seqno_idx rx := sc]\<rparr>) w"
    using assms(2-12) by (auto simp: ieee80211_rx_h_check_dup_def Let_def arr_get_def split: if_split_asm)
  show ?thesis
    using again assms(8,9) i unfolding w' by (simp add: put_sta_def ieee80211_rx_h_check_dup_def Let_def)
qed


definition sample_rx_env :: rx_env where
  "sample_rx_env = \<lparr>sdata_running = (\<lambda>_. True), plink_estab = (\<lambda>_. False), spurious_frame = False, copy_ok = True,
     invoke_fast_rx = (\<lambda>_ w. Inr (False, w)), rx_rest = (\<lambda>_ w. Inr w)\<rparr>"

theorem ap_accepts_own_data_only_witness:
  "ieee80211_accept_frame (sample_frag 0x0108 0x11) sample_paired_ap = Inr (True, False) \<and>
   hdr_addr1 (skb_data (rx_skb (sample_frag 0x0108 0x11))) = Inr sample_iface"
proof -
  define sd where "sd = the (sdatas sample_paired_ap 2)"
  have sd: "sdatas sample_paired_ap 2 = Some sd" "vif_type sd = NL80211_IFTYPE_AP" "vif_addr sd = sample_iface"
    by (simp_all add: sd_def sample_paired_ap_def sample_world_def)
  have fc: "ieee80211_is_data 0x0108" "ieee80211_has_tods 0x0108" "\<not> ieee80211_has_a4 0x0108" "\<not> is_multicast_ether_addr sample_iface"
    by (simp_all add: ieee80211_is_data_def ieee80211_has_tods_def ieee80211_has_a4_def sample_iface_def)
  have acc: "ieee80211_accept_frame (sample_frag 0x0108 0x11) sample_paired_ap = Inr (True, False)"
    using sd fc by (intro ap_accepts_uplink [where sd = sd and sp = 2 and fc = "0x0108"]) (simp_all add: sample_frag_fields)
  then show ?thesis
    using ap_accepts_own_data_only [OF acc sample_frag_fields(8) sd(1) _ sample_frag_fields(1) fc(1)] sd by simp
qed

theorem retransmission_dropped_witness:
  "\<exists>w' s'. ieee80211_rx_h_check_dup (sample_frag 0x0108 0x20) sample_paired_ap = Inr (RX_CONTINUE, w') \<and> stas w' 5 = Some s' \<and>
     ieee80211_rx_h_check_dup (sample_frag 0x0908 0x20) w' = Inr (RX_DROP_UNUSABLE, put_sta 5 (s'\<lparr>num_duplicates := num_duplicates s' + 1\<rparr>) w')"
proof -
  define s where "s = the (stas sample_paired_ap 5)"
  have s: "stas sample_paired_ap 5 = Some s" "last_seq_ctrl s = replicate 17 0"
    by (simp_all add: s_def sample_paired_ap_def sample_world_def)
  have fc: "ieee80211_is_data 0x0108" "\<not> ieee80211_is_any_nullfunc 0x0108" "\<not> ieee80211_is_ctl 0x0108" "\<not> ieee80211_has_retry 0x0108"
      "\<not> ieee80211_is_any_nullfunc 0x0908" "\<not> ieee80211_is_ctl 0x0908" "ieee80211_has_retry 0x0908" "\<not> is_multicast_ether_addr sample_iface"
    by (simp_all add: ieee80211_is_data_def ieee80211_is_any_nullfunc_def ieee80211_is_nullfunc_def ieee80211_is_qos_nullfunc_def
        fc_type_stype_def ieee80211_is_ctl_def ieee80211_has_retry_def sample_iface_def)
  have flag: "rx_status_flag (sample_frag a b) = 0" for a b by (simp add: sample_frag_def sample_rx_def)
  obtain w' where w': "ieee80211_rx_h_check_dup (sample_frag 0x0108 0x20) sample_paired_ap = Inr (RX_CONTINUE, w')"
    using check_dup_fresh [OF sample_frag_fields(1) fc(1,2) sample_frag_fields(3) fc(8) sample_frag_fields(2) _ flag
        sample_frag_fields(9) s(1)] s(2) fc(4) by (auto simp: sample_frag_fields)
  show ?thesis
    using retransmission_dropped [OF w' sample_frag_fields(9) s(1) sample_frag_fields(1) fc(3,2) sample_frag_fields(3) fc(8) _
        sample_frag_fields(2) _ _ sample_frag_fields(9) _ _ sample_frag_fields(1) fc(6,5,7) sample_frag_fields(3) sample_frag_fields(2)]
      w' by (auto simp: sample_frag_fields flag)
qed


end
