(* ===== verification/Uplink.thy ===== *)
theory Uplink
  imports Rx
begin

text \<open>
  What the end-to-end property of the uplink rests on: the path of a protected frame through the
  receiver's key selection, the layout of a frame CCMP has encrypted, and the restoration of a
  rewritten frame from what arrives of it.
\<close>

section \<open>Receiving an encrypted frame\<close>

lemma keyid_bound: "unat (drop_bit 6 b) < 4" for b :: u8
proof -
  have "unat b < 256" using unsigned_less [of b] by simp
  then have "unat b div 2 ^ 6 < 4" by simp
  moreover have "unat (drop_bit 6 b) = unat b div 2 ^ 6" by (simp only: unat_drop_bit_eq) (simp only: drop_bit_eq_div)
  ultimately show ?thesis by (simp only:)
qed

text \<open>A protected unicast frame of a station with a single pairwise key goes to the cipher of that key.\<close>

lemma rx_h_decrypt_single_key:
  assumes fc: "hdr_fc (skb_data (rx_skb rx)) = Inr fc" "ieee80211_has_protected fc"
    and a1: "hdr_addr1 (skb_data (rx_skb rx)) = Inr a1" "\<not> is_multicast_ether_addr a1"
    and st: "rx_sta rx = Some p" "stas w p = Some s" "cipher_scheme s = None" "length (ptk s) = 4"
      "sta_ptk s = Inr (Some kp)" "set (ptk s) \<subseteq> {None, Some kp}"
    and sd: "rx_sdata rx = Some sp" "sdatas w sp = Some sd"
    and key: "keys w kp = Some key" "key_flags key AND KEY_FLAG_TAINTED = 0"
    and len: "ieee80211_hdrlen fc + 4 \<le> skb_len (rx_skb rx)" "skb_len (rx_skb rx) \<le> length (skb_data (rx_skb rx))"
    and flag: "rx_status_flag rx = 0"
  shows "ieee80211_rx_h_decrypt L rx w =
    rbind (rx_dispatch L (conf_cipher key) (rx\<lparr>rx_key := Some kp\<rparr>) w) (\<lambda>(res, rx, w).
      Inr (res, rx\<lparr>rx_status_flag := rx_status_flag rx OR RX_FLAG_DECRYPTED\<rparr>, w))"
proof -
  let ?skb = "rx_skb rx"
  define kid where "kid = drop_bit 6 (skb_data ?skb ! (ieee80211_hdrlen fc + 3))"
  have kid: "unat kid < 4" unfolding kid_def by (rule keyid_bound)
  have get: "ieee80211_get_keyid ?skb None = Inr (uint kid)"
    using fc(1) len kid by (simp add: ieee80211_get_keyid_def kid_def Let_def)
  have "ptk s ! unat kid \<in> set (ptk s)" using st(4) kid by simp
  then have slot: "ptk s ! unat kid = None \<or> ptk s ! unat kid = Some kp"
    using st(6) by blast
  have "rx_select_key rx w = Inr (Inr (), Some kp)"
    using fc a1 st(1-5) sd get kid slot flag by (auto simp: rx_select_key_def rx_sta_of_def rx_sdata_of_def Let_def)
  then show ?thesis using key by (simp add: ieee80211_rx_h_decrypt_def)
qed

text \<open>The frame CCMP makes of a data frame: the header, eight bytes, the ciphertext and the tag.\<close>

lemma ccmp_encrypt_shape:
  assumes C: "aead_correct C m" and e: "ccmp_encrypt_skb C m kp s w = Inr (0, s', w')"
    and s: "hdr_fc (skb_data s) = Inr fc" "ieee80211_is_data fc" "ieee80211_hdrlen fc \<le> 32"
      "ieee80211_hdrlen fc < skb_len s" "skb_len s + m \<le> length (skb_data s)" "8 \<le> skb_headroom s" "info_hw_key s = None"
    and k: "keys w kp = Some key"
  shows "w' = put_key kp (key\<lparr>conf_tx_pn := conf_tx_pn key + 1\<rparr>) w"
    "take (ieee80211_hdrlen fc) (skb_data s') = take (ieee80211_hdrlen fc) (skb_data s)"
    "skb_len s' = skb_len s + 8 + m" "skb_len s' \<le> length (skb_data s')"
    "take 8 (drop (ieee80211_hdrlen fc) (skb_data s')) = ccmp_pn2hdr (pn_be_bytes (conf_tx_pn key + 1)) (conf_keyidx key)"
proof -
  let ?hl = "ieee80211_hdrlen fc" and ?d = "skb_data s"
  define h where "h = take ?hl ?d"
  define p where "p = take (skb_len s - ?hl) (drop ?hl ?d)"
  define t where "t = drop (skb_len s) ?d"
  have len: "length h = ?hl" "length p = skb_len s - ?hl" "m \<le> length t" using s by (auto simp: h_def p_def t_def)
  have "take (skb_len s) ?d = h @ p" using s(4) by (simp add: h_def p_def take_add [symmetric])
  then have d: "?d = h @ p @ t" by (metis append.assoc append_take_drop_id t_def)
  have hl: "24 \<le> length h" "length h \<le> 32" using s(2,3) len(1) by (auto simp: ieee80211_hdrlen_def Let_def)
  have skb: "skb_len s = length h + length p" using len s(4) by simp
  obtain s1 ct mic where o: "ccmp_encrypt_skb C m kp s w = Inr (0, s1, put_key kp (key\<lparr>conf_tx_pn := conf_tx_pn key + 1\<rparr>) w)"
      "skb_data s1 = h @ ccmp_pn2hdr (pn_be_bytes (conf_tx_pn key + 1)) (conf_keyidx key) @ ct @ mic @ drop m t"
      "skb_len s1 = length h + 8 + length p + m" "length ct = length p" "length mic = m"
    using ccmp.encrypt_ok [OF C s(1) [unfolded d] len(1) hl d skb len(3) s(6,7) k] unfolding ccmp_encrypt_skb_def by blast
  have x: "length (ccmp_pn2hdr (pn_be_bytes (conf_tx_pn key + 1)) (conf_keyidx key)) = 8" by (simp add: ccmp.pn2hdr_length)
  show "w' = put_key kp (key\<lparr>conf_tx_pn := conf_tx_pn key + 1\<rparr>) w" using o(1) e by simp
  have s': "s' = s1" using o(1) e by simp
  show "take ?hl (skb_data s') = take ?hl ?d" using o(2) s' len(1) h_def by simp
  show "skb_len s' = skb_len s + 8 + m" using o(3) s' skb by simp
  show "skb_len s' \<le> length (skb_data s')" using o(2-5) s' x by simp
  show "take 8 (drop ?hl (skb_data s')) = ccmp_pn2hdr (pn_be_bytes (conf_tx_pn key + 1)) (conf_keyidx key)"
    using o(2) s' x len(1) by simp
qed

lemma hdr_addr2_load: "hdr_load bs = Inr h \<Longrightarrow> hdr_addr2 bs = Inr (addr2 h)"
  by (auto simp: hdr_addr2_def elim!: hdr_load.elims)

lemma mac_of_bytes_take:
  "take 6 xs = take 6 ys \<Longrightarrow> 6 \<le> length xs \<Longrightarrow> 6 \<le> length ys \<Longrightarrow> mac_of_bytes xs = mac_of_bytes ys"
  using mac_of_bytes_ok [of xs] mac_of_bytes_ok [of ys] mac_bytes_inj by fastforce

lemma hdr_addr_prefix:
  assumes "take n bs = take n cs" and "24 \<le> n" "n \<le> length bs" "n \<le> length cs"
  shows "hdr_addr1 bs = hdr_addr1 cs" "hdr_addr2 bs = hdr_addr2 cs"
proof -
  have "take 24 bs = take 24 cs" using assms by (metis min.absorb1 take_take)
  from arg_cong [OF this, of "\<lambda>xs. take 6 (drop 4 xs)"] arg_cong [OF this, of "\<lambda>xs. take 6 (drop 10 xs)"]
  have t: "take 6 (drop 4 bs) = take 6 (drop 4 cs)" "take 6 (drop 10 bs) = take 6 (drop 10 cs)"
    by (simp_all add: drop_take)
  show "hdr_addr1 bs = hdr_addr1 cs" "hdr_addr2 bs = hdr_addr2 cs"
    unfolding hdr_addr1_def hdr_addr2_def using t assms by (auto intro!: mac_of_bytes_take)
qed

text \<open>What arrives of a rewritten frame is restored to the frame before the rewriting.\<close>

lemma restore_rewritten:
  assumes ws: "mp_invar (s_translation_table ws)"
    and wa: "RND_MAC wa" "which_instance True wa = rathan_INSTANCE_AP" "rx_new_period sha1 env (current_period now) wa = Inr wa"
    and known: "set (mp_pairs (s_translation_table ws)) \<subseteq> set (mtt_pairs (translation_table wa))"
      "distinct (randoms (mtt_pairs (translation_table wa)))"
    and h: "hdr_load (skb_data s) = Inr h" "30 \<le> skb_len s" "skb_len s \<le> length (skb_data s)"
    and addrs: "\<forall>a\<in>hdr_addrs h. a \<in> set (bases (mp_pairs (s_translation_table ws))) \<or>
      a \<notin> set (randoms (mtt_pairs (translation_table wa)))"
    and air: "air = s\<lparr>skb_data := hdr_store (subst_hdr (s_random_of_base (s_translation_table ws)) h) (skb_data s)\<rparr>"
    and rx: "skb_len r = skb_len air" "frame_bytes r = frame_bytes air"
  shows "rx_restore_addrs sha1 env now (skb_data r) wa = Inr (hdr_store h (skb_data r), wa)"
    "take (skb_len s) (hdr_store h (skb_data r)) = frame_bytes s"
    "skb_len s \<le> length (hdr_store h (skb_data r))" "skb_len r = skb_len s" "skb_len s \<le> length (skb_data r)"
    "hdr_fc (skb_data r) = Inr (frame_control h)"
proof -
  let ?g = "subst_hdr (s_random_of_base (s_translation_table ws)) h"
  have len: "skb_len air = skb_len s" "length (skb_data air) = length (skb_data s)"
    using h air by (simp_all add: length_hdr_store)
  have rl: "skb_len s \<le> length (skb_data r)" "take (skb_len s) (skb_data r) = take (skb_len s) (skb_data air)"
  proof -
    show eq: "take (skb_len s) (skb_data r) = take (skb_len s) (skb_data air)" using rx len by (simp add: frame_bytes_def)
    have "length (take (skb_len s) (skb_data r)) = skb_len s" unfolding eq using h(3) len(2) by simp
    then show "skb_len s \<le> length (skb_data r)" by simp
  qed
  have "hdr_load (skb_data r) = hdr_load (skb_data air)"
    using h rl len by (intro hdr_load_prefix [of "skb_len s"]) simp_all
  then have load: "hdr_load (skb_data r) = Inr ?g" using air by (simp add: hdr_load_store)
  have "subst_hdr (base_of_random (translation_table wa)) ?g = h"
    using ws known addrs by (intro subst_hdr_inverse ballI uplink_addr) auto
  then show "rx_restore_addrs sha1 env now (skb_data r) wa = Inr (hdr_store h (skb_data r), wa)"
    using wa load by (simp add: rx_restore_addrs_def mac_addr_change_hdr_rx_def)
  have hs: "hdr_store h (skb_data s) = skb_data s" using hdr_load_ok [of "skb_data s"] h by auto
  have "take (skb_len s - 30) (drop 30 (skb_data r)) = take (skb_len s - 30) (drop 30 (skb_data s))"
    using arg_cong [OF rl(2), of "drop 30"] air h(2) by (simp add: drop_take hdr_store_def min_def)
  then have "take (skb_len s) (hdr_store h (skb_data r)) = take (skb_len s) (hdr_store h (skb_data s))"
    using h(2) by (simp add: hdr_store_def)
  then show "take (skb_len s) (hdr_store h (skb_data r)) = frame_bytes s" using hs by (simp add: frame_bytes_def)
  show "skb_len s \<le> length (hdr_store h (skb_data r))" using rl(1) h(2) by (simp add: length_hdr_store)
  show "skb_len r = skb_len s" "skb_len s \<le> length (skb_data r)" using rx(1) len(1) rl(1) by simp_all
  show "hdr_fc (skb_data r) = Inr (frame_control h)" using hdr_load_fields(2) [OF load] by (simp add: subst_hdr_def Let_def)
qed

text \<open>
  The sender's side of the exchange: a station's data frame \<open>s\<close> for the distribution system, long enough and with the
  room CCMP needs, and its key; and the receiver's side: an access point \<open>wa\<close> whose station entry \<open>st\<close> holds one
  untainted CCMP key with the same key material that has seen no packet number as high as the
  sender's next one.
\<close>

definition uplink_frame :: "u16 \<Rightarrow> sk_buff \<Rightarrow> bool" where
  "uplink_frame fc s \<longleftrightarrow>
     hdr_fc (skb_data s) = Inr fc \<and> ieee80211_is_data fc \<and> ieee80211_has_tods fc \<and> \<not> ieee80211_has_a4 fc \<and>
     ieee80211_has_protected fc \<and> \<not> ieee80211_is_any_nullfunc fc \<and> \<not> ieee80211_has_retry fc \<and>
     ieee80211_hdrlen fc < skb_len s \<and> skb_len s + 8 \<le> length (skb_data s) \<and> 8 \<le> skb_headroom s \<and> info_hw_key s = None"

definition uplink_key :: "u8 list \<Rightarrow> nat \<Rightarrow> ieee80211_key \<Rightarrow> bool" where
  "uplink_key material pn k \<longleftrightarrow>
     conf_cipher k = SUITE 4 \<and> key_flags k AND KEY_FLAG_TAINTED = 0 \<and> conf_key k = material \<and>
     17 \<le> length (key_rx_pn k) \<and> (\<forall>i<17. length (key_rx_pn k ! i) = 6 \<and> be_nat (key_rx_pn k ! i) < pn)"

definition uplink_sta :: "world \<Rightarrow> sta_info \<Rightarrow> key_ptr \<Rightarrow> ieee80211_sub_if_data \<Rightarrow> bool" where
  "uplink_sta wa st kp sd \<longleftrightarrow>
     IEEE80211_STA_ASSOC \<le> sta_state st \<and> cipher_scheme st = None \<and> length (ptk st) = 4 \<and> sta_ptk st = Inr (Some kp) \<and>
     set (ptk st) \<subseteq> {None, Some kp} \<and> 17 \<le> length (last_seq_ctrl st) \<and>
     sdatas wa (sta_sdata st) = Some sd \<and> vif_type sd = NL80211_IFTYPE_AP \<and> \<not> is_multicast_ether_addr (vif_addr sd)"

lemma parse_qos_ok:
  assumes "hdr_fc (skb_data (rx_skb rx)) = Inr fc" and "31 \<le> length (skb_data (rx_skb rx))"
  shows "\<exists>rx' prio. ieee80211_parse_qos rx = Inr (rx', prio)"
  using assms by (auto simp: ieee80211_parse_qos_def Let_def ieee80211_get_qos_ctl_def arr_get_def)

lemma hdrlen_uplink: "ieee80211_is_data fc \<Longrightarrow> \<not> ieee80211_has_a4 fc \<Longrightarrow> 24 \<le> ieee80211_hdrlen fc \<and> ieee80211_hdrlen fc \<le> 30"
  by (simp add: ieee80211_hdrlen_def Let_def)

section \<open>Samples\<close>

lemma hdr_load_addrs:
  assumes "hdr_load bs = Inr h"
  shows "mac_bytes (addr1 h) = take 6 (drop 4 bs)" "mac_bytes (addr2 h) = take 6 (drop 10 bs)"
    "mac_bytes (addr3 h) = take 6 (drop 16 bs)" "mac_bytes (addr4 h) = take 6 (drop 24 bs)"
  using assms by (auto elim!: hdr_load.elims)

section \<open>The received frame\<close>

text \<open>
  A data frame that a station encrypts with its pairwise key under base addresses and transmits
  with the addresses of the current period reaches, at an access point that knows the station's pairs, the
  handlers of the very station it came from, and decrypts there to the original frame: rewriting after encryption
  and restoring before decryption keep the authenticated header intact. The four fields rewritten
  must not be mistaken for random addresses; on a frame with three addresses the fourth field is the beginning of the
  encrypted body.
\<close>

lemma uplink_received:
  assumes ws: "world_ok ws" "RND_MAC ws" "keys ws kp = Some key"
    and s: "uplink_frame fc s" "aead_correct (lib_ccm L) IEEE80211_CCMP_MIC_LEN"
    and tx: "ccmp_encrypt_skb (lib_ccm L) IEEE80211_CCMP_MIC_LEN kp s ws = Inr (0, s', ws')" "hdr_load (skb_data s') = Inr h"
      "mac_addr_change_hdr_tx ws' [s'] (Some NL80211_IFTYPE_STATION) = Inr [air]"
    and wa: "RND_MAC wa" "which_instance True wa = rathan_INSTANCE_AP" "rx_new_period sha1 env (current_period now) wa = Inr wa"
      "set (mp_pairs (s_translation_table ws)) \<subseteq> set (mtt_pairs (translation_table wa))"
      "distinct (randoms (mtt_pairs (translation_table wa)))"
    and addrs: "\<forall>a\<in>hdr_addrs h. a \<in> set (bases (mp_pairs (s_translation_table ws))) \<or>
      a \<notin> set (randoms (mtt_pairs (translation_table wa)))"
    and st: "sta_hash wa (addr2 h) = [p]" "stas wa p = Some st" "uplink_sta wa st rkp sd" "addr1 h = vif_addr sd"
    and rkey: "keys wa rkp = Some rkey" "uplink_key (conf_key key) (unat (conf_tx_pn key + 1) mod 2 ^ 48) rkey"
    and rx: "skb_len (rx_skb rx) = skb_len air" "frame_bytes (rx_skb rx) = frame_bytes air" "rx_status_flag rx = 0"
    and fast: "\<And>r v. invoke_fast_rx E r v = Inr (False, v)"
  shows "\<exists>rx1 w1 rx2 w2. rx_handle_packet sha1 env now E None rx wa = rx_rest E rx1 w1 \<and> rx_sta rx1 = Some p \<and>
    ieee80211_rx_h_decrypt L rx1 w1 = Inr (RX_CONTINUE, rx2, w2) \<and> frame_bytes (rx_skb rx2) = frame_bytes s \<and>
    skb_len (rx_skb rx2) = skb_len s"
proof -
  note f = s(1) [unfolded uplink_frame_def] and u = st(3) [unfolded uplink_sta_def] and ru = rkey(2) [unfolded uplink_key_def]
  have hl: "24 \<le> ieee80211_hdrlen fc" "ieee80211_hdrlen fc \<le> 30" using f hdrlen_uplink [of fc] by simp_all
  have hl32: "ieee80211_hdrlen fc \<le> 32" using hl(2) by simp
  have frame: "hdr_fc (skb_data s) = Inr fc" "ieee80211_is_data fc" "ieee80211_hdrlen fc < skb_len s"
      "skb_len s + IEEE80211_CCMP_MIC_LEN \<le> length (skb_data s)" "8 \<le> skb_headroom s" "info_hw_key s = None" using f by simp_all
  note shape = ccmp_encrypt_shape [OF s(2) tx(1) frame(1,2) hl32 frame(3-6) ws(3)]
  have n: "40 \<le> skb_len s'" using shape(3) frame(3) hl(1) by simp
  have fcs: "hdr_fc (skb_data s') = Inr fc"
    using hdr_fields_of_take(1) [OF shape(2) hl(1)] shape(4) n hl(2) frame by simp
  have fch: "frame_control h = fc" using hdr_load_fields(2) [OF tx(2)] fcs by simp
  have air: "air = s'\<lparr>skb_data := hdr_store (subst_hdr (s_random_of_base (s_translation_table ws)) h) (skb_data s')\<rparr>"
    using tx(3) ws(2) shape(1) tx(2) by (simp add: mac_addr_change_hdr_tx_def rewrite_head_ok put_key_def)
  let ?bs = "hdr_store h (skb_data (rx_skb rx))"
  have mp: "mp_invar (s_translation_table ws)" using ws(1) by (simp add: world_ok_def)
  have n30: "30 \<le> skb_len s'" using n by simp
  note res = restore_rewritten [OF mp wa(1-3) wa(4,5) tx(2) n30 shape(4) addrs air rx(1,2)]
  note fl = hdr_load_fields [OF hdr_load_store [of h "skb_data (rx_skb rx)"]]
  have a2: "hdr_addr2 ?bs = Inr (addr2 h)" by (rule hdr_addr2_load) (rule hdr_load_store)
  have lr: "skb_len (rx_skb rx) = skb_len s'" and rlen: "skb_len s' \<le> length (skb_data (rx_skb rx))"
    and fc0: "hdr_fc (skb_data (rx_skb rx)) = Inr fc" using res(4-6) fch by simp_all
  obtain rxq prio where q: "ieee80211_parse_qos rx = Inr (rxq, prio)" using parse_qos_ok [OF fc0] rlen n by auto
  note qk = parse_qos_keeps [OF q]
  define rx1 where "rx1 = rxq\<lparr>rx_skb := (rx_skb rx)\<lparr>skb_data := ?bs\<rparr>, rx_sta := Some p, rx_sdata := Some (sta_sdata st)\<rparr>"
  define w1 where "w1 = put_sta p (seen_seq (seqno_idx rxq) (seq_ctrl h) st) wa"
  have handle: "rx_handle_packet sha1 env now E None rx wa = rx_rest E rx1 w1"
    unfolding rx1_def w1_def
    using f u fch fl st qk lr n hl
    by (intro handle_packet_uplink [OF res(1) fc0 _ rx(3) q _ _ _ _ _ _ _ a2 st(1) _ _ _ st(2) _ _ _ fast, of sd]) simp_all
  have r1: "skb_data (rx_skb rx1) = ?bs" "skb_len (rx_skb rx1) = skb_len s'" "rx_sta rx1 = Some p"
      "rx_sdata rx1 = Some (sta_sdata st)" "rx_status_flag rx1 = 0"
    using lr qk(2) rx(3) by (simp_all add: rx1_def)
  have sx: "security_idx rx1 < 17" using qk(5) by (simp add: rx1_def)
  have dec: "ieee80211_rx_h_decrypt L rx1 w1 = rbind (rx_dispatch L (conf_cipher rkey) (rx1\<lparr>rx_key := Some rkp\<rparr>) w1)
      (\<lambda>(res, rx, w). Inr (res, rx\<lparr>rx_status_flag := rx_status_flag rx OR RX_FLAG_DECRYPTED\<rparr>, w))"
    using r1 fl fch st u f rkey(1) ru res(3) shape(3) frame(3)
    by (intro rx_h_decrypt_single_key [where p = p and fc = fc and s = "seen_seq (seqno_idx rxq) (seq_ctrl h) st" and sd = sd
          and ?a1.0 = "vif_addr sd" and sp = "sta_sdata st"]) (simp_all add: w1_def put_sta_def seen_seq_def sta_ptk_def)
  have "\<exists>rx' v'. ieee80211_crypto_ccmp_decrypt (lib_ccm L) IEEE80211_CCMP_MIC_LEN (rx1\<lparr>rx_key := Some rkp\<rparr>) w1 = Inr (RX_CONTINUE, rx', v') \<and>
      frame_bytes (rx_skb rx') = frame_bytes s \<and> skb_len (rx_skb rx') = skb_len s"
    using ccmp.round_trip [OF s(2) frame(1,2) hl32 frame(3-6) ws(3), of "rx1\<lparr>rx_key := Some rkp\<rparr>" rkp w1 rkey] tx(1)
      r1 res(2) sx ru rkey(1) by (auto simp: ccmp_encrypt_skb_def ieee80211_crypto_ccmp_decrypt_def w1_def put_sta_def frame_bytes_def)
  then obtain rx' v' where "ieee80211_crypto_ccmp_decrypt (lib_ccm L) IEEE80211_CCMP_MIC_LEN (rx1\<lparr>rx_key := Some rkp\<rparr>) w1 = Inr (RX_CONTINUE, rx', v')"
      "frame_bytes (rx_skb rx') = frame_bytes s" "skb_len (rx_skb rx') = skb_len s" by blast
  then show ?thesis
    using handle dec ru r1(3)
    by (intro exI [of _ rx1] exI [of _ w1] exI [of _ "rx'\<lparr>rx_status_flag := rx_status_flag rx' OR RX_FLAG_DECRYPTED\<rparr>"] exI [of _ v'])
      (simp add: rx_dispatch_def)
qed

end
