(* ===== verification/Fragments.thy ===== *)
theory Fragments
  imports Uplink
begin

text \<open>
  The fragments a sender makes of a frame (theory \<open>Tx\<close>) as the frames the receiver's reassembly (theory \<open>Defrag\<close>) expects.
\<close>

section \<open>Bits of the header fields\<close>

lemma and_disjoint:
  "b AND m = 0 \<Longrightarrow> (x OR b) AND m = x AND m" "b AND m = 0 \<Longrightarrow> (x AND NOT b) AND m = x AND m" for x b m :: u16
  by (auto simp: bit_eq_iff bit_simps)+

lemma and_same: "(x OR b) AND b = b" "(x AND NOT b) AND b = 0" for x b :: u16
  by (auto simp: bit_eq_iff bit_simps)

lemma morefrags_or: "ieee80211_has_morefrags (fc OR IEEE80211_FCTL_MOREFRAGS)" "\<not> ieee80211_has_morefrags (fc AND NOT IEEE80211_FCTL_MOREFRAGS)"
  unfolding ieee80211_has_morefrags_def by (simp_all only: and_same) simp

definition frag_fc :: "bool \<Rightarrow> u16 \<Rightarrow> u16" where
  "frag_fc follows fc = (if follows then fc OR IEEE80211_FCTL_MOREFRAGS else fc AND NOT IEEE80211_FCTL_MOREFRAGS)"

lemma frag_fc_and: "IEEE80211_FCTL_MOREFRAGS AND m = 0 \<Longrightarrow> frag_fc b fc AND m = fc AND m"
  unfolding frag_fc_def by (cases b) (simp_all only: if_True if_False and_disjoint)

lemma frag_fc_class:
  "ieee80211_is_ctl (frag_fc b fc) = ieee80211_is_ctl fc" "frag_fc b fc AND IEEE80211_FCTL_FTYPE = fc AND IEEE80211_FCTL_FTYPE"
  "ieee80211_hdrlen (frag_fc b fc) = ieee80211_hdrlen fc" "ieee80211_has_morefrags (frag_fc b fc) = b"
proof -
  show "ieee80211_has_morefrags (frag_fc b fc) = b" using morefrags_or by (simp add: frag_fc_def)
  show "ieee80211_is_ctl (frag_fc b fc) = ieee80211_is_ctl fc" "frag_fc b fc AND IEEE80211_FCTL_FTYPE = fc AND IEEE80211_FCTL_FTYPE"
    by (simp_all add: ieee80211_is_ctl_def frag_fc_and)
  show "ieee80211_hdrlen (frag_fc b fc) = ieee80211_hdrlen fc"
    by (simp add: ieee80211_hdrlen_def ieee80211_is_data_def ieee80211_has_a4_def ieee80211_is_data_qos_def ieee80211_has_order_def
        ieee80211_is_mgmt_def ieee80211_is_ctl_def frag_fc_and)
qed

lemma seq_field:
  assumes "sc AND IEEE80211_SCTL_FRAG = 0" and "k < 16"
  shows "(sc OR (of_nat k AND IEEE80211_SCTL_FRAG)) AND IEEE80211_SCTL_FRAG = of_nat k"
    "drop_bit 4 ((sc OR (of_nat k AND IEEE80211_SCTL_FRAG)) AND IEEE80211_SCTL_SEQ) = drop_bit 4 (sc AND IEEE80211_SCTL_SEQ)"
proof -
  have k: "of_nat k AND IEEE80211_SCTL_FRAG = (of_nat k :: u16)"
  proof -
    have "(of_nat k :: u16) AND 0xf = take_bit 4 (of_nat k)" by (simp add: take_bit_eq_mask mask_eq_exp_minus_1)
    also have "\<dots> = of_nat k" using assms(2) by (simp add: take_bit_of_nat take_bit_nat_eq_self)
    finally show ?thesis by simp
  qed
  have "(sc OR of_nat k) AND IEEE80211_SCTL_FRAG = (sc AND IEEE80211_SCTL_FRAG) OR (of_nat k AND IEEE80211_SCTL_FRAG)"
    by (simp add: bit_eq_iff bit_simps) blast
  then show "(sc OR (of_nat k AND IEEE80211_SCTL_FRAG)) AND IEEE80211_SCTL_FRAG = of_nat k" using assms(1) k by simp
  have d: "(x AND IEEE80211_SCTL_FRAG) AND IEEE80211_SCTL_SEQ = 0" for x :: u16 by (simp add: and.assoc)
  then show "drop_bit 4 ((sc OR (of_nat k AND IEEE80211_SCTL_FRAG)) AND IEEE80211_SCTL_SEQ) = drop_bit 4 (sc AND IEEE80211_SCTL_SEQ)"
    by (simp only: and_disjoint(1) [OF d])
qed

section \<open>The sender's fragments\<close>

text \<open>Numbering changes the frame control and the sequence control only.\<close>

definition renumbered :: "sk_buff \<Rightarrow> sk_buff \<Rightarrow> bool" where
  "renumbered f f' \<longleftrightarrow> skb_len f' = skb_len f \<and> length (skb_data f') = length (skb_data f) \<and>
     hdr_addr1 (skb_data f') = hdr_addr1 (skb_data f) \<and> hdr_addr2 (skb_data f') = hdr_addr2 (skb_data f)"

lemma set_fields_addr:
  assumes "set_hdr_fc x bs = Inr b1" and "set_hdr_seq_ctrl y b1 = Inr b2"
  shows "length b2 = length bs" "hdr_addr1 b2 = hdr_addr1 bs" "hdr_addr2 b2 = hdr_addr2 bs"
proof -
  have b1: "length b1 = length bs" "b1 = le16_bytes x @ drop 2 bs" "2 \<le> length bs"
    using assms(1) by (auto simp: set_hdr_fc_def buf_write_def numeral_2_eq_2 split: if_splits)
  have b2: "b2 = take 22 b1 @ le16_bytes y @ drop 24 b1" "24 \<le> length bs"
    using assms(2) b1(1) by (auto simp: set_hdr_seq_ctrl_def buf_write_def split: if_splits)
  show l: "length b2 = length bs" using b2 b1(1) by simp
  have d: "take 6 (drop k b2) = take 6 (drop k bs)" if "2 \<le> k" "k \<le> 16" for k
  proof -
    have "6 \<le> 22 - k" using that by simp
    then have "take 6 (drop k b2) = take 6 (drop k b1)" using b2 b1(1) that by (simp add: drop_take min_def)
    also have "drop k b1 = drop k bs"
    proof -
      have "Suc (Suc (k - 2)) = k" using that by arith
      then show ?thesis using b1 that by simp
    qed
    finally show ?thesis .
  qed
  show "hdr_addr1 b2 = hdr_addr1 bs" "hdr_addr2 b2 = hdr_addr2 bs"
    unfolding hdr_addr1_def hdr_addr2_def using d [of 4] d [of 10] l b2(2) by (auto intro!: mac_of_bytes_take)
qed

lemma number_frags_renumbered:
  assumes "number_frags k fs = Inr fs'"
  shows "list_all2 renumbered fs fs'"
  using assms
proof (induction fs arbitrary: k fs')
  case (Cons f fs)
  then obtain x y b1 b2 fs2 where b: "set_hdr_fc x (skb_data f) = Inr b1" "set_hdr_seq_ctrl y b1 = Inr b2" "number_frags (Suc k) fs = Inr fs2"
      "\<exists>f'. fs' = f' # fs2 \<and> skb_data f' = b2 \<and> skb_len f' = skb_len f"
    by (auto simp: Let_def elim!: rbind_InrE)
  then show ?case using Cons.IH [OF b(3)] set_fields_addr [OF b(1,2)] by (auto simp: renumbered_def)
qed simp

lemma set_seq_same: "hdr_seq_ctrl bs = Inr sc \<Longrightarrow> set_hdr_seq_ctrl sc bs = Inr bs"
proof -
  assume "hdr_seq_ctrl bs = Inr sc"
  then have l: "24 \<le> length bs" and sc: "sc = le16_of (bs ! 22) (bs ! 23)"
    by (auto simp: hdr_seq_ctrl_def arr_get_Inr_iff elim!: rbind_InrE)
  have "drop 22 bs = bs ! 22 # bs ! 23 # drop 24 bs" using l by (simp add: Cons_nth_drop_Suc numeral_eq_Suc)
  then have "bs = take 22 bs @ [bs ! 22, bs ! 23] @ drop 24 bs" by (metis append_Cons append_Nil append_take_drop_id)
  then show "set_hdr_seq_ctrl sc bs = Inr bs" using l by (simp add: set_hdr_seq_ctrl_def buf_write_def le16_bytes_def sc)
qed

text \<open>The first fragment only gains the more-fragments bit.\<close>

lemma number_frags_first:
  assumes "number_frags 0 (f # g # fs) = Inr fs'" "hdr_fc (skb_data f) = Inr fc" "hdr_seq_ctrl (skb_data f) = Inr sc" "24 \<le> length (skb_data f)"
  shows "set_hdr_fc (fc OR IEEE80211_FCTL_MOREFRAGS) (skb_data f) = Inr (skb_data (hd fs'))"
proof -
  obtain b1 b2 where b: "set_hdr_fc (fc OR IEEE80211_FCTL_MOREFRAGS) (skb_data f) = Inr b1" "set_hdr_seq_ctrl sc b1 = Inr b2"
      "skb_data (hd fs') = b2"
    using assms(1-3) by (auto simp: Let_def elim!: rbind_InrE)
  have "hdr_seq_ctrl b1 = Inr sc"
    using b(1) assms(3,4) by (auto simp: set_hdr_fc_def buf_write_def hdr_seq_ctrl_def arr_get_def nth_append)
  then show ?thesis using b set_seq_same by simp
qed

section \<open>The receiver's fragments\<close>

lemma continues_nth:
  assumes "rxs \<noteq> []" and "k + length rxs \<le> 16"
    and "\<And>j. j < length rxs \<Longrightarrow> is_fragment i (k + j) (Suc j < length rxs) (rxs ! j)"
  shows "continues i k rxs"
  using assms
proof (induction rxs arbitrary: k)
  case (Cons r rs)
  have "is_fragment i k (rs \<noteq> []) r" using Cons.prems(3) [of 0] by (cases rs) simp_all
  moreover have "continues i (Suc k) rs" if "rs \<noteq> []"
    using that Cons.prems(2) Cons.prems(3) [of "Suc _"] by (intro Cons.IH) auto
  ultimately show ?case using Cons.prems(2) by simp
qed simp

text \<open>\<open>arrives\<close>: the receiver has the bytes of a transmitted fragment in a buffer of its own.\<close>

definition arrives :: "sdata_ptr \<Rightarrow> nat \<Rightarrow> sk_buff \<Rightarrow> ieee80211_rx_data \<Rightarrow> bool" where
  "arrives sp q f r \<longleftrightarrow> frame_bytes (rx_skb r) = frame_bytes f \<and> skb_ok (rx_skb r) \<and> rx_sdata r = Some sp \<and> seqno_idx r = q"

lemma arrives_hdr:
  assumes "arrives sp q f r" "skb_ok f" "24 \<le> skb_len f"
  shows "skb_len (rx_skb r) = skb_len f" "hdr_fc (skb_data (rx_skb r)) = hdr_fc (skb_data f)"
    "hdr_seq_ctrl (skb_data (rx_skb r)) = hdr_seq_ctrl (skb_data f)" "hdr_addr1 (skb_data (rx_skb r)) = hdr_addr1 (skb_data f)"
    "hdr_addr2 (skb_data (rx_skb r)) = hdr_addr2 (skb_data f)"
proof -
  have fb: "frame_bytes (rx_skb r) = frame_bytes f" and ok: "skb_ok (rx_skb r)" using assms(1) by (simp_all add: arrives_def)
  show len: "skb_len (rx_skb r) = skb_len f"
    using arg_cong [OF fb, of length] ok assms(2) by simp
  have t: "take (skb_len f) (skb_data (rx_skb r)) = take (skb_len f) (skb_data f)" using fb len by (simp add: frame_bytes_def)
  have l: "skb_len f \<le> length (skb_data (rx_skb r))" "skb_len f \<le> length (skb_data f)" using ok assms(2) len by (simp_all add: skb_ok_def)
  show "hdr_fc (skb_data (rx_skb r)) = hdr_fc (skb_data f)" "hdr_seq_ctrl (skb_data (rx_skb r)) = hdr_seq_ctrl (skb_data f)"
    using hdr_fields_of_take [OF t assms(3) l] .
  show "hdr_addr1 (skb_data (rx_skb r)) = hdr_addr1 (skb_data f)" "hdr_addr2 (skb_data (rx_skb r)) = hdr_addr2 (skb_data f)"
    using hdr_addr_prefix [OF t assms(3) l] .
qed

definition frame_id_of :: "sdata_ptr \<Rightarrow> nat \<Rightarrow> u16 \<Rightarrow> u16 \<Rightarrow> mac \<Rightarrow> mac \<Rightarrow> frame_id" where
  "frame_id_of sp q fc sc a1 a2 = \<lparr>id_sdata = sp, id_hdrlen = ieee80211_hdrlen fc, id_addr1 = a1, id_addr2 = a2,
     id_type = fc AND IEEE80211_FCTL_FTYPE, id_seq = drop_bit 4 (sc AND IEEE80211_SCTL_SEQ), id_queue = q\<rparr>"

lemma arrives_is_fragment:
  assumes ar: "arrives sp q f r" and f: "skb_ok f" "ieee80211_hdrlen fc \<le> skb_len f" "24 \<le> ieee80211_hdrlen fc"
    and h: "hdr_fc (skb_data f) = Inr (frag_fc b fc)" "hdr_seq_ctrl (skb_data f) = Inr (sc OR (of_nat k AND IEEE80211_SCTL_FRAG))"
      "hdr_addr1 (skb_data f) = Inr a1" "hdr_addr2 (skb_data f) = Inr a2"
    and c: "\<not> ieee80211_is_ctl fc" "\<not> is_multicast_ether_addr a1" "sc AND IEEE80211_SCTL_FRAG = 0" "k < 16"
  shows "is_fragment (frame_id_of sp q fc sc a1 a2) k b r"
proof -
  have "24 \<le> skb_len f" using f by simp
  note ah = arrives_hdr [OF ar f(1) this]
  have r: "skb_ok (rx_skb r)" "rx_sdata r = Some sp" "seqno_idx r = q" using ar by (simp_all add: arrives_def)
  show ?thesis
    unfolding is_fragment_def Let_def ah h
    by (rule conjI, rule exI [of _ "frag_fc b fc"], rule exI [of _ "sc OR (of_nat k AND IEEE80211_SCTL_FRAG)"])
      (use r c f(2) seq_field [OF c(3,4)] in \<open>simp_all add: frame_id_of_def frag_fc_class ah\<close>)
qed

text \<open>Fragment \<open>j\<close> of a frame as the sender hands it over.\<close>

definition sent_fragment :: "u16 \<Rightarrow> u16 \<Rightarrow> mac \<Rightarrow> mac \<Rightarrow> nat \<Rightarrow> bool \<Rightarrow> sk_buff \<Rightarrow> bool" where
  "sent_fragment fc sc a1 a2 j b f \<longleftrightarrow> skb_ok f \<and> ieee80211_hdrlen fc \<le> skb_len f \<and> hdr_fc (skb_data f) = Inr (frag_fc b fc) \<and>
     hdr_seq_ctrl (skb_data f) = Inr (sc OR (of_nat j AND IEEE80211_SCTL_FRAG)) \<and>
     hdr_addr1 (skb_data f) = Inr a1 \<and> hdr_addr2 (skb_data f) = Inr a2"

lemma set_hdr_fc_eq: "set_hdr_fc x bs = (if 2 \<le> length bs then Inr (le16_bytes x @ drop 2 bs) else Inl OutOfBounds)"
  by (simp add: set_hdr_fc_def buf_write_def numeral_2_eq_2)

lemma length_frag_fcs: "length (frag_fcs fc n) = n" and length_frag_seqs: "length (frag_seqs sc k n) = n"
  by (cases n; simp add: frag_fcs_def) (simp add: frag_seqs_def)

lemma sent_fragments:
  assumes tx: "tx_skb tx = Some skb" "tx_skbs tx = []" "skb_len skb \<le> length (skb_data skb)"
      "info_flags skb AND IEEE80211_TX_CTL_DONTFRAG = 0" "info_flags skb AND IEEE80211_TX_CTL_AMPDU = 0"
    and fc: "hdr_fc (skb_data skb) = Inr fc" "\<not> ieee80211_is_ctl fc"
    and sc: "hdr_seq_ctrl (skb_data skb) = Inr sc"
    and thr: "unat thr < 2 ^ 31" "ieee80211_hdrlen fc + FCS_LEN < unat thr" "unat thr < skb_len skb + FCS_LEN"
      "skb_len skb + FCS_LEN < 2 ^ 32"
    and mem: "\<forall>m\<in>set allocs. unat thr \<le> length (snd m)" "skb_len skb \<le> length allocs"
    and ad: "hdr_addr1 (skb_data skb) = Inr a1" "hdr_addr2 (skb_data skb) = Inr a2"
    and sent: "ieee80211_tx_h_fragment False thr allocs tx = Inr (res, tx')"
  defines "hl \<equiv> ieee80211_hdrlen fc" and "frags \<equiv> tx_skbs tx'"
  shows "2 \<le> length frags" "24 \<le> hl"
    "\<And>j. j < length frags \<Longrightarrow> sent_fragment fc sc a1 a2 j (Suc j < length frags) (frags ! j)"
    "concat (map (frag_payload hl) frags) = frag_payload hl skb"
    "take hl (skb_data (hd frags)) = le16_bytes (fc OR IEEE80211_FCTL_MOREFRAGS) @ drop 2 (take hl (skb_data skb))"
proof -
  obtain fs where f: "24 \<le> hl" "hl \<le> length (skb_data skb)" "number_frags 0 fs = Inr frags" "2 \<le> length fs"
      "concat (map (frag_payload hl) fs) = frag_payload hl skb"
      "\<forall>f\<in>set fs. take hl (skb_data f) = take hl (skb_data skb) \<and> hl \<le> length (skb_data f) \<and>
         hl \<le> skb_len f \<and> skb_len f \<le> length (skb_data f) \<and> hdr_fc (skb_data f) = Inr fc \<and> hdr_seq_ctrl (skb_data f) = Inr sc"
    using tx_h_fragment_steps [OF tx fc sc thr mem] sent unfolding hl_def frags_def by auto
  have "\<forall>f\<in>set fs. 24 \<le> length (skb_data f) \<and> hdr_fc (skb_data f) = Inr fc \<and> hdr_seq_ctrl (skb_data f) = Inr sc"
    using f(1,6) by (meson le_trans)
  from number_frags_ok [OF this f(1), of 0]
  have m: "map (frag_payload hl) frags = map (frag_payload hl) fs"
      "map (\<lambda>f. hdr_seq_ctrl (skb_data f)) frags = map Inr (frag_seqs sc 0 (length fs))"
      "map (\<lambda>f. hdr_fc (skb_data f)) frags = map Inr (frag_fcs fc (length fs))"
    using f(3) by auto
  note re = number_frags_renumbered [OF f(3)]
  then have len: "length frags = length fs" by (simp add: list_all2_lengthD)
  show "2 \<le> length frags" "24 \<le> hl" "concat (map (frag_payload hl) frags) = frag_payload hl skb" using len f(1,4,5) m(1) by simp_all
  show "sent_fragment fc sc a1 a2 j (Suc j < length frags) (frags ! j)" if j: "j < length frags" for j
  proof -
    have r: "renumbered (fs ! j) (frags ! j)" using list_all2_nthD [OF re] j len by simp
    have o: "take hl (skb_data (fs ! j)) = take hl (skb_data skb)" "hl \<le> length (skb_data (fs ! j))" "hl \<le> skb_len (fs ! j)"
        "skb_len (fs ! j) \<le> length (skb_data (fs ! j))" using f(6) j len by simp_all
    have "hdr_seq_ctrl (skb_data (frags ! j)) = Inr (frag_seqs sc 0 (length fs) ! j)"
        "hdr_fc (skb_data (frags ! j)) = Inr (frag_fcs fc (length fs) ! j)"
      using arg_cong [OF m(2), of "\<lambda>xs. xs ! j"] arg_cong [OF m(3), of "\<lambda>xs. xs ! j"] j len
      by (simp_all only: nth_map length_frag_fcs length_frag_seqs)
    moreover have "frag_fcs fc (length fs) ! j = frag_fc (Suc j < length frags) fc" "frag_seqs sc 0 (length fs) ! j = sc OR (of_nat j AND IEEE80211_SCTL_FRAG)"
      using j len by (auto simp: frag_fcs_def frag_fc_def frag_seqs_def nth_append)
    ultimately show ?thesis
      using r o hdr_addr_prefix [OF o(1) f(1) o(2) f(2)] ad unfolding sent_fragment_def renumbered_def skb_ok_def hl_def by simp
  qed
  obtain a b cs where fs: "fs = a # b # cs" using f(4) by (cases fs rule: remdups_adj.cases) auto
  have a: "hdr_fc (skb_data a) = Inr fc" "hdr_seq_ctrl (skb_data a) = Inr sc" "24 \<le> length (skb_data a)"
      "take hl (skb_data a) = take hl (skb_data skb)" using f(1,6) fs by auto
  have "skb_data (hd frags) = le16_bytes (fc OR IEEE80211_FCTL_MOREFRAGS) @ drop 2 (skb_data a)"
    using number_frags_first [OF f(3) [unfolded fs] a(1-3)] a(3) by (simp add: set_hdr_fc_eq)
  then have "take hl (skb_data (hd frags)) = le16_bytes (fc OR IEEE80211_FCTL_MOREFRAGS) @ drop 2 (take hl (skb_data a))"
    using f(1) by (simp add: drop_take)
  then show "take hl (skb_data (hd frags)) = le16_bytes (fc OR IEEE80211_FCTL_MOREFRAGS) @ drop 2 (take hl (skb_data skb))"
    by (simp only: a(4))
qed

lemma frame_split:
  assumes "2 \<le> hl" "hl \<le> skb_len skb" "skb_len skb \<le> length (skb_data skb)"
  shows "drop 2 (take hl (skb_data skb)) @ frag_payload hl skb = drop 2 (frame_bytes skb)"
proof -
  have "take hl (skb_data skb) = take hl (frame_bytes skb)" using assms(2) by (simp add: frame_bytes_def min_def)
  then have "take hl (skb_data skb) @ frag_payload hl skb = frame_bytes skb"
    by (simp only: frag_payload_def frame_bytes_def append_take_drop_id)
  moreover have "2 - length (take hl (skb_data skb)) = 0" using assms by simp
  ultimately show ?thesis by (metis drop_append drop_0)
qed

end
