(* ===== verification/Delivery.thy ===== *)
theory Delivery
  imports Fragments
begin

text \<open>
  Delivery of received data frames: the conversion of an 802.11 header to an Ethernet header
  (\<open>ieee80211_data_to_8023_exthdr\<close> of \<^verbatim>\<open>net/wireless/util.c\<close>) and, of \<^verbatim>\<open>net/mac80211/rx.c\<close>, the port control that decides whether
  the frame may pass and its hand-over to the network stack or back to the wireless medium. 16-bit fields in
  network order hold their value.
\<close>

section \<open>Ethernet headers\<close>

record ethhdr =
  h_dest :: mac
  h_source :: mac
  h_proto :: u16

abbreviation (input) ETH_HLEN :: nat where "ETH_HLEN \<equiv> 14"
abbreviation (input) ETH_P_802_3_MIN :: u16 where "ETH_P_802_3_MIN \<equiv> 0x600"
abbreviation (input) ETH_P_AARP :: u16 where "ETH_P_AARP \<equiv> 0x80F3"
abbreviation (input) ETH_P_IPX :: u16 where "ETH_P_IPX \<equiv> 0x8137"
abbreviation (input) ETH_P_PREAUTH :: u16 where "ETH_P_PREAUTH \<equiv> 0x88C7"
abbreviation (input) ETH_P_TDLS :: u16 where "ETH_P_TDLS \<equiv> 0x890D"

abbreviation (input) MESH_FLAGS_AE_A4 :: u8 where "MESH_FLAGS_AE_A4 \<equiv> 0x1"
abbreviation (input) MESH_FLAGS_AE_A5_A6 :: u8 where "MESH_FLAGS_AE_A5_A6 \<equiv> 0x2"
abbreviation (input) MESH_FLAGS_AE :: u8 where "MESH_FLAGS_AE \<equiv> 0x3"

definition rfc1042_header :: "u8 list" where
  "rfc1042_header = [0xaa, 0xaa, 0x03, 0x00, 0x00, 0x00]"

definition bridge_tunnel_header :: "u8 list" where
  "bridge_tunnel_header = [0xaa, 0xaa, 0x03, 0x00, 0x00, 0xf8]"

definition ethhdr_bytes :: "ethhdr \<Rightarrow> u8 list" where
  "ethhdr_bytes e = mac_bytes (h_dest e) @ mac_bytes (h_source e) @ be16_bytes (h_proto e)"

definition ethhdr_load :: "u8 list \<Rightarrow> ethhdr result" where
  "ethhdr_load bs =
     rbind (mac_of_bytes bs) (\<lambda>da. rbind (mac_of_bytes (drop 6 bs)) (\<lambda>sa.
     rbind (arr_get bs 12) (\<lambda>hi. rbind (arr_get bs 13) (\<lambda>lo.
     Inr \<lparr>h_dest = da, h_source = sa, h_proto = le16_of lo hi\<rparr>))))"

text \<open>\<open>skb_copy_bits\<close>: nothing is copied if the range is not part of the frame.\<close>

definition skb_copy_bits :: "sk_buff \<Rightarrow> nat \<Rightarrow> nat \<Rightarrow> u8 list option" where
  "skb_copy_bits skb off n = (if skb_len skb < off + n then None else Some (take n (drop off (skb_data skb))))"

text \<open>\<^verbatim>\<open>memcpy(skb_push(skb, len), bs, len)\<close>\<close>

definition push_bytes :: "u8 list \<Rightarrow> sk_buff \<Rightarrow> sk_buff result" where
  "push_bytes bs skb =
     rbind (skb_push (length bs) skb) (\<lambda>skb.
     rbind (buf_write (skb_data skb) 0 bs) (\<lambda>d. Inr (skb\<lparr>skb_data := d\<rparr>)))"

section \<open>From 802.11 to 802.3\<close>

text \<open>
  The switch on the direction bits: \<open>None\<close> refuses the frame, otherwise the destination, the source and the length of the
  headers (mesh header included).
\<close>

definition mesh_addr :: "sk_buff \<Rightarrow> nat \<Rightarrow> mac \<Rightarrow> mac" where
  "mesh_addr skb off a = (case skb_copy_bits skb off 6 of None \<Rightarrow> a | Some bs \<Rightarrow> (case mac_of_bytes bs of Inl _ \<Rightarrow> a | Inr m \<Rightarrow> m))"

definition ds_addresses ::
  "mac \<Rightarrow> nl80211_iftype \<Rightarrow> ieee80211_hdr \<Rightarrow> u8 \<Rightarrow> sk_buff \<Rightarrow> nat \<Rightarrow> (mac \<times> mac \<times> nat) option" where
  "ds_addresses addr ty hdr mesh_flags skb hdrlen =
     (let da = ieee80211_get_DA hdr; sa = ieee80211_get_SA hdr; fc = frame_control hdr;
          mesh = (ty = NL80211_IFTYPE_MESH_POINT);
          meshlen = hdrlen + ieee80211_get_mesh_hdrlen mesh_flags
      in if ieee80211_has_tods fc \<and> \<not> ieee80211_has_fromds fc
         then if ty \<noteq> NL80211_IFTYPE_AP \<and> ty \<noteq> NL80211_IFTYPE_AP_VLAN \<and> ty \<noteq> NL80211_IFTYPE_P2P_GO
              then None else Some (da, sa, hdrlen)
         else if ieee80211_has_tods fc
         then if ty \<noteq> NL80211_IFTYPE_WDS \<and> \<not> mesh \<and> ty \<noteq> NL80211_IFTYPE_AP_VLAN \<and> ty \<noteq> NL80211_IFTYPE_STATION
              then None
              else if mesh
              then if mesh_flags = MESH_FLAGS_AE_A4 then None
                   else if mesh_flags = MESH_FLAGS_AE_A5_A6 \<and> skb_copy_bits skb (hdrlen + 6) 12 \<noteq> None
                   then Some (mesh_addr skb (hdrlen + 6) da, mesh_addr skb (hdrlen + 12) sa, meshlen)
                   else Some (da, sa, meshlen)
              else Some (da, sa, hdrlen)
         else if ieee80211_has_fromds fc
         then if ty \<noteq> NL80211_IFTYPE_STATION \<and> ty \<noteq> NL80211_IFTYPE_P2P_CLIENT \<and> \<not> mesh \<or>
                 is_multicast_ether_addr da \<and> sa = addr
              then None
              else if mesh
              then if mesh_flags = MESH_FLAGS_AE_A5_A6 then None
                   else if mesh_flags = MESH_FLAGS_AE_A4 then Some (da, mesh_addr skb (hdrlen + 6) sa, meshlen)
                   else Some (da, sa, meshlen)
              else Some (da, sa, hdrlen)
         else if ty \<noteq> NL80211_IFTYPE_ADHOC \<and> ty \<noteq> NL80211_IFTYPE_STATION \<and> ty \<noteq> NL80211_IFTYPE_OCB
         then None
         else Some (da, sa, hdrlen))"

text \<open>
  \<open>None\<close> is the return value -1, where the buffer is untouched. With \<open>push\<close> (no header supplied by the caller) the Ethernet
  header is written in front of the payload, otherwise it is only returned. The payload read past the end of a
  mesh frame is uninitialised stack memory.
\<close>

definition ieee80211_data_to_8023_exthdr ::
  "bool \<Rightarrow> mac \<Rightarrow> nl80211_iftype \<Rightarrow> nat \<Rightarrow> sk_buff \<Rightarrow> (ethhdr \<times> sk_buff) option result" where
  "ieee80211_data_to_8023_exthdr push addr ty data_offset skb =
     rbind (hdr_fc (skb_data skb)) (\<lambda>fc.
     let hdrlen = ieee80211_hdrlen fc + data_offset in
     if \<not> ieee80211_is_data_present fc \<or> skb_len skb < hdrlen + 8 then Inr None
     else
       rbind (hdr_load (skb_data skb)) (\<lambda>hdr.
       let mesh_flags = (if ty = NL80211_IFTYPE_MESH_POINT then skb_data skb ! hdrlen else 0) AND MESH_FLAGS_AE in
       case ds_addresses addr ty hdr mesh_flags skb hdrlen of
         None \<Rightarrow> Inr None
       | Some (da, sa, hdrlen) \<Rightarrow>
           (case skb_copy_bits skb hdrlen 8 of
              None \<Rightarrow> Inl Uninitialised
            | Some payload \<Rightarrow>
                let proto = le16_of (payload ! 7) (payload ! 6);
                    snap = (take 6 payload = rfc1042_header \<and> proto \<noteq> ETH_P_AARP \<and> proto \<noteq> ETH_P_IPX \<or>
                            take 6 payload = bridge_tunnel_header);
                    ehdr = \<lparr>h_dest = da, h_source = sa, h_proto = (if snap then proto else of_nat (skb_len skb - hdrlen))\<rparr>;
                    skb = skb_pull (if snap then hdrlen + 8 else hdrlen) skb
                in if push
                   then rbind (push_bytes (ethhdr_bytes ehdr) skb) (\<lambda>skb. Inr (Some (ehdr, skb)))
                   else Inr (Some (ehdr, skb)))))"

definition ieee80211_data_to_8023 :: "mac \<Rightarrow> nl80211_iftype \<Rightarrow> sk_buff \<Rightarrow> (ethhdr \<times> sk_buff) option result" where
  "ieee80211_data_to_8023 addr ty skb = ieee80211_data_to_8023_exthdr True addr ty 0 skb"

text \<open>\<open>__ieee80211_data_to_8023\<close>, with the flag \<open>port_control\<close>.\<close>

definition rx_data_to_8023 :: "ieee80211_rx_data \<Rightarrow> world \<Rightarrow> (bool \<times> ieee80211_rx_data) option result" where
  "rx_data_to_8023 rx w =
     rbind (rx_sdata_of rx w) (\<lambda>sdata.
     rbind (hdr_fc (skb_data (rx_skb rx))) (\<lambda>fc.
     rbind (hdr_addr1 (skb_data (rx_skb rx))) (\<lambda>a1.
     let vlan = (vif_type sdata = NL80211_IFTYPE_AP_VLAN);
         mismatch = (vif_type sdata = NL80211_IFTYPE_STATION \<and> use_4addr sdata \<noteq> ieee80211_has_a4 fc);
         check_port_control = (mismatch \<and> use_4addr sdata \<and> a1 \<noteq> vif_addr sdata)
     in if ieee80211_has_a4 fc \<and> vlan \<and> vlan_sta sdata = None \<or>
           mismatch \<and> \<not> use_4addr sdata \<or>
           is_multicast_ether_addr a1 \<and> vlan \<and> vlan_sta sdata \<noteq> None
        then Inr None
        else
          rbind (ieee80211_data_to_8023 (vif_addr sdata) (vif_type sdata) (rx_skb rx)) (\<lambda>r.
          case r of
            None \<Rightarrow> Inr None
          | Some (ehdr, skb) \<Rightarrow>
              let port_control = (h_proto ehdr = control_port_protocol sdata) in
              if \<not> port_control \<and> check_port_control then Inr None
              else Inr (Some (port_control, rx\<lparr>rx_skb := skb\<rparr>))))))"

section \<open>Port control and delivery\<close>

definition pae_group_addr :: mac where
  "pae_group_addr = Mac 0x01 0x80 0xC2 0x00 0x00 0x03"

definition ieee80211_frame_allowed :: "u16 \<Rightarrow> ieee80211_rx_data \<Rightarrow> world \<Rightarrow> bool result" where
  "ieee80211_frame_allowed fc rx w =
     rbind (ethhdr_load (skb_data (rx_skb rx))) (\<lambda>ehdr.
     rbind (rx_sdata_of rx w) (\<lambda>sdata.
     if h_proto ehdr = control_port_protocol sdata \<and> (h_dest ehdr = vif_addr sdata \<or> h_dest ehdr = pae_group_addr)
     then Inr True
     else
       rbind (ieee80211_802_1x_port_control rx w) (\<lambda>port.
       if port \<noteq> 0 then Inr False
       else rbind (ieee80211_drop_unencrypted fc rx w) (\<lambda>unenc. Inr (unenc = 0)))))"

text \<open>
  What leaves the handler: a frame for the network stack, a control-port frame for user space (with the flag that it
  came unencrypted), a frame queued for transmission on the interface, the report of an unexpected four-address frame, a TDLS channel-switch
  frame for the work queue, and the restart of the power-save timer.
\<close>

datatype delivery =
    Local_Stack sdata_ptr sk_buff
  | Control_Port sdata_ptr sk_buff bool
  | Queue_Xmit sdata_ptr sk_buff
  | Unexpected_4addr sdata_ptr mac
  | Tdls_Chsw sk_buff
  | Restart_Ps_Timer

text \<open>
  \<open>eth_type_trans\<close> (the protocol a received Ethernet frame is filed under) and the outcome of \<open>skb_copy\<close> belong to the kernel, the state
  behind \<open>ps_timer\<close> to the power-save code.
\<close>

record deliver_env =
  eth_type_trans :: "u8 list \<Rightarrow> u16"
  mcast_copy_ok :: bool
  ps_timer :: "sdata_ptr \<Rightarrow> bool"

definition ieee80211_deliver_skb_to_local_stack ::
  "deliver_env \<Rightarrow> sdata_ptr \<Rightarrow> ieee80211_sub_if_data \<Rightarrow> ieee80211_rx_data \<Rightarrow> sk_buff \<Rightarrow> delivery" where
  "ieee80211_deliver_skb_to_local_stack D sp sdata rx skb =
     (if (skb_protocol skb = control_port_protocol sdata \<or> skb_protocol skb = ETH_P_PREAUTH) \<and> control_port_over_nl80211 sdata
      then Control_Port sp skb (rx_status_flag rx AND RX_FLAG_DECRYPTED = 0)
      else Local_Stack sp skb)"

definition ieee80211_rx_stats :: "nat \<Rightarrow> ieee80211_sub_if_data \<Rightarrow> ieee80211_sub_if_data" where
  "ieee80211_rx_stats len sdata = sdata\<lparr>dev_rx_packets := dev_rx_packets sdata + 1, dev_rx_bytes := dev_rx_bytes sdata + of_nat len\<rparr>"

definition count_rx_msdu :: "ieee80211_rx_data \<Rightarrow> world \<Rightarrow> world result" where
  "count_rx_msdu rx w =
     (case rx_sta rx of
        None \<Rightarrow> Inr w
      | Some p \<Rightarrow>
          rbind (deref (stas w) p) (\<lambda>s.
          rbind (arr_get (rx_msdu s) (seqno_idx rx)) (\<lambda>n.
          Inr (put_sta p (s\<lparr>rx_msdu := (rx_msdu s)[seqno_idx rx := n + 1]\<rparr>) w))))"

abbreviation (input) IEEE80211_SDATA_DONT_BRIDGE_PACKETS :: u32 where "IEEE80211_SDATA_DONT_BRIDGE_PACKETS \<equiv> 0x8"

text \<open>The frame for the stack and the frame for the medium, if any. Unaligned access is efficient on the target.\<close>

definition bridge_skb ::
  "deliver_env \<Rightarrow> sdata_ptr \<Rightarrow> ieee80211_sub_if_data \<Rightarrow> ethhdr \<Rightarrow> sk_buff \<Rightarrow> world \<Rightarrow> (sk_buff option \<times> sk_buff option) result" where
  "bridge_skb D sp sdata ehdr skb w =
     (if (vif_type sdata = NL80211_IFTYPE_AP \<or> vif_type sdata = NL80211_IFTYPE_AP_VLAN) \<and>
         sdata_flags sdata AND IEEE80211_SDATA_DONT_BRIDGE_PACKETS = 0 \<and>
         (vif_type sdata \<noteq> NL80211_IFTYPE_AP_VLAN \<or> vlan_sta sdata = None)
      then
        if is_multicast_ether_addr (h_dest ehdr) \<and> ieee80211_vif_get_num_mcast_if sdata \<noteq> 0
        then Inr (Some skb, if mcast_copy_ok D then Some skb else None)
        else if \<not> is_multicast_ether_addr (h_dest ehdr) \<and> h_dest ehdr \<noteq> h_source ehdr
        then rbind (sta_info_get w sp (h_dest ehdr)) (\<lambda>dsta.
             Inr (if dsta = None then (Some skb, None) else (None, Some skb)))
        else Inr (Some skb, None)
      else Inr (Some skb, None))"

definition ieee80211_deliver_skb :: "deliver_env \<Rightarrow> ieee80211_rx_data \<Rightarrow> world \<Rightarrow> (delivery list \<times> world) result" where
  "ieee80211_deliver_skb D rx w =
     (case rx_sdata rx of
        None \<Rightarrow> Inl NullDeref
      | Some sp \<Rightarrow>
          rbind (deref (sdatas w) sp) (\<lambda>sdata.
          let skb = rx_skb rx;
              w = put_sdata sp (ieee80211_rx_stats (skb_len skb) sdata) w
          in rbind (count_rx_msdu rx w) (\<lambda>w.
             rbind (ethhdr_load (skb_data skb)) (\<lambda>ehdr.
             rbind (bridge_skb D sp sdata ehdr skb w) (\<lambda>(up, xmit).
             let local = (case up of
                   None \<Rightarrow> []
                 | Some skb \<Rightarrow> [ieee80211_deliver_skb_to_local_stack D sp sdata rx
                                  (skb_pull ETH_HLEN (skb\<lparr>skb_protocol := eth_type_trans D (frame_bytes skb)\<rparr>))]);
                 air = (case xmit of None \<Rightarrow> [] | Some skb \<Rightarrow> [Queue_Xmit sp (skb\<lparr>skb_protocol := 1\<rparr>)])
             in Inr (local @ air, w))))))"

definition tdls_chsw :: "sk_buff \<Rightarrow> bool" where
  "tdls_chsw skb \<longleftrightarrow> 17 \<le> skb_len skb \<and> skb_data skb ! 14 = 2 \<and> skb_data skb ! 15 = 12 \<and>
     (skb_data skb ! 16 = 5 \<or> skb_data skb ! 16 = 6)"

text \<open>The handler from the port control on, with the converted frame.\<close>

definition rx_data_8023 ::
  "deliver_env \<Rightarrow> u16 \<Rightarrow> ieee80211_sub_if_data \<Rightarrow> bool \<Rightarrow> ieee80211_rx_data \<Rightarrow> world \<Rightarrow>
     (ieee80211_rx_result \<times> delivery list \<times> world) result" where
  "rx_data_8023 D fc sdata port_control rx w =
     rbind (ieee80211_frame_allowed fc rx w) (\<lambda>allowed.
     if \<not> allowed then Inr (RX_DROP_MONITOR, [], w)
     else
       rbind (ethhdr_load (skb_data (rx_skb rx))) (\<lambda>ehdr.
       if h_proto ehdr = ETH_P_TDLS \<and> tdls_chsw (rx_skb rx)
       then rbind (rx_packet rx w) (\<lambda>w. Inr (RX_QUEUED, [Tdls_Chsw (rx_skb rx)], w))
       else
         let sp = (if vif_type sdata = NL80211_IFTYPE_AP_VLAN \<and> port_control \<and> sdata_bss sdata \<noteq> None
                   then sdata_bss sdata else rx_sdata rx);
             timer = (if ps_timer D (the sp) \<and> \<not> is_multicast_ether_addr (h_dest ehdr) then [Restart_Ps_Timer] else [])
         in rbind (ieee80211_deliver_skb D (rx\<lparr>rx_sdata := sp\<rparr>) w) (\<lambda>(out, w).
            Inr (RX_QUEUED, timer @ out, w))))"

definition unexpected_4addr ::
  "ieee80211_rx_data \<Rightarrow> world \<Rightarrow> (ieee80211_rx_result \<times> delivery list \<times> world) result" where
  "unexpected_4addr rx w =
     (case rx_sta rx of
        None \<Rightarrow> Inr (RX_DROP_MONITOR, [], w)
      | Some p \<Rightarrow>
          rbind (deref (stas w) p) (\<lambda>s.
          if four_addr_event s then Inr (RX_DROP_MONITOR, [], w)
          else Inr (RX_DROP_MONITOR, [Unexpected_4addr (the (rx_sdata rx)) (sta_addr s)], put_sta p (s\<lparr>four_addr_event := True\<rparr>) w)))"

definition ieee80211_rx_h_data ::
  "deliver_env \<Rightarrow> ieee80211_rx_data \<Rightarrow> world \<Rightarrow> (ieee80211_rx_result \<times> delivery list \<times> world) result" where
  "ieee80211_rx_h_data D rx w =
     rbind (rx_sdata_of rx w) (\<lambda>sdata.
     rbind (hdr_fc (skb_data (rx_skb rx))) (\<lambda>fc.
     if \<not> ieee80211_is_data fc then Inr (RX_CONTINUE, [], w)
     else if \<not> ieee80211_is_data_present fc then Inr (RX_DROP_MONITOR, [], w)
     else if ieee80211_has_a4 fc \<and> vif_type sdata = NL80211_IFTYPE_AP then unexpected_4addr rx w
     else
       rbind (rx_data_to_8023 rx w) (\<lambda>r.
       case r of
         None \<Rightarrow> Inr (RX_DROP_UNUSABLE, [], w)
       | Some (port_control, rx) \<Rightarrow> rx_data_8023 D fc sdata port_control rx w)))"

section \<open>Facts\<close>

lemma be16_of_bytes: "le16_of (ucast x) (ucast (drop_bit 8 x)) = (x :: u16)"
  using le16_of_bytes [of x] by (simp add: le16_bytes_def)

lemma length_be16_bytes [simp]: "length (be16_bytes x) = 2" by (simp add: be16_bytes_def)

lemma length_ethhdr_bytes [simp]: "length (ethhdr_bytes e) = 14"
  by (simp add: ethhdr_bytes_def)

lemma ethhdr_load_append: "ethhdr_load (ethhdr_bytes e @ r) = Inr e"
  by (cases e; cases "h_dest e"; cases "h_source e")
    (simp add: ethhdr_load_def ethhdr_bytes_def be16_bytes_def arr_get_def be16_of_bytes)

lemma push_bytes_ok:
  assumes "length bs \<le> skb_headroom skb"
  shows "\<exists>skb'. push_bytes bs skb = Inr skb' \<and> frame_bytes skb' = bs @ frame_bytes skb \<and> skb_data skb' = bs @ skb_data skb \<and>
    skb_headroom skb' = skb_headroom skb - length bs \<and> (skb_ok skb \<longrightarrow> skb_ok skb')"
  using assms by (auto simp: push_bytes_def skb_push_def Let_def buf_write_def skb_headroom_def frame_bytes_def skb_ok_def)

lemma hdr_load_short:
  assumes "6 \<le> length r"
  shows "\<exists>m. hdr_load (take 24 (hdr_bytes h) @ r) = Inr (h\<lparr>addr4 := m\<rparr>)"
proof -
  obtain m where m: "mac_bytes m = take 6 r" using mac_of_bytes_ok [of r] assms by auto
  have "take 24 (hdr_bytes h) = le16_bytes (frame_control h) @ le16_bytes (duration_id h) @ mac_bytes (addr1 h) @
      mac_bytes (addr2 h) @ mac_bytes (addr3 h) @ le16_bytes (seq_ctrl h)" by (simp add: hdr_bytes_def)
  then have "take 24 (hdr_bytes h) @ r = hdr_bytes (h\<lparr>addr4 := m\<rparr>) @ drop 6 r"
    by (simp add: hdr_bytes_def m)
  then show ?thesis by (metis hdr_load_append)
qed

lemma ds_addresses_three:
  assumes "ty \<noteq> NL80211_IFTYPE_MESH_POINT" "\<not> ieee80211_has_a4 (frame_control h)"
  shows "ds_addresses addr ty (h\<lparr>addr4 := m\<rparr>) f skb n =
    (if ds_addresses addr ty h 0 skb 0 = None then None else Some (ieee80211_get_DA h, ieee80211_get_SA h, n))"
  using assms by (auto simp: ds_addresses_def Let_def ieee80211_get_DA_def ieee80211_get_SA_def ieee80211_has_a4_def ieee80211_has_tods_def ieee80211_has_fromds_def)

lemma data_to_8023_snap:
  assumes skb: "skb_ok skb" "frame_bytes skb = take 24 (hdr_bytes h) @ q @ enc @ be16_bytes proto @ payload"
    and fc: "24 + length q = ieee80211_hdrlen (frame_control h)" "ieee80211_is_data_present (frame_control h)" "\<not> ieee80211_has_a4 (frame_control h)"
    and enc: "length enc = 6" "enc = rfc1042_header \<and> proto \<noteq> ETH_P_AARP \<and> proto \<noteq> ETH_P_IPX \<or> enc = bridge_tunnel_header"
    and ds: "ty \<noteq> NL80211_IFTYPE_MESH_POINT" "ds_addresses addr ty h 0 skb 0 \<noteq> None"
  defines "eth \<equiv> \<lparr>h_dest = ieee80211_get_DA h, h_source = ieee80211_get_SA h, h_proto = proto\<rparr>"
  shows "\<exists>skb'. ieee80211_data_to_8023 addr ty skb = Inr (Some (eth, skb')) \<and> frame_bytes skb' = ethhdr_bytes eth @ payload \<and> skb_ok skb'"
proof -
  let ?n = "ieee80211_hdrlen (frame_control h)" and ?bs = "skb_data skb"
  have len: "skb_len skb = ?n + 8 + length payload" using arg_cong [OF skb(2), of length] skb(1) fc(1) enc(1) by simp
  define rest where "rest = drop (skb_len skb) ?bs"
  have bs: "?bs = take 24 (hdr_bytes h) @ (q @ enc @ be16_bytes proto @ payload @ rest)"
    using skb(2) append_take_drop_id [of "skb_len skb" ?bs] by (simp add: frame_bytes_def rest_def)
  obtain m where m: "hdr_load ?bs = Inr (h\<lparr>addr4 := m\<rparr>)" unfolding bs using hdr_load_short enc(1) by fastforce
  have hfc: "hdr_fc ?bs = Inr (frame_control h)" using hdr_load_fields(2) [OF m] by simp
  have d: "drop ?n ?bs = enc @ be16_bytes proto @ payload @ rest" unfolding bs fc(1) [symmetric] by simp
  have pl: "skb_copy_bits skb ?n 8 = Some (enc @ be16_bytes proto)" using len enc(1) d by (simp add: skb_copy_bits_def)
  have pr: "le16_of ((enc @ be16_bytes proto) ! 7) ((enc @ be16_bytes proto) ! 6) = proto" "take 6 (enc @ be16_bytes proto) = enc"
    using enc(1) by (simp_all add: nth_append be16_bytes_def be16_of_bytes)
  let ?s = "skb_pull (?n + 8) skb"
  have s: "frame_bytes ?s = payload" "skb_ok ?s" "14 \<le> skb_headroom ?s"
  proof -
    have "?n + 8 \<le> skb_len skb" using len by simp
    note fp = frame_bytes_pull [OF this]
    have "drop (?n + 8) (frame_bytes skb) = payload" using skb(2) fc(1) enc(1) by (simp add: fc(1) [symmetric])
    then show "frame_bytes ?s = payload" "skb_ok ?s" using fp skb(1) by simp_all
    show "14 \<le> skb_headroom ?s" using len skb(1) fc(1) by (simp add: skb_pull_def skb_headroom_def skb_ok_def)
  qed
  have "length (ethhdr_bytes eth) \<le> skb_headroom ?s" using s(3) by simp
  from push_bytes_ok [OF this] obtain s' where s': "push_bytes (ethhdr_bytes eth) ?s = Inr s'" "frame_bytes s' = ethhdr_bytes eth @ payload" "skb_ok s'"
    using s by auto
  have dsa: "ds_addresses addr ty (h\<lparr>addr4 := m\<rparr>) 0 skb ?n = Some (ieee80211_get_DA h, ieee80211_get_SA h, ?n)"
    using ds fc(3) by (simp add: ds_addresses_three)
  have "ieee80211_data_to_8023 addr ty skb = rbind (push_bytes (ethhdr_bytes eth) ?s) (\<lambda>skb. Inr (Some (eth, skb)))"
    using hfc len m fc(2) ds(1) dsa pl pr enc(2)
    by (auto simp: ieee80211_data_to_8023_def ieee80211_data_to_8023_exthdr_def Let_def eth_def)
  then show ?thesis using s' by simp
qed

section \<open>Properties\<close>

text \<open>A frame on its way to the network stack, to user space or to the medium, and the bytes of its Ethernet frame from \<open>n\<close> on.\<close>

fun delivered :: "u8 list \<Rightarrow> delivery \<Rightarrow> bool" where
  "delivered bs (Local_Stack sp skb) = (frame_bytes skb = drop ETH_HLEN bs)"
| "delivered bs (Control_Port sp skb enc) = (frame_bytes skb = drop ETH_HLEN bs)"
| "delivered bs (Queue_Xmit sp skb) = (frame_bytes skb = bs)"
| "delivered bs _ = False"

lemma frame_bytes_protocol [simp]: "frame_bytes (skb\<lparr>skb_protocol := p\<rparr>) = frame_bytes skb"
  by (simp add: frame_bytes_def)

lemma deliver_skb_out:
  assumes "ieee80211_deliver_skb D rx w = Inr (out, w')" and "ETH_HLEN \<le> skb_len (rx_skb rx)"
  shows "\<forall>x\<in>set out. delivered (frame_bytes (rx_skb rx)) x"
proof -
  have fb: "frame_bytes (skb_pull ETH_HLEN (rx_skb rx\<lparr>skb_protocol := p\<rparr>)) = drop ETH_HLEN (frame_bytes (rx_skb rx))" for p
    using frame_bytes_pull(1) [of ETH_HLEN "rx_skb rx\<lparr>skb_protocol := p\<rparr>"] assms(2) by simp
  obtain sp sdata w1 ehdr up xmit where b: "bridge_skb D sp sdata ehdr (rx_skb rx) w1 = Inr (up, xmit)"
      "out = (case up of None \<Rightarrow> [] | Some skb \<Rightarrow> [ieee80211_deliver_skb_to_local_stack D sp sdata rx
                (skb_pull ETH_HLEN (skb\<lparr>skb_protocol := eth_type_trans D (frame_bytes skb)\<rparr>))]) @
             (case xmit of None \<Rightarrow> [] | Some skb \<Rightarrow> [Queue_Xmit sp (skb\<lparr>skb_protocol := 1\<rparr>)])"
    using assms(1) by (auto simp: ieee80211_deliver_skb_def Let_def split: option.splits elim!: rbind_InrE)
  have "up = None \<or> up = Some (rx_skb rx)" "xmit = None \<or> xmit = Some (rx_skb rx)"
    using b(1) by (auto simp: bridge_skb_def split: if_splits elim!: rbind_InrE)
  then show ?thesis using b(2) fb by (auto simp: ieee80211_deliver_skb_to_local_stack_def)
qed

lemma frame_allowedE:
  assumes "ieee80211_frame_allowed fc rx w = Inr True" "rx_sdata rx = Some sp" "sdatas w sp = Some sd"
  obtains eth where "ethhdr_load (skb_data (rx_skb rx)) = Inr eth" "h_proto eth = control_port_protocol sd"
      "h_dest eth = vif_addr sd \<or> h_dest eth = pae_group_addr"
  | p s where "rx_sta rx = Some p" "stas w p = Some s" "sta_state s = IEEE80211_STA_AUTHORIZED" "ieee80211_drop_unencrypted fc rx w = Inr 0"
proof -
  obtain eth where eth: "ethhdr_load (skb_data (rx_skb rx)) = Inr eth"
    using assms(1) by (auto simp: ieee80211_frame_allowed_def elim!: rbind_InrE)
  have sd: "rx_sdata_of rx w = Inr sd" using assms(2,3) by (simp add: rx_sdata_of_def)
  show thesis
  proof (cases "h_proto eth = control_port_protocol sd \<and> (h_dest eth = vif_addr sd \<or> h_dest eth = pae_group_addr)")
    case True
    then show ?thesis using that(1) eth by blast
  next
    case False
    then obtain st where st: "rx_sta_of rx w = Inr st" "(case st of None \<Rightarrow> - EACCES
          | Some s \<Rightarrow> if sta_state s < IEEE80211_STA_AUTHORIZED then - EACCES else 0) = 0" "ieee80211_drop_unencrypted fc rx w = Inr 0"
      using assms(1) eth sd
      by (auto simp: ieee80211_frame_allowed_def ieee80211_802_1x_port_control_def rbind_Inr_iff split: if_splits)
    then obtain s where "st = Some s" "\<not> sta_state s < IEEE80211_STA_AUTHORIZED" by (auto split: option.splits if_splits)
    then show ?thesis using that(2) st
      by (cases "sta_state s") (auto simp: rx_sta_of_def deref_Inr_iff less_ieee80211_sta_state_def split: option.splits elim!: rbind_InrE)
  qed
qed

lemma push_bytes_len: "push_bytes bs skb = Inr skb' \<Longrightarrow> skb_len skb' = skb_len skb + length bs"
  by (auto simp: push_bytes_def skb_push_def Let_def split: if_splits elim!: rbind_InrE)

lemma data_to_8023_len:
  assumes "ieee80211_data_to_8023 addr ty skb = Inr (Some (e, skb'))"
  shows "ETH_HLEN \<le> skb_len skb'"
proof -
  obtain s where "push_bytes (ethhdr_bytes e) s = Inr skb'"
    using assms
    by (auto simp: ieee80211_data_to_8023_def ieee80211_data_to_8023_exthdr_def Let_def split: if_split_asm option.split_asm elim!: rbind_InrE)
  then show ?thesis by (simp add: push_bytes_len)
qed

lemma rx_data_to_8023_keeps:
  assumes "rx_data_to_8023 rx w = Inr (Some (pc, rx1))"
  shows "rx_sta rx1 = rx_sta rx" "rx_sdata rx1 = rx_sdata rx" "ETH_HLEN \<le> skb_len (rx_skb rx1)"
  using assms data_to_8023_len
  by (auto simp: rx_data_to_8023_def Let_def split: if_split_asm option.split_asm elim!: rbind_InrE)

lemma rx_data_8023_out:
  assumes "rx_data_8023 D fc sd pc rx w = Inr (res, out, w')" "x \<in> set out" "\<exists>bs. delivered bs x" "ETH_HLEN \<le> skb_len (rx_skb rx)"
  shows "ieee80211_frame_allowed fc rx w = Inr True" "delivered (frame_bytes (rx_skb rx)) x"
proof -
  obtain a where a: "ieee80211_frame_allowed fc rx w = Inr a" using assms(1) by (auto simp: rx_data_8023_def elim!: rbind_InrE)
  with assms(1,2) have a: "ieee80211_frame_allowed fc rx w = Inr True" by (cases a) (auto simp: rx_data_8023_def)
  then show "ieee80211_frame_allowed fc rx w = Inr True" .
  obtain eth where eth: "ethhdr_load (skb_data (rx_skb rx)) = Inr eth" using assms(1) a by (auto simp: rx_data_8023_def elim!: rbind_InrE)
  define sp where "sp = (if vif_type sd = NL80211_IFTYPE_AP_VLAN \<and> pc \<and> sdata_bss sd \<noteq> None then sdata_bss sd else rx_sdata rx)"
  have "\<not> (h_proto eth = ETH_P_TDLS \<and> tdls_chsw (rx_skb rx))"
    using assms(1-3) a eth by (auto simp: rx_data_8023_def elim!: rbind_InrE)
  then obtain out' t where "ieee80211_deliver_skb D (rx\<lparr>rx_sdata := sp\<rparr>) w = Inr (out', w')" "out = t @ out'" "t = [Restart_Ps_Timer] \<or> t = []"
    using assms(1) a eth unfolding rx_data_8023_def Let_def sp_def [symmetric] by (auto split: if_split_asm elim!: rbind_InrE)
  then have "ieee80211_deliver_skb D (rx\<lparr>rx_sdata := sp\<rparr>) w = Inr (out', w')" "x \<in> set out'" using assms(2,3) by auto
  then show "delivered (frame_bytes (rx_skb rx)) x" using deliver_skb_out assms(4) by fastforce
qed

text \<open>
  C25: Only authorised stations reach the network. Whatever the data handler hands to the network stack, to user space or back to the medium is the
  Ethernet frame converted from the received one, and either it is a frame of the control-port protocol for the
  interface itself or the PAE group address, or its sender is a station whose port is open and
  the frame is not one that should have been encrypted.
\<close>

theorem delivered_data_authorised:
  assumes "ieee80211_rx_h_data D rx w = Inr (res, out, w')" "hdr_fc (skb_data (rx_skb rx)) = Inr fc"
    and "rx_sdata rx = Some sp" "sdatas w sp = Some sd"
    and "x \<in> set out" "\<exists>bs. delivered bs x"
  shows "\<exists>pc rx1. rx_data_to_8023 rx w = Inr (Some (pc, rx1)) \<and> delivered (frame_bytes (rx_skb rx1)) x \<and>
    ((\<exists>eth. ethhdr_load (skb_data (rx_skb rx1)) = Inr eth \<and> h_proto eth = control_port_protocol sd \<and>
        (h_dest eth = vif_addr sd \<or> h_dest eth = pae_group_addr)) \<or>
     (\<exists>p s. rx_sta rx = Some p \<and> stas w p = Some s \<and> sta_state s = IEEE80211_STA_AUTHORIZED \<and>
        ieee80211_drop_unencrypted fc rx1 w = Inr 0))"
proof -
  have sd: "rx_sdata_of rx w = Inr sd" using assms(3,4) by (simp add: rx_sdata_of_def)
  have u: "unexpected_4addr rx w \<noteq> Inr (res, out, w')"
    using assms(5,6) by (auto simp: unexpected_4addr_def split: option.splits if_split_asm elim!: rbind_InrE)
  obtain pc rx1 where c: "rx_data_to_8023 rx w = Inr (Some (pc, rx1))" "rx_data_8023 D fc sd pc rx1 w = Inr (res, out, w')"
    using assms(1,2,5) sd u
    by (auto simp: ieee80211_rx_h_data_def split: if_split_asm option.split_asm elim!: rbind_InrE)
  note k = rx_data_to_8023_keeps [OF c(1)]
  note o = rx_data_8023_out [OF c(2) assms(5,6) k(3)]
  have "(\<exists>eth. ethhdr_load (skb_data (rx_skb rx1)) = Inr eth \<and> h_proto eth = control_port_protocol sd \<and>
        (h_dest eth = vif_addr sd \<or> h_dest eth = pae_group_addr)) \<or>
     (\<exists>p s. rx_sta rx = Some p \<and> stas w p = Some s \<and> sta_state s = IEEE80211_STA_AUTHORIZED \<and>
        ieee80211_drop_unencrypted fc rx1 w = Inr 0)"
    using frame_allowedE [OF o(1)] k(1,2) assms(3,4) by metis
  then show ?thesis using c(1) o(2) by blast
qed

lemma has_a4_iff: "ieee80211_has_a4 fc \<longleftrightarrow> ieee80211_has_tods fc \<and> ieee80211_has_fromds fc"
proof -
  have e: "(0x300 :: u16) = 2 ^ 8 OR 2 ^ 9" "(0x100 :: u16) = 2 ^ 8" "(0x200 :: u16) = 2 ^ 9" by simp_all
  have b: "bit (2 ^ 8 OR 2 ^ 9 :: u16) n \<longleftrightarrow> n = 8 \<or> n = 9" for n
    by (simp only: bit_or_iff bit_exp_iff) (auto simp: possible_bit_def)
  have "fc AND (2 ^ 8 OR 2 ^ 9) = (2 ^ 8 OR 2 ^ 9) \<longleftrightarrow> (\<forall>n. bit (fc AND (2 ^ 8 OR 2 ^ 9)) n = bit (2 ^ 8 OR 2 ^ 9 :: u16) n)"
    by (metis bit_eqI)
  also have "\<dots> \<longleftrightarrow> bit fc 8 \<and> bit fc 9" by (simp only: bit_and_iff b) auto
  finally have "fc AND (2 ^ 8 OR 2 ^ 9) = (2 ^ 8 OR 2 ^ 9) \<longleftrightarrow> bit fc 8 \<and> bit fc 9" .
  then show ?thesis
    unfolding ieee80211_has_a4_def ieee80211_has_tods_def ieee80211_has_fromds_def by (simp only: e and_exp_eq_0_iff_not_bit) simp
qed

lemma snap_frame_hdr:
  assumes "skb_ok skb" "frame_bytes skb = take 24 (hdr_bytes h) @ r" "6 \<le> length r"
  shows "\<exists>m. hdr_load (skb_data skb) = Inr (h\<lparr>addr4 := m\<rparr>)"
proof -
  have "skb_data skb = take 24 (hdr_bytes h) @ (r @ drop (skb_len skb) (skb_data skb))"
    using assms(2) append_take_drop_id [of "skb_len skb" "skb_data skb"] by (simp add: frame_bytes_def)
  then show ?thesis using hdr_load_short [of "r @ drop (skb_len skb) (skb_data skb)" h] assms(3) by simp
qed

text \<open>
  Frames of stations without access are relayed. An access point sends a frame of the control-port protocol that a station has addressed to the
  PAE group on to its other stations, although the sender is not authorised: the exemption from port
  control is for frames the access point itself consumes, but the bridging after it does not make
  that difference.
\<close>

theorem eapol_group_frame_relayed:
  assumes sd: "rx_sdata rx = Some sp" "sdatas w sp = Some sd" "vif_type sd = NL80211_IFTYPE_AP" "num_mcast_sta sd \<noteq> 0"
      "sdata_flags sd AND IEEE80211_SDATA_DONT_BRIDGE_PACKETS = 0"
    and s: "rx_sta rx = Some p" "stas w p = Some s" "sta_state s \<noteq> IEEE80211_STA_AUTHORIZED" "seqno_idx rx < length (rx_msdu s)"
    and skb: "skb_ok (rx_skb rx)"
      "frame_bytes (rx_skb rx) = take 24 (hdr_bytes h) @ q @ rfc1042_header @ be16_bytes (control_port_protocol sd) @ payload"
    and fc: "24 + length q = ieee80211_hdrlen (frame_control h)" "ieee80211_is_data_present (frame_control h)"
      "ieee80211_has_tods (frame_control h)" "\<not> ieee80211_has_a4 (frame_control h)" "addr3 h = pae_group_addr"
    and proto: "control_port_protocol sd \<noteq> ETH_P_AARP" "control_port_protocol sd \<noteq> ETH_P_IPX" "control_port_protocol sd \<noteq> ETH_P_TDLS"
    and copy: "mcast_copy_ok D"
  shows "\<exists>out w' f. ieee80211_rx_h_data D rx w = Inr (RX_QUEUED, out, w') \<and> Queue_Xmit sp f \<in> set out \<and>
    frame_bytes f = mac_bytes pae_group_addr @ mac_bytes (addr2 h) @ be16_bytes (control_port_protocol sd) @ payload"
proof -
  let ?eth = "\<lparr>h_dest = pae_group_addr, h_source = addr2 h, h_proto = control_port_protocol sd\<rparr>"
  have a: "ieee80211_get_DA h = pae_group_addr" "ieee80211_get_SA h = addr2 h" "\<not> ieee80211_has_fromds (frame_control h)"
    using fc(3-5) by (auto simp: ieee80211_get_DA_def ieee80211_get_SA_def has_a4_iff)
  have hd: "hdr_fc (skb_data (rx_skb rx)) = Inr (frame_control h)" "hdr_addr1 (skb_data (rx_skb rx)) = Inr (addr1 h)"
    using snap_frame_hdr [OF skb] hdr_load_fields(2,3) by (fastforce simp: rfc1042_header_def)+
  have ds: "ds_addresses (vif_addr sd) NL80211_IFTYPE_AP h 0 (rx_skb rx) 0 \<noteq> None" using fc(3) a(3) by (simp add: ds_addresses_def Let_def)
  have mesh: "NL80211_IFTYPE_AP \<noteq> NL80211_IFTYPE_MESH_POINT" by simp
  have l6: "length rfc1042_header = 6" by (simp add: rfc1042_header_def)
  obtain skb' where c: "ieee80211_data_to_8023 (vif_addr sd) NL80211_IFTYPE_AP (rx_skb rx) = Inr (Some (?eth, skb'))"
      "frame_bytes skb' = ethhdr_bytes ?eth @ payload" "skb_ok skb'"
    using data_to_8023_snap [OF skb fc(1,2,4) l6 _ mesh ds] proto a by auto
  have conv: "rx_data_to_8023 rx w = Inr (Some (True, rx\<lparr>rx_skb := skb'\<rparr>))"
    using sd hd c(1) by (simp add: rx_data_to_8023_def rx_sdata_of_def Let_def)
  have eth: "ethhdr_load (skb_data skb') = Inr ?eth"
    using c(2,3) append_take_drop_id [of "skb_len skb'" "skb_data skb'"] ethhdr_load_append [of ?eth "payload @ drop (skb_len skb') (skb_data skb')"]
    by (simp add: frame_bytes_def)
  have ok: "ieee80211_frame_allowed (frame_control h) (rx\<lparr>rx_skb := skb'\<rparr>) w = Inr True"
    using eth sd by (simp add: ieee80211_frame_allowed_def rx_sdata_of_def)
  have m: "is_multicast_ether_addr pae_group_addr" by (simp add: pae_group_addr_def)
  let ?w = "put_sdata sp (ieee80211_rx_stats (skb_len skb') sd) w"
  have "bridge_skb D sp sd ?eth skb' v = Inr (Some skb', Some skb')" for v
    using sd copy m by (simp add: bridge_skb_def ieee80211_vif_get_num_mcast_if_def)
  moreover obtain v where "count_rx_msdu (rx\<lparr>rx_skb := skb', rx_sdata := Some sp\<rparr>) ?w = Inr v"
    using s by (auto simp: count_rx_msdu_def put_sdata_def)
  ultimately obtain o1 where d: "ieee80211_deliver_skb D (rx\<lparr>rx_skb := skb', rx_sdata := Some sp\<rparr>) w = Inr ([o1, Queue_Xmit sp (skb'\<lparr>skb_protocol := 1\<rparr>)], v)"
    using sd(1,2) eth by (simp add: ieee80211_deliver_skb_def Let_def)
  have "rx_data_8023 D (frame_control h) sd True (rx\<lparr>rx_skb := skb'\<rparr>) w = Inr (RX_QUEUED, [o1, Queue_Xmit sp (skb'\<lparr>skb_protocol := 1\<rparr>)], v)"
    using ok eth proto(3) m sd(1,3) d by (simp add: rx_data_8023_def Let_def)
  then have "ieee80211_rx_h_data D rx w = Inr (RX_QUEUED, [o1, Queue_Xmit sp (skb'\<lparr>skb_protocol := 1\<rparr>)], v)"
    using sd hd fc(2,4) conv is_data_present_is_data by (simp add: ieee80211_rx_h_data_def rx_sdata_of_def)
  then show ?thesis using c(2) by (intro exI) (auto simp: ethhdr_bytes_def)
qed

text \<open>An associated but not yet authorised station sends a control-port frame to the PAE group.\<close>

definition sample_assoc_ap :: world where
  "sample_assoc_ap = (let w = sample_world NL80211_IFTYPE_AP (Some 3) 16 in put_sta 5 ((the (stas w 5))\<lparr>sta_state := IEEE80211_STA_ASSOC\<rparr>) w)"

definition sample_eapol_hdr :: ieee80211_hdr where
  "sample_eapol_hdr = sample_hdr\<lparr>frame_control := 0x0108, addr3 := pae_group_addr\<rparr>"

definition sample_eapol_rx :: ieee80211_rx_data where
  "sample_eapol_rx = sample_rx (sample_skb\<lparr>skb_data := take 24 (hdr_bytes sample_eapol_hdr) @ rfc1042_header @ [0x88, 0x8e] @ [1, 2, 3, 4], skb_len := 36\<rparr>)"

definition sample_deliver :: deliver_env where
  "sample_deliver = \<lparr>eth_type_trans = (\<lambda>bs. le16_of (bs ! 13) (bs ! 12)), mcast_copy_ok = True, ps_timer = (\<lambda>_. False)\<rparr>"

theorem eapol_group_frame_relayed_witness:
  "\<exists>out w' f. ieee80211_rx_h_data sample_deliver sample_eapol_rx sample_assoc_ap = Inr (RX_QUEUED, out, w') \<and> Queue_Xmit 2 f \<in> set out \<and>
    frame_bytes f = mac_bytes pae_group_addr @ mac_bytes sample_base @ be16_bytes 0x888E @ [1, 2, 3, 4]"
proof -
  let ?sd = "the (sdatas sample_assoc_ap 2)" and ?s = "the (stas sample_assoc_ap 5)"
  have w: "sdatas sample_assoc_ap 2 = Some ?sd" "stas sample_assoc_ap 5 = Some ?s" "vif_type ?sd = NL80211_IFTYPE_AP" "num_mcast_sta ?sd \<noteq> 0"
      "sdata_flags ?sd AND IEEE80211_SDATA_DONT_BRIDGE_PACKETS = 0" "sta_state ?s \<noteq> IEEE80211_STA_AUTHORIZED" "0 < length (rx_msdu ?s)"
      "control_port_protocol ?sd = 0x888E"
    by (simp_all add: sample_assoc_ap_def sample_world_def put_sta_def)
  have rx: "rx_sdata sample_eapol_rx = Some 2" "rx_sta sample_eapol_rx = Some 5" "seqno_idx sample_eapol_rx = 0" "skb_ok (rx_skb sample_eapol_rx)"
      "frame_bytes (rx_skb sample_eapol_rx) = take 24 (hdr_bytes sample_eapol_hdr) @ [] @ rfc1042_header @ be16_bytes 0x888E @ [1, 2, 3, 4]"
    by (simp_all add: sample_eapol_rx_def sample_rx_def skb_ok_def frame_bytes_def rfc1042_header_def be16_bytes_def)
  have fc: "24 + length [] = ieee80211_hdrlen (frame_control sample_eapol_hdr)" "ieee80211_is_data_present (frame_control sample_eapol_hdr)"
      "ieee80211_has_tods (frame_control sample_eapol_hdr)" "\<not> ieee80211_has_a4 (frame_control sample_eapol_hdr)" "addr3 sample_eapol_hdr = pae_group_addr"
      "addr2 sample_eapol_hdr = sample_base"
    by (simp_all add: sample_eapol_hdr_def sample_hdr_def ieee80211_hdrlen_def ieee80211_is_data_def ieee80211_is_data_present_def
        ieee80211_has_tods_def ieee80211_has_a4_def ieee80211_is_data_qos_def)
  have "mcast_copy_ok sample_deliver" by (simp add: sample_deliver_def)
  then show ?thesis
    using eapol_group_frame_relayed [OF rx(1) w(1,3-5) rx(2) w(2,6), of sample_eapol_hdr "[]" "[1, 2, 3, 4]" sample_deliver] rx fc w by simp
qed

lemma sample_relayed:
  "case ieee80211_rx_h_data sample_deliver sample_eapol_rx sample_assoc_ap of
     Inr (res, out, w') \<Rightarrow> list_ex (\<lambda>x. case x of Queue_Xmit sp f \<Rightarrow> True | _ \<Rightarrow> False) out
   | Inl _ \<Rightarrow> False"
  by code_simp

theorem delivered_data_authorised_witness:
  "\<exists>x pc rx1. rx_data_to_8023 sample_eapol_rx sample_assoc_ap = Inr (Some (pc, rx1)) \<and> delivered (frame_bytes (rx_skb rx1)) x"
proof -
  obtain res out w' x where o: "ieee80211_rx_h_data sample_deliver sample_eapol_rx sample_assoc_ap = Inr (res, out, w')" "x \<in> set out"
      "case x of Queue_Xmit sp f \<Rightarrow> True | _ \<Rightarrow> False"
    using sample_relayed by (auto simp: list_ex_iff split: sum.splits)
  then have "\<exists>bs. delivered bs x" by (cases x) auto
  moreover obtain sd where "sdatas sample_assoc_ap 2 = Some sd" by (simp add: sample_assoc_ap_def sample_world_def put_sta_def Let_def)
  moreover have "hdr_fc (skb_data (rx_skb sample_eapol_rx)) = Inr 0x0108" "rx_sdata sample_eapol_rx = Some 2"
    by (simp_all add: sample_eapol_rx_def sample_eapol_hdr_def sample_rx_def hdr_bytes_def hdr_fc_def le16_bytes_def sample_hdr_def le16_of_def)
  ultimately show ?thesis using delivered_data_authorised [OF o(1)] o(2) by metis
qed

end
