(* ===== verification/Build_Hdr.thy ===== *)
theory Build_Hdr
  imports Delivery
begin

text \<open>
  The entrance of the transmit path (\<^verbatim>\<open>net/mac80211/tx.c\<close>): finding the station an Ethernet frame from the network stack goes to,
  building its 802.11 header, and the order in which the handlers of the later half are called. As the project configures it,
  the stack is built without mesh support.
\<close>

section \<open>Definitions\<close>

abbreviation (input) EPERM :: int where "EPERM \<equiv> 1"
abbreviation (input) ENOMEM :: int where "ENOMEM \<equiv> 12"
abbreviation (input) ENOLINK :: int where "ENOLINK \<equiv> 67"
abbreviation (input) ENOTCONN :: int where "ENOTCONN \<equiv> 107"

text \<open>
  What the code asks of the buffer, the hardware and the allocator: whether the socket wants a status report
  (\<open>status_wanted\<close>) and the identifier its copy of the frame gets, whether the buffer is shared or cloned and can be
  written as it is, whether a clone and a larger buffer can be had and what the new space holds.
\<close>

record build_env =
  force_tx_status :: bool
  status_wanted :: bool
  ack_id :: "nat option"
  is_shared :: bool
  clone_ok :: bool
  is_cloned :: bool
  clone_writable :: bool
  expand_ok :: bool
  expand_fill :: "nat \<Rightarrow> u8"
  tx_headroom :: nat
  supports_tdls :: bool

definition pskb_expand_head :: "build_env \<Rightarrow> nat \<Rightarrow> nat \<Rightarrow> sk_buff \<Rightarrow> sk_buff" where
  "pskb_expand_head E nhead ntail skb =
     skb\<lparr>skb_head := map (expand_fill E) [0..<nhead] @ skb_head skb, skb_data := skb_data skb @ map (expand_fill E) [0..<ntail]\<rparr>"

abbreviation (input) IEEE80211_ENCRYPT_TAILROOM :: nat where "IEEE80211_ENCRYPT_TAILROOM \<equiv> 18"

text \<open>The frame control is read from wherever the buffer begins. \<open>None\<close> is the failed allocation.\<close>

definition ieee80211_skb_resize ::
  "build_env \<Rightarrow> ieee80211_sub_if_data \<Rightarrow> bool \<Rightarrow> nat \<Rightarrow> bool \<Rightarrow> sk_buff \<Rightarrow> sk_buff option result" where
  "ieee80211_skb_resize E sdata cloned head_need may_encrypt skb =
     rbind (if may_encrypt \<and> crypto_tx_tailroom_needed_cnt sdata = 0
            then rbind (hdr_fc (skb_data skb)) (\<lambda>fc. Inr (ieee80211_is_mgmt fc)) else Inr may_encrypt) (\<lambda>enc_tailroom.
     let tail_need = (if enc_tailroom then IEEE80211_ENCRYPT_TAILROOM - skb_tailroom skb else 0) in
     if \<not> (cloned \<and> (\<not> clone_writable E \<or> enc_tailroom)) \<and> head_need = 0 \<and> tail_need = 0 then Inr (Some skb)
     else if expand_ok E then Inr (Some (pskb_expand_head E head_need tail_need skb))
     else Inr None)"

definition ieee80211_is_tdls_setup :: "sk_buff \<Rightarrow> bool result" where
  "ieee80211_is_tdls_setup skb =
     rbind (arr_get (skb_data skb) 12) (\<lambda>hi. rbind (arr_get (skb_data skb) 13) (\<lambda>lo.
     if le16_of lo hi = ETH_P_TDLS \<and> 14 < skb_len skb
     then rbind (arr_get (skb_data skb) 14) (\<lambda>t. Inr (t = 2)) else Inr False))"

text \<open>
  \<open>Inl\<close> is a negative error code; \<open>Inr None\<close> is \<^verbatim>\<open>ERR_PTR(-ENOENT)\<close>, which the caller turns into a null pointer.
\<close>

definition ieee80211_lookup_ra_sta :: "build_env \<Rightarrow> sdata_ptr \<Rightarrow> sk_buff \<Rightarrow> world \<Rightarrow> (int + sta_ptr option) result" where
  "ieee80211_lookup_ra_sta E sp skb w =
     rbind (deref (sdatas w) sp) (\<lambda>sdata.
     rbind (mac_of_bytes (skb_data skb)) (\<lambda>da.
     let by_da = (if is_multicast_ether_addr da then Inr (Inr None)
                  else rbind (sta_info_get_bss w sp da) (\<lambda>sta. Inr (Inr sta)));
         bss_sta = rbind (sta_info_get w sp (mgd_bssid sdata)) (\<lambda>sta.
                     case sta of None \<Rightarrow> Inr (Inl (- ENOLINK)) | Some p \<Rightarrow> Inr (Inr (Some p)))
     in case vif_type sdata of
          NL80211_IFTYPE_AP_VLAN \<Rightarrow>
            (case vlan_sta sdata of
               Some p \<Rightarrow> Inr (Inr (Some p))
             | None \<Rightarrow> if wdev_use_4addr sdata then Inr (Inl (- ENOLINK)) else by_da)
        | NL80211_IFTYPE_AP \<Rightarrow> by_da
        | NL80211_IFTYPE_OCB \<Rightarrow> by_da
        | NL80211_IFTYPE_ADHOC \<Rightarrow> by_da
        | NL80211_IFTYPE_WDS \<Rightarrow> rbind (sta_info_get w sp (wds_remote_addr sdata)) (\<lambda>sta. Inr (Inr sta))
        | NL80211_IFTYPE_STATION \<Rightarrow>
            if \<not> supports_tdls E then bss_sta
            else
              rbind (sta_info_get w sp da) (\<lambda>peer.
              case peer of
                None \<Rightarrow> bss_sta
              | Some p \<Rightarrow>
                  rbind (deref (stas w) p) (\<lambda>s.
                  if \<not> tdls_peer s then bss_sta
                  else if tdls_authorized s then Inr (Inr (Some p))
                  else rbind (ieee80211_is_tdls_setup skb) (\<lambda>setup. if setup then bss_sta else Inr (Inl (- EINVAL)))))
        | _ \<Rightarrow> Inr (Inl (- EINVAL))))"

text \<open>
  The switch on the interface type: frame control, the four addresses (the fourth is unset in three-address
  headers) and the length of the header, or an error code.
\<close>

abbreviation (input) FC_DATA :: u16 where "FC_DATA \<equiv> 0x0008"
abbreviation (input) FC_FROMDS :: u16 where "FC_FROMDS \<equiv> 0x0200"
abbreviation (input) FC_TODS :: u16 where "FC_TODS \<equiv> 0x0100"

definition no_addr :: mac where "no_addr = Mac 0 0 0 0 0 0"

type_synonym hdr_fields = "u16 \<times> mac \<times> mac \<times> mac \<times> mac \<times> nat"

definition build_addrs ::
  "ieee80211_sub_if_data \<Rightarrow> sta_info option \<Rightarrow> u16 \<Rightarrow> mac \<Rightarrow> mac \<Rightarrow> world \<Rightarrow> (int + hdr_fields) result" where
  "build_addrs sdata sta ethertype da sa w =
     (let bcast = Mac 0xff 0xff 0xff 0xff 0xff 0xff;
          connected = (\<lambda>sd r. if has_chanctx sd then Inr (Inr r) else Inr (Inl (- ENOTCONN)));
          ap = (FC_DATA OR FC_FROMDS, da, vif_addr sdata, sa, no_addr, 24)
      in case vif_type sdata of
           NL80211_IFTYPE_AP_VLAN \<Rightarrow>
             rbind (if wdev_use_4addr sdata
                    then (case sta of None \<Rightarrow> Inl NullDeref
                          | Some s \<Rightarrow> Inr (FC_DATA OR FC_FROMDS OR FC_TODS, sta_addr s, vif_addr sdata, da, sa, 30))
                    else Inr ap) (\<lambda>fields.
             rbind (case sdata_bss sdata of None \<Rightarrow> Inl NullDeref | Some b \<Rightarrow> deref (sdatas w) b) (\<lambda>ap_sdata.
             connected ap_sdata fields))
         | NL80211_IFTYPE_AP \<Rightarrow> connected sdata ap
         | NL80211_IFTYPE_WDS \<Rightarrow> Inr (Inr (FC_DATA OR FC_FROMDS OR FC_TODS, wds_remote_addr sdata, vif_addr sdata, da, sa, 30))
         | NL80211_IFTYPE_STATION \<Rightarrow>
             (case sta of
                None \<Rightarrow> Inl NullDeref
              | Some s \<Rightarrow>
                  connected sdata
                    (if tdls_peer s then (FC_DATA, da, sa, mgd_bssid sdata, no_addr, 24)
                     else if use_4addr sdata \<and> ethertype \<noteq> control_port_protocol sdata
                     then (FC_DATA OR FC_FROMDS OR FC_TODS, mgd_bssid sdata, vif_addr sdata, da, sa, 30)
                     else (FC_DATA OR FC_TODS, mgd_bssid sdata, sa, da, no_addr, 24)))
         | NL80211_IFTYPE_OCB \<Rightarrow> connected sdata (FC_DATA, da, sa, bcast, no_addr, 24)
         | NL80211_IFTYPE_ADHOC \<Rightarrow> connected sdata (FC_DATA, da, sa, ibss_bssid sdata, no_addr, 24)
         | _ \<Rightarrow> Inr (Inl (- EINVAL)))"

text \<open>The LLC header a protocol number is sent with and the bytes of the Ethernet header it replaces.\<close>

definition encapsulation :: "u16 \<Rightarrow> u8 list \<times> nat" where
  "encapsulation ethertype =
     (if ethertype = ETH_P_AARP \<or> ethertype = ETH_P_IPX then (bridge_tunnel_header, ETH_HLEN - 2)
      else if ETH_P_802_3_MIN \<le> ethertype then (rfc1042_header, ETH_HLEN - 2)
      else ([], ETH_HLEN))"

text \<open>From the pull of the Ethernet header on. The requested identifier of the status report is returned with the frame.\<close>

definition write_hdr ::
  "build_env \<Rightarrow> ieee80211_sub_if_data \<Rightarrow> bool \<Rightarrow> u16 \<Rightarrow> ieee80211_hdr \<Rightarrow> nat \<Rightarrow> sk_buff \<Rightarrow> (int + sk_buff) result" where
  "write_hdr E sdata cloned ethertype hdr hdrlen skb =
     (let (encaps_data, skip_header_bytes) = encapsulation ethertype;
          skb = skb_pull skip_header_bytes skb;
          head_need = int hdrlen + int (length encaps_data) - int (skb_headroom skb)
      in rbind (if 0 < head_need \<or> cloned
                then ieee80211_skb_resize E sdata cloned (nat (head_need + int (encrypt_headroom sdata) + int (tx_headroom E))) True skb
                else Inr (Some skb)) (\<lambda>r.
         case r of
           None \<Rightarrow> Inr (Inl (- ENOMEM))
         | Some skb \<Rightarrow>
             rbind (if encaps_data \<noteq> [] then push_bytes encaps_data skb else Inr skb) (\<lambda>skb.
             rbind (if ieee80211_is_data_qos (frame_control hdr)
                    then rbind (push_bytes [0, 0] skb) (push_bytes (take (hdrlen - 2) (hdr_bytes hdr)))
                    else push_bytes (take hdrlen (hdr_bytes hdr)) skb) (\<lambda>skb.
             Inr (Inr skb)))))"

abbreviation (input) IEEE80211_TX_CTL_REQ_TX_STATUS :: u32 where "IEEE80211_TX_CTL_REQ_TX_STATUS \<equiv> 0x1"

definition ieee80211_build_hdr ::
  "build_env \<Rightarrow> sdata_ptr \<Rightarrow> sta_ptr option \<Rightarrow> u32 \<Rightarrow> u32 \<Rightarrow> sk_buff \<Rightarrow> world \<Rightarrow> (int + sk_buff \<times> nat) result" where
  "ieee80211_build_hdr E sp sta flags ctrl_flags skb w =
     rbind (deref (sdatas w) sp) (\<lambda>sdata.
     rbind (case sta of None \<Rightarrow> Inr None | Some p \<Rightarrow> rbind (deref (stas w) p) (\<lambda>s. Inr (Some s))) (\<lambda>sta.
     rbind (ethhdr_load (skb_data skb)) (\<lambda>eth.
     let ethertype = h_proto eth in
     rbind (build_addrs sdata sta ethertype (h_dest eth) (h_source eth) w) (\<lambda>fields.
     case fields of
       Inl e \<Rightarrow> Inr (Inl e)
     | Inr (fc, a1, a2, a3, a4, hdrlen) \<Rightarrow>
         let multicast = is_multicast_ether_addr a1;
             authorized = (case sta of None \<Rightarrow> False | Some s \<Rightarrow> sta_state s = IEEE80211_STA_AUTHORIZED);
             wme_sta = (case sta of None \<Rightarrow> False | Some s \<Rightarrow> sta_wme s);
             fc = (if wme_sta then fc OR 0x0080 else fc);
             hdrlen = (if wme_sta then hdrlen + 2 else hdrlen)
         in if vif_type sdata \<noteq> NL80211_IFTYPE_OCB \<and> \<not> multicast \<and> \<not> authorized \<and>
               (ethertype \<noteq> control_port_protocol sdata \<or> vif_addr sdata \<noteq> h_source eth)
            then Inr (Inl (- EPERM))
            else
              let info_id = (if \<not> multicast \<and> status_wanted E then (case ack_id E of None \<Rightarrow> 0 | Some i \<Rightarrow> i) else 0);
                  reported = (\<not> multicast \<and> status_wanted E \<and> ack_id E \<noteq> None);
                  flags = (if force_tx_status E \<or> reported then flags OR IEEE80211_TX_CTL_REQ_TX_STATUS else flags);
                  cloned = (is_cloned E \<or> is_shared E \<or> reported)
              in if is_shared E \<and> \<not> clone_ok E then Inr (Inl (- ENOMEM))
                 else
                   rbind (write_hdr E sdata cloned ethertype
                            \<lparr>frame_control = fc, duration_id = 0, addr1 = a1, addr2 = a2, addr3 = a3, seq_ctrl = 0, addr4 = a4\<rparr>
                            hdrlen skb) (\<lambda>r.
                   case r of
                     Inl e \<Rightarrow> Inr (Inl e)
                   | Inr skb \<Rightarrow>
                       Inr (Inr (skb\<lparr>info_flags := flags, info_control_flags := ctrl_flags, info_hw_key := None, info_vif := None,
                                    info_hw_queue := 0, info_rates_idx := [0, 0, 0, 0]\<rparr>, info_id)))))))"

section \<open>Facts\<close>

lemma encapsulation_cases:
  assumes "ETH_P_802_3_MIN \<le> proto"
  obtains enc where "encapsulation proto = (enc, 12)" "length enc = 6"
    "enc = rfc1042_header \<and> proto \<noteq> ETH_P_AARP \<and> proto \<noteq> ETH_P_IPX \<or> enc = bridge_tunnel_header"
  using assms by (cases "proto = ETH_P_AARP \<or> proto = ETH_P_IPX")
    (auto simp: encapsulation_def rfc1042_header_def bridge_tunnel_header_def)

lemma resize_ok:
  assumes "expand_ok E" "2 \<le> length (skb_data skb)" "skb_ok skb"
  shows "\<exists>skb'. ieee80211_skb_resize E sd cl n en skb = Inr (Some skb') \<and> skb_headroom skb + n \<le> skb_headroom skb' \<and>
    frame_bytes skb' = frame_bytes skb \<and> skb_ok skb'"
proof -
  have e: "skb_headroom skb + n \<le> skb_headroom (pskb_expand_head E n m skb)"
      "frame_bytes (pskb_expand_head E n m skb) = frame_bytes skb" "skb_ok (pskb_expand_head E n m skb)" for m
    using assms(3) by (simp_all add: pskb_expand_head_def skb_headroom_def frame_bytes_def skb_ok_def)
  have fc: "\<exists>fc. hdr_fc (skb_data skb) = Inr fc" using assms(2) by (auto simp: hdr_fc_def arr_get_def)
  then obtain b where b: "(if en \<and> crypto_tx_tailroom_needed_cnt sd = 0
      then rbind (hdr_fc (skb_data skb)) (\<lambda>fc. Inr (ieee80211_is_mgmt fc)) else Inr en) = Inr b" by (cases "en \<and> crypto_tx_tailroom_needed_cnt sd = 0") auto
  show ?thesis
    unfolding ieee80211_skb_resize_def b using assms(1,3) e by (simp add: Let_def)
qed

lemma write_hdr_ok:
  assumes skb: "skb_ok skb" "frame_bytes skb = ethhdr_bytes eth @ payload" and enc: "encapsulation (h_proto eth) = (enc, 12)" "length enc = 6"
    and "expand_ok E" and hl: "hl = (if ieee80211_is_data_qos (frame_control h) then 26 else 24)"
  shows "\<exists>skb'. write_hdr E sd cl (h_proto eth) h hl skb = Inr (Inr skb') \<and> skb_ok skb' \<and>
    frame_bytes skb' = take 24 (hdr_bytes h) @ (if ieee80211_is_data_qos (frame_control h) then [0, 0] else []) @ enc @
      be16_bytes (h_proto eth) @ payload"
proof -
  let ?s = "skb_pull 12 skb" and ?need = "\<lambda>s. int hl + int (length enc) - int (skb_headroom s)"
  have len: "skb_len skb = 14 + length payload" using arg_cong [OF skb(2), of length] skb(1) by simp
  have s: "frame_bytes ?s = be16_bytes (h_proto eth) @ payload" "skb_ok ?s"
    using frame_bytes_pull [of 12 skb] len skb by (simp_all add: ethhdr_bytes_def)
  have two: "2 \<le> length (skb_data ?s)" using s(2) frame_bytes_pull(2) [of 12 skb] len by (simp add: skb_ok_def)
  obtain s1 where s1: "(if 0 < ?need ?s \<or> cl
      then ieee80211_skb_resize E sd cl (nat (?need ?s + int (encrypt_headroom sd) + int (tx_headroom E))) True ?s
      else Inr (Some ?s)) = Inr (Some s1)" "hl + 6 \<le> skb_headroom s1" "frame_bytes s1 = be16_bytes (h_proto eth) @ payload" "skb_ok s1"
  proof (cases "0 < ?need ?s \<or> cl")
    case True
    obtain s1 where "ieee80211_skb_resize E sd cl (nat (?need ?s + int (encrypt_headroom sd) + int (tx_headroom E))) True ?s = Inr (Some s1)"
        "skb_headroom ?s + nat (?need ?s + int (encrypt_headroom sd) + int (tx_headroom E)) \<le> skb_headroom s1"
        "frame_bytes s1 = frame_bytes ?s" "skb_ok s1"
      using resize_ok [OF assms(5) two s(2)] by blast
    then show ?thesis using that True s enc(2) by force
  next
    case False
    then show ?thesis using that [of ?s] s enc(2) by simp
  qed
  obtain s2 where s2: "push_bytes enc s1 = Inr s2" "frame_bytes s2 = enc @ frame_bytes s1" "skb_headroom s2 = skb_headroom s1 - 6" "skb_ok s2"
    using push_bytes_ok [of enc s1] s1(2,4) enc(2) by auto
  have h24: "length (take 24 (hdr_bytes h)) = 24" by simp
  obtain s3 where s3: "(if ieee80211_is_data_qos (frame_control h)
        then rbind (push_bytes [0, 0] s2) (push_bytes (take (hl - 2) (hdr_bytes h)))
        else push_bytes (take hl (hdr_bytes h)) s2) = Inr s3" "skb_ok s3"
      "frame_bytes s3 = take 24 (hdr_bytes h) @ (if ieee80211_is_data_qos (frame_control h) then [0, 0] else []) @ frame_bytes s2"
  proof (cases "ieee80211_is_data_qos (frame_control h)")
    case True
    have "length [0 :: u8, 0] \<le> skb_headroom s2" using s1(2) s2(3) hl True by simp
    from push_bytes_ok [OF this] obtain q where "push_bytes [0, 0] s2 = Inr q" "frame_bytes q = [0, 0] @ frame_bytes s2" "skb_headroom q = skb_headroom s2 - 2" "skb_ok q"
      using s2(4) by auto
    moreover have "length (take 24 (hdr_bytes h)) \<le> skb_headroom q" using calculation(3) h24 s1(2) s2(3) hl True by simp
    from push_bytes_ok [OF this] obtain r where "push_bytes (take 24 (hdr_bytes h)) q = Inr r"
        "frame_bytes r = take 24 (hdr_bytes h) @ frame_bytes q" "skb_ok r"
      using calculation(4) by auto
    ultimately show ?thesis using that [of r] True hl by simp
  next
    case False
    then have "length (take 24 (hdr_bytes h)) \<le> skb_headroom s2" using h24 s1(2) s2(3) hl by simp
    from push_bytes_ok [OF this] obtain r where "push_bytes (take 24 (hdr_bytes h)) s2 = Inr r"
        "frame_bytes r = take 24 (hdr_bytes h) @ frame_bytes s2" "skb_ok r"
      using s2(4) by auto
    then show ?thesis using that [of r] False hl by simp
  qed
  have ne: "enc \<noteq> []" using enc(2) by auto
  have "write_hdr E sd cl (h_proto eth) h hl skb = Inr (Inr s3)"
    unfolding write_hdr_def enc(1) Let_def prod.case s1(1) by (simp only: rbind_simps option.case if_True ne s2(1) s3(1) not_False_eq_True)
  then show ?thesis using s1(3) s2(2) s3(2,3) by simp
qed

text \<open>
  The header built for a three-address frame of an infrastructure or ad-hoc network: which station of the other side
  receives it, and the header's fields.
\<close>

definition ds_pair :: "nl80211_iftype \<Rightarrow> nl80211_iftype \<Rightarrow> bool" where
  "ds_pair tx rx \<longleftrightarrow>
     tx = NL80211_IFTYPE_STATION \<and> rx = NL80211_IFTYPE_AP \<or> tx = NL80211_IFTYPE_AP \<and> rx = NL80211_IFTYPE_STATION \<or>
     tx = NL80211_IFTYPE_ADHOC \<and> rx = NL80211_IFTYPE_ADHOC"

definition may_send :: "ieee80211_sub_if_data \<Rightarrow> sta_ptr option \<Rightarrow> mac \<Rightarrow> world \<Rightarrow> bool" where
  "may_send sd st da w \<longleftrightarrow>
     has_chanctx sd \<and> \<not> use_4addr sd \<and>
     (case st of
        None \<Rightarrow> vif_type sd \<noteq> NL80211_IFTYPE_STATION \<and> is_multicast_ether_addr da
      | Some p \<Rightarrow> (\<exists>s. stas w p = Some s \<and> sta_state s = IEEE80211_STA_AUTHORIZED \<and> \<not> tdls_peer s))"

definition data_hdr :: "ieee80211_sub_if_data \<Rightarrow> bool \<Rightarrow> ethhdr \<Rightarrow> ieee80211_hdr" where
  "data_hdr sd wme eth =
     (let da = h_dest eth; sa = h_source eth; qos = (if wme then 0x80 else 0);
          h = \<lparr>frame_control = FC_DATA OR qos, duration_id = 0, addr1 = da, addr2 = sa, addr3 = ibss_bssid sd, seq_ctrl = 0, addr4 = no_addr\<rparr>
      in if vif_type sd = NL80211_IFTYPE_STATION
         then h\<lparr>frame_control := FC_DATA OR FC_TODS OR qos, addr1 := mgd_bssid sd, addr3 := da\<rparr>
         else if vif_type sd = NL80211_IFTYPE_AP
         then h\<lparr>frame_control := FC_DATA OR FC_FROMDS OR qos, addr2 := vif_addr sd, addr3 := sa\<rparr>
         else h)"

lemma data_hdr_fc:
  fixes wme :: bool and eth :: ethhdr
  assumes "ds_pair (vif_type sd) ty"
  defines "fc \<equiv> frame_control (data_hdr sd wme eth)"
  shows "ieee80211_is_data_qos fc = wme" "ieee80211_is_data_present fc" "\<not> ieee80211_has_a4 fc"
    "ieee80211_hdrlen fc = (if wme then 26 else 24)"
    "ieee80211_get_DA (data_hdr sd wme eth) = h_dest eth" "ieee80211_get_SA (data_hdr sd wme eth) = h_source eth"
  using assms
  by (auto simp: data_hdr_def ds_pair_def Let_def ieee80211_is_data_qos_def ieee80211_is_data_present_def ieee80211_has_a4_def
      ieee80211_hdrlen_def ieee80211_is_data_def ieee80211_has_order_def ieee80211_get_DA_def ieee80211_get_SA_def
      ieee80211_has_tods_def ieee80211_has_fromds_def)

lemma data_hdr_accepted:
  assumes "ds_pair (vif_type sd) ty" and "is_multicast_ether_addr (h_dest eth) \<longrightarrow> h_source eth \<noteq> addr"
  shows "ds_addresses addr ty (data_hdr sd wme eth) 0 skb 0 \<noteq> None"
  using assms
  by (auto simp: data_hdr_def ds_pair_def ds_addresses_def Let_def ieee80211_has_a4_def ieee80211_get_DA_def ieee80211_get_SA_def
      ieee80211_has_tods_def ieee80211_has_fromds_def)

lemma build_hdr_ok:
  assumes sd: "sdatas w sp = Some sd" "ds_pair (vif_type sd) ty" "may_send sd st (h_dest eth) w"
    and skb: "skb_ok skb" "frame_bytes skb = ethhdr_bytes eth @ payload"
    and enc: "encapsulation (h_proto eth) = (enc, 12)" "length enc = 6"
    and E: "expand_ok E" "clone_ok E"
  shows "\<exists>skb' id wme. ieee80211_build_hdr E sp st fl cf skb w = Inr (Inr (skb', id)) \<and> skb_ok skb' \<and>
    frame_bytes skb' = take 24 (hdr_bytes (data_hdr sd wme eth)) @ (if wme then [0, 0] else []) @ enc @ be16_bytes (h_proto eth) @ payload"
proof -
  obtain sta where sta: "(case st of None \<Rightarrow> Inr None | Some p \<Rightarrow> rbind (deref (stas w) p) (\<lambda>s. Inr (Some s))) = Inr sta"
    and s: "case sta of None \<Rightarrow> vif_type sd \<noteq> NL80211_IFTYPE_STATION \<and> is_multicast_ether_addr (h_dest eth)
      | Some s \<Rightarrow> sta_state s = IEEE80211_STA_AUTHORIZED \<and> \<not> tdls_peer s"
    using sd(3) by (cases st) (auto simp: may_send_def)
  define wme where "wme = (case sta of None \<Rightarrow> False | Some s \<Rightarrow> sta_wme s)"
  let ?h = "data_hdr sd wme eth"
  note fc = data_hdr_fc [OF sd(2), of wme eth]
  have eth: "ethhdr_load (skb_data skb) = Inr eth"
    using skb append_take_drop_id [of "skb_len skb" "skb_data skb"] ethhdr_load_append [of eth "payload @ drop (skb_len skb) (skb_data skb)"]
    by (simp add: frame_bytes_def)
  define fc0 where "fc0 = frame_control (data_hdr sd False eth)"
  have addrs: "build_addrs sd sta (h_proto eth) (h_dest eth) (h_source eth) w = Inr (Inr (fc0, addr1 ?h, addr2 ?h, addr3 ?h, no_addr, 24))"
    using sd(2,3) s by (auto simp: fc0_def build_addrs_def Let_def ds_pair_def data_hdr_def may_send_def split: option.splits)
  have h: "\<lparr>frame_control = if wme then fc0 OR 0x80 else fc0, duration_id = 0, addr1 = addr1 ?h, addr2 = addr2 ?h, addr3 = addr3 ?h,
      seq_ctrl = 0, addr4 = no_addr\<rparr> = ?h"
    using sd(2) by (auto simp: fc0_def data_hdr_def ds_pair_def Let_def)
  have pass: "is_multicast_ether_addr (addr1 ?h) \<or> (case sta of None \<Rightarrow> False | Some s \<Rightarrow> sta_state s = IEEE80211_STA_AUTHORIZED)"
    using s sd(2) by (auto simp: data_hdr_def ds_pair_def Let_def split: option.splits)
  have np: "(vif_type sd \<noteq> NL80211_IFTYPE_OCB \<and> \<not> is_multicast_ether_addr (addr1 ?h) \<and>
      \<not> (case sta of None \<Rightarrow> False | Some s \<Rightarrow> sta_state s = IEEE80211_STA_AUTHORIZED) \<and>
      (h_proto eth \<noteq> control_port_protocol sd \<or> vif_addr sd \<noteq> h_source eth)) = False"
    using pass by auto
  define reported where "reported = (\<not> is_multicast_ether_addr (addr1 ?h) \<and> status_wanted E \<and> ack_id E \<noteq> None)"
  obtain skb1 where w: "write_hdr E sd (is_cloned E \<or> is_shared E \<or> reported) (h_proto eth) ?h (if wme then 24 + 2 else 24) skb = Inr (Inr skb1)"
      "skb_ok skb1" "frame_bytes skb1 = take 24 (hdr_bytes ?h) @ (if wme then [0, 0] else []) @ enc @ be16_bytes (h_proto eth) @ payload"
    using write_hdr_ok [OF skb enc E(1), of "if wme then 26 else 24" ?h sd "is_cloned E \<or> is_shared E \<or> reported"] fc(1)
    by (cases wme) auto
  have "\<exists>skb2 id. ieee80211_build_hdr E sp st fl cf skb w = Inr (Inr (skb2, id)) \<and> skb_data skb2 = skb_data skb1 \<and> skb_len skb2 = skb_len skb1"
    unfolding ieee80211_build_hdr_def sta
    by (simp only: sd(1) deref_Some eth addrs rbind_simps Let_def sum.case prod.case wme_def [symmetric] np E(2) reported_def [symmetric] h w(1)
        if_False not_True_eq_False simp_thms) auto
  then show ?thesis using w(2,3) by (auto simp: frame_bytes_def skb_ok_def)
qed

lemma ethhdr_id: "\<lparr>h_dest = h_dest e, h_source = h_source e, h_proto = h_proto e\<rparr> = e"
  by (cases e) simp

text \<open>
  C24: Ethernet round trip. A frame of the network stack with a protocol number, for which the header is built on a station, an access point or an ad-hoc
  interface, is converted by the receiver back to the same Ethernet frame: destination, source,
  protocol and payload survive the change of addressing with the direction, the LLC encapsulation (both of its
  kinds) and the QoS field. An access point's own group-addressed frame, come back to its sender, is the one
  exception.
\<close>

theorem ethernet_round_trip:
  assumes "sdatas w sp = Some sd" "ds_pair (vif_type sd) ty" "may_send sd st (h_dest eth) w"
    and "skb_ok skb" "frame_bytes skb = ethhdr_bytes eth @ payload" "ETH_P_802_3_MIN \<le> h_proto eth"
    and "expand_ok E" "clone_ok E"
    and "is_multicast_ether_addr (h_dest eth) \<longrightarrow> h_source eth \<noteq> addr"
  shows "\<exists>skb' id skb''. ieee80211_build_hdr E sp st fl cf skb w = Inr (Inr (skb', id)) \<and>
    ieee80211_data_to_8023 addr ty skb' = Inr (Some (eth, skb'')) \<and> frame_bytes skb'' = frame_bytes skb"
proof -
  obtain enc where enc: "encapsulation (h_proto eth) = (enc, 12)" "length enc = 6"
      "enc = rfc1042_header \<and> h_proto eth \<noteq> ETH_P_AARP \<and> h_proto eth \<noteq> ETH_P_IPX \<or> enc = bridge_tunnel_header"
    using encapsulation_cases [OF assms(6)] .
  obtain skb' id wme where b: "ieee80211_build_hdr E sp st fl cf skb w = Inr (Inr (skb', id))" "skb_ok skb'"
      "frame_bytes skb' = take 24 (hdr_bytes (data_hdr sd wme eth)) @ (if wme then [0, 0] else []) @ enc @ be16_bytes (h_proto eth) @ payload"
    using build_hdr_ok [OF assms(1-5) enc(1,2) assms(7,8)] by blast
  note fc = data_hdr_fc [OF assms(2), of wme eth]
  have "ty \<noteq> NL80211_IFTYPE_MESH_POINT" using assms(2) by (auto simp: ds_pair_def)
  from data_to_8023_snap [OF b(2,3) _ fc(2,3) enc(2,3) this data_hdr_accepted [OF assms(2,9)]]
  obtain skb'' where "ieee80211_data_to_8023 addr ty skb' = Inr (Some (eth, skb''))" "frame_bytes skb'' = ethhdr_bytes eth @ payload"
    unfolding fc(4-6) ethhdr_id by (cases wme) auto
  then show ?thesis using b(1) assms(5) by auto
qed

definition sample_eth :: ethhdr where
  "sample_eth = \<lparr>h_dest = Mac 2 0 0 0 0 9, h_source = sample_base, h_proto = 0x0800\<rparr>"

definition sample_eth_skb :: sk_buff where
  "sample_eth_skb = sample_skb\<lparr>skb_data := ethhdr_bytes sample_eth @ [1, 2, 3, 4] @ replicate 8 0, skb_len := 18\<rparr>"

definition sample_build :: build_env where
  "sample_build = \<lparr>force_tx_status = False, status_wanted = False, ack_id = None, is_shared = False, clone_ok = True, is_cloned = False,
     clone_writable = False, expand_ok = True, expand_fill = (\<lambda>_. 0), tx_headroom = 16, supports_tdls = False\<rparr>"

lemma sample_eth_facts:
  "skb_ok sample_eth_skb" "frame_bytes sample_eth_skb = ethhdr_bytes sample_eth @ [1, 2, 3, 4]" "expand_ok sample_build" "clone_ok sample_build"
  "\<exists>sd. sdatas sample_sta_world 2 = Some sd \<and> ds_pair (vif_type sd) NL80211_IFTYPE_AP \<and> may_send sd (Some 5) (h_dest sample_eth) sample_sta_world"
  by (simp_all add: sample_eth_skb_def skb_ok_def frame_bytes_def sample_build_def sample_sta_world_def sample_world_def put_sdata_def ds_pair_def
      may_send_def)

theorem ethernet_round_trip_witness:
  "\<exists>skb' id skb''. ieee80211_build_hdr sample_build 2 (Some 5) 0 0 sample_eth_skb sample_sta_world = Inr (Inr (skb', id)) \<and>
    ieee80211_data_to_8023 sample_iface NL80211_IFTYPE_AP skb' = Inr (Some (sample_eth, skb'')) \<and>
    frame_bytes skb'' = ethhdr_bytes sample_eth @ [1, 2, 3, 4]"
proof -
  obtain sd where sd: "sdatas sample_sta_world 2 = Some sd" "ds_pair (vif_type sd) NL80211_IFTYPE_AP"
      "may_send sd (Some 5) (h_dest sample_eth) sample_sta_world"
    using sample_eth_facts(5) by blast
  have "ETH_P_802_3_MIN \<le> h_proto sample_eth" "is_multicast_ether_addr (h_dest sample_eth) \<longrightarrow> h_source sample_eth \<noteq> sample_iface"
    by (simp_all add: sample_eth_def)
  then show ?thesis
    using ethernet_round_trip [OF sd sample_eth_facts(1,2) _ sample_eth_facts(3,4), of sample_iface 0 0] sample_eth_facts(2) by auto
qed

end
