(* ===== verification/Duration.thy ===== *)
theory Duration
  imports Tx
begin

text \<open>
  The duration field of a transmitted frame: \<open>ieee80211_duration\<close> of \<^verbatim>\<open>net/mac80211/tx.c\<close> and \<open>ieee80211_frame_duration\<close> of
  \<^verbatim>\<open>net/mac80211/util.c\<close>, with the choice of the rate that the acknowledgement will be sent at.
\<close>

section \<open>Definitions\<close>

datatype nl80211_band = NL80211_BAND_2GHZ | NL80211_BAND_5GHZ | NL80211_BAND_60GHZ | NL80211_BAND_6GHZ | NUM_NL80211_BANDS

datatype nl80211_chan_width =
    NL80211_CHAN_WIDTH_20_NOHT | NL80211_CHAN_WIDTH_20 | NL80211_CHAN_WIDTH_40 | NL80211_CHAN_WIDTH_80
  | NL80211_CHAN_WIDTH_80P80 | NL80211_CHAN_WIDTH_160 | NL80211_CHAN_WIDTH_5 | NL80211_CHAN_WIDTH_10

abbreviation (input) IEEE80211_RATE_MANDATORY_A :: u32 where "IEEE80211_RATE_MANDATORY_A \<equiv> 0x02"
abbreviation (input) IEEE80211_RATE_MANDATORY_B :: u32 where "IEEE80211_RATE_MANDATORY_B \<equiv> 0x04"
abbreviation (input) IEEE80211_RATE_MANDATORY_G :: u32 where "IEEE80211_RATE_MANDATORY_G \<equiv> 0x08"
abbreviation (input) IEEE80211_RATE_ERP_G :: u32 where "IEEE80211_RATE_ERP_G \<equiv> 0x10"
abbreviation (input) IEEE80211_RATE_SUPPORTS_5MHZ :: u32 where "IEEE80211_RATE_SUPPORTS_5MHZ \<equiv> 0x20"
abbreviation (input) IEEE80211_RATE_SUPPORTS_10MHZ :: u32 where "IEEE80211_RATE_SUPPORTS_10MHZ \<equiv> 0x40"
abbreviation (input) IEEE80211_TX_RC_MCS :: u16 where "IEEE80211_TX_RC_MCS \<equiv> 0x008"
abbreviation (input) IEEE80211_TX_RC_VHT_MCS :: u16 where "IEEE80211_TX_RC_VHT_MCS \<equiv> 0x100"
abbreviation (input) IEEE80211_QOS_CTL_ACK_POLICY_NOACK :: u8 where "IEEE80211_QOS_CTL_ACK_POLICY_NOACK \<equiv> 0x20"

record ieee80211_rate =
  rate_flags :: u32
  bitrate :: u16

text \<open>
  What the computation reads: the rate the rate control chose (\<open>tx->rate\<close>), the width of the channel context if there is one,
  the band with its rates (in units of 100 kbit/s), the basic rates and the preamble of the BSS, and whether the interface operates
  in G mode.
\<close>

record rate_env =
  tx_rate_idx :: int
  tx_rate_flags :: u16
  chan_width :: "nl80211_chan_width option"
  sband_band :: nl80211_band
  bitrates :: "ieee80211_rate list"
  basic_rates :: u32
  use_short_preamble :: bool
  operating_gmode :: bool

definition ieee80211_chandef_get_shift :: "nl80211_chan_width \<Rightarrow> nat" where
  "ieee80211_chandef_get_shift width =
     (case width of NL80211_CHAN_WIDTH_5 \<Rightarrow> 2 | NL80211_CHAN_WIDTH_10 \<Rightarrow> 1 | _ \<Rightarrow> 0)"

definition ieee80211_chandef_rate_flags :: "nl80211_chan_width \<Rightarrow> u32" where
  "ieee80211_chandef_rate_flags width =
     (case width of NL80211_CHAN_WIDTH_5 \<Rightarrow> IEEE80211_RATE_SUPPORTS_5MHZ
      | NL80211_CHAN_WIDTH_10 \<Rightarrow> IEEE80211_RATE_SUPPORTS_10MHZ | _ \<Rightarrow> 0)"

definition DIV_ROUND_UP :: "nat \<Rightarrow> nat \<Rightarrow> nat" where
  "DIV_ROUND_UP n d = (n + d - 1) div d"

text \<open>The time on air of a frame of \<open>len\<close> bytes with the gap before it, in microseconds. A rate of zero divides by zero.\<close>

definition ieee80211_frame_duration :: "nl80211_band \<Rightarrow> nat \<Rightarrow> nat \<Rightarrow> bool \<Rightarrow> bool \<Rightarrow> nat \<Rightarrow> nat result" where
  "ieee80211_frame_duration band len rate erp short_preamble shift =
     (if rate = 0 then Inl DivideByZero
      else if band = NL80211_BAND_5GHZ \<or> erp
      then Inr ((16 + 16 + 4) * 2 ^ shift + 4 * DIV_ROUND_UP ((16 + 8 * (len + 4) + 6) * 10) (4 * rate))
      else Inr (10 + (if short_preamble then 72 + 24 else 144 + 48) + DIV_ROUND_UP (8 * (len + 4) * 10) rate))"

text \<open>
  The loop over the rates up to that of the frame: the last basic rate met (\<open>None\<close> for the initial -1) and the last mandatory one.
\<close>

definition mandatory_rate :: "rate_env \<Rightarrow> ieee80211_rate \<Rightarrow> bool" where
  "mandatory_rate R r =
     (case sband_band R of
        NL80211_BAND_2GHZ \<Rightarrow>
          rate_flags r AND (if operating_gmode R then IEEE80211_RATE_MANDATORY_G else IEEE80211_RATE_MANDATORY_B) \<noteq> 0
      | NL80211_BAND_5GHZ \<Rightarrow> rate_flags r AND IEEE80211_RATE_MANDATORY_A \<noteq> 0
      | NL80211_BAND_6GHZ \<Rightarrow> rate_flags r AND IEEE80211_RATE_MANDATORY_A \<noteq> 0
      | NL80211_BAND_60GHZ \<Rightarrow> False
      | NUM_NL80211_BANDS \<Rightarrow> False)"

fun ack_rate_loop ::
  "rate_env \<Rightarrow> u32 \<Rightarrow> nat \<Rightarrow> u16 \<Rightarrow> ieee80211_rate list \<Rightarrow> nat \<Rightarrow> nat option \<Rightarrow> u16 \<Rightarrow> nat option \<times> u16" where
  "ack_rate_loop R flags shift txbitrate [] i rate mrate = (rate, mrate)"
| "ack_rate_loop R flags shift txbitrate (r # rs) i rate mrate =
     (if bitrate r > txbitrate then (rate, mrate)
      else if flags AND rate_flags r \<noteq> flags then ack_rate_loop R flags shift txbitrate rs (Suc i) rate mrate
      else
        let rate = (if bit (basic_rates R) i then Some (DIV_ROUND_UP (unat (bitrate r)) (2 ^ shift)) else rate);
            mrate = (if mandatory_rate R r then bitrate r else mrate)
        in ack_rate_loop R flags shift txbitrate rs (Suc i) rate mrate)"

definition ieee80211_duration :: "rate_env \<Rightarrow> sk_buff \<Rightarrow> bool \<Rightarrow> nat \<Rightarrow> u16 result" where
  "ieee80211_duration R skb group_addr next_frag_len =
     (if tx_rate_flags R AND (IEEE80211_TX_RC_MCS OR IEEE80211_TX_RC_VHT_MCS) \<noteq> 0 then Inr 0
      else
        let shift = (case chan_width R of None \<Rightarrow> 0 | Some width \<Rightarrow> ieee80211_chandef_get_shift width);
            flags = (case chan_width R of None \<Rightarrow> 0 | Some width \<Rightarrow> ieee80211_chandef_rate_flags width)
        in if tx_rate_idx R < 0 then Inr 0
           else
             rbind (arr_get (bitrates R) (nat (tx_rate_idx R))) (\<lambda>txrate.
             let erp = rate_flags txrate AND IEEE80211_RATE_ERP_G \<noteq> 0 in
             rbind (hdr_fc (skb_data skb)) (\<lambda>fc.
             if ieee80211_is_ctl fc then Inr 0
             else if group_addr then Inr 0
             else
               rbind (arr_get (bitrates R) 0) (\<lambda>r0.
               let (rate, mrate) = ack_rate_loop R flags shift (bitrate txrate) (bitrates R) 0 None (bitrate r0);
                   rate = (case rate of None \<Rightarrow> DIV_ROUND_UP (unat mrate) (2 ^ shift) | Some rate \<Rightarrow> rate)
               in
               rbind (if ieee80211_is_data_qos fc
                      then rbind (arr_get (skb_data skb) (ieee80211_get_qos_ctl fc))
                             (\<lambda>q. Inr (q AND IEEE80211_QOS_CTL_ACK_POLICY_NOACK \<noteq> 0))
                      else Inr False) (\<lambda>noack.
               rbind (if noack then Inr 0
                      else ieee80211_frame_duration (sband_band R) 10 rate erp (use_short_preamble R) shift) (\<lambda>dur.
               rbind (if next_frag_len \<noteq> 0
                      then rbind (ieee80211_frame_duration (sband_band R) next_frag_len (unat (bitrate txrate)) erp
                             (use_short_preamble R) shift) (\<lambda>next. Inr (dur * 2 + next))
                      else Inr dur) (\<lambda>dur.
               Inr (of_nat dur))))))))"

fun calc_durations :: "rate_env \<Rightarrow> sk_buff list \<Rightarrow> sk_buff list result" where
  "calc_durations R [] = Inr []"
| "calc_durations R (skb # rest) =
     rbind (hdr_fc (skb_data skb)) (\<lambda>fc.
     if ieee80211_is_pspoll fc then Inr (skb # rest)
     else
       rbind (hdr_addr1 (skb_data skb)) (\<lambda>a1.
       let next_len = (case rest of [] \<Rightarrow> 0 | next # _ \<Rightarrow> skb_len next) in
       rbind (ieee80211_duration R skb (is_multicast_ether_addr a1) next_len) (\<lambda>dur.
       rbind (buf_write (skb_data skb) 2 (le16_bytes dur)) (\<lambda>bs.
       rbind (calc_durations R rest) (\<lambda>rest. Inr (skb\<lparr>skb_data := bs\<rparr> # rest))))))"

definition ieee80211_tx_h_calculate_duration :: "rate_env \<Rightarrow> ieee80211_tx_data \<Rightarrow> (ieee80211_tx_result \<times> ieee80211_tx_data) result" where
  "ieee80211_tx_h_calculate_duration R tx =
     rbind (calc_durations R (tx_skbs tx)) (\<lambda>skbs. Inr (TX_CONTINUE, tx\<lparr>tx_skbs := skbs\<rparr>))"

section \<open>Facts\<close>

text \<open>Rates as a driver registers them: none is zero, and the chosen one is among them.\<close>

definition rates_ok :: "rate_env \<Rightarrow> bool" where
  "rates_ok R \<longleftrightarrow> (\<forall>r\<in>set (bitrates R). bitrate r \<noteq> 0) \<and> nat (tx_rate_idx R) < length (bitrates R)"

lemma DIV_ROUND_UP_pos: "0 < n \<Longrightarrow> 0 < d \<Longrightarrow> 0 < DIV_ROUND_UP n d"
  by (simp add: DIV_ROUND_UP_def div_greater_zero_iff)

lemma ack_rate_loop_pos:
  assumes "\<forall>r\<in>set rs. bitrate r \<noteq> 0" "rate \<noteq> Some 0" "mrate \<noteq> 0"
    and "ack_rate_loop R flags shift tb rs i rate mrate = (rate', mrate')"
  shows "rate' \<noteq> Some 0 \<and> mrate' \<noteq> 0"
  using assms
proof (induction rs arbitrary: i rate mrate)
  case (Cons r rs)
  have "DIV_ROUND_UP (unat (bitrate r)) (2 ^ shift) \<noteq> 0"
    using Cons.prems(1) DIV_ROUND_UP_pos [of "unat (bitrate r)" "2 ^ shift"] by (simp add: unat_gt_0)
  then have new: "(if bit (basic_rates R) i then Some (DIV_ROUND_UP (unat (bitrate r)) (2 ^ shift)) else rate) \<noteq> Some 0"
    "(if mandatory_rate R r then bitrate r else mrate) \<noteq> 0"
    using Cons.prems(1-3) by simp_all
  show ?case
    using Cons.prems(4) Cons.prems(1-3) Cons.IH [OF _ new] Cons.IH [OF _ Cons.prems(2,3)]
    unfolding ack_rate_loop.simps Let_def by (metis list.set_intros(2) prod.inject)
qed simp

lemma ieee80211_duration_ok:
  assumes "rates_ok R" "hdr_fc (skb_data skb) = Inr fc" "\<not> ieee80211_is_data_qos fc"
  shows "\<exists>d. ieee80211_duration R skb g n = Inr d"
proof (cases "tx_rate_idx R < 0")
  case False
  let ?tx = "bitrates R ! nat (tx_rate_idx R)"
  have i: "nat (tx_rate_idx R) < length (bitrates R)" "bitrates R \<noteq> []" using assms(1) by (auto simp: rates_ok_def)
  have nz: "bitrate ?tx \<noteq> 0" "bitrate (bitrates R ! 0) \<noteq> 0" "\<forall>r\<in>set (bitrates R). bitrate r \<noteq> 0"
    using assms(1) i by (auto simp: rates_ok_def)
  have fd: "\<exists>d. ieee80211_frame_duration b l r e p sh = Inr d" if "r \<noteq> 0" for b l r e p sh
    using that by (simp add: ieee80211_frame_duration_def)
  define sh where "sh = (case chan_width R of None \<Rightarrow> 0 | Some width \<Rightarrow> ieee80211_chandef_get_shift width)"
  obtain rate mrate where l: "ack_rate_loop R (case chan_width R of None \<Rightarrow> 0 | Some width \<Rightarrow> ieee80211_chandef_rate_flags width)
      sh (bitrate ?tx) (bitrates R) 0 None (bitrate (bitrates R ! 0)) = (rate, mrate)"
    by (cases rule: prod.exhaust) blast
  define r where "r = (case rate of None \<Rightarrow> DIV_ROUND_UP (unat mrate) (2 ^ sh) | Some rate \<Rightarrow> rate)"
  have "r \<noteq> 0" using ack_rate_loop_pos [OF nz(3) _ nz(2) l] DIV_ROUND_UP_pos [of "unat mrate" "2 ^ sh"]
    by (auto simp: r_def unat_gt_0 split: option.split)
  then obtain d1 where d1: "ieee80211_frame_duration (sband_band R) 10 r (rate_flags ?tx AND 0x10 \<noteq> 0) (use_short_preamble R) sh = Inr d1"
    using fd by blast
  have "unat (bitrate ?tx) \<noteq> 0" using nz(1) by (simp add: unat_eq_0)
  then obtain d2 where d2: "ieee80211_frame_duration (sband_band R) n (unat (bitrate ?tx)) (rate_flags ?tx AND 0x10 \<noteq> 0) (use_short_preamble R) sh = Inr d2"
    using fd by blast
  show ?thesis
    using False i assms(2,3) l d1 d2 unfolding ieee80211_duration_def sh_def [symmetric]
    by (simp add: Let_def r_def [symmetric])
qed (simp add: ieee80211_duration_def Let_def)

end
