(* ===== verification/Tx_Handlers.thy ===== *)
theory Tx_Handlers
  imports Build_Hdr Duration
begin

text \<open>
  The later half of the transmit handlers (\<open>invoke_tx_handlers_late\<close> of \<^verbatim>\<open>net/mac80211/tx.c\<close>), where the project hooks in the change of addresses: before the
  sequence number is assigned and before the frame is encrypted.
\<close>

section \<open>Definitions\<close>

text \<open>
  What the handlers take from the device and its configuration: the hash, the inputs of the generator and the clock, fragmentation,
  the ciphers, and the rates.
\<close>

record tx_env =
  tx_sha1 :: "u8 list \<Rightarrow> u8 list"
  tx_gen :: gen_env
  tx_now :: int
  supports_tx_frag :: bool
  frag_threshold :: u32
  frag_allocs :: "(u8 list \<times> u8 list) list"
  tx_crypto :: crypto_lib
  has_rate_control :: bool
  tx_rates :: rate_env

text \<open>\<open>CALL_TXH\<close>: the handlers in order, until one of them does not return \<open>TX_CONTINUE\<close>.\<close>

type_synonym tx_handler = "ieee80211_tx_data \<Rightarrow> world \<Rightarrow> (ieee80211_tx_result \<times> ieee80211_tx_data \<times> world) result"

fun call_txh :: "tx_handler list \<Rightarrow> tx_handler" where
  "call_txh [] tx w = Inr (TX_CONTINUE, tx, w)"
| "call_txh (h # hs) tx w =
     rbind (h tx w) (\<lambda>(res, tx, w). if res \<noteq> TX_CONTINUE then Inr (res, tx, w) else call_txh hs tx w)"

definition late_handlers :: "tx_env \<Rightarrow> tx_handler list" where
  "late_handlers T =
     [\<lambda>tx w. rbind (ieee80211_tx_h_michael_mic_add (supports_tx_frag T) tx w) (\<lambda>(res, tx). Inr (res, tx, w)),
      ieee80211_tx_h_sequence,
      \<lambda>tx w. rbind (ieee80211_tx_h_fragment (supports_tx_frag T) (frag_threshold T) (frag_allocs T) tx) (\<lambda>(res, tx). Inr (res, tx, w)),
      \<lambda>tx w. rbind (ieee80211_tx_h_stats tx w) (\<lambda>(res, w). Inr (res, tx, w)),
      ieee80211_tx_h_encrypt (tx_crypto T)] @
     (if has_rate_control T then []
      else [\<lambda>tx w. rbind (ieee80211_tx_h_calculate_duration (tx_rates T) tx) (\<lambda>(res, tx). Inr (res, tx, w))])"

abbreviation (input) IEEE80211_TX_INTFL_RETRANSMISSION :: u32 where "IEEE80211_TX_INTFL_RETRANSMISSION \<equiv> 0x80000"

text \<open>The return value -1 of a frame dropped, whose buffers are freed, or queued.\<close>

definition invoke_tx_handlers_late :: "tx_env \<Rightarrow> ieee80211_tx_data \<Rightarrow> world \<Rightarrow> (int \<times> ieee80211_tx_data \<times> world) result" where
  "invoke_tx_handlers_late T tx w =
     rbind (tx_skb_of tx) (\<lambda>skb.
     if info_flags skb AND IEEE80211_TX_INTFL_RETRANSMISSION \<noteq> 0
     then Inr (0, tx\<lparr>tx_skbs := tx_skbs tx @ [skb], tx_skb := None\<rparr>, w)
     else
       rbind (if RND_MAC w then handle_random_mac (tx_sha1 T) (tx_gen T) (tx_now T) tx w else Inr w) (\<lambda>w.
       rbind (call_txh (late_handlers T) tx w) (\<lambda>(res, tx, w).
       if res = TX_DROP
       then Inr (- 1, if tx_skb tx \<noteq> None then tx\<lparr>tx_skb := None\<rparr> else tx\<lparr>tx_skbs := []\<rparr>, w)
       else if res = TX_QUEUED then Inr (- 1, tx, w)
       else Inr (0, tx, w))))"

section \<open>Facts\<close>

lemma generate_mac_add_sta_pn:
  assumes "generate_mac_add_sta sha1 env p tp w = Inr w'" "env_ok env" "ccmp_reset w"
    and "stas w p = Some s" "sta_ptk s = Inr (Some kp)" "keys w kp = Some x"
  shows "keys w' kp = Some (x\<lparr>conf_tx_pn := epoch_pn (pn_clock env p)\<rparr>)"
  using assms
  by (auto simp: generate_mac_add_sta_def env_ok_def gen_pn_of_eq set_tx_pn_def put_sdata_def Let_def elim!: rbind_InrE)

lemma new_period_pn:
  assumes "handle_random_mac_sta sha1 env tp p s w = Inr w'" "env_ok env" "ccmp_reset w"
    and "stas w p = Some s" "sdatas w (sta_sdata s) = Some sd" "sta_ptk s = Inr (Some kp)" "keys w kp = Some x"
    and "s_random_of_base (s_translation_table w) (vif_addr sd) \<noteq> None" "start_time_period s \<noteq> tp"
  shows "keys w' kp = Some (x\<lparr>conf_tx_pn := epoch_pn (pn_clock env p)\<rparr>)"
proof -
  have "s_search_by_base_mac (s_translation_table w) (vif_addr sd) \<noteq> None"
    using assms(8) by (simp add: s_search_by_base_mac_None_iff)
  then obtain w1 where w1: "generate_mac_add_sta sha1 env p tp w = Inr w1" "keys w' = keys w1"
    using assms(1,4,5,9) by (auto simp: handle_random_mac_sta_def put_sta_def Let_def split: option.splits elim!: rbind_InrE)
  show ?thesis using generate_mac_add_sta_pn [OF w1(1) assms(2,3,4,6,7)] w1(2) by simp
qed

lemma protected_fc:
  fixes fc :: u16
  shows "ieee80211_is_data (fc OR IEEE80211_FCTL_PROTECTED) = ieee80211_is_data fc"
    "ieee80211_is_data_qos (fc OR IEEE80211_FCTL_PROTECTED) = ieee80211_is_data_qos fc"
    "ieee80211_hdrlen (fc OR IEEE80211_FCTL_PROTECTED) = ieee80211_hdrlen fc"
  by (simp_all add: ieee80211_hdrlen_def ieee80211_is_data_def ieee80211_is_mgmt_def ieee80211_is_ctl_def ieee80211_has_a4_def
      ieee80211_is_data_qos_def ieee80211_has_order_def bit.conj_disj_distrib2)

lemma data_not_pspoll: "ieee80211_is_data fc \<Longrightarrow> \<not> ieee80211_is_pspoll fc"
proof
  assume "ieee80211_is_data fc" "ieee80211_is_pspoll fc"
  then have "fc AND 0x0c = 8" "(fc AND 0xfc) AND 0x0c = 0xa4 AND (0x0c :: u16)"
    by (simp_all add: ieee80211_is_data_def ieee80211_is_pspoll_def fc_type_stype_def)
  then show False by (simp add: and.assoc)
qed

lemma qos_nullfunc_is_qos: "ieee80211_is_qos_nullfunc fc \<Longrightarrow> ieee80211_is_data_qos fc"
proof -
  assume "ieee80211_is_qos_nullfunc fc"
  then have "(fc AND 0xfc) AND 0x8c = 0xc8 AND (0x8c :: u16)" by (simp add: ieee80211_is_qos_nullfunc_def fc_type_stype_def)
  then show ?thesis by (simp add: and.assoc ieee80211_is_data_qos_def)
qed

text \<open>Software encryption of a data frame with room for the CCMP header and the tag always succeeds.\<close>

lemma ccmp_encrypt_succeeds:
  assumes C: "aead_correct C m"
    and s: "hdr_fc (skb_data s) = Inr fc" "ieee80211_is_data fc" "ieee80211_hdrlen fc \<le> 32"
      "ieee80211_hdrlen fc < skb_len s" "skb_len s + m \<le> length (skb_data s)" "8 \<le> skb_headroom s" "info_hw_key s = None"
    and k: "keys w kp = Some key"
  shows "\<exists>s' w'. ccmp_encrypt_skb C m kp s w = Inr (0, s', w')"
proof -
  let ?hl = "ieee80211_hdrlen fc" and ?d = "skb_data s"
  have d: "?d = take ?hl ?d @ take (skb_len s - ?hl) (drop ?hl ?d) @ drop (skb_len s) ?d"
    by (metis append_take_drop_id drop_drop le_add_diff_inverse2 less_imp_le_nat s(4))
  have hl: "length (take ?hl ?d) = ?hl" "24 \<le> ?hl" using s(2,4,5) by (auto simp: ieee80211_hdrlen_def Let_def)
  have t: "m \<le> length (drop (skb_len s) ?d)" using s(5) by simp
  show ?thesis unfolding ccmp_encrypt_skb_def
    using ccmp.encrypt_ok [OF C s(1) [THEN subst [OF d, of "\<lambda>b. hdr_fc b = Inr fc"]] hl(1) _ _ d _ t s(6,7) k] hl s by auto
qed

lemma set_protected_one:
  assumes "hdr_fc (skb_data s) = Inr fc" "24 \<le> length (skb_data s)"
  obtains bs where "set_protected [s] = Inr [s\<lparr>skb_data := bs\<rparr>]" "hdr_fc bs = Inr (fc OR IEEE80211_FCTL_PROTECTED)"
    "length bs = length (skb_data s)" "drop 2 bs = drop 2 (skb_data s)"
proof -
  have "hdr_fc (le16_bytes x @ drop 2 (skb_data s)) = Inr x" for x
    using be16_of_bytes [of x] by (simp add: hdr_fc_def le16_bytes_def)
  then show thesis
    using assms by (intro that [of "le16_bytes (fc OR IEEE80211_FCTL_PROTECTED) @ drop 2 (skb_data s)"]) (simp_all add: set_hdr_fc_eq)
qed

lemma seq_ctrl_of_drop: "drop n bs = drop n cs \<Longrightarrow> n \<le> 22 \<Longrightarrow> length bs = length cs \<Longrightarrow> hdr_seq_ctrl bs = hdr_seq_ctrl cs"
proof -
  assume d: "drop n bs = drop n cs" "n \<le> 22" "length bs = length cs"
  have "bs ! i = cs ! i" if "22 \<le> i" "i < length cs" for i
    using arg_cong [OF d(1), of "\<lambda>xs. xs ! (i - n)"] d(2,3) that by simp
  then show ?thesis using d(3) by (simp add: hdr_seq_ctrl_def arr_get_def)
qed

text \<open>The cipher handler on a single CCMP data frame.\<close>

lemma tx_h_encrypt_ccmp:
  assumes C: "aead_correct (lib_ccm L) IEEE80211_CCMP_MIC_LEN"
    and s: "hdr_fc (skb_data s) = Inr fc" "ieee80211_is_data fc" "ieee80211_hdrlen fc \<le> 32" "hdr_seq_ctrl (skb_data s) = Inr sc"
      "ieee80211_hdrlen fc < skb_len s" "skb_len s + 8 \<le> length (skb_data s)" "8 \<le> skb_headroom s" "info_hw_key s = None"
    and k: "keys w kp = Some x" "conf_cipher x = SUITE 4" and tx: "tx_key tx = Some kp" "tx_skbs tx = [s]"
  shows "\<exists>s'. ieee80211_tx_h_encrypt L tx w =
      Inr (TX_CONTINUE, tx\<lparr>tx_skbs := [s']\<rparr>, put_key kp (x\<lparr>conf_tx_pn := conf_tx_pn x + 1\<rparr>) w) \<and>
    hdr_fc (skb_data s') = Inr (fc OR IEEE80211_FCTL_PROTECTED) \<and> hdr_seq_ctrl (skb_data s') = Inr sc \<and> 24 \<le> length (skb_data s') \<and>
    take 8 (drop (ieee80211_hdrlen fc) (skb_data s')) = ccmp_pn2hdr (pn_be_bytes (conf_tx_pn x + 1)) (conf_keyidx x)"
proof -
  have hl: "24 \<le> ieee80211_hdrlen fc" using s(2) by (auto simp: ieee80211_hdrlen_def Let_def)
  then have n: "24 \<le> length (skb_data s)" using s(5,6) by linarith
  obtain bs where bs: "set_protected [s] = Inr [s\<lparr>skb_data := bs\<rparr>]" "hdr_fc bs = Inr (fc OR IEEE80211_FCTL_PROTECTED)"
      "length bs = length (skb_data s)" "drop 2 bs = drop 2 (skb_data s)"
    using set_protected_one [OF s(1) n] .
  let ?s = "s\<lparr>skb_data := bs\<rparr>"
  have f: "hdr_fc (skb_data ?s) = Inr (fc OR IEEE80211_FCTL_PROTECTED)" "ieee80211_is_data (fc OR IEEE80211_FCTL_PROTECTED)"
      "ieee80211_hdrlen (fc OR IEEE80211_FCTL_PROTECTED) \<le> 32" "ieee80211_hdrlen (fc OR IEEE80211_FCTL_PROTECTED) < skb_len ?s"
      "skb_len ?s + 8 \<le> length (skb_data ?s)" "8 \<le> skb_headroom ?s" "info_hw_key ?s = None"
    using s bs protected_fc by (simp_all add: skb_headroom_def)
  obtain s' w' where e: "ccmp_encrypt_skb (lib_ccm L) 8 kp ?s w = Inr (0, s', w')"
    using ccmp_encrypt_succeeds [OF C f k(1)] by blast
  note sh = ccmp_encrypt_shape [OF C e f k(1), unfolded protected_fc]
  have len: "ieee80211_hdrlen fc \<le> length (skb_data s')" "ieee80211_hdrlen fc \<le> length (skb_data ?s)"
    using sh(3,4) s(5,6) bs(3) by simp_all
  have "hdr_seq_ctrl bs = Inr sc" using seq_ctrl_of_drop [OF bs(4) _ bs(3)] s(4) by simp
  then have "hdr_fc (skb_data s') = Inr (fc OR IEEE80211_FCTL_PROTECTED)" "hdr_seq_ctrl (skb_data s') = Inr sc"
    using hdr_fields_of_take [OF sh(2) hl len] f(1) by simp_all
  then show ?thesis
    using e sh(1,5) bs(1) k tx len(1) hl
    by (intro exI [of _ s']) (simp add: ieee80211_tx_h_encrypt_def ieee80211_crypto_ccmp_encrypt_def crypto_encrypt_def)
qed

text \<open>The duration field is the only thing the last handler changes.\<close>

lemma calc_duration_one:
  assumes "hdr_fc (skb_data s) = Inr fc" "ieee80211_is_data fc" "\<not> ieee80211_is_data_qos fc" "24 \<le> length (skb_data s)" "rates_ok R"
  obtains bs where "calc_durations R [s] = Inr [s\<lparr>skb_data := bs\<rparr>]" "drop 4 bs = drop 4 (skb_data s)" "length bs = length (skb_data s)"
proof -
  obtain a1 where a1: "hdr_addr1 (skb_data s) = Inr a1"
    using mac_of_bytes_ok [of "drop 4 (skb_data s)"] assms(4) by (fastforce simp: hdr_addr1_def)
  obtain d where d: "ieee80211_duration R s (is_multicast_ether_addr a1) 0 = Inr d"
    using ieee80211_duration_ok [OF assms(5,1,3)] by blast
  show thesis
    using assms(1,4) data_not_pspoll [OF assms(2)] a1 d
    by (intro that [of "take 2 (skb_data s) @ le16_bytes d @ drop 4 (skb_data s)"]) (simp_all add: buf_write_ok)
qed

text \<open>The interface's counter at zero gives the frame sequence number zero.\<close>

lemma tx_h_sequence_zero:
  assumes tx: "tx_sta tx = Some p" "tx_sdata tx = Some sp" "tx_skb tx = Some skb" "info_vif skb = Some sp"
      "tx_flags tx AND IEEE80211_TX_NO_SEQNO = 0"
    and w: "stas w p = Some s" "sdatas w sp = Some sd" "sequence_number sd = 0" "vif_type sd = NL80211_IFTYPE_STATION"
    and fc: "hdr_fc (skb_data skb) = Inr fc" "ieee80211_is_data fc" "\<not> ieee80211_is_data_qos fc" "24 \<le> length (skb_data skb)"
    and len: "length (tx_msdu s) = IEEE80211_NUM_TIDS + 1"
  shows "\<exists>bs w' s'. ieee80211_tx_h_sequence tx w =
      Inr (TX_CONTINUE, tx\<lparr>tx_skb := Some (skb\<lparr>info_flags := info_flags skb OR IEEE80211_TX_CTL_ASSIGN_SEQ, skb_data := bs\<rparr>)\<rparr>, w') \<and>
    hdr_fc bs = Inr fc \<and> hdr_seq_ctrl bs = Inr 0 \<and> length bs = length (skb_data skb) \<and>
    keys w' = keys w \<and> s_translation_table w' = s_translation_table w \<and>
    stas w' p = Some s' \<and> tx_bytes s' = tx_bytes s \<and> tx_packets s' = tx_packets s"
proof -
  obtain bs where bs: "set_hdr_seq_ctrl 0 (skb_data skb) = Inr bs" "hdr_seq_ctrl bs = Inr 0" "length bs = length (skb_data skb)"
    using hdr_seq_ctrl_set [OF fc(4)] by blast
  have "hdr_fc bs = Inr fc" using bs(1,3) fc(1,4) by (auto simp: set_hdr_seq_ctrl_def buf_write_def hdr_fc_def arr_get_def nth_append)
  moreover have "\<not> ieee80211_is_ctl fc" "\<not> ieee80211_hdrlen fc < 24" "\<not> ieee80211_is_qos_nullfunc fc"
    using fc(2,3) qos_nullfunc_is_qos [of fc] by (auto simp: ieee80211_is_ctl_def ieee80211_is_data_def ieee80211_hdrlen_def Let_def)
  ultimately show ?thesis
    using tx w fc bs len
    by (intro exI [of _ bs])
      (simp add: ieee80211_tx_h_sequence_def tx_skb_of_def tx_global_seq_def count_msdu_def Let_def put_sdata_def put_sta_def)
qed

lemma flag_or_ne: "x AND m \<noteq> 0 \<Longrightarrow> (x OR y) AND m \<noteq> (0 :: u32)"
  by (metis bit.conj_disj_distrib2 or_eq_0_iff)

lemma tx_h_stats_one:
  assumes "tx_sta tx = Some p" "tx_skbs tx = [s]" "stas w p = Some st"
    "skb_queue_mapping s < length (tx_bytes st)" "skb_queue_mapping s < length (tx_packets st)"
  shows "\<exists>w'. ieee80211_tx_h_stats tx w = Inr (TX_CONTINUE, w') \<and> keys w' = keys w \<and> s_translation_table w' = s_translation_table w"
  using assms by (simp add: ieee80211_tx_h_stats_def Let_def put_sta_def)

lemma handle_random_mac_station:
  assumes "world_ok w" and "ccmp_reset w" and "env_ok env" and "sha1_digest_size sha1"
    and k: "keyed_sta w p a k" and s: "stas w p = Some s" and sd: "sdatas w (sta_sdata s) = Some sd"
    and au: "sta_state s = IEEE80211_STA_AUTHORIZED" and ty: "vif_type sd = NL80211_IFTYPE_STATION"
    and known: "s_random_of_base (s_translation_table w) (vif_addr sd) \<noteq> None"
    and tp: "start_time_period s \<noteq> current_period now"
    and tx: "tx_sta tx = Some p" "tx_local tx" "tx_sdata tx = Some (sta_sdata s)"
    and kp: "sta_ptk s = Inr (Some kp)" "keys w kp = Some x"
  shows "\<exists>w'. handle_random_mac sha1 env now tx w = Inr w' \<and>
    s_random_of_base (s_translation_table w') (vif_addr sd) = Some (gen_mac sha1 k (vif_addr sd) (current_period now)) \<and>
    stas w' p = Some (s\<lparr>start_time_period := current_period now\<rparr>) \<and>
    sdatas w' (sta_sdata s) = Some (sd\<lparr>sequence_number := 0\<rparr>) \<and>
    keys w' kp = Some (x\<lparr>conf_tx_pn := epoch_pn (pn_clock env p)\<rparr>)"
proof -
  obtain w' where w': "handle_random_mac_sta sha1 env (current_period now) p s w = Inr w'"
      "s_random_of_base (s_translation_table w') =
         (s_random_of_base (s_translation_table w))(vif_addr sd \<mapsto> gen_mac sha1 k (vif_addr sd) (current_period now))"
      "stas w' p = Some (s\<lparr>start_time_period := current_period now\<rparr>)"
      "sdatas w' (sta_sdata s) = Some (sd\<lparr>sequence_number := 0\<rparr>)"
    using handle_random_mac_sta_new_period [OF assms(1-7) known tp] by blast
  moreover have "handle_random_mac sha1 env now tx w = Inr w'"
    using w'(1) au ty tx s sd by (simp add: handle_random_mac_def Let_def)
  moreover note new_period_pn [OF w'(1) assms(3,2) s sd kp known tp]
  ultimately show ?thesis by simp
qed

section \<open>Properties\<close>

text \<open>
  A data frame that takes its number from the interface's counter and is encrypted in software: the buffer has room for the cipher, goes out whole, and the
  station's counters have a slot for its queue.
\<close>

definition plain_ccmp_frame :: "tx_env \<Rightarrow> ieee80211_tx_data \<Rightarrow> sk_buff \<Rightarrow> sta_info \<Rightarrow> u16 \<Rightarrow> bool" where
  "plain_ccmp_frame T tx skb s fc \<longleftrightarrow>
     tx_skb tx = Some skb \<and> tx_skbs tx = [] \<and> hdr_fc (skb_data skb) = Inr fc \<and> ieee80211_is_data fc \<and> \<not> ieee80211_is_data_qos fc \<and>
     ieee80211_hdrlen fc < skb_len skb \<and> skb_len skb + IEEE80211_CCMP_MIC_LEN \<le> length (skb_data skb) \<and> 8 \<le> skb_headroom skb \<and>
     info_hw_key skb = None \<and> info_flags skb AND IEEE80211_TX_INTFL_RETRANSMISSION = 0 \<and>
     (info_flags skb AND IEEE80211_TX_CTL_DONTFRAG \<noteq> 0 \<or> supports_tx_frag T) \<and>
     info_vif skb = Some (sta_sdata s) \<and> tx_flags tx AND IEEE80211_TX_NO_SEQNO = 0 \<and>
     skb_queue_mapping skb < length (tx_bytes s) \<and> skb_queue_mapping skb < length (tx_packets s) \<and>
     length (tx_msdu s) = IEEE80211_NUM_TIDS + 1"

text \<open>The handlers that follow the change of addresses, on such a frame.\<close>

lemma late_handlers_ccmp:
  assumes C: "aead_correct (lib_ccm (tx_crypto T)) IEEE80211_CCMP_MIC_LEN" and rates: "rates_ok (tx_rates T)"
    and f: "plain_ccmp_frame T tx skb s fc"
    and tx: "tx_sta tx = Some p" "tx_sdata tx = Some (sta_sdata s)" "tx_key tx = Some kp"
    and w: "stas w p = Some (s\<lparr>start_time_period := tp\<rparr>)" "sdatas w (sta_sdata s) = Some sd" "sequence_number sd = 0"
      "vif_type sd = NL80211_IFTYPE_STATION"
    and k: "keys w kp = Some x" "conf_cipher x = SUITE 4"
  shows "\<exists>s' tx' w'. call_txh (late_handlers T) tx w = Inr (TX_CONTINUE, tx', w') \<and> tx_skbs tx' = [s'] \<and>
    hdr_seq_ctrl (skb_data s') = Inr 0 \<and> s_translation_table w' = s_translation_table w \<and>
    take 8 (drop (ieee80211_hdrlen fc) (skb_data s')) = ccmp_pn2hdr (pn_be_bytes (conf_tx_pn x + 1)) (conf_keyidx x)"
proof -
  note f' = f [unfolded plain_ccmp_frame_def]
  have hl: "24 \<le> ieee80211_hdrlen fc" "ieee80211_hdrlen fc \<le> 32" using f' by (auto simp: ieee80211_hdrlen_def Let_def)
  have mic: "ieee80211_tx_h_michael_mic_add (supports_tx_frag T) tx w = Inr (TX_CONTINUE, tx)"
    using f' tx(3) k by (simp add: ieee80211_tx_h_michael_mic_add_def tx_skb_of_def)
  obtain bs w2 s2 where sq: "ieee80211_tx_h_sequence tx w =
      Inr (TX_CONTINUE, tx\<lparr>tx_skb := Some (skb\<lparr>info_flags := info_flags skb OR IEEE80211_TX_CTL_ASSIGN_SEQ, skb_data := bs\<rparr>)\<rparr>, w2)"
      "hdr_fc bs = Inr fc" "hdr_seq_ctrl bs = Inr 0" "length bs = length (skb_data skb)"
      "keys w2 = keys w" "s_translation_table w2 = s_translation_table w"
      "stas w2 p = Some s2" "tx_bytes s2 = tx_bytes s" "tx_packets s2 = tx_packets s"
    using tx_h_sequence_zero [OF tx(1,2) _ _ _ w(1,2,3,4), of skb fc] f' hl by auto
  let ?skb = "skb\<lparr>info_flags := info_flags skb OR IEEE80211_TX_CTL_ASSIGN_SEQ, skb_data := bs\<rparr>"
  let ?tx = "tx\<lparr>tx_skb := None, tx_skbs := [?skb]\<rparr>"
  have fr: "ieee80211_tx_h_fragment (supports_tx_frag T) (frag_threshold T) (frag_allocs T) (tx\<lparr>tx_skb := Some ?skb\<rparr>) =
      Inr (TX_CONTINUE, ?tx)"
    using f' flag_or_ne by (auto simp: ieee80211_tx_h_fragment_def tx_skb_of_def Let_def)
  obtain w3 where st: "ieee80211_tx_h_stats ?tx w2 = Inr (TX_CONTINUE, w3)" "keys w3 = keys w2" "s_translation_table w3 = s_translation_table w2"
    using tx_h_stats_one [of ?tx p ?skb w2 s2] f' tx(1) sq by auto
  obtain s' where en: "ieee80211_tx_h_encrypt (tx_crypto T) ?tx w3 =
        Inr (TX_CONTINUE, ?tx\<lparr>tx_skbs := [s']\<rparr>, put_key kp (x\<lparr>conf_tx_pn := conf_tx_pn x + 1\<rparr>) w3)"
      "hdr_fc (skb_data s') = Inr (fc OR IEEE80211_FCTL_PROTECTED)" "hdr_seq_ctrl (skb_data s') = Inr 0" "24 \<le> length (skb_data s')"
      "take 8 (drop (ieee80211_hdrlen fc) (skb_data s')) = ccmp_pn2hdr (pn_be_bytes (conf_tx_pn x + 1)) (conf_keyidx x)"
    using tx_h_encrypt_ccmp [OF C, of ?skb fc 0 w3 kp x ?tx] f' hl sq st k tx by (auto simp: skb_headroom_def)
  have "ieee80211_is_data (fc OR IEEE80211_FCTL_PROTECTED)" "\<not> ieee80211_is_data_qos (fc OR IEEE80211_FCTL_PROTECTED)"
    using f' protected_fc by simp_all
  from calc_duration_one [OF en(2) this en(4) rates]
  obtain ds where ds: "calc_durations (tx_rates T) [s'] = Inr [s'\<lparr>skb_data := ds\<rparr>]" "drop 4 ds = drop 4 (skb_data s')"
      "length ds = length (skb_data s')" .
  have dd: "drop (ieee80211_hdrlen fc) ds = drop (ieee80211_hdrlen fc) (skb_data s')"
    using arg_cong [OF ds(2), of "drop (ieee80211_hdrlen fc - 4)"] hl(1) by simp
  have "hdr_seq_ctrl ds = Inr 0" using seq_ctrl_of_drop [OF ds(2) _ ds(3)] en(3) by simp
  then show ?thesis
    using mic sq(1,6) fr st en dd ds(1)
    by (simp add: late_handlers_def ieee80211_tx_h_calculate_duration_def put_key_def)
qed


text \<open>The rates of 802.11b in the 2.4 GHz band, 1 and 2 Mbit/s basic, and a frame at 11 Mbit/s.\<close>

definition sample_rates :: rate_env where
  "sample_rates =
     \<lparr>tx_rate_idx = 3, tx_rate_flags = 0, chan_width = Some NL80211_CHAN_WIDTH_20_NOHT, sband_band = NL80211_BAND_2GHZ,
      bitrates = map (\<lambda>b. \<lparr>rate_flags = IEEE80211_RATE_MANDATORY_B, bitrate = b\<rparr>) [10, 20, 55, 110], basic_rates = 3,
      use_short_preamble = False, operating_gmode = False\<rparr>"

definition sample_tx_env :: tx_env where
  "sample_tx_env =
     \<lparr>tx_sha1 = sample_sha1, tx_gen = sample_env, tx_now = 1700000000, supports_tx_frag = False, frag_threshold = 2346,
      frag_allocs = [], tx_crypto = sample_crypto, has_rate_control = False, tx_rates = sample_rates\<rparr>"

definition sample_ccmp_skb :: sk_buff where
  "sample_ccmp_skb = sample_mpdu\<lparr>info_flags := IEEE80211_TX_CTL_DONTFRAG\<rparr>"

definition sample_ccmp_tx :: ieee80211_tx_data where
  "sample_ccmp_tx = sample_data_tx\<lparr>tx_skb := Some sample_ccmp_skb, tx_key := Some 3\<rparr>"


end
