(* ===== verification/Agg_Rx.thy ===== *)
theory Agg_Rx
  imports Reorder
begin

text \<open>
  Receive block-ack sessions: the session table of a station (\<^verbatim>\<open>struct sta_ampdu_mlme\<close>), the hooks of
  \<^verbatim>\<open>rx.c\<close> that put received frames, expired timers and driver reports through the reorder buffer, and
  the start and stop of a session in \<^verbatim>\<open>agg-rx.c\<close>. Bitmaps and arrays over the 16 TIDs are
  functions; what leaves the component (action frames, frames queued to the interface work) is a
  list of effects.
\<close>

abbreviation (input) IEEE80211_NUM_TIDS :: nat where "IEEE80211_NUM_TIDS \<equiv> 16"
abbreviation (input) IEEE80211_FIRST_TSPEC_TSID :: nat where "IEEE80211_FIRST_TSPEC_TSID \<equiv> 8"
abbreviation (input) IEEE80211_QOS_CTL_ACK_POLICY_MASK :: u8 where "IEEE80211_QOS_CTL_ACK_POLICY_MASK \<equiv> 0x60"
abbreviation (input) IEEE80211_QOS_CTL_ACK_POLICY_NORMAL :: u8 where "IEEE80211_QOS_CTL_ACK_POLICY_NORMAL \<equiv> 0x00"
abbreviation (input) IEEE80211_QOS_CTL_ACK_POLICY_BLOCKACK :: u8 where "IEEE80211_QOS_CTL_ACK_POLICY_BLOCKACK \<equiv> 0x60"
abbreviation (input) IEEE80211_STYPE_NULLFUNC :: u16 where "IEEE80211_STYPE_NULLFUNC \<equiv> 0x0040"
abbreviation (input) WLAN_BACK_RECIPIENT :: nat where "WLAN_BACK_RECIPIENT \<equiv> 0"
abbreviation (input) WLAN_REASON_QSTA_REQUIRE_SETUP :: nat where "WLAN_REASON_QSTA_REQUIRE_SETUP \<equiv> 38"
abbreviation (input) WLAN_STATUS_SUCCESS :: nat where "WLAN_STATUS_SUCCESS \<equiv> 0"
abbreviation (input) WLAN_STATUS_UNSPECIFIED_QOS :: nat where "WLAN_STATUS_UNSPECIFIED_QOS \<equiv> 32"
abbreviation (input) WLAN_STATUS_REQUEST_DECLINED :: nat where "WLAN_STATUS_REQUEST_DECLINED \<equiv> 37"
abbreviation (input) WLAN_STATUS_INVALID_QOS_PARAM :: nat where "WLAN_STATUS_INVALID_QOS_PARAM \<equiv> 38"
abbreviation (input) IEEE80211_MAX_AMPDU_BUF_HT :: u16 where "IEEE80211_MAX_AMPDU_BUF_HT \<equiv> 0x40"
abbreviation (input) IEEE80211_MAX_AMPDU_BUF :: u16 where "IEEE80211_MAX_AMPDU_BUF \<equiv> 0x100"
abbreviation (input) IEEE80211_HT_CAP_DELAY_BA :: u16 where "IEEE80211_HT_CAP_DELAY_BA \<equiv> 0x0400"

record sta_ampdu_mlme =
  tid_rx :: "nat \<Rightarrow> tid_ampdu_rx option"
  tid_rx_token :: "nat \<Rightarrow> u8"
  agg_session_valid :: "nat \<Rightarrow> bool"
  unexpected_agg :: "nat \<Rightarrow> bool"

datatype ba_effect =
    Send_Delba nat nat nat
  | Queue_Iface rx_frame
  | Send_Addba_Resp nat u8 nat u16 u16

definition put_session :: "nat \<Rightarrow> tid_ampdu_rx \<Rightarrow> sta_ampdu_mlme \<Rightarrow> sta_ampdu_mlme" where
  "put_session tid t s = s\<lparr>tid_rx := (tid_rx s)(tid := Some t)\<rparr>"

section \<open>Received frames\<close>

text \<open>
  The frame is appended to \<open>frames\<close> unless a session takes it; \<open>mlme\<close> is absent when the sender is
  unknown.
\<close>

definition ieee80211_rx_reorder_ampdu ::
  "nat \<Rightarrow> u64 \<Rightarrow> sta_ampdu_mlme option \<Rightarrow> rx_frame \<Rightarrow> rx_frame list \<Rightarrow>
     (sta_ampdu_mlme option \<times> rx_frame list \<times> ba_effect list) result" where
  "ieee80211_rx_reorder_ampdu hz jiffies mlme skb frames =
     (let bs = skb_data (frm_skb skb) in
      rbind (hdr_fc bs) (\<lambda>fc.
      rbind (hdr_addr1 bs) (\<lambda>a1.
      if \<not> ieee80211_is_data_qos fc \<or> is_multicast_ether_addr a1 then Inr (mlme, frames @ [skb], [])
      else
        (case mlme of
           None \<Rightarrow> Inr (None, frames @ [skb], [])
         | Some s \<Rightarrow>
             rbind (arr_get bs (ieee80211_get_qos_ctl fc)) (\<lambda>qc.
             rbind (ieee80211_get_tid bs) (\<lambda>tid8.
             let ack_policy = qc AND IEEE80211_QOS_CTL_ACK_POLICY_MASK; tid = unat tid8 in
             (case tid_rx s tid of
                None \<Rightarrow>
                  if ack_policy = IEEE80211_QOS_CTL_ACK_POLICY_BLOCKACK \<and> \<not> agg_session_valid s tid
                  then Inr (Some (s\<lparr>unexpected_agg := (unexpected_agg s)(tid := True)\<rparr>), frames @ [skb],
                         if unexpected_agg s tid then []
                         else [Send_Delba tid WLAN_BACK_RECIPIENT WLAN_REASON_QSTA_REQUIRE_SETUP])
                  else Inr (mlme, frames @ [skb], [])
              | Some t \<Rightarrow>
                  if fc AND IEEE80211_STYPE_NULLFUNC \<noteq> 0 then Inr (mlme, frames @ [skb], [])
                  else if ack_policy \<noteq> IEEE80211_QOS_CTL_ACK_POLICY_BLOCKACK \<and>
                          ack_policy \<noteq> IEEE80211_QOS_CTL_ACK_POLICY_NORMAL
                  then Inr (mlme, frames @ [skb], [])
                  else
                    let t = (if ra_timeout t \<noteq> 0 then t\<lparr>ra_last_rx := jiffies\<rparr> else t) in
                    rbind (hdr_seq_ctrl bs) (\<lambda>sc.
                    if sc AND IEEE80211_SCTL_FRAG \<noteq> 0
                    then Inr (Some (put_session tid t s), frames, [Queue_Iface skb])
                    else
                      rbind (ieee80211_sta_manage_reorder_buf hz jiffies t skb frames) (\<lambda>(consumed, t, frames).
                      Inr (Some (put_session tid t s), if consumed then frames else frames @ [skb], [])))))))))) "

text \<open>The reorder timer of a session expired; the frames go to the receive handlers.\<close>

definition ieee80211_release_reorder_timeout ::
  "nat \<Rightarrow> u64 \<Rightarrow> sta_ampdu_mlme \<Rightarrow> nat \<Rightarrow> (sta_ampdu_mlme \<times> rx_frame list) result" where
  "ieee80211_release_reorder_timeout hz jiffies s tid =
     (case tid_rx s tid of
        None \<Rightarrow> Inr (s, [])
      | Some t \<Rightarrow>
          rbind (ieee80211_sta_reorder_release hz jiffies t []) (\<lambda>(t, frames). Inr (put_session tid t s, frames)))"

section \<open>Driver reports of filtered frames\<close>

text \<open>The bitmap loop: bit \<open>i\<close> of the report goes to the slot of \<open>ssn + i\<close>.\<close>

fun mark_filtered :: "u64 \<Rightarrow> u16 \<Rightarrow> nat list \<Rightarrow> tid_ampdu_rx \<Rightarrow> tid_ampdu_rx result" where
  "mark_filtered filtered ssn [] t = Inr t"
| "mark_filtered filtered ssn (i # is) t =
     (if buf_size t = 0 then Inl DivideByZero
      else
        rbind (BIT_ULL ((unat ssn + i) mod unat (buf_size t))) (\<lambda>slot.
        rbind (BIT_ULL i) (\<lambda>b.
        let cleared = reorder_buf_filtered t AND NOT slot in
        mark_filtered filtered ssn is
          (t\<lparr>reorder_buf_filtered := (if filtered AND b \<noteq> 0 then cleared OR slot else cleared)\<rparr>))))"

definition ieee80211_mark_rx_ba_filtered_frames ::
  "nat \<Rightarrow> u64 \<Rightarrow> sta_ampdu_mlme option \<Rightarrow> nat \<Rightarrow> u16 \<Rightarrow> u64 \<Rightarrow> u16 \<Rightarrow>
     (sta_ampdu_mlme option \<times> rx_frame list) result" where
  "ieee80211_mark_rx_ba_filtered_frames hz jiffies pubsta tid ssn filtered received_mpdus =
     (case pubsta of
        None \<Rightarrow> Inr (None, [])
      | Some s \<Rightarrow>
          if IEEE80211_NUM_TIDS \<le> tid then Inr (pubsta, [])
          else
            (case tid_rx s tid of
               None \<Rightarrow> Inr (pubsta, [])
             | Some t \<Rightarrow>
                 rbind (if 2048 \<le> unat received_mpdus
                        then
                          let release = of_nat ((unat (head_seq_num t) + unat (buf_size t)) mod IEEE80211_SN_MODULO) in
                          rbind (ieee80211_release_reorder_frames t release []) (\<lambda>(t, frames).
                          Inr (t\<lparr>head_seq_num := ssn\<rparr>, frames))
                        else ieee80211_release_reorder_frames t ssn [])
                   (\<lambda>(t, frames).
                 let diff = unat ((head_seq_num t - ssn) AND IEEE80211_SN_MASK) in
                 if unat (buf_size t) \<le> diff
                 then Inr (Some (put_session tid (t\<lparr>reorder_buf_filtered := 0\<rparr>) s), frames)
                 else if 64 \<le> diff then Inl ShiftRange
                 else
                   rbind (mark_filtered (drop_bit diff filtered) (ssn + of_nat diff) [0..<unat (buf_size t)] t) (\<lambda>t.
                   rbind (ieee80211_sta_reorder_release hz jiffies t frames) (\<lambda>(t, frames).
                   Inr (Some (put_session tid t s), frames))))))"

section \<open>Starting and stopping a session\<close>

text \<open>The station's capabilities, the driver's answer and the outcomes of the allocations.\<close>

record ba_env =
  ht_supported :: bool
  sta_block_ba :: bool
  has_he :: bool
  ht_cap :: u16
  max_rx_aggregation_subframes :: u16
  hw_reordering_buffer :: bool
  drv_ampdu_ret :: int
  alloc_session :: bool
  alloc_reorder_buf :: bool
  alloc_reorder_time :: bool

definition stop_rx_ba_session :: "sta_ampdu_mlme \<Rightarrow> nat \<Rightarrow> nat \<Rightarrow> nat \<Rightarrow> bool \<Rightarrow> sta_ampdu_mlme \<times> ba_effect list" where
  "stop_rx_ba_session s tid initiator reason tx =
     (if \<not> agg_session_valid s tid then (s, [])
      else (s\<lparr>tid_rx := (tid_rx s)(tid := None), agg_session_valid := (agg_session_valid s)(tid := False)\<rparr>,
            if initiator = WLAN_BACK_RECIPIENT \<and> tx then [Send_Delba tid WLAN_BACK_RECIPIENT reason] else []))"

text \<open>A session that was accepted: zeroed by \<^verbatim>\<open>kzalloc\<close>, then filled in.\<close>

definition new_session :: "(u16 \<Rightarrow> u64) \<Rightarrow> u64 \<Rightarrow> u16 \<Rightarrow> u16 \<Rightarrow> nat \<Rightarrow> u16 \<Rightarrow> bool \<Rightarrow> tid_ampdu_rx" where
  "new_session tu_to_jiffies jiffies timeout start_seq_num tid bsize auto =
     \<lparr>reorder_buf_filtered = 0, reorder_buf = replicate (unat bsize) [], reorder_time = replicate (unat bsize) 0,
      session_timer = (if timeout \<noteq> 0 then Some (jiffies + tu_to_jiffies timeout) else None), reorder_timer = None,
      ra_last_rx = (if timeout \<noteq> 0 then jiffies else 0), head_seq_num = start_seq_num, stored_mpdu_num = 0,
      ra_ssn = start_seq_num, buf_size = bsize, ra_timeout = timeout, ra_tid = of_nat tid, auto_seq = auto,
      ra_removed = False, ra_started = False\<rparr>"

text \<open>
  The decision on an ADDBA request: the status of the answer, the buffer size in it and the table
  with the new session, if one was created. \<open>tu\<close> converts time units to jiffies.
\<close>

definition decide_rx_ba_session ::
  "ba_env \<Rightarrow> (u16 \<Rightarrow> u64) \<Rightarrow> u64 \<Rightarrow> sta_ampdu_mlme \<Rightarrow> u8 \<Rightarrow> u16 \<Rightarrow> u16 \<Rightarrow> u16 \<Rightarrow> nat \<Rightarrow> u16 \<Rightarrow> bool \<Rightarrow>
     nat \<times> u16 \<times> sta_ampdu_mlme" where
  "decide_rx_ba_session env tu jiffies s dialog_token timeout start_seq_num ba_policy tid bsize auto =
     (if IEEE80211_FIRST_TSPEC_TSID \<le> tid then (WLAN_STATUS_REQUEST_DECLINED, bsize, s)
      else if \<not> ht_supported env then (WLAN_STATUS_REQUEST_DECLINED, bsize, s)
      else if sta_block_ba env then (WLAN_STATUS_REQUEST_DECLINED, bsize, s)
      else
        let max_buf_size = (if has_he env then IEEE80211_MAX_AMPDU_BUF else IEEE80211_MAX_AMPDU_BUF_HT) in
        if ba_policy \<noteq> 1 \<and> ht_cap env AND IEEE80211_HT_CAP_DELAY_BA = 0 \<or> bsize > max_buf_size
        then (WLAN_STATUS_INVALID_QOS_PARAM, bsize, s)
        else
          let bsize = (if bsize = 0 then max_buf_size else bsize);
              bsize = (if bsize > max_rx_aggregation_subframes env then max_rx_aggregation_subframes env else bsize)
          in
          if agg_session_valid s tid \<and> tid_rx_token s tid = dialog_token
          then (case tid_rx s tid of
                  Some t \<Rightarrow> (if ra_timeout t = timeout then WLAN_STATUS_SUCCESS else WLAN_STATUS_REQUEST_DECLINED, bsize, s)
                | None \<Rightarrow> (WLAN_STATUS_REQUEST_DECLINED, bsize, s))
          else
            let s = (if agg_session_valid s tid
                     then fst (stop_rx_ba_session s tid WLAN_BACK_RECIPIENT WLAN_STATUS_UNSPECIFIED_QOS False) else s)
            in
            if hw_reordering_buffer env
            then (if drv_ampdu_ret env = 0 then WLAN_STATUS_SUCCESS else WLAN_STATUS_REQUEST_DECLINED, bsize, s)
            else if \<not> alloc_session env \<or> \<not> alloc_reorder_buf env \<or> \<not> alloc_reorder_time env
            then (WLAN_STATUS_REQUEST_DECLINED, bsize, s)
            else if drv_ampdu_ret env \<noteq> 0 then (WLAN_STATUS_REQUEST_DECLINED, bsize, s)
            else (WLAN_STATUS_SUCCESS, bsize,
                  put_session tid (new_session tu jiffies timeout start_seq_num tid bsize auto) s))"

definition start_rx_ba_session ::
  "ba_env \<Rightarrow> (u16 \<Rightarrow> u64) \<Rightarrow> u64 \<Rightarrow> sta_ampdu_mlme \<Rightarrow> u8 \<Rightarrow> u16 \<Rightarrow> u16 \<Rightarrow> u16 \<Rightarrow> nat \<Rightarrow> u16 \<Rightarrow> bool \<Rightarrow> bool \<Rightarrow>
     sta_ampdu_mlme \<times> ba_effect list" where
  "start_rx_ba_session env tu jiffies s dialog_token timeout start_seq_num ba_policy tid bsize tx auto =
     (let (status, bsize, s) =
            decide_rx_ba_session env tu jiffies s dialog_token timeout start_seq_num ba_policy tid bsize auto;
          s = (if status = WLAN_STATUS_SUCCESS
               then s\<lparr>agg_session_valid := (agg_session_valid s)(tid := True),
                      unexpected_agg := (unexpected_agg s)(tid := False),
                      tid_rx_token := (tid_rx_token s)(tid := dialog_token)\<rparr>
               else s)
      in (s, if tx then [Send_Addba_Resp tid dialog_token status bsize timeout] else []))"

section \<open>Runs of a session\<close>

text \<open>
  A component that reacts to events, each reaction giving some output, and the promise that every
  reaction keeps an invariant with a position and gives output between the old and the new
  position; then so does a whole run.
\<close>

fun run_events :: "('e \<Rightarrow> 's \<Rightarrow> ('f list \<times> 's) result) \<Rightarrow> 'e list \<Rightarrow> 's \<Rightarrow> ('f list \<times> 's) result" where
  "run_events step [] s = Inr ([], s)"
| "run_events step (e # es) s =
     rbind (step e s) (\<lambda>(out, s). rbind (run_events step es s) (\<lambda>(outs, s). Inr (out @ outs, s)))"

locale positioned_output =
  fixes step :: "'e \<Rightarrow> 's \<Rightarrow> ('f list \<times> 's) result" and inv :: "nat \<Rightarrow> 's \<Rightarrow> bool" and event_ok :: "'e \<Rightarrow> bool"
    and between :: "nat \<Rightarrow> 'f list \<Rightarrow> nat \<Rightarrow> bool"
  assumes step_between: "inv p s \<Longrightarrow> event_ok e \<Longrightarrow> \<exists>out s' p'. step e s = Inr (out, s') \<and> inv p' s' \<and> between p out p'"
    and between_Nil: "between p [] p"
    and between_append: "between p xs p' \<Longrightarrow> between p' ys p'' \<Longrightarrow> between p (xs @ ys) p''"
begin

lemma run_between:
  "inv p s \<Longrightarrow> \<forall>e\<in>set es. event_ok e \<Longrightarrow>
     \<exists>out s' p'. run_events step es s = Inr (out, s') \<and> inv p' s' \<and> between p out p'"
proof (induction es arbitrary: p s)
  case Nil
  then show ?case using between_Nil by auto
next
  case (Cons e es)
  then obtain out s1 p1 where 1: "step e s = Inr (out, s1)" "inv p1 s1" "between p out p1" using step_between by fastforce
  then obtain outs s2 p2 where 2: "run_events step es s1 = Inr (outs, s2)" "inv p2 s2" "between p1 outs p2"
    using Cons.IH [of p1 s1] Cons.prems(2) by auto
  then show ?case using 1 between_append [OF 1(3) 2(3)] by auto
qed

end

text \<open>The events of one session: a frame of the session is received, or its reorder timer expires.\<close>

datatype rx_event = Rx_Frame rx_frame u64 | Reorder_Timer u64

definition rx_event_step :: "nat \<Rightarrow> nat \<Rightarrow> rx_event \<Rightarrow> sta_ampdu_mlme \<Rightarrow> (rx_frame list \<times> sta_ampdu_mlme) result" where
  "rx_event_step hz tid e s =
     (case e of
        Rx_Frame f now \<Rightarrow>
          rbind (ieee80211_rx_reorder_ampdu hz now (Some s) f []) (\<lambda>(mlme, frames, _).
          (case mlme of None \<Rightarrow> Inl NullDeref | Some s \<Rightarrow> Inr (frames, s)))
      | Reorder_Timer now \<Rightarrow>
          rbind (ieee80211_release_reorder_timeout hz now s tid) (\<lambda>(s, frames). Inr (frames, s)))"

text \<open>
  A frame of the session: unicast QoS data with payload, of its TID, acknowledged normally or by
  block ack, unfragmented and not reported as part of an A-MSDU.
\<close>

definition ba_frame :: "nat \<Rightarrow> rx_frame \<Rightarrow> bool" where
  "ba_frame tid f \<longleftrightarrow>
     (let bs = skb_data (frm_skb f) in
      \<exists>fc a1 qc tid8 sc. hdr_fc bs = Inr fc \<and> ieee80211_is_data_qos fc \<and> fc AND IEEE80211_STYPE_NULLFUNC = 0 \<and>
        hdr_addr1 bs = Inr a1 \<and> \<not> is_multicast_ether_addr a1 \<and>
        arr_get bs (ieee80211_get_qos_ctl fc) = Inr qc \<and>
        (qc AND IEEE80211_QOS_CTL_ACK_POLICY_MASK = IEEE80211_QOS_CTL_ACK_POLICY_BLOCKACK \<or>
         qc AND IEEE80211_QOS_CTL_ACK_POLICY_MASK = IEEE80211_QOS_CTL_ACK_POLICY_NORMAL) \<and>
        ieee80211_get_tid bs = Inr tid8 \<and> unat tid8 = tid \<and>
        hdr_seq_ctrl bs = Inr sc \<and> sc AND IEEE80211_SCTL_FRAG = 0 \<and> frm_flag f AND RX_FLAG_AMSDU_MORE = 0)"

definition ba_event :: "nat \<Rightarrow> rx_event \<Rightarrow> bool" where
  "ba_event tid e \<longleftrightarrow> (case e of Rx_Frame f now \<Rightarrow> ba_frame tid f | Reorder_Timer now \<Rightarrow> True)"

definition ba_inv :: "nat \<Rightarrow> nat \<Rightarrow> sta_ampdu_mlme \<Rightarrow> bool" where
  "ba_inv tid V s \<longleftrightarrow> (\<exists>t m. tid_rx s tid = Some t \<and> session_ok V m t)"

lemma session_ok_last_rx: "session_ok V m (t\<lparr>ra_last_rx := x\<rparr>) = session_ok V m t"
  by (simp add: session_ok_def window_view_def ring_view_def reorder_wf_def armed_def)

lemma rx_reorder_ampdu_session:
  assumes "ba_frame tid f" and "tid_rx s tid = Some t"
  shows "ieee80211_rx_reorder_ampdu hz now (Some s) f frames =
    rbind (ieee80211_sta_manage_reorder_buf hz now (if ra_timeout t \<noteq> 0 then t\<lparr>ra_last_rx := now\<rparr> else t) f frames)
      (\<lambda>(consumed, t, frames). Inr (Some (put_session tid t s), if consumed then frames else frames @ [f], []))"
  using assms unfolding ba_frame_def ieee80211_rx_reorder_ampdu_def Let_def by (elim exE conjE) (auto simp: Let_def)

interpretation reorder: positioned_output "rx_event_step hz tid" "ba_inv tid" "ba_event tid" in_order for hz tid
proof
  fix p s e
  assume "ba_inv tid p s" and e: "ba_event tid e"
  then obtain t m where t: "tid_rx s tid = Some t" "session_ok p m t" by (auto simp: ba_inv_def)
  show "\<exists>out s' p'. rx_event_step hz tid e s = Inr (out, s') \<and> ba_inv tid p' s' \<and> in_order p out p'"
  proof (cases e)
    case (Rx_Frame f now)
    let ?t = "if ra_timeout t \<noteq> 0 then t\<lparr>ra_last_rx := now\<rparr> else t"
    have f: "ba_frame tid f" using e Rx_Frame by (simp add: ba_event_def)
    then obtain sn where sn: "mpdu_seq_num f = Inr sn" "frm_flag f AND RX_FLAG_AMSDU_MORE = 0"
      by (auto simp: ba_frame_def Let_def mpdu_seq_num_def)
    have ok: "session_ok p m ?t" using t(2) by (simp add: session_ok_last_rx)
    obtain ret t' frames' V' m' out where R: "ieee80211_sta_manage_reorder_buf hz now ?t f [] = Inr (ret, t', frames')"
      "frames' @ (if ret then [] else [f]) = [] @ out" "session_ok V' m' t'" "in_order p out V'"
      using manage_reorder_buf_takes [OF ok sn, of "[]" hz now] unfolding takes_def by (elim exE conjE) (rule that)
    have "rx_event_step hz tid e s = Inr (out, put_session tid t' s)"
      using R(1,2) rx_reorder_ampdu_session [OF f t(1)] Rx_Frame by (auto simp: rx_event_step_def)
    moreover have "ba_inv tid V' (put_session tid t' s)" using R(3) by (auto simp: ba_inv_def put_session_def)
    ultimately show ?thesis using R(4) by blast
  next
    case (Reorder_Timer now)
    have w: "window_view p m t" using t(2) by (simp add: session_ok_def)
    obtain V' where "gives_up p m t [] (ieee80211_sta_reorder_release hz now t []) V'" using reorder_release_view [OF w] by blast
    then obtain t' where R: "ieee80211_sta_reorder_release hz now t [] = Inr (t', map deferred (held m p V'))"
      "p \<le> V'" "window_view V' (ahead V' m) t'" "kept t t'" "m V' = None" "armed (ahead V' m) t'"
      by (auto simp: gives_up_def)
    have "rx_event_step hz tid e s = Inr (map deferred (held m p V'), put_session tid t' s)"
      using R(1) t(1) Reorder_Timer by (simp add: rx_event_step_def ieee80211_release_reorder_timeout_def)
    moreover have "session_ok V' (ahead V' m) t'" using R t(2) by (simp add: session_ok_def kept_def ahead_def)
    then have "ba_inv tid V' (put_session tid t' s)" by (auto simp: ba_inv_def put_session_def)
    moreover have "in_order p (map deferred (held m p V')) V'"
      using R(2) w by (intro in_order_held) (auto simp: window_view_def ring_view_def)
    ultimately show ?thesis by blast
  qed
next
  show "in_order p [] p" for p by (simp add: in_order_Nil)
  show "in_order p xs p' \<Longrightarrow> in_order p' ys p'' \<Longrightarrow> in_order p (xs @ ys) p''" for p xs p' ys p''
    by (rule in_order_append)
qed

lemma mod_window_surj:
  fixes V n i :: nat
  assumes "i < n"
  obtains v where "V \<le> v" and "v < V + n" and "v mod n = i"
proof -
  have "(V + (i + n - V mod n) mod n) mod n = (V + (i + n - V mod n)) mod n" by (simp add: mod_add_right_eq)
  also have "\<dots> = (V mod n + (i + n - V mod n)) mod n" by (simp add: mod_add_left_eq)
  also have "V mod n + (i + n - V mod n) = i + n" using assms mod_less_divisor [of n V] by linarith
  also have "(i + n) mod n = i" using assms by simp
  finally show thesis using that [of "V + (i + n - V mod n) mod n"] assms by simp
qed

lemma window_view_empty:
  assumes "window_view V Map.empty t"
  shows "stored_mpdu_num t = 0" "\<forall>q\<in>set (reorder_buf t). q = []"
proof -
  have r: "ring_view V Map.empty t" using assms by (simp add: window_view_def)
  note D = ring_viewD [OF r]
  show "stored_mpdu_num t = 0" using D(9) by simp
  have "reorder_buf t ! i = []" if "i < length (reorder_buf t)" for i
  proof -
    have "i < unat (buf_size t)" using that D(5) by simp
    then obtain v where v: "V \<le> v" "v < V + unat (buf_size t)" "v mod unat (buf_size t) = i"
      by (rule mod_window_surj)
    then show ?thesis using r by (auto simp: ring_view_def)
  qed
  then show "\<forall>q\<in>set (reorder_buf t). q = []" by (metis in_set_conv_nth)
qed

lemma new_session_ok:
  assumes "2 \<le> unat bsize" and "unat bsize \<le> 64" and "unat bsize dvd 4096" and "unat ssn < 4096"
  shows "session_ok (unat ssn) Map.empty ((new_session tu now timeout ssn tid bsize False)\<lparr>ra_started := True\<rparr>)"
  using assms
  by (simp add: session_ok_def window_view_def ring_view_def reorder_wf_def new_session_def armed_def)

section \<open>Sample session\<close>

definition sample_ba_skb :: "u8 \<Rightarrow> u8 \<Rightarrow> sk_buff" where
  "sample_ba_skb lo hi = \<lparr>skb_head = [],
     skb_data = [0x88, 1, 0, 0, 2, 0, 0, 0, 0, 1, 2, 0, 0, 0, 0, 2, 2, 0, 0, 0, 0, 3, lo, hi, 0, 0, 7],
     skb_len = 27, skb_protocol = 0, info_flags = 0, info_control_flags = 0, info_hw_key = None, info_vif = None,
     info_hw_queue = 0, info_rates_idx = [], info_jiffies = 0, skb_queue_mapping = 0, skb_priority = 0\<rparr>"

definition sample_ba_frame :: "u8 \<Rightarrow> u8 \<Rightarrow> rx_frame" where
  "sample_ba_frame lo hi = \<lparr>frm_skb = sample_ba_skb lo hi, frm_flag = 0, frm_rx_flags = 0\<rparr>"

definition sample_session :: tid_ampdu_rx where
  "sample_session = (new_session (\<lambda>_. 0) 0 0 100 0 4 False)\<lparr>ra_started := True\<rparr>"

definition sample_mlme :: "tid_ampdu_rx \<Rightarrow> sta_ampdu_mlme" where
  "sample_mlme t = \<lparr>tid_rx = (\<lambda>i. if i = 0 then Some t else None), tid_rx_token = (\<lambda>_. 0),
     agg_session_valid = (\<lambda>i. i = 0), unexpected_agg = (\<lambda>_. False)\<rparr>"

lemma sample_ba_frames: "ba_frame 0 (sample_ba_frame 0x40 6)" "ba_frame 0 (sample_ba_frame 0x50 6)"
  by (simp_all add: ba_frame_def sample_ba_frame_def sample_ba_skb_def hdr_fc_def hdr_addr1_def hdr_seq_ctrl_def
      ieee80211_get_tid_def ieee80211_get_qos_ctl_def arr_get_def le16_bytes_def le16_of_def ieee80211_is_data_qos_def
      ieee80211_has_a4_def Let_def)

lemma sample_session_ok: "session_ok 100 Map.empty sample_session"
  using new_session_ok [of 4 100] by (simp add: sample_session_def)

lemma sample_ba_seq: "mpdu_seq_num (sample_ba_frame lo hi) = Inr (drop_bit 4 (le16_of lo hi AND IEEE80211_SCTL_SEQ))"
  by (simp add: mpdu_seq_num_def sample_ba_frame_def sample_ba_skb_def hdr_seq_ctrl_def)

definition sample_held :: tid_ampdu_rx where
  "sample_held = sample_session\<lparr>reorder_buf := [[], [sample_ba_frame 0x50 6], [], []], reorder_time := [0, 5, 0, 0],
     stored_mpdu_num := 1, reorder_timer := Some 31\<rparr>"

lemma sample_held_ok: "session_ok 100 [101 \<mapsto> sample_ba_frame 0x50 6] sample_held"
proof -
  have "ring_view 100 (Map.empty(101 \<mapsto> sample_ba_frame 0x50 6)) (sample_session\<lparr>reorder_buf :=
      (reorder_buf sample_session)[101 mod unat (buf_size sample_session) := [sample_ba_frame 0x50 6]],
      reorder_time := [0, 5, 0, 0], stored_mpdu_num := stored_mpdu_num sample_session + 1\<rparr>)"
  proof (rule ring_store)
    show "frame_at 101 (sample_ba_frame 0x50 6)"
      by (simp add: frame_at_def sample_ba_seq le16_of_def) (simp add: sample_ba_frame_def)
  qed (use sample_session_ok in \<open>simp_all add: session_ok_def window_view_def sample_session_def new_session_def\<close>)
  then have "ring_view 100 [101 \<mapsto> sample_ba_frame 0x50 6] (sample_session\<lparr>reorder_buf :=
      (reorder_buf sample_session)[101 mod unat (buf_size sample_session) := [sample_ba_frame 0x50 6]],
      reorder_time := [0, 5, 0, 0], stored_mpdu_num := stored_mpdu_num sample_session + 1, reorder_timer := Some 31\<rparr>)"
    (is "ring_view _ _ ?t") by (simp add: ring_view_def reorder_wf_def)
  moreover have "replicate 4 x = [x, x, x, x]" for x :: "rx_frame list" by (simp add: numeral_eq_Suc)
  then have "?t = sample_held" by (simp add: sample_held_def sample_session_def new_session_def)
  ultimately have "ring_view 100 [101 \<mapsto> sample_ba_frame 0x50 6] sample_held" by (simp only:)
  then show ?thesis
    by (simp add: session_ok_def window_view_def armed_def) (simp add: sample_held_def sample_session_def new_session_def)
qed

section \<open>Properties\<close>



text \<open>
  C26: No frame waits forever. When the reorder timer of a session fires and every frame the buffer holds is
  overdue, all of them are handed on, in the order of their numbers, the buffer is empty
  and counts no stored frame.
\<close>

theorem overdue_frames_released:
  assumes "tid_rx s tid = Some t" and "session_ok V m t"
    and "\<forall>v\<in>dom m. time_after now (reorder_time t ! (v mod unat (buf_size t)) + HT_RX_REORDER_BUF_TIMEOUT hz)"
  shows "\<exists>s' t'. ieee80211_release_reorder_timeout hz now s tid = Inr (s', map deferred (held m V (V + unat (buf_size t)))) \<and>
    tid_rx s' tid = Some t' \<and> stored_mpdu_num t' = 0 \<and> (\<forall>q\<in>set (reorder_buf t'). q = [])"
proof -
  have w: "window_view V m t" and V: "m V = None" using assms(2) by (simp_all add: session_ok_def)
  obtain V' where V': "gives_up V m t [] (ieee80211_sta_reorder_release hz now t []) V'" "ahead V' m = Map.empty"
    using reorder_release_view [OF w, of "[]" hz now] V assms(3) by auto
  then obtain t' where t': "ieee80211_sta_reorder_release hz now t [] = Inr (t', map deferred (held m V V'))"
    "V \<le> V'" "window_view V' Map.empty t'" by (auto simp: gives_up_def)
  have none: "m v = None" if "V' \<le> v \<or> V + unat (buf_size t) \<le> v" for v
  proof (cases "V' \<le> v")
    case True
    then show ?thesis using fun_cong [OF V'(2), of v] by (simp add: ahead_def)
  next
    case False
    then show ?thesis using that w by (auto simp: window_view_def ring_view_def subset_iff domIff)
  qed
  have "held m V V' = held m V (V + unat (buf_size t))"
  proof (cases "V' \<le> V + unat (buf_size t)")
    case True
    then show ?thesis using held_append [of V V' "V + unat (buf_size t)" m] t'(2) held_none [of V' _ m] none by simp
  next
    case False
    then show ?thesis using held_append [of V "V + unat (buf_size t)" V' m] held_none [of "V + unat (buf_size t)" _ m] none by simp
  qed
  then show ?thesis using t'(1) window_view_empty [OF t'(3)] assms(1)
    by (auto simp: ieee80211_release_reorder_timeout_def put_session_def)
qed

theorem overdue_frames_released_witness:
  "\<exists>s' t'. ieee80211_release_reorder_timeout 250 40 (sample_mlme sample_held) 0 =
     Inr (s', map deferred (held [101 \<mapsto> sample_ba_frame 0x50 6] 100 (100 + unat (buf_size sample_held)))) \<and>
    tid_rx s' 0 = Some t' \<and> stored_mpdu_num t' = 0 \<and> (\<forall>q\<in>set (reorder_buf t'). q = [])"
proof (rule overdue_frames_released [OF _ sample_held_ok])
  show "tid_rx (sample_mlme sample_held) 0 = Some sample_held" by (simp add: sample_mlme_def)
qed (simp add: sample_held_def sample_session_def new_session_def time_after_def HT_RX_REORDER_BUF_TIMEOUT_def)

text \<open>
  With a window size that does not divide 4096, two numbers of the window can have the same slot. A frame
  that was never received is then taken for a duplicate of the held frame in its slot
  and dropped.
\<close>

theorem window_collision_drops_frame:
  assumes "ra_started t" and "\<not> auto_seq t" and "mpdu_seq_num f = Inr sn" and "\<not> ieee80211_sn_less sn (head_seq_num t)"
    and "ieee80211_sn_less sn (head_seq_num t + buf_size t)" and "buf_size t \<noteq> 0" and "unat (buf_size t) \<le> 64"
    and "length (reorder_buf t) = unat (buf_size t)" and "mpdu_seq_num g = Inr sn'" and "sn' \<noteq> sn"
    and "unat sn mod unat (buf_size t) = unat sn' mod unat (buf_size t)"
    and "reorder_buf t ! (unat sn' mod unat (buf_size t)) = [g]" and "frm_flag g AND RX_FLAG_AMSDU_MORE = 0"
  shows "ieee80211_sta_manage_reorder_buf hz now t f fr = Inr (True, t, fr)"
proof -
  have "unat sn' mod unat (buf_size t) < unat (buf_size t)" using assms(6) by (simp add: unat_gt_0)
  then have "ieee80211_rx_reorder_ready t (unat sn' mod unat (buf_size t)) = Inr True"
    using assms(7,8,12,13) by (simp add: ieee80211_rx_reorder_ready_def BIT_ULL_def)
  then show ?thesis using assms(3-6,11) manage_running [OF assms(3,1,2)]
    by (simp add: reorder_place_def ring_index_def)
qed

definition sample_odd_session :: tid_ampdu_rx where
  "sample_odd_session = (new_session (\<lambda>_. 0) 0 0 4090 0 48 False)\<lparr>ra_started := True,
     reorder_buf := (replicate 48 [])[15 := [sample_ba_frame 0xF0 0xFF]], stored_mpdu_num := 1\<rparr>"

theorem window_collision_drops_frame_witness:
  "ieee80211_sta_manage_reorder_buf 250 40 sample_odd_session (sample_ba_frame 0xF0 0) [] = Inr (True, sample_odd_session, [])"
proof (rule window_collision_drops_frame)
  show "mpdu_seq_num (sample_ba_frame 0xF0 0) = Inr 15" "mpdu_seq_num (sample_ba_frame 0xF0 0xFF) = Inr 4095"
    by (simp_all add: sample_ba_seq le16_of_def)
qed (simp_all add: sample_odd_session_def new_session_def ieee80211_sn_less_def sample_ba_frame_def)

text \<open>
  An HE station may ask for a window of 256 frames, but the bitmap of filtered frames has 64 bits. The
  session is accepted, and every frame of the first window in a slot from 64 on makes the
  receiver shift a 64-bit mask by 64 or more.
\<close>

theorem he_window_shift_out_of_range:
  assumes "ht_supported env" and "\<not> sta_block_ba env" and "has_he env" and "256 \<le> max_rx_aggregation_subframes env"
    and "\<not> hw_reordering_buffer env" and "drv_ampdu_ret env = 0"
    and "alloc_session env" and "alloc_reorder_buf env" and "alloc_reorder_time env"
    and "tid < 8" and "\<not> agg_session_valid s tid"
    and "mpdu_seq_num f = Inr sn" and "\<not> ieee80211_sn_less sn ssn" and "ieee80211_sn_less sn (ssn + 256)"
    and "64 \<le> unat sn mod 256"
  shows "\<exists>s' effects t. start_rx_ba_session env tu jiffies s token timeout ssn 1 tid 256 True False = (s', effects) \<and>
    effects = [Send_Addba_Resp tid token WLAN_STATUS_SUCCESS 256 timeout] \<and> tid_rx s' tid = Some t \<and>
    ieee80211_sta_manage_reorder_buf hz now t f fr = Inl ShiftRange"
proof -
  let ?t = "new_session tu jiffies timeout ssn tid 256 False"
  have "start_rx_ba_session env tu jiffies s token timeout ssn 1 tid 256 True False =
      (put_session tid ?t s\<lparr>agg_session_valid := (agg_session_valid s)(tid := True),
         unexpected_agg := (unexpected_agg s)(tid := False), tid_rx_token := (tid_rx_token s)(tid := token)\<rparr>,
       [Send_Addba_Resp tid token WLAN_STATUS_SUCCESS 256 timeout])"
    using assms(1-11) leD [OF assms(4)] by (simp add: start_rx_ba_session_def decide_rx_ba_session_def put_session_def Let_def)
  moreover have "ieee80211_sta_manage_reorder_buf hz now ?t f fr = Inl ShiftRange"
  proof -
    have "(256 :: u16) \<noteq> 0" "unat (256 :: u16) = 256" by simp_all
    then show ?thesis using assms(12-15)
      by (simp add: ieee80211_sta_manage_reorder_buf_def new_session_def reorder_place_def ring_index_def
          ieee80211_rx_reorder_ready_def BIT_ULL_def Let_def)
  qed
  ultimately show ?thesis by (auto simp: put_session_def)
qed

definition sample_he_env :: ba_env where
  "sample_he_env = \<lparr>ht_supported = True, sta_block_ba = False, has_he = True, ht_cap = 0, max_rx_aggregation_subframes = 256,
     hw_reordering_buffer = False, drv_ampdu_ret = 0, alloc_session = True, alloc_reorder_buf = True, alloc_reorder_time = True\<rparr>"

theorem he_window_shift_out_of_range_witness:
  "\<exists>s' effects t. start_rx_ba_session sample_he_env (\<lambda>_. 0) 0 (sample_mlme sample_session) 1 0 0 1 3 256 True False =
     (s', effects) \<and> effects = [Send_Addba_Resp 3 1 WLAN_STATUS_SUCCESS 256 0] \<and> tid_rx s' 3 = Some t \<and>
    ieee80211_sta_manage_reorder_buf 250 40 t (sample_ba_frame 0x40 6) [] = Inl ShiftRange"
proof (rule he_window_shift_out_of_range)
  show "mpdu_seq_num (sample_ba_frame 0x40 6) = Inr 100" by (simp add: sample_ba_seq le16_of_def)
qed (simp_all add: sample_he_env_def sample_mlme_def ieee80211_sn_less_def)

lemma timer_scan_finds:
  assumes "timer_scan stop n t j = Some y"
  shows "stop = - 1 \<longrightarrow> (\<forall>j<n. ieee80211_rx_reorder_ready t j = Inr False) \<longrightarrow> \<not> j < n"
proof (rule timer_scan.raw_induct [OF _ assms,
      where P = "\<lambda>stop n t j y. stop = - 1 \<longrightarrow> (\<forall>j<n. ieee80211_rx_reorder_ready t j = Inr False) \<longrightarrow> \<not> j < n"])
  fix ts and stop' :: int and n' t' j' y'
  assume IH: "\<And>stop n t j y. ts stop n t j = Some y \<Longrightarrow>
      stop = - 1 \<longrightarrow> (\<forall>j<n. ieee80211_rx_reorder_ready t j = Inr False) \<longrightarrow> \<not> j < n"
    and eq: "(if int j' = stop' then Some (Inr j')
      else case ieee80211_rx_reorder_ready t' j' of Inl e \<Rightarrow> Some (Inl e)
         | Inr ready \<Rightarrow> if ready then Some (Inr j') else ts stop' n' t' ((j' + 1) mod n')) = Some y'"
  show "stop' = - 1 \<longrightarrow> (\<forall>j<n'. ieee80211_rx_reorder_ready t' j = Inr False) \<longrightarrow> \<not> j' < n'"
  proof (intro impI notI)
    assume a: "stop' = - 1" "\<forall>j<n'. ieee80211_rx_reorder_ready t' j = Inr False" "j' < n'"
    then have "ts stop' n' t' ((j' + 1) mod n') = Some y'" using eq by simp
    moreover have "(j' + 1) mod n' < n'" using a(3) by (intro mod_less_divisor) simp
    ultimately show False using IH a by blast
  qed
qed

lemma timer_scan_diverges:
  assumes "\<forall>j<n. ieee80211_rx_reorder_ready t j = Inr False" and "j < n"
  shows "timer_scan (- 1) n t j = None"
  using timer_scan_finds [of "- 1" n t j] assms by (cases "timer_scan (- 1) n t j") auto

text \<open>
  A driver report that a number is filtered makes its slot ready even when the slot holds only the first
  part of an A-MSDU, which was never counted. Releasing it decrements the count below zero;
  the count is then not zero although nothing is held, and when the head is in slot 0 the
  search for the slot to set the timer for never ends, with the lock of the buffer held.
\<close>

theorem filtered_partial_amsdu_hangs:
  assumes "tid_rx s tid = Some t" and "tid < 16" and "buf_size t = 2" and "reorder_buf t = [[], [f]]"
    and "frm_flag f AND RX_FLAG_AMSDU_MORE \<noteq> 0" and "stored_mpdu_num t = 0" and "head_seq_num t = 1"
    and "reorder_buf_filtered t = 0" and "unat received_mpdus < 2048"
  shows "ieee80211_mark_rx_ba_filtered_frames hz jiffies (Some s) tid 1 1 received_mpdus = Inl Hangs"
proof -
  let ?t1 = "t\<lparr>reorder_buf_filtered := 2\<rparr>"
  let ?t2 = "t\<lparr>reorder_buf_filtered := 0, reorder_buf := [[], []], stored_mpdu_num := - 1, head_seq_num := 2\<rparr>"
  have "[0..<2] = [0, 1 :: nat]" by (simp add: upt_rec)
  then have m: "mark_filtered 1 1 [0..<2] t = Inr ?t1"
    using assms(3,8) by (simp add: BIT_ULL_def)
  have r1: "ieee80211_rx_reorder_ready ?t1 1 = Inr True" "ring_index ?t1 (head_seq_num ?t1) = Inr 1"
    using assms(3,4,7) by (simp_all add: ieee80211_rx_reorder_ready_def BIT_ULL_def ring_index_def)
  have rel: "ieee80211_release_reorder_frame ?t1 1 [] = Inr (?t2, map deferred [f])"
    using r1(1) assms(4,6,7) by (simp add: ieee80211_release_reorder_frame_def BIT_ULL_def ieee80211_sn_inc_def ieee80211_sn_add_def)
  have r2: "\<forall>j<2. ieee80211_rx_reorder_ready ?t2 j = Inr False"
    by (auto simp: ieee80211_rx_reorder_ready_def BIT_ULL_def less_2_cases_iff)
  have i2: "ring_index ?t2 (head_seq_num ?t2) = Inr 0" using assms(3) by (simp add: ring_index_def)
  have w: "release_while_ready ?t1 [] = Inr (?t2, map deferred [f])"
    using r1 r2 rel i2 by (simp add: release_while_ready.simps [of ?t1] release_while_ready.simps [of ?t2])
  have "(int 0 - 1) smod int 2 = - 1" by (simp add: smod_int_alt_def)
  then have "update_release_timer tmo ?t2 = Inl Hangs" for tmo
    using timer_scan_diverges [OF r2, of 0] i2 assms(3) by (simp add: update_release_timer_def)
  then have "ieee80211_sta_reorder_release hz jiffies ?t1 [] = Inl Hangs"
    using r1 w by (simp add: ieee80211_sta_reorder_release_def)
  moreover have "ieee80211_release_reorder_frames t 1 [] = Inr (t, [])"
    using assms(7) by (simp add: ieee80211_release_reorder_frames.simps [of t] ieee80211_sn_less_def)
  ultimately show ?thesis
    using assms(1-3,7,9) m by (simp add: ieee80211_mark_rx_ba_filtered_frames_def)
qed

definition sample_partial :: tid_ampdu_rx where
  "sample_partial = (new_session (\<lambda>_. 0) 0 0 1 0 2 False)\<lparr>ra_started := True,
     reorder_buf := [[], [(sample_ba_frame 0x10 0)\<lparr>frm_flag := RX_FLAG_AMSDU_MORE\<rparr>]]\<rparr>"

theorem filtered_partial_amsdu_hangs_witness:
  "ieee80211_mark_rx_ba_filtered_frames 250 40 (Some (sample_mlme sample_partial)) 0 1 1 1 = Inl Hangs"
  by (rule filtered_partial_amsdu_hangs [where t = sample_partial and
        f = "(sample_ba_frame 0x10 0)\<lparr>frm_flag := RX_FLAG_AMSDU_MORE\<rparr>"])
    (simp_all add: sample_mlme_def sample_partial_def new_session_def)

end
