(* ===== verification/Power_Save.thy ===== *)
theory Power_Save
  imports Tx Rx "HOL-Library.Signed_Division"
begin

text \<open>
  Power save at the access point: the traffic indication map, buffering of frames for sleeping stations (\<^verbatim>\<open>net/mac80211/tx.c\<close>), and their delivery
  when the station wakes, polls or triggers a service period, or their expiry (\<^verbatim>\<open>net/mac80211/sta_info.c\<close>, \<^verbatim>\<open>net/mac80211/rx.c\<close>). As in the
  project's configuration there is no mesh.
\<close>

section \<open>Definitions\<close>

abbreviation (input) IEEE80211_NUM_ACS :: nat where "IEEE80211_NUM_ACS \<equiv> 4"

abbreviation (input) WLAN_STA_AUTH :: nat where "WLAN_STA_AUTH \<equiv> 0"
abbreviation (input) WLAN_STA_ASSOC :: nat where "WLAN_STA_ASSOC \<equiv> 1"
abbreviation (input) WLAN_STA_PS_STA :: nat where "WLAN_STA_PS_STA \<equiv> 2"
abbreviation (input) WLAN_STA_AUTHORIZED :: nat where "WLAN_STA_AUTHORIZED \<equiv> 3"
abbreviation (input) WLAN_STA_BLOCK_BA :: nat where "WLAN_STA_BLOCK_BA \<equiv> 8"
abbreviation (input) WLAN_STA_PS_DRIVER :: nat where "WLAN_STA_PS_DRIVER \<equiv> 9"
abbreviation (input) WLAN_STA_PSPOLL :: nat where "WLAN_STA_PSPOLL \<equiv> 10"
abbreviation (input) WLAN_STA_UAPSD :: nat where "WLAN_STA_UAPSD \<equiv> 17"
abbreviation (input) WLAN_STA_SP :: nat where "WLAN_STA_SP \<equiv> 18"
abbreviation (input) WLAN_STA_INSERTED :: nat where "WLAN_STA_INSERTED \<equiv> 20"
abbreviation (input) WLAN_STA_PS_DELIVER :: nat where "WLAN_STA_PS_DELIVER \<equiv> 25"

abbreviation (input) IEEE80211_TX_UNICAST :: u32 where "IEEE80211_TX_UNICAST \<equiv> 0x2"
abbreviation (input) IEEE80211_TX_PS_BUFFERED :: u32 where "IEEE80211_TX_PS_BUFFERED \<equiv> 0x4"
abbreviation (input) IEEE80211_TX_CTL_SEND_AFTER_DTIM :: u32 where "IEEE80211_TX_CTL_SEND_AFTER_DTIM \<equiv> 0x20"
abbreviation (input) IEEE80211_TX_CTL_INJECTED :: u32 where "IEEE80211_TX_CTL_INJECTED \<equiv> 0x80"
abbreviation (input) IEEE80211_TX_INTFL_NEED_TXPROCESSING :: u32 where "IEEE80211_TX_INTFL_NEED_TXPROCESSING \<equiv> 0x4000"
abbreviation (input) IEEE80211_TX_CTL_NO_PS_BUFFER :: u32 where "IEEE80211_TX_CTL_NO_PS_BUFFER \<equiv> 0x20000"
abbreviation (input) IEEE80211_TX_STATUS_EOSP :: u32 where "IEEE80211_TX_STATUS_EOSP \<equiv> 0x10000000"
abbreviation (input) IEEE80211_TX_CTL_REQ_TX_STATUS :: u32 where "IEEE80211_TX_CTL_REQ_TX_STATUS \<equiv> 0x1"
abbreviation (input) IEEE80211_TX_TEMPORARY_FLAGS :: u32 where "IEEE80211_TX_TEMPORARY_FLAGS \<equiv> 0x11C61F7C"
abbreviation (input) IEEE80211_TX_CTRL_PS_RESPONSE :: u32 where "IEEE80211_TX_CTRL_PS_RESPONSE \<equiv> 0x2"
abbreviation (input) IEEE80211_FCTL_MOREDATA :: u16 where "IEEE80211_FCTL_MOREDATA \<equiv> 0x2000"
abbreviation (input) IEEE80211_QOS_CTL_EOSP :: u8 where "IEEE80211_QOS_CTL_EOSP \<equiv> 0x10"

abbreviation (input) AP_MAX_BC_BUFFER :: nat where "AP_MAX_BC_BUFFER \<equiv> 128"
abbreviation (input) TOTAL_MAX_TX_BUFFER :: int where "TOTAL_MAX_TX_BUFFER \<equiv> 512"
abbreviation (input) STA_MAX_TX_BUFFER :: nat where "STA_MAX_TX_BUFFER \<equiv> 64"

definition test_sta_flag :: "nat \<Rightarrow> sta_info \<Rightarrow> bool" where
  "test_sta_flag flag s = bit (sta_flags s) flag"

definition set_sta_flag :: "nat \<Rightarrow> sta_info \<Rightarrow> sta_info" where
  "set_sta_flag flag s = s\<lparr>sta_flags := set_bit flag (sta_flags s)\<rparr>"

definition clear_sta_flag :: "nat \<Rightarrow> sta_info \<Rightarrow> sta_info" where
  "clear_sta_flag flag s = s\<lparr>sta_flags := unset_bit flag (sta_flags s)\<rparr>"

text \<open>
  What the functions take from the hardware, the driver and the clock: hardware flags, whether there is a \<open>set_tim\<close> callback, the time,
  the state of the intermediate queues (\<open>None\<close> without one), the queue for frames after the beacon, the outcome of an allocation with
  the extra headroom, whether the station has to be told of a new spatial multiplexing mode, whether HE is disabled for a station interface, and whether the
  expiry timer is pending. What they do to the outside is a list of effects.
\<close>

datatype ieee80211_frame_release_type = IEEE80211_FRAME_RELEASE_PSPOLL | IEEE80211_FRAME_RELEASE_UAPSD

record ps_env =
  ap_link_ps :: bool
  has_set_tim :: bool
  queue_control :: bool
  cab_queue :: nat
  host_broadcast_ps_buffering :: bool
  ps_jiffies :: u64
  ps_hz :: nat
  txq_has_queue :: "sta_ptr \<Rightarrow> nat \<Rightarrow> bool option"
  null_alloc :: "(u8 list \<times> u8 list) option"
  smps_update :: "sta_ptr \<Rightarrow> bool"
  sta_disable_he :: bool
  cleanup_pending :: bool

datatype effect =
    Notify_Sleep sta_ptr
  | Notify_Awake sta_ptr
  | Set_Tim sta_ptr bool
  | Wake_Txq sta_ptr nat
  | Add_Pending "sk_buff list"
  | Free_Skb sk_buff
  | Allow_Buffered sta_ptr u16 nat ieee80211_frame_release_type bool
  | Release_Buffered sta_ptr u64 nat ieee80211_frame_release_type bool
  | Xmit sk_buff
  | Send_Smps_Action sta_ptr
  | Queue_Deliver_Work sta_ptr
  | Arm_Cleanup
  | Clear_Fast_Xmit sta_ptr
  | Check_Fast_Xmit sta_ptr
  | Unschedule_Txq sta_ptr nat
  | Hw_Set_Key key_ptr
  | Hw_Disable_Key key_ptr
  | Hw_Default_Unicast sdata_ptr int
  | Stop_Tx_BA sta_ptr nat
  | Tear_Down_BA sta_ptr
  | Flush_Queues sdata_ptr
  | Schedule_Tailroom_Dec sdata_ptr
  | Check_Fast_Rx sta_ptr
  | Check_Fast_Xmit_Iface sdata_ptr

type_synonym ps_result = "(effect list \<times> world) result"

definition then_ps :: "ps_result \<Rightarrow> (world \<Rightarrow> ps_result) \<Rightarrow> ps_result" where
  "then_ps r f = rbind r (\<lambda>(e, w). rbind (f w) (\<lambda>(e', w). Inr (e @ e', w)))"

subsection \<open>The traffic indication map\<close>

definition bss_tim_get :: "u8 list \<Rightarrow> nat \<Rightarrow> bool result" where
  "bss_tim_get tim aid = rbind (arr_get tim (aid div 8)) (\<lambda>b. Inr (bit b (aid mod 8)))"

definition bss_tim_set :: "u8 list \<Rightarrow> nat \<Rightarrow> u8 list result" where
  "bss_tim_set tim aid = rbind (arr_get tim (aid div 8)) (\<lambda>b. Inr (tim[aid div 8 := b OR push_bit (aid mod 8) 1]))"

definition bss_tim_clear :: "u8 list \<Rightarrow> nat \<Rightarrow> u8 list result" where
  "bss_tim_clear tim aid = rbind (arr_get tim (aid div 8)) (\<lambda>b. Inr (tim[aid div 8 := b AND NOT (push_bit (aid mod 8) 1)]))"

definition ieee80211_tids_for_ac :: "nat \<Rightarrow> u64" where
  "ieee80211_tids_for_ac ac =
     (if ac = 0 then 0xC0 else if ac = 1 then 0x30 else if ac = 2 then 0x09 else if ac = 3 then 0x06 else 0)"

definition ieee80211_ac_to_qos_mask :: "nat \<Rightarrow> u8" where
  "ieee80211_ac_to_qos_mask ac = [1, 2, 8, 4] ! ac"

definition ieee802_1d_to_ac :: "nat list" where
  "ieee802_1d_to_ac = [2, 3, 3, 2, 1, 1, 0, 0]"

definition ieee80211_ac_from_tid :: "u8 \<Rightarrow> nat" where
  "ieee80211_ac_from_tid tid = ieee802_1d_to_ac ! unat (tid AND 7)"

text \<open>The loop over the access categories that finds out whether anything is buffered.\<close>

fun indicate_tim :: "sta_ps_data \<Rightarrow> u8 \<Rightarrow> nat list \<Rightarrow> bool" where
  "indicate_tim s ignore_for_tim [] = False"
| "indicate_tim s ignore_for_tim (ac # acs) =
     (if ignore_for_tim AND ieee80211_ac_to_qos_mask ac \<noteq> 0 then indicate_tim s ignore_for_tim acs
      else tx_filtered s ac \<noteq> [] \<or> ps_tx_buf s ac \<noteq> [] \<or>
           driver_buffered_tids s AND ieee80211_tids_for_ac ac \<noteq> 0 \<or>
           txq_buffered_tids s AND ieee80211_tids_for_ac ac \<noteq> 0 \<or> indicate_tim s ignore_for_tim acs)"

text \<open>\<^verbatim>\<open>__sta_info_recalc_tim\<close>\<close>

definition sta_info_recalc_tim_gen :: "ps_env \<Rightarrow> sta_ptr \<Rightarrow> bool \<Rightarrow> world \<Rightarrow> ps_result" where
  "sta_info_recalc_tim_gen E p ignore_pending w =
     rbind (deref (stas w) p) (\<lambda>s.
     rbind (deref (sdatas w) (sta_sdata s)) (\<lambda>sd.
     if vif_type sd \<noteq> NL80211_IFTYPE_AP \<and> vif_type sd \<noteq> NL80211_IFTYPE_AP_VLAN then Inr ([], w)
     else
       case sdata_bss sd of
         None \<Rightarrow> Inr ([], w)
       | Some bp \<Rightarrow>
           rbind (deref (sdatas w) bp) (\<lambda>bss.
           if ap_link_ps E \<and> \<not> has_set_tim E then Inr ([], w)
           else
             let ignore = uapsd_queues (sta_ps s);
                 ignore = (if ignore = 0x0F then 0 else ignore);
                 ignore = (if ignore_pending then 0x0F else ignore);
                 indicate = (\<not> sta_dead s \<and> indicate_tim (sta_ps s) ignore [0..<IEEE80211_NUM_ACS]);
                 ps = sdata_ps bss;
                 aid = unat (sta_aid (sta_ps s))
             in
             rbind (bss_tim_get (ps_tim ps) aid) (\<lambda>old.
             if indicate = old then Inr ([], w)
             else
               rbind (if indicate then bss_tim_set (ps_tim ps) aid else bss_tim_clear (ps_tim ps) aid) (\<lambda>tim.
               Inr (if has_set_tim E \<and> \<not> sta_dead s then [Set_Tim p indicate] else [],
                    put_sdata bp (bss\<lparr>sdata_ps := ps\<lparr>ps_tim := tim\<rparr>\<rparr>) w))))))"

definition sta_info_recalc_tim :: "ps_env \<Rightarrow> sta_ptr \<Rightarrow> world \<Rightarrow> ps_result" where
  "sta_info_recalc_tim E p = sta_info_recalc_tim_gen E p False"

definition ieee80211_sta_set_buffered :: "ps_env \<Rightarrow> sta_ptr \<Rightarrow> nat \<Rightarrow> bool \<Rightarrow> world \<Rightarrow> ps_result" where
  "ieee80211_sta_set_buffered E p tid buffered w =
     (if IEEE80211_NUM_TIDS \<le> tid then Inr ([], w)
      else
        rbind (deref (stas w) p) (\<lambda>s.
        let tids = driver_buffered_tids (sta_ps s);
            tids = (if buffered then set_bit tid tids else unset_bit tid tids)
        in sta_info_recalc_tim E p (put_sta p (s\<lparr>sta_ps := (sta_ps s)\<lparr>driver_buffered_tids := tids\<rparr>\<rparr>) w)))"

subsection \<open>Buffering\<close>

text \<open>\<open>offchannel_scan\<close>: a software scan is running and the interface is off its channel.\<close>

definition ieee80211_tx_h_check_assoc :: "bool \<Rightarrow> ieee80211_tx_data \<Rightarrow> world \<Rightarrow> ieee80211_tx_result result" where
  "ieee80211_tx_h_check_assoc offchannel_scan tx w =
     rbind (tx_skb_of tx) (\<lambda>skb.
     if info_flags skb AND IEEE80211_TX_CTL_INJECTED \<noteq> 0 then Inr TX_CONTINUE
     else
     rbind (hdr_fc (skb_data skb)) (\<lambda>fc.
     if offchannel_scan \<and> \<not> ieee80211_is_probe_req fc \<and> \<not> ieee80211_is_any_nullfunc fc then Inr TX_DROP
     else
       rbind (case tx_sdata tx of None \<Rightarrow> Inl NullDeref | Some sp \<Rightarrow> deref (sdatas w) sp) (\<lambda>sd.
       if vif_type sd = NL80211_IFTYPE_OCB \<or> vif_type sd = NL80211_IFTYPE_WDS then Inr TX_CONTINUE
       else if tx_flags tx AND IEEE80211_TX_PS_BUFFERED \<noteq> 0 then Inr TX_CONTINUE
       else
         rbind (case tx_sta tx of None \<Rightarrow> Inr False
                | Some p \<Rightarrow> rbind (deref (stas w) p) (\<lambda>s. Inr (test_sta_flag WLAN_STA_ASSOC s))) (\<lambda>assoc.
         if tx_flags tx AND IEEE80211_TX_UNICAST \<noteq> 0
         then (if \<not> assoc \<and> ieee80211_is_data fc then Inr TX_DROP else Inr TX_CONTINUE)
         else if ieee80211_is_data fc \<and> ieee80211_vif_get_num_mcast_if sd = 0 then Inr TX_DROP
         else Inr TX_CONTINUE))))"

text \<open>
  \<open>purge_old_ps_buffers\<close>: the oldest frame of every interface's multicast buffer and of the lowest-priority buffer in use of every station. The
  results are the sum that \<open>total\<close> adds up, the frames freed and the rest.
\<close>

fun purge_bc_bufs :: "sdata_ptr list \<Rightarrow> world \<Rightarrow> (int \<times> sk_buff list \<times> world) result" where
  "purge_bc_bufs [] w = Inr (0, [], w)"
| "purge_bc_bufs (sp # sps) w =
     rbind (deref (sdatas w) sp) (\<lambda>sd.
     if vif_type sd \<noteq> NL80211_IFTYPE_AP then purge_bc_bufs sps w
     else
       let buf = bc_buf (sdata_ps sd) in
       rbind (purge_bc_bufs sps (put_sdata sp (sd\<lparr>sdata_ps := (sdata_ps sd)\<lparr>bc_buf := tl buf\<rparr>\<rparr>) w))
         (\<lambda>(total, freed, w). Inr (int (length (tl buf)) + total, take 1 buf @ freed, w)))"

fun purge_sta_acs :: "nat list \<Rightarrow> (nat \<Rightarrow> sk_buff list) \<Rightarrow> int \<times> sk_buff list \<times> (nat \<Rightarrow> sk_buff list)" where
  "purge_sta_acs [] bufs = (0, [], bufs)"
| "purge_sta_acs (ac # acs) bufs =
     (case bufs ac of
        [] \<Rightarrow> purge_sta_acs acs bufs
      | skb # rest \<Rightarrow> (int (length rest), [skb], bufs(ac := rest)))"

fun purge_sta_bufs :: "sta_ptr list \<Rightarrow> world \<Rightarrow> (int \<times> sk_buff list \<times> world) result" where
  "purge_sta_bufs [] w = Inr (0, [], w)"
| "purge_sta_bufs (p # ps) w =
     rbind (deref (stas w) p) (\<lambda>s.
     let (n, freed, bufs) = purge_sta_acs [3, 2, 1, 0] (ps_tx_buf (sta_ps s)) in
     rbind (purge_sta_bufs ps (put_sta p (s\<lparr>sta_ps := (sta_ps s)\<lparr>ps_tx_buf := bufs\<rparr>\<rparr>) w))
       (\<lambda>(total, freed', w). Inr (n + total, freed @ freed', w)))"

definition purge_old_ps_buffers :: "world \<Rightarrow> ps_result" where
  "purge_old_ps_buffers w =
     rbind (purge_bc_bufs (interfaces w) w) (\<lambda>(t1, f1, w).
     rbind (purge_sta_bufs (sta_list w) w) (\<lambda>(t2, f2, w).
     Inr (map Free_Skb (f1 @ f2), w\<lparr>total_ps_buffered := t1 + t2\<rparr>)))"

definition purge_if_full :: "world \<Rightarrow> ps_result" where
  "purge_if_full w = (if TOTAL_MAX_TX_BUFFER \<le> total_ps_buffered w then purge_old_ps_buffers w else Inr ([], w))"

text \<open>A buffer with a limit: the oldest frame makes room, otherwise the total grows.\<close>

definition buffer_frame :: "nat \<Rightarrow> sk_buff list \<Rightarrow> sk_buff \<Rightarrow> effect list \<times> sk_buff list \<times> int" where
  "buffer_frame limit buf skb =
     (if limit \<le> length buf then (map Free_Skb (take 1 buf), tl buf @ [skb], 0) else ([], buf @ [skb], 1))"

definition buffer_multicast :: "sdata_ptr \<Rightarrow> sk_buff \<Rightarrow> world \<Rightarrow> ps_result" where
  "buffer_multicast bp skb w =
     rbind (purge_if_full w) (\<lambda>(e, w).
     rbind (deref (sdatas w) bp) (\<lambda>bss.
     let (e', buf, n) = buffer_frame AP_MAX_BC_BUFFER (bc_buf (sdata_ps bss)) skb in
     Inr (e @ e', put_sdata bp (bss\<lparr>sdata_ps := (sdata_ps bss)\<lparr>bc_buf := buf\<rparr>\<rparr>)
                    (w\<lparr>total_ps_buffered := total_ps_buffered w + n\<rparr>))))"

definition ieee80211_tx_h_multicast_ps_buf ::
  "ps_env \<Rightarrow> ieee80211_tx_data \<Rightarrow> world \<Rightarrow> (ieee80211_tx_result \<times> ieee80211_tx_data \<times> effect list \<times> world) result" where
  "ieee80211_tx_h_multicast_ps_buf E tx w =
     rbind (tx_skb_of tx) (\<lambda>skb.
     rbind (case tx_sdata tx of None \<Rightarrow> Inl NullDeref | Some sp \<Rightarrow> deref (sdatas w) sp) (\<lambda>sd.
     if vif_type sd \<noteq> NL80211_IFTYPE_AP \<and> vif_type sd \<noteq> NL80211_IFTYPE_AP_VLAN then Inr (TX_CONTINUE, tx, [], w)
     else
       case sdata_bss sd of
         None \<Rightarrow> Inr (TX_CONTINUE, tx, [], w)
       | Some bp \<Rightarrow>
           rbind (hdr_fc (skb_data skb)) (\<lambda>fc.
           if ieee80211_has_order fc \<or> ieee80211_is_probe_req fc then Inr (TX_CONTINUE, tx, [], w)
           else
             let skb = (if queue_control E then skb\<lparr>info_hw_queue := cab_queue E\<rparr> else skb) in
             rbind (deref (sdatas w) bp) (\<lambda>bss.
             if num_sta_ps (sdata_ps bss) = 0 \<and> bc_buf (sdata_ps bss) = [] then Inr (TX_CONTINUE, tx\<lparr>tx_skb := Some skb\<rparr>, [], w)
             else
               let skb = skb\<lparr>info_flags := info_flags skb OR IEEE80211_TX_CTL_SEND_AFTER_DTIM\<rparr> in
               if \<not> host_broadcast_ps_buffering E then Inr (TX_CONTINUE, tx\<lparr>tx_skb := Some skb\<rparr>, [], w)
               else
                 rbind (buffer_multicast bp skb w) (\<lambda>(e, w). Inr (TX_QUEUED, tx\<lparr>tx_skb := Some skb\<rparr>, e, w))))))"

text \<open>The station is asleep, blocked by the driver, or its frames are just being delivered.\<close>

definition sta_ps_blocked :: "sta_info \<Rightarrow> bool" where
  "sta_ps_blocked s \<longleftrightarrow>
     test_sta_flag WLAN_STA_PS_STA s \<or> test_sta_flag WLAN_STA_PS_DRIVER s \<or> test_sta_flag WLAN_STA_PS_DELIVER s"

definition ieee80211_tx_h_unicast_ps_buf ::
  "ps_env \<Rightarrow> ieee80211_tx_data \<Rightarrow> world \<Rightarrow> (ieee80211_tx_result \<times> ieee80211_tx_data \<times> effect list \<times> world) result" where
  "ieee80211_tx_h_unicast_ps_buf E tx w =
     rbind (tx_skb_of tx) (\<lambda>skb.
     case tx_sta tx of
       None \<Rightarrow> Inr (TX_CONTINUE, tx, [], w)
     | Some p \<Rightarrow>
         rbind (deref (stas w) p) (\<lambda>s.
         if \<not> sta_ps_blocked s \<or> info_flags skb AND IEEE80211_TX_CTL_NO_PS_BUFFER \<noteq> 0 then Inr (TX_CONTINUE, tx, [], w)
         else
           rbind (hdr_fc (skb_data skb)) (\<lambda>fc.
           if ieee80211_is_mgmt fc \<and> \<not> ieee80211_is_bufferable_mmpdu fc
           then Inr (TX_CONTINUE, tx\<lparr>tx_skb := Some (skb\<lparr>info_flags := info_flags skb OR IEEE80211_TX_CTL_NO_PS_BUFFER\<rparr>)\<rparr>, [], w)
           else
             rbind (purge_if_full w) (\<lambda>(e, w).
             rbind (deref (stas w) p) (\<lambda>s.
             let ac = skb_queue_mapping skb in
             if \<not> sta_ps_blocked s then Inr (TX_CONTINUE, tx, e, w)
             else if IEEE80211_NUM_ACS \<le> ac then Inl OutOfBounds
             else
               let skb = skb\<lparr>info_jiffies := ps_jiffies E, info_vif := tx_sdata tx,
                             info_flags := (info_flags skb OR IEEE80211_TX_INTFL_NEED_TXPROCESSING) AND NOT IEEE80211_TX_TEMPORARY_FLAGS\<rparr>;
                   (e', buf, n) = buffer_frame STA_MAX_TX_BUFFER (ps_tx_buf (sta_ps s) ac) skb
               in
               rbind (sta_info_recalc_tim E p
                        (put_sta p (s\<lparr>sta_ps := (sta_ps s)\<lparr>ps_tx_buf := (ps_tx_buf (sta_ps s))(ac := buf)\<rparr>\<rparr>)
                          (w\<lparr>total_ps_buffered := total_ps_buffered w + n\<rparr>))) (\<lambda>(e'', w).
               Inr (TX_QUEUED, tx\<lparr>tx_skb := Some skb\<rparr>, e @ e' @ (if cleanup_pending E then [] else [Arm_Cleanup]) @ e'', w)))))))"

definition ieee80211_tx_h_ps_buf ::
  "ps_env \<Rightarrow> ieee80211_tx_data \<Rightarrow> world \<Rightarrow> (ieee80211_tx_result \<times> ieee80211_tx_data \<times> effect list \<times> world) result" where
  "ieee80211_tx_h_ps_buf E tx w =
     (if tx_flags tx AND IEEE80211_TX_PS_BUFFERED \<noteq> 0 then Inr (TX_CONTINUE, tx, [], w)
      else if tx_flags tx AND IEEE80211_TX_UNICAST \<noteq> 0 then ieee80211_tx_h_unicast_ps_buf E tx w
      else ieee80211_tx_h_multicast_ps_buf E tx w)"

subsection \<open>Delivery\<close>

text \<open>The interface whose \<open>ps_data\<close> counts for a station on the interface \<open>sd\<close>, \<open>None\<close> if there is no power save there. The
  \<open>bss\<close> of an access point's interface is its own, so that the detour of a VLAN over it ends there too.\<close>

definition ps_bss :: "ieee80211_sub_if_data \<Rightarrow> sdata_ptr option result" where
  "ps_bss sd =
     (if vif_type sd = NL80211_IFTYPE_AP \<or> vif_type sd = NL80211_IFTYPE_AP_VLAN
      then (case sdata_bss sd of None \<Rightarrow> Inl NullDeref | Some bp \<Rightarrow> Inr (Some bp))
      else Inr None)"

definition add_num_sta_ps :: "int \<Rightarrow> sdata_ptr \<Rightarrow> world \<Rightarrow> world result" where
  "add_num_sta_ps n bp w =
     rbind (deref (sdatas w) bp) (\<lambda>bss.
     Inr (put_sdata bp (bss\<lparr>sdata_ps := (sdata_ps bss)\<lparr>num_sta_ps := num_sta_ps (sdata_ps bss) + n\<rparr>\<rparr>) w))"

definition ieee80211_sta_ps_deliver_wakeup :: "ps_env \<Rightarrow> sta_ptr \<Rightarrow> world \<Rightarrow> ps_result" where
  "ieee80211_sta_ps_deliver_wakeup E p w =
     rbind (deref (stas w) p) (\<lambda>s.
     rbind (deref (sdatas w) (sta_sdata s)) (\<lambda>sd.
     rbind (ps_bss sd) (\<lambda>bp.
     case bp of
       None \<Rightarrow> Inr ([], w)
     | Some bp \<Rightarrow>
         let ps = sta_ps s;
             pending = concat (map (\<lambda>ac. tx_filtered ps ac @ ps_tx_buf ps ac) [0..<IEEE80211_NUM_ACS]);
             buffered = sum_list (map (\<lambda>ac. int (length (ps_tx_buf ps ac))) [0..<IEEE80211_NUM_ACS]);
             s = s\<lparr>sta_ps := ps\<lparr>driver_buffered_tids := 0, txq_buffered_tids := 0, tx_filtered := (\<lambda>_. []), ps_tx_buf := (\<lambda>_. [])\<rparr>\<rparr>;
             s = clear_sta_flag WLAN_STA_UAPSD (clear_sta_flag WLAN_STA_PSPOLL (clear_sta_flag WLAN_STA_PS_DELIVER
                   (clear_sta_flag WLAN_STA_SP s)));
             e = (if ap_link_ps E then [] else [Notify_Awake p]) @
                 map (Wake_Txq p) (filter (\<lambda>i. txq_has_queue E p i = Some True) [0..<IEEE80211_NUM_TIDS + 1]) @
                 [Add_Pending pending]
         in
         rbind (add_num_sta_ps (- 1) bp (put_sta p s w)) (\<lambda>w.
         then_ps (Inr (e @ (if smps_update E p then [Send_Smps_Action p] else []),
                       w\<lparr>total_ps_buffered := total_ps_buffered w - buffered\<rparr>))
           (\<lambda>w. then_ps (sta_info_recalc_tim E p w) (\<lambda>w. Inr ([Check_Fast_Xmit p], w)))))))"

definition le16_hdr24 :: "u16 \<Rightarrow> mac \<Rightarrow> mac \<Rightarrow> mac \<Rightarrow> u8 list" where
  "le16_hdr24 fc a1 a2 a3 = le16_bytes fc @ le16_bytes 0 @ mac_bytes a1 @ mac_bytes a2 @ mac_bytes a3 @ le16_bytes 0"

definition ieee80211_send_null_response ::
  "ps_env \<Rightarrow> sta_ptr \<Rightarrow> int \<Rightarrow> ieee80211_frame_release_type \<Rightarrow> bool \<Rightarrow> bool \<Rightarrow> world \<Rightarrow> ps_result" where
  "ieee80211_send_null_response E p tid reason call_driver more_data w =
     rbind (deref (stas w) p) (\<lambda>s.
     rbind (deref (sdatas w) (sta_sdata s)) (\<lambda>sd.
     if vif_type sd = NL80211_IFTYPE_STATION \<and> \<not> sta_disable_he E then Inr ([], w)
     else
       case null_alloc E of
         None \<Rightarrow> Inr ([], w)
       | Some (head, mem) \<Rightarrow>
           let qos = sta_wme s;
               eosp = (qos \<and> reason = IEEE80211_FRAME_RELEASE_UAPSD);
               fc = (if qos then 0x0008 OR 0x00C0 OR 0x0200 else 0x0008 OR 0x0040 OR 0x0200)
                      OR (if eosp \<and> more_data then IEEE80211_FCTL_MOREDATA else 0);
               qos_ctrl = (of_int tid :: u16) OR (if eosp then 0x0010 else 0);
               bytes = le16_hdr24 fc (sta_addr s) (vif_addr sd) (vif_addr sd) @ (if qos then le16_bytes qos_ctrl else [])
           in
           rbind (buf_write mem 0 bytes) (\<lambda>data.
           rbind (if tid < 0 then Inl OutOfBounds else arr_get ieee802_1d_to_ac (nat tid)) (\<lambda>ac.
           let skb = \<lparr>skb_head = head, skb_data = data, skb_len = length bytes, skb_protocol = 0,
                      info_flags = IEEE80211_TX_CTL_NO_PS_BUFFER OR IEEE80211_TX_STATUS_EOSP OR IEEE80211_TX_CTL_REQ_TX_STATUS,
                      info_control_flags = IEEE80211_TX_CTRL_PS_RESPONSE, info_hw_key = None, info_vif = None,
                      info_hw_queue = 0, info_rates_idx = [0, 0, 0, 0], info_jiffies = 0, skb_queue_mapping = ac, skb_priority = nat tid\<rparr>;
               e = (if call_driver then [Allow_Buffered p (of_nat (2 ^ nat tid)) 1 reason False] else [])
           in Inr (e @ (if has_chanctx sd then [Xmit skb] else [Free_Skb skb]), w)))))"

text \<open>\<^verbatim>\<open>fls\<close>: the position of the highest bit set, counted from one.\<close>

definition fls :: "u32 \<Rightarrow> int" where
  "fls x = (case filter (bit x) (rev [0..<32]) of [] \<Rightarrow> 0 | i # _ \<Rightarrow> int i + 1)"

definition find_highest_prio_tid :: "u64 \<Rightarrow> int" where
  "find_highest_prio_tid tids =
     (if tids AND 0xF8 \<noteq> 0 then fls (ucast tids) - 1 else if tids AND 1 \<noteq> 0 then 0 else fls (ucast tids) - 1)"

definition ac_frames :: "sta_ps_data \<Rightarrow> nat \<Rightarrow> bool" where
  "ac_frames s ac \<longleftrightarrow> tx_filtered s ac \<noteq> [] \<or> ps_tx_buf s ac \<noteq> []"

definition ieee80211_sta_ps_more_data :: "sta_ps_data \<Rightarrow> u8 \<Rightarrow> ieee80211_frame_release_type \<Rightarrow> u64 \<Rightarrow> bool" where
  "ieee80211_sta_ps_more_data s ignored_acs reason driver_release_tids \<longleftrightarrow>
     reason = IEEE80211_FRAME_RELEASE_PSPOLL \<and> 1 < length (filter (bit (ucast driver_release_tids :: u16)) [0..<16]) \<or>
     (\<exists>ac\<in>set [0..<IEEE80211_NUM_ACS]. ignored_acs AND ieee80211_ac_to_qos_mask ac = 0 \<and> ac_frames s ac)"

text \<open>
  The inner loop takes frames from the filtered queue first and then from the buffer, whose frames count in the total: the frames, what is left of both queues,
  the number still wanted, and how many the total loses.
\<close>

fun release_frames :: "nat \<Rightarrow> sk_buff list \<Rightarrow> sk_buff list \<Rightarrow> sk_buff list \<times> sk_buff list \<times> sk_buff list \<times> nat \<times> int" where
  "release_frames 0 filtered buf = ([], filtered, buf, 0, 0)"
| "release_frames (Suc n) (skb # filtered) buf =
     (let (frames, f, b, k, d) = release_frames n filtered buf in (skb # frames, f, b, k, d))"
| "release_frames (Suc n) [] (skb # buf) =
     (let (frames, f, b, k, d) = release_frames n [] buf in (skb # frames, f, b, k, d + 1))"
| "release_frames (Suc n) [] [] = ([], [], [], Suc n, 0)"

text \<open>One round of the loop over the access categories, for a category that is not ignored.\<close>

definition get_frames_ac ::
  "nat \<Rightarrow> nat \<Rightarrow> sk_buff list \<Rightarrow> u64 \<Rightarrow> sta_ps_data \<Rightarrow> nat \<times> sk_buff list \<times> u64 \<times> sta_ps_data \<times> int" where
  "get_frames_ac ac n_frames frames tids s =
     (let t = ieee80211_tids_for_ac ac;
          tids = (if frames = [] then tids OR (driver_buffered_tids s AND t) OR (txq_buffered_tids s AND t) else tids);
          (new, filtered, buf, n_frames, d) =
            (if tids = 0 then release_frames n_frames (tx_filtered s ac) (ps_tx_buf s ac)
             else ([], tx_filtered s ac, ps_tx_buf s ac, n_frames, 0))
      in (n_frames, frames @ new, tids,
          s\<lparr>tx_filtered := (tx_filtered s)(ac := filtered), ps_tx_buf := (ps_tx_buf s)(ac := buf)\<rparr>, d))"

fun ieee80211_sta_ps_get_frames ::
  "u8 \<Rightarrow> nat list \<Rightarrow> nat \<Rightarrow> sk_buff list \<Rightarrow> u64 \<Rightarrow> sta_ps_data \<Rightarrow> int \<Rightarrow> sk_buff list \<times> u64 \<times> sta_ps_data \<times> int" where
  "ieee80211_sta_ps_get_frames ignored_acs [] n_frames frames tids s tot = (frames, tids, s, tot)"
| "ieee80211_sta_ps_get_frames ignored_acs (ac # acs) n_frames frames tids s tot =
     (if ignored_acs AND ieee80211_ac_to_qos_mask ac \<noteq> 0
      then ieee80211_sta_ps_get_frames ignored_acs acs n_frames frames tids s tot
      else
        let (n_frames, frames, tids, s, d) = get_frames_ac ac n_frames frames tids s in
        if ac_frames s ac then (frames, tids, s, tot - d)
        else ieee80211_sta_ps_get_frames ignored_acs acs n_frames frames tids s (tot - d))"

text \<open>
  The loop over the frames to send: the frames as they are queued, their traffic identifiers, their number and whether a null frame has to end the service
  period.
\<close>

fun mark_released ::
  "ieee80211_frame_release_type \<Rightarrow> bool \<Rightarrow> sk_buff list \<Rightarrow> (sk_buff list \<times> u16 \<times> nat \<times> bool) result" where
  "mark_released reason more_data [] = Inr ([], 0, 0, False)"
| "mark_released reason more_data (skb # frames) =
     (let skb = skb\<lparr>info_flags := info_flags skb OR IEEE80211_TX_CTL_NO_PS_BUFFER,
                    info_control_flags := info_control_flags skb OR IEEE80211_TX_CTRL_PS_RESPONSE\<rparr>;
          ended = skb\<lparr>info_flags := info_flags skb OR IEEE80211_TX_STATUS_EOSP OR IEEE80211_TX_CTL_REQ_TX_STATUS\<rparr>;
          tid = of_nat (2 ^ skb_priority skb)
      in
      rbind (hdr_fc (skb_data skb)) (\<lambda>fc.
      let fc = (if more_data \<or> frames \<noteq> [] then fc OR IEEE80211_FCTL_MOREDATA else fc AND NOT IEEE80211_FCTL_MOREDATA);
          qos = (ieee80211_is_data_qos fc \<or> ieee80211_is_qos_nullfunc fc)
      in
      rbind (set_hdr_fc fc (skb_data skb)) (\<lambda>bs.
      if frames \<noteq> [] then
        rbind (mark_released reason more_data frames) (\<lambda>(pending, tids, num, need_null).
        Inr (skb\<lparr>skb_data := bs\<rparr> # pending, tid OR tids, Suc num, need_null))
      else if reason \<noteq> IEEE80211_FRAME_RELEASE_UAPSD then Inr ([ended\<lparr>skb_data := bs\<rparr>], tid, 1, False)
      else if qos then
        rbind (arr_get bs (ieee80211_get_qos_ctl fc)) (\<lambda>q.
        Inr ([ended\<lparr>skb_data := bs[ieee80211_get_qos_ctl fc := q OR IEEE80211_QOS_CTL_EOSP]\<rparr>], tid, 1, False))
      else
        rbind (set_hdr_fc (fc OR IEEE80211_FCTL_MOREDATA) bs) (\<lambda>bs. Inr ([skb\<lparr>skb_data := bs\<rparr>], tid, 2, True)))))"

definition ieee80211_sta_ps_deliver_response ::
  "ps_env \<Rightarrow> sta_ptr \<Rightarrow> nat \<Rightarrow> u8 \<Rightarrow> ieee80211_frame_release_type \<Rightarrow> world \<Rightarrow> ps_result" where
  "ieee80211_sta_ps_deliver_response E p n_frames ignored_acs reason w =
     rbind (deref (stas w) p) (\<lambda>s.
     let s = set_sta_flag WLAN_STA_SP s;
         (frames, tids, ps, total) =
           ieee80211_sta_ps_get_frames ignored_acs [0..<IEEE80211_NUM_ACS] n_frames [] 0 (sta_ps s) (total_ps_buffered w);
         w = put_sta p (s\<lparr>sta_ps := ps\<rparr>) (w\<lparr>total_ps_buffered := total\<rparr>);
         more_data = ieee80211_sta_ps_more_data ps ignored_acs reason tids;
         tids = (if tids \<noteq> 0 \<and> reason = IEEE80211_FRAME_RELEASE_PSPOLL then 2 ^ nat (find_highest_prio_tid tids) else tids)
     in if frames = [] \<and> tids = 0
        then
          let ac = (case filter (\<lambda>ac. ignored_acs AND ieee80211_ac_to_qos_mask ac = 0) [0..<IEEE80211_NUM_ACS] of
                      [] \<Rightarrow> IEEE80211_NUM_ACS | ac # _ \<Rightarrow> ac)
          in ieee80211_send_null_response E p (7 - 2 * int ac) reason True False w
        else if tids = 0
        then
          rbind (mark_released reason more_data frames) (\<lambda>(pending, ftids, num, need_null).
          then_ps
            (then_ps (Inr ([Allow_Buffered p ftids num reason more_data, Add_Pending pending], w))
              (\<lambda>w. if need_null
                   then ieee80211_send_null_response E p (find_highest_prio_tid (ucast ftids)) reason False False w
                   else Inr ([], w)))
            (sta_info_recalc_tim E p))
        else
          then_ps (Inr ([Release_Buffered p tids n_frames reason more_data], w))
            (\<lambda>w. if txq_has_queue E p 0 \<noteq> None \<and>
                    (\<exists>tid\<in>set [0..<IEEE80211_NUM_TIDS + 1]. txq_has_queue E p tid = Some False \<and> bit tids tid)
                 then sta_info_recalc_tim E p w else Inr ([], w)))"

definition ieee80211_sta_ps_deliver_poll_response :: "ps_env \<Rightarrow> sta_ptr \<Rightarrow> world \<Rightarrow> ps_result" where
  "ieee80211_sta_ps_deliver_poll_response E p w =
     rbind (deref (stas w) p) (\<lambda>s.
     let ignore = uapsd_queues (sta_ps s) in
     ieee80211_sta_ps_deliver_response E p 1 (if ignore = 0x0F then 0 else ignore) IEEE80211_FRAME_RELEASE_PSPOLL w)"

definition ieee80211_sta_ps_deliver_uapsd :: "ps_env \<Rightarrow> sta_ptr \<Rightarrow> world \<Rightarrow> ps_result" where
  "ieee80211_sta_ps_deliver_uapsd E p w =
     rbind (deref (stas w) p) (\<lambda>s.
     let n = max_sp (sta_ps s); delivery_enabled = uapsd_queues (sta_ps s) in
     if delivery_enabled = 0 then Inr ([], w)
     else
       ieee80211_sta_ps_deliver_response E p
         (if n = 1 then 2 else if n = 2 then 4 else if n = 3 then 6 else if n = 0 then 128 else unat n)
         (NOT delivery_enabled) IEEE80211_FRAME_RELEASE_UAPSD w)"

text \<open>The work item that the driver's release of a station queues.\<close>

definition sta_deliver_ps_frames :: "ps_env \<Rightarrow> sta_ptr \<Rightarrow> world \<Rightarrow> ps_result" where
  "sta_deliver_ps_frames E p w =
     rbind (deref (stas w) p) (\<lambda>s.
     if sta_dead s then Inr ([], w)
     else if \<not> test_sta_flag WLAN_STA_PS_STA s then ieee80211_sta_ps_deliver_wakeup E p w
     else if test_sta_flag WLAN_STA_PSPOLL s
     then ieee80211_sta_ps_deliver_poll_response E p (put_sta p (clear_sta_flag WLAN_STA_PSPOLL s) w)
     else if test_sta_flag WLAN_STA_UAPSD s
     then ieee80211_sta_ps_deliver_uapsd E p (put_sta p (clear_sta_flag WLAN_STA_UAPSD s) w)
     else Inr ([], w))"

definition ieee80211_sta_block_awake :: "sta_ptr \<Rightarrow> bool \<Rightarrow> world \<Rightarrow> ps_result" where
  "ieee80211_sta_block_awake p block w =
     rbind (deref (stas w) p) (\<lambda>s.
     if block then Inr ([Clear_Fast_Xmit p], put_sta p (set_sta_flag WLAN_STA_PS_DRIVER s) w)
     else if \<not> test_sta_flag WLAN_STA_PS_DRIVER s then Inr ([], w)
     else if \<not> test_sta_flag WLAN_STA_PS_STA s
     then Inr ([Queue_Deliver_Work p], put_sta p (clear_sta_flag WLAN_STA_PS_DRIVER (set_sta_flag WLAN_STA_PS_DELIVER s)) w)
     else if test_sta_flag WLAN_STA_PSPOLL s \<or> test_sta_flag WLAN_STA_UAPSD s
     then Inr ([Queue_Deliver_Work p], put_sta p (clear_sta_flag WLAN_STA_PS_DRIVER s) w)
     else Inr ([Check_Fast_Xmit p], put_sta p (clear_sta_flag WLAN_STA_PS_DRIVER s) w))"

definition ieee80211_sta_eosp :: "sta_ptr \<Rightarrow> world \<Rightarrow> ps_result" where
  "ieee80211_sta_eosp p w = rbind (deref (stas w) p) (\<lambda>s. Inr ([], put_sta p (clear_sta_flag WLAN_STA_SP s) w))"

definition ieee80211_send_eosp_nullfunc :: "ps_env \<Rightarrow> sta_ptr \<Rightarrow> int \<Rightarrow> world \<Rightarrow> ps_result" where
  "ieee80211_send_eosp_nullfunc E p tid w =
     rbind (deref (stas w) p) (\<lambda>s.
     let more_data = ieee80211_sta_ps_more_data (sta_ps s) (NOT (uapsd_queues (sta_ps s))) IEEE80211_FRAME_RELEASE_UAPSD 0 in
     ieee80211_send_null_response E p tid IEEE80211_FRAME_RELEASE_UAPSD False more_data w)"

subsection \<open>Falling asleep and waking up\<close>

definition sta_ps_start :: "ps_env \<Rightarrow> sta_ptr \<Rightarrow> world \<Rightarrow> ps_result" where
  "sta_ps_start E p w =
     rbind (deref (stas w) p) (\<lambda>s.
     rbind (deref (sdatas w) (sta_sdata s)) (\<lambda>sd.
     rbind (ps_bss sd) (\<lambda>bp.
     case bp of
       None \<Rightarrow> Inr ([], w)
     | Some bp \<Rightarrow>
         let s = set_sta_flag WLAN_STA_PS_STA s;
             tids = (if txq_has_queue E p 0 = None then txq_buffered_tids (sta_ps s)
                     else fold (\<lambda>tid t. if txq_has_queue E p tid = Some True then set_bit tid t else unset_bit tid t)
                            [0..<IEEE80211_NUM_TIDS] (txq_buffered_tids (sta_ps s)))
         in
         rbind (add_num_sta_ps 1 bp (put_sta p (s\<lparr>sta_ps := (sta_ps s)\<lparr>txq_buffered_tids := tids\<rparr>\<rparr>) w)) (\<lambda>w.
         Inr ((if ap_link_ps E then [] else [Notify_Sleep p]) @ [Clear_Fast_Xmit p] @
              (if txq_has_queue E p 0 = None then [] else map (Unschedule_Txq p) [0..<IEEE80211_NUM_TIDS]), w)))))"

definition sta_ps_end :: "ps_env \<Rightarrow> sta_ptr \<Rightarrow> world \<Rightarrow> ps_result" where
  "sta_ps_end E p w =
     rbind (deref (stas w) p) (\<lambda>s.
     if test_sta_flag WLAN_STA_PS_DRIVER s then Inr ([], put_sta p (clear_sta_flag WLAN_STA_PS_STA s) w)
     else ieee80211_sta_ps_deliver_wakeup E p
            (put_sta p (clear_sta_flag WLAN_STA_PS_STA (set_sta_flag WLAN_STA_PS_DELIVER s)) w))"

definition ieee80211_sta_ps_transition :: "ps_env \<Rightarrow> sta_ptr \<Rightarrow> bool \<Rightarrow> world \<Rightarrow> (int \<times> effect list \<times> world) result" where
  "ieee80211_sta_ps_transition E p start w =
     rbind (deref (stas w) p) (\<lambda>s.
     let in_ps = test_sta_flag WLAN_STA_PS_STA s in
     if start = in_ps then Inr (- 22, [], w)
     else rbind (if start then sta_ps_start E p w else sta_ps_end E p w) (\<lambda>(e, w). Inr (0, e, w)))"

definition ieee80211_sta_pspoll :: "ps_env \<Rightarrow> sta_ptr \<Rightarrow> world \<Rightarrow> ps_result" where
  "ieee80211_sta_pspoll E p w =
     rbind (deref (stas w) p) (\<lambda>s.
     if test_sta_flag WLAN_STA_SP s then Inr ([], w)
     else if \<not> test_sta_flag WLAN_STA_PS_DRIVER s then ieee80211_sta_ps_deliver_poll_response E p w
     else Inr ([], put_sta p (set_sta_flag WLAN_STA_PSPOLL s) w))"

definition ieee80211_sta_uapsd_trigger :: "ps_env \<Rightarrow> sta_ptr \<Rightarrow> u8 \<Rightarrow> world \<Rightarrow> ps_result" where
  "ieee80211_sta_uapsd_trigger E p tid w =
     rbind (deref (stas w) p) (\<lambda>s.
     if uapsd_queues (sta_ps s) AND ieee80211_ac_to_qos_mask (ieee80211_ac_from_tid tid) = 0 \<and> tid \<noteq> 16 then Inr ([], w)
     else if test_sta_flag WLAN_STA_SP s then Inr ([], w)
     else if \<not> test_sta_flag WLAN_STA_PS_DRIVER s then ieee80211_sta_ps_deliver_uapsd E p w
     else Inr ([], put_sta p (set_sta_flag WLAN_STA_UAPSD s) w))"

definition ieee80211_rx_h_uapsd_and_pspoll ::
  "ps_env \<Rightarrow> ieee80211_rx_data \<Rightarrow> world \<Rightarrow> (ieee80211_rx_result \<times> effect list \<times> world) result" where
  "ieee80211_rx_h_uapsd_and_pspoll E rx w =
     (case rx_sta rx of
        None \<Rightarrow> Inr (RX_CONTINUE, [], w)
      | Some p \<Rightarrow>
          rbind (case rx_sdata rx of None \<Rightarrow> Inl NullDeref | Some sp \<Rightarrow> deref (sdatas w) sp) (\<lambda>sd.
          if vif_type sd \<noteq> NL80211_IFTYPE_AP \<and> vif_type sd \<noteq> NL80211_IFTYPE_AP_VLAN then Inr (RX_CONTINUE, [], w)
          else if ap_link_ps E then Inr (RX_CONTINUE, [], w)
          else
            rbind (deref (stas w) p) (\<lambda>s.
            if \<not> test_sta_flag WLAN_STA_PS_STA s then Inr (RX_CONTINUE, [], w)
            else
              rbind (hdr_fc (skb_data (rx_skb rx))) (\<lambda>fc.
              if ieee80211_is_pspoll fc
              then rbind (ieee80211_sta_pspoll E p w) (\<lambda>(e, w). Inr (RX_QUEUED, e, w))
              else if \<not> ieee80211_has_morefrags fc \<and> rx_status_rx_flags rx AND IEEE80211_RX_DEFERRED_RELEASE = 0 \<and>
                      ieee80211_has_pm fc \<and> (ieee80211_is_data_qos fc \<or> ieee80211_is_qos_nullfunc fc)
              then
                rbind (ieee80211_get_tid (skb_data (rx_skb rx))) (\<lambda>tid.
                rbind (ieee80211_sta_uapsd_trigger E p tid w) (\<lambda>(e, w). Inr (RX_CONTINUE, e, w)))
              else Inr (RX_CONTINUE, [], w)))))"

text \<open>The part of \<open>ieee80211_rx_h_sta_process\<close> that follows the power management bit of a received frame.\<close>

definition rx_power_save_bit :: "ps_env \<Rightarrow> ieee80211_rx_data \<Rightarrow> sta_ptr \<Rightarrow> world \<Rightarrow> ps_result" where
  "rx_power_save_bit E rx p w =
     rbind (hdr_fc (skb_data (rx_skb rx))) (\<lambda>fc.
     rbind (hdr_addr1 (skb_data (rx_skb rx))) (\<lambda>a1.
     rbind (case rx_sdata rx of None \<Rightarrow> Inl NullDeref | Some sp \<Rightarrow> deref (sdatas w) sp) (\<lambda>sd.
     rbind (deref (stas w) p) (\<lambda>s.
     if \<not> ap_link_ps E \<and> \<not> ieee80211_has_morefrags fc \<and> \<not> is_multicast_ether_addr a1 \<and>
        (ieee80211_is_mgmt fc \<or> ieee80211_is_data fc) \<and> rx_status_rx_flags rx AND IEEE80211_RX_DEFERRED_RELEASE = 0 \<and>
        (vif_type sd = NL80211_IFTYPE_AP \<or> vif_type sd = NL80211_IFTYPE_AP_VLAN)
     then
       (if test_sta_flag WLAN_STA_PS_STA s then (if \<not> ieee80211_has_pm fc then sta_ps_end E p w else Inr ([], w))
        else if ieee80211_has_pm fc then sta_ps_start E p w else Inr ([], w))
     else Inr ([], w)))))"

subsection \<open>Expiry\<close>

text \<open>The timeout is computed in 32-bit integers; the comparison is that of \<open>time_after\<close>.\<close>

definition int32 :: "int \<Rightarrow> int" where
  "int32 x = signed_take_bit 31 x"

definition sta_info_buffer_expired :: "ps_env \<Rightarrow> u16 \<Rightarrow> u16 \<Rightarrow> sk_buff \<Rightarrow> bool" where
  "sta_info_buffer_expired E listen beacon skb =
     (let timeout = int32 ((int32 (int32 (uint listen * uint beacon) * 32) sdiv 15625) * int (ps_hz E));
          expire = 10 * int (ps_hz E);
          timeout = (if timeout < expire then expire else timeout)
      in time_after (ps_jiffies E) (info_jiffies skb + of_int timeout))"

definition sta_info_cleanup_expire_buffered_ac :: "ps_env \<Rightarrow> sta_ptr \<Rightarrow> nat \<Rightarrow> world \<Rightarrow> (bool \<times> effect list \<times> world) result" where
  "sta_info_cleanup_expire_buffered_ac E p ac w =
     rbind (deref (stas w) p) (\<lambda>s.
     rbind (deref (sdatas w) (sta_sdata s)) (\<lambda>sd.
     let ps = sta_ps s;
         expired = sta_info_buffer_expired E (listen_interval ps) (beacon_int sd);
         filtered = dropWhile expired (tx_filtered ps ac);
         buf = dropWhile expired (ps_tx_buf ps ac);
         freed = takeWhile expired (tx_filtered ps ac) @ takeWhile expired (ps_tx_buf ps ac);
         total = total_ps_buffered w - int (length (takeWhile expired (ps_tx_buf ps ac)))
     in
     rbind (sta_info_recalc_tim E p
              (put_sta p (s\<lparr>sta_ps := ps\<lparr>tx_filtered := (tx_filtered ps)(ac := filtered), ps_tx_buf := (ps_tx_buf ps)(ac := buf)\<rparr>\<rparr>)
                (w\<lparr>total_ps_buffered := total\<rparr>))) (\<lambda>(e, w).
     Inr (\<not> (buf = [] \<and> filtered = []), map Free_Skb freed @ e, w))))"

fun expire_acs :: "ps_env \<Rightarrow> sta_ptr \<Rightarrow> nat list \<Rightarrow> world \<Rightarrow> (bool \<times> effect list \<times> world) result" where
  "expire_acs E p [] w = Inr (False, [], w)"
| "expire_acs E p (ac # acs) w =
     rbind (sta_info_cleanup_expire_buffered_ac E p ac w) (\<lambda>(b, e, w).
     rbind (expire_acs E p acs w) (\<lambda>(b', e', w). Inr (b \<or> b', e @ e', w)))"

definition sta_info_cleanup_expire_buffered :: "ps_env \<Rightarrow> sta_ptr \<Rightarrow> world \<Rightarrow> (bool \<times> effect list \<times> world) result" where
  "sta_info_cleanup_expire_buffered E p w =
     rbind (deref (stas w) p) (\<lambda>s.
     rbind (deref (sdatas w) (sta_sdata s)) (\<lambda>sd.
     if sdata_bss sd = None then Inr (False, [], w) else expire_acs E p [0..<IEEE80211_NUM_ACS] w))"

text \<open>The timer: whether it has to be armed again.\<close>

fun cleanup_stas :: "ps_env \<Rightarrow> sta_ptr list \<Rightarrow> world \<Rightarrow> (bool \<times> effect list \<times> world) result" where
  "cleanup_stas E [] w = Inr (False, [], w)"
| "cleanup_stas E (p # ps) w =
     rbind (sta_info_cleanup_expire_buffered E p w) (\<lambda>(b, e, w).
     rbind (cleanup_stas E ps w) (\<lambda>(b', e', w). Inr (b \<or> b', e @ e', w)))"

definition sta_info_cleanup :: "ps_env \<Rightarrow> bool \<Rightarrow> world \<Rightarrow> (bool \<times> effect list \<times> world) result" where
  "sta_info_cleanup E quiescing w =
     rbind (cleanup_stas E (sta_list w) w) (\<lambda>(needed, e, w). Inr (needed \<and> \<not> quiescing, e, w))"

end
