(* ===== verification/Ps_Accounting.thy ===== *)
theory Ps_Accounting
  imports Power_Save
begin

text \<open>
  The two counters of power save: the number of buffered frames, which limits the memory they may take, and the number of sleeping stations of an access point, which decides
  whether multicast frames are held back. Over any run of the handlers both are exact, with two exceptions that the theory shows: making room when
  the buffers are full, and a station that falls asleep again while the driver holds it back.
\<close>

section \<open>What the counters should be\<close>

definition sta_buffered :: "sta_info \<Rightarrow> int" where
  "sta_buffered s = (\<Sum>ac\<leftarrow>[0..<IEEE80211_NUM_ACS]. int (length (ps_tx_buf (sta_ps s) ac)))"

definition sta_bss :: "world \<Rightarrow> sta_info \<Rightarrow> sdata_ptr option" where
  "sta_bss w s =
     (case sdatas w (sta_sdata s) of
        None \<Rightarrow> None
      | Some sd \<Rightarrow> if vif_type sd = NL80211_IFTYPE_AP \<or> vif_type sd = NL80211_IFTYPE_AP_VLAN then sdata_bss sd else None)"

definition asleep :: "sta_info \<Rightarrow> int" where
  "asleep s = of_bool (test_sta_flag WLAN_STA_PS_STA s)"

definition on_stas :: "world \<Rightarrow> (sta_info \<Rightarrow> int) \<Rightarrow> int" where
  "on_stas w f = (\<Sum>p\<leftarrow>sta_list w. case stas w p of None \<Rightarrow> 0 | Some s \<Rightarrow> f s)"

definition bc_buffered :: "ieee80211_sub_if_data \<Rightarrow> int" where
  "bc_buffered sd = (if vif_type sd = NL80211_IFTYPE_AP then int (length (bc_buf (sdata_ps sd))) else 0)"

definition bc_total :: "world \<Rightarrow> int" where
  "bc_total w = (\<Sum>sp\<leftarrow>interfaces w. case sdatas w sp of None \<Rightarrow> 0 | Some sd \<Rightarrow> bc_buffered sd)"

definition buffered_frames :: "world \<Rightarrow> int" where
  "buffered_frames w = on_stas w sta_buffered + bc_total w"

definition sleeping_stations :: "world \<Rightarrow> sdata_ptr \<Rightarrow> int" where
  "sleeping_stations w bp = on_stas w (\<lambda>s. if sta_bss w s = Some bp then asleep s else 0)"

definition ps_count :: "world \<Rightarrow> sdata_ptr \<Rightarrow> int" where
  "ps_count w bp = (case sdatas w bp of None \<Rightarrow> 0 | Some b \<Rightarrow> num_sta_ps (sdata_ps b))"

text \<open>Deviations of the counters, which the operations change by known amounts.\<close>

definition excess :: "world \<Rightarrow> int" where
  "excess w = total_ps_buffered w - buffered_frames w"

definition surplus :: "world \<Rightarrow> sdata_ptr \<Rightarrow> int" where
  "surplus w bp = ps_count w bp - sleeping_stations w bp"

text \<open>Lists without duplicates and valid pointers; the interface a BSS pointer leads to is a listed access point.\<close>

definition ps_wf :: "world \<Rightarrow> bool" where
  "ps_wf w \<longleftrightarrow>
     distinct (sta_list w) \<and> distinct (interfaces w) \<and> (\<forall>p\<in>set (sta_list w). stas w p \<noteq> None) \<and>
     (\<forall>sp sd bp. sdatas w sp = Some sd \<longrightarrow> sdata_bss sd = Some bp \<longrightarrow>
        bp \<in> set (interfaces w) \<and> (\<exists>b. sdatas w bp = Some b \<and> vif_type b = NL80211_IFTYPE_AP))"

text \<open>What no operation changes.\<close>

definition ps_frame :: "world \<Rightarrow> world \<Rightarrow> bool" where
  "ps_frame w w' \<longleftrightarrow>
     sta_list w' = sta_list w \<and> interfaces w' = interfaces w \<and>
     (\<forall>p. map_option sta_sdata (stas w' p) = map_option sta_sdata (stas w p)) \<and>
     (\<forall>sp. map_option (\<lambda>sd. (vif_type sd, sdata_bss sd)) (sdatas w' sp) = map_option (\<lambda>sd. (vif_type sd, sdata_bss sd)) (sdatas w sp))"

lemma ps_frame_refl [simp]: "ps_frame w w"
  by (simp add: ps_frame_def)

lemma ps_frame_trans: "ps_frame w w' \<Longrightarrow> ps_frame w' w'' \<Longrightarrow> ps_frame w w''"
  by (simp add: ps_frame_def)

lemma ps_frame_sta_bss:
  assumes "ps_frame w w'" "sta_sdata s' = sta_sdata s"
  shows "sta_bss w' s' = sta_bss w s"
proof -
  have "map_option (\<lambda>sd. (vif_type sd, sdata_bss sd)) (sdatas w' (sta_sdata s)) = map_option (\<lambda>sd. (vif_type sd, sdata_bss sd)) (sdatas w (sta_sdata s))"
    using assms(1) by (simp add: ps_frame_def)
  then show ?thesis using assms(2) by (auto simp: sta_bss_def split: option.splits)
qed

lemma ps_frame_sym: "ps_frame w w' \<Longrightarrow> ps_frame w' w"
  by (simp add: ps_frame_def)

lemma ps_frame_sdata:
  assumes "ps_frame w w'" "sdatas w sp = Some sd"
  obtains sd' where "sdatas w' sp = Some sd'" "vif_type sd' = vif_type sd" "sdata_bss sd' = sdata_bss sd"
proof -
  have "map_option (\<lambda>sd. (vif_type sd, sdata_bss sd)) (sdatas w' sp) = Some (vif_type sd, sdata_bss sd)"
    using assms by (simp add: ps_frame_def)
  then show thesis using that by auto
qed

lemma ps_frame_sta:
  assumes "ps_frame w w'" "stas w p = Some s"
  obtains s' where "stas w' p = Some s'" "sta_sdata s' = sta_sdata s"
proof -
  have "map_option sta_sdata (stas w' p) = Some (sta_sdata s)" using assms by (simp add: ps_frame_def)
  then show thesis using that by auto
qed

lemma ps_frame_wf:
  assumes f: "ps_frame w w'" and wf: "ps_wf w"
  shows "ps_wf w'"
proof -
  have l: "sta_list w' = sta_list w" "interfaces w' = interfaces w" using f by (simp_all add: ps_frame_def)
  have 1: "stas w' p \<noteq> None" if p: "p \<in> set (sta_list w)" for p
  proof -
    obtain s where "stas w p = Some s" using wf p by (auto simp: ps_wf_def)
    then show ?thesis using ps_frame_sta [OF f] by blast
  qed
  have 2: "bp \<in> set (interfaces w) \<and> (\<exists>b. sdatas w' bp = Some b \<and> vif_type b = NL80211_IFTYPE_AP)"
    if sd: "sdatas w' sp = Some sd" "sdata_bss sd = Some bp" for sp sd bp
  proof -
    obtain sd0 where "sdatas w sp = Some sd0" "sdata_bss sd0 = Some bp" using ps_frame_sdata [OF ps_frame_sym [OF f] sd(1)] sd(2) by metis
    then obtain b where "bp \<in> set (interfaces w)" "sdatas w bp = Some b" "vif_type b = NL80211_IFTYPE_AP" using wf unfolding ps_wf_def by blast
    then show ?thesis using ps_frame_sdata [OF f] by metis
  qed
  show ?thesis using wf 1 2 unfolding ps_wf_def l by simp
qed

section \<open>Primitive updates\<close>

lemma put_sta_frame: "stas w p = Some s \<Longrightarrow> sta_sdata s' = sta_sdata s \<Longrightarrow> ps_frame w (put_sta p s' w)"
  by (simp add: ps_frame_def put_sta_def)

lemma put_sdata_ps_frame: "sdatas w bp = Some b \<Longrightarrow> ps_frame w (put_sdata bp (b\<lparr>sdata_ps := ps\<rparr>) w)"
  by (simp add: ps_frame_def put_sdata_def)

lemma on_stas_put_sta:
  assumes "ps_wf w" "p \<in> set (sta_list w)" "stas w p = Some s"
  shows "on_stas (put_sta p s' w) f = on_stas w f + (f s' - f s)"
  unfolding on_stas_def put_sta_def
  by (subst sum_list_update [where a = p and g = "\<lambda>q. case stas w q of None \<Rightarrow> 0 | Some s \<Rightarrow> f s"]) (use assms in \<open>auto simp: ps_wf_def\<close>)

lemma excess_put_sta:
  assumes "ps_wf w" "p \<in> set (sta_list w)" "stas w p = Some s"
  shows "excess (put_sta p s' w) = excess w - (sta_buffered s' - sta_buffered s)"
  unfolding excess_def buffered_frames_def on_stas_put_sta [OF assms] by (simp add: put_sta_def bc_total_def)

lemma surplus_put_sta:
  assumes "ps_wf w" "p \<in> set (sta_list w)" "stas w p = Some s" "sta_sdata s' = sta_sdata s"
  shows "surplus (put_sta p s' w) bp = surplus w bp - (if sta_bss w s = Some bp then asleep s' - asleep s else 0)"
proof -
  have "sta_bss (put_sta p s' w) = sta_bss w" by (rule ext) (simp add: sta_bss_def put_sta_def)
  then have "sleeping_stations (put_sta p s' w) bp = on_stas (put_sta p s' w) (\<lambda>s. if sta_bss w s = Some bp then asleep s else 0)"
    by (simp add: sleeping_stations_def)
  moreover have "sta_bss w s' = sta_bss w s" using assms(4) by (simp add: sta_bss_def)
  ultimately show ?thesis
    unfolding surplus_def using on_stas_put_sta [OF assms(1-3)] by (simp add: sleeping_stations_def ps_count_def put_sta_def)
qed

lemma excess_put_sdata:
  assumes "ps_wf w" "bp \<in> set (interfaces w)" "sdatas w bp = Some b"
  shows "excess (put_sdata bp b' w) = excess w - (bc_buffered b' - bc_buffered b)"
proof -
  have "bc_total (put_sdata bp b' w) = bc_total w + (bc_buffered b' - bc_buffered b)"
    unfolding bc_total_def put_sdata_def
    by (subst sum_list_update [where a = bp and g = "\<lambda>q. case sdatas w q of None \<Rightarrow> 0 | Some sd \<Rightarrow> bc_buffered sd"]) (use assms in \<open>auto simp: ps_wf_def\<close>)
  then show ?thesis by (simp add: excess_def buffered_frames_def on_stas_def put_sdata_def)
qed

lemma surplus_put_sdata:
  assumes "sdatas w bp = Some b"
  shows "surplus (put_sdata bp (b\<lparr>sdata_ps := ps\<rparr>) w) q = surplus w q + (if q = bp then num_sta_ps ps - num_sta_ps (sdata_ps b) else 0)"
proof -
  have "sta_bss (put_sdata bp (b\<lparr>sdata_ps := ps\<rparr>) w) = sta_bss w"
    by (rule ext) (rule ps_frame_sta_bss [OF put_sdata_ps_frame [OF assms] refl])
  then show ?thesis using assms by (simp add: surplus_def sleeping_stations_def ps_count_def on_stas_def put_sdata_def)
qed

lemma excess_total [simp]: "excess (w\<lparr>total_ps_buffered := n\<rparr>) = excess w + (n - total_ps_buffered w)"
  by (simp add: excess_def buffered_frames_def on_stas_def bc_total_def)

lemma surplus_total [simp]: "surplus (w\<lparr>total_ps_buffered := n\<rparr>) = surplus w"
  by (rule ext) (simp add: surplus_def sleeping_stations_def ps_count_def on_stas_def sta_bss_def)

lemma ps_wf_total [simp]: "ps_wf (w\<lparr>total_ps_buffered := n\<rparr>) = ps_wf w"
  by (simp add: ps_wf_def)

lemma ps_frame_total [simp]: "ps_frame w' (w\<lparr>total_ps_buffered := n\<rparr>) = ps_frame w' w"
  by (simp add: ps_frame_def)

lemma flag_simps [simp]:
  "test_sta_flag f (set_sta_flag g s) \<longleftrightarrow> test_sta_flag f s \<or> f = g \<and> g < 64"
  "test_sta_flag f (clear_sta_flag g s) \<longleftrightarrow> test_sta_flag f s \<and> f \<noteq> g"
  "sta_sdata (set_sta_flag g s) = sta_sdata s" "sta_sdata (clear_sta_flag g s) = sta_sdata s"
  "sta_ps (set_sta_flag g s) = sta_ps s" "sta_ps (clear_sta_flag g s) = sta_ps s"
  "test_sta_flag f (s\<lparr>sta_ps := ps\<rparr>) = test_sta_flag f s"
  by (auto simp: test_sta_flag_def set_sta_flag_def clear_sta_flag_def bit_set_bit_iff bit_unset_bit_iff)

lemma buffered_simps [simp]:
  "sta_buffered (set_sta_flag g s) = sta_buffered s" "sta_buffered (clear_sta_flag g s) = sta_buffered s"
  "asleep (s\<lparr>sta_ps := ps\<rparr>) = asleep s" "asleep (set_sta_flag g s) = (if g = WLAN_STA_PS_STA then 1 else asleep s)"
  "asleep (clear_sta_flag g s) = (if g = WLAN_STA_PS_STA then 0 else asleep s)"
  by (auto simp: sta_buffered_def asleep_def)

section \<open>The invariant\<close>

definition ps_flags_ok :: "world \<Rightarrow> bool" where
  "ps_flags_ok w \<longleftrightarrow>
     (\<forall>p\<in>set (sta_list w). \<forall>s. stas w p = Some s \<longrightarrow>
        \<not> test_sta_flag WLAN_STA_PS_DRIVER s \<and> \<not> test_sta_flag WLAN_STA_PS_DELIVER s \<and>
        (test_sta_flag WLAN_STA_PS_STA s \<longrightarrow> sta_bss w s \<noteq> None))"

definition ps_inv :: "world \<Rightarrow> bool" where
  "ps_inv w \<longleftrightarrow> ps_wf w \<and> ps_flags_ok w \<and> excess w = 0 \<and> (\<forall>bp. surplus w bp = 0)"

text \<open>Updates that touch neither the stations nor the counters.\<close>

definition ps_same :: "world \<Rightarrow> world \<Rightarrow> bool" where
  "ps_same w w' \<longleftrightarrow> ps_frame w w' \<and> stas w' = stas w \<and> excess w' = excess w \<and> surplus w' = surplus w"

lemma ps_same_refl [simp]: "ps_same w w"
  by (simp add: ps_same_def)

lemma ps_inv_frame:
  assumes "ps_inv w" "ps_frame w w'" "excess w' = 0" "\<And>q. surplus w' q = 0"
    and "\<And>p s. p \<in> set (sta_list w) \<Longrightarrow> stas w' p = Some s \<Longrightarrow>
      \<not> test_sta_flag WLAN_STA_PS_DRIVER s \<and> \<not> test_sta_flag WLAN_STA_PS_DELIVER s \<and>
      (test_sta_flag WLAN_STA_PS_STA s \<longrightarrow> sta_bss w s \<noteq> None)"
  shows "ps_inv w'"
proof -
  have "sta_list w' = sta_list w" using assms(2) by (simp add: ps_frame_def)
  then have "ps_flags_ok w'" using assms(5) ps_frame_sta_bss [OF assms(2) refl] by (simp add: ps_flags_ok_def)
  then show ?thesis using assms(1,3,4) ps_frame_wf [OF assms(2)] by (simp add: ps_inv_def)
qed

lemma ps_inv_same: "ps_inv w \<Longrightarrow> ps_same w w' \<Longrightarrow> ps_inv w'"
  by (rule ps_inv_frame) (auto simp: ps_same_def ps_inv_def ps_flags_ok_def)

lemma ps_same_trans: "ps_same w w' \<Longrightarrow> ps_same w' w'' \<Longrightarrow> ps_same w w''"
  using ps_frame_trans by (auto simp: ps_same_def)

lemma wf_bss:
  assumes "ps_wf w" "sdatas w sp = Some sd" "sdata_bss sd = Some bp"
  obtains b where "sdatas w bp = Some b" "vif_type b = NL80211_IFTYPE_AP" "bp \<in> set (interfaces w)"
  using assms unfolding ps_wf_def by blast

lemma put_ps_data_same:
  assumes "ps_wf w" "bp \<in> set (interfaces w)" "sdatas w bp = Some b" "bc_buf ps = bc_buf (sdata_ps b)" "num_sta_ps ps = num_sta_ps (sdata_ps b)"
  shows "ps_same w (put_sdata bp (b\<lparr>sdata_ps := ps\<rparr>) w)"
  using assms put_sdata_ps_frame [OF assms(3)] excess_put_sdata [OF assms(1-3)] surplus_put_sdata [OF assms(3)]
  by (simp add: ps_same_def bc_buffered_def fun_eq_iff put_sdata_def)

lemma recalc_tim_same:
  assumes "sta_info_recalc_tim_gen E p ign w = Inr (e, w')" "ps_wf w"
  shows "ps_same w w'"
proof -
  obtain s sd where s: "stas w p = Some s" "sdatas w (sta_sdata s) = Some sd"
    using assms(1) by (auto simp: sta_info_recalc_tim_gen_def deref_Inr_iff elim!: rbind_InrE)
  show ?thesis
  proof (cases "sdata_bss sd")
    case None
    then show ?thesis using assms(1) s by (auto simp: sta_info_recalc_tim_gen_def split: if_splits elim!: rbind_InrE)
  next
    case (Some bp)
    from wf_bss [OF assms(2) s(2) this] obtain b where b: "sdatas w bp = Some b" "bp \<in> set (interfaces w)" .
    show ?thesis
      using assms(1) s Some b put_ps_data_same [OF assms(2) b(2,1)]
      by (auto simp: sta_info_recalc_tim_gen_def Let_def split: if_splits elim!: rbind_InrE)
  qed
qed

lemma recalc_tim_same' [intro]: "sta_info_recalc_tim E p w = Inr (e, w') \<Longrightarrow> ps_wf w \<Longrightarrow> ps_same w w'"
  unfolding sta_info_recalc_tim_def by (rule recalc_tim_same)

text \<open>A station's queues change and the total follows; its flags keep what the invariant needs.\<close>

lemma ps_inv_put_sta:
  assumes i: "ps_inv w" and p: "p \<in> set (sta_list w)" "stas w p = Some s" and sd: "sta_sdata s' = sta_sdata s"
    and n: "n = total_ps_buffered w + (sta_buffered s' - sta_buffered s)"
    and f: "test_sta_flag WLAN_STA_PS_STA s' = test_sta_flag WLAN_STA_PS_STA s"
      "\<not> test_sta_flag WLAN_STA_PS_DRIVER s'" "\<not> test_sta_flag WLAN_STA_PS_DELIVER s'"
  shows "ps_inv (put_sta p s' (w\<lparr>total_ps_buffered := n\<rparr>))"
proof -
  let ?w = "w\<lparr>total_ps_buffered := n\<rparr>"
  have w: "ps_wf ?w" "p \<in> set (sta_list ?w)" "stas ?w p = Some s" using i p by (simp_all add: ps_inv_def)
  have fr: "ps_frame w (put_sta p s' ?w)" using put_sta_frame [OF w(3) sd] by (simp add: ps_frame_def)
  show ?thesis
  proof (rule ps_inv_frame [OF i fr])
    show "excess (put_sta p s' ?w) = 0" using excess_put_sta [OF w] i n by (simp add: ps_inv_def)
    show "surplus (put_sta p s' ?w) q = 0" for q using surplus_put_sta [OF w sd] i f(1) by (simp add: ps_inv_def asleep_def)
    have sb: "sta_bss w s' = sta_bss w s" using sd by (simp add: sta_bss_def)
    show "\<not> test_sta_flag WLAN_STA_PS_DRIVER t \<and> \<not> test_sta_flag WLAN_STA_PS_DELIVER t \<and> (test_sta_flag WLAN_STA_PS_STA t \<longrightarrow> sta_bss w t \<noteq> None)"
      if "q \<in> set (sta_list w)" "stas (put_sta p s' ?w) q = Some t" for q t
      using that i p f sb by (auto simp: ps_inv_def ps_flags_ok_def put_sta_def split: if_splits)
  qed
qed

lemma ps_inv_put_sta_same:
  assumes "ps_inv w" "p \<in> set (sta_list w)" "stas w p = Some s" "sta_sdata s' = sta_sdata s" "sta_buffered s' = sta_buffered s"
    and "test_sta_flag WLAN_STA_PS_STA s' = test_sta_flag WLAN_STA_PS_STA s"
      "\<not> test_sta_flag WLAN_STA_PS_DRIVER s'" "\<not> test_sta_flag WLAN_STA_PS_DELIVER s'"
  shows "ps_inv (put_sta p s' w)"
  using ps_inv_put_sta [OF assms(1-4) _ assms(6-8), of "total_ps_buffered w"] assms(5) by simp

lemma ps_inv_flags:
  assumes "ps_inv w" "p \<in> set (sta_list w)" "stas w p = Some s"
  shows "\<not> test_sta_flag WLAN_STA_PS_DRIVER s" "\<not> test_sta_flag WLAN_STA_PS_DELIVER s"
  using assms by (auto simp: ps_inv_def ps_flags_ok_def)

lemma ps_inv_recalc: "ps_inv w \<Longrightarrow> sta_info_recalc_tim E p w = Inr (e, w') \<Longrightarrow> ps_inv w'"
  using ps_inv_same recalc_tim_same' ps_inv_def by blast

section \<open>Waking up and falling asleep\<close>

lemma sta_bss_ps_bss:
  assumes "sdatas w (sta_sdata s) = Some sd" "ps_bss sd = Inr bp"
  shows "sta_bss w s = bp"
  using assms by (auto simp: sta_bss_def ps_bss_def split: if_splits option.splits)

lemma deliver_wakeup_counts:
  assumes wf: "ps_wf w" and p: "p \<in> set (sta_list w)" "stas w p = Some s" and bp: "sta_bss w s = Some bp"
    and d: "ieee80211_sta_ps_deliver_wakeup E p w = Inr (e, w')"
  shows "ps_frame w w' \<and> excess w' = excess w \<and> (\<forall>q. surplus w' q = surplus w q - of_bool (q = bp)) \<and>
    (\<exists>s'. stas w' = (stas w)(p \<mapsto> s') \<and> sta_sdata s' = sta_sdata s \<and>
      test_sta_flag WLAN_STA_PS_STA s' = test_sta_flag WLAN_STA_PS_STA s \<and>
      test_sta_flag WLAN_STA_PS_DRIVER s' = test_sta_flag WLAN_STA_PS_DRIVER s \<and> \<not> test_sta_flag WLAN_STA_PS_DELIVER s')"
proof -
  obtain sd where sd: "sdatas w (sta_sdata s) = Some sd" "ps_bss sd = Inr (Some bp)" "sdata_bss sd = Some bp"
    using bp by (auto simp: sta_bss_def ps_bss_def split: option.splits if_splits)
  from wf_bss [OF wf sd(1,3)] obtain b where b: "sdatas w bp = Some b" "vif_type b = NL80211_IFTYPE_AP" "bp \<in> set (interfaces w)" .
  define s' where "s' = clear_sta_flag WLAN_STA_UAPSD (clear_sta_flag WLAN_STA_PSPOLL (clear_sta_flag WLAN_STA_PS_DELIVER
      (clear_sta_flag WLAN_STA_SP (s\<lparr>sta_ps := (sta_ps s)\<lparr>driver_buffered_tids := 0, txq_buffered_tids := 0,
          tx_filtered := (\<lambda>_. []), ps_tx_buf := (\<lambda>_. [])\<rparr>\<rparr>))))"
  define w1 where "w1 = put_sta p s' w"
  define w2 where "w2 = put_sdata bp (b\<lparr>sdata_ps := (sdata_ps b)\<lparr>num_sta_ps := num_sta_ps (sdata_ps b) - 1\<rparr>\<rparr>) w1"
  let ?w3 = "w2\<lparr>total_ps_buffered := total_ps_buffered w2 - sta_buffered s\<rparr>"
  have s': "sta_sdata s' = sta_sdata s" "sta_buffered s' = 0" "asleep s' = asleep s" by (simp_all add: s'_def sta_buffered_def)
  have b1: "sdatas w1 bp = Some b" "bp \<in> set (interfaces w1)" using b by (simp_all add: w1_def put_sta_def)
  have f1: "ps_frame w w1" unfolding w1_def by (rule put_sta_frame [OF p(2) s'(1)])
  have wf1: "ps_wf w1" by (rule ps_frame_wf [OF f1 wf])
  have f2: "ps_frame w w2" unfolding w2_def by (rule ps_frame_trans [OF f1 put_sdata_ps_frame [OF b1(1)]])
  have x: "excess ?w3 = excess w" "surplus ?w3 q = surplus w q - of_bool (q = bp)" for q
    using excess_put_sdata [OF wf1 b1(2,1)] surplus_put_sdata [OF b1(1)] excess_put_sta [OF wf p] surplus_put_sta [OF wf p s'(1)] s'
    by (simp_all add: w2_def w1_def bc_buffered_def)
  obtain e3 where r: "sta_info_recalc_tim E p ?w3 = Inr (e3, w')"
    using d p sd b b1(1)
    by (auto simp: ieee80211_sta_ps_deliver_wakeup_def Let_def add_num_sta_ps_def then_ps_def s'_def [symmetric] w1_def [symmetric]
        w2_def [symmetric] sta_buffered_def [symmetric] elim!: rbind_InrE)
  have wf3: "ps_wf ?w3" using ps_frame_wf [OF f2 wf] by simp
  have same: "ps_same ?w3 w'" using recalc_tim_same' [OF r wf3] .
  have f3: "ps_frame w ?w3" using f2 by simp
  have "ps_frame w w'" using ps_frame_trans [OF f3] same by (simp add: ps_same_def)
  moreover have "excess w' = excess w" "surplus w' q = surplus w q - of_bool (q = bp)" for q
    using same x by (simp_all only: ps_same_def)
  moreover have "stas w' = (stas w)(p \<mapsto> s')" using same by (simp add: ps_same_def w2_def w1_def put_sdata_def put_sta_def)
  ultimately show ?thesis using s'(1) by (intro conjI exI [of _ s']) (auto simp: s'_def)
qed

lemma sta_ps_end_inv:
  assumes i: "ps_inv w" and p: "p \<in> set (sta_list w)" "stas w p = Some s" "test_sta_flag WLAN_STA_PS_STA s"
    and d: "sta_ps_end E p w = Inr (e, w')"
  shows "ps_inv w'"
proof -
  let ?s = "clear_sta_flag WLAN_STA_PS_STA (set_sta_flag WLAN_STA_PS_DELIVER s)"
  let ?w = "put_sta p ?s w"
  have wf: "ps_wf w" using i by (simp add: ps_inv_def)
  obtain bp where bp: "sta_bss w s = Some bp" using i p unfolding ps_inv_def ps_flags_ok_def by blast
  have fr: "ps_frame w ?w" by (rule put_sta_frame [OF p(2)]) simp
  have wf1: "ps_wf ?w" by (rule ps_frame_wf [OF fr wf])
  have p1: "p \<in> set (sta_list ?w)" "stas ?w p = Some ?s" using p by (simp_all add: put_sta_def)
  have bp1: "sta_bss ?w ?s = Some bp" using ps_frame_sta_bss [OF fr, of ?s s] bp by simp
  have d1: "ieee80211_sta_ps_deliver_wakeup E p ?w = Inr (e, w')"
    using d p ps_inv_flags(1) [OF i p(1,2)] by (simp add: sta_ps_end_def)
  note c = deliver_wakeup_counts [OF wf1 p1 bp1 d1]
  then obtain s' where s': "stas w' = (stas ?w)(p \<mapsto> s')" "sta_sdata s' = sta_sdata ?s"
      "test_sta_flag WLAN_STA_PS_STA s' = test_sta_flag WLAN_STA_PS_STA ?s"
      "test_sta_flag WLAN_STA_PS_DRIVER s' = test_sta_flag WLAN_STA_PS_DRIVER ?s" "\<not> test_sta_flag WLAN_STA_PS_DELIVER s'" by blast
  have x: "excess ?w = 0" "surplus ?w q = of_bool (q = bp)" for q
    using excess_put_sta [OF wf p(1,2), of ?s] surplus_put_sta [OF wf p(1,2), of ?s] i bp p(3) by (auto simp: ps_inv_def asleep_def)
  show ?thesis
  proof (rule ps_inv_frame [OF i])
    show "ps_frame w w'" using ps_frame_trans [OF fr] c by blast
    show "excess w' = 0" "surplus w' q = 0" for q using c x by simp_all
    show "\<not> test_sta_flag WLAN_STA_PS_DRIVER t \<and> \<not> test_sta_flag WLAN_STA_PS_DELIVER t \<and> (test_sta_flag WLAN_STA_PS_STA t \<longrightarrow> sta_bss w t \<noteq> None)"
      if "q \<in> set (sta_list w)" "stas w' q = Some t" for q t
      using that i s' ps_inv_flags(1) [OF i p(1,2)] by (auto simp: ps_inv_def ps_flags_ok_def put_sta_def split: if_splits)
  qed
qed

lemma sta_ps_start_inv:
  assumes i: "ps_inv w" and p: "p \<in> set (sta_list w)" "stas w p = Some s" "\<not> test_sta_flag WLAN_STA_PS_STA s"
    and d: "sta_ps_start E p w = Inr (e, w')"
  shows "ps_inv w'"
proof -
  have wf: "ps_wf w" using i by (simp add: ps_inv_def)
  obtain sd bp where sd: "sdatas w (sta_sdata s) = Some sd" "ps_bss sd = Inr bp"
    using d p(2) by (auto simp: sta_ps_start_def deref_Inr_iff elim!: rbind_InrE)
  show ?thesis
  proof (cases bp)
    case None
    then show ?thesis using d p(2) sd i by (simp add: sta_ps_start_def)
  next
    case (Some bp)
    have bp: "sta_bss w s = Some bp" "sdata_bss sd = Some bp"
      using sta_bss_ps_bss [OF sd(1)] sd(2) Some by (auto simp: ps_bss_def split: if_splits option.splits)
    from wf_bss [OF wf sd(1) bp(2)] obtain b where b: "sdatas w bp = Some b" "bp \<in> set (interfaces w)" .
    define ps where "ps = sta_ps s"
    obtain tids where d1: "add_num_sta_ps 1 bp (put_sta p ((set_sta_flag WLAN_STA_PS_STA s)\<lparr>sta_ps := ps\<lparr>txq_buffered_tids := tids\<rparr>\<rparr>) w) = Inr w'"
      using d p(2) sd Some by (auto simp: sta_ps_start_def Let_def ps_def elim!: rbind_InrE)
    let ?s = "(set_sta_flag WLAN_STA_PS_STA s)\<lparr>sta_ps := ps\<lparr>txq_buffered_tids := tids\<rparr>\<rparr>"
    let ?w = "put_sta p ?s w"
    have s: "sta_sdata ?s = sta_sdata s" "sta_buffered ?s = sta_buffered s" "asleep ?s = 1" "asleep s = 0"
      using p(3) by (simp_all add: sta_buffered_def ps_def asleep_def)
    have fr: "ps_frame w ?w" by (rule put_sta_frame [OF p(2) s(1)])
    have wf1: "ps_wf ?w" by (rule ps_frame_wf [OF fr wf])
    have b1: "sdatas ?w bp = Some b" "bp \<in> set (interfaces ?w)" using b by (simp_all add: put_sta_def)
    have w': "w' = put_sdata bp (b\<lparr>sdata_ps := (sdata_ps b)\<lparr>num_sta_ps := num_sta_ps (sdata_ps b) + 1\<rparr>\<rparr>) ?w"
      using d1 b1(1) by (simp add: add_num_sta_ps_def)
    show ?thesis
    proof (rule ps_inv_frame [OF i])
      show "ps_frame w w'" unfolding w' by (rule ps_frame_trans [OF fr put_sdata_ps_frame [OF b1(1)]])
      show "excess w' = 0"
        unfolding w' excess_put_sdata [OF wf1 b1(2,1)] excess_put_sta [OF wf p(1,2)] using i s(2) by (simp add: bc_buffered_def ps_inv_def)
      show "surplus w' q = 0" for q
        unfolding w' surplus_put_sdata [OF b1(1)] surplus_put_sta [OF wf p(1,2) s(1)] using i s bp(1) by (simp add: ps_inv_def)
      have sb: "sta_bss w ?s = sta_bss w s" using s(1) by (simp add: sta_bss_def)
      show "\<not> test_sta_flag WLAN_STA_PS_DRIVER t \<and> \<not> test_sta_flag WLAN_STA_PS_DELIVER t \<and> (test_sta_flag WLAN_STA_PS_STA t \<longrightarrow> sta_bss w t \<noteq> None)"
        if "q \<in> set (sta_list w)" "stas w' q = Some t" for q t
        using that i bp(1) sb ps_inv_flags [OF i p(1,2)]
        by (auto simp: w' ps_inv_def ps_flags_ok_def put_sdata_def put_sta_def split: if_splits)
    qed
  qed
qed

lemma rx_power_save_bit_inv:
  assumes "ps_inv w" "p \<in> set (sta_list w)" "rx_power_save_bit E rx p w = Inr (e, w')"
  shows "ps_inv w'"
proof -
  obtain s where s: "stas w p = Some s" using assms(3) by (auto simp: rx_power_save_bit_def deref_Inr_iff elim!: rbind_InrE)
  then show ?thesis
    using assms(3) assms(1) sta_ps_end_inv [OF assms(1,2) s, of E e w'] sta_ps_start_inv [OF assms(1,2) s, of E e w']
    by (auto simp: rx_power_save_bit_def deref_Inr_iff split: if_splits elim!: rbind_InrE)
qed

section \<open>Buffering\<close>

lemma sta_buffered_upd:
  assumes "ac < IEEE80211_NUM_ACS" "ps_tx_buf (sta_ps s') = (ps_tx_buf (sta_ps s))(ac := buf)"
  shows "sta_buffered s' = sta_buffered s + (int (length buf) - int (length (ps_tx_buf (sta_ps s) ac)))"
proof -
  have "sta_buffered s' = (\<Sum>x\<leftarrow>[0..<4]. int (length (ps_tx_buf (sta_ps s) x))) +
      (if ac \<in> set [0..<4] then int (length (ps_tx_buf (sta_ps s') ac)) - int (length (ps_tx_buf (sta_ps s) ac)) else 0)"
    unfolding sta_buffered_def by (rule sum_list_update) (simp_all add: assms(2))
  then show ?thesis using assms by (simp add: sta_buffered_def)
qed

lemma buffer_frame_count:
  "buffer_frame limit buf skb = (e, buf', n) \<Longrightarrow> 0 < limit \<Longrightarrow> int (length buf') = int (length buf) + n"
  by (auto simp: buffer_frame_def split: if_splits)

lemma unicast_ps_buf_inv:
  assumes i: "ps_inv w" and p: "tx_sta tx = Some p" "p \<in> set (sta_list w)"
    and room: "total_ps_buffered w < TOTAL_MAX_TX_BUFFER"
    and d: "ieee80211_tx_h_unicast_ps_buf E tx w = Inr (res, tx', e, w')"
  shows "ps_inv w'"
proof -
  obtain s where s: "stas w p = Some s" using d p(1) by (auto simp: ieee80211_tx_h_unicast_ps_buf_def deref_Inr_iff elim!: rbind_InrE)
  have full: "purge_if_full w = Inr ([], w)" using room by (simp add: purge_if_full_def)
  consider "w' = w" | ac skb buf n e' e'' where "ac < IEEE80211_NUM_ACS"
      "buffer_frame STA_MAX_TX_BUFFER (ps_tx_buf (sta_ps s) ac) skb = (e', buf, n)"
      "sta_info_recalc_tim E p (put_sta p (s\<lparr>sta_ps := (sta_ps s)\<lparr>ps_tx_buf := (ps_tx_buf (sta_ps s))(ac := buf)\<rparr>\<rparr>)
         (w\<lparr>total_ps_buffered := total_ps_buffered w + n\<rparr>)) = Inr (e'', w')"
    using d p(1) s full
    by (auto simp: ieee80211_tx_h_unicast_ps_buf_def Let_def not_le split: if_splits prod.splits elim!: rbind_InrE)
  then show ?thesis
  proof cases
    case 2
    let ?s = "s\<lparr>sta_ps := (sta_ps s)\<lparr>ps_tx_buf := (ps_tx_buf (sta_ps s))(ac := buf)\<rparr>\<rparr>"
    have "sta_buffered ?s = sta_buffered s + n"
      using sta_buffered_upd [OF 2(1), of ?s s buf] buffer_frame_count [OF 2(2)] by simp
    then have "ps_inv (put_sta p ?s (w\<lparr>total_ps_buffered := total_ps_buffered w + n\<rparr>))"
      using ps_inv_flags [OF i p(2) s] by (intro ps_inv_put_sta [OF i p(2) s]) simp_all
    then show ?thesis using ps_inv_recalc 2(3) by blast
  qed (use i in simp)
qed

lemma multicast_ps_buf_inv:
  assumes i: "ps_inv w" and room: "total_ps_buffered w < TOTAL_MAX_TX_BUFFER"
    and d: "ieee80211_tx_h_multicast_ps_buf E tx w = Inr (res, tx', e, w')"
  shows "ps_inv w'"
proof -
  have wf: "ps_wf w" using i by (simp add: ps_inv_def)
  have full: "purge_if_full w = Inr ([], w)" using room by (simp add: purge_if_full_def)
  obtain sp sd where sd: "tx_sdata tx = Some sp" "sdatas w sp = Some sd"
    using d by (auto simp: ieee80211_tx_h_multicast_ps_buf_def deref_Inr_iff split: option.splits elim!: rbind_InrE)
  consider "w' = w" | bp bss skb e' buf n where "sdata_bss sd = Some bp" "sdatas w bp = Some bss"
      "buffer_frame AP_MAX_BC_BUFFER (bc_buf (sdata_ps bss)) skb = (e', buf, n)"
      "w' = put_sdata bp (bss\<lparr>sdata_ps := (sdata_ps bss)\<lparr>bc_buf := buf\<rparr>\<rparr>) (w\<lparr>total_ps_buffered := total_ps_buffered w + n\<rparr>)"
  proof (cases "w' = w")
    case False
    then obtain bp skb e1 where "sdata_bss sd = Some bp" "buffer_multicast bp skb w = Inr (e1, w')"
      using d sd by (auto simp: ieee80211_tx_h_multicast_ps_buf_def Let_def split: if_splits option.splits elim!: rbind_InrE)
    then show ?thesis
      using that(2) full by (auto simp: buffer_multicast_def Let_def deref_Inr_iff split: prod.splits elim!: rbind_InrE)
  qed
  then show ?thesis
  proof cases
    case 2
    from wf_bss [OF wf sd(2) 2(1)] 2(2) have ap: "vif_type bss = NL80211_IFTYPE_AP" "bp \<in> set (interfaces w)" by auto
    let ?w = "w\<lparr>total_ps_buffered := total_ps_buffered w + n\<rparr>"
    have w: "ps_wf ?w" "bp \<in> set (interfaces ?w)" "sdatas ?w bp = Some bss" using wf ap 2(2) by simp_all
    have len: "int (length buf) = int (length (bc_buf (sdata_ps bss))) + n" using buffer_frame_count [OF 2(3)] by simp
    show ?thesis
    proof (rule ps_inv_frame [OF i])
      show "ps_frame w w'" using put_sdata_ps_frame [OF w(3)] unfolding 2(4) by (simp add: ps_frame_def)
      show "excess w' = 0" unfolding 2(4) excess_put_sdata [OF w] using i len ap(1) by (simp add: bc_buffered_def ps_inv_def)
      show "surplus w' q = 0" for q unfolding 2(4) surplus_put_sdata [OF w(3)] using i by (simp add: ps_inv_def)
    qed (use i in \<open>auto simp: 2(4) put_sdata_def ps_inv_def ps_flags_ok_def\<close>)
  qed (use i in simp)
qed

lemma tx_ps_buf_inv:
  assumes "ps_inv w" "\<And>p. tx_sta tx = Some p \<Longrightarrow> p \<in> set (sta_list w)" "total_ps_buffered w < TOTAL_MAX_TX_BUFFER"
    and d: "ieee80211_tx_h_ps_buf E tx w = Inr (res, tx', e, w')"
  shows "ps_inv w'"
proof (cases "tx_sta tx")
  case None
  then have "ieee80211_tx_h_unicast_ps_buf E tx w = Inr (res, tx', e, w') \<Longrightarrow> w' = w"
    by (auto simp: ieee80211_tx_h_unicast_ps_buf_def elim!: rbind_InrE)
  then show ?thesis using d assms(1) multicast_ps_buf_inv [OF assms(1,3)] by (auto simp: ieee80211_tx_h_ps_buf_def split: if_splits)
next
  case (Some p)
  then show ?thesis using d assms(1,2) unicast_ps_buf_inv [OF assms(1) Some _ assms(3)] multicast_ps_buf_inv [OF assms(1,3)]
    by (auto simp: ieee80211_tx_h_ps_buf_def split: if_splits)
qed

section \<open>Service periods\<close>

lemma release_frames_count:
  "release_frames n filtered buf = (frames, f, b, k, d) \<Longrightarrow> int (length b) = int (length buf) - d"
  by (induction n filtered buf arbitrary: frames f b k d rule: release_frames.induct) (auto split: prod.splits)

lemma release_frames_order:
  "release_frames n filtered buf = (frames, f, b, k, d) \<Longrightarrow> frames @ f @ b = filtered @ buf"
  by (induction n filtered buf arbitrary: frames f b k d rule: release_frames.induct) (auto split: prod.splits)

lemma get_frames_ac_count:
  assumes "ac < IEEE80211_NUM_ACS" "get_frames_ac ac n frames tids ps = (n', frames', tids', ps', d)"
  shows "sta_buffered (s\<lparr>sta_ps := ps'\<rparr>) = sta_buffered (s\<lparr>sta_ps := ps\<rparr>) - d"
proof -
  obtain f b new where ps': "ps' = ps\<lparr>tx_filtered := (tx_filtered ps)(ac := f), ps_tx_buf := (ps_tx_buf ps)(ac := b)\<rparr>"
      "(new, f, b, n', d) = (if tids' = 0 then release_frames n (tx_filtered ps ac) (ps_tx_buf ps ac)
          else ([], tx_filtered ps ac, ps_tx_buf ps ac, n, 0))"
    using assms(2) by (auto simp: get_frames_ac_def Let_def split: prod.splits)
  then have "int (length b) = int (length (ps_tx_buf ps ac)) - d"
    using release_frames_count [of n "tx_filtered ps ac" "ps_tx_buf ps ac" new f b n' d] by (auto split: if_splits)
  then show ?thesis using sta_buffered_upd [OF assms(1), of "s\<lparr>sta_ps := ps'\<rparr>" "s\<lparr>sta_ps := ps\<rparr>" b] ps'(1) by simp
qed

lemma get_frames_count:
  assumes "set acs \<subseteq> {..<IEEE80211_NUM_ACS}" "ieee80211_sta_ps_get_frames ign acs n frames tids ps tot = (frames', tids', ps', tot')"
  shows "sta_buffered (s\<lparr>sta_ps := ps'\<rparr>) - tot' = sta_buffered (s\<lparr>sta_ps := ps\<rparr>) - tot"
  using assms
proof (induction acs arbitrary: n frames tids ps tot)
  case (Cons ac acs)
  obtain n1 frames1 tids1 ps1 d where r: "get_frames_ac ac n frames tids ps = (n1, frames1, tids1, ps1, d)" by (metis prod_cases5)
  have c: "sta_buffered (s\<lparr>sta_ps := ps1\<rparr>) = sta_buffered (s\<lparr>sta_ps := ps\<rparr>) - d"
    using get_frames_ac_count [OF _ r] Cons.prems(1) by simp
  show ?case
    using Cons.prems Cons.IH [of n frames tids ps tot] Cons.IH [of n1 frames1 tids1 ps1 "tot - d"] r c by (auto split: if_splits)
qed simp

lemma null_response_world:
  "ieee80211_send_null_response E p tid reason call_driver more_data w = Inr (e, w') \<Longrightarrow> w' = w"
  by (auto simp: ieee80211_send_null_response_def Let_def split: if_splits option.splits elim!: rbind_InrE)

lemma then_psE:
  assumes "then_ps r f = Inr (e, w')"
  obtains e1 w1 e2 where "r = Inr (e1, w1)" "f w1 = Inr (e2, w')"
  using assms by (auto simp: then_ps_def elim!: rbind_InrE)

lemma deliver_response_inv:
  assumes i: "ps_inv w" and p: "p \<in> set (sta_list w)"
    and d: "ieee80211_sta_ps_deliver_response E p n ign reason w = Inr (e, w')"
  shows "ps_inv w'"
proof -
  obtain s where s: "stas w p = Some s" using d by (auto simp: ieee80211_sta_ps_deliver_response_def deref_Inr_iff elim!: rbind_InrE)
  obtain frames tids ps tot where g: "ieee80211_sta_ps_get_frames ign [0..<4] n [] 0 (sta_ps s) (total_ps_buffered w) = (frames, tids, ps, tot)"
    by (metis prod_cases4)
  let ?s = "(set_sta_flag WLAN_STA_SP s)\<lparr>sta_ps := ps\<rparr>"
  define w1 where "w1 = put_sta p ?s (w\<lparr>total_ps_buffered := tot\<rparr>)"
  have "sta_buffered ?s - tot = sta_buffered s - total_ps_buffered w"
    using get_frames_count [OF _ g, of s] by (simp add: sta_buffered_def atLeast0LessThan)
  then have i1: "ps_inv w1"
    unfolding w1_def using ps_inv_flags [OF i p s] by (intro ps_inv_put_sta [OF i p s]) simp_all
  have "w' = w1 \<or> (\<exists>e2. sta_info_recalc_tim E p w1 = Inr (e2, w'))"
    using d s g
    by (auto simp: ieee80211_sta_ps_deliver_response_def Let_def w1_def [symmetric] split: if_splits
        dest!: null_response_world elim!: rbind_InrE then_psE)
  then show ?thesis using i1 ps_inv_recalc by blast
qed

lemma ps_response_inv:
  assumes i: "ps_inv w" and p: "p \<in> set (sta_list w)"
  shows "ieee80211_sta_ps_deliver_poll_response E p w = Inr (e, w') \<Longrightarrow> ps_inv w'"
    "ieee80211_sta_ps_deliver_uapsd E p w = Inr (e, w') \<Longrightarrow> ps_inv w'"
  using deliver_response_inv [OF assms] i
  by (auto simp: ieee80211_sta_ps_deliver_poll_response_def ieee80211_sta_ps_deliver_uapsd_def Let_def split: if_splits elim!: rbind_InrE)

lemma rx_uapsd_and_pspoll_inv:
  assumes i: "ps_inv w" and p: "\<And>p. rx_sta rx = Some p \<Longrightarrow> p \<in> set (sta_list w)"
    and d: "ieee80211_rx_h_uapsd_and_pspoll E rx w = Inr (res, e, w')"
  shows "ps_inv w'"
proof (cases "rx_sta rx")
  case None
  then show ?thesis using d i by (simp add: ieee80211_rx_h_uapsd_and_pspoll_def)
next
  case (Some q)
  have poll: "ps_inv v" if "ieee80211_sta_pspoll E q w = Inr (e1, v)" for e1 v
    using that ps_response_inv(1) [OF i p [OF Some]] i ps_inv_flags [OF i p [OF Some]]
    by (auto simp: ieee80211_sta_pspoll_def deref_Inr_iff split: if_splits elim!: rbind_InrE)
  have trig: "ps_inv v" if "ieee80211_sta_uapsd_trigger E q tid w = Inr (e1, v)" for tid e1 v
    using that ps_response_inv(2) [OF i p [OF Some]] i ps_inv_flags [OF i p [OF Some]]
    by (auto simp: ieee80211_sta_uapsd_trigger_def deref_Inr_iff split: if_splits elim!: rbind_InrE)
  show ?thesis
    using d Some i poll trig by (auto simp: ieee80211_rx_h_uapsd_and_pspoll_def split: if_splits option.splits elim!: rbind_InrE)
qed

lemma sta_eosp_inv:
  assumes "ps_inv w" "p \<in> set (sta_list w)" "ieee80211_sta_eosp p w = Inr (e, w')"
  shows "ps_inv w'"
proof -
  obtain s where s: "stas w p = Some s" "w' = put_sta p (clear_sta_flag WLAN_STA_SP s) w"
    using assms(3) by (auto simp: ieee80211_sta_eosp_def deref_Inr_iff elim!: rbind_InrE)
  show ?thesis unfolding s(2) using ps_inv_flags [OF assms(1,2) s(1)] by (intro ps_inv_put_sta_same [OF assms(1,2) s(1)]) simp_all
qed

section \<open>Expiry\<close>

lemma expire_ac_inv:
  assumes i: "ps_inv w" and p: "p \<in> set (sta_list w)" "ac < IEEE80211_NUM_ACS"
    and d: "sta_info_cleanup_expire_buffered_ac E p ac w = Inr (b, e, w')"
  shows "ps_inv w' \<and> sta_list w' = sta_list w"
proof -
  obtain s sd where s: "stas w p = Some s" "sdatas w (sta_sdata s) = Some sd"
    using d by (auto simp: sta_info_cleanup_expire_buffered_ac_def deref_Inr_iff elim!: rbind_InrE)
  define ex where "ex = sta_info_buffer_expired E (listen_interval (sta_ps s)) (beacon_int sd)"
  let ?buf = "ps_tx_buf (sta_ps s) ac"
  let ?s = "s\<lparr>sta_ps := (sta_ps s)\<lparr>tx_filtered := (tx_filtered (sta_ps s))(ac := dropWhile ex (tx_filtered (sta_ps s) ac)),
      ps_tx_buf := (ps_tx_buf (sta_ps s))(ac := dropWhile ex ?buf)\<rparr>\<rparr>"
  let ?n = "total_ps_buffered w - int (length (takeWhile ex ?buf))"
  let ?w = "put_sta p ?s (w\<lparr>total_ps_buffered := ?n\<rparr>)"
  have "length ?buf = length (takeWhile ex ?buf) + length (dropWhile ex ?buf)" by (metis length_append takeWhile_dropWhile_id)
  then have "sta_buffered ?s = sta_buffered s - int (length (takeWhile ex ?buf))"
    using sta_buffered_upd [OF p(2), of ?s s "dropWhile ex ?buf"] by simp
  then have i1: "ps_inv ?w" using ps_inv_flags [OF i p(1) s(1)] by (intro ps_inv_put_sta [OF i p(1) s(1)]) simp_all
  obtain e2 where r: "sta_info_recalc_tim E p ?w = Inr (e2, w')"
    using d s by (auto simp: sta_info_cleanup_expire_buffered_ac_def Let_def ex_def elim!: rbind_InrE)
  have "ps_same ?w w'" using recalc_tim_same' [OF r] i1 by (simp add: ps_inv_def)
  then have "sta_list w' = sta_list w" by (simp add: ps_same_def ps_frame_def put_sta_def)
  then show ?thesis using ps_inv_recalc [OF i1 r] by simp
qed

lemma cleanup_seqE:
  assumes "rbind r (\<lambda>(b, e, w). rbind (f w) (\<lambda>(b', e', w). Inr (b \<or> b', e @ e', w))) = Inr (c, d, w' :: world)"
  obtains b1 e1 w1 b2 e2 where "r = Inr (b1, e1, w1)" "f w1 = Inr (b2, e2, w')"
proof -
  from assms obtain x where x: "r = Inr x"
      "(case x of (b, e, w) \<Rightarrow> rbind (f w) (\<lambda>(b', e', w). Inr (b \<or> b', e @ e', w))) = Inr (c, d, w')" by (rule rbind_InrE)
  obtain b1 e1 w1 where x1: "x = (b1, e1, w1)" by (cases x)
  with x(2) have "rbind (f w1) (\<lambda>(b', e', w). Inr (b1 \<or> b', e1 @ e', w)) = Inr (c, d, w')" by simp
  then obtain y where y: "f w1 = Inr y" "(case y of (b', e', w) \<Rightarrow> Inr (b1 \<or> b', e1 @ e', w)) = (Inr (c, d, w') :: _ result)" by (rule rbind_InrE)
  obtain b2 e2 w2 where "y = (b2, e2, w2)" by (cases y)
  with x(1) x1 y show thesis using that by simp
qed

lemma expire_acs_inv:
  assumes "ps_inv w" "p \<in> set (sta_list w)" "set acs \<subseteq> {..<IEEE80211_NUM_ACS}" "expire_acs E p acs w = Inr (b, e, w')"
  shows "ps_inv w' \<and> sta_list w' = sta_list w"
  using assms
proof (induction acs arbitrary: w b e)
  case (Cons ac acs)
  obtain b1 e1 w1 b2 e2 where 1: "sta_info_cleanup_expire_buffered_ac E p ac w = Inr (b1, e1, w1)" "expire_acs E p acs w1 = Inr (b2, e2, w')"
    using Cons.prems(4) unfolding expire_acs.simps cleanup_stas.simps by (rule cleanup_seqE)
  have 2: "ps_inv w1 \<and> sta_list w1 = sta_list w" using expire_ac_inv [OF Cons.prems(1,2) _ 1(1)] Cons.prems(3) by simp
  then show ?case using Cons.IH [OF _ _ _ 1(2)] Cons.prems(2,3) by simp
qed simp

lemma cleanup_stas_inv:
  assumes "ps_inv w" "set ps \<subseteq> set (sta_list w)" "cleanup_stas E ps w = Inr (b, e, w')"
  shows "ps_inv w'"
  using assms
proof (induction ps arbitrary: w b e)
  case (Cons p ps)
  obtain b1 e1 w1 b2 e2 where 1: "sta_info_cleanup_expire_buffered E p w = Inr (b1, e1, w1)" "cleanup_stas E ps w1 = Inr (b2, e2, w')"
    using Cons.prems(3) unfolding expire_acs.simps cleanup_stas.simps by (rule cleanup_seqE)
  have "ps_inv w1 \<and> sta_list w1 = sta_list w"
    using 1(1) expire_acs_inv [OF Cons.prems(1), of p "[0..<4]" E b1 e1 w1] Cons.prems(1,2)
    by (auto simp: sta_info_cleanup_expire_buffered_def atLeast0LessThan split: if_splits elim!: rbind_InrE)
  then show ?case using Cons.IH [OF _ _ 1(2)] Cons.prems(2) by simp
qed simp

section \<open>Runs\<close>

text \<open>
  The events of power save at an access point: a received frame (its power management bit, a poll or a trigger), the driver's report of the end of a service
  period, a frame to be sent while there is room for it, and the timer. Frames belong to listed stations.
\<close>

inductive ps_step :: "ps_env \<Rightarrow> world \<Rightarrow> world \<Rightarrow> bool" for E where
  rx_pm_bit: "rx_power_save_bit E rx p w = Inr (e, w') \<Longrightarrow> p \<in> set (sta_list w) \<Longrightarrow> ps_step E w w'"
| rx_poll: "ieee80211_rx_h_uapsd_and_pspoll E rx w = Inr (res, e, w') \<Longrightarrow> (\<forall>p. rx_sta rx = Some p \<longrightarrow> p \<in> set (sta_list w)) \<Longrightarrow>
    ps_step E w w'"
| eosp: "ieee80211_sta_eosp p w = Inr (e, w') \<Longrightarrow> p \<in> set (sta_list w) \<Longrightarrow> ps_step E w w'"
| tx_frame: "ieee80211_tx_h_ps_buf E tx w = Inr (res', tx', e, w') \<Longrightarrow> (\<forall>p. tx_sta tx = Some p \<longrightarrow> p \<in> set (sta_list w)) \<Longrightarrow>
    total_ps_buffered w < TOTAL_MAX_TX_BUFFER \<Longrightarrow> ps_step E w w'"
| timer: "sta_info_cleanup E quiescing w = Inr (b, e, w') \<Longrightarrow> ps_step E w w'"

lemma ps_step_inv: "ps_step E w w' \<Longrightarrow> ps_inv w \<Longrightarrow> ps_inv w'"
proof (induction rule: ps_step.induct)
  case (timer quiescing w b e w')
  then obtain b1 where "cleanup_stas E (sta_list w) w = Inr (b1, e, w')" by (fastforce simp: sta_info_cleanup_def elim!: rbind_InrE)
  then show ?case using cleanup_stas_inv [of w "sta_list w" E] timer(2) by blast
next
  case (rx_pm_bit rx p w e w')
  then show ?case using rx_power_save_bit_inv by blast
next
  case (rx_poll rx w res e w')
  then show ?case using rx_uapsd_and_pspoll_inv by blast
next
  case (eosp p w e w')
  then show ?case using sta_eosp_inv by blast
next
  case (tx_frame tx w res' tx' e w')
  then show ?case using tx_ps_buf_inv by blast
qed

lemma ps_run_inv: "(ps_step E)\<^sup>*\<^sup>* w w' \<Longrightarrow> ps_inv w \<Longrightarrow> ps_inv w'"
  by (induction rule: rtranclp_induct) (auto intro: ps_step_inv)

section \<open>Making room\<close>

lemma purge_sta_acs_count:
  assumes "purge_sta_acs acs bufs = (n, freed, bufs')" "distinct acs"
  shows "n \<le> (\<Sum>ac\<leftarrow>acs. int (length (bufs' ac)))"
    "\<lbrakk>a \<in> set acs; b \<in> set acs; a \<noteq> b; bufs a \<noteq> []; bufs b \<noteq> []\<rbrakk> \<Longrightarrow>
      n < (\<Sum>ac\<leftarrow>acs. int (length (bufs' ac)))"
  using assms
proof (induction acs)
  case (Cons ac acs)
  { case 1
    show ?case
    proof (cases "bufs ac")
      case Nil
      then show ?thesis using Cons.IH(1) 1 by simp
    next
      case (Cons skb rest)
      then show ?thesis using 1 by (auto intro!: sum_list_nonneg)
    qed
  next
    case 2
    show ?case
    proof (cases "bufs ac")
      case Nil
      then show ?thesis using Cons.IH(2) 2 by auto
    next
      case (Cons skb rest)
      then have b: "bufs' = bufs(ac := rest)" "n = int (length rest)" using 2 by auto
      obtain c where c: "c \<in> set acs" "c \<noteq> ac" "bufs c \<noteq> []" using 2 by auto
      have "1 \<le> int (length (bufs' c))" using b(1) c(2,3) by (cases "bufs c") auto
      also have "\<dots> \<le> (\<Sum>ac\<leftarrow>acs. int (length (bufs' ac)))"
        using c(1) by (intro member_le_sum_list) auto
      finally show ?thesis using b by simp
    qed }
qed simp_all

lemma purge_bc_bufs_count:
  assumes "distinct sps" "\<forall>sp\<in>set sps. sdatas w sp \<noteq> None"
  shows "\<exists>t freed w'. purge_bc_bufs sps w = Inr (t, freed, w') \<and> stas w' = stas w \<and> sta_list w' = sta_list w \<and>
    interfaces w' = interfaces w \<and> (\<forall>sp. sp \<notin> set sps \<longrightarrow> sdatas w' sp = sdatas w sp) \<and>
    t = (\<Sum>sp\<leftarrow>sps. case sdatas w' sp of None \<Rightarrow> 0 | Some sd \<Rightarrow> bc_buffered sd)"
  using assms
proof (induction sps arbitrary: w)
  case (Cons sp sps)
  obtain sd where sd: "sdatas w sp = Some sd" using Cons.prems(2) by auto
  let ?sd = "if vif_type sd = NL80211_IFTYPE_AP then sd\<lparr>sdata_ps := (sdata_ps sd)\<lparr>bc_buf := tl (bc_buf (sdata_ps sd))\<rparr>\<rparr> else sd"
  let ?w = "if vif_type sd = NL80211_IFTYPE_AP then put_sdata sp ?sd w else w"
  have v: "\<forall>q\<in>set sps. sdatas ?w q \<noteq> None" using Cons.prems by (auto simp: put_sdata_def)
  obtain t freed w' where r: "purge_bc_bufs sps ?w = Inr (t, freed, w')" "stas w' = stas ?w" "sta_list w' = sta_list ?w"
      "interfaces w' = interfaces ?w" "\<forall>q. q \<notin> set sps \<longrightarrow> sdatas w' q = sdatas ?w q"
      "t = (\<Sum>sp\<leftarrow>sps. case sdatas w' sp of None \<Rightarrow> 0 | Some sd \<Rightarrow> bc_buffered sd)"
    using Cons.IH [OF _ v] Cons.prems(1) by auto
  have "sdatas w' sp = Some ?sd" using r(5) Cons.prems(1) sd by (simp add: put_sdata_def)
  then show ?case
    using r sd Cons.prems(1) by (cases "vif_type sd = NL80211_IFTYPE_AP") (auto simp: put_sdata_def bc_buffered_def Let_def)
qed simp

definition two_queues_used :: "sta_info \<Rightarrow> bool" where
  "two_queues_used s \<longleftrightarrow> (\<exists>a b. a < b \<and> b < IEEE80211_NUM_ACS \<and> ps_tx_buf (sta_ps s) a \<noteq> [] \<and> ps_tx_buf (sta_ps s) b \<noteq> [])"

lemma purge_sta_count:
  assumes "purge_sta_acs [3, 2, 1, 0] (ps_tx_buf (sta_ps s)) = (n, freed, bufs)"
  shows "n \<le> sta_buffered (s\<lparr>sta_ps := (sta_ps s)\<lparr>ps_tx_buf := bufs\<rparr>\<rparr>)"
    "two_queues_used s \<Longrightarrow> n < sta_buffered (s\<lparr>sta_ps := (sta_ps s)\<lparr>ps_tx_buf := bufs\<rparr>\<rparr>)"
proof -
  let ?s = "s\<lparr>sta_ps := (sta_ps s)\<lparr>ps_tx_buf := bufs\<rparr>\<rparr>"
  have sum: "sta_buffered ?s = (\<Sum>ac\<leftarrow>[3, 2, 1, 0]. int (length (bufs ac)))" by (simp add: sta_buffered_def upt_rec numeral_eq_Suc)
  show "n \<le> sta_buffered ?s" unfolding sum using purge_sta_acs_count(1) [OF assms] by simp
  assume "two_queues_used s"
  then obtain a b where "a < b" "b < 4" "ps_tx_buf (sta_ps s) a \<noteq> []" "ps_tx_buf (sta_ps s) b \<noteq> []" by (auto simp: two_queues_used_def)
  moreover have "a \<in> set [3, 2, 1, 0]" "b \<in> set [3, 2, 1, 0]" using calculation(1,2) by auto
  ultimately show "n < sta_buffered ?s" unfolding sum using purge_sta_acs_count(2) [OF assms, of a b] by simp
qed

lemma purge_sta_bufs_count:
  assumes "distinct ps" "\<forall>p\<in>set ps. stas w p \<noteq> None"
  shows "\<exists>t freed w'. purge_sta_bufs ps w = Inr (t, freed, w') \<and> sdatas w' = sdatas w \<and> sta_list w' = sta_list w \<and>
    interfaces w' = interfaces w \<and> (\<forall>p. p \<notin> set ps \<longrightarrow> stas w' p = stas w p) \<and>
    t \<le> (\<Sum>p\<leftarrow>ps. case stas w' p of None \<Rightarrow> 0 | Some s \<Rightarrow> sta_buffered s) \<and>
    ((\<exists>p\<in>set ps. \<exists>s. stas w p = Some s \<and> two_queues_used s) \<longrightarrow>
      t < (\<Sum>p\<leftarrow>ps. case stas w' p of None \<Rightarrow> 0 | Some s \<Rightarrow> sta_buffered s))"
  using assms
proof (induction ps arbitrary: w)
  case (Cons p ps)
  obtain s where s: "stas w p = Some s" using Cons.prems(2) by auto
  obtain n f bufs where a: "purge_sta_acs [3, 2, 1, 0] (ps_tx_buf (sta_ps s)) = (n, f, bufs)" by (metis prod_cases3)
  let ?s = "s\<lparr>sta_ps := (sta_ps s)\<lparr>ps_tx_buf := bufs\<rparr>\<rparr>"
  let ?w = "put_sta p ?s w"
  have v: "\<forall>q\<in>set ps. stas ?w q \<noteq> None" using Cons.prems by (auto simp: put_sta_def)
  obtain t freed w' where r: "purge_sta_bufs ps ?w = Inr (t, freed, w')" "sdatas w' = sdatas ?w" "sta_list w' = sta_list ?w"
      "interfaces w' = interfaces ?w" "\<forall>q. q \<notin> set ps \<longrightarrow> stas w' q = stas ?w q"
      "t \<le> (\<Sum>p\<leftarrow>ps. case stas w' p of None \<Rightarrow> 0 | Some s \<Rightarrow> sta_buffered s)"
      "(\<exists>p\<in>set ps. \<exists>s. stas ?w p = Some s \<and> two_queues_used s) \<longrightarrow> t < (\<Sum>p\<leftarrow>ps. case stas w' p of None \<Rightarrow> 0 | Some s \<Rightarrow> sta_buffered s)"
    using Cons.IH [OF _ v] Cons.prems(1) by auto
  have p': "stas w' p = Some ?s" using r(5) Cons.prems(1) by (simp add: put_sta_def)
  have q: "stas ?w q = stas w q" if "q \<in> set ps" for q using that Cons.prems(1) by (auto simp: put_sta_def)
  have strict: "n + t < sta_buffered ?s + (\<Sum>p\<leftarrow>ps. case stas w' p of None \<Rightarrow> 0 | Some s \<Rightarrow> sta_buffered s)"
    if "\<exists>q\<in>set (p # ps). \<exists>s. stas w q = Some s \<and> two_queues_used s"
  proof (cases "two_queues_used s")
    case True
    then show ?thesis using purge_sta_count(2) [OF a] r(6) by simp
  next
    case False
    then have "\<exists>q\<in>set ps. \<exists>s. stas ?w q = Some s \<and> two_queues_used s" using that s q by auto
    then show ?thesis using purge_sta_count(1) [OF a] r(7) by simp
  qed
  show ?case
    using s a r(1-6) p' purge_sta_count(1) [OF a] strict by (simp add: put_sta_def)
qed simp

section \<open>Delivery in order\<close>

text \<open>What buffering writes into a frame.\<close>

definition buffered_form :: "ps_env \<Rightarrow> sdata_ptr option \<Rightarrow> sk_buff \<Rightarrow> sk_buff" where
  "buffered_form E sp skb =
     skb\<lparr>info_jiffies := ps_jiffies E, info_vif := sp,
        info_flags := (info_flags skb OR IEEE80211_TX_INTFL_NEED_TXPROCESSING) AND NOT IEEE80211_TX_TEMPORARY_FLAGS\<rparr>"

text \<open>A sequence of frames to send, all of which are to be buffered.\<close>

fun buffer_all :: "ps_env \<Rightarrow> ieee80211_tx_data list \<Rightarrow> world \<Rightarrow> world option" where
  "buffer_all E [] w = Some w"
| "buffer_all E (tx # txs) w =
     (case ieee80211_tx_h_ps_buf E tx w of Inr (TX_QUEUED, _, _, w) \<Rightarrow> buffer_all E txs w | _ \<Rightarrow> None)"

text \<open>A station of an access point whose map has room for its identifier.\<close>

definition ap_station :: "world \<Rightarrow> sta_ptr \<Rightarrow> sta_info \<Rightarrow> bool" where
  "ap_station w p s \<longleftrightarrow> stas w p = Some s \<and>
     (\<exists>bp b. sta_bss w s = Some bp \<and> sdatas w bp = Some b \<and> unat (sta_aid (sta_ps s)) div 8 < length (ps_tim (sdata_ps b)))"

text \<open>A data frame for the station \<open>p\<close> from the interface \<open>sp\<close>.\<close>

definition data_for :: "sta_ptr \<Rightarrow> sdata_ptr \<Rightarrow> ieee80211_tx_data \<Rightarrow> sk_buff \<Rightarrow> bool" where
  "data_for p sp tx skb \<longleftrightarrow> tx_sta tx = Some p \<and> tx_sdata tx = Some sp \<and> tx_skb tx = Some skb \<and>
     tx_flags tx AND IEEE80211_TX_PS_BUFFERED = 0 \<and> tx_flags tx AND IEEE80211_TX_UNICAST \<noteq> 0 \<and>
     info_flags skb AND IEEE80211_TX_CTL_NO_PS_BUFFER = 0 \<and> skb_queue_mapping skb < IEEE80211_NUM_ACS \<and>
     (\<exists>fc. hdr_fc (skb_data skb) = Inr fc \<and> \<not> ieee80211_is_mgmt fc)"

lemma recalc_tim_ok:
  assumes "ap_station w p s"
  shows "\<exists>e w'. sta_info_recalc_tim E p w = Inr (e, w') \<and> stas w' = stas w \<and> total_ps_buffered w' = total_ps_buffered w \<and> ap_station w' p s"
proof -
  obtain bp b where b: "stas w p = Some s" "sta_bss w s = Some bp" "sdatas w bp = Some b"
      "unat (sta_aid (sta_ps s)) div 8 < length (ps_tim (sdata_ps b))" using assms by (auto simp: ap_station_def)
  obtain sd where sd: "sdatas w (sta_sdata s) = Some sd" "sdata_bss sd = Some bp"
      "vif_type sd = NL80211_IFTYPE_AP \<or> vif_type sd = NL80211_IFTYPE_AP_VLAN"
    using b(2) by (auto simp: sta_bss_def split: option.splits if_splits)
  have after: "ap_station (put_sdata bp (b\<lparr>sdata_ps := (sdata_ps b)\<lparr>ps_tim := tim\<rparr>\<rparr>) w) p s" if "length tim = length (ps_tim (sdata_ps b))" for tim
    using b that ps_frame_sta_bss [OF put_sdata_ps_frame [OF b(3)] refl, of "(sdata_ps b)\<lparr>ps_tim := tim\<rparr>" s]
    by (auto simp: ap_station_def put_sdata_def)
  show ?thesis
    using b sd after assms
    by (auto simp: sta_info_recalc_tim_def sta_info_recalc_tim_gen_def Let_def bss_tim_get_def bss_tim_set_def bss_tim_clear_def)
      (auto simp: put_sdata_def)
qed

lemma buffer_one:
  fixes E :: ps_env
  assumes st: "ap_station w p s" "sta_ps_blocked s" and f: "data_for p sp tx skb"
    and room: "total_ps_buffered w < TOTAL_MAX_TX_BUFFER" "length (ps_tx_buf (sta_ps s) (skb_queue_mapping skb)) < STA_MAX_TX_BUFFER"
  defines "s' \<equiv> s\<lparr>sta_ps := (sta_ps s)\<lparr>ps_tx_buf := (ps_tx_buf (sta_ps s))
      (skb_queue_mapping skb := ps_tx_buf (sta_ps s) (skb_queue_mapping skb) @ [buffered_form E (Some sp) skb])\<rparr>\<rparr>"
  shows "\<exists>tx' e w'. ieee80211_tx_h_ps_buf E tx w = Inr (TX_QUEUED, tx', e, w') \<and> ap_station w' p s' \<and>
    total_ps_buffered w' = total_ps_buffered w + 1"
proof -
  have full: "purge_if_full w = Inr ([], w)" using room by (simp add: purge_if_full_def)
  let ?w = "put_sta p s' (w\<lparr>total_ps_buffered := total_ps_buffered w + 1\<rparr>)"
  have "sta_bss ?w s' = sta_bss w s" by (simp add: sta_bss_def put_sta_def s'_def)
  then have "ap_station ?w p s'" using st(1) by (auto simp: ap_station_def put_sta_def s'_def)
  then obtain e w' where r: "sta_info_recalc_tim E p ?w = Inr (e, w')" "total_ps_buffered w' = total_ps_buffered ?w" "ap_station w' p s'"
    using recalc_tim_ok by blast
  have "stas w p = Some s" using st(1) by (simp add: ap_station_def)
  then show ?thesis
    using f st(2) full room(2) r(1) [unfolded s'_def buffered_form_def] r(2,3)
    by (auto simp: ieee80211_tx_h_ps_buf_def ieee80211_tx_h_unicast_ps_buf_def data_for_def tx_skb_of_def Let_def buffer_frame_def put_sta_def)
qed

definition queue_of :: "nat \<Rightarrow> sk_buff list \<Rightarrow> sk_buff list" where
  "queue_of ac = filter (\<lambda>skb. skb_queue_mapping skb = ac)"

lemma queue_of_buffered_form:
  "queue_of ac (map (buffered_form E sp) skbs) = map (buffered_form E sp) (queue_of ac skbs)"
  by (induction skbs) (simp_all add: queue_of_def buffered_form_def)

lemma buffer_all_ok:
  assumes "ap_station w p s" "sta_ps_blocked s" "list_all2 (data_for p sp) txs skbs"
    "total_ps_buffered w + int (length skbs) \<le> TOTAL_MAX_TX_BUFFER"
    "\<forall>ac. length (ps_tx_buf (sta_ps s) ac) + length skbs \<le> STA_MAX_TX_BUFFER"
  shows "\<exists>w'. buffer_all E txs w = Some w' \<and> total_ps_buffered w' = total_ps_buffered w + int (length skbs) \<and>
    ap_station w' p (s\<lparr>sta_ps := (sta_ps s)\<lparr>ps_tx_buf :=
      (\<lambda>ac. ps_tx_buf (sta_ps s) ac @ queue_of ac (map (buffered_form E (Some sp)) skbs))\<rparr>\<rparr>)"
  using assms(3,1,2,4,5)
proof (induction arbitrary: w s rule: list_all2_induct)
  case Nil
  then show ?case by (simp add: queue_of_def)
next
  case (Cons tx txs skb skbs)
  let ?b = "buffered_form E (Some sp) skb" and ?ac = "skb_queue_mapping skb"
  let ?s = "s\<lparr>sta_ps := (sta_ps s)\<lparr>ps_tx_buf := (ps_tx_buf (sta_ps s))(?ac := ps_tx_buf (sta_ps s) ?ac @ [?b])\<rparr>\<rparr>"
  have room: "total_ps_buffered w < 512" "length (ps_tx_buf (sta_ps s) ?ac) < 64"
    using Cons.prems(3) Cons.prems(4) [THEN spec, of ?ac] by simp_all
  obtain tx' e w1 where 1: "ieee80211_tx_h_ps_buf E tx w = Inr (TX_QUEUED, tx', e, w1)" "ap_station w1 p ?s"
      "total_ps_buffered w1 = total_ps_buffered w + 1"
    using buffer_one [OF Cons.prems(1,2) Cons.hyps(1) room] by blast
  have 2: "sta_ps_blocked ?s" "total_ps_buffered w1 + int (length skbs) \<le> 512" "\<forall>ac. length (ps_tx_buf (sta_ps ?s) ac) + length skbs \<le> 64"
    using Cons.prems(2-4) 1(3) by (auto simp: sta_ps_blocked_def intro: le_trans [of _ "63 :: nat"])
  have "(\<lambda>ac. ps_tx_buf (sta_ps ?s) ac @ queue_of ac (map (buffered_form E (Some sp)) skbs)) =
      (\<lambda>ac. ps_tx_buf (sta_ps s) ac @ queue_of ac (map (buffered_form E (Some sp)) (skb # skbs)))"
    by (rule ext) (simp add: queue_of_def buffered_form_def)
  moreover obtain w2 where "buffer_all E txs w1 = Some w2" "total_ps_buffered w2 = total_ps_buffered w1 + int (length skbs)"
      "ap_station w2 p (?s\<lparr>sta_ps := (sta_ps ?s)\<lparr>ps_tx_buf :=
        (\<lambda>ac. ps_tx_buf (sta_ps ?s) ac @ queue_of ac (map (buffered_form E (Some sp)) skbs))\<rparr>\<rparr>)"
    using Cons.IH [OF 1(2) 2] by blast
  ultimately show ?case using 1(1,3) by (intro exI [of _ w2]) simp
qed

lemma wakeup_pending:
  assumes st: "ap_station w p s"
  shows "\<exists>e w'. ieee80211_sta_ps_deliver_wakeup E p w = Inr (e, w') \<and>
    Add_Pending (concat (map (\<lambda>ac. tx_filtered (sta_ps s) ac @ ps_tx_buf (sta_ps s) ac) [0..<IEEE80211_NUM_ACS])) \<in> set e \<and>
    total_ps_buffered w' = total_ps_buffered w - sta_buffered s \<and>
    (\<exists>s'. stas w' p = Some s' \<and> (\<forall>ac. ps_tx_buf (sta_ps s') ac = [] \<and> tx_filtered (sta_ps s') ac = []))"
proof -
  obtain bp b where b: "stas w p = Some s" "sta_bss w s = Some bp" "sdatas w bp = Some b"
      "unat (sta_aid (sta_ps s)) div 8 < length (ps_tim (sdata_ps b))" using st by (auto simp: ap_station_def)
  obtain sd where sd: "sdatas w (sta_sdata s) = Some sd" "ps_bss sd = Inr (Some bp)"
    using b(2) by (auto simp: sta_bss_def ps_bss_def split: option.splits if_splits)
  define s' where "s' = clear_sta_flag WLAN_STA_UAPSD (clear_sta_flag WLAN_STA_PSPOLL (clear_sta_flag WLAN_STA_PS_DELIVER
      (clear_sta_flag WLAN_STA_SP (s\<lparr>sta_ps := (sta_ps s)\<lparr>driver_buffered_tids := 0, txq_buffered_tids := 0,
          tx_filtered := (\<lambda>_. []), ps_tx_buf := (\<lambda>_. [])\<rparr>\<rparr>))))"
  define w1 where "w1 = put_sta p s' w"
  define w2 where "w2 = put_sdata bp (b\<lparr>sdata_ps := (sdata_ps b)\<lparr>num_sta_ps := num_sta_ps (sdata_ps b) - 1\<rparr>\<rparr>) w1"
  let ?w3 = "w2\<lparr>total_ps_buffered := total_ps_buffered w - sta_buffered s\<rparr>"
  have s': "sta_sdata s' = sta_sdata s" "sta_aid (sta_ps s') = sta_aid (sta_ps s)" by (simp_all add: s'_def)
  have b1: "sdatas w1 bp = Some b" using b by (simp add: w1_def put_sta_def)
  have fr: "ps_frame w w2" unfolding w2_def
    using ps_frame_trans [OF put_sta_frame [OF b(1) s'(1), folded w1_def] put_sdata_ps_frame [OF b1]] .
  have t: "total_ps_buffered w2 = total_ps_buffered w" by (simp add: w2_def w1_def put_sdata_def put_sta_def)
  have "ps_frame w ?w3" using fr by simp
  then have "ap_station ?w3 p s'"
    using b s' ps_frame_sta_bss [of w ?w3 s' s] by (auto simp: ap_station_def w2_def w1_def put_sdata_def put_sta_def)
  then obtain e w' where r: "sta_info_recalc_tim E p ?w3 = Inr (e, w')" "stas w' = stas ?w3" "total_ps_buffered w' = total_ps_buffered ?w3"
    using recalc_tim_ok by blast
  have st': "stas w' p = Some s'" using r(2) by (simp add: w2_def w1_def put_sdata_def put_sta_def)
  show ?thesis
    using b(1,3) sd b1 r st' t
    by (auto simp: ieee80211_sta_ps_deliver_wakeup_def Let_def add_num_sta_ps_def then_ps_def s'_def [symmetric] w1_def [symmetric]
        w2_def [symmetric] sta_buffered_def [symmetric]) (simp_all add: s'_def)
qed

text \<open>The count of an interface against its sleeping stations, step by step.\<close>

definition ps_shift :: "sta_ptr \<Rightarrow> sdata_ptr \<Rightarrow> int \<Rightarrow> world \<Rightarrow> world \<Rightarrow> sta_info \<Rightarrow> bool" where
  "ps_shift p bp d w w' s' \<longleftrightarrow> ps_frame w w' \<and> ap_station w' p s' \<and> sta_bss w' s' = Some bp \<and> surplus w' bp = surplus w bp + d"

lemma put_sta_shift:
  assumes "ps_wf w" "p \<in> set (sta_list w)" "ap_station w p s" "sta_bss w s = Some bp" "sta_sdata s' = sta_sdata s"
    "sta_aid (sta_ps s') = sta_aid (sta_ps s)"
  shows "ps_shift p bp (asleep s - asleep s') w (put_sta p s' w) s'"
proof -
  have s: "stas w p = Some s" using assms(3) by (simp add: ap_station_def)
  note fr = put_sta_frame [OF s assms(5)]
  have "sta_bss (put_sta p s' w) s' = Some bp" using ps_frame_sta_bss [OF fr assms(5)] assms(4) by simp
  then show ?thesis
    using fr assms surplus_put_sta [OF assms(1,2) s assms(5), of bp] by (auto simp: ps_shift_def ap_station_def put_sta_def)
qed

lemma block_awake_shift:
  assumes "ps_wf w" "p \<in> set (sta_list w)" "ap_station w p s" "sta_bss w s = Some bp" "test_sta_flag WLAN_STA_PS_STA s"
    "test_sta_flag WLAN_STA_PS_DRIVER s" "\<not> test_sta_flag WLAN_STA_PSPOLL s" "\<not> test_sta_flag WLAN_STA_UAPSD s"
  shows "\<exists>w' s'. ieee80211_sta_block_awake p False w = Inr ([Check_Fast_Xmit p], w') \<and> ps_shift p bp 0 w w' s' \<and>
    test_sta_flag WLAN_STA_PS_STA s' \<and> \<not> test_sta_flag WLAN_STA_PS_DRIVER s'"
  using put_sta_shift [OF assms(1-4), of "clear_sta_flag WLAN_STA_PS_DRIVER s"] assms
  by (intro exI [of _ "put_sta p (clear_sta_flag WLAN_STA_PS_DRIVER s) w"] exI [of _ "clear_sta_flag WLAN_STA_PS_DRIVER s"])
    (simp add: ieee80211_sta_block_awake_def ap_station_def)

lemma sta_ps_end_blocked_shift:
  fixes E :: ps_env
  assumes "ps_wf w" "p \<in> set (sta_list w)" "ap_station w p s" "sta_bss w s = Some bp" "test_sta_flag WLAN_STA_PS_STA s"
    "test_sta_flag WLAN_STA_PS_DRIVER s"
  defines "s' \<equiv> clear_sta_flag WLAN_STA_PS_STA s"
  shows "sta_ps_end E p w = Inr ([], put_sta p s' w)" "ps_shift p bp 1 w (put_sta p s' w) s'"
  using put_sta_shift [OF assms(1-4), of s'] assms by (simp_all add: sta_ps_end_def ap_station_def asleep_def)

lemma sta_ps_start_shift:
  assumes "ps_wf w" "p \<in> set (sta_list w)" "ap_station w p s" "sta_bss w s = Some bp" "\<not> test_sta_flag WLAN_STA_PS_STA s"
  shows "\<exists>e w' s'. sta_ps_start E p w = Inr (e, w') \<and> ps_shift p bp 0 w w' s' \<and>
    (\<forall>f. test_sta_flag f s' = (f = WLAN_STA_PS_STA \<or> test_sta_flag f s))"
proof -
  have s: "stas w p = Some s" using assms(3) by (simp add: ap_station_def)
  obtain sd where sd: "sdatas w (sta_sdata s) = Some sd" "ps_bss sd = Inr (Some bp)"
    using assms(4) by (auto simp: sta_bss_def ps_bss_def split: option.splits if_splits)
  obtain tids f where e: "sta_ps_start E p w =
      rbind (add_num_sta_ps 1 bp (put_sta p ((set_sta_flag WLAN_STA_PS_STA s)\<lparr>sta_ps := (sta_ps s)\<lparr>txq_buffered_tids := tids\<rparr>\<rparr>) w))
        (\<lambda>w. Inr (f, w))"
    using s sd by (simp add: sta_ps_start_def Let_def)
  let ?s = "(set_sta_flag WLAN_STA_PS_STA s)\<lparr>sta_ps := (sta_ps s)\<lparr>txq_buffered_tids := tids\<rparr>\<rparr>"
  have 1: "ps_shift p bp (- 1) w (put_sta p ?s w) ?s"
    using put_sta_shift [OF assms(1-4), of ?s] assms(5) by (simp add: asleep_def)
  obtain b where b: "sdatas (put_sta p ?s w) bp = Some b" "unat (sta_aid (sta_ps s)) div 8 < length (ps_tim (sdata_ps b))"
    using assms(3,4) by (auto simp: ap_station_def put_sta_def)
  let ?w = "put_sdata bp (b\<lparr>sdata_ps := (sdata_ps b)\<lparr>num_sta_ps := num_sta_ps (sdata_ps b) + 1\<rparr>\<rparr>) (put_sta p ?s w)"
  have fr: "ps_frame (put_sta p ?s w) ?w" by (rule put_sdata_ps_frame [OF b(1)])
  have "sta_bss ?w ?s = Some bp" using ps_frame_sta_bss [OF fr refl, of ?s] 1 by (simp add: ps_shift_def)
  then have "ps_shift p bp 0 w ?w ?s"
    using 1 b ps_frame_trans [OF _ fr] surplus_put_sdata [OF b(1)] by (auto simp: ps_shift_def ap_station_def put_sdata_def put_sta_def)
  then show ?thesis using e b(1) by (intro exI conjI) (auto simp: add_num_sta_ps_def)
qed

lemma sta_ps_end_shift:
  assumes "ps_wf w" "p \<in> set (sta_list w)" "ap_station w p s" "sta_bss w s = Some bp" "test_sta_flag WLAN_STA_PS_STA s"
    "\<not> test_sta_flag WLAN_STA_PS_DRIVER s"
  shows "\<exists>e w'. sta_ps_end E p w = Inr (e, w') \<and> surplus w' bp = surplus w bp"
proof -
  let ?s = "clear_sta_flag WLAN_STA_PS_STA (set_sta_flag WLAN_STA_PS_DELIVER s)"
  let ?w = "put_sta p ?s w"
  have 1: "ps_shift p bp 1 w ?w ?s" using put_sta_shift [OF assms(1-4), of ?s] assms(5) by (simp add: asleep_def)
  then have p: "ps_wf ?w" "p \<in> set (sta_list ?w)" "stas ?w p = Some ?s" "sta_bss ?w ?s = Some bp"
    using ps_frame_wf assms(1,2) by (auto simp: ps_shift_def ap_station_def put_sta_def)
  obtain e w' where 2: "ieee80211_sta_ps_deliver_wakeup E p ?w = Inr (e, w')" using 1 wakeup_pending unfolding ps_shift_def by blast
  then show ?thesis
    using deliver_wakeup_counts [OF p 2] 1 assms(3,6) by (auto simp: sta_ps_end_def ps_shift_def ap_station_def)
qed

section \<open>Properties\<close>

text \<open>
  C12: Over any run of power-save events at an access point (frames received with their power management bit, polls and triggers, frames to send, the
  expiry timer) that does not fill the buffers, the count of buffered frames is the number of frames in the buffers, and the count of sleeping stations of every
  interface is the number of its listed stations that are asleep.
\<close>

theorem ps_counters_exact:
  assumes "ps_inv w" and "(ps_step E)\<^sup>*\<^sup>* w w'"
  shows "total_ps_buffered w' = buffered_frames w' \<and>
    (\<forall>bp b. sdatas w' bp = Some b \<longrightarrow> num_sta_ps (sdata_ps b) = sleeping_stations w' bp)"
  using ps_run_inv [OF assms(2,1)] by (simp add: ps_inv_def excess_def surplus_def ps_count_def) (metis option.simps(5))

text \<open>
  When the buffers are full, the oldest frames are purged and the frames left are counted afresh; but the search through a station's queues ends at
  the first one in use, so the frames in its queues of higher priority are not counted: the new total is too low as soon as a station has
  frames in two queues.
\<close>

theorem purge_undercounts:
  assumes "ps_wf w" and "\<forall>sp\<in>set (interfaces w). sdatas w sp \<noteq> None"
    and "p \<in> set (sta_list w)" and "stas w p = Some s" and "two_queues_used s"
  shows "\<exists>e w'. purge_old_ps_buffers w = Inr (e, w') \<and> total_ps_buffered w' < buffered_frames w'"
proof -
  have d: "distinct (interfaces w)" "distinct (sta_list w)" "\<forall>p\<in>set (sta_list w). stas w p \<noteq> None" using assms(1) by (simp_all add: ps_wf_def)
  obtain t1 f1 w1 where 1: "purge_bc_bufs (interfaces w) w = Inr (t1, f1, w1)" "stas w1 = stas w" "sta_list w1 = sta_list w"
      "interfaces w1 = interfaces w" "t1 = (\<Sum>sp\<leftarrow>interfaces w. case sdatas w1 sp of None \<Rightarrow> 0 | Some sd \<Rightarrow> bc_buffered sd)"
    using purge_bc_bufs_count [OF d(1) assms(2)] by blast
  have d1: "distinct (sta_list w)" "\<forall>p\<in>set (sta_list w). stas w1 p \<noteq> None" using d(2,3) 1(2) by simp_all
  obtain t2 f2 w2 where 2: "purge_sta_bufs (sta_list w) w1 = Inr (t2, f2, w2)" "sdatas w2 = sdatas w1" "sta_list w2 = sta_list w1"
      "interfaces w2 = interfaces w1" "t2 < (\<Sum>p\<leftarrow>sta_list w. case stas w2 p of None \<Rightarrow> 0 | Some s \<Rightarrow> sta_buffered s)"
    using purge_sta_bufs_count [OF d1] assms(3-5) 1(2) by auto
  show ?thesis
    using 1 2 by (intro exI conjI) (auto simp: purge_old_ps_buffers_def buffered_frames_def on_stas_def bc_total_def)
qed

text \<open>
  C13: No frame for a sleeping station is lost or overtaken. Data frames sent to it in any mix of access categories, as long as they fit the buffers, are
  all kept; when the station wakes up they are handed over for transmission by category, highest priority first, behind what was waiting in the category, in the order they
  were sent, and the buffers are empty.
\<close>

theorem sleeping_station_gets_all_in_order:
  assumes "ap_station w p s" and "test_sta_flag WLAN_STA_PS_STA s" and "\<not> test_sta_flag WLAN_STA_PS_DRIVER s"
    and "list_all2 (data_for p sp) txs skbs"
    and "total_ps_buffered w + int (length skbs) \<le> TOTAL_MAX_TX_BUFFER"
    and "\<forall>ac. length (ps_tx_buf (sta_ps s) ac) + length skbs \<le> STA_MAX_TX_BUFFER"
  shows "\<exists>w1 e w2. buffer_all E txs w = Some w1 \<and> sta_ps_end E p w1 = Inr (e, w2) \<and>
    Add_Pending (concat (map (\<lambda>ac. tx_filtered (sta_ps s) ac @ ps_tx_buf (sta_ps s) ac @
      map (buffered_form E (Some sp)) (queue_of ac skbs)) [0..<IEEE80211_NUM_ACS])) \<in> set e \<and>
    (\<exists>s'. stas w2 p = Some s' \<and> (\<forall>ac. ps_tx_buf (sta_ps s') ac = [] \<and> tx_filtered (sta_ps s') ac = []))"
proof -
  let ?s = "s\<lparr>sta_ps := (sta_ps s)\<lparr>ps_tx_buf := (\<lambda>ac. ps_tx_buf (sta_ps s) ac @ queue_of ac (map (buffered_form E (Some sp)) skbs))\<rparr>\<rparr>"
  have "sta_ps_blocked s" using assms(2) by (simp add: sta_ps_blocked_def)
  then obtain w1 where w1: "buffer_all E txs w = Some w1" "ap_station w1 p ?s" using buffer_all_ok [OF assms(1) _ assms(4-6)] by blast
  let ?s1 = "clear_sta_flag WLAN_STA_PS_STA (set_sta_flag WLAN_STA_PS_DELIVER ?s)"
  have p: "stas w1 p = Some ?s" using w1(2) by (simp add: ap_station_def)
  have "ps_frame w1 (put_sta p ?s1 w1)" by (rule put_sta_frame [OF p]) simp
  then have "ap_station (put_sta p ?s1 w1) p ?s1"
    using w1(2) ps_frame_sta_bss [of w1 "put_sta p ?s1 w1" ?s1 ?s] by (auto simp: ap_station_def put_sta_def)
  from wakeup_pending [OF this, of E] obtain e w2 where
    "ieee80211_sta_ps_deliver_wakeup E p (put_sta p ?s1 w1) = Inr (e, w2)"
    "Add_Pending (concat (map (\<lambda>ac. tx_filtered (sta_ps ?s1) ac @ ps_tx_buf (sta_ps ?s1) ac) [0..<IEEE80211_NUM_ACS])) \<in> set e"
    "\<exists>s'. stas w2 p = Some s' \<and> (\<forall>ac. ps_tx_buf (sta_ps s') ac = [] \<and> tx_filtered (sta_ps s') ac = [])" by blast
  then show ?thesis
    using w1(1) p assms(3) by (intro exI [of _ w1] exI [of _ e] exI [of _ w2]) (simp add: sta_ps_end_def queue_of_buffered_form)
qed

text \<open>
  While the driver holds a sleeping station back, its waking up leaves the count of sleeping stations alone until the driver lets go. If the station falls
  asleep again before that, it is counted a second time, and when it wakes up after the driver's release only one of the two is taken back: the count
  stays above the number of sleeping stations, and multicast frames are held back for nobody.
\<close>

theorem blocked_doze_counted_twice:
  assumes wf: "ps_wf w" and p: "p \<in> set (sta_list w)" "ap_station w p s" "sta_bss w s = Some bp"
    and f: "test_sta_flag WLAN_STA_PS_STA s" "test_sta_flag WLAN_STA_PS_DRIVER s" "\<not> test_sta_flag WLAN_STA_PSPOLL s"
      "\<not> test_sta_flag WLAN_STA_UAPSD s"
  shows "\<exists>e1 w1 e2 w2 e3 w3 e4 w4. sta_ps_end E p w = Inr (e1, w1) \<and> sta_ps_start E p w1 = Inr (e2, w2) \<and>
    ieee80211_sta_block_awake p False w2 = Inr (e3, w3) \<and> sta_ps_end E p w3 = Inr (e4, w4) \<and>
    ps_count w4 bp - sleeping_stations w4 bp = ps_count w bp - sleeping_stations w bp + 1"
proof -
  note b = sta_ps_end_blocked_shift [OF wf p f(1,2)]
  let ?s1 = "clear_sta_flag WLAN_STA_PS_STA s"
  let ?w1 = "put_sta p ?s1 w"
  have 1: "ps_wf ?w1" "p \<in> set (sta_list ?w1)" "ap_station ?w1 p ?s1" "sta_bss ?w1 ?s1 = Some bp" "surplus ?w1 bp = surplus w bp + 1"
    using b(2) ps_frame_wf [OF _ wf] p(1) by (auto simp: ps_shift_def put_sta_def)
  have n: "\<not> test_sta_flag WLAN_STA_PS_STA ?s1" by simp
  obtain e2 w2 s2 where 2: "sta_ps_start E p ?w1 = Inr (e2, w2)" "ps_shift p bp 0 ?w1 w2 s2"
      "\<forall>f. test_sta_flag f s2 = (f = WLAN_STA_PS_STA \<or> test_sta_flag f ?s1)"
    using sta_ps_start_shift [OF 1(1-4) n, of E] by blast
  have w2: "ps_wf w2" "p \<in> set (sta_list w2)" "ap_station w2 p s2" "sta_bss w2 s2 = Some bp" "surplus w2 bp = surplus ?w1 bp"
    using 2(2) ps_frame_wf [OF _ 1(1)] 1(2) by (auto simp: ps_shift_def ps_frame_def)
  obtain w3 s3 where 3: "ieee80211_sta_block_awake p False w2 = Inr ([Check_Fast_Xmit p], w3)" "ps_shift p bp 0 w2 w3 s3"
      "test_sta_flag WLAN_STA_PS_STA s3" "\<not> test_sta_flag WLAN_STA_PS_DRIVER s3"
    using block_awake_shift [OF w2(1-4)] 2(3) f by auto
  have w3: "ps_wf w3" "p \<in> set (sta_list w3)" "ap_station w3 p s3" "sta_bss w3 s3 = Some bp" "surplus w3 bp = surplus w2 bp"
    using 3(2) ps_frame_wf [OF _ w2(1)] w2(2) by (auto simp: ps_shift_def ps_frame_def)
  obtain e4 w4 where "sta_ps_end E p w3 = Inr (e4, w4)" "surplus w4 bp = surplus w3 bp"
    using sta_ps_end_shift [OF w3(1-4) 3(3,4)] by blast
  then show ?thesis using b(1) 2(1) 3(1) 1(5) w2(5) w3(5) by (auto simp: surplus_def)
qed

section \<open>Samples\<close>

text \<open>The sample access point with its own BSS, its station asleep and counted.\<close>

definition sample_ps_env :: ps_env where
  "sample_ps_env = \<lparr>ap_link_ps = False, has_set_tim = True, queue_control = False, cab_queue = 0, host_broadcast_ps_buffering = True,
     ps_jiffies = 5000, ps_hz = 250, txq_has_queue = (\<lambda>_ _. None), null_alloc = None, smps_update = (\<lambda>_. False), sta_disable_he = True, cleanup_pending = False\<rparr>"

definition sample_asleep :: "u64 \<Rightarrow> (nat \<Rightarrow> sk_buff list) \<Rightarrow> int \<Rightarrow> world" where
  "sample_asleep flags bufs n =
     (let w = sample_world NL80211_IFTYPE_AP (Some 3) 16; s = the (stas w 5); sd = the (sdatas w 2)
      in put_sdata 2 (sd\<lparr>sdata_bss := Some 2, sdata_ps := (sdata_ps sd)\<lparr>num_sta_ps := 1\<rparr>\<rparr>)
           (put_sta 5 (s\<lparr>sta_flags := flags, sta_ps := (sta_ps s)\<lparr>ps_tx_buf := bufs\<rparr>\<rparr>) (w\<lparr>total_ps_buffered := n\<rparr>)))"

definition sample_asleep_sta :: "u64 \<Rightarrow> (nat \<Rightarrow> sk_buff list) \<Rightarrow> sta_info" where
  "sample_asleep_sta flags bufs = the (stas (sample_asleep flags bufs 0) 5)"

lemma sample_asleep_simps:
  "sta_list (sample_asleep flags bufs n) = [5]" "interfaces (sample_asleep flags bufs n) = [2]"
  "total_ps_buffered (sample_asleep flags bufs n) = n"
  "stas (sample_asleep flags bufs n) 5 = Some (sample_asleep_sta flags bufs)"
  "sta_flags (sample_asleep_sta flags bufs) = flags" "sta_sdata (sample_asleep_sta flags bufs) = 2"
  "ps_tx_buf (sta_ps (sample_asleep_sta flags bufs)) = bufs" "unat (sta_aid (sta_ps (sample_asleep_sta flags bufs))) = 1"
  "tx_filtered (sta_ps (sample_asleep_sta flags bufs)) ac = []"
  "sdatas (sample_asleep flags bufs n) sp \<noteq> None \<longleftrightarrow> sp = 2"
  by (simp_all add: sample_asleep_sta_def sample_asleep_def sample_world_def Let_def put_sdata_def put_sta_def empty_sta_ps_def)

lemma sample_asleep_bss:
  "\<exists>sd. sdatas (sample_asleep flags bufs n) 2 = Some sd \<and> vif_type sd = NL80211_IFTYPE_AP \<and> sdata_bss sd = Some 2 \<and>
     num_sta_ps (sdata_ps sd) = 1 \<and> bc_buf (sdata_ps sd) = [] \<and> length (ps_tim (sdata_ps sd)) = 256"
  by (simp add: sample_asleep_def sample_world_def Let_def put_sdata_def put_sta_def empty_ps_data_def)

lemma sample_asleep_ok:
  shows "ps_wf (sample_asleep flags bufs n)" "ap_station (sample_asleep flags bufs n) 5 (sample_asleep_sta flags bufs)"
    "sta_bss (sample_asleep flags bufs n) (sample_asleep_sta flags bufs) = Some 2"
proof -
  obtain sd where sd: "sdatas (sample_asleep flags bufs n) 2 = Some sd" "vif_type sd = NL80211_IFTYPE_AP" "sdata_bss sd = Some 2"
      "length (ps_tim (sdata_ps sd)) = 256"
    using sample_asleep_bss by blast
  have only: "sp = 2" if "sdatas (sample_asleep flags bufs n) sp = Some x" for sp x using sample_asleep_simps(10) that by blast
  have "bp = 2" if "sdatas (sample_asleep flags bufs n) sp = Some x" "sdata_bss x = Some bp" for sp x bp
    using only [OF that(1)] that sd(1,3) by simp
  then show "ps_wf (sample_asleep flags bufs n)" unfolding ps_wf_def sample_asleep_simps(1-2)
    using sd(1,2) sample_asleep_simps(4) by simp blast
  show b: "sta_bss (sample_asleep flags bufs n) (sample_asleep_sta flags bufs) = Some 2" using sd by (simp add: sta_bss_def sample_asleep_simps)
  show "ap_station (sample_asleep flags bufs n) 5 (sample_asleep_sta flags bufs)" using sd b by (auto simp: ap_station_def sample_asleep_simps)
qed

lemma sample_asleep_inv: "ps_inv (sample_asleep 0x10000f (\<lambda>_. []) 0)"
proof -
  let ?w = "sample_asleep 0x10000f (\<lambda>_. []) 0" and ?s = "sample_asleep_sta 0x10000f (\<lambda>_. [])"
  obtain sd where sd: "sdatas ?w 2 = Some sd" "vif_type sd = NL80211_IFTYPE_AP" "num_sta_ps (sdata_ps sd) = 1" "bc_buf (sdata_ps sd) = []"
    using sample_asleep_bss by blast
  have f: "test_sta_flag 2 ?s" "\<not> test_sta_flag 9 ?s" "\<not> test_sta_flag 25 ?s"
    by (simp_all add: test_sta_flag_def sample_asleep_simps bit_numeral_rec)
  have "ps_flags_ok ?w" using f sample_asleep_ok(3) by (simp add: ps_flags_ok_def sample_asleep_simps)
  moreover have "excess ?w = 0" using sd by (simp add: excess_def buffered_frames_def on_stas_def bc_total_def sample_asleep_simps sta_buffered_def bc_buffered_def)
  moreover have "surplus ?w bp = 0" for bp
  proof (cases "bp = 2")
    case True
    then show ?thesis using sd f(1) sample_asleep_ok(3) by (simp add: surplus_def ps_count_def sleeping_stations_def on_stas_def sample_asleep_simps asleep_def)
  next
    case False
    then have "sdatas ?w bp = None" using sample_asleep_simps(10) by blast
    then show ?thesis using False sample_asleep_ok(3) by (simp add: surplus_def ps_count_def sleeping_stations_def on_stas_def sample_asleep_simps)
  qed
  ultimately show ?thesis using sample_asleep_ok(1) by (simp add: ps_inv_def)
qed

definition sample_ps_skb :: sk_buff where
  "sample_ps_skb = sample_skb\<lparr>skb_queue_mapping := 2\<rparr>"

definition sample_ps_tx :: ieee80211_tx_data where
  "sample_ps_tx = sample_tx\<lparr>tx_skb := Some sample_ps_skb, tx_flags := IEEE80211_TX_UNICAST\<rparr>"

lemma sample_ps_data_for: "data_for 5 2 sample_ps_tx sample_ps_skb"
proof -
  have "hdr_fc (skb_data sample_ps_skb) = Inr (frame_control sample_hdr)"
    using hdr_load_fields(2) [OF hdr_load_append [of sample_hdr "[1, 2, 3, 4]"]] by (simp add: sample_ps_skb_def sample_skb_def)
  then show ?thesis
    by (simp add: data_for_def sample_ps_tx_def sample_tx_def) (simp add: sample_ps_skb_def sample_skb_def sample_hdr_def ieee80211_is_mgmt_def)
qed

theorem ps_counters_exact_witness:
  "\<exists>res tx e w'. ieee80211_tx_h_ps_buf sample_ps_env sample_ps_tx (sample_asleep 0x10000f (\<lambda>_. []) 0) = Inr (res, tx, e, w') \<and>
     total_ps_buffered w' = buffered_frames w' \<and> total_ps_buffered w' = 1"
proof -
  let ?w = "sample_asleep 0x10000f (\<lambda>_. []) 0" and ?s = "sample_asleep_sta 0x10000f (\<lambda>_. [])"
  have "sta_ps_blocked ?s" by (simp add: sta_ps_blocked_def test_sta_flag_def sample_asleep_simps bit_numeral_rec)
  from buffer_one [OF sample_asleep_ok(2) this sample_ps_data_for, of 0 sample_ps_env]
  obtain tx e w' where b: "ieee80211_tx_h_ps_buf sample_ps_env sample_ps_tx ?w = Inr (TX_QUEUED, tx, e, w')" "total_ps_buffered w' = 1"
    by (auto simp: sample_asleep_simps)
  have "ps_step sample_ps_env ?w w'"
    by (rule ps_step.tx_frame [OF b(1)]) (simp_all add: sample_asleep_simps sample_ps_tx_def sample_tx_def)
  then have "(ps_step sample_ps_env)\<^sup>*\<^sup>* ?w w'" by blast
  then have "total_ps_buffered w' = buffered_frames w'" using ps_counters_exact [OF sample_asleep_inv] by blast
  then show ?thesis using b by blast
qed

theorem purge_undercounts_witness:
  "\<exists>e w'. purge_old_ps_buffers (sample_asleep 0x10000f ((\<lambda>_. [])(0 := [sample_skb], 2 := [sample_skb])) 2) = Inr (e, w') \<and>
     total_ps_buffered w' < buffered_frames w'"
proof -
  let ?b = "(\<lambda>_. [])(0 := [sample_skb], 2 := [sample_skb])"
  have "two_queues_used (sample_asleep_sta 0x10000f ?b)"
    unfolding two_queues_used_def by (rule exI [of _ 0], rule exI [of _ 2]) (simp add: sample_asleep_simps)
  moreover have "sdatas (sample_asleep 0x10000f ?b 2) 2 \<noteq> None" using sample_asleep_bss by fastforce
  ultimately show ?thesis
    using purge_undercounts [OF sample_asleep_ok(1) [of "0x10000f" ?b 2], of 5 "sample_asleep_sta 0x10000f ?b"]
    by (simp add: sample_asleep_simps)
qed

theorem sleeping_station_gets_all_in_order_witness:
  "\<exists>w1 e w2. buffer_all sample_ps_env [sample_ps_tx, sample_ps_tx] (sample_asleep 0x10000f (\<lambda>_. []) 0) = Some w1 \<and>
     sta_ps_end sample_ps_env 5 w1 = Inr (e, w2) \<and>
     Add_Pending (map (buffered_form sample_ps_env (Some 2)) [sample_ps_skb, sample_ps_skb]) \<in> set e"
proof -
  let ?s = "sample_asleep_sta 0x10000f (\<lambda>_. [])"
  have f: "test_sta_flag 2 ?s" "\<not> test_sta_flag 9 ?s" by (simp_all add: test_sta_flag_def sample_asleep_simps bit_numeral_rec)
  have q: "queue_of 2 [sample_ps_skb, sample_ps_skb] = [sample_ps_skb, sample_ps_skb]"
      "queue_of 0 [sample_ps_skb, sample_ps_skb] = []" "queue_of 1 [sample_ps_skb, sample_ps_skb] = []" "queue_of 3 [sample_ps_skb, sample_ps_skb] = []"
    by (simp_all add: queue_of_def sample_ps_skb_def)
  have l: "list_all2 (data_for 5 2) [sample_ps_tx, sample_ps_tx] [sample_ps_skb, sample_ps_skb]" using sample_ps_data_for by simp
  have acs: "[0..<IEEE80211_NUM_ACS] = [0, 1, 2, 3]" by (simp add: upt_rec)
  note t = sleeping_station_gets_all_in_order [OF sample_asleep_ok(2) f l, where E = sample_ps_env, of 0, unfolded acs]
  show ?thesis using t by (simp add: sample_asleep_simps q del: buffer_all.simps One_nat_def) blast
qed

theorem blocked_doze_counted_twice_witness:
  "\<exists>e1 w1 e2 w2 e3 w3 e4 w4. sta_ps_end sample_ps_env 5 (sample_asleep 0x10020f (\<lambda>_. []) 0) = Inr (e1, w1) \<and>
     sta_ps_start sample_ps_env 5 w1 = Inr (e2, w2) \<and> ieee80211_sta_block_awake 5 False w2 = Inr (e3, w3) \<and>
     sta_ps_end sample_ps_env 5 w3 = Inr (e4, w4) \<and> ps_count w4 2 = sleeping_stations w4 2 + 1"
proof -
  let ?w = "sample_asleep 0x10020f (\<lambda>_. []) 0" and ?s = "sample_asleep_sta 0x10020f (\<lambda>_. [])"
  have f: "test_sta_flag 2 ?s" "test_sta_flag 9 ?s" "\<not> test_sta_flag 10 ?s" "\<not> test_sta_flag 17 ?s"
    by (simp_all add: test_sta_flag_def sample_asleep_simps bit_numeral_rec)
  obtain sd where sd: "sdatas ?w 2 = Some sd" "num_sta_ps (sdata_ps sd) = 1" using sample_asleep_bss by blast
  have "ps_count ?w 2 = sleeping_stations ?w 2"
    using sd f(1) sample_asleep_ok(3) [of "0x10020f" "\<lambda>_. []" 0] by (simp add: ps_count_def sleeping_stations_def on_stas_def sample_asleep_simps asleep_def)
  moreover have "5 \<in> set (sta_list ?w)" by (simp add: sample_asleep_simps)
  ultimately show ?thesis
    using blocked_doze_counted_twice [OF sample_asleep_ok(1) _ sample_asleep_ok(2,3) f, of 0 sample_ps_env] by force
qed

end
