(* ===== verification/Key_Mgmt.thy ===== *)
theory Key_Mgmt
  imports Power_Save Cipher_Select
begin

text \<open>
  Key management (\<^verbatim>\<open>net/mac80211/key.c\<close>, and the key operations of \<^verbatim>\<open>net/mac80211/cfg.c\<close>): allocating, installing, replacing and removing
  the keys of stations and interfaces, their hand-over to the hardware, and the count of keys that need room for a software cipher. Freeing a key takes it out
  of the store, so that using it later faults.
\<close>

section \<open>Definitions\<close>

abbreviation (input) INVALID_PTK_KEYIDX :: nat where "INVALID_PTK_KEYIDX \<equiv> 2"
abbreviation (input) IEEE80211_KEY_FLAG_PAIRWISE :: u16 where "IEEE80211_KEY_FLAG_PAIRWISE \<equiv> 0x0008"
abbreviation (input) IEEE80211_KEY_FLAG_RX_MGMT :: u16 where "IEEE80211_KEY_FLAG_RX_MGMT \<equiv> 0x0040"
abbreviation (input) IEEE80211_KEY_FLAG_RESERVE_TAILROOM :: u16 where "IEEE80211_KEY_FLAG_RESERVE_TAILROOM \<equiv> 0x0080"
abbreviation (input) IEEE80211_KEY_FLAG_NO_AUTO_TX :: u16 where "IEEE80211_KEY_FLAG_NO_AUTO_TX \<equiv> 0x0200"
abbreviation (input) EOPNOTSUPP :: int where "EOPNOTSUPP \<equiv> 95"
abbreviation (input) ENOMEM :: int where "ENOMEM \<equiv> 12"
abbreviation (input) ENOENT :: int where "ENOENT \<equiv> 2"
abbreviation (input) ENETDOWN :: int where "ENETDOWN \<equiv> 100"

text \<open>
  The hardware and the driver: whether there is a \<open>set_key\<close> callback, its answer for a key with the configuration flags it adds, the
  hardware flags, and the cipher schemes with their cipher and bit mask of interface types.
\<close>

record key_env =
  has_set_key :: bool
  hw_set_key :: "key_ptr \<Rightarrow> int \<times> u16"
  supports_per_sta_gtk :: bool
  sw_crypto_control :: bool
  ampdu_keyborder_support :: bool
  ampdu_aggregation :: bool
  can_replace_ptk0 :: bool
  ext_key_id :: bool
  wowlan :: bool
  cipher_schemes :: "(u32 \<times> u16 \<times> ieee80211_cipher_scheme) list"

type_synonym 'a key_result = "('a \<times> effect list \<times> world) result"

definition and_then :: "'a key_result \<Rightarrow> ('a \<Rightarrow> world \<Rightarrow> 'b key_result) \<Rightarrow> 'b key_result" where
  "and_then r f = rbind r (\<lambda>(a, e, w). rbind (f a w) (\<lambda>(b, e', w). Inr (b, e @ e', w)))"

definition quiet :: "world result \<Rightarrow> unit key_result" where
  "quiet r = rbind r (\<lambda>w. Inr ((), [], w))"

definition key_pairwise :: "ieee80211_key \<Rightarrow> bool" where
  "key_pairwise k \<longleftrightarrow> conf_flags k AND IEEE80211_KEY_FLAG_PAIRWISE \<noteq> 0"

definition key_uploaded :: "ieee80211_key \<Rightarrow> bool" where
  "key_uploaded k \<longleftrightarrow> key_flags k AND KEY_FLAG_UPLOADED_TO_HARDWARE \<noteq> 0"

text \<open>No flag asks for room behind the frame although the hardware has the key.\<close>

definition no_tail_flags :: "ieee80211_key \<Rightarrow> bool" where
  "no_tail_flags k \<longleftrightarrow>
     conf_flags k AND (IEEE80211_KEY_FLAG_GENERATE_MMIC OR IEEE80211_KEY_FLAG_PUT_MIC_SPACE OR IEEE80211_KEY_FLAG_RESERVE_TAILROOM) = 0"

subsection \<open>The tailroom count\<close>

fun add_vlan_tailroom :: "sdata_ptr list \<Rightarrow> int \<Rightarrow> world \<Rightarrow> world result" where
  "add_vlan_tailroom [] delta w = Inr w"
| "add_vlan_tailroom (v # vs) delta w =
     rbind (deref (sdatas w) v) (\<lambda>sd.
     add_vlan_tailroom vs delta (put_sdata v (sd\<lparr>crypto_tx_tailroom_needed_cnt := crypto_tx_tailroom_needed_cnt sd + delta\<rparr>) w))"

definition update_vlan_tailroom_need_count :: "sdata_ptr \<Rightarrow> int \<Rightarrow> world \<Rightarrow> world result" where
  "update_vlan_tailroom_need_count sp delta w =
     rbind (deref (sdatas w) sp) (\<lambda>sd.
     if vif_type sd \<noteq> NL80211_IFTYPE_AP then Inr w else add_vlan_tailroom (ap_vlans sd) delta w)"

definition increment_tailroom_need_count :: "sdata_ptr \<Rightarrow> world \<Rightarrow> world result" where
  "increment_tailroom_need_count sp w =
     rbind (update_vlan_tailroom_need_count sp 1 w) (\<lambda>w.
     rbind (deref (sdatas w) sp) (\<lambda>sd.
     Inr (put_sdata sp (sd\<lparr>crypto_tx_tailroom_needed_cnt := crypto_tx_tailroom_needed_cnt sd + 1\<rparr>) w)))"

definition decrease_tailroom_need_count :: "sdata_ptr \<Rightarrow> int \<Rightarrow> world \<Rightarrow> world result" where
  "decrease_tailroom_need_count sp delta w =
     rbind (update_vlan_tailroom_need_count sp (- delta) w) (\<lambda>w.
     rbind (deref (sdatas w) sp) (\<lambda>sd.
     Inr (put_sdata sp (sd\<lparr>crypto_tx_tailroom_needed_cnt := crypto_tx_tailroom_needed_cnt sd - delta\<rparr>) w)))"

subsection \<open>Hardware acceleration\<close>

text \<open>The ciphers with a software implementation.\<close>

definition sw_ciphers :: "u32 set" where
  "sw_ciphers = {SUITE 1, SUITE 2, SUITE 5, SUITE 4, SUITE 10, SUITE 6, SUITE 13, SUITE 11, SUITE 12, SUITE 8, SUITE 9}"

text \<open>The end of \<open>ieee80211_key_enable_hw_accel\<close>, from the label \<open>out_unsupported\<close>.\<close>

definition key_sw_fallback :: "key_env \<Rightarrow> u32 \<Rightarrow> int \<Rightarrow> int" where
  "key_sw_fallback E cipher ret =
     (if cipher \<in> sw_ciphers
      then if ret = 1 then 0 else if sw_crypto_control E then - EINVAL else 0
      else - EINVAL)"

definition key_iface :: "ieee80211_key \<Rightarrow> sdata_ptr result" where
  "key_iface k = (case key_sdata k of None \<Rightarrow> Inl NullDeref | Some sp \<Rightarrow> Inr sp)"

definition key_station :: "ieee80211_key \<Rightarrow> world \<Rightarrow> sta_info option result" where
  "key_station k w = (case key_sta k of None \<Rightarrow> Inr None | Some p \<Rightarrow> rbind (deref (stas w) p) (\<lambda>s. Inr (Some s)))"

definition ieee80211_key_enable_hw_accel :: "key_env \<Rightarrow> key_ptr \<Rightarrow> world \<Rightarrow> int key_result" where
  "ieee80211_key_enable_hw_accel E kp w =
     rbind (deref (keys w) kp) (\<lambda>k.
     rbind (key_iface k) (\<lambda>sp.
     if key_flags k AND KEY_FLAG_TAINTED \<noteq> 0 then
       rbind (if key_uploaded k \<and> no_tail_flags k then increment_tailroom_need_count sp w else Inr w) (\<lambda>w.
       Inr (- EINVAL, [], put_key kp (k\<lparr>key_flags := key_flags k AND NOT KEY_FLAG_UPLOADED_TO_HARDWARE\<rparr>) w))
     else if \<not> has_set_key E then Inr (key_sw_fallback E (conf_cipher k) (- EOPNOTSUPP), [], w)
     else
       rbind (key_station k w) (\<lambda>sta.
       if sta \<noteq> None \<and> \<not> key_pairwise k \<and> \<not> supports_per_sta_gtk E
       then Inr (key_sw_fallback E (conf_cipher k) (- EOPNOTSUPP), [], w)
       else if sta \<noteq> None \<and> \<not> uploaded (the sta) then Inr (key_sw_fallback E (conf_cipher k) (- EOPNOTSUPP), [], w)
       else
         rbind (deref (sdatas w) sp) (\<lambda>sd.
         if vif_type sd = NL80211_IFTYPE_AP_VLAN \<and> \<not> key_pairwise k then Inr (key_sw_fallback E (conf_cipher k) 1, [], w)
         else
           let (ret, added) = hw_set_key E kp; k = k\<lparr>conf_flags := conf_flags k OR added\<rparr> in
           if ret = 0 then
             let k = k\<lparr>key_flags := key_flags k OR KEY_FLAG_UPLOADED_TO_HARDWARE\<rparr>; w = put_key kp k w in
             rbind (if no_tail_flags k then decrease_tailroom_need_count sp 1 w else Inr w) (\<lambda>w. Inr (0, [Hw_Set_Key kp], w))
           else Inr (key_sw_fallback E (conf_cipher k) ret, [Hw_Set_Key kp], put_key kp k w)))))"

definition ieee80211_key_disable_hw_accel :: "key_env \<Rightarrow> key_ptr \<Rightarrow> world \<Rightarrow> unit key_result" where
  "ieee80211_key_disable_hw_accel E kp w =
     rbind (deref (keys w) kp) (\<lambda>k.
     if \<not> has_set_key E \<or> \<not> key_uploaded k then Inr ((), [], w)
     else
       rbind (key_iface k) (\<lambda>sp.
       rbind (if no_tail_flags k then increment_tailroom_need_count sp w else Inr w) (\<lambda>w.
       Inr ((), [Hw_Disable_Key kp], put_key kp (k\<lparr>key_flags := key_flags k AND NOT KEY_FLAG_UPLOADED_TO_HARDWARE\<rparr>) w))))"

subsection \<open>The transmit key of a station\<close>

text \<open>\<^verbatim>\<open>_ieee80211_set_tx_key\<close>\<close>

definition set_tx_key_gen :: "key_env \<Rightarrow> key_ptr \<Rightarrow> bool \<Rightarrow> world \<Rightarrow> int key_result" where
  "set_tx_key_gen E kp force w =
     rbind (deref (keys w) kp) (\<lambda>k.
     case key_sta k of
       None \<Rightarrow> Inl NullDeref
     | Some p \<Rightarrow>
         rbind (deref (stas w) p) (\<lambda>s.
         let s = s\<lparr>sta_uses_encryption := True, ptk_idx := unat (conf_keyidx k)\<rparr>;
             s = (if force \<or> \<not> ampdu_keyborder_support E then clear_sta_flag WLAN_STA_BLOCK_BA s else s)
         in Inr (0, [Check_Fast_Xmit p], put_sta p s w)))"

definition ieee80211_set_tx_key :: "key_env \<Rightarrow> key_ptr \<Rightarrow> world \<Rightarrow> int key_result" where
  "ieee80211_set_tx_key E kp = set_tx_key_gen E kp False"

definition ieee80211_pairwise_rekey :: "key_env \<Rightarrow> key_ptr option \<Rightarrow> key_ptr \<Rightarrow> world \<Rightarrow> unit key_result" where
  "ieee80211_pairwise_rekey E old new w =
     rbind (deref (keys w) new) (\<lambda>k.
     case key_sta k of
       None \<Rightarrow> Inl NullDeref
     | Some p \<Rightarrow>
         rbind (deref (stas w) p) (\<lambda>s.
         if conf_flags k AND IEEE80211_KEY_FLAG_NO_AUTO_TX \<noteq> 0 then
           if ptk_idx s \<noteq> INVALID_PTK_KEYIDX \<and> \<not> ampdu_keyborder_support E
           then Inr ((), map (Stop_Tx_BA p) [0..<IEEE80211_NUM_TIDS], put_sta p (set_sta_flag WLAN_STA_BLOCK_BA s) w)
           else Inr ((), [], w)
         else
           case old of
             None \<Rightarrow> Inr ((), [], w)
           | Some op \<Rightarrow>
               rbind (deref (keys w) op) (\<lambda>ko.
               if \<not> key_uploaded ko then Inr ((), [], w)
               else
                 let w = put_key op (ko\<lparr>key_flags := key_flags ko OR KEY_FLAG_TAINTED\<rparr>) w;
                     w = (if ampdu_aggregation E then put_sta p (set_sta_flag WLAN_STA_BLOCK_BA s) w else w)
                 in
                 rbind (key_iface ko) (\<lambda>sp.
                 Inr ((), [Clear_Fast_Xmit p] @ (if ampdu_aggregation E then [Tear_Down_BA p] else []) @
                          (if can_replace_ptk0 E then [] else [Flush_Queues sp]), w)))))"

subsection \<open>Default keys\<close>

text \<open>\<^verbatim>\<open>__ieee80211_set_default_key\<close> and \<^verbatim>\<open>__ieee80211_set_default_mgmt_key\<close>; a negative index clears the default.\<close>

definition set_default_key_gen :: "sdata_ptr \<Rightarrow> int \<Rightarrow> bool \<Rightarrow> bool \<Rightarrow> world \<Rightarrow> unit key_result" where
  "set_default_key_gen sp idx uni multi w =
     rbind (deref (sdatas w) sp) (\<lambda>sd.
     rbind (if 0 \<le> idx \<and> idx < int NUM_DEFAULT_KEYS then arr_get (sdata_keys sd) (nat idx) else Inr None) (\<lambda>key.
     let sd = (if uni then sd\<lparr>default_unicast_key := key\<rparr> else sd);
         sd = (if multi then sd\<lparr>default_multicast_key := key\<rparr> else sd)
     in
     Inr ((), if uni then Check_Fast_Xmit_Iface sp #
                (if vif_type sd \<noteq> NL80211_IFTYPE_AP_VLAN then [Hw_Default_Unicast sp idx] else []) else [],
          put_sdata sp sd w)))"

definition ieee80211_set_default_key :: "sdata_ptr \<Rightarrow> int \<Rightarrow> bool \<Rightarrow> bool \<Rightarrow> world \<Rightarrow> unit key_result" where
  "ieee80211_set_default_key = set_default_key_gen"

definition set_default_mgmt_key_gen :: "sdata_ptr \<Rightarrow> int \<Rightarrow> world \<Rightarrow> unit key_result" where
  "set_default_mgmt_key_gen sp idx w =
     rbind (deref (sdatas w) sp) (\<lambda>sd.
     rbind (if int NUM_DEFAULT_KEYS \<le> idx \<and> idx < int (NUM_DEFAULT_KEYS + NUM_DEFAULT_MGMT_KEYS)
            then arr_get (sdata_keys sd) (nat idx) else Inr None) (\<lambda>key.
     Inr ((), [], put_sdata sp (sd\<lparr>default_mgmt_key := key\<rparr>) w)))"

definition ieee80211_set_default_mgmt_key :: "sdata_ptr \<Rightarrow> int \<Rightarrow> world \<Rightarrow> unit key_result" where
  "ieee80211_set_default_mgmt_key = set_default_mgmt_key_gen"

subsection \<open>Replacing a key\<close>

definition list_add_key :: "sdata_ptr \<Rightarrow> key_ptr \<Rightarrow> world \<Rightarrow> world result" where
  "list_add_key sp kp w = rbind (deref (sdatas w) sp) (\<lambda>sd. Inr (put_sdata sp (sd\<lparr>key_list := key_list sd @ [kp]\<rparr>) w))"

text \<open>A key is on the list of the interface that it names.\<close>

definition list_del_key :: "key_ptr \<Rightarrow> world \<Rightarrow> world result" where
  "list_del_key kp w =
     rbind (deref (keys w) kp) (\<lambda>k.
     rbind (key_iface k) (\<lambda>sp.
     rbind (deref (sdatas w) sp) (\<lambda>sd. Inr (put_sdata sp (sd\<lparr>key_list := remove1 kp (key_list sd)\<rparr>) w))))"

definition arr_set :: "'a list \<Rightarrow> nat \<Rightarrow> 'a \<Rightarrow> 'a list result" where
  "arr_set xs i x = (if i < length xs then Inr (xs[i := x]) else Inl OutOfBounds)"

text \<open>The hand-over to the hardware in the middle of \<open>ieee80211_key_replace\<close>.\<close>

definition replace_hw :: "key_env \<Rightarrow> key_ptr option \<Rightarrow> key_ptr option \<Rightarrow> world \<Rightarrow> int key_result" where
  "replace_hw E old new w =
     (case old of
        Some op \<Rightarrow>
          rbind (deref (keys w) op) (\<lambda>ko.
          if key_uploaded ko then
            and_then (ieee80211_key_disable_hw_accel E op w) (\<lambda>_ w.
            case new of None \<Rightarrow> Inr (0, [], w) | Some np \<Rightarrow> ieee80211_key_enable_hw_accel E np w)
          else Inr (0, [], w))
      | None \<Rightarrow>
          (case new of
             None \<Rightarrow> Inl NullDeref
           | Some np \<Rightarrow> if wowlan E then Inr (0, [], w) else ieee80211_key_enable_hw_accel E np w))"

text \<open>The assignment to the slot of a station, and to that of an interface with its default keys.\<close>

definition replace_sta_slot ::
  "key_env \<Rightarrow> sta_ptr \<Rightarrow> bool \<Rightarrow> nat \<Rightarrow> key_ptr option \<Rightarrow> key_ptr option \<Rightarrow> world \<Rightarrow> unit key_result" where
  "replace_sta_slot E p is_pairwise idx old new w =
     rbind (deref (stas w) p) (\<lambda>s.
     and_then
       (if is_pairwise then
          rbind (arr_set (ptk s) idx new) (\<lambda>ks.
          let w = put_sta p (s\<lparr>ptk := ks\<rparr>) w in
          case new of
            None \<Rightarrow> Inr (0, [], w)
          | Some np \<Rightarrow>
              rbind (deref (keys w) np) (\<lambda>k.
              if conf_flags k AND IEEE80211_KEY_FLAG_NO_AUTO_TX = 0 then set_tx_key_gen E np True w else Inr (0, [], w)))
        else rbind (arr_set (gtk s) idx new) (\<lambda>ks. Inr (0, [], put_sta p (s\<lparr>gtk := ks\<rparr>) w)))
       (\<lambda>_ w. Inr ((), if new \<noteq> None \<and> old = None then [Check_Fast_Rx p] else [], w)))"

definition when_act :: "bool \<Rightarrow> (world \<Rightarrow> unit key_result) \<Rightarrow> world \<Rightarrow> unit key_result" where
  "when_act b f w = (if b then f w else Inr ((), [], w))"

definition set_defaults :: "sdata_ptr \<Rightarrow> bool \<Rightarrow> bool \<Rightarrow> bool \<Rightarrow> int \<Rightarrow> world \<Rightarrow> unit key_result" where
  "set_defaults sp uni multi mgmt idx w =
     and_then (when_act uni (set_default_key_gen sp idx True False) w) (\<lambda>_ w.
     and_then (when_act multi (set_default_key_gen sp idx False True) w) (\<lambda>_ w.
     when_act mgmt (set_default_mgmt_key_gen sp idx) w))"

definition replace_iface_slot :: "sdata_ptr \<Rightarrow> nat \<Rightarrow> key_ptr option \<Rightarrow> key_ptr option \<Rightarrow> world \<Rightarrow> unit key_result" where
  "replace_iface_slot sp idx old new w =
     rbind (deref (sdatas w) sp) (\<lambda>sd.
     let defunikey = (old \<noteq> None \<and> old = default_unicast_key sd);
         defmultikey = (old \<noteq> None \<and> old = default_multicast_key sd);
         defmgmtkey = (old \<noteq> None \<and> old = default_mgmt_key sd)
     in
     rbind (case new of None \<Rightarrow> Inr (- 1) | Some np \<Rightarrow> rbind (deref (keys w) np) (\<lambda>k. Inr (uint (conf_keyidx k)))) (\<lambda>nidx.
     and_then (set_defaults sp (defunikey \<and> new = None) (defmultikey \<and> new = None) (defmgmtkey \<and> new = None) (- 1) w) (\<lambda>_ w.
     rbind (deref (sdatas w) sp) (\<lambda>sd.
     rbind (arr_set (sdata_keys sd) idx new) (\<lambda>ks.
     set_defaults sp (defunikey \<and> new \<noteq> None) (defmultikey \<and> new \<noteq> None) (defmgmtkey \<and> new \<noteq> None) nidx
       (put_sdata sp (sd\<lparr>sdata_keys := ks\<rparr>) w))))))"

definition key_idx_of :: "key_ptr option \<Rightarrow> world \<Rightarrow> nat result" where
  "key_idx_of kp w = (case kp of None \<Rightarrow> Inl NullDeref | Some kp \<Rightarrow> rbind (deref (keys w) kp) (\<lambda>k. Inr (unat (conf_keyidx k))))"

definition ieee80211_key_replace ::
  "key_env \<Rightarrow> sdata_ptr \<Rightarrow> sta_ptr option \<Rightarrow> bool \<Rightarrow> key_ptr option \<Rightarrow> key_ptr option \<Rightarrow> world \<Rightarrow> int key_result" where
  "ieee80211_key_replace E sp sta is_pairwise old new w =
     (if new = None \<and> old = None then Inr (0, [], w)
      else
        and_then (quiet (case new of None \<Rightarrow> Inr w | Some np \<Rightarrow> list_add_key sp np w)) (\<lambda>_ w.
        and_then (case (new, sta) of (Some np, Some p) \<Rightarrow> when_act is_pairwise (ieee80211_pairwise_rekey E old np) w | _ \<Rightarrow> Inr ((), [], w)) (\<lambda>_ w.
        rbind (key_idx_of (if old \<noteq> None then old else new) w) (\<lambda>idx.
        and_then (replace_hw E old new w) (\<lambda>ret w.
        if ret \<noteq> 0 then Inr (ret, [], w)
        else
          and_then (case sta of Some p \<Rightarrow> replace_sta_slot E p is_pairwise idx old new w
                              | None \<Rightarrow> replace_iface_slot sp idx old new w) (\<lambda>_ w.
          and_then (quiet (case old of None \<Rightarrow> Inr w | Some op \<Rightarrow> list_del_key op w)) (\<lambda>_ w. Inr (0, [], w))))))))"

subsection \<open>Allocating and freeing\<close>

text \<open>The bytes of a sequence counter in reverse order, as the loops copy them.\<close>

definition seq_pn :: "nat \<Rightarrow> u8 list \<Rightarrow> u8 list result" where
  "seq_pn n seq = (if length seq < n then Inl OutOfBounds else Inr (rev (take n seq)))"

definition zero_tkip_ctx :: tkip_ctx where
  "zero_tkip_ctx = \<lparr>p1k = replicate 5 0, p1k_iv32 = 0, tkip_state = TKIP_STATE_NOT_INIT\<rparr>"

text \<open>The structure as \<open>kzalloc\<close> returns it, with the fields that do not depend on the cipher.\<close>

definition zero_key :: "u32 \<Rightarrow> int \<Rightarrow> u8 list \<Rightarrow> ieee80211_key" where
  "zero_key cipher idx bytes =
     \<lparr>conf_tx_pn = 0, conf_cipher = cipher, conf_flags = 0, conf_iv_len = 0, conf_keyidx = of_int idx, conf_key = bytes, key_flags = 0,
      key_rx_pn = replicate (IEEE80211_NUM_TIDS + 1) (replicate 6 0), bip_rx_pn = replicate 6 0, key_replays = 0, key_icverrors = 0,
      tkip_tx = zero_tkip_ctx, tkip_rx = replicate IEEE80211_NUM_TIDS \<lparr>rx_ctx = zero_tkip_ctx, rx_iv32 = 0, rx_iv16 = 0\<rparr>,
      mic_failures = 0, key_sdata = None, key_sta = None, conf_icv_len = 0\<rparr>"

definition set_rx_pns :: "nat \<Rightarrow> u8 list option \<Rightarrow> ieee80211_key \<Rightarrow> ieee80211_key result" where
  "set_rx_pns n seq k =
     (case seq of
        None \<Rightarrow> Inr k
      | Some seq \<Rightarrow> rbind (seq_pn n seq) (\<lambda>pn. Inr (k\<lparr>key_rx_pn := replicate (IEEE80211_NUM_TIDS + 1) pn\<rparr>)))"

definition set_bip_pn :: "u8 list option \<Rightarrow> ieee80211_key \<Rightarrow> ieee80211_key result" where
  "set_bip_pn seq k = (case seq of None \<Rightarrow> Inr k | Some seq \<Rightarrow> rbind (seq_pn 6 seq) (\<lambda>pn. Inr (k\<lparr>bip_rx_pn := pn\<rparr>)))"

definition set_tkip_seq :: "u8 list option \<Rightarrow> ieee80211_key \<Rightarrow> ieee80211_key result" where
  "set_tkip_seq seq k =
     (case seq of
        None \<Rightarrow> Inr k
      | Some seq \<Rightarrow>
          rbind (le32_at seq 2) (\<lambda>iv32.
          Inr (k\<lparr>tkip_rx := map (\<lambda>r. r\<lparr>rx_iv32 := iv32, rx_iv16 := le16_of (seq ! 0) (seq ! 1)\<rparr>) (tkip_rx k)\<rparr>)))"

text \<open>
  \<open>seq\<close> is \<open>None\<close> for a null pointer; \<open>tfm\<close> is what setting up the cipher returns, 0 or a negative error. The answer is the key or an error.
\<close>

definition key_setup :: "int \<Rightarrow> ieee80211_key result \<Rightarrow> (int + ieee80211_key) result" where
  "key_setup tfm r = rbind r (\<lambda>k. if tfm < 0 then Inr (Inl tfm) else Inr (Inr k))"

definition ieee80211_key_alloc ::
  "bool \<Rightarrow> int \<Rightarrow> u32 \<Rightarrow> int \<Rightarrow> u8 list \<Rightarrow> nat \<Rightarrow> u8 list option \<Rightarrow> ieee80211_cipher_scheme option \<Rightarrow> (int + ieee80211_key) result" where
  "ieee80211_key_alloc mem_ok tfm cipher idx key_data seq_len seq cs =
     (if idx < 0 \<or> int (NUM_DEFAULT_KEYS + NUM_DEFAULT_MGMT_KEYS) \<le> idx then Inr (Inl (- EINVAL))
      else if \<not> mem_ok then Inr (Inl (- ENOMEM))
      else
        let k = zero_key cipher idx key_data in
        if cipher = SUITE 1 \<or> cipher = SUITE 5 then Inr (Inr (k\<lparr>conf_iv_len := 4, conf_icv_len := 4\<rparr>))
        else if cipher = SUITE 2 then key_setup 0 (set_tkip_seq seq (k\<lparr>conf_iv_len := 8, conf_icv_len := 4\<rparr>))
        else if cipher = SUITE 4 then key_setup tfm (set_rx_pns 6 seq (k\<lparr>conf_iv_len := 8, conf_icv_len := 8\<rparr>))
        else if cipher = SUITE 10 then key_setup tfm (set_rx_pns 6 seq (k\<lparr>conf_iv_len := 8, conf_icv_len := 16\<rparr>))
        else if cipher = SUITE 6 then key_setup tfm (set_bip_pn seq (k\<lparr>conf_iv_len := 0, conf_icv_len := 18\<rparr>))
        else if cipher = SUITE 13 then key_setup tfm (set_bip_pn seq (k\<lparr>conf_iv_len := 0, conf_icv_len := 26\<rparr>))
        else if cipher = SUITE 11 \<or> cipher = SUITE 12 then key_setup tfm (set_bip_pn seq (k\<lparr>conf_iv_len := 0, conf_icv_len := 26\<rparr>))
        else if cipher = SUITE 8 \<or> cipher = SUITE 9 then key_setup tfm (set_rx_pns 6 seq (k\<lparr>conf_iv_len := 8, conf_icv_len := 16\<rparr>))
        else
          case cs of
            None \<Rightarrow> Inr (Inr k)
          | Some cs \<Rightarrow>
              if seq_len \<noteq> 0 \<and> seq_len \<noteq> cs_pn_len cs then Inr (Inl (- EINVAL))
              else
                let k = k\<lparr>conf_iv_len := cs_hdr_len cs, conf_icv_len := cs_mic_len cs,
                          key_rx_pn := replicate (IEEE80211_NUM_TIDS + 1) (replicate 16 0), key_flags := KEY_FLAG_CIPHER_SCHEME\<rparr>
                in
                if seq_len = 0 then Inr (Inr k)
                else if 16 < seq_len then Inl OutOfBounds
                else
                  rbind (case seq of None \<Rightarrow> Inl NullDeref | Some seq \<Rightarrow> seq_pn seq_len seq) (\<lambda>pn.
                  Inr (Inr (k\<lparr>key_rx_pn := replicate (IEEE80211_NUM_TIDS + 1) (pn @ replicate (16 - seq_len) 0)\<rparr>))))"

definition ieee80211_key_free_common :: "key_ptr \<Rightarrow> world \<Rightarrow> world" where
  "ieee80211_key_free_common kp w = w\<lparr>keys := (keys w)(kp := None)\<rparr>"

text \<open>\<^verbatim>\<open>__ieee80211_key_destroy\<close>; the pointer \<open>local\<close> of a key is set together with its interface.\<close>

definition key_destroy_gen :: "key_ptr \<Rightarrow> bool \<Rightarrow> world \<Rightarrow> unit key_result" where
  "key_destroy_gen kp delay_tailroom w =
     rbind (deref (keys w) kp) (\<lambda>k.
     and_then
       (case key_sdata k of
          None \<Rightarrow> Inr ((), [], w)
        | Some sp \<Rightarrow>
            if delay_tailroom then
              rbind (deref (sdatas w) sp) (\<lambda>sd.
              Inr ((), [Schedule_Tailroom_Dec sp],
                   put_sdata sp (sd\<lparr>crypto_tx_tailroom_pending_dec := crypto_tx_tailroom_pending_dec sd + 1\<rparr>) w))
            else quiet (decrease_tailroom_need_count sp 1 w))
       (\<lambda>_ w. Inr ((), [], ieee80211_key_free_common kp w)))"

definition ieee80211_key_destroy :: "key_ptr option \<Rightarrow> bool \<Rightarrow> world \<Rightarrow> unit key_result" where
  "ieee80211_key_destroy kp delay_tailroom w =
     (case kp of None \<Rightarrow> Inr ((), [], w) | Some kp \<Rightarrow> key_destroy_gen kp delay_tailroom w)"

definition ieee80211_key_free_unused :: "key_ptr \<Rightarrow> world \<Rightarrow> world" where
  "ieee80211_key_free_unused = ieee80211_key_free_common"

definition ieee80211_key_free :: "key_env \<Rightarrow> key_ptr option \<Rightarrow> bool \<Rightarrow> world \<Rightarrow> unit key_result" where
  "ieee80211_key_free E kp delay_tailroom w =
     (case kp of
        None \<Rightarrow> Inr ((), [], w)
      | Some p \<Rightarrow>
          rbind (deref (keys w) p) (\<lambda>k.
          and_then
            (case key_sdata k of
               None \<Rightarrow> Inr (0, [], w)
             | Some sp \<Rightarrow> ieee80211_key_replace E sp (key_sta k) (key_pairwise k) (Some p) None w)
            (\<lambda>_ w. ieee80211_key_destroy kp delay_tailroom w)))"

subsection \<open>Installing\<close>

definition mask_tx_mic :: "u8 list \<Rightarrow> u8 list" where
  "mask_tx_mic bytes = take 16 bytes @ replicate 8 0 @ drop 24 bytes"

definition ieee80211_key_identical :: "ieee80211_sub_if_data \<Rightarrow> ieee80211_key option \<Rightarrow> ieee80211_key \<Rightarrow> bool" where
  "ieee80211_key_identical sd old new =
     (case old of
        None \<Rightarrow> False
      | Some old \<Rightarrow>
          length (conf_key new) = length (conf_key old) \<and>
          (if vif_type sd = NL80211_IFTYPE_STATION \<and> conf_cipher new = SUITE 2 \<and> length (conf_key new) = 32 \<and> \<not> key_pairwise new
           then mask_tx_mic (conf_key old) = mask_tx_mic (conf_key new)
           else conf_key old = conf_key new))"

definition deref_opt :: "('p \<Rightarrow> 'a option) \<Rightarrow> 'p option \<Rightarrow> 'a option result" where
  "deref_opt m p = (case p of None \<Rightarrow> Inr None | Some p \<Rightarrow> rbind (deref m p) (\<lambda>x. Inr (Some x)))"

definition other_cipher :: "ieee80211_key \<Rightarrow> ieee80211_key option \<Rightarrow> bool" where
  "other_cipher k old \<longleftrightarrow> (case old of None \<Rightarrow> False | Some ko \<Rightarrow> conf_cipher ko \<noteq> conf_cipher k)"

text \<open>The key that is replaced and, for a pairwise key, the one with the other identifier.\<close>

definition link_slots ::
  "ieee80211_key \<Rightarrow> sdata_ptr \<Rightarrow> sta_ptr option \<Rightarrow> world \<Rightarrow> (key_ptr option \<times> key_ptr option) result" where
  "link_slots k sp sta w =
     (let idx = unat (conf_keyidx k) in
      case sta of
        Some p \<Rightarrow>
          rbind (deref (stas w) p) (\<lambda>s.
          if key_pairwise k
          then rbind (arr_get (ptk s) idx) (\<lambda>old. rbind (arr_get (ptk s) (unat (conf_keyidx k XOR 1))) (\<lambda>alt. Inr (old, alt)))
          else rbind (arr_get (gtk s) idx) (\<lambda>old. Inr (old, None)))
      | None \<Rightarrow> rbind (deref (sdatas w) sp) (\<lambda>sd. rbind (arr_get (sdata_keys sd) idx) (\<lambda>old. Inr (old, None))))"

definition ieee80211_key_link :: "key_env \<Rightarrow> key_ptr \<Rightarrow> sdata_ptr \<Rightarrow> sta_ptr option \<Rightarrow> world \<Rightarrow> int key_result" where
  "ieee80211_key_link E kp sp sta w =
     rbind (deref (keys w) kp) (\<lambda>k.
     rbind (deref (sdatas w) sp) (\<lambda>sd.
     let delay_tailroom = (vif_type sd = NL80211_IFTYPE_STATION) in
     rbind (link_slots k sp sta w) (\<lambda>(old, alt).
     rbind (deref_opt (keys w) old) (\<lambda>ko.
     rbind (deref_opt (keys w) alt) (\<lambda>ka.
     if sta \<noteq> None \<and> key_pairwise k \<and> (other_cipher k ka \<or> other_cipher k ko) \<or> \<not> key_pairwise k \<and> other_cipher k ko
     then Inr (- EOPNOTSUPP, [], w)
     else if ieee80211_key_identical sd ko k then Inr (0, [], ieee80211_key_free_unused kp w)
     else
       and_then (quiet (increment_tailroom_need_count sp (put_key kp (k\<lparr>key_sdata := Some sp, key_sta := sta\<rparr>) w))) (\<lambda>_ w.
       and_then (ieee80211_key_replace E sp sta (key_pairwise k) old (Some kp) w) (\<lambda>ret w.
       and_then (if ret = 0 then ieee80211_key_destroy old delay_tailroom w else ieee80211_key_free E (Some kp) delay_tailroom w) (\<lambda>_ w.
       Inr (ret, [], w)))))))))"

subsection \<open>All keys of an interface or a station\<close>

fun reenable_loop :: "key_env \<Rightarrow> sdata_ptr \<Rightarrow> key_ptr list \<Rightarrow> world \<Rightarrow> unit key_result" where
  "reenable_loop E sp [] w = Inr ((), [], w)"
| "reenable_loop E sp (kp # kps) w =
     and_then (quiet (increment_tailroom_need_count sp w)) (\<lambda>_ w.
     and_then (ieee80211_key_enable_hw_accel E kp w) (\<lambda>_ w. reenable_loop E sp kps w))"

fun clear_tailroom :: "sdata_ptr list \<Rightarrow> world \<Rightarrow> world result" where
  "clear_tailroom [] w = Inr w"
| "clear_tailroom (v # vs) w =
     rbind (deref (sdatas w) v) (\<lambda>sd.
     clear_tailroom vs (put_sdata v (sd\<lparr>crypto_tx_tailroom_needed_cnt := 0, crypto_tx_tailroom_pending_dec := 0\<rparr>) w))"

definition ieee80211_reenable_keys :: "key_env \<Rightarrow> sdata_ptr \<Rightarrow> world \<Rightarrow> unit key_result" where
  "ieee80211_reenable_keys E sp w =
     rbind (deref (sdatas w) sp) (\<lambda>sd.
     and_then (quiet (clear_tailroom (sp # (if vif_type sd = NL80211_IFTYPE_AP then ap_vlans sd else [])) w)) (\<lambda>_ w.
     when_act (iface_running sd) (reenable_loop E sp (key_list sd)) w))"

text \<open>Replacing each of a list of keys by nothing; the keys stay allocated.\<close>

fun unlink_keys :: "key_env \<Rightarrow> key_ptr list \<Rightarrow> world \<Rightarrow> unit key_result" where
  "unlink_keys E [] w = Inr ((), [], w)"
| "unlink_keys E (kp # kps) w =
     rbind (deref (keys w) kp) (\<lambda>k.
     rbind (key_iface k) (\<lambda>sp.
     and_then (ieee80211_key_replace E sp (key_sta k) (key_pairwise k) (Some kp) None w) (\<lambda>_ w. unlink_keys E kps w)))"

definition ieee80211_free_keys_iface :: "key_env \<Rightarrow> sdata_ptr \<Rightarrow> world \<Rightarrow> key_ptr list key_result" where
  "ieee80211_free_keys_iface E sp w =
     rbind (deref (sdatas w) sp) (\<lambda>sd.
     rbind (decrease_tailroom_need_count sp (crypto_tx_tailroom_pending_dec sd) w) (\<lambda>w.
     rbind (deref (sdatas w) sp) (\<lambda>sd.
     and_then (unlink_keys E (key_list sd) (put_sdata sp (sd\<lparr>crypto_tx_tailroom_pending_dec := 0\<rparr>) w)) (\<lambda>_ w.
     Inr (key_list sd, [], w)))))"

fun free_keys_ifaces :: "key_env \<Rightarrow> sdata_ptr list \<Rightarrow> world \<Rightarrow> key_ptr list key_result" where
  "free_keys_ifaces E [] w = Inr ([], [], w)"
| "free_keys_ifaces E (sp # sps) w =
     and_then (ieee80211_free_keys_iface E sp w) (\<lambda>kps w.
     and_then (free_keys_ifaces E sps w) (\<lambda>kps' w. Inr (kps @ kps', [], w)))"

fun destroy_keys :: "key_ptr list \<Rightarrow> world \<Rightarrow> unit key_result" where
  "destroy_keys [] w = Inr ((), [], w)"
| "destroy_keys (kp # kps) w = and_then (key_destroy_gen kp False w) (\<lambda>_ w. destroy_keys kps w)"

definition ieee80211_free_keys :: "key_env \<Rightarrow> sdata_ptr \<Rightarrow> world \<Rightarrow> unit key_result" where
  "ieee80211_free_keys E sp w =
     rbind (deref (sdatas w) sp) (\<lambda>sd.
     and_then (free_keys_ifaces E (sp # (if vif_type sd = NL80211_IFTYPE_AP then ap_vlans sd else [])) w) (\<lambda>kps w. destroy_keys kps w))"

text \<open>The body of the two loops of \<open>ieee80211_free_sta_keys\<close>.\<close>

definition free_sta_key :: "key_env \<Rightarrow> key_ptr option \<Rightarrow> world \<Rightarrow> unit key_result" where
  "free_sta_key E kp w =
     (case kp of
        None \<Rightarrow> Inr ((), [], w)
      | Some kp \<Rightarrow>
          rbind (deref (keys w) kp) (\<lambda>k.
          rbind (key_iface k) (\<lambda>sp.
          rbind (deref (sdatas w) sp) (\<lambda>sd.
          and_then (ieee80211_key_replace E sp (key_sta k) (key_pairwise k) (Some kp) None w) (\<lambda>_ w.
          key_destroy_gen kp (vif_type sd = NL80211_IFTYPE_STATION) w)))))"

fun free_sta_gtks :: "key_env \<Rightarrow> sta_ptr \<Rightarrow> nat list \<Rightarrow> world \<Rightarrow> unit key_result" where
  "free_sta_gtks E p [] w = Inr ((), [], w)"
| "free_sta_gtks E p (i # is) w =
     rbind (deref (stas w) p) (\<lambda>s. rbind (arr_get (gtk s) i) (\<lambda>kp.
     and_then (free_sta_key E kp w) (\<lambda>_ w. free_sta_gtks E p is w)))"

fun free_sta_ptks :: "key_env \<Rightarrow> sta_ptr \<Rightarrow> nat list \<Rightarrow> world \<Rightarrow> unit key_result" where
  "free_sta_ptks E p [] w = Inr ((), [], w)"
| "free_sta_ptks E p (i # is) w =
     rbind (deref (stas w) p) (\<lambda>s. rbind (arr_get (ptk s) i) (\<lambda>kp.
     and_then (free_sta_key E kp w) (\<lambda>_ w. free_sta_ptks E p is w)))"

definition ieee80211_free_sta_keys :: "key_env \<Rightarrow> sta_ptr \<Rightarrow> world \<Rightarrow> unit key_result" where
  "ieee80211_free_sta_keys E p w =
     and_then (free_sta_gtks E p [0..<NUM_DEFAULT_KEYS + NUM_DEFAULT_MGMT_KEYS] w) (\<lambda>_ w.
     free_sta_ptks E p [0..<NUM_DEFAULT_KEYS] w)"

definition ieee80211_delayed_tailroom_dec :: "sdata_ptr \<Rightarrow> world \<Rightarrow> world result" where
  "ieee80211_delayed_tailroom_dec sp w =
     rbind (deref (sdatas w) sp) (\<lambda>sd.
     rbind (decrease_tailroom_need_count sp (crypto_tx_tailroom_pending_dec sd) w) (\<lambda>w.
     rbind (deref (sdatas w) sp) (\<lambda>sd.
     Inr (put_sdata sp (sd\<lparr>crypto_tx_tailroom_pending_dec := 0\<rparr>) w))))"

subsection \<open>Sequence counters\<close>

text \<open>
  The member of the union \<open>ieee80211_key_seq\<close> in use; \<open>None\<close> as answer means that nothing is written. The traffic identifier \<open>- 1\<close> stands for
  management frames.
\<close>

datatype ieee80211_key_seq = Seq_Tkip u32 u16 | Seq_Pn "u8 list"

definition pn_queue :: "int \<Rightarrow> nat" where
  "pn_queue tid = (if tid < 0 then IEEE80211_NUM_TIDS else nat tid)"

definition ieee80211_get_key_rx_seq :: "ieee80211_key \<Rightarrow> int \<Rightarrow> ieee80211_key_seq option result" where
  "ieee80211_get_key_rx_seq k tid =
     (let c = conf_cipher k in
      if c = SUITE 2 then
        if tid < 0 \<or> int IEEE80211_NUM_TIDS \<le> tid then Inr None
        else rbind (arr_get (tkip_rx k) (nat tid)) (\<lambda>r. Inr (Some (Seq_Tkip (rx_iv32 r) (rx_iv16 r))))
      else if c \<in> {SUITE 4, SUITE 10, SUITE 8, SUITE 9} then
        if tid < - 1 \<or> int IEEE80211_NUM_TIDS \<le> tid then Inr None
        else rbind (arr_get (key_rx_pn k) (pn_queue tid)) (\<lambda>pn. Inr (Some (Seq_Pn pn)))
      else if c \<in> {SUITE 6, SUITE 13, SUITE 11, SUITE 12} then
        if tid \<noteq> 0 then Inr None else Inr (Some (Seq_Pn (bip_rx_pn k)))
      else Inr None)"

text \<open>The caller fills in the member of the union that belongs to the cipher; the other one is not read.\<close>

definition seq_tkip :: "ieee80211_key_seq \<Rightarrow> u32 \<times> u16" where
  "seq_tkip seq = (case seq of Seq_Tkip a b \<Rightarrow> (a, b) | Seq_Pn _ \<Rightarrow> (0, 0))"

definition seq_bytes :: "ieee80211_key_seq \<Rightarrow> u8 list" where
  "seq_bytes seq = (case seq of Seq_Pn pn \<Rightarrow> pn | Seq_Tkip _ _ \<Rightarrow> [])"

definition ieee80211_set_key_rx_seq :: "ieee80211_key_seq \<Rightarrow> int \<Rightarrow> ieee80211_key \<Rightarrow> ieee80211_key result" where
  "ieee80211_set_key_rx_seq seq tid k =
     (let c = conf_cipher k in
      if c = SUITE 2 then
        if tid < 0 \<or> int IEEE80211_NUM_TIDS \<le> tid then Inr k
        else
          rbind (arr_get (tkip_rx k) (nat tid)) (\<lambda>r.
          Inr (k\<lparr>tkip_rx := (tkip_rx k)[nat tid := r\<lparr>rx_iv32 := fst (seq_tkip seq), rx_iv16 := snd (seq_tkip seq)\<rparr>]\<rparr>))
      else if c \<in> {SUITE 4, SUITE 10, SUITE 8, SUITE 9} then
        if tid < - 1 \<or> int IEEE80211_NUM_TIDS \<le> tid then Inr k
        else rbind (arr_set (key_rx_pn k) (pn_queue tid) (seq_bytes seq)) (\<lambda>pns. Inr (k\<lparr>key_rx_pn := pns\<rparr>))
      else if c \<in> {SUITE 6, SUITE 13, SUITE 11, SUITE 12} then
        if tid \<noteq> 0 then Inr k else Inr (k\<lparr>bip_rx_pn := seq_bytes seq\<rparr>)
      else Inr k)"

subsection \<open>Calls of the driver and of the configuration\<close>

definition ieee80211_remove_key :: "key_env \<Rightarrow> key_ptr \<Rightarrow> world \<Rightarrow> unit key_result" where
  "ieee80211_remove_key E kp w =
     rbind (deref (keys w) kp) (\<lambda>k.
     and_then
       (if key_uploaded k then
          let w = put_key kp (k\<lparr>key_flags := key_flags k AND NOT KEY_FLAG_UPLOADED_TO_HARDWARE\<rparr>) w in
          if no_tail_flags k then rbind (key_iface k) (\<lambda>sp. quiet (increment_tailroom_need_count sp w)) else Inr ((), [], w)
        else Inr ((), [], w))
       (\<lambda>_ w. ieee80211_key_free E (Some kp) False w))"

text \<open>
  A group key that the firmware received during suspend. \<open>kp\<close> is where the key is allocated; the answer is an error or the pointer that the
  driver keeps.
\<close>

definition ieee80211_gtk_rekey_add ::
  "key_env \<Rightarrow> key_ptr \<Rightarrow> bool \<Rightarrow> int \<Rightarrow> sdata_ptr \<Rightarrow> u32 \<Rightarrow> int \<Rightarrow> u8 list \<Rightarrow> world \<Rightarrow> (int + key_ptr) key_result" where
  "ieee80211_gtk_rekey_add E kp mem_ok tfm sp cipher idx key_data w =
     rbind (deref (sdatas w) sp) (\<lambda>sd.
     if \<not> wowlan E \<or> vif_type sd \<noteq> NL80211_IFTYPE_STATION then Inr (Inl (- EINVAL), [], w)
     else
       rbind (ieee80211_key_alloc mem_ok tfm cipher idx key_data 0 None None) (\<lambda>r.
       case r of
         Inl err \<Rightarrow> Inr (Inl err, [], w)
       | Inr k \<Rightarrow>
           let k = (if mgd_mfp sd then k\<lparr>conf_flags := conf_flags k OR IEEE80211_KEY_FLAG_RX_MGMT\<rparr> else k) in
           and_then (ieee80211_key_link E kp sp None (put_key kp k w)) (\<lambda>err w.
           Inr (if err \<noteq> 0 then Inl err else Inr kp, [], w))))"

text \<open>The position of an interface type in its enumeration.\<close>

definition iftype_bit :: "nl80211_iftype \<Rightarrow> nat" where
  "iftype_bit t =
     (case t of NL80211_IFTYPE_UNSPECIFIED \<Rightarrow> 0 | NL80211_IFTYPE_ADHOC \<Rightarrow> 1 | NL80211_IFTYPE_STATION \<Rightarrow> 2 | NL80211_IFTYPE_AP \<Rightarrow> 3
      | NL80211_IFTYPE_AP_VLAN \<Rightarrow> 4 | NL80211_IFTYPE_WDS \<Rightarrow> 5 | NL80211_IFTYPE_MONITOR \<Rightarrow> 6 | NL80211_IFTYPE_MESH_POINT \<Rightarrow> 7
      | NL80211_IFTYPE_P2P_CLIENT \<Rightarrow> 8 | NL80211_IFTYPE_P2P_GO \<Rightarrow> 9 | NL80211_IFTYPE_P2P_DEVICE \<Rightarrow> 10 | NL80211_IFTYPE_OCB \<Rightarrow> 11
      | NL80211_IFTYPE_NAN \<Rightarrow> 12)"

definition ieee80211_cs_get :: "key_env \<Rightarrow> u32 \<Rightarrow> nl80211_iftype \<Rightarrow> ieee80211_cipher_scheme option" where
  "ieee80211_cs_get E cipher t =
     (case find (\<lambda>(c, _, _). c = cipher) (cipher_schemes E) of
        None \<Rightarrow> None
      | Some (_, types, cs) \<Rightarrow> if bit types (iftype_bit t) then Some cs else None)"

definition ieee80211_set_tx :: "key_env \<Rightarrow> sdata_ptr \<Rightarrow> mac \<Rightarrow> nat \<Rightarrow> world \<Rightarrow> int key_result" where
  "ieee80211_set_tx E sp mac_addr key_idx w =
     (if \<not> ext_key_id E then Inr (- EINVAL, [], w)
      else
        rbind (sta_info_get_bss w sp mac_addr) (\<lambda>sta.
        case sta of
          None \<Rightarrow> Inr (- EINVAL, [], w)
        | Some p \<Rightarrow>
            rbind (deref (stas w) p) (\<lambda>s.
            if ptk_idx s = key_idx then Inr (0, [], w)
            else
              rbind (arr_get (ptk s) key_idx) (\<lambda>kp.
              case kp of
                None \<Rightarrow> Inr (- EINVAL, [], w)
              | Some kp \<Rightarrow>
                  rbind (deref (keys w) kp) (\<lambda>k.
                  if conf_flags k AND IEEE80211_KEY_FLAG_NO_AUTO_TX \<noteq> 0 then ieee80211_set_tx_key E kp w else Inr (- EINVAL, [], w))))))"

datatype nl80211_key_mode = NL80211_KEY_RX_TX | NL80211_KEY_NO_TX | NL80211_KEY_SET_TX

record key_params =
  kp_cipher :: u32
  kp_key :: "u8 list"
  kp_seq_len :: nat
  kp_seq :: "u8 list option"
  kp_mode :: nl80211_key_mode

text \<open>The flags of a new key from the interface and the station it is for.\<close>

definition new_key_flags :: "bool \<Rightarrow> nl80211_key_mode \<Rightarrow> ieee80211_sub_if_data \<Rightarrow> sta_info option \<Rightarrow> u16" where
  "new_key_flags is_pairwise mode sd sta =
     (if is_pairwise then IEEE80211_KEY_FLAG_PAIRWISE else 0) OR
     (if mode = NL80211_KEY_NO_TX then IEEE80211_KEY_FLAG_NO_AUTO_TX else 0) OR
     (if vif_type sd = NL80211_IFTYPE_STATION \<and> mgd_mfp sd \<or>
         vif_type sd \<in> {NL80211_IFTYPE_AP, NL80211_IFTYPE_AP_VLAN} \<and> (case sta of None \<Rightarrow> False | Some s \<Rightarrow> sta_mfp s)
      then IEEE80211_KEY_FLAG_RX_MGMT else 0)"

definition ieee80211_add_key ::
  "key_env \<Rightarrow> key_ptr \<Rightarrow> bool \<Rightarrow> int \<Rightarrow> bool \<Rightarrow> sdata_ptr \<Rightarrow> nat \<Rightarrow> bool \<Rightarrow> mac option \<Rightarrow> key_params \<Rightarrow> world \<Rightarrow> int key_result" where
  "ieee80211_add_key E kp mem_ok tfm fips_enabled sp key_idx is_pairwise mac_addr params w =
     rbind (deref (sdatas w) sp) (\<lambda>sd.
     if \<not> iface_running sd then Inr (- ENETDOWN, [], w)
     else if is_pairwise \<and> kp_mode params = NL80211_KEY_SET_TX
     then (case mac_addr of None \<Rightarrow> Inl NullDeref | Some a \<Rightarrow> ieee80211_set_tx E sp a key_idx w)
     else if kp_cipher params \<in> {SUITE 1, SUITE 2, SUITE 5} \<and> fips_enabled then Inr (- EINVAL, [], w)
     else
       let cs = (if kp_cipher params \<in> sw_ciphers then None else ieee80211_cs_get E (kp_cipher params) (vif_type sd)) in
       rbind (ieee80211_key_alloc mem_ok tfm (kp_cipher params) (int key_idx) (kp_key params) (kp_seq_len params) (kp_seq params) cs) (\<lambda>r.
       case r of
         Inl err \<Rightarrow> Inr (err, [], w)
       | Inr k \<Rightarrow>
           rbind (case mac_addr of None \<Rightarrow> Inr None | Some a \<Rightarrow> sta_info_get_bss w sp a) (\<lambda>sta.
           rbind (deref_opt (stas w) sta) (\<lambda>s.
           if mac_addr \<noteq> None \<and> (s = None \<or> \<not> test_sta_flag WLAN_STA_ASSOC (the s)) then Inr (- ENOENT, [], w)
           else
             let k = k\<lparr>conf_flags := new_key_flags is_pairwise (kp_mode params) sd s\<rparr>;
                 w = (case sta of None \<Rightarrow> w | Some p \<Rightarrow> put_sta p ((the s)\<lparr>cipher_scheme := cs\<rparr>) w)
             in ieee80211_key_link E kp sp sta (put_key kp k w)))))"

definition ieee80211_del_key :: "key_env \<Rightarrow> sdata_ptr \<Rightarrow> nat \<Rightarrow> bool \<Rightarrow> mac option \<Rightarrow> world \<Rightarrow> int key_result" where
  "ieee80211_del_key E sp key_idx is_pairwise mac_addr w =
     rbind (deref (sdatas w) sp) (\<lambda>sd.
     rbind (case mac_addr of
              None \<Rightarrow> arr_get (sdata_keys sd) key_idx
            | Some a \<Rightarrow>
                rbind (sta_info_get_bss w sp a) (\<lambda>sta.
                case sta of
                  None \<Rightarrow> Inr None
                | Some p \<Rightarrow> rbind (deref (stas w) p) (\<lambda>s. if is_pairwise then arr_get (ptk s) key_idx else arr_get (gtk s) key_idx))) (\<lambda>kp.
     if kp = None then Inr (- ENOENT, [], w)
     else and_then (ieee80211_key_free E kp (vif_type sd = NL80211_IFTYPE_STATION) w) (\<lambda>_ w. Inr (0, [], w))))"

definition ieee80211_config_default_key :: "sdata_ptr \<Rightarrow> nat \<Rightarrow> bool \<Rightarrow> bool \<Rightarrow> world \<Rightarrow> int key_result" where
  "ieee80211_config_default_key sp key_idx uni multi w =
     and_then (ieee80211_set_default_key sp (int key_idx) uni multi w) (\<lambda>_ w. Inr (0, [], w))"

definition ieee80211_config_default_mgmt_key :: "sdata_ptr \<Rightarrow> nat \<Rightarrow> world \<Rightarrow> int key_result" where
  "ieee80211_config_default_mgmt_key sp key_idx w =
     and_then (ieee80211_set_default_mgmt_key sp (int key_idx) w) (\<lambda>_ w. Inr (0, [], w))"

end
