(* ===== verification/Key_Inv.thy ===== *)
theory Key_Inv
  imports Key_Mgmt
begin

text \<open>
  The invariant of key management: every key pointer of a station or an interface refers to an allocated key that is filed there, and the count
  of keys that need room for a software cipher is exact. The lemmas follow \<open>ieee80211_key_replace\<close> through the hardware, the slots and the lists.
\<close>

section \<open>The invariant\<close>

datatype key_slot =
    Ptk sta_ptr nat | Gtk sta_ptr nat | Iface sdata_ptr nat | Def_Uni sdata_ptr | Def_Multi sdata_ptr | Def_Mgmt sdata_ptr

definition nth_opt :: "'a option list \<Rightarrow> nat \<Rightarrow> 'a option" where
  "nth_opt xs i = (if i < length xs then xs ! i else None)"

fun slot_get :: "world \<Rightarrow> key_slot \<Rightarrow> key_ptr option" where
  "slot_get w (Ptk p i) = (case stas w p of None \<Rightarrow> None | Some s \<Rightarrow> nth_opt (ptk s) i)"
| "slot_get w (Gtk p i) = (case stas w p of None \<Rightarrow> None | Some s \<Rightarrow> nth_opt (gtk s) i)"
| "slot_get w (Iface sp i) = (case sdatas w sp of None \<Rightarrow> None | Some sd \<Rightarrow> nth_opt (sdata_keys sd) i)"
| "slot_get w (Def_Uni sp) = (case sdatas w sp of None \<Rightarrow> None | Some sd \<Rightarrow> default_unicast_key sd)"
| "slot_get w (Def_Multi sp) = (case sdatas w sp of None \<Rightarrow> None | Some sd \<Rightarrow> default_multicast_key sd)"
| "slot_get w (Def_Mgmt sp) = (case sdatas w sp of None \<Rightarrow> None | Some sd \<Rightarrow> default_mgmt_key sd)"

fun slot_fits :: "key_slot \<Rightarrow> ieee80211_key \<Rightarrow> bool" where
  "slot_fits (Ptk p i) k \<longleftrightarrow> key_sta k = Some p \<and> key_pairwise k \<and> unat (conf_keyidx k) = i"
| "slot_fits (Gtk p i) k \<longleftrightarrow> key_sta k = Some p \<and> \<not> key_pairwise k \<and> unat (conf_keyidx k) = i"
| "slot_fits (Iface sp i) k \<longleftrightarrow> key_sdata k = Some sp \<and> key_sta k = None \<and> unat (conf_keyidx k) = i"
| "slot_fits (Def_Uni sp) k \<longleftrightarrow> key_sdata k = Some sp \<and> key_sta k = None"
| "slot_fits (Def_Multi sp) k \<longleftrightarrow> key_sdata k = Some sp \<and> key_sta k = None"
| "slot_fits (Def_Mgmt sp) k \<longleftrightarrow> key_sdata k = Some sp \<and> key_sta k = None"

definition on_list :: "world \<Rightarrow> sdata_ptr \<Rightarrow> key_ptr \<Rightarrow> bool" where
  "on_list w sp kp \<longleftrightarrow> (\<exists>sd. sdatas w sp = Some sd \<and> kp \<in> set (key_list sd))"

text \<open>A key that may stand in a slot.\<close>

definition filed :: "world \<Rightarrow> key_slot \<Rightarrow> key_ptr \<Rightarrow> bool" where
  "filed w sl kp \<longleftrightarrow> (\<exists>k sp. keys w kp = Some k \<and> slot_fits sl k \<and> key_sdata k = Some sp \<and> on_list w sp kp)"

definition lists_ok :: "key_env \<Rightarrow> world \<Rightarrow> bool" where
  "lists_ok E w \<longleftrightarrow>
     (\<forall>sp sd. sdatas w sp = Some sd \<longrightarrow> distinct (key_list sd) \<and>
        (\<forall>kp\<in>set (key_list sd). \<exists>k. keys w kp = Some k \<and> key_sdata k = Some sp \<and> (key_uploaded k \<longrightarrow> has_set_key E)))"

text \<open>An access point and its VLANs know each other.\<close>

definition vlans_ok :: "world \<Rightarrow> bool" where
  "vlans_ok w \<longleftrightarrow>
     (\<forall>sp sd. sdatas w sp = Some sd \<longrightarrow> vif_type sd = NL80211_IFTYPE_AP \<longrightarrow> distinct (ap_vlans sd) \<and>
        (\<forall>v\<in>set (ap_vlans sd). \<exists>vd. sdatas w v = Some vd \<and> vif_type vd = NL80211_IFTYPE_AP_VLAN \<and> sdata_bss vd = Some sp)) \<and>
     (\<forall>v vd sp. sdatas w v = Some vd \<longrightarrow> vif_type vd = NL80211_IFTYPE_AP_VLAN \<longrightarrow> sdata_bss vd = Some sp \<longrightarrow>
        (\<exists>sd. sdatas w sp = Some sd \<and> vif_type sd = NL80211_IFTYPE_AP \<and> v \<in> set (ap_vlans sd)))"

definition key_inv :: "key_env \<Rightarrow> world \<Rightarrow> bool" where
  "key_inv E w \<longleftrightarrow> lists_ok E w \<and> vlans_ok w \<and> (\<forall>sl kp. slot_get w sl = Some kp \<longrightarrow> filed w sl kp)"

text \<open>
  A key needs room unless the hardware has it and asks for none. The count of an interface is exact when it is the number of its keys that need room, plus
  the decrements put off, plus the count of its access point if it is a VLAN.
\<close>

definition needs_room :: "ieee80211_key option \<Rightarrow> int" where
  "needs_room k = (case k of None \<Rightarrow> 0 | Some k \<Rightarrow> if key_uploaded k \<and> no_tail_flags k then 0 else 1)"

definition own_keys :: "world \<Rightarrow> ieee80211_sub_if_data \<Rightarrow> int" where
  "own_keys w sd = (\<Sum>kp\<leftarrow>key_list sd. needs_room (keys w kp))"

definition master_count :: "world \<Rightarrow> ieee80211_sub_if_data \<Rightarrow> int" where
  "master_count w sd =
     (if vif_type sd = NL80211_IFTYPE_AP_VLAN
      then case sdata_bss sd of None \<Rightarrow> 0 | Some m \<Rightarrow> (case sdatas w m of None \<Rightarrow> 0 | Some md \<Rightarrow> crypto_tx_tailroom_needed_cnt md)
      else 0)"

definition tail_excess :: "world \<Rightarrow> sdata_ptr \<Rightarrow> int" where
  "tail_excess w sp =
     (case sdatas w sp of None \<Rightarrow> 0
      | Some sd \<Rightarrow> crypto_tx_tailroom_needed_cnt sd - crypto_tx_tailroom_pending_dec sd - own_keys w sd - master_count w sd)"

section \<open>Sequencing\<close>

lemma and_thenE:
  assumes "and_then r f = Inr (b, e, w')"
  obtains a e1 w1 e2 where "r = Inr (a, e1, w1)" "f a w1 = Inr (b, e2, w')" "e = e1 @ e2"
  using assms by (auto simp: and_then_def elim!: rbind_InrE split: prod.splits)

lemma and_then_Inr [simp]: "and_then (Inr (a, e, w)) f = rbind (f a w) (\<lambda>(b, e', w). Inr (b, e @ e', w))"
  by (simp add: and_then_def)

lemma quiet_Inr_iff: "quiet r = Inr (u, e, w) \<longleftrightarrow> r = Inr w \<and> e = []"
  by (cases r) (auto simp: quiet_def)

lemma when_actE:
  assumes "when_act b f w = Inr (u, e, w')"
  obtains "b" "f w = Inr (u, e, w')" | "\<not> b" "e = []" "w' = w"
  using assms by (auto simp: when_act_def split: if_splits)

section \<open>Counting\<close>

abbreviation bump :: "int \<Rightarrow> ieee80211_sub_if_data \<Rightarrow> ieee80211_sub_if_data" where
  "bump d sd \<equiv> sd\<lparr>crypto_tx_tailroom_needed_cnt := crypto_tx_tailroom_needed_cnt sd + d\<rparr>"

definition bump_at :: "sdata_ptr set \<Rightarrow> int \<Rightarrow> world \<Rightarrow> world" where
  "bump_at S d w = w\<lparr>sdatas := (\<lambda>x. if x \<in> S then map_option (bump d) (sdatas w x) else sdatas w x)\<rparr>"

definition tail_group :: "world \<Rightarrow> sdata_ptr \<Rightarrow> sdata_ptr set" where
  "tail_group w sp =
     insert sp (case sdatas w sp of None \<Rightarrow> {} | Some sd \<Rightarrow> if vif_type sd = NL80211_IFTYPE_AP then set (ap_vlans sd) else {})"

lemma add_vlan_tailroom_ok:
  "distinct vs \<Longrightarrow> \<forall>v\<in>set vs. sdatas w v \<noteq> None \<Longrightarrow> add_vlan_tailroom vs d w = Inr (bump_at (set vs) d w)"
proof (induction vs arbitrary: w)
  case Nil
  then show ?case by (simp add: bump_at_def)
next
  case (Cons v vs)
  then obtain sd where sd: "sdatas w v = Some sd" by auto
  have "bump_at (set vs) d (put_sdata v (bump d sd) w) = bump_at (set (v # vs)) d w"
    using Cons.prems(1) sd by (auto simp: bump_at_def put_sdata_def intro!: world.equality ext)
  then show ?case using Cons sd by (simp add: put_sdata_def)
qed

lemma vlans_okD:
  assumes "vlans_ok w" "sdatas w sp = Some sd" "vif_type sd = NL80211_IFTYPE_AP"
  shows "distinct (ap_vlans sd)" "v \<in> set (ap_vlans sd) \<Longrightarrow> \<exists>vd. sdatas w v = Some vd \<and> vif_type vd = NL80211_IFTYPE_AP_VLAN \<and> sdata_bss vd = Some sp"
  using assms unfolding vlans_ok_def by blast+

lemma add_tailroom_ok:
  assumes "vlans_ok w" "sdatas w sp = Some sd"
  shows "rbind (update_vlan_tailroom_need_count sp d w) (\<lambda>w. rbind (deref (sdatas w) sp) (\<lambda>sd. Inr (put_sdata sp (bump d sd) w)))
    = Inr (bump_at (tail_group w sp) d w)"
proof (cases "vif_type sd = NL80211_IFTYPE_AP")
  case True
  note v = vlans_okD [OF assms True]
  have "sp \<notin> set (ap_vlans sd)" using v(2) assms(2) True by fastforce
  then have "put_sdata sp (bump d sd) (bump_at (set (ap_vlans sd)) d w) = bump_at (tail_group w sp) d w"
    using assms(2) True by (auto simp: bump_at_def put_sdata_def tail_group_def intro!: world.equality ext)
  moreover have "add_vlan_tailroom (ap_vlans sd) d w = Inr (bump_at (set (ap_vlans sd)) d w)"
    by (rule add_vlan_tailroom_ok [OF v(1)]) (use v(2) in blast)
  ultimately show ?thesis using assms True \<open>sp \<notin> set (ap_vlans sd)\<close> by (simp add: update_vlan_tailroom_need_count_def) (simp add: bump_at_def)
next
  case False
  then show ?thesis
    using assms by (auto simp: update_vlan_tailroom_need_count_def bump_at_def put_sdata_def tail_group_def intro!: world.equality ext)
qed

lemma increment_ok:
  assumes "vlans_ok w" "sdatas w sp = Some sd"
  shows "increment_tailroom_need_count sp w = Inr (bump_at (tail_group w sp) 1 w)"
  using add_tailroom_ok [OF assms, of 1] by (simp add: increment_tailroom_need_count_def)

lemma decrease_ok:
  assumes "vlans_ok w" "sdatas w sp = Some sd"
  shows "decrease_tailroom_need_count sp d w = Inr (bump_at (tail_group w sp) (- d) w)"
  using add_tailroom_ok [OF assms, of "- d"] by (simp add: decrease_tailroom_need_count_def)

lemma bump_excess:
  assumes "vlans_ok w" "sdatas w sp = Some sd"
  shows "tail_excess (bump_at (tail_group w sp) d w) x = tail_excess w x + (if x = sp then d else 0)"
proof (cases "sdatas w x")
  case None
  then show ?thesis using assms(2) by (auto simp: tail_excess_def bump_at_def)
next
  case (Some xd)
  let ?S = "tail_group w sp"
  have cnt: "crypto_tx_tailroom_needed_cnt (if y \<in> ?S then bump d yd else yd) = crypto_tx_tailroom_needed_cnt yd + (if y \<in> ?S then d else 0)" for y yd by simp
  have m: "master_count (bump_at ?S d w) xd = master_count w xd + (if vif_type xd = NL80211_IFTYPE_AP_VLAN \<and> (\<exists>m. sdata_bss xd = Some m \<and> m \<in> ?S) then d else 0)"
  proof (cases "vif_type xd = NL80211_IFTYPE_AP_VLAN \<and> sdata_bss xd \<noteq> None")
    case True
    then obtain m md where "sdata_bss xd = Some m" "sdatas w m = Some md" using Some assms(1) unfolding vlans_ok_def by blast
    then show ?thesis using True by (auto simp: master_count_def bump_at_def)
  qed (auto simp: master_count_def)
  have own: "own_keys (bump_at ?S d w) xd = own_keys w xd" by (simp add: own_keys_def bump_at_def)
  have mem: "(if x \<in> ?S then d else 0) - (if vif_type xd = NL80211_IFTYPE_AP_VLAN \<and> (\<exists>m. sdata_bss xd = Some m \<and> m \<in> ?S) then d else 0) = (if x = sp then d else 0)"
  proof (cases "x = sp")
    case True
    have "m \<notin> ?S" if "vif_type xd = NL80211_IFTYPE_AP_VLAN" "sdata_bss xd = Some m" for m
    proof -
      have "\<exists>md. sdatas w m = Some md \<and> vif_type md = NL80211_IFTYPE_AP" using that Some assms(1) unfolding vlans_ok_def by blast
      then show ?thesis using that True Some assms(2) by (auto simp: tail_group_def)
    qed
    then show ?thesis using True by (auto simp: tail_group_def)
  next
    case False
    have "x \<in> ?S \<longleftrightarrow> vif_type xd = NL80211_IFTYPE_AP_VLAN \<and> (\<exists>m. sdata_bss xd = Some m \<and> m \<in> ?S)"
    proof
      assume "x \<in> ?S"
      then have x: "vif_type sd = NL80211_IFTYPE_AP" "x \<in> set (ap_vlans sd)" using False assms(2) by (auto simp: tail_group_def split: if_splits)
      then show "vif_type xd = NL80211_IFTYPE_AP_VLAN \<and> (\<exists>m. sdata_bss xd = Some m \<and> m \<in> ?S)"
        using vlans_okD(2) [OF assms x(1,2)] Some by (auto simp: tail_group_def)
    next
      assume "vif_type xd = NL80211_IFTYPE_AP_VLAN \<and> (\<exists>m. sdata_bss xd = Some m \<and> m \<in> ?S)"
      then obtain m md where m: "sdatas w m = Some md" "vif_type md = NL80211_IFTYPE_AP" "x \<in> set (ap_vlans md)" "m \<in> ?S"
        using Some assms(1) unfolding vlans_ok_def by blast
      have "m = sp"
      proof (rule ccontr)
        assume n: "m \<noteq> sp"
        then have "vif_type sd = NL80211_IFTYPE_AP" "m \<in> set (ap_vlans sd)" using m(4) assms(2) by (auto simp: tail_group_def split: if_splits)
        then show False using vlans_okD(2) [OF assms] m(1,2) by fastforce
      qed
      then show "x \<in> ?S" using m assms(2) by (auto simp: tail_group_def)
    qed
    then show ?thesis using False by simp
  qed
  let ?xd = "if x \<in> ?S then bump d xd else xd"
  have "sdatas (bump_at ?S d w) x = Some ?xd" using Some by (simp add: bump_at_def)
  moreover have "master_count (bump_at ?S d w) ?xd = master_count (bump_at ?S d w) xd" "own_keys (bump_at ?S d w) ?xd = own_keys (bump_at ?S d w) xd"
    "crypto_tx_tailroom_pending_dec ?xd = crypto_tx_tailroom_pending_dec xd"
    by (simp_all add: master_count_def own_keys_def)
  ultimately have "tail_excess (bump_at ?S d w) x = crypto_tx_tailroom_needed_cnt ?xd - crypto_tx_tailroom_pending_dec xd - own_keys w xd -
      master_count (bump_at ?S d w) xd" using own by (simp add: tail_excess_def del: if_split)
  then show ?thesis using Some mem unfolding m cnt by (simp add: tail_excess_def del: if_split)
qed

section \<open>Changes that keep slots and lists\<close>

definition tweak :: "ieee80211_key \<Rightarrow> ieee80211_key \<Rightarrow> bool" where
  "tweak k k' \<longleftrightarrow> key_sdata k' = key_sdata k \<and> key_sta k' = key_sta k \<and> conf_keyidx k' = conf_keyidx k \<and> key_pairwise k' = key_pairwise k \<and>
     conf_cipher k' = conf_cipher k \<and> conf_key k' = conf_key k \<and> conf_tx_pn k' = conf_tx_pn k \<and> key_rx_pn k' = key_rx_pn k"

definition same_shape :: "ieee80211_sub_if_data \<Rightarrow> ieee80211_sub_if_data \<Rightarrow> bool" where
  "same_shape a b \<longleftrightarrow> vif_type b = vif_type a \<and> sdata_bss b = sdata_bss a \<and> ap_vlans b = ap_vlans a \<and> key_list b = key_list a"

text \<open>Keys keep their place, interfaces their kind and their list of keys; \<open>calm\<close> if the slots stay the same too.\<close>

definition shaped :: "world \<Rightarrow> world \<Rightarrow> bool" where
  "shaped w w' \<longleftrightarrow> (\<forall>kp. rel_option tweak (keys w kp) (keys w' kp)) \<and> (\<forall>sp. rel_option same_shape (sdatas w sp) (sdatas w' sp)) \<and>
     (\<forall>p. stas w' p = None \<longleftrightarrow> stas w p = None)"

definition calm :: "world \<Rightarrow> world \<Rightarrow> bool" where
  "calm w w' \<longleftrightarrow> shaped w w' \<and> (\<forall>sl. slot_get w' sl = slot_get w sl)"

lemma tweak_refl [simp]: "tweak k k" by (simp add: tweak_def)

lemma same_shape_refl [simp]: "same_shape a a" by (simp add: same_shape_def)

lemma calm_refl [simp]: "calm w w"
  by (auto simp: calm_def shaped_def option.rel_refl)

lemma rel_option_trans: "rel_option R a b \<Longrightarrow> rel_option R b c \<Longrightarrow> (\<And>x y z. R x y \<Longrightarrow> R y z \<Longrightarrow> R x z) \<Longrightarrow> rel_option R a c"
  by (cases a; cases b; cases c) auto

lemma shaped_trans:
  assumes "shaped w w1" "shaped w1 w2"
  shows "shaped w w2"
proof -
  have "rel_option tweak (keys w kp) (keys w2 kp)" for kp
    by (rule rel_option_trans [of _ "keys w kp" "keys w1 kp"]) (use assms in \<open>auto simp: shaped_def tweak_def\<close>)
  moreover have "rel_option same_shape (sdatas w sp) (sdatas w2 sp)" for sp
    by (rule rel_option_trans [of _ "sdatas w sp" "sdatas w1 sp"]) (use assms in \<open>auto simp: shaped_def same_shape_def\<close>)
  ultimately show ?thesis using assms by (simp add: shaped_def)
qed

lemma calm_trans: "calm w w1 \<Longrightarrow> calm w1 w2 \<Longrightarrow> calm w w2"
  using shaped_trans by (auto simp: calm_def)

lemma shaped_key:
  assumes "shaped w w'" "keys w kp = Some k"
  obtains k' where "keys w' kp = Some k'" "tweak k k'"
proof -
  have "rel_option tweak (keys w kp) (keys w' kp)" using assms(1) by (simp add: shaped_def)
  then show thesis using that assms(2) by (cases "keys w' kp") auto
qed

lemma shaped_iface:
  assumes "shaped w w'" "sdatas w sp = Some sd"
  obtains sd' where "sdatas w' sp = Some sd'" "same_shape sd sd'"
proof -
  have "rel_option same_shape (sdatas w sp) (sdatas w' sp)" using assms(1) by (simp add: shaped_def)
  then show thesis using that assms(2) by (cases "sdatas w' sp") auto
qed

lemma shaped_iface_rev:
  assumes "shaped w w'" "sdatas w' sp = Some sd'"
  obtains sd where "sdatas w sp = Some sd" "same_shape sd sd'"
proof -
  have "rel_option same_shape (sdatas w sp) (sdatas w' sp)" using assms(1) by (simp add: shaped_def)
  then show thesis using that assms(2) by (cases "sdatas w sp") auto
qed

lemma shaped_on_list: "shaped w w' \<Longrightarrow> on_list w' sp kp = on_list w sp kp"
  by (auto simp: on_list_def same_shape_def elim: shaped_iface shaped_iface_rev)

lemma tweak_fits: "tweak k k' \<Longrightarrow> slot_fits sl k' = slot_fits sl k"
  by (cases sl) (auto simp: tweak_def)

lemma shaped_filed:
  assumes "shaped w w'" "filed w sl kp"
  shows "filed w' sl kp"
proof -
  obtain k sp where k: "keys w kp = Some k" "slot_fits sl k" "key_sdata k = Some sp" "on_list w sp kp" using assms(2) by (auto simp: filed_def)
  obtain k' where "keys w' kp = Some k'" "tweak k k'" using shaped_key [OF assms(1) k(1)] .
  then show ?thesis using k tweak_fits [of k k'] shaped_on_list [OF assms(1)] by (auto simp: filed_def tweak_def)
qed

definition same_kind :: "ieee80211_sub_if_data \<Rightarrow> ieee80211_sub_if_data \<Rightarrow> bool" where
  "same_kind a b \<longleftrightarrow> vif_type b = vif_type a \<and> sdata_bss b = sdata_bss a \<and> ap_vlans b = ap_vlans a"

lemma kind_vlans_ok:
  assumes c: "\<And>sp. rel_option same_kind (sdatas w sp) (sdatas w' sp)" and "vlans_ok w"
  shows "vlans_ok w'"
proof -
  have bw: "\<exists>sd0. sdatas w sp = Some sd0 \<and> same_kind sd0 sd" if "sdatas w' sp = Some sd" for sp sd
    using c [of sp] that by (cases "sdatas w sp") auto
  have fw: "\<exists>sd'. sdatas w' sp = Some sd' \<and> same_kind sd sd'" if "sdatas w sp = Some sd" for sp sd
    using c [of sp] that by (cases "sdatas w' sp") auto
  show ?thesis unfolding vlans_ok_def
  proof (intro conjI allI impI)
    fix sp sd assume a: "sdatas w' sp = Some sd" "vif_type sd = NL80211_IFTYPE_AP"
    obtain sd0 where b: "sdatas w sp = Some sd0" "same_kind sd0 sd" using bw [OF a(1)] by blast
    have t: "vif_type sd0 = NL80211_IFTYPE_AP" "ap_vlans sd = ap_vlans sd0" using a(2) b(2) by (simp_all add: same_kind_def)
    show "distinct (ap_vlans sd)" using vlans_okD(1) [OF assms(2) b(1) t(1)] t(2) by simp
    show "\<forall>v\<in>set (ap_vlans sd). \<exists>vd. sdatas w' v = Some vd \<and> vif_type vd = NL80211_IFTYPE_AP_VLAN \<and> sdata_bss vd = Some sp"
    proof
      fix v assume "v \<in> set (ap_vlans sd)"
      then obtain vd where vd: "sdatas w v = Some vd" "vif_type vd = NL80211_IFTYPE_AP_VLAN" "sdata_bss vd = Some sp"
        using vlans_okD(2) [OF assms(2) b(1) t(1)] t(2) by auto
      obtain vd' where "sdatas w' v = Some vd'" "same_kind vd vd'" using fw [OF vd(1)] by blast
      then show "\<exists>vd. sdatas w' v = Some vd \<and> vif_type vd = NL80211_IFTYPE_AP_VLAN \<and> sdata_bss vd = Some sp"
        using vd by (auto simp: same_kind_def)
    qed
  next
    fix v vd sp assume a: "sdatas w' v = Some vd" "vif_type vd = NL80211_IFTYPE_AP_VLAN" "sdata_bss vd = Some sp"
    obtain vd0 where b: "sdatas w v = Some vd0" "same_kind vd0 vd" using bw [OF a(1)] by blast
    then have "vif_type vd0 = NL80211_IFTYPE_AP_VLAN" "sdata_bss vd0 = Some sp" using a by (simp_all add: same_kind_def)
    then obtain sd where sd: "sdatas w sp = Some sd" "vif_type sd = NL80211_IFTYPE_AP" "v \<in> set (ap_vlans sd)"
      using b(1) assms(2) unfolding vlans_ok_def by blast
    obtain sd' where "sdatas w' sp = Some sd'" "same_kind sd sd'" using fw [OF sd(1)] by blast
    then show "\<exists>sd. sdatas w' sp = Some sd \<and> vif_type sd = NL80211_IFTYPE_AP \<and> v \<in> set (ap_vlans sd)"
      using sd by (auto simp: same_kind_def)
  qed
qed

lemma shaped_vlans_ok:
  assumes "shaped w w'" "vlans_ok w"
  shows "vlans_ok w'"
proof (rule kind_vlans_ok [OF _ assms(2)])
  fix sp
  have "rel_option same_shape (sdatas w sp) (sdatas w' sp)" using assms(1) by (simp add: shaped_def)
  then show "rel_option same_kind (sdatas w sp) (sdatas w' sp)" by (rule option.rel_mono_strong) (simp add: same_shape_def same_kind_def)
qed

lemma shaped_inv:
  assumes c: "shaped w w'" and i: "key_inv E w"
    and u: "\<And>kp k k'. keys w kp = Some k \<Longrightarrow> keys w' kp = Some k' \<Longrightarrow> key_uploaded k' \<Longrightarrow> key_uploaded k \<or> has_set_key E"
    and sl: "\<And>sl kp. slot_get w' sl = Some kp \<Longrightarrow> slot_get w sl = Some kp \<or> filed w sl kp"
  shows "key_inv E w'"
proof -
  have "distinct (key_list sd') \<and> (\<forall>kp\<in>set (key_list sd'). \<exists>k. keys w' kp = Some k \<and> key_sdata k = Some sp \<and> (key_uploaded k \<longrightarrow> has_set_key E))"
    if sd': "sdatas w' sp = Some sd'" for sp sd'
  proof -
    obtain sd where sd: "sdatas w sp = Some sd" "key_list sd' = key_list sd" using shaped_iface_rev [OF c sd'] by (auto simp: same_shape_def)
    have d: "distinct (key_list sd)"
        "\<And>kp. kp \<in> set (key_list sd) \<Longrightarrow> \<exists>k. keys w kp = Some k \<and> key_sdata k = Some sp \<and> (key_uploaded k \<longrightarrow> has_set_key E)"
      using i sd(1) unfolding key_inv_def lists_ok_def by blast+
    have "\<exists>k. keys w' kp = Some k \<and> key_sdata k = Some sp \<and> (key_uploaded k \<longrightarrow> has_set_key E)" if m: "kp \<in> set (key_list sd)" for kp
    proof -
      obtain k where k: "keys w kp = Some k" "key_sdata k = Some sp" "key_uploaded k \<longrightarrow> has_set_key E" using d(2) [OF m] by blast
      obtain k' where "keys w' kp = Some k'" "tweak k k'" using shaped_key [OF c k(1)] .
      then show ?thesis using k u [OF k(1)] by (auto simp: tweak_def)
    qed
    then show ?thesis using d(1) sd(2) by simp
  qed
  moreover have "vlans_ok w'" using shaped_vlans_ok [OF c] i by (simp add: key_inv_def)
  moreover have "filed w' sl kp" if "slot_get w' sl = Some kp" for sl kp
    using sl [OF that] i shaped_filed [OF c] by (auto simp: key_inv_def)
  ultimately show ?thesis unfolding key_inv_def lists_ok_def by blast
qed

lemma calm_vlans_ok: "calm w w' \<Longrightarrow> vlans_ok w \<Longrightarrow> vlans_ok w'"
  using shaped_vlans_ok by (auto simp: calm_def)

lemma calm_inv:
  assumes "calm w w'" "key_inv E w"
    and "\<And>kp k k'. keys w kp = Some k \<Longrightarrow> keys w' kp = Some k' \<Longrightarrow> key_uploaded k' \<Longrightarrow> key_uploaded k \<or> has_set_key E"
  shows "key_inv E w'"
  by (rule shaped_inv [OF _ assms(2,3)]) (use assms(1) in \<open>auto simp: calm_def\<close>)

subsection \<open>Counts\<close>

lemma master_count_keys [simp]: "master_count (w\<lparr>keys := f\<rparr>) sd = master_count w sd"
  by (simp add: master_count_def split: option.split)

lemma slot_get_cong:
  assumes "stas w' = stas w"
    and "\<And>sp. map_option (\<lambda>sd. (sdata_keys sd, default_unicast_key sd, default_multicast_key sd, default_mgmt_key sd)) (sdatas w' sp) =
      map_option (\<lambda>sd. (sdata_keys sd, default_unicast_key sd, default_multicast_key sd, default_mgmt_key sd)) (sdatas w sp)"
  shows "slot_get w' sl = slot_get w sl"
proof (cases sl)
  case (Iface sp i)
  then show ?thesis using assms(2) [of sp] by (cases "sdatas w sp"; cases "sdatas w' sp") auto
next
  case (Def_Uni sp)
  then show ?thesis using assms(2) [of sp] by (cases "sdatas w sp"; cases "sdatas w' sp") auto
next
  case (Def_Multi sp)
  then show ?thesis using assms(2) [of sp] by (cases "sdatas w sp"; cases "sdatas w' sp") auto
next
  case (Def_Mgmt sp)
  then show ?thesis using assms(2) [of sp] by (cases "sdatas w sp"; cases "sdatas w' sp") auto
qed (auto simp: assms(1))

lemma bump_calm: "calm w (bump_at S d w)"
proof -
  have "slot_get (bump_at S d w) sl = slot_get w sl" for sl
    by (rule slot_get_cong) (auto simp: bump_at_def option.map_comp o_def)
  moreover have "rel_option same_shape (sdatas w sp) (sdatas (bump_at S d w) sp)" for sp
    by (cases "sdatas w sp") (auto simp: bump_at_def same_shape_def)
  ultimately show ?thesis by (auto simp: calm_def shaped_def bump_at_def option.rel_refl)
qed

lemma bump_inv: "key_inv E w \<Longrightarrow> key_inv E (bump_at S d w)"
  by (rule calm_inv [OF bump_calm]) (auto simp: bump_at_def)

lemma bump_keys [simp]: "keys (bump_at S d w) = keys w" "stas (bump_at S d w) = stas w"
  by (simp_all add: bump_at_def)

lemma put_key_calm:
  assumes "keys w kp = Some k" "tweak k k'"
  shows "calm w (put_key kp k' w)"
proof -
  have "slot_get (put_key kp k' w) sl = slot_get w sl" for sl by (rule slot_get_cong) (auto simp: put_key_def)
  then show ?thesis using assms by (auto simp: calm_def shaped_def put_key_def option.rel_refl)
qed

lemma put_key_inv:
  assumes "key_inv E w" "keys w kp = Some k" "tweak k k'" "key_uploaded k' \<Longrightarrow> key_uploaded k \<or> has_set_key E"
  shows "key_inv E (put_key kp k' w)"
  by (rule calm_inv [OF put_key_calm [OF assms(2,3)] assms(1)]) (use assms(2,4) in \<open>auto simp: put_key_def split: if_splits\<close>)

lemma own_keys_put_key:
  assumes "distinct (key_list sd)"
  shows "own_keys (put_key kp k' w) sd = own_keys w sd + (if kp \<in> set (key_list sd) then needs_room (Some k') - needs_room (keys w kp) else 0)"
  unfolding own_keys_def
  by (subst sum_list_update [OF assms, where a = kp and g = "\<lambda>kp. needs_room (keys w kp)"]) (auto simp: put_key_def)

lemma put_key_excess:
  assumes "key_inv E w" "keys w kp = Some k" "key_sdata k = Some sp" "on_list w sp kp"
  shows "tail_excess (put_key kp k' w) x = tail_excess w x - (if x = sp then needs_room (Some k') - needs_room (Some k) else 0)"
proof (cases "sdatas w x")
  case None
  then show ?thesis using assms(4) by (auto simp: tail_excess_def put_key_def on_list_def)
next
  case (Some xd)
  then have l: "distinct (key_list xd)" "kp \<in> set (key_list xd) \<Longrightarrow> x = sp"
    using assms(1-3) unfolding key_inv_def lists_ok_def by fastforce+
  have "kp \<in> set (key_list xd) \<longleftrightarrow> x = sp" using l(2) assms(4) Some by (auto simp: on_list_def)
  then show ?thesis
    using Some own_keys_put_key [OF l(1), of kp k' w] assms(2) by (auto simp: tail_excess_def put_key_def)
qed

lemma put_unlisted_excess:
  assumes "\<And>sp. \<not> on_list w sp kp"
  shows "tail_excess (w\<lparr>keys := (keys w)(kp := k)\<rparr>) x = tail_excess w x"
proof (cases "sdatas w x")
  case (Some xd)
  then have "kp \<notin> set (key_list xd)" using assms [of x] by (auto simp: on_list_def)
  then have "own_keys (w\<lparr>keys := (keys w)(kp := k)\<rparr>) xd = own_keys w xd"
    unfolding own_keys_def by (intro arg_cong [where f = sum_list] map_cong) auto
  then show ?thesis using Some by (simp add: tail_excess_def)
qed (simp add: tail_excess_def)

subsection \<open>The hardware\<close>

definition driver_ok :: "key_env \<Rightarrow> bool" where
  "driver_ok E \<longleftrightarrow> (\<forall>kp. snd (hw_set_key E kp) AND IEEE80211_KEY_FLAG_PAIRWISE = 0)"

definition steady :: "key_env \<Rightarrow> world \<Rightarrow> world \<Rightarrow> bool" where
  "steady E w w' \<longleftrightarrow> calm w w' \<and> key_inv E w' \<and> (\<forall>x. tail_excess w' x = tail_excess w x)"

lemma steady_refl: "key_inv E w \<Longrightarrow> steady E w w"
  by (simp add: steady_def)

lemma steady_trans: "steady E w w1 \<Longrightarrow> steady E w1 w2 \<Longrightarrow> steady E w w2"
  using calm_trans by (auto simp: steady_def)

lemma key_flag_simps [simp]:
  "\<not> key_uploaded (k\<lparr>key_flags := f AND - 2\<rparr>)"
  "key_uploaded (k\<lparr>key_flags := f OR KEY_FLAG_UPLOADED_TO_HARDWARE\<rparr>)"
  "key_uploaded (k\<lparr>key_flags := key_flags k OR KEY_FLAG_TAINTED\<rparr>) = key_uploaded k"
  "key_uploaded (k\<lparr>conf_flags := c\<rparr>) = key_uploaded k"
  "no_tail_flags (k\<lparr>key_flags := f\<rparr>) = no_tail_flags k"
  "key_pairwise (k\<lparr>key_flags := f\<rparr>) = key_pairwise k"
proof -
  have "(f AND NOT KEY_FLAG_UPLOADED_TO_HARDWARE) AND KEY_FLAG_UPLOADED_TO_HARDWARE = 0" by (rule bit_word_eqI) (auto simp: bit_simps)
  then show "\<not> key_uploaded (k\<lparr>key_flags := f AND - 2\<rparr>)" by (simp add: key_uploaded_def)
  have "(f OR KEY_FLAG_UPLOADED_TO_HARDWARE) AND KEY_FLAG_UPLOADED_TO_HARDWARE = 1" by (rule bit_word_eqI) (auto simp: bit_simps)
  then show "key_uploaded (k\<lparr>key_flags := f OR KEY_FLAG_UPLOADED_TO_HARDWARE\<rparr>)" by (simp add: key_uploaded_def)
  have "(f OR KEY_FLAG_TAINTED) AND KEY_FLAG_UPLOADED_TO_HARDWARE = f AND KEY_FLAG_UPLOADED_TO_HARDWARE" for f :: u32
    by (simp add: bit.conj_disj_distrib2)
  then show "key_uploaded (k\<lparr>key_flags := key_flags k OR KEY_FLAG_TAINTED\<rparr>) = key_uploaded k" by (simp add: key_uploaded_def)
qed (simp_all add: key_uploaded_def no_tail_flags_def key_pairwise_def)

lemma tweak_flags [simp]: "tweak k (k\<lparr>key_flags := f\<rparr>)"
  by (simp add: tweak_def)

lemma tweak_conf_flags:
  assumes "driver_ok E"
  shows "tweak k (k\<lparr>conf_flags := conf_flags k OR snd (hw_set_key E kp)\<rparr>)"
  using assms by (simp add: tweak_def key_pairwise_def driver_ok_def bit.conj_disj_distrib2)

lemma inv_iface:
  assumes "key_inv E w" "on_list w sp kp"
  obtains sd where "sdatas w sp = Some sd" "vlans_ok w"
  using assms by (auto simp: key_inv_def on_list_def)

text \<open>A change of the flags of a listed key together with the count.\<close>

lemma put_key_bump_steady:
  assumes "key_inv E w" "keys w kp = Some k" "key_sdata k = Some sp" "on_list w sp kp" "tweak k k'" "key_uploaded k' \<Longrightarrow> key_uploaded k \<or> has_set_key E"
    and d: "d = needs_room (Some k') - needs_room (Some k)"
  shows "steady E w (bump_at (tail_group w sp) d (put_key kp k' w))"
proof -
  note p = put_key_inv [OF assms(1,2,5,6)] put_key_calm [OF assms(2,5)]
  obtain sd where sd: "sdatas w sp = Some sd" using inv_iface [OF assms(1,4)] .
  have v: "vlans_ok (put_key kp k' w)" "sdatas (put_key kp k' w) sp = Some sd" "tail_group (put_key kp k' w) sp = tail_group w sp"
    using p(1) sd by (simp_all add: key_inv_def put_key_def tail_group_def)
  show ?thesis
    using bump_inv [OF p(1)] calm_trans [OF p(2) bump_calm] bump_excess [OF v(1,2), of d] v(3) put_key_excess [OF assms(1-4), of k'] d
    by (simp add: steady_def)
qed

lemma put_key_steady:
  assumes "key_inv E w" "keys w kp = Some k" "key_sdata k = Some sp" "on_list w sp kp" "tweak k k'" "key_uploaded k' \<Longrightarrow> key_uploaded k \<or> has_set_key E"
    and "needs_room (Some k') = needs_room (Some k)"
  shows "steady E w (put_key kp k' w)"
  using put_key_inv [OF assms(1,2,5,6)] put_key_calm [OF assms(2,5)] put_key_excess [OF assms(1-4), of k'] assms(7) by (simp add: steady_def)

lemma enable_steady:
  assumes i: "key_inv E w" and k: "keys w kp = Some k" "key_sdata k = Some sp" "on_list w sp kp" "\<not> key_uploaded k" and d: "driver_ok E"
    and f: "ieee80211_key_enable_hw_accel E kp w = Inr (ret, e, w')"
  shows "steady E w w' \<and> stas w' = stas w \<and> (\<exists>k'. keys w' = (keys w)(kp \<mapsto> k'))"
proof -
  obtain sd where sd: "sdatas w sp = Some sd" "vlans_ok w" using inv_iface [OF i k(3)] .
  let ?k1 = "k\<lparr>conf_flags := conf_flags k OR snd (hw_set_key E kp)\<rparr>"
  let ?k2 = "?k1\<lparr>key_flags := key_flags k OR KEY_FLAG_UPLOADED_TO_HARDWARE\<rparr>"
  have t: "tweak k ?k1" "tweak k ?k2" using tweak_conf_flags [OF d, of k kp] by (simp_all add: tweak_def)
  consider "w' = w" | "w' = put_key kp (k\<lparr>key_flags := key_flags k AND NOT KEY_FLAG_UPLOADED_TO_HARDWARE\<rparr>) w"
    | "w' = put_key kp ?k1 w" | "has_set_key E" "\<not> no_tail_flags ?k2" "w' = put_key kp ?k2 w"
    | "has_set_key E" "no_tail_flags ?k2" "decrease_tailroom_need_count sp 1 (put_key kp ?k2 w) = Inr w'"
    using f k sd(1) by (auto simp: ieee80211_key_enable_hw_accel_def key_iface_def Let_def case_prod_beta elim!: rbind_InrE split: if_splits)
  then show ?thesis
  proof cases
    case 1
    then show ?thesis using i k(1) by (auto simp: steady_refl intro!: exI [of _ k])
  next
    case 2
    then show ?thesis
      using put_key_steady [OF i k(1-3), of "k\<lparr>key_flags := key_flags k AND NOT KEY_FLAG_UPLOADED_TO_HARDWARE\<rparr>"] k(4)
      by (auto simp: needs_room_def put_key_def)
  next
    case 3
    then show ?thesis using put_key_steady [OF i k(1-3) t(1)] k(4) by (auto simp: needs_room_def put_key_def)
  next
    case 4
    then show ?thesis using put_key_steady [OF i k(1-3) t(2)] k(4) by (auto simp: needs_room_def put_key_def)
  next
    case 5
    have "vlans_ok (put_key kp ?k2 w)" "sdatas (put_key kp ?k2 w) sp = Some sd" "tail_group (put_key kp ?k2 w) sp = tail_group w sp"
      using sd calm_vlans_ok [OF put_key_calm [OF k(1) t(2)]] by (simp_all add: put_key_def tail_group_def)
    then have "w' = bump_at (tail_group w sp) (- 1) (put_key kp ?k2 w)" using 5(3) decrease_ok by simp
    then show ?thesis using put_key_bump_steady [OF i k(1-3) t(2), of "- 1"] 5(1,2) k(4) by (auto simp: needs_room_def put_key_def)
  qed
qed

lemma disable_steady:
  assumes i: "key_inv E w" and k: "keys w kp = Some k" "key_sdata k = Some sp" "on_list w sp kp"
    and f: "ieee80211_key_disable_hw_accel E kp w = Inr (u, e, w')"
  shows "steady E w w' \<and> stas w' = stas w \<and> (\<exists>k'. keys w' = (keys w)(kp \<mapsto> k') \<and> tweak k k' \<and> \<not> key_uploaded k')"
proof -
  obtain sd where sd: "sdatas w sp = Some sd" "vlans_ok w" using inv_iface [OF i k(3)] .
  have u: "key_uploaded k \<longrightarrow> has_set_key E" using i k sd(1) unfolding key_inv_def lists_ok_def on_list_def by fastforce
  let ?k = "k\<lparr>key_flags := key_flags k AND NOT KEY_FLAG_UPLOADED_TO_HARDWARE\<rparr>"
  consider "\<not> key_uploaded k" "w' = w" | "\<not> no_tail_flags k" "w' = put_key kp ?k w"
    | w1 where "key_uploaded k" "no_tail_flags k" "increment_tailroom_need_count sp w = Inr w1" "w' = put_key kp ?k w1"
    using f k u by (auto simp: ieee80211_key_disable_hw_accel_def key_iface_def elim!: rbind_InrE split: if_splits)
  then show ?thesis
  proof cases
    case 1
    then show ?thesis using steady_refl [OF i] k(1) by (intro conjI exI [of _ k]) auto
  next
    case 2
    then show ?thesis using put_key_steady [OF i k, of ?k] by (auto simp: needs_room_def put_key_def intro: exI [of _ ?k])
  next
    case 3
    then have "w1 = bump_at (tail_group w sp) 1 w" using increment_ok [OF sd(2,1)] by simp
    then have "w' = bump_at (tail_group w sp) 1 (put_key kp ?k w)" using 3(4) by (auto simp: bump_at_def put_key_def intro!: world.equality ext)
    then show ?thesis using put_key_bump_steady [OF i k, of ?k 1] 3(1,2) by (auto simp: needs_room_def put_key_def intro: exI [of _ ?k])
  qed
qed

lemma put_sta_slot: "slot_get (put_sta p s' w) sl = (case sl of Ptk q i \<Rightarrow> if q = p then nth_opt (ptk s') i else slot_get w sl
    | Gtk q i \<Rightarrow> if q = p then nth_opt (gtk s') i else slot_get w sl | _ \<Rightarrow> slot_get w sl)"
  by (cases sl) (auto simp: put_sta_def)

lemma excess_stas [simp]: "tail_excess (w\<lparr>stas := f\<rparr>) x = tail_excess w x"
  by (simp add: tail_excess_def own_keys_def master_count_def split: option.split)

lemma put_sta_steady:
  assumes "key_inv E w" "stas w p = Some s" "ptk s' = ptk s" "gtk s' = gtk s"
  shows "steady E w (put_sta p s' w)" "keys (put_sta p s' w) = keys w"
proof -
  have "slot_get (put_sta p s' w) sl = slot_get w sl" for sl using assms by (cases sl) (auto simp: put_sta_def)
  then have c: "calm w (put_sta p s' w)" using assms(2) by (auto simp: calm_def shaped_def put_sta_def option.rel_refl)
  have "key_inv E (put_sta p s' w)" by (rule calm_inv [OF c assms(1)]) (auto simp: put_sta_def)
  then show "steady E w (put_sta p s' w)" "keys (put_sta p s' w) = keys w" using c by (auto simp: steady_def put_sta_def)
qed

text \<open>A key of an interface's list, in a given world.\<close>

definition listed_key :: "world \<Rightarrow> key_ptr \<Rightarrow> ieee80211_key \<Rightarrow> sdata_ptr \<Rightarrow> bool" where
  "listed_key w kp k sp \<longleftrightarrow> keys w kp = Some k \<and> key_sdata k = Some sp \<and> on_list w sp kp"

lemma steady_listed:
  assumes "steady E w w'" "listed_key w kp k sp"
  obtains k' where "listed_key w' kp k' sp" "tweak k k'"
proof -
  have c: "shaped w w'" using assms(1) by (simp add: steady_def calm_def)
  obtain k' where "keys w' kp = Some k'" "tweak k k'" using shaped_key [OF c] assms(2) by (auto simp: listed_key_def)
  then show thesis using that assms(2) shaped_on_list [OF c] by (auto simp: listed_key_def tweak_def)
qed

lemma rekey_steady:
  assumes i: "key_inv E w" and o: "\<And>op. old = Some op \<Longrightarrow> \<exists>ko so. listed_key w op ko so"
    and f: "ieee80211_pairwise_rekey E old np w = Inr (u, e, w')"
  shows "steady E w w' \<and> (\<forall>kp k k'. keys w kp = Some k \<longrightarrow> keys w' kp = Some k' \<longrightarrow> key_uploaded k' = key_uploaded k)"
proof -
  obtain kn p s where k: "keys w np = Some kn" "key_sta kn = Some p" "stas w p = Some s"
    using f by (auto simp: ieee80211_pairwise_rekey_def deref_Inr_iff elim!: rbind_InrE split: option.splits)
  let ?s = "set_sta_flag WLAN_STA_BLOCK_BA s"
  have s: "ptk ?s = ptk s" "gtk ?s = gtk s" by (simp_all add: set_sta_flag_def)
  show ?thesis
  proof (cases "old = None \<or> conf_flags kn AND IEEE80211_KEY_FLAG_NO_AUTO_TX \<noteq> 0")
    case True
    then have "w' = w \<or> w' = put_sta p ?s w" using f k by (auto simp: ieee80211_pairwise_rekey_def split: if_splits)
    then show ?thesis using steady_refl [OF i] put_sta_steady [OF i k(3) s] by auto
  next
    case False
    then obtain op ko so where l: "old = Some op" "keys w op = Some ko" "key_sdata ko = Some so" "on_list w so op"
      using o by (auto simp: listed_key_def)
    let ?k = "ko\<lparr>key_flags := key_flags ko OR KEY_FLAG_TAINTED\<rparr>"
    let ?w = "put_key op ?k w"
    have 1: "steady E w ?w" using put_key_steady [OF i l(2-4), of ?k] by (simp add: needs_room_def)
    have 2: "steady E ?w (put_sta p ?s ?w)" using put_sta_steady(1) [of E ?w p s ?s] 1 k(3) s by (simp add: steady_def put_key_def)
    have "w' = w \<or> w' = ?w \<or> w' = put_sta p ?s ?w"
      using f k l False by (simp add: ieee80211_pairwise_rekey_def key_iface_def split: if_splits)
    then show ?thesis using steady_refl [OF i] 1 steady_trans [OF 1 2] l(2) by (auto simp: put_key_def put_sta_def split: if_splits)
  qed
qed

lemma replace_hw_steady:
  assumes i: "key_inv E w" and d: "driver_ok E"
    and n: "\<And>np. new = Some np \<Longrightarrow> \<exists>kn sn. listed_key w np kn sn \<and> \<not> key_uploaded kn"
    and o: "\<And>op. old = Some op \<Longrightarrow> \<exists>ko so. listed_key w op ko so" and ne: "old \<noteq> new"
    and f: "replace_hw E old new w = Inr (ret, e, w')"
  shows "steady E w w' \<and> stas w' = stas w \<and> (\<forall>op k. old = Some op \<longrightarrow> keys w' op = Some k \<longrightarrow> \<not> key_uploaded k)"
proof (cases old)
  case None
  then show ?thesis
    using f n enable_steady [OF i _ _ _ _ d] steady_refl [OF i] by (auto simp: replace_hw_def listed_key_def split: option.splits if_splits)
next
  case (Some op)
  obtain ko so where ko: "keys w op = Some ko" "key_sdata ko = Some so" "on_list w so op" using o [OF Some] by (auto simp: listed_key_def)
  show ?thesis
  proof (cases "key_uploaded ko")
    case False
    then show ?thesis using f Some ko(1) steady_refl [OF i] by (auto simp: replace_hw_def)
  next
    case True
    then obtain e1 w1 e2 u where 1: "ieee80211_key_disable_hw_accel E op w = Inr (u, e1, w1)"
        "(case new of None \<Rightarrow> Inr (0, [], w1) | Some np \<Rightarrow> ieee80211_key_enable_hw_accel E np w1) = Inr (ret, e2, w')"
      using f Some ko(1) by (auto simp: replace_hw_def elim: and_thenE)
    obtain k' where s1: "steady E w w1" "stas w1 = stas w" "keys w1 = (keys w)(op \<mapsto> k')" "\<not> key_uploaded k'"
      using disable_steady [OF i ko 1(1)] by blast
    show ?thesis
    proof (cases new)
      case None
      then show ?thesis using 1(2) s1 Some by auto
    next
      case n': (Some np)
      obtain kn sn where kn: "listed_key w np kn sn" "\<not> key_uploaded kn" using n [OF n'] by blast
      have ne': "np \<noteq> op" using ne Some n' by auto
      have c: "shaped w w1" "key_inv E w1" using s1(1) by (simp_all add: steady_def calm_def)
      have k1: "keys w1 np = Some kn" "key_sdata kn = Some sn" "on_list w1 sn np"
        using kn(1) s1(3) ne' shaped_on_list [OF c(1)] by (simp_all add: listed_key_def)
      have "steady E w1 w' \<and> stas w' = stas w1 \<and> (\<exists>k'. keys w' = (keys w1)(np \<mapsto> k'))"
        by (rule enable_steady [OF c(2) k1 kn(2) d]) (use 1(2) n' in simp)
      then show ?thesis using steady_trans [OF s1(1)] s1(2-4) ne' Some by auto
    qed
  qed
qed

section \<open>Replacing a key\<close>

subsection \<open>Slots\<close>

definition same_count :: "ieee80211_sub_if_data \<Rightarrow> ieee80211_sub_if_data \<Rightarrow> bool" where
  "same_count a b \<longleftrightarrow> same_shape a b \<and> crypto_tx_tailroom_needed_cnt b = crypto_tx_tailroom_needed_cnt a \<and>
     crypto_tx_tailroom_pending_dec b = crypto_tx_tailroom_pending_dec a"

definition reslot :: "world \<Rightarrow> world \<Rightarrow> bool" where
  "reslot w w' \<longleftrightarrow> keys w' = keys w \<and> (\<forall>sp. rel_option same_count (sdatas w sp) (sdatas w' sp)) \<and> (\<forall>p. stas w' p = None \<longleftrightarrow> stas w p = None)"

lemma same_count_refl [simp]: "same_count a a"
  by (simp add: same_count_def)

lemma reslot_trans:
  assumes "reslot w w1" "reslot w1 w2"
  shows "reslot w w2"
proof -
  have "rel_option same_count (sdatas w sp) (sdatas w2 sp)" for sp
    by (rule rel_option_trans [of _ "sdatas w sp" "sdatas w1 sp"]) (use assms in \<open>auto simp: reslot_def same_count_def same_shape_def\<close>)
  then show ?thesis using assms by (simp add: reslot_def)
qed

lemma reslot_shaped:
  assumes "reslot w w'"
  shows "shaped w w'"
proof -
  have "rel_option same_shape (sdatas w sp) (sdatas w' sp)" for sp
    using assms by (cases "sdatas w sp"; cases "sdatas w' sp") (auto simp: reslot_def same_count_def dest!: spec [of _ sp])
  then show ?thesis using assms by (simp add: reslot_def shaped_def option.rel_refl)
qed

lemma reslot_excess:
  assumes "reslot w w'"
  shows "tail_excess w' x = tail_excess w x"
proof -
  have c: "map_option crypto_tx_tailroom_needed_cnt (sdatas w' m) = map_option crypto_tx_tailroom_needed_cnt (sdatas w m)" for m
    using assms by (cases "sdatas w m"; cases "sdatas w' m") (auto simp: reslot_def same_count_def dest!: spec [of _ m])
  have m: "master_count w' sd = master_count w sd" for sd
  proof (cases "sdata_bss sd")
    case (Some m)
    then show ?thesis using c [of m] by (cases "sdatas w m"; cases "sdatas w' m") (auto simp: master_count_def)
  qed (simp add: master_count_def)
  show ?thesis
  proof (cases "sdatas w x")
    case None
    then show ?thesis using c [of x] by (simp add: tail_excess_def)
  next
    case (Some sd)
    then obtain sd' where sd': "sdatas w' x = Some sd'" "same_count sd sd'"
      using assms by (cases "sdatas w' x") (auto simp: reslot_def dest!: spec [of _ x])
    have "own_keys w' sd' = own_keys w sd" "master_count w sd' = master_count w sd"
      using sd'(2) assms by (simp_all add: own_keys_def reslot_def same_count_def same_shape_def master_count_def)
    then show ?thesis using Some sd' m by (simp add: tail_excess_def same_count_def)
  qed
qed

lemma put_sta_reslot: "stas w p \<noteq> None \<Longrightarrow> reslot w (put_sta p s' w)"
  by (auto simp: reslot_def put_sta_def option.rel_refl)

lemma put_sdata_reslot:
  assumes "sdatas w sp = Some sd" "same_count sd sd'"
  shows "reslot w (put_sdata sp sd' w)"
  using assms by (auto simp: reslot_def put_sdata_def option.rel_refl)

lemma arr_set_Inr_iff: "arr_set xs i x = Inr ys \<longleftrightarrow> i < length xs \<and> ys = xs[i := x]"
  by (auto simp: arr_set_def)

lemma nth_opt_upd: "i < length xs \<Longrightarrow> nth_opt (xs[i := x]) j = (if j = i then x else nth_opt xs j)"
  by (auto simp: nth_opt_def)

lemma replace_sta_slot_ok:
  assumes f: "replace_sta_slot E p pw idx old new w = Inr (u, e, w')"
    and n: "\<And>np kn. new = Some np \<Longrightarrow> keys w np = Some kn \<Longrightarrow> key_sta kn = Some p"
  shows "reslot w w' \<and> (\<forall>sl. slot_get w' sl = (if sl = (if pw then Ptk p idx else Gtk p idx) then new else slot_get w sl))"
proof -
  obtain s where s: "stas w p = Some s" using f by (auto simp: replace_sta_slot_def deref_Inr_iff elim!: rbind_InrE)
  show ?thesis
  proof (cases pw)
    case False
    then have "idx < length (gtk s)" "w' = put_sta p (s\<lparr>gtk := (gtk s)[idx := new]\<rparr>) w"
      using f s by (auto simp: replace_sta_slot_def arr_set_Inr_iff elim!: and_thenE rbind_InrE)
    then show ?thesis using put_sta_reslot [of w p] False s by (auto simp: put_sta_slot nth_opt_upd split: key_slot.split)
  next
    case True
    let ?w = "put_sta p (s\<lparr>ptk := (ptk s)[idx := new]\<rparr>) w"
    have i: "idx < length (ptk s)" using f s True by (auto simp: replace_sta_slot_def arr_set_Inr_iff elim!: and_thenE rbind_InrE)
    have 1: "reslot w ?w" "slot_get ?w sl = (if sl = Ptk p idx then new else slot_get w sl)" for sl
      using put_sta_reslot [of w p] s i by (auto simp: put_sta_slot nth_opt_upd split: key_slot.split)
    have "w' = ?w \<or> (\<exists>s'. ptk s' = (ptk s)[idx := new] \<and> gtk s' = gtk s \<and> w' = put_sta p s' ?w)"
    proof (cases new)
      case None
      then show ?thesis using f s True i by (auto simp: replace_sta_slot_def arr_set_def)
    next
      case (Some np)
      obtain kn where kn: "keys w np = Some kn" using f s True i Some
        by (auto simp: replace_sta_slot_def arr_set_def put_sta_def deref_Inr_iff Let_def elim!: and_thenE rbind_InrE)
      then have st: "key_sta kn = Some p" using n Some by blast
      let ?s = "clear_sta_flag WLAN_STA_BLOCK_BA
        (s\<lparr>ptk := (ptk s)[idx := new], sta_uses_encryption := True, ptk_idx := unat (conf_keyidx kn)\<rparr>)"
      have "w' = ?w \<or> w' = put_sta p ?s ?w"
        using f s True i Some kn st
        by (auto simp: replace_sta_slot_def arr_set_def set_tx_key_gen_def put_sta_def Let_def split: if_splits)
      moreover have "ptk ?s = (ptk s)[idx := new]" "gtk ?s = gtk s" by (simp_all add: clear_sta_flag_def)
      ultimately show ?thesis by blast
    qed
    then show ?thesis
    proof
      assume "w' = ?w"
      then show ?thesis using 1 True by simp
    next
      assume "\<exists>s'. ptk s' = (ptk s)[idx := new] \<and> gtk s' = gtk s \<and> w' = put_sta p s' ?w"
      then obtain s' where s': "ptk s' = (ptk s)[idx := new]" "gtk s' = gtk s" "w' = put_sta p s' ?w" by blast
      have "slot_get w' sl = slot_get ?w sl" for sl using s' by (cases sl) (auto simp: put_sta_def)
      then show ?thesis using 1 True s'(3) reslot_trans [OF 1(1) put_sta_reslot, of p s'] by (simp add: put_sta_def)
    qed
  qed
qed

definition default_of :: "sdata_ptr \<Rightarrow> key_slot \<Rightarrow> bool" where
  "default_of sp sl \<longleftrightarrow> sl \<in> {Def_Uni sp, Def_Multi sp, Def_Mgmt sp}"

lemma put_sdata_slot: "slot_get (put_sdata sp sd' w) sl = (case sl of Iface q i \<Rightarrow> if q = sp then nth_opt (sdata_keys sd') i else slot_get w sl
    | Def_Uni q \<Rightarrow> if q = sp then default_unicast_key sd' else slot_get w sl
    | Def_Multi q \<Rightarrow> if q = sp then default_multicast_key sd' else slot_get w sl
    | Def_Mgmt q \<Rightarrow> if q = sp then default_mgmt_key sd' else slot_get w sl | _ \<Rightarrow> slot_get w sl)"
  by (cases sl) (auto simp: put_sdata_def)

text \<open>Setting a default to the key at an index.\<close>

definition default_value :: "world \<Rightarrow> sdata_ptr \<Rightarrow> int \<Rightarrow> key_ptr option" where
  "default_value w sp idx = (if 0 \<le> idx then slot_get w (Iface sp (nat idx)) else None)"

lemma set_default_ok:
  assumes f: "set_default_key_gen sp idx uni multi w = Inr (u, e, w')"
  shows "reslot w w'" "slot_get w' sl = (if sl = Def_Uni sp \<and> uni \<or> sl = Def_Multi sp \<and> multi
    then (if idx < 4 then default_value w sp idx else None) else slot_get w sl)"
proof -
  obtain sd key where sd: "sdatas w sp = Some sd" "key = (if idx < 4 then default_value w sp idx else None)"
      "w' = put_sdata sp (let sd = (if uni then sd\<lparr>default_unicast_key := key\<rparr> else sd) in if multi then sd\<lparr>default_multicast_key := key\<rparr> else sd) w"
    using f by (auto simp: set_default_key_gen_def deref_Inr_iff arr_get_Inr_iff default_value_def nth_opt_def Let_def elim!: rbind_InrE split: if_splits)
  show "reslot w w'" unfolding sd(3) by (rule put_sdata_reslot [OF sd(1)]) (simp add: Let_def same_count_def same_shape_def)
  show "slot_get w' sl = (if sl = Def_Uni sp \<and> uni \<or> sl = Def_Multi sp \<and> multi
    then (if idx < 4 then default_value w sp idx else None) else slot_get w sl)"
    unfolding sd(3) put_sdata_slot using sd(1,2) by (cases sl) (simp_all add: Let_def)
qed

lemma set_default_mgmt_ok:
  assumes f: "set_default_mgmt_key_gen sp idx w = Inr (u, e, w')"
  shows "reslot w w'" "slot_get w' sl = (if sl = Def_Mgmt sp then (if 4 \<le> idx \<and> idx < 6 then default_value w sp idx else None) else slot_get w sl)"
proof -
  obtain sd key where sd: "sdatas w sp = Some sd" "key = (if 4 \<le> idx \<and> idx < 6 then default_value w sp idx else None)"
      "w' = put_sdata sp (sd\<lparr>default_mgmt_key := key\<rparr>) w"
    using f by (auto simp: set_default_mgmt_key_gen_def deref_Inr_iff arr_get_Inr_iff default_value_def nth_opt_def elim!: rbind_InrE split: if_splits)
  show "reslot w w'" unfolding sd(3) by (rule put_sdata_reslot [OF sd(1)]) (simp add: same_count_def same_shape_def)
  show "slot_get w' sl = (if sl = Def_Mgmt sp then (if 4 \<le> idx \<and> idx < 6 then default_value w sp idx else None) else slot_get w sl)"
    unfolding sd(3) put_sdata_slot using sd(1,2) by (cases sl) simp_all
qed

declare slot_get.simps [simp del]

text \<open>The steps of \<open>replace_iface_slot\<close> change only defaults that held the old key, and set them to nothing or to the new key.\<close>

definition moved_to :: "sdata_ptr \<Rightarrow> key_ptr option \<Rightarrow> key_ptr option \<Rightarrow> world \<Rightarrow> world \<Rightarrow> bool" where
  "moved_to sp old new w w' \<longleftrightarrow> reslot w w' \<and>
     (\<forall>sl. slot_get w' sl = slot_get w sl \<or> default_of sp sl \<and> old \<noteq> None \<and> slot_get w sl = old \<and> slot_get w' sl \<in> {None, new})"

lemma moved_refl: "moved_to sp old new w w"
  by (simp add: moved_to_def reslot_def option.rel_refl)

lemma moved_trans:
  assumes "moved_to sp old new w w1" "moved_to sp old new w1 w2" "old \<noteq> new"
  shows "moved_to sp old new w w2"
  unfolding moved_to_def
proof (intro conjI allI)
  show "reslot w w2" using assms reslot_trans by (auto simp: moved_to_def)
  fix sl
  show "slot_get w2 sl = slot_get w sl \<or> default_of sp sl \<and> old \<noteq> None \<and> slot_get w sl = old \<and> slot_get w2 sl \<in> {None, new}"
    using assms(1,2) by (auto simp: moved_to_def dest!: spec [of _ sl])
qed

lemma moved_off: "moved_to sp old new w w' \<Longrightarrow> slot_get w sl \<noteq> old \<Longrightarrow> old \<noteq> new \<Longrightarrow> slot_get w' sl \<noteq> old"
  by (auto simp: moved_to_def dest!: spec [of _ sl])

lemma set_default_moved:
  assumes "when_act (b \<and> c) (set_default_key_gen sp idx uni multi) w = Inr (u, e, w')"
    and "b \<Longrightarrow> old \<noteq> None \<and> (uni \<longrightarrow> slot_get w (Def_Uni sp) = old) \<and> (multi \<longrightarrow> slot_get w (Def_Multi sp) = old)"
    and "c \<Longrightarrow> default_value w sp idx \<in> {None, new}" and "old \<noteq> new"
  shows "moved_to sp old new w w' \<and> (b \<and> c \<longrightarrow> (uni \<longrightarrow> slot_get w' (Def_Uni sp) \<noteq> old) \<and> (multi \<longrightarrow> slot_get w' (Def_Multi sp) \<noteq> old))"
  using assms(1)
proof (cases rule: when_actE)
  case 1
  then show ?thesis using set_default_ok [OF 1(2)] assms(2-) by (auto simp: moved_to_def default_of_def)
qed (auto simp: moved_refl)

lemma set_mgmt_moved:
  assumes "when_act (b \<and> c) (set_default_mgmt_key_gen sp idx) w = Inr (u, e, w')"
    and "b \<Longrightarrow> old \<noteq> None \<and> slot_get w (Def_Mgmt sp) = old"
    and "c \<Longrightarrow> default_value w sp idx \<in> {None, new}" and "old \<noteq> new"
  shows "moved_to sp old new w w' \<and> (b \<and> c \<longrightarrow> slot_get w' (Def_Mgmt sp) \<noteq> old)"
  using assms(1)
proof (cases rule: when_actE)
  case 1
  then show ?thesis using set_default_mgmt_ok [OF 1(2)] assms(2-) by (auto simp: moved_to_def default_of_def)
qed (auto simp: moved_refl)

lemma moved_other: "moved_to sp old new w w' \<Longrightarrow> \<not> default_of sp sl \<Longrightarrow> slot_get w' sl = slot_get w sl"
  by (auto simp: moved_to_def)

lemma set_defaults_moved:
  assumes f: "set_defaults sp (bu \<and> c) (bm \<and> c) (bg \<and> c) idx w = Inr (u, e, w')"
    and d: "bu \<longleftrightarrow> old \<noteq> None \<and> slot_get w (Def_Uni sp) = old" "bm \<longleftrightarrow> old \<noteq> None \<and> slot_get w (Def_Multi sp) = old"
      "bg \<longleftrightarrow> old \<noteq> None \<and> slot_get w (Def_Mgmt sp) = old"
    and v: "c \<Longrightarrow> default_value w sp idx \<in> {None, new}" and ne: "old \<noteq> new"
  shows "moved_to sp old new w w' \<and> (c \<longrightarrow> old \<noteq> None \<longrightarrow> (\<forall>sl. default_of sp sl \<longrightarrow> slot_get w' sl \<noteq> old))"
proof -
  obtain u1 e1 w1 u2 e2 w2 e3 where s: "when_act (bu \<and> c) (set_default_key_gen sp idx True False) w = Inr (u1, e1, w1)"
      "when_act (bm \<and> c) (set_default_key_gen sp idx False True) w1 = Inr (u2, e2, w2)"
      "when_act (bg \<and> c) (set_default_mgmt_key_gen sp idx) w2 = Inr (u, e3, w')"
    using f unfolding set_defaults_def by (elim and_thenE) blast
  have 1: "moved_to sp old new w w1" "bu \<and> c \<longrightarrow> slot_get w1 (Def_Uni sp) \<noteq> old"
    using set_default_moved [OF s(1) _ v ne] d(1) by auto
  have m1: "slot_get w1 (Def_Multi sp) = slot_get w (Def_Multi sp)" "slot_get w1 (Def_Mgmt sp) = slot_get w (Def_Mgmt sp)"
    using s(1) set_default_ok(2) by (auto elim!: when_actE)
  have v1: "c \<Longrightarrow> default_value w1 sp idx \<in> {None, new}" using v moved_other [OF 1(1)] by (auto simp: default_value_def default_of_def)
  have 2: "moved_to sp old new w1 w2" "bm \<and> c \<longrightarrow> slot_get w2 (Def_Multi sp) \<noteq> old"
    using set_default_moved [OF s(2) _ v1 ne] d(2) m1(1) by auto
  have m2: "slot_get w2 (Def_Mgmt sp) = slot_get w1 (Def_Mgmt sp)" using s(2) set_default_ok(2) by (auto elim!: when_actE)
  have v2: "c \<Longrightarrow> default_value w2 sp idx \<in> {None, new}" using v1 moved_other [OF 2(1)] by (auto simp: default_value_def default_of_def)
  have 3: "moved_to sp old new w2 w'" "bg \<and> c \<longrightarrow> slot_get w' (Def_Mgmt sp) \<noteq> old"
    using set_mgmt_moved [OF s(3) _ v2 ne] d(3) m1(2) m2 by auto
  have "slot_get w' sl \<noteq> old" if "c" "old \<noteq> None" "default_of sp sl" for sl
  proof -
    have u: "slot_get w1 (Def_Uni sp) \<noteq> old" using 1(2) d(1) that moved_off [OF 1(1) _ ne] by blast
    have m: "slot_get w2 (Def_Multi sp) \<noteq> old" using 2(2) d(2) that moved_off [OF 2(1) _ ne] m1(1) by metis
    have g: "slot_get w' (Def_Mgmt sp) \<noteq> old" using 3(2) d(3) that moved_off [OF 3(1) _ ne] m1(2) m2 by metis
    show ?thesis using that(3) moved_off [OF 3(1) moved_off [OF 2(1) u ne] ne] moved_off [OF 3(1) m ne] g by (auto simp: default_of_def)
  qed
  then show ?thesis using moved_trans [OF moved_trans [OF 1(1) 2(1) ne] 3(1) ne] by blast
qed

lemma replace_iface_slot_ok:
  assumes f: "replace_iface_slot sp idx old new w = Inr (u, e, w')" and ne: "old \<noteq> new"
    and n: "\<And>np kn. new = Some np \<Longrightarrow> keys w np = Some kn \<Longrightarrow> unat (conf_keyidx kn) = idx"
  shows "reslot w w' \<and> slot_get w' (Iface sp idx) = new \<and>
    (\<forall>sl. sl \<noteq> Iface sp idx \<longrightarrow> slot_get w' sl = slot_get w sl \<or> default_of sp sl \<and> old \<noteq> None \<and> slot_get w sl = old \<and> slot_get w' sl \<in> {None, new}) \<and>
    (\<forall>sl. old \<noteq> None \<longrightarrow> default_of sp sl \<longrightarrow> slot_get w' sl \<noteq> old)"
proof -
  obtain sd where sd: "sdatas w sp = Some sd" using f by (auto simp: replace_iface_slot_def deref_Inr_iff elim!: rbind_InrE)
  define bu where "bu = (old \<noteq> None \<and> old = default_unicast_key sd)"
  define bm where "bm = (old \<noteq> None \<and> old = default_multicast_key sd)"
  define bg where "bg = (old \<noteq> None \<and> old = default_mgmt_key sd)"
  have r: "rbind (case new of None \<Rightarrow> Inr (- 1) | Some np \<Rightarrow> rbind (deref (keys w) np) (\<lambda>k. Inr (uint (conf_keyidx k)))) (\<lambda>nidx.
      and_then (set_defaults sp (bu \<and> new = None) (bm \<and> new = None) (bg \<and> new = None) (- 1) w) (\<lambda>_ w.
      rbind (deref (sdatas w) sp) (\<lambda>sd. rbind (arr_set (sdata_keys sd) idx new) (\<lambda>ks.
      set_defaults sp (bu \<and> new \<noteq> None) (bm \<and> new \<noteq> None) (bg \<and> new \<noteq> None) nidx (put_sdata sp (sd\<lparr>sdata_keys := ks\<rparr>) w))))) = Inr (u, e, w')"
    using f sd by (simp add: replace_iface_slot_def bu_def bm_def bg_def)
  obtain nidx where n0: "(case new of None \<Rightarrow> Inr (- 1) | Some np \<Rightarrow> rbind (deref (keys w) np) (\<lambda>k. Inr (uint (conf_keyidx k)))) = Inr nidx"
    and r1: "and_then (set_defaults sp (bu \<and> new = None) (bm \<and> new = None) (bg \<and> new = None) (- 1) w) (\<lambda>_ w.
      rbind (deref (sdatas w) sp) (\<lambda>sd. rbind (arr_set (sdata_keys sd) idx new) (\<lambda>ks.
      set_defaults sp (bu \<and> new \<noteq> None) (bm \<and> new \<noteq> None) (bg \<and> new \<noteq> None) nidx (put_sdata sp (sd\<lparr>sdata_keys := ks\<rparr>) w)))) = Inr (u, e, w')"
    using r by (rule rbind_InrE)
  have nidx: "nidx = (case new of None \<Rightarrow> - 1 | Some np \<Rightarrow> int idx)"
  proof (cases new)
    case (Some np)
    then obtain kn where kn: "keys w np = Some kn" "nidx = uint (conf_keyidx kn)" using n0 by (auto simp: deref_Inr_iff elim!: rbind_InrE)
    then have "idx = unat (conf_keyidx kn)" using n Some by blast
    then show ?thesis using kn(2) Some by simp
  qed (use n0 in simp)
  obtain u1 e1 w1 e2 where s: "set_defaults sp (bu \<and> new = None) (bm \<and> new = None) (bg \<and> new = None) (- 1) w = Inr (u1, e1, w1)"
    and r2: "rbind (deref (sdatas w1) sp) (\<lambda>sd. rbind (arr_set (sdata_keys sd) idx new) (\<lambda>ks.
      set_defaults sp (bu \<and> new \<noteq> None) (bm \<and> new \<noteq> None) (bg \<and> new \<noteq> None) nidx (put_sdata sp (sd\<lparr>sdata_keys := ks\<rparr>) w1))) = Inr (u, e2, w')"
    using r1 by (rule and_thenE)
  obtain sd1 where a: "sdatas w1 sp = Some sd1" "idx < length (sdata_keys sd1)"
    and t: "set_defaults sp (bu \<and> new \<noteq> None) (bm \<and> new \<noteq> None) (bg \<and> new \<noteq> None) nidx
      (put_sdata sp (sd1\<lparr>sdata_keys := (sdata_keys sd1)[idx := new]\<rparr>) w1) = Inr (u, e2, w')"
    using r2 by (auto simp: deref_Inr_iff arr_set_Inr_iff elim!: rbind_InrE)
  have d: "bu \<longleftrightarrow> old \<noteq> None \<and> slot_get w (Def_Uni sp) = old" "bm \<longleftrightarrow> old \<noteq> None \<and> slot_get w (Def_Multi sp) = old"
    "bg \<longleftrightarrow> old \<noteq> None \<and> slot_get w (Def_Mgmt sp) = old" using sd by (auto simp: bu_def bm_def bg_def slot_get.simps)
  have A: "moved_to sp old new w w1" "new = None \<longrightarrow> old \<noteq> None \<longrightarrow> (\<forall>sl. default_of sp sl \<longrightarrow> slot_get w1 sl \<noteq> old)"
    using set_defaults_moved [OF s d _ ne] by (simp_all add: default_value_def)
  let ?w = "put_sdata sp (sd1\<lparr>sdata_keys := (sdata_keys sd1)[idx := new]\<rparr>) w1"
  have B: "reslot w1 ?w" by (rule put_sdata_reslot [OF a(1)]) (simp add: same_count_def same_shape_def)
  have C: "slot_get ?w sl = (if sl = Iface sp idx then new else slot_get w1 sl)" for sl
    unfolding put_sdata_slot using a by (cases sl) (auto simp: nth_opt_upd slot_get.simps)
  show ?thesis
  proof (cases "new = None")
    case True
    have w': "w' = ?w" using t True by (auto simp: set_defaults_def when_act_def)
    have 1: "reslot w ?w" using reslot_trans [OF _ B] A(1) by (simp add: moved_to_def)
    have 2: "slot_get ?w sl = slot_get w sl \<or> default_of sp sl \<and> old \<noteq> None \<and> slot_get w sl = old \<and> slot_get ?w sl \<in> {None, new}"
      if "sl \<noteq> Iface sp idx" for sl using that A(1) C [of sl] by (simp add: moved_to_def)
    have 3: "slot_get ?w sl \<noteq> old" if "old \<noteq> None" "default_of sp sl" for sl using that A(2) True C [of sl] by (auto simp: default_of_def)
    have 4: "slot_get ?w (Iface sp idx) = new" using C by simp
    show ?thesis unfolding w' by (intro conjI allI impI 1 2 3 4)
  next
    case False
    then have w1: "w1 = w" using s by (auto simp: set_defaults_def when_act_def)
    have d': "bu \<longleftrightarrow> old \<noteq> None \<and> slot_get ?w (Def_Uni sp) = old" "bm \<longleftrightarrow> old \<noteq> None \<and> slot_get ?w (Def_Multi sp) = old"
      "bg \<longleftrightarrow> old \<noteq> None \<and> slot_get ?w (Def_Mgmt sp) = old" using d C w1 by simp_all
    have v: "default_value ?w sp nidx \<in> {None, new}" using C nidx False by (auto simp: default_value_def)
    have D: "moved_to sp old new ?w w'" "old \<noteq> None \<longrightarrow> (\<forall>sl. default_of sp sl \<longrightarrow> slot_get w' sl \<noteq> old)"
      using set_defaults_moved [OF t d' _ ne] v False by simp_all
    have "reslot w w'" using reslot_trans [OF B] D(1) w1 by (simp add: moved_to_def)
    moreover have "slot_get w' (Iface sp idx) = new" using moved_other [OF D(1), of "Iface sp idx"] C by (simp add: default_of_def)
    moreover have "slot_get w' sl = slot_get w sl \<or> default_of sp sl \<and> old \<noteq> None \<and> slot_get w sl = old \<and> slot_get w' sl \<in> {None, new}"
      if "sl \<noteq> Iface sp idx" for sl
    proof -
      have "slot_get ?w sl = slot_get w sl" using that C [of sl] w1 by simp
      then show ?thesis using D(1) unfolding moved_to_def by metis
    qed
    ultimately show ?thesis using D(2) by blast
  qed
qed

subsection \<open>Lists\<close>

lemma put_list_slot: "slot_get (put_sdata sp (sd\<lparr>key_list := l\<rparr>) w) sl = slot_get w sl" if "sdatas w sp = Some sd"
  using that by (cases sl) (auto simp: put_sdata_slot slot_get.simps)

lemma put_list_on_list:
  assumes "sdatas w sp = Some sd"
  shows "on_list (put_sdata sp (sd\<lparr>key_list := l\<rparr>) w) x kp = (if x = sp then kp \<in> set l else on_list w x kp)"
  using assms by (auto simp: on_list_def put_sdata_def)

lemma put_list_vlans_ok:
  assumes "sdatas w sp = Some sd" "vlans_ok w"
  shows "vlans_ok (put_sdata sp (sd\<lparr>key_list := l\<rparr>) w)"
proof (rule kind_vlans_ok [OF _ assms(2)])
  fix x
  show "rel_option same_kind (sdatas w x) (sdatas (put_sdata sp (sd\<lparr>key_list := l\<rparr>) w) x)"
    using assms(1) by (cases "sdatas w x") (auto simp: put_sdata_def same_kind_def)
qed

lemma put_list_excess:
  assumes "sdatas w sp = Some sd"
  shows "tail_excess (put_sdata sp (sd\<lparr>key_list := l\<rparr>) w) x =
    tail_excess w x - (if x = sp then (\<Sum>kp\<leftarrow>l. needs_room (keys w kp)) - own_keys w sd else 0)"
proof -
  have m: "master_count (put_sdata sp (sd\<lparr>key_list := l\<rparr>) w) xd = master_count w xd" for xd
    using assms by (simp add: master_count_def put_sdata_def split: option.split)
  have "master_count w (sd\<lparr>key_list := l\<rparr>) = master_count w sd" by (simp add: master_count_def)
  then show ?thesis using m assms by (auto simp: tail_excess_def put_sdata_def own_keys_def split: option.split)
qed

lemma unlisted_not_in_slot:
  assumes "key_inv E w" "\<And>sp. \<not> on_list w sp kp"
  shows "slot_get w sl \<noteq> Some kp"
  using assms by (auto simp: key_inv_def filed_def)

lemma list_add_inv:
  assumes i: "key_inv E w" and k: "keys w np = Some kn" "key_sdata kn = Some sp" "\<not> key_uploaded kn" and u: "\<And>x. \<not> on_list w x np"
    and f: "list_add_key sp np w = Inr w'"
  shows "key_inv E w'" "tail_excess w' x = tail_excess w x - (if x = sp then 1 else 0)" "slot_get w' sl = slot_get w sl"
    "keys w' = keys w" "stas w' = stas w" "on_list w' x kp \<longleftrightarrow> on_list w x kp \<or> x = sp \<and> kp = np"
    "map_option vif_type (sdatas w' x) = map_option vif_type (sdatas w x)"
proof -
  obtain sd where sd: "sdatas w sp = Some sd" "w' = put_sdata sp (sd\<lparr>key_list := key_list sd @ [np]\<rparr>) w"
    using f by (auto simp: list_add_key_def deref_Inr_iff elim!: rbind_InrE)
  show l: "on_list w' x kp \<longleftrightarrow> on_list w x kp \<or> x = sp \<and> kp = np" for x kp
    unfolding sd(2) put_list_on_list [OF sd(1)] using sd(1) by (auto simp: on_list_def)
  show s: "slot_get w' sl = slot_get w sl" for sl unfolding sd(2) by (rule put_list_slot [OF sd(1)])
  show ks: "keys w' = keys w" "stas w' = stas w" "map_option vif_type (sdatas w' x) = map_option vif_type (sdatas w x)"
    using sd by (simp_all add: put_sdata_def)
  show "tail_excess w' x = tail_excess w x - (if x = sp then 1 else 0)"
    unfolding sd(2) put_list_excess [OF sd(1)] using k by (simp add: own_keys_def needs_room_def)
  have n: "np \<notin> set (key_list sd)" using u [of sp] sd(1) by (auto simp: on_list_def)
  have "lists_ok E w'"
    unfolding lists_ok_def
  proof (intro allI impI)
    fix x xd assume "sdatas w' x = Some xd"
    then consider "x = sp" "xd = sd\<lparr>key_list := key_list sd @ [np]\<rparr>" | "x \<noteq> sp" "sdatas w x = Some xd"
      using sd by (auto simp: put_sdata_def split: if_splits)
    then show "distinct (key_list xd) \<and> (\<forall>kp\<in>set (key_list xd). \<exists>k. keys w' kp = Some k \<and> key_sdata k = Some x \<and> (key_uploaded k \<longrightarrow> has_set_key E))"
      using i sd(1) n k unfolding ks(1) key_inv_def lists_ok_def by cases auto
  qed
  moreover have "vlans_ok w'" using put_list_vlans_ok [OF sd(1)] i sd(2) by (simp add: key_inv_def)
  moreover have "filed w' sl kp" if "slot_get w' sl = Some kp" for sl kp
    using that i unfolding s key_inv_def filed_def ks(1) l by blast
  ultimately show "key_inv E w'" by (simp add: key_inv_def)
qed

lemma list_del_inv:
  assumes i: "key_inv E w" and k: "keys w op = Some ko" "key_sdata ko = Some sp" "on_list w sp op" "\<not> key_uploaded ko"
    and s0: "\<And>sl. slot_get w sl \<noteq> Some op" and f: "list_del_key op w = Inr w'"
  shows "key_inv E w'" "tail_excess w' x = tail_excess w x + (if x = sp then 1 else 0)" "slot_get w' sl = slot_get w sl"
    "keys w' = keys w" "stas w' = stas w" "on_list w' x kp \<longleftrightarrow> on_list w x kp \<and> kp \<noteq> op"
    "map_option vif_type (sdatas w' x) = map_option vif_type (sdatas w x)"
proof -
  obtain sd where sd: "sdatas w sp = Some sd" "w' = put_sdata sp (sd\<lparr>key_list := remove1 op (key_list sd)\<rparr>) w"
    using f k by (auto simp: list_del_key_def key_iface_def deref_Inr_iff elim!: rbind_InrE)
  have o: "op \<in> set (key_list sd)" "distinct (key_list sd)" using k(3) sd(1) i by (auto simp: on_list_def key_inv_def lists_ok_def)
  have other: "\<not> on_list w x op" if "x \<noteq> sp" for x
    using i k(1,2) that unfolding key_inv_def lists_ok_def on_list_def by fastforce
  show l: "on_list w' x kp \<longleftrightarrow> on_list w x kp \<and> kp \<noteq> op" for x kp
    unfolding sd(2) put_list_on_list [OF sd(1)] using sd(1) o other by (auto simp: on_list_def)
  show s: "slot_get w' sl = slot_get w sl" for sl unfolding sd(2) by (rule put_list_slot [OF sd(1)])
  show ks: "keys w' = keys w" "stas w' = stas w" "map_option vif_type (sdatas w' x) = map_option vif_type (sdatas w x)"
    using sd by (simp_all add: put_sdata_def)
  have "own_keys w sd = needs_room (keys w op) + (\<Sum>kp\<leftarrow>remove1 op (key_list sd). needs_room (keys w kp))"
    unfolding own_keys_def using o(1) by (simp add: sum_list_map_remove1)
  then show "tail_excess w' x = tail_excess w x + (if x = sp then 1 else 0)"
    unfolding sd(2) put_list_excess [OF sd(1)] using k by (simp add: needs_room_def)
  have "lists_ok E w'"
    unfolding lists_ok_def
  proof (intro allI impI)
    fix x xd assume "sdatas w' x = Some xd"
    then consider "x = sp" "xd = sd\<lparr>key_list := remove1 op (key_list sd)\<rparr>" | "x \<noteq> sp" "sdatas w x = Some xd"
      using sd by (auto simp: put_sdata_def split: if_splits)
    then show "distinct (key_list xd) \<and> (\<forall>kp\<in>set (key_list xd). \<exists>k. keys w' kp = Some k \<and> key_sdata k = Some x \<and> (key_uploaded k \<longrightarrow> has_set_key E))"
      using i sd(1) o unfolding ks(1) key_inv_def lists_ok_def by cases auto
  qed
  moreover have "vlans_ok w'" using put_list_vlans_ok [OF sd(1)] i sd(2) by (simp add: key_inv_def)
  moreover have "filed w' sl kp" if "slot_get w' sl = Some kp" for sl kp
    using that i s0 [of sl] unfolding s key_inv_def filed_def ks(1) l by (metis option.inject)
  ultimately show "key_inv E w'" by (simp add: key_inv_def)
qed

subsection \<open>The whole replacement\<close>

text \<open>A listed key of a station or an interface with an index.\<close>

definition key_at :: "world \<Rightarrow> key_ptr \<Rightarrow> sdata_ptr \<Rightarrow> sta_ptr option \<Rightarrow> bool \<Rightarrow> nat \<Rightarrow> bool" where
  "key_at w kp sp sta pw idx \<longleftrightarrow>
     (\<exists>k. listed_key w kp k sp \<and> key_sta k = sta \<and> (sta \<noteq> None \<longrightarrow> key_pairwise k = pw) \<and> unat (conf_keyidx k) = idx)"

lemma key_at_steady:
  assumes "steady E w w'" "key_at w kp sp sta pw idx"
  shows "key_at w' kp sp sta pw idx"
proof -
  obtain k where k: "listed_key w kp k sp" "key_sta k = sta" "sta \<noteq> None \<longrightarrow> key_pairwise k = pw" "unat (conf_keyidx k) = idx"
    using assms(2) by (auto simp: key_at_def)
  obtain k' where "listed_key w' kp k' sp" "tweak k k'" using steady_listed [OF assms(1) k(1)] .
  then show ?thesis using k by (auto simp: key_at_def tweak_def)
qed

lemma key_at_fits:
  assumes "key_at w kp sp sta pw idx" "filed w sl kp"
  shows "case sta of Some p \<Rightarrow> sl = (if pw then Ptk p idx else Gtk p idx) | None \<Rightarrow> sl = Iface sp idx \<or> default_of sp sl"
  using assms by (cases sl) (auto simp: key_at_def filed_def listed_key_def default_of_def split: option.splits)

lemma key_at_filed:
  assumes "key_at w kp sp sta pw idx" "case sta of Some p \<Rightarrow> sl = (if pw then Ptk p idx else Gtk p idx) | None \<Rightarrow> sl = Iface sp idx \<or> default_of sp sl"
  shows "filed w sl kp"
  using assms by (auto simp: key_at_def filed_def listed_key_def default_of_def split: option.splits if_splits)

definition slot_at :: "sdata_ptr \<Rightarrow> sta_ptr option \<Rightarrow> bool \<Rightarrow> nat \<Rightarrow> key_slot" where
  "slot_at sp sta pw idx = (case sta of Some p \<Rightarrow> if pw then Ptk p idx else Gtk p idx | None \<Rightarrow> Iface sp idx)"

lemma slot_stage:
  assumes i: "key_inv E w" and n: "\<And>np. new = Some np \<Longrightarrow> key_at w np sp sta pw idx"
    and o: "\<And>op. old = Some op \<Longrightarrow> \<exists>so. key_at w op so sta pw idx \<and> (sta = None \<longrightarrow> so = sp)" and ne: "old \<noteq> new"
    and f: "(case sta of Some p \<Rightarrow> replace_sta_slot E p pw idx old new w | None \<Rightarrow> replace_iface_slot sp idx old new w) = Inr (u, e, w')"
  shows "key_inv E w' \<and> reslot w w' \<and> (\<forall>sl op. old = Some op \<longrightarrow> slot_get w' sl \<noteq> Some op) \<and> slot_get w' (slot_at sp sta pw idx) = new"
proof -
  let ?here = "\<lambda>sl. case sta of Some p \<Rightarrow> sl = (if pw then Ptk p idx else Gtk p idx) | None \<Rightarrow> sl = Iface sp idx \<or> default_of sp sl"
  have s: "slot_get w' (slot_at sp sta pw idx) = new \<and> reslot w w' \<and> (\<forall>sl. \<not> ?here sl \<longrightarrow> slot_get w' sl = slot_get w sl) \<and>
      (\<forall>sl. ?here sl \<longrightarrow> slot_get w' sl \<in> {slot_get w sl, None, new} \<and> (old \<noteq> None \<longrightarrow> slot_get w' sl \<noteq> old))"
  proof (cases sta)
    case (Some p)
    have "key_sta kn = Some p" if "new = Some np" "keys w np = Some kn" for np kn using n [OF that(1)] that(2) Some by (auto simp: key_at_def listed_key_def)
    then show ?thesis using replace_sta_slot_ok [of E p pw idx old new w u e w'] f Some ne by (auto simp: slot_at_def)
  next
    case None
    have "unat (conf_keyidx kn) = idx" if "new = Some np" "keys w np = Some kn" for np kn using n [OF that(1)] that(2) by (auto simp: key_at_def listed_key_def)
    then have r: "reslot w w' \<and> slot_get w' (Iface sp idx) = new \<and>
      (\<forall>sl. sl \<noteq> Iface sp idx \<longrightarrow> slot_get w' sl = slot_get w sl \<or> default_of sp sl \<and> old \<noteq> None \<and> slot_get w sl = old \<and> slot_get w' sl \<in> {None, new}) \<and>
      (\<forall>sl. old \<noteq> None \<longrightarrow> default_of sp sl \<longrightarrow> slot_get w' sl \<noteq> old)"
      using replace_iface_slot_ok [of sp idx old new w u e w'] f None ne by auto
    have 1: "slot_get w' sl = slot_get w sl" if "\<not> ?here sl" for sl using r that None by auto
    have 2: "slot_get w' sl \<in> {slot_get w sl, None, new}" "old \<noteq> None \<Longrightarrow> slot_get w' sl \<noteq> old" if "?here sl" for sl
      using r that None ne by (cases "sl = Iface sp idx"; auto)+
    have "slot_get w' (slot_at sp sta pw idx) = new" using r None by (simp add: slot_at_def)
    then show ?thesis using r 1 2 by blast
  qed
  have sl: "slot_get w sl = Some kp \<or> filed w sl kp" if a: "slot_get w' sl = Some kp" for sl kp
  proof (cases "?here sl")
    case True
    then have "slot_get w sl = Some kp \<or> new = Some kp" using s a by force
    then show ?thesis using key_at_filed [OF n True] by blast
  next
    case False
    then show ?thesis using s a by force
  qed
  have rs: "reslot w w'" using s by blast
  have inv: "key_inv E w'" by (rule shaped_inv [OF reslot_shaped [OF rs] i _ sl]) (use rs in \<open>auto simp: reslot_def\<close>)
  have "slot_get w' sl \<noteq> Some op" if o': "old = Some op" for sl op
  proof (cases "?here sl")
    case True
    then show ?thesis using s o' by blast
  next
    case False
    obtain so where "key_at w op so sta pw idx" "sta = None \<longrightarrow> so = sp" using o [OF o'] by blast
    then have "\<not> filed w sl op" using False key_at_fits [of w op so sta pw idx sl] by (auto split: option.splits)
    then show ?thesis using False s i by (auto simp: key_inv_def)
  qed
  then show ?thesis using inv s by blast
qed

text \<open>What \<open>ieee80211_key_replace\<close> is called with: the old key has its slot, the new one is not filed yet.\<close>

definition replaceable :: "world \<Rightarrow> sdata_ptr \<Rightarrow> sta_ptr option \<Rightarrow> bool \<Rightarrow> key_ptr option \<Rightarrow> key_ptr option \<Rightarrow> nat \<Rightarrow> bool" where
  "replaceable w sp sta pw old new idx \<longleftrightarrow>
     (\<forall>op. old = Some op \<longrightarrow> (\<exists>so. key_at w op so sta pw idx \<and> (sta = None \<longrightarrow> so = sp))) \<and>
     (\<forall>np. new = Some np \<longrightarrow> (\<exists>kn. keys w np = Some kn \<and> key_sdata kn = Some sp \<and> key_sta kn = sta \<and> (sta \<noteq> None \<longrightarrow> key_pairwise kn = pw) \<and>
        unat (conf_keyidx kn) = idx \<and> \<not> key_uploaded kn \<and> (\<forall>x. \<not> on_list w x np)))"

definition same_keys :: "world \<Rightarrow> world \<Rightarrow> bool" where
  "same_keys w w' \<longleftrightarrow> (\<forall>kp. rel_option tweak (keys w kp) (keys w' kp)) \<and> (\<forall>x. map_option vif_type (sdatas w' x) = map_option vif_type (sdatas w x))"

lemma same_keys_trans:
  assumes "same_keys w w1" "same_keys w1 w2"
  shows "same_keys w w2"
proof -
  have "rel_option tweak (keys w kp) (keys w2 kp)" for kp
    by (rule rel_option_trans [of _ "keys w kp" "keys w1 kp"]) (use assms in \<open>auto simp: same_keys_def tweak_def\<close>)
  then show ?thesis using assms by (simp add: same_keys_def)
qed

lemma shaped_same_keys: "shaped w w' \<Longrightarrow> same_keys w w'"
proof -
  assume a: "shaped w w'"
  have "map_option vif_type (sdatas w' x) = map_option vif_type (sdatas w x)" for x
    using a by (cases "sdatas w x"; cases "sdatas w' x") (auto simp: shaped_def same_shape_def dest!: spec [of _ x])
  then show "same_keys w w'" using a by (simp add: same_keys_def shaped_def)
qed

definition old_iface :: "world \<Rightarrow> key_ptr option \<Rightarrow> sdata_ptr option" where
  "old_iface w old = (case old of None \<Rightarrow> None | Some op \<Rightarrow> (case keys w op of None \<Rightarrow> None | Some k \<Rightarrow> key_sdata k))"

lemma key_at_iface: "key_at w op so sta pw idx \<Longrightarrow> old_iface w (Some op) = Some so"
  by (auto simp: old_iface_def key_at_def listed_key_def)

text \<open>The first half: the new key is on the list, and the hardware has been asked.\<close>

lemma replace_first_half:
  assumes i: "key_inv E w" and d: "driver_ok E" and r: "replaceable w sp sta pw old new idx"
    and a: "(case new of None \<Rightarrow> Inr w | Some np \<Rightarrow> list_add_key sp np w) = Inr w1"
    and b: "(case (new, sta) of (Some np, Some p) \<Rightarrow> when_act pw (ieee80211_pairwise_rekey E old np) w1 | _ \<Rightarrow> Inr ((), [], w1)) = Inr (u, e, w2)"
    and c: "replace_hw E old new w2 = Inr (ret, e', w3)"
  shows "key_inv E w3 \<and> (\<forall>x. tail_excess w3 x = tail_excess w x - (if new \<noteq> None \<and> x = sp then 1 else 0)) \<and> same_keys w w3 \<and>
    (\<forall>x kp. on_list w3 x kp \<longleftrightarrow> on_list w x kp \<or> x = sp \<and> new = Some kp) \<and>
    (\<forall>op. old = Some op \<longrightarrow> (\<exists>so. key_at w3 op so sta pw idx \<and> old_iface w old = Some so \<and> (sta = None \<longrightarrow> so = sp)) \<and> (\<forall>k. keys w3 op = Some k \<longrightarrow> \<not> key_uploaded k)) \<and>
    (\<forall>np. new = Some np \<longrightarrow> key_at w3 np sp sta pw idx) \<and> old \<noteq> new \<and> (\<forall>sl. slot_get w3 sl = slot_get w sl) \<and>
    (\<forall>j. key_idx_of (if old \<noteq> None then old else new) w2 = Inr j \<longrightarrow> j = idx)"
proof -
  have o: "\<exists>so. key_at w op so sta pw idx \<and> (sta = None \<longrightarrow> so = sp)" if "old = Some op" for op using r that by (simp add: replaceable_def)
  have n: "\<exists>kn. keys w np = Some kn \<and> key_sdata kn = Some sp \<and> key_sta kn = sta \<and> (sta \<noteq> None \<longrightarrow> key_pairwise kn = pw) \<and>
        unat (conf_keyidx kn) = idx \<and> \<not> key_uploaded kn \<and> (\<forall>x. \<not> on_list w x np)" if "new = Some np" for np using r that by (simp add: replaceable_def)
  have w1: "key_inv E w1 \<and> (\<forall>x. tail_excess w1 x = tail_excess w x - (if new \<noteq> None \<and> x = sp then 1 else 0)) \<and> keys w1 = keys w \<and>
      (\<forall>x kp. on_list w1 x kp \<longleftrightarrow> on_list w x kp \<or> x = sp \<and> new = Some kp) \<and> (\<forall>sl. slot_get w1 sl = slot_get w sl) \<and> (\<forall>x. map_option vif_type (sdatas w1 x) = map_option vif_type (sdatas w x))"
  proof (cases new)
    case None
    then show ?thesis using a i by simp
  next
    case (Some np)
    obtain kn where kn: "keys w np = Some kn" "key_sdata kn = Some sp" "\<not> key_uploaded kn" "\<And>x. \<not> on_list w x np" using n [OF Some] by blast
    have "list_add_key sp np w = Inr w1" using a Some by simp
    from list_add_inv [OF i kn this] show ?thesis using Some by auto
  qed
  have o1: "\<exists>so. key_at w1 op so sta pw idx \<and> old_iface w old = Some so \<and> (sta = None \<longrightarrow> so = sp)" if "old = Some op" for op
    using o [OF that] key_at_iface that w1 by (fastforce simp: key_at_def listed_key_def)
  have n1: "key_at w1 np sp sta pw idx \<and> (\<exists>kn. keys w1 np = Some kn \<and> \<not> key_uploaded kn)" if "new = Some np" for np
    using n [OF that] w1 that by (auto simp: key_at_def listed_key_def)
  have ne: "old \<noteq> new"
  proof
    assume on: "old = new"
    show False
    proof (cases new)
      case None
      then show False using c on by (simp add: replace_hw_def)
    next
      case (Some np)
      then show False using o n on by (fastforce simp: key_at_def listed_key_def)
    qed
  qed
  have w2: "steady E w1 w2 \<and> (\<forall>kp k k'. keys w1 kp = Some k \<longrightarrow> keys w2 kp = Some k' \<longrightarrow> key_uploaded k' = key_uploaded k)"
  proof (cases "\<exists>np p. new = Some np \<and> sta = Some p \<and> pw")
    case True
    then obtain np where rk: "new = Some np" "ieee80211_pairwise_rekey E old np w1 = Inr (u, e, w2)" using b by (auto simp: when_act_def)
    have lo: "\<exists>ko so. listed_key w1 op ko so" if "old = Some op" for op using o1 [OF that] by (auto simp: key_at_def)
    show ?thesis using rekey_steady [OF conjunct1 [OF w1] lo rk(2)] by simp
  next
    case False
    then have "w2 = w1" using b by (auto simp: when_act_def split: option.splits if_splits)
    then show ?thesis using steady_refl w1 by simp
  qed
  have n2: "\<exists>kn sn. listed_key w2 np kn sn \<and> \<not> key_uploaded kn" if np: "new = Some np" for np
  proof -
    obtain kn where kn: "key_at w1 np sp sta pw idx" "keys w1 np = Some kn" "\<not> key_uploaded kn" using n1 [OF np] by blast
    obtain kn' where kn': "listed_key w2 np kn' sp" using key_at_steady [OF conjunct1 [OF w2] kn(1)] by (auto simp: key_at_def)
    then have "\<not> key_uploaded kn'" using w2 kn(2,3) by (simp add: listed_key_def)
    then show ?thesis using kn' by blast
  qed
  have o2: "\<exists>ko so. listed_key w2 op ko so" if op: "old = Some op" for op
  proof -
    obtain so where "key_at w1 op so sta pw idx" using o1 [OF op] by blast
    from key_at_steady [OF conjunct1 [OF w2] this] show ?thesis by (auto simp: key_at_def)
  qed
  have i2: "key_inv E w2" using w2 by (simp add: steady_def)
  have hw: "steady E w2 w3 \<and> stas w3 = stas w2 \<and> (\<forall>op k. old = Some op \<longrightarrow> keys w3 op = Some k \<longrightarrow> \<not> key_uploaded k)"
    by (rule replace_hw_steady [OF i2 d _ _ ne c]) (fact n2, fact o2)
  have w3: "steady E w2 w3" by (rule conjunct1 [OF hw])
  have s: "steady E w1 w3" by (rule steady_trans [OF conjunct1 [OF w2] w3])
  have "same_keys w w1" using w1 by (simp add: same_keys_def option.rel_refl)
  then have "same_keys w w3" using same_keys_trans shaped_same_keys [of w1 w3] s by (simp add: steady_def calm_def)
  moreover have "on_list w3 x kp \<longleftrightarrow> on_list w1 x kp" for x kp using shaped_on_list [of w1 w3] s by (simp add: steady_def calm_def)
  moreover have "\<forall>op. old = Some op \<longrightarrow> (\<exists>so. key_at w3 op so sta pw idx \<and> old_iface w old = Some so \<and> (sta = None \<longrightarrow> so = sp))"
  proof (intro allI impI)
    fix op assume "old = Some op"
    then obtain so where "key_at w1 op so sta pw idx" "old_iface w old = Some so" "sta = None \<longrightarrow> so = sp" using o1 by blast
    then show "\<exists>so. key_at w3 op so sta pw idx \<and> old_iface w old = Some so \<and> (sta = None \<longrightarrow> so = sp)" using key_at_steady [OF s] by auto
  qed
  moreover have "\<forall>np. new = Some np \<longrightarrow> key_at w3 np sp sta pw idx" using key_at_steady [OF s] conjunct1 [OF n1] by simp
  moreover have "j = idx" if "key_idx_of (if old \<noteq> None then old else new) w2 = Inr j" for j
  proof (cases old)
    case None
    then obtain np where "new = Some np" using ne by (cases new) auto
    then have "key_at w2 np sp sta pw idx" using conjunct1 [OF n1] key_at_steady [OF conjunct1 [OF w2]] by simp
    then show ?thesis using that None \<open>new = Some np\<close> by (auto simp: key_idx_of_def key_at_def listed_key_def)
  next
    case (Some op)
    obtain so where "key_at w1 op so sta pw idx" using o1 [OF Some] by blast
    from key_at_steady [OF conjunct1 [OF w2] this] show ?thesis using that Some by (auto simp: key_idx_of_def key_at_def listed_key_def)
  qed
  moreover have "slot_get w3 sl = slot_get w sl" for sl using s w1 by (simp add: steady_def calm_def)
  ultimately show ?thesis using s w1 hw ne by (simp add: steady_def)
qed

lemma replace_ok:
  assumes i: "key_inv E w" and d: "driver_ok E" and r: "replaceable w sp sta pw old new idx" and ex: "old \<noteq> None \<or> new \<noteq> None"
    and f: "ieee80211_key_replace E sp sta pw old new w = Inr (ret, e, w')"
  shows "key_inv E w' \<and> (\<forall>x. tail_excess w' x = tail_excess w x - (if new \<noteq> None \<and> x = sp then 1 else 0) + (if ret = 0 \<and> old_iface w old = Some x then 1 else 0)) \<and>
    same_keys w w' \<and> (\<forall>x kp. on_list w' x kp \<longleftrightarrow> on_list w x kp \<and> \<not> (ret = 0 \<and> old = Some kp) \<or> x = sp \<and> new = Some kp) \<and>
    (ret = 0 \<longrightarrow> (\<forall>sl op. old = Some op \<longrightarrow> slot_get w' sl \<noteq> Some op)) \<and>
    slot_get w' (slot_at sp sta pw idx) = (if ret = 0 then new else slot_get w (slot_at sp sta pw idx))"
proof -
  obtain w1 u e2 w2 idx' e3 w3 e4 where
    a: "(case new of None \<Rightarrow> Inr w | Some np \<Rightarrow> list_add_key sp np w) = Inr w1" and
    b: "(case (new, sta) of (Some np, Some p) \<Rightarrow> when_act pw (ieee80211_pairwise_rekey E old np) w1 | _ \<Rightarrow> Inr ((), [], w1)) = Inr (u, e2, w2)" and
    ix: "key_idx_of (if old \<noteq> None then old else new) w2 = Inr idx'" and
    r0: "\<exists>ret'. replace_hw E old new w2 = Inr (ret', e3, w3) \<and> (if ret' \<noteq> 0 then Inr (ret', [], w3) else
      and_then (case sta of Some p \<Rightarrow> replace_sta_slot E p pw idx' old new w3 | None \<Rightarrow> replace_iface_slot sp idx' old new w3) (\<lambda>_ w.
      and_then (quiet (case old of None \<Rightarrow> Inr w | Some op \<Rightarrow> list_del_key op w)) (\<lambda>_ w. Inr (0, [], w)))) = Inr (ret, e4, w')"
    using f ex unfolding ieee80211_key_replace_def by (auto simp: quiet_Inr_iff elim!: and_thenE rbind_InrE)
  obtain ret' where c: "replace_hw E old new w2 = Inr (ret', e3, w3)" and
    g: "(if ret' \<noteq> 0 then Inr (ret', [], w3) else
      and_then (case sta of Some p \<Rightarrow> replace_sta_slot E p pw idx' old new w3 | None \<Rightarrow> replace_iface_slot sp idx' old new w3) (\<lambda>_ w.
      and_then (quiet (case old of None \<Rightarrow> Inr w | Some op \<Rightarrow> list_del_key op w)) (\<lambda>_ w. Inr (0, [], w)))) = Inr (ret, e4, w')"
    using r0 by blast
  note h = replace_first_half [OF i d r a b c]
  show ?thesis
  proof (cases "ret' = 0")
    case False
    then have "w' = w3" "ret \<noteq> 0" using g by simp_all
    then show ?thesis using h by auto
  next
    case True
    then obtain u4 e5 w4 where st: "(case sta of Some p \<Rightarrow> replace_sta_slot E p pw idx old new w3 | None \<Rightarrow> replace_iface_slot sp idx old new w3) = Inr (u4, e5, w4)"
      and dl: "(case old of None \<Rightarrow> Inr w4 | Some op \<Rightarrow> list_del_key op w4) = Inr w'" and ret: "ret = 0"
      using g h ix by (auto simp: quiet_Inr_iff elim!: and_thenE)
    have n: "key_at w3 np sp sta pw idx" if "new = Some np" for np using h that by blast
    have o: "\<exists>so. key_at w3 op so sta pw idx \<and> (sta = None \<longrightarrow> so = sp)" if "old = Some op" for op using h that by blast
    have i3: "key_inv E w3" "old \<noteq> new" using h by blast+
    have s4: "key_inv E w4" "reslot w3 w4" "\<And>sl op. old = Some op \<Longrightarrow> slot_get w4 sl \<noteq> Some op" "slot_get w4 (slot_at sp sta pw idx) = new"
      using slot_stage [OF i3(1) n o i3(2) st] by simp_all
    have l4: "on_list w4 x kp = on_list w3 x kp" for x kp using shaped_on_list [OF reslot_shaped [OF s4(2)]] .
    have k4: "same_keys w3 w4" by (rule shaped_same_keys [OF reslot_shaped [OF s4(2)]])
    show ?thesis
    proof (cases old)
      case None
      then have "w' = w4" using dl by simp
      then show ?thesis using h s4 l4 same_keys_trans [OF _ k4] reslot_excess [OF s4(2)] None ret by (simp add: old_iface_def)
    next
      case (Some op)
      obtain so where so: "key_at w3 op so sta pw idx" "old_iface w old = Some so" "\<And>k. keys w3 op = Some k \<Longrightarrow> \<not> key_uploaded k" using h Some by blast
      then obtain ko where ko: "keys w3 op = Some ko" "key_sdata ko = Some so" "on_list w3 so op" by (auto simp: key_at_def listed_key_def)
      have ko4: "keys w4 op = Some ko" "on_list w4 so op" using ko s4(2) l4 by (simp_all add: reslot_def)
      have dl': "list_del_key op w4 = Inr w'" using dl Some by simp
      note x = list_del_inv [OF s4(1) ko4(1) ko(2) ko4(2) so(3) [OF ko(1)] s4(3) [OF Some] dl']
      have "same_keys w4 w'" using x(4,7) by (simp add: same_keys_def option.rel_refl)
      moreover have "same_keys w w3" using h by blast
      ultimately have "same_keys w w'" using k4 same_keys_trans by blast
      then show ?thesis using h x reslot_excess [OF s4(2)] l4 so(2) ret s4(3,4) Some by auto
    qed
  qed
qed

end
