(* ===== verification/Key_Safety.thy ===== *)
theory Key_Safety
  imports Key_Inv
begin

text \<open>
  Every call into key management keeps the invariant of \<open>Key_Inv\<close>: freeing, installing and removing keys, the calls of the driver and of the
  configuration, and any run of such calls from interfaces without keys.
\<close>

section \<open>Freeing\<close>

lemma kind_refl [simp]: "same_kind a a" by (simp add: same_kind_def)

lemma put_pending_inv:
  assumes "key_inv E w" "sdatas w sp = Some sd" and w': "w' = put_sdata sp (sd\<lparr>crypto_tx_tailroom_pending_dec := b\<rparr>) w"
  shows "key_inv E w'" "calm w w'"
proof -
  have s: "slot_get w' sl = slot_get w sl" for sl unfolding w' by (rule slot_get_cong) (use assms(2) in \<open>auto simp: put_sdata_def\<close>)
  then show c: "calm w w'" using assms(2) by (auto simp: w' calm_def shaped_def put_sdata_def same_shape_def option.rel_refl)
  show "key_inv E w'" by (rule calm_inv [OF c assms(1)]) (auto simp: w' put_sdata_def)
qed

lemma put_pending_excess:
  assumes "sdatas w sp = Some sd"
  shows "tail_excess (put_sdata sp (sd\<lparr>crypto_tx_tailroom_pending_dec := b\<rparr>) w) x =
    tail_excess w x - (if x = sp then b - crypto_tx_tailroom_pending_dec sd else 0)"
proof -
  have "master_count (put_sdata sp (sd\<lparr>crypto_tx_tailroom_pending_dec := b\<rparr>) w) xd = master_count w xd" for xd
    using assms by (simp add: master_count_def put_sdata_def split: option.split)
  then show ?thesis using assms by (auto simp: tail_excess_def own_keys_def master_count_def put_sdata_def split: option.split)
qed

text \<open>Freeing a key that is on no list.\<close>

lemma free_unlisted_inv:
  fixes k :: "ieee80211_key option"
  defines "upd \<equiv> \<lambda>kp w. w\<lparr>keys := (keys w)(kp := k)\<rparr>"
  assumes "key_inv E w" "\<And>x. \<not> on_list w x kp"
  shows "key_inv E (upd kp w)" "tail_excess (upd kp w) x = tail_excess w x" "slot_get (upd kp w) sl = slot_get w sl"
    "on_list (upd kp w) x q = on_list w x q"
  unfolding upd_def
proof -
  let ?w = "w\<lparr>keys := (keys w)(kp := k)\<rparr>"
  show s: "slot_get ?w sl = slot_get w sl" for sl by (rule slot_get_cong) auto
  show l: "on_list ?w x q = on_list w x q" for x q by (simp add: on_list_def)
  show "tail_excess ?w x = tail_excess w x" by (rule put_unlisted_excess [OF assms(3)])
  have "lists_ok E ?w"
    using assms(2,3) unfolding key_inv_def lists_ok_def on_list_def by (simp add: fun_upd_apply)
  moreover have "filed ?w sl q" if "slot_get w sl = Some q" for sl q
  proof -
    have "filed w sl q" using that assms(2) by (simp add: key_inv_def)
    moreover have "q \<noteq> kp" using that unlisted_not_in_slot [OF assms(2,3)] by blast
    ultimately show ?thesis by (simp add: filed_def l)
  qed
  ultimately show "key_inv E ?w" using assms(2) s by (simp add: key_inv_def vlans_ok_def)
qed

text \<open>The share of a list of keys in the count of an interface.\<close>

definition charge :: "world \<Rightarrow> key_ptr list \<Rightarrow> sdata_ptr \<Rightarrow> int" where
  "charge w kps x = (\<Sum>kp\<leftarrow>kps. if old_iface w (Some kp) = Some x then 1 else 0)"

lemma charge_simps [simp]:
  "charge w [] x = 0"
  "charge w (kp # kps) x = (if old_iface w (Some kp) = Some x then 1 else 0) + charge w kps x"
  "charge w (a @ b) x = charge w a x + charge w b x"
  by (simp_all add: charge_def)

lemma same_keys_iface:
  assumes a: "same_keys w w'"
  shows "old_iface w' kp = old_iface w kp"
proof -
  show ?thesis
  proof (cases kp)
    case (Some q)
    have "rel_option tweak (keys w q) (keys w' q)" using a by (simp add: same_keys_def)
    then show ?thesis using Some by (cases "keys w q"; cases "keys w' q") (auto simp: old_iface_def tweak_def)
  qed (simp add: old_iface_def)
qed

lemma destroy_ok:
  assumes i: "key_inv E w" and u: "\<And>x. \<not> on_list w x kp" and f: "key_destroy_gen kp delay w = Inr (r, e, w')"
  shows "key_inv E w'" "tail_excess w' x = tail_excess w x - charge w [kp] x" "keys w' = (keys w)(kp := None)" "on_list w' x q = on_list w x q"
    "map_option vif_type (sdatas w' x) = map_option vif_type (sdatas w x)" "slot_get w' sl = slot_get w sl" "stas w' = stas w"
proof -
  obtain k where k: "keys w kp = Some k" using f by (auto simp: key_destroy_gen_def deref_Inr_iff elim!: rbind_InrE)
  have "\<exists>w1. key_inv E w1 \<and> (\<forall>x. tail_excess w1 x = tail_excess w x - charge w [kp] x) \<and> keys w1 = keys w \<and> calm w w1 \<and> stas w1 = stas w \<and>
      (\<forall>x. map_option vif_type (sdatas w1 x) = map_option vif_type (sdatas w x)) \<and> w' = ieee80211_key_free_common kp w1"
  proof (cases "key_sdata k")
    case None
    then show ?thesis using f k i by (intro exI [of _ w]) (auto simp: key_destroy_gen_def old_iface_def)
  next
    case (Some sp)
    then obtain sd where sd: "sdatas w sp = Some sd"
      using f k by (auto simp: key_destroy_gen_def decrease_tailroom_need_count_def update_vlan_tailroom_need_count_def quiet_Inr_iff deref_Inr_iff
          elim!: rbind_InrE and_thenE split: if_splits)
    have v: "vlans_ok w" using i by (simp add: key_inv_def)
    show ?thesis
    proof (cases delay)
      case True
      let ?w = "put_sdata sp (sd\<lparr>crypto_tx_tailroom_pending_dec := crypto_tx_tailroom_pending_dec sd + 1\<rparr>) w"
      have "w' = ieee80211_key_free_common kp ?w" using f k Some sd True by (simp add: key_destroy_gen_def)
      then show ?thesis
        using put_pending_inv [OF i sd refl] put_pending_excess [OF sd] k Some sd
        by (intro exI [of _ ?w]) (auto simp: old_iface_def put_sdata_def)
    next
      case False
      let ?w = "bump_at (tail_group w sp) (- 1) w"
      have "w' = ieee80211_key_free_common kp ?w" using f k Some False decrease_ok [OF v sd, of 1] by (simp add: key_destroy_gen_def quiet_def)
      then show ?thesis using bump_inv [OF i] bump_calm bump_excess [OF v sd, of "- 1"] k Some
        by (intro exI [of _ ?w]) (auto simp: old_iface_def bump_at_def option.map_comp o_def)
    qed
  qed
  then obtain w1 where w1: "key_inv E w1" "\<And>x. tail_excess w1 x = tail_excess w x - charge w [kp] x" "keys w1 = keys w" "calm w w1" "stas w1 = stas w"
      "\<And>x. map_option vif_type (sdatas w1 x) = map_option vif_type (sdatas w x)" "w' = w1\<lparr>keys := (keys w1)(kp := None)\<rparr>"
    by (auto simp: ieee80211_key_free_common_def)
  have l: "on_list w1 x q = on_list w x q" for x q using shaped_on_list w1(4) by (auto simp: calm_def)
  have u1: "\<not> on_list w1 x kp" for x using l u by simp
  note d = free_unlisted_inv [OF w1(1) u1, where k = None]
  show "key_inv E w'" "tail_excess w' x = tail_excess w x - charge w [kp] x" "keys w' = (keys w)(kp := None)" "on_list w' x q = on_list w x q"
      "map_option vif_type (sdatas w' x) = map_option vif_type (sdatas w x)" "slot_get w' sl = slot_get w sl" "stas w' = stas w"
    using d w1 l unfolding w1(7) by (simp_all add: calm_def del: charge_simps)
qed

lemma unlink_replace:
  assumes i: "key_inv E w" and d: "driver_ok E" and k: "keys w kp = Some k" "key_sdata k = Some sp" "on_list w sp kp"
    and f: "ieee80211_key_replace E sp (key_sta k) (key_pairwise k) (Some kp) None w = Inr (ret, e, w')"
  shows "key_inv E w'" "tail_excess w' x = tail_excess w x + charge w [kp] x" "same_keys w w'" "on_list w' x q \<longleftrightarrow> on_list w x q \<and> q \<noteq> kp"
    "slot_get w' (slot_at sp (key_sta k) (key_pairwise k) (unat (conf_keyidx k))) = None"
proof -
  have r: "replaceable w sp (key_sta k) (key_pairwise k) (Some kp) None (unat (conf_keyidx k))"
    using k by (auto simp: replaceable_def key_at_def listed_key_def)
  have "ret = 0" using f by (auto simp: ieee80211_key_replace_def replace_hw_def elim!: and_thenE rbind_InrE split: if_splits)
  then show "key_inv E w'" "tail_excess w' x = tail_excess w x + charge w [kp] x" "same_keys w w'" "on_list w' x q \<longleftrightarrow> on_list w x q \<and> q \<noteq> kp"
      "slot_get w' (slot_at sp (key_sta k) (key_pairwise k) (unat (conf_keyidx k))) = None"
    using replace_ok [OF i d r _ f] by auto
qed

text \<open>An operation keeps the invariant and every count as exact as it was.\<close>

definition keeps :: "key_env \<Rightarrow> world \<Rightarrow> world \<Rightarrow> bool" where
  "keeps E w w' \<longleftrightarrow> key_inv E w' \<and> (\<forall>x. tail_excess w' x = tail_excess w x)"

lemma keeps_refl: "key_inv E w \<Longrightarrow> keeps E w w" by (simp add: keeps_def)

lemma keeps_trans: "keeps E w w1 \<Longrightarrow> keeps E w1 w2 \<Longrightarrow> keeps E w w2" by (simp add: keeps_def)

lemma steady_keeps: "steady E w w' \<Longrightarrow> keeps E w w'" by (simp add: keeps_def steady_def)

lemma same_keys_at: "same_keys w w' \<Longrightarrow> keys w kp = Some k \<Longrightarrow> \<exists>k'. keys w' kp = Some k' \<and> tweak k k'"
  unfolding same_keys_def by (metis option.rel_distinct(2) option.rel_inject(2) option.exhaust)

text \<open>Taking a key out of its slot and off its list, then freeing it.\<close>

lemma unlink_destroy_keeps:
  assumes i: "key_inv E w" and d: "driver_ok E" and k: "keys w kp = Some k" "key_sdata k = Some sp" "on_list w sp kp"
    and f: "ieee80211_key_replace E sp (key_sta k) (key_pairwise k) (Some kp) None w = Inr (ret, e, w1)"
    and g: "key_destroy_gen kp delay w1 = Inr (r, e', w')"
  shows "keeps E w w'" "keys w' kp = None" "on_list w' x q \<longleftrightarrow> on_list w x q \<and> q \<noteq> kp" "q \<noteq> kp \<Longrightarrow> rel_option tweak (keys w q) (keys w' q)"
    "slot_get w' (slot_at sp (key_sta k) (key_pairwise k) (unat (conf_keyidx k))) = None"
proof -
  note u = unlink_replace [OF i d k f]
  have l: "\<not> on_list w1 x kp" for x using u(4) by simp
  note v = destroy_ok [OF u(1) l g]
  have "charge w1 [kp] x = charge w [kp] x" for x using same_keys_iface [OF u(3)] by (simp add: charge_def)
  then show "keeps E w w'" using u(2) v(1,2) by (simp add: keeps_def del: charge_simps)
  show "keys w' kp = None" "on_list w' x q \<longleftrightarrow> on_list w x q \<and> q \<noteq> kp" using u(4) v(3,4) by simp_all
  show "rel_option tweak (keys w q) (keys w' q)" if "q \<noteq> kp" using u(3) v(3) that by (simp add: same_keys_def)
  show "slot_get w' (slot_at sp (key_sta k) (key_pairwise k) (unat (conf_keyidx k))) = None" using u(5) v(6) by simp
qed

lemma key_free_keeps:
  assumes i: "key_inv E w" and d: "driver_ok E" and k: "keys w kp = Some k" "key_sdata k = Some sp" "on_list w sp kp"
    and f: "ieee80211_key_free E (Some kp) delay w = Inr (u, e, w')"
  shows "keeps E w w'" "keys w' kp = None" "on_list w' x q \<longleftrightarrow> on_list w x q \<and> q \<noteq> kp" "q \<noteq> kp \<Longrightarrow> rel_option tweak (keys w q) (keys w' q)"
    "slot_get w' (slot_at sp (key_sta k) (key_pairwise k) (unat (conf_keyidx k))) = None"
proof -
  obtain ret e1 w1 e2 where 1: "ieee80211_key_replace E sp (key_sta k) (key_pairwise k) (Some kp) None w = Inr (ret, e1, w1)"
      "key_destroy_gen kp delay w1 = Inr (u, e2, w')"
    using f k by (auto simp: ieee80211_key_free_def ieee80211_key_destroy_def elim!: and_thenE)
  from unlink_destroy_keeps [OF i d k this]
  show "keeps E w w'" "keys w' kp = None" "on_list w' x q \<longleftrightarrow> on_list w x q \<and> q \<noteq> kp" "q \<noteq> kp \<Longrightarrow> rel_option tweak (keys w q) (keys w' q)"
      "slot_get w' (slot_at sp (key_sta k) (key_pairwise k) (unat (conf_keyidx k))) = None" by blast+
qed

section \<open>Installing\<close>

lemma slot_listed:
  assumes "key_inv E w" "slot_get w sl = Some kp"
  obtains k sp where "keys w kp = Some k" "slot_fits sl k" "key_sdata k = Some sp" "on_list w sp kp"
proof -
  have "filed w sl kp" using assms by (simp add: key_inv_def)
  then show thesis using that by (auto simp: filed_def)
qed

text \<open>The slot that \<open>ieee80211_key_link\<close> reads.\<close>

definition link_slot :: "ieee80211_key \<Rightarrow> sdata_ptr \<Rightarrow> sta_ptr option \<Rightarrow> key_slot" where
  "link_slot k sp sta = slot_at sp sta (key_pairwise k) (unat (conf_keyidx k))"

lemma link_slots_old: "link_slots k sp sta w = Inr (old, alt) \<Longrightarrow> old = slot_get w (link_slot k sp sta)"
  by (auto simp: link_slots_def link_slot_def slot_at_def Let_def deref_Inr_iff arr_get_Inr_iff slot_get.simps nth_opt_def elim!: rbind_InrE
      split: option.splits if_splits)

lemma link_replaceable:
  assumes i: "key_inv E w" and k: "keys w kp = Some k" "key_sdata k = Some sp" "key_sta k = sta" "\<not> key_uploaded k" and u: "\<And>x. \<not> on_list w x kp"
    and o: "old = slot_get w (link_slot k sp sta)"
  shows "replaceable w sp sta (key_pairwise k) old (Some kp) (unat (conf_keyidx k))"
proof -
  have "\<exists>so. key_at w op so sta (key_pairwise k) (unat (conf_keyidx k)) \<and> (sta = None \<longrightarrow> so = sp)" if op: "old = Some op" for op
  proof -
    obtain ko so where ko: "keys w op = Some ko" "slot_fits (link_slot k sp sta) ko" "key_sdata ko = Some so" "on_list w so op"
      by (rule slot_listed [OF i, of "link_slot k sp sta" op]) (use o op in auto)
    then have "key_at w op so sta (key_pairwise k) (unat (conf_keyidx k))"
      by (auto simp: key_at_def listed_key_def link_slot_def slot_at_def split: option.splits if_splits)
    moreover have "sta = None \<longrightarrow> so = sp" using ko(2,3) by (auto simp: link_slot_def slot_at_def)
    ultimately show ?thesis by blast
  qed
  then show ?thesis using k u by (auto simp: replaceable_def)
qed

text \<open>The new key is counted and put in place of the old one, if the hardware does not refuse it.\<close>

lemma install_stage:
  assumes i: "key_inv E w" and d: "driver_ok E" and k: "keys w kp = Some k" "key_sdata k = Some sp" "key_sta k = sta" "\<not> key_uploaded k"
    and u: "\<And>x. \<not> on_list w x kp" and o: "old = slot_get w (link_slot k sp sta)" and inc: "increment_tailroom_need_count sp w = Inr w1"
    and f: "ieee80211_key_replace E sp sta (key_pairwise k) old (Some kp) w1 = Inr (ret, e, w2)"
  shows "key_inv E w2" "tail_excess w2 x = tail_excess w x + (if ret = 0 \<and> old_iface w old = Some x then 1 else 0)" "same_keys w w2" "old \<noteq> Some kp"
    "on_list w2 x q \<longleftrightarrow> on_list w x q \<and> \<not> (ret = 0 \<and> old = Some q) \<or> x = sp \<and> q = kp"
    "slot_get w2 (link_slot k sp sta) = (if ret = 0 then Some kp else old)" "ret = 0 \<Longrightarrow> old = Some op \<Longrightarrow> slot_get w2 sl \<noteq> Some op"
proof -
  obtain sd where sd: "sdatas w sp = Some sd"
    using inc by (auto simp: increment_tailroom_need_count_def update_vlan_tailroom_need_count_def deref_Inr_iff elim!: rbind_InrE)
  have v: "vlans_ok w" using i by (simp add: key_inv_def)
  have w1: "w1 = bump_at (tail_group w sp) 1 w" using inc increment_ok [OF v sd] by simp
  have c: "calm w w1" unfolding w1 by (rule bump_calm)
  have x1: "tail_excess w1 x = tail_excess w x + (if x = sp then 1 else 0)" for x unfolding w1 by (rule bump_excess [OF v sd])
  have i1: "key_inv E w1" unfolding w1 by (rule bump_inv [OF i])
  have l1: "on_list w1 x q = on_list w x q" for x q using shaped_on_list [of w w1] c by (simp add: calm_def)
  have u1: "\<not> on_list w1 x kp" for x using u l1 by simp
  have k1: "keys w1 kp = Some k" using k(1) by (simp add: w1)
  have sg: "slot_get w1 x = slot_get w x" for x using c by (simp add: calm_def)
  have r: "replaceable w1 sp sta (key_pairwise k) old (Some kp) (unat (conf_keyidx k))"
    by (rule link_replaceable [OF i1 k1 k(2-4) u1]) (simp add: o sg)
  have nz: "old \<noteq> None \<or> Some kp \<noteq> None" by simp
  have s1: "same_keys w w1" using shaped_same_keys c by (simp add: calm_def)
  note h = replace_ok [OF i1 d r nz f]
  show "key_inv E w2" using h by blast
  show "tail_excess w2 x = tail_excess w x + (if ret = 0 \<and> old_iface w old = Some x then 1 else 0)" using h x1 same_keys_iface [OF s1] by simp
  show "same_keys w w2" using h same_keys_trans [OF s1] by blast
  show "old \<noteq> Some kp" using r u1 by (auto simp: replaceable_def key_at_def listed_key_def)
  show "on_list w2 x q \<longleftrightarrow> on_list w x q \<and> \<not> (ret = 0 \<and> old = Some q) \<or> x = sp \<and> q = kp" using h l1 by auto
  show "slot_get w2 (link_slot k sp sta) = (if ret = 0 then Some kp else old)" using h sg o unfolding link_slot_def by simp
  show "slot_get w2 sl \<noteq> Some op" if "ret = 0" "old = Some op" using h that by blast
qed

lemma install_keeps:
  assumes i: "key_inv E w" and d: "driver_ok E" and k: "keys w kp = Some k" "key_sdata k = Some sp" "key_sta k = sta" "\<not> key_uploaded k"
    and u: "\<And>x. \<not> on_list w x kp" and o: "old = slot_get w (link_slot k sp sta)" and inc: "increment_tailroom_need_count sp w = Inr w1"
    and f: "ieee80211_key_replace E sp sta (key_pairwise k) old (Some kp) w1 = Inr (ret, e, w2)"
    and g: "(if ret = 0 then ieee80211_key_destroy old delay w2 else ieee80211_key_free E (Some kp) delay w2) = Inr (r, e', w')"
  shows "keeps E w w'"
proof -
  note h = install_stage [OF i d k u o inc f]
  show ?thesis
  proof (cases "ret = 0")
    case True
    show ?thesis
    proof (cases old)
      case None
      then show ?thesis using g h(1,2) True by (simp add: ieee80211_key_destroy_def keeps_def old_iface_def)
    next
      case (Some op)
      have gd: "key_destroy_gen op delay w2 = Inr (r, e', w')" using g True Some by (simp add: ieee80211_key_destroy_def)
      have u2: "\<not> on_list w2 x op" for x using h(4,5) True Some by auto
      note z = destroy_ok [OF h(1) u2 gd]
      have "charge w2 [op] x = (if old_iface w old = Some x then 1 else 0)" for x using same_keys_iface [OF h(3)] Some by simp
      then show ?thesis using z(1,2) h(2) True by (simp add: keeps_def del: charge_simps)
    qed
  next
    case False
    obtain k2 where k2: "keys w2 kp = Some k2" "tweak k k2" using same_keys_at [OF h(3) k(1)] by blast
    have l2: "on_list w2 sp kp" using h(5) by simp
    have "keeps E w2 w'" by (rule key_free_keeps(1) [OF h(1) d k2(1) _ l2]) (use k(2) k2(2) g False in \<open>auto simp: tweak_def\<close>)
    then show ?thesis using h(2) False by (simp add: keeps_def)
  qed
qed

lemma link_cases:
  assumes k: "keys w kp = Some k" and f: "ieee80211_key_link E kp sp sta w = Inr (ret, e, w')"
  obtains (refused) op ko where "keys w op = Some ko" "conf_cipher ko \<noteq> conf_cipher k" "ret = - EOPNOTSUPP" "e = []" "w' = w"
  | (same) sd op ko where "sdatas w sp = Some sd" "slot_get w (link_slot k sp sta) = Some op" "keys w op = Some ko" "ieee80211_key_identical sd (Some ko) k"
      "ret = 0" "e = []" "w' = w\<lparr>keys := (keys w)(kp := None)\<rparr>"
  | (installed) sd ko w1 e1 w2 e2 u where "sdatas w sp = Some sd" "deref_opt (keys w) (slot_get w (link_slot k sp sta)) = Inr ko"
      "\<not> ieee80211_key_identical sd ko k"
      "increment_tailroom_need_count sp (put_key kp (k\<lparr>key_sdata := Some sp, key_sta := sta\<rparr>) w) = Inr w1"
      "ieee80211_key_replace E sp sta (key_pairwise k) (slot_get w (link_slot k sp sta)) (Some kp) w1 = Inr (ret, e1, w2)"
      "(if ret = 0 then ieee80211_key_destroy (slot_get w (link_slot k sp sta)) (vif_type sd = NL80211_IFTYPE_STATION) w2
        else ieee80211_key_free E (Some kp) (vif_type sd = NL80211_IFTYPE_STATION) w2) = Inr (u, e2, w')"
proof -
  let ?w = "put_key kp (k\<lparr>key_sdata := Some sp, key_sta := sta\<rparr>) w"
  let ?C = "\<lambda>ko ka. sta \<noteq> None \<and> key_pairwise k \<and> (other_cipher k ka \<or> other_cipher k ko) \<or> \<not> key_pairwise k \<and> other_cipher k ko"
  obtain sd old alt ko ka where l: "sdatas w sp = Some sd" "link_slots k sp sta w = Inr (old, alt)"
      "deref_opt (keys w) old = Inr ko" "deref_opt (keys w) alt = Inr ka" and
    g: "(if ?C ko ka then Inr (- EOPNOTSUPP, [], w)
     else if ieee80211_key_identical sd ko k then Inr (0, [], ieee80211_key_free_unused kp w)
     else and_then (quiet (increment_tailroom_need_count sp ?w)) (\<lambda>_ w.
       and_then (ieee80211_key_replace E sp sta (key_pairwise k) old (Some kp) w) (\<lambda>ret w.
       and_then (if ret = 0 then ieee80211_key_destroy old (vif_type sd = NL80211_IFTYPE_STATION) w
         else ieee80211_key_free E (Some kp) (vif_type sd = NL80211_IFTYPE_STATION) w) (\<lambda>_ w.
       Inr (ret, [], w))))) = Inr (ret, e, w')"
    using f k by (auto simp: ieee80211_key_link_def deref_Inr_iff Let_def simp del: and_then_Inr elim!: rbind_InrE)
  have o: "old = slot_get w (link_slot k sp sta)" by (rule link_slots_old [OF l(2)])
  have at: "\<exists>q. keys w q = Some kq" if "deref_opt (keys w) r = Inr (Some kq)" for r kq
    using that by (auto simp: deref_opt_def deref_Inr_iff elim!: rbind_InrE split: option.splits)
  consider "?C ko ka" "ret = - EOPNOTSUPP" "e = []" "w' = w"
    | "ieee80211_key_identical sd ko k" "ret = 0" "e = []" "w' = w\<lparr>keys := (keys w)(kp := None)\<rparr>"
    | w1 e1 w2 e2 u where "\<not> ieee80211_key_identical sd ko k" "increment_tailroom_need_count sp ?w = Inr w1"
        "ieee80211_key_replace E sp sta (key_pairwise k) old (Some kp) w1 = Inr (ret, e1, w2)"
        "(if ret = 0 then ieee80211_key_destroy old (vif_type sd = NL80211_IFTYPE_STATION) w2
          else ieee80211_key_free E (Some kp) (vif_type sd = NL80211_IFTYPE_STATION) w2) = Inr (u, e2, w')"
    using g by (auto simp: ieee80211_key_free_unused_def ieee80211_key_free_common_def quiet_Inr_iff simp del: and_then_Inr elim!: and_thenE split: if_split_asm)
  then show thesis
  proof cases
    case 1
    then obtain q kq where "keys w q = Some kq" "conf_cipher kq \<noteq> conf_cipher k"
      using at l(3,4) by (auto simp: other_cipher_def split: option.splits)
    then show thesis using refused 1(2-4) by blast
  next
    case 2
    then obtain kq where kq: "ko = Some kq" by (auto simp: ieee80211_key_identical_def split: option.splits)
    then obtain op where "old = Some op" "keys w op = Some kq" using l(3) by (auto simp: deref_opt_def deref_Inr_iff elim!: rbind_InrE split: option.splits)
    then show thesis using same [OF l(1)] o kq 2 by simp
  next
    case 3
    then show thesis unfolding o using installed [OF l(1) l(3) [unfolded o]] by blast
  qed
qed

lemma key_link_keeps:
  assumes i: "key_inv E w" and d: "driver_ok E" and k: "keys w kp = Some k" "\<not> key_uploaded k" and u: "\<And>x. \<not> on_list w x kp"
    and f: "ieee80211_key_link E kp sp sta w = Inr (ret, e, w')"
  shows "keeps E w w'"
proof -
  let ?k = "k\<lparr>key_sdata := Some sp, key_sta := sta\<rparr>"
  let ?w = "put_key kp ?k w"
  have fk: "keeps E w (w\<lparr>keys := (keys w)(kp := x)\<rparr>)" for x using free_unlisted_inv [OF i u] by (simp add: keeps_def)
  show ?thesis
  proof (cases rule: link_cases [OF k(1) f])
    case (3 sd ko w1 e1 w2 e2 r)
    have p: "?w = w\<lparr>keys := (keys w)(kp := Some ?k)\<rparr>" by (simp add: put_key_def)
    have i1: "key_inv E ?w" using fk [of "Some ?k"] by (simp add: p keeps_def)
    have u1: "\<not> on_list ?w x kp" for x using free_unlisted_inv(4) [OF i u] u by (simp add: p)
    have pk: "key_pairwise ?k = key_pairwise k" "\<not> key_uploaded ?k" using k(2) by (simp_all add: key_pairwise_def key_uploaded_def)
    have "link_slot ?k sp sta = link_slot k sp sta" by (simp add: link_slot_def pk(1))
    then have o: "slot_get w (link_slot k sp sta) = slot_get ?w (link_slot ?k sp sta)" using free_unlisted_inv(3) [OF i u] by (simp add: p)
    have "keeps E ?w w'" by (rule install_keeps [OF i1 d _ _ _ pk(2) u1 o 3(4)]) (use 3(5,6) pk(1) in \<open>simp_all add: put_key_def\<close>)
    then show ?thesis using keeps_trans fk [of "Some ?k"] unfolding p by blast
  qed (use fk i in \<open>simp_all add: keeps_def\<close>)
qed

section \<open>Removing many keys\<close>

text \<open>The decrements put off are done.\<close>

lemma flush_pending:
  assumes i: "key_inv E w" and sd: "sdatas w sp = Some sd"
    and f: "decrease_tailroom_need_count sp (crypto_tx_tailroom_pending_dec sd) w = Inr w1" "sdatas w1 sp = Some sd1"
      "w' = put_sdata sp (sd1\<lparr>crypto_tx_tailroom_pending_dec := 0\<rparr>) w1"
  shows "steady E w w'" "keys w' = keys w" "stas w' = stas w"
proof -
  have v: "vlans_ok w" using i by (simp add: key_inv_def)
  have w1: "w1 = bump_at (tail_group w sp) (- crypto_tx_tailroom_pending_dec sd) w" using f(1) decrease_ok [OF v sd] by simp
  then have p: "crypto_tx_tailroom_pending_dec sd1 = crypto_tx_tailroom_pending_dec sd" using f(2) sd by (auto simp: bump_at_def split: if_splits)
  have i1: "key_inv E w1" unfolding w1 by (rule bump_inv [OF i])
  note q = put_pending_inv [OF i1 f(2,3)]
  have "tail_excess w' x = tail_excess w x" for x
    unfolding f(3) put_pending_excess [OF f(2)] p unfolding w1 bump_excess [OF v sd] by simp
  then show "steady E w w'" using q calm_trans [OF bump_calm] by (simp add: steady_def w1)
  show "keys w' = keys w" "stas w' = stas w" by (simp_all add: f(3) w1 put_sdata_def)
qed

lemma delayed_dec_keeps:
  assumes "key_inv E w" "ieee80211_delayed_tailroom_dec sp w = Inr w'"
  shows "keeps E w w'"
proof -
  obtain sd w1 sd1 where s: "sdatas w sp = Some sd" "decrease_tailroom_need_count sp (crypto_tx_tailroom_pending_dec sd) w = Inr w1" "sdatas w1 sp = Some sd1"
      "w' = put_sdata sp (sd1\<lparr>crypto_tx_tailroom_pending_dec := 0\<rparr>) w1"
    using assms(2) by (auto simp: ieee80211_delayed_tailroom_dec_def deref_Inr_iff elim!: rbind_InrE)
  show ?thesis by (rule steady_keeps [OF flush_pending(1) [OF assms(1) s]])
qed

lemma same_keys_charge: "same_keys w w' \<Longrightarrow> charge w' kps x = charge w kps x"
  by (simp add: charge_def same_keys_iface)

lemma same_keys_refl: "same_keys w w" by (simp add: same_keys_def option.rel_refl)

lemma unlink_keys_ok:
  assumes "key_inv E w" "driver_ok E" "distinct kps" "\<And>kp. kp \<in> set kps \<Longrightarrow> \<exists>x. on_list w x kp" "unlink_keys E kps w = Inr (u, e, w')"
  shows "key_inv E w' \<and> (\<forall>x. tail_excess w' x = tail_excess w x + charge w kps x) \<and> same_keys w w' \<and> (\<forall>x q. on_list w' x q \<longleftrightarrow> on_list w x q \<and> q \<notin> set kps)"
  using assms
proof (induction kps arbitrary: w e)
  case Nil
  then show ?case by (auto simp: same_keys_refl)
next
  case (Cons kp kps)
  obtain k sp ret e1 w1 e2 where f: "keys w kp = Some k" "key_sdata k = Some sp"
      "ieee80211_key_replace E sp (key_sta k) (key_pairwise k) (Some kp) None w = Inr (ret, e1, w1)" "unlink_keys E kps w1 = Inr (u, e2, w')"
    using Cons.prems(5) by (auto simp: deref_Inr_iff key_iface_def elim!: rbind_InrE and_thenE split: option.splits)
  obtain x where "on_list w x kp" using Cons.prems(4) by auto
  then have l: "on_list w sp kp" using Cons.prems(1) f(1,2) unfolding key_inv_def lists_ok_def on_list_def by fastforce
  note r = unlink_replace [OF Cons.prems(1,2) f(1,2) l f(3)]
  have "key_inv E w' \<and> (\<forall>x. tail_excess w' x = tail_excess w1 x + charge w1 kps x) \<and> same_keys w1 w' \<and> (\<forall>x q. on_list w' x q \<longleftrightarrow> on_list w1 x q \<and> q \<notin> set kps)"
    by (rule Cons.IH [OF r(1) Cons.prems(2) _ _ f(4)]) (use Cons.prems(3,4) r(4) in auto)
  then show ?case using r same_keys_charge [OF r(3)] same_keys_trans [OF r(3)] by auto
qed

lemma listed_keys:
  assumes "key_inv E w" "sdatas w sp = Some sd"
  shows "distinct (key_list sd)" "kp \<in> set (key_list sd) \<longleftrightarrow> on_list w sp kp"
  using assms by (auto simp: key_inv_def lists_ok_def on_list_def)

lemma free_keys_iface_ok:
  assumes i: "key_inv E w" and d: "driver_ok E" and f: "ieee80211_free_keys_iface E sp w = Inr (kps, e, w')"
  shows "key_inv E w' \<and> (\<forall>x. tail_excess w' x = tail_excess w x + charge w kps x) \<and> same_keys w w' \<and>
    (\<forall>x q. on_list w' x q \<longleftrightarrow> on_list w x q \<and> q \<notin> set kps) \<and> distinct kps \<and> (\<forall>q. q \<in> set kps \<longleftrightarrow> on_list w sp q)"
proof -
  obtain sd w1 sd1 e1 u where s: "sdatas w sp = Some sd" "decrease_tailroom_need_count sp (crypto_tx_tailroom_pending_dec sd) w = Inr w1" "sdatas w1 sp = Some sd1"
      and un: "unlink_keys E (key_list sd1) (put_sdata sp (sd1\<lparr>crypto_tx_tailroom_pending_dec := 0\<rparr>) w1) = Inr (u, e1, w')" and kps: "kps = key_list sd1"
    using f by (auto simp: ieee80211_free_keys_iface_def deref_Inr_iff elim!: rbind_InrE and_thenE)
  let ?w = "put_sdata sp (sd1\<lparr>crypto_tx_tailroom_pending_dec := 0\<rparr>) w1"
  note p = flush_pending [OF i s refl]
  have i1: "key_inv E ?w" and c: "calm w ?w" and x1: "\<And>x. tail_excess ?w x = tail_excess w x" using p(1) by (simp_all add: steady_def)
  have l: "on_list ?w x q = on_list w x q" for x q using shaped_on_list [of w ?w] c by (simp add: calm_def)
  have s1: "same_keys w ?w" using shaped_same_keys c by (simp add: calm_def)
  have k: "distinct kps" "\<And>q. q \<in> set kps \<longleftrightarrow> on_list w sp q"
    using listed_keys [OF i1, of sp "sd1\<lparr>crypto_tx_tailroom_pending_dec := 0\<rparr>"] l unfolding kps by (simp_all add: put_sdata_def)
  have "key_inv E w' \<and> (\<forall>x. tail_excess w' x = tail_excess ?w x + charge ?w kps x) \<and> same_keys ?w w' \<and> (\<forall>x q. on_list w' x q \<longleftrightarrow> on_list ?w x q \<and> q \<notin> set kps)"
    by (rule unlink_keys_ok [OF i1 d k(1)]) (use k(2) l un kps in auto)
  then show ?thesis using k l x1 same_keys_charge [OF s1] same_keys_trans [OF s1] by simp
qed

lemma free_keys_ifaces_ok:
  assumes "key_inv E w" "driver_ok E" "free_keys_ifaces E sps w = Inr (kps, e, w')"
  shows "key_inv E w' \<and> (\<forall>x. tail_excess w' x = tail_excess w x + charge w kps x) \<and> same_keys w w' \<and>
    (\<forall>x q. on_list w' x q \<longleftrightarrow> on_list w x q \<and> q \<notin> set kps) \<and> distinct kps \<and> (\<forall>q. q \<in> set kps \<longleftrightarrow> (\<exists>x\<in>set sps. on_list w x q))"
  using assms
proof (induction sps arbitrary: w kps e)
  case Nil
  then show ?case by (auto simp: same_keys_refl)
next
  case (Cons sp sps)
  obtain k1 e1 w1 k2 e2 where f: "ieee80211_free_keys_iface E sp w = Inr (k1, e1, w1)" "free_keys_ifaces E sps w1 = Inr (k2, e2, w')" "kps = k1 @ k2"
    using Cons.prems(3) by (auto elim!: and_thenE)
  note a = free_keys_iface_ok [OF Cons.prems(1,2) f(1)]
  have i1: "key_inv E w1" and s1: "same_keys w w1" using a by blast+
  note b = Cons.IH [OF i1 Cons.prems(2) f(2)]
  have "same_keys w w'" using b same_keys_trans [OF s1] by blast
  moreover have "\<forall>x. tail_excess w' x = tail_excess w x + charge w kps x" using a b same_keys_charge [OF s1] f(3) by simp
  moreover have "distinct kps" using a b f(3) by auto
  moreover have "\<forall>x q. on_list w' x q \<longleftrightarrow> on_list w x q \<and> q \<notin> set kps" using a b f(3) by auto
  moreover have "\<forall>q. q \<in> set kps \<longleftrightarrow> (\<exists>x\<in>set (sp # sps). on_list w x q)" using a b f(3) by auto
  ultimately show ?case using b by blast
qed

lemma destroy_keys_ok:
  assumes "key_inv E w" "distinct kps" "\<And>kp x. kp \<in> set kps \<Longrightarrow> \<not> on_list w x kp" "destroy_keys kps w = Inr (u, e, w')"
  shows "key_inv E w' \<and> (\<forall>x. tail_excess w' x = tail_excess w x - charge w kps x) \<and> (\<forall>x q. on_list w' x q = on_list w x q) \<and>
    keys w' = (\<lambda>q. if q \<in> set kps then None else keys w q)"
  using assms
proof (induction kps arbitrary: w e)
  case (Cons kp kps)
  obtain u1 e1 w1 e2 where f: "key_destroy_gen kp False w = Inr (u1, e1, w1)" "destroy_keys kps w1 = Inr (u, e2, w')"
    using Cons.prems(4) by (auto elim!: and_thenE)
  have un: "\<not> on_list w x kp" for x using Cons.prems(3) by simp
  note a = destroy_ok [OF Cons.prems(1) un f(1)]
  have b: "key_inv E w' \<and> (\<forall>x. tail_excess w' x = tail_excess w1 x - charge w1 kps x) \<and> (\<forall>x q. on_list w' x q = on_list w1 x q) \<and>
      keys w' = (\<lambda>q. if q \<in> set kps then None else keys w1 q)"
    by (rule Cons.IH [OF a(1) _ _ f(2)]) (use Cons.prems(2,3) a(4) in auto)
  have "charge w1 kps x = charge w kps x" for x
    unfolding charge_def using Cons.prems(2) a(3) by (intro arg_cong [where f = sum_list] map_cong) (auto simp: old_iface_def)
  then show ?case using a b by auto
qed simp

lemma free_keys_keeps:
  assumes i: "key_inv E w" and d: "driver_ok E" and f: "ieee80211_free_keys E sp w = Inr (u, e, w')"
  shows "keeps E w w'" "\<not> on_list w' sp q" "sdatas w sp = Some sd \<Longrightarrow> vif_type sd = NL80211_IFTYPE_AP \<Longrightarrow> v \<in> set (ap_vlans sd) \<Longrightarrow> \<not> on_list w' v q"
proof -
  obtain sd kps e1 w1 e2 where s: "sdatas w sp = Some sd" "destroy_keys kps w1 = Inr (u, e2, w')"
      "free_keys_ifaces E (sp # (if vif_type sd = NL80211_IFTYPE_AP then ap_vlans sd else [])) w = Inr (kps, e1, w1)"
    using f by (auto simp: ieee80211_free_keys_def deref_Inr_iff elim!: rbind_InrE and_thenE)
  note a = free_keys_ifaces_ok [OF i d s(3)]
  have b: "key_inv E w' \<and> (\<forall>x. tail_excess w' x = tail_excess w1 x - charge w1 kps x) \<and> (\<forall>x q. on_list w' x q = on_list w1 x q) \<and>
      keys w' = (\<lambda>q. if q \<in> set kps then None else keys w1 q)"
    by (rule destroy_keys_ok [OF _ _ _ s(2)]) (use a in auto)
  have "charge w1 kps x = charge w kps x" for x using a same_keys_charge by blast
  then show "keeps E w w'" using a b by (simp add: keeps_def)
  show "\<not> on_list w' sp q" using a b by auto
  show "\<not> on_list w' v q" if "sdatas w sp = Some sd" "vif_type sd = NL80211_IFTYPE_AP" "v \<in> set (ap_vlans sd)" for sd
    using a b s(1) that by auto
qed

lemma free_sta_key_keeps:
  assumes i: "key_inv E w" and d: "driver_ok E" and s: "\<And>q. kp = Some q \<Longrightarrow> \<exists>sl. slot_get w sl = Some q" and f: "free_sta_key E kp w = Inr (u, e, w')"
  shows "keeps E w w'"
proof (cases kp)
  case None
  then show ?thesis using f keeps_refl [OF i] by (simp add: free_sta_key_def)
next
  case (Some q)
  obtain k sp delay ret e1 w1 e2 where k: "keys w q = Some k" "key_sdata k = Some sp"
      "ieee80211_key_replace E sp (key_sta k) (key_pairwise k) (Some q) None w = Inr (ret, e1, w1)" "key_destroy_gen q delay w1 = Inr (u, e2, w')"
    using f Some by (auto simp: free_sta_key_def deref_Inr_iff key_iface_def elim!: rbind_InrE and_thenE split: option.splits)
  obtain sl where sl: "slot_get w sl = Some q" using s [OF Some] by blast
  have "on_list w sp q" by (rule slot_listed [OF i sl]) (use k in auto)
  from unlink_destroy_keeps(1) [OF i d k(1,2) this k(3,4)] show ?thesis .
qed

lemma free_sta_gtks_keeps:
  "key_inv E w \<Longrightarrow> driver_ok E \<Longrightarrow> free_sta_gtks E p is w = Inr (u, e, w') \<Longrightarrow> keeps E w w'"
proof (induction "is" arbitrary: w e)
  case (Cons i "is")
  obtain s e1 w1 e2 u1 where f: "stas w p = Some s" "i < length (gtk s)" "free_sta_key E (gtk s ! i) w = Inr (u1, e1, w1)" "free_sta_gtks E p is w1 = Inr (u, e2, w')"
    using Cons.prems(3) by (auto simp: deref_Inr_iff arr_get_Inr_iff elim!: rbind_InrE and_thenE)
  have "keeps E w w1"
    by (rule free_sta_key_keeps [OF Cons.prems(1,2) _ f(3)]) (use f(1,2) in \<open>auto simp: slot_get.simps nth_opt_def intro!: exI [of _ "Gtk p i"]\<close>)
  then show ?case using Cons.IH [OF _ Cons.prems(2) f(4)] keeps_trans by (auto simp: keeps_def)
qed (simp add: keeps_refl)

lemma free_sta_ptks_keeps:
  "key_inv E w \<Longrightarrow> driver_ok E \<Longrightarrow> free_sta_ptks E p is w = Inr (u, e, w') \<Longrightarrow> keeps E w w'"
proof (induction "is" arbitrary: w e)
  case (Cons i "is")
  obtain s e1 w1 e2 u1 where f: "stas w p = Some s" "i < length (ptk s)" "free_sta_key E (ptk s ! i) w = Inr (u1, e1, w1)" "free_sta_ptks E p is w1 = Inr (u, e2, w')"
    using Cons.prems(3) by (auto simp: deref_Inr_iff arr_get_Inr_iff elim!: rbind_InrE and_thenE)
  have "keeps E w w1"
    by (rule free_sta_key_keeps [OF Cons.prems(1,2) _ f(3)]) (use f(1,2) in \<open>auto simp: slot_get.simps nth_opt_def intro!: exI [of _ "Ptk p i"]\<close>)
  then show ?case using Cons.IH [OF _ Cons.prems(2) f(4)] keeps_trans by (auto simp: keeps_def)
qed (simp add: keeps_refl)

lemma free_sta_keys_keeps:
  assumes "key_inv E w" "driver_ok E" "ieee80211_free_sta_keys E p w = Inr (u, e, w')"
  shows "keeps E w w'"
proof -
  obtain u1 e1 w1 e2 where f: "free_sta_gtks E p [0..<NUM_DEFAULT_KEYS + NUM_DEFAULT_MGMT_KEYS] w = Inr (u1, e1, w1)"
      "free_sta_ptks E p [0..<NUM_DEFAULT_KEYS] w1 = Inr (u, e2, w')"
    using assms(3) unfolding ieee80211_free_sta_keys_def by (auto elim!: and_thenE)
  have "keeps E w w1" by (rule free_sta_gtks_keeps [OF assms(1,2) f(1)])
  moreover from this have "keeps E w1 w'" using free_sta_ptks_keeps [OF _ assms(2) f(2)] by (simp add: keeps_def)
  ultimately show ?thesis by (rule keeps_trans)
qed

section \<open>The calls of the driver and of the configuration\<close>

lemma remove_key_keeps:
  assumes i: "key_inv E w" and d: "driver_ok E" and k: "keys w kp = Some k" "key_sdata k = Some sp" "on_list w sp kp"
    and f: "ieee80211_remove_key E kp w = Inr (u, e, w')"
  shows "keeps E w w'"
proof -
  let ?k = "k\<lparr>key_flags := key_flags k AND NOT KEY_FLAG_UPLOADED_TO_HARDWARE\<rparr>"
  obtain sd where sd: "sdatas w sp = Some sd" using inv_iface [OF i k(3)] .
  obtain w1 e1 where g: "ieee80211_key_free E (Some kp) False w1 = Inr (u, e1, w')"
    and w1: "w1 = w \<or> key_uploaded k \<and> \<not> no_tail_flags k \<and> w1 = put_key kp ?k w \<or>
      key_uploaded k \<and> no_tail_flags k \<and> increment_tailroom_need_count sp (put_key kp ?k w) = Inr w1"
    using f k(1,2) by (auto simp: ieee80211_remove_key_def key_iface_def Let_def quiet_Inr_iff simp del: and_then_Inr elim!: rbind_InrE and_thenE split: if_splits)
  have v: "vlans_ok (put_key kp ?k w)" "sdatas (put_key kp ?k w) sp = Some sd" "tail_group (put_key kp ?k w) sp = tail_group w sp"
    using i sd calm_vlans_ok [OF put_key_calm [OF k(1)], of ?k] by (simp_all add: key_inv_def put_key_def tail_group_def)
  have "steady E w w1" using w1
  proof (elim disjE conjE)
    assume "key_uploaded k" "no_tail_flags k" "increment_tailroom_need_count sp (put_key kp ?k w) = Inr w1"
    moreover from this have "w1 = bump_at (tail_group w sp) 1 (put_key kp ?k w)" using increment_ok [OF v(1,2)] v(3) by simp
    ultimately show ?thesis using put_key_bump_steady [OF i k, of ?k 1] by (simp add: needs_room_def)
  next
    assume "\<not> no_tail_flags k" "w1 = put_key kp ?k w"
    then show ?thesis using put_key_steady [OF i k, of ?k] by (simp add: needs_room_def)
  qed (simp add: steady_refl [OF i])
  then have i1: "key_inv E w1" "keeps E w w1" and c: "shaped w w1" by (simp_all add: steady_def keeps_def calm_def)
  obtain k1 where k1: "keys w1 kp = Some k1" "tweak k k1" using shaped_key [OF c k(1)] .
  have "keeps E w1 w'" by (rule key_free_keeps(1) [OF i1(1) d k1(1) _ _ g]) (use k(2,3) k1(2) shaped_on_list [OF c] in \<open>auto simp: tweak_def\<close>)
  then show ?thesis using keeps_trans i1(2) by blast
qed

lemma default_filed:
  assumes "key_inv E w" "default_value w sp idx = Some kp" "default_of sp sl"
  shows "filed w sl kp"
proof -
  have s: "slot_get w (Iface sp (nat idx)) = Some kp" using assms(2) by (simp add: default_value_def split: if_splits)
  obtain k so where k: "keys w kp = Some k" "slot_fits (Iface sp (nat idx)) k" "key_sdata k = Some so" "on_list w so kp" by (rule slot_listed [OF assms(1) s])
  then have "slot_fits sl k" using assms(3) by (auto simp: default_of_def)
  then show ?thesis using k by (auto simp: filed_def)
qed

lemma set_default_keeps:
  assumes i: "key_inv E w" and f: "set_default_key_gen sp idx uni multi w = Inr (u, e, w')"
  shows "keeps E w w'"
proof -
  note s = set_default_ok [OF f]
  have "key_inv E w'"
    by (rule shaped_inv [OF reslot_shaped [OF s(1)] i])
      (use s default_filed [OF i] in \<open>auto simp: reslot_def default_of_def split: if_splits\<close>)
  then show ?thesis using reslot_excess [OF s(1)] by (simp add: keeps_def)
qed

lemma set_default_mgmt_keeps:
  assumes i: "key_inv E w" and f: "set_default_mgmt_key_gen sp idx w = Inr (u, e, w')"
  shows "keeps E w w'"
proof -
  note s = set_default_mgmt_ok [OF f]
  have "key_inv E w'"
    by (rule shaped_inv [OF reslot_shaped [OF s(1)] i])
      (use s default_filed [OF i] in \<open>auto simp: reslot_def default_of_def split: if_splits\<close>)
  then show ?thesis using reslot_excess [OF s(1)] by (simp add: keeps_def)
qed

lemma fresh_unlisted: "key_inv E w \<Longrightarrow> keys w kp = None \<Longrightarrow> \<not> on_list w x kp"
  by (fastforce simp: key_inv_def lists_ok_def on_list_def)

lemma alloc_fields:
  assumes "ieee80211_key_alloc mem_ok tfm cipher idx key_data seq_len seq cs = Inr (Inr k)"
  shows "\<not> key_uploaded k" "conf_flags k = 0" "conf_keyidx k = of_int idx" "0 \<le> idx" "idx < 6" "conf_cipher k = cipher" "conf_key k = key_data" "conf_tx_pn k = 0"
    "key_sdata k = None"
  using assms unfolding ieee80211_key_alloc_def key_setup_def set_rx_pns_def set_bip_pn_def set_tkip_seq_def
  by (auto simp: zero_key_def key_uploaded_def Let_def elim!: rbind_InrE split: if_splits option.splits)

text \<open>A key is allocated at an unused place and linked.\<close>

lemma link_new_keeps:
  assumes i: "key_inv E w" and d: "driver_ok E" and n: "keys w kp = None" and k: "\<not> key_uploaded k"
    and f: "ieee80211_key_link E kp sp sta (put_key kp k w) = Inr (ret, e, w')"
  shows "keeps E w w'"
proof -
  have u: "\<not> on_list w x kp" for x by (rule fresh_unlisted [OF i n])
  note a = free_unlisted_inv [OF i u, where k = "Some k"]
  have p: "put_key kp k w = w\<lparr>keys := (keys w)(kp := Some k)\<rparr>" by (simp add: put_key_def)
  have "keeps E w (put_key kp k w)" using a by (simp add: p keeps_def)
  moreover have "keeps E (put_key kp k w) w'"
    by (rule key_link_keeps [OF _ d _ k _ f]) (use a u in \<open>simp_all add: p\<close>)
  ultimately show ?thesis by (rule keeps_trans)
qed

lemma set_tx_key_put:
  assumes f: "set_tx_key_gen E kp force w = Inr (ret, e, w')"
  obtains p s s' where "stas w p = Some s" "ptk s' = ptk s" "gtk s' = gtk s" "w' = put_sta p s' w" "ret = 0" "e = [Check_Fast_Xmit p]"
proof -
  obtain k p s where k: "keys w kp = Some k" "key_sta k = Some p" "stas w p = Some s"
    using f by (auto simp: set_tx_key_gen_def deref_Inr_iff elim!: rbind_InrE split: option.splits)
  let ?s = "s\<lparr>sta_uses_encryption := True, ptk_idx := unat (conf_keyidx k)\<rparr>"
  let ?s' = "if force \<or> \<not> ampdu_keyborder_support E then clear_sta_flag WLAN_STA_BLOCK_BA ?s else ?s"
  have "w' = put_sta p ?s' w" "ret = 0" "e = [Check_Fast_Xmit p]" using f k by (auto simp: set_tx_key_gen_def Let_def)
  moreover have "ptk ?s' = ptk s" "gtk ?s' = gtk s" by (simp_all add: clear_sta_flag_def)
  ultimately show thesis using that k(3) by blast
qed

lemma set_tx_cases:
  assumes "ieee80211_set_tx E sp a idx w = Inr (ret, e, w')"
  obtains "w' = w" "e = []" "ret \<in> {0, - EINVAL}" | kp where "set_tx_key_gen E kp False w = Inr (ret, e, w')"
  using assms by (auto simp: ieee80211_set_tx_def ieee80211_set_tx_key_def elim!: rbind_InrE split: if_splits option.splits)

lemma set_tx_keeps:
  assumes i: "key_inv E w" and f: "ieee80211_set_tx E sp a idx w = Inr (ret, e, w')"
  shows "keeps E w w'"
proof (cases rule: set_tx_cases [OF f])
  case (2 kp)
  obtain p s s' where "stas w p = Some s" "ptk s' = ptk s" "gtk s' = gtk s" "w' = put_sta p s' w" by (rule set_tx_key_put [OF 2])
  then show ?thesis using steady_keeps [OF put_sta_steady(1) [OF i]] by simp
qed (simp add: keeps_refl [OF i])

lemma add_key_keeps:
  assumes i: "key_inv E w" and d: "driver_ok E" and n: "keys w kp = None"
    and f: "ieee80211_add_key E kp mem_ok tfm fips sp idx pw mac_addr params w = Inr (ret, e, w')"
  shows "keeps E w w'"
proof -
  consider "w' = w" | a where "ieee80211_set_tx E sp a idx w = Inr (ret, e, w')"
    | sta s cs fl k sl sq where "ieee80211_key_alloc mem_ok tfm (kp_cipher params) (int idx) (kp_key params) sl sq cs = Inr (Inr k)"
        "deref_opt (stas w) sta = Inr s"
        "ieee80211_key_link E kp sp sta (put_key kp (k\<lparr>conf_flags := fl\<rparr>) (case sta of None \<Rightarrow> w | Some p \<Rightarrow> put_sta p ((the s)\<lparr>cipher_scheme := cs\<rparr>) w)) = Inr (ret, e, w')"
    using f unfolding ieee80211_add_key_def Let_def
    by (auto elim!: rbind_InrE split: if_splits sum.splits option.splits)
  then show ?thesis
  proof cases
    case 3
    let ?w = "case sta of None \<Rightarrow> w | Some p \<Rightarrow> put_sta p ((the s)\<lparr>cipher_scheme := cs\<rparr>) w"
    have k: "\<not> key_uploaded (k\<lparr>conf_flags := fl\<rparr>)" using alloc_fields(1) [OF 3(1)] by simp
    have "steady E w ?w \<and> keys ?w = keys w"
      using 3(2) steady_refl [OF i] put_sta_steady [OF i] by (cases sta) (auto simp: deref_opt_def deref_Inr_iff elim!: rbind_InrE)
    then have i1: "key_inv E ?w" "keeps E w ?w" "keys ?w kp = None" using n by (simp_all add: steady_def keeps_def)
    show ?thesis by (rule keeps_trans [OF i1(2) link_new_keeps [OF i1(1) d i1(3) k 3(3)]])
  qed (use keeps_refl [OF i] set_tx_keeps [OF i] in auto)
qed

lemma gtk_rekey_keeps:
  assumes i: "key_inv E w" and d: "driver_ok E" and n: "keys w kp = None"
    and f: "ieee80211_gtk_rekey_add E kp mem_ok tfm sp cipher idx key_data w = Inr (ret, e, w')"
  shows "keeps E w w'"
proof -
  consider "w' = w" | k fl err e1 where "ieee80211_key_alloc mem_ok tfm cipher idx key_data 0 None None = Inr (Inr k)"
      "ieee80211_key_link E kp sp None (put_key kp (k\<lparr>conf_flags := fl\<rparr>) w) = Inr (err, e1, w')"
  proof -
    assume a: "w' = w \<Longrightarrow> thesis" "\<And>k fl err e1. ieee80211_key_alloc mem_ok tfm cipher idx key_data 0 None None = Inr (Inr k) \<Longrightarrow>
      ieee80211_key_link E kp sp None (put_key kp (k\<lparr>conf_flags := fl\<rparr>) w) = Inr (err, e1, w') \<Longrightarrow> thesis"
    obtain sd where sd: "sdatas w sp = Some sd" using f by (auto simp: ieee80211_gtk_rekey_add_def deref_Inr_iff elim!: rbind_InrE)
    show thesis
    proof (cases "w' = w")
      case False
      then obtain k err e1 where "ieee80211_key_alloc mem_ok tfm cipher idx key_data 0 None None = Inr (Inr k)"
          "ieee80211_key_link E kp sp None (put_key kp (k\<lparr>conf_flags := (if mgd_mfp sd then conf_flags k OR IEEE80211_KEY_FLAG_RX_MGMT else conf_flags k)\<rparr>) w) =
            Inr (err, e1, w')"
        using f sd by (auto simp: ieee80211_gtk_rekey_add_def Let_def elim!: rbind_InrE and_thenE split: if_splits sum.splits)
      then show thesis by (rule a(2))
    qed (rule a(1))
  qed
  then show ?thesis
  proof cases
    case 2
    then show ?thesis using link_new_keeps [OF i d n _ 2(2)] alloc_fields(1) [OF 2(1)] by simp
  qed (simp add: keeps_refl [OF i])
qed

lemma del_key_keeps:
  assumes i: "key_inv E w" and d: "driver_ok E" and f: "ieee80211_del_key E sp idx pw mac_addr w = Inr (ret, e, w')"
  shows "keeps E w w'"
proof -
  consider "w' = w" | sl kp delay e1 u where "slot_get w sl = Some kp" "ieee80211_key_free E (Some kp) delay w = Inr (u, e1, w')"
  proof (cases "w' = w")
    case False
    obtain sd kp where sd: "sdatas w sp = Some sd" and k: "(case mac_addr of
              None \<Rightarrow> arr_get (sdata_keys sd) idx
            | Some a \<Rightarrow>
                rbind (sta_info_get_bss w sp a) (\<lambda>sta.
                case sta of
                  None \<Rightarrow> Inr None
                | Some p \<Rightarrow> rbind (deref (stas w) p) (\<lambda>s. if pw then arr_get (ptk s) idx else arr_get (gtk s) idx))) = Inr kp"
        "(if kp = None then Inr (- ENOENT, [], w) else and_then (ieee80211_key_free E kp (vif_type sd = NL80211_IFTYPE_STATION) w) (\<lambda>_ w. Inr (0, [], w))) = Inr (ret, e, w')"
      using f by (auto simp: ieee80211_del_key_def deref_Inr_iff simp del: and_then_Inr elim!: rbind_InrE)
    then obtain q u e1 where q: "kp = Some q" "ieee80211_key_free E (Some q) (vif_type sd = NL80211_IFTYPE_STATION) w = Inr (u, e1, w')"
      using False by (auto elim!: and_thenE split: if_splits)
    have "\<exists>sl. slot_get w sl = Some q"
    proof (cases mac_addr)
      case None
      then show ?thesis using k(1) q(1) sd by (intro exI [of _ "Iface sp idx"]) (auto simp: slot_get.simps nth_opt_def arr_get_Inr_iff)
    next
      case (Some a)
      then obtain p s where p: "stas w p = Some s" "(if pw then arr_get (ptk s) idx else arr_get (gtk s) idx) = Inr (Some q)"
        using k(1) q(1) by (auto simp: deref_Inr_iff elim!: rbind_InrE split: option.splits)
      then show ?thesis
        by (intro exI [of _ "if pw then Ptk p idx else Gtk p idx"]) (auto simp: slot_get.simps nth_opt_def arr_get_Inr_iff split: if_splits)
    qed
    then show thesis using that(2) q(2) by blast
  qed (rule that(1))
  then show ?thesis
  proof cases
    case 2
    obtain k so where "keys w kp = Some k" "key_sdata k = Some so" "on_list w so kp" by (rule slot_listed [OF i 2(1)])
    then show ?thesis using key_free_keeps(1) [OF i d _ _ _ 2(2)] by blast
  qed (simp add: keeps_refl [OF i])
qed

section \<open>Runs\<close>

text \<open>
  One call into key management, by the configuration (\<open>add_key\<close>, \<open>del_key\<close>, the default keys), on the removal of an interface or a station, by
  the driver (removal of an installed key, a group key from the firmware) or by the work item that does the decrements put off. New keys are
  allocated at unused places.
\<close>

inductive key_call :: "key_env \<Rightarrow> world \<Rightarrow> world \<Rightarrow> bool" for E where
  call_add: "keys w kp = None \<Longrightarrow> ieee80211_add_key E kp mem_ok tfm fips sp idx pw mac_addr params w = Inr (ret, e, w') \<Longrightarrow> key_call E w w'"
| call_del: "ieee80211_del_key E sp idx pw mac_addr w = Inr (ret, e, w') \<Longrightarrow> key_call E w w'"
| call_default: "ieee80211_config_default_key sp idx uni multi w = Inr (ret, e, w') \<Longrightarrow> key_call E w w'"
| call_default_mgmt: "ieee80211_config_default_mgmt_key sp idx w = Inr (ret, e, w') \<Longrightarrow> key_call E w w'"
| call_free_keys: "ieee80211_free_keys E sp w = Inr (u, e, w') \<Longrightarrow> key_call E w w'"
| call_free_sta_keys: "ieee80211_free_sta_keys E p w = Inr (u, e, w') \<Longrightarrow> key_call E w w'"
| call_remove: "listed_key w kp k sp \<Longrightarrow> ieee80211_remove_key E kp w = Inr (u, e, w') \<Longrightarrow> key_call E w w'"
| call_gtk_rekey: "keys w kp = None \<Longrightarrow> ieee80211_gtk_rekey_add E kp mem_ok tfm sp cipher i key_data w = Inr (r, e, w') \<Longrightarrow> key_call E w w'"
| call_delayed: "ieee80211_delayed_tailroom_dec sp w = Inr w' \<Longrightarrow> key_call E w w'"

lemma key_call_keeps:
  assumes "key_call E w w'" and i: "key_inv E w" and d: "driver_ok E"
  shows "keeps E w w'"
  using assms(1)
proof cases
  case call_add
  then show ?thesis by (rule add_key_keeps [OF i d])
next
  case call_del
  then show ?thesis by (rule del_key_keeps [OF i d])
next
  case (call_default sp idx uni multi ret e)
  then obtain u e1 where "set_default_key_gen sp (int idx) uni multi w = Inr (u, e1, w')"
    by (auto simp: ieee80211_config_default_key_def ieee80211_set_default_key_def elim!: and_thenE)
  then show ?thesis by (rule set_default_keeps [OF i])
next
  case (call_default_mgmt sp idx ret e)
  then obtain u e1 where "set_default_mgmt_key_gen sp (int idx) w = Inr (u, e1, w')"
    by (auto simp: ieee80211_config_default_mgmt_key_def ieee80211_set_default_mgmt_key_def elim!: and_thenE)
  then show ?thesis by (rule set_default_mgmt_keeps [OF i])
next
  case call_free_keys
  then show ?thesis by (rule free_keys_keeps(1) [OF i d])
next
  case call_free_sta_keys
  then show ?thesis by (rule free_sta_keys_keeps [OF i d])
next
  case (call_remove kp k sp u e)
  then have l: "keys w kp = Some k" "key_sdata k = Some sp" "on_list w sp kp" by (simp_all add: listed_key_def)
  show ?thesis by (rule remove_key_keeps [OF i d l call_remove(2)])
next
  case call_gtk_rekey
  then show ?thesis by (rule gtk_rekey_keeps [OF i d])
next
  case call_delayed
  then show ?thesis by (rule delayed_dec_keeps [OF i])
qed

text \<open>Any number of calls; the answers and the flags of the hardware may change between them, the driver stays the same.\<close>

inductive key_run :: "bool \<Rightarrow> world \<Rightarrow> world \<Rightarrow> bool" for b where
  run_none: "key_run b w w"
| run_call: "key_run b w w1 \<Longrightarrow> has_set_key E = b \<Longrightarrow> driver_ok E \<Longrightarrow> key_call E w1 w2 \<Longrightarrow> key_run b w w2"

text \<open>Interfaces and stations before the first key.\<close>

definition no_keys :: "world \<Rightarrow> bool" where
  "no_keys w \<longleftrightarrow> vlans_ok w \<and> (\<forall>kp. keys w kp = None) \<and> (\<forall>sl. slot_get w sl = None) \<and>
     (\<forall>sp sd. sdatas w sp = Some sd \<longrightarrow> key_list sd = [] \<and> crypto_tx_tailroom_needed_cnt sd = 0 \<and> crypto_tx_tailroom_pending_dec sd = 0)"

lemma no_keys_inv:
  assumes "no_keys w"
  shows "key_inv E w" "tail_excess w x = 0"
proof -
  show "key_inv E w" using assms by (simp add: no_keys_def key_inv_def lists_ok_def)
  have "master_count w sd = 0" for sd using assms by (simp add: no_keys_def master_count_def split: option.split)
  then show "tail_excess w x = 0" using assms by (auto simp: no_keys_def tail_excess_def own_keys_def split: option.split)
qed

lemma key_inv_driver: "has_set_key E = has_set_key F \<Longrightarrow> key_inv E w = key_inv F w"
  by (simp add: key_inv_def lists_ok_def)

lemma key_run_inv:
  assumes "key_run b w w'" "no_keys w"
  shows "(\<forall>E. has_set_key E = b \<longrightarrow> key_inv E w') \<and> (\<forall>x. tail_excess w' x = 0)"
  using assms
proof (induction rule: key_run.induct)
  case (run_call w w1 E w2)
  then have k: "keeps E w1 w2" using key_call_keeps by blast
  have "key_inv F w2" if "has_set_key F = b" for F using key_inv_driver [of F E w2] that run_call.hyps(2) k by (simp add: keeps_def)
  then show ?case using run_call k by (simp add: keeps_def)
qed (simp add: no_keys_inv)

subsection \<open>Witnesses\<close>

definition bare_world :: "nl80211_iftype \<Rightarrow> world" where
  "bare_world ty = (let w = sample_world ty None 16 in
     w\<lparr>keys := (\<lambda>_. None), sdatas := [2 \<mapsto> (the (sdatas w 2))\<lparr>crypto_tx_tailroom_needed_cnt := 0\<rparr>]\<rparr>)"

lemma bare_no_keys: "no_keys (bare_world ty)"
proof -
  have "slot_get (bare_world ty) sl = None" for sl
    by (cases sl) (auto simp: slot_get.simps bare_world_def sample_world_def Let_def nth_opt_def nth_Cons split: nat.splits)
  moreover have "vlans_ok (bare_world ty)"
    by (auto simp: vlans_ok_def bare_world_def sample_world_def Let_def split: if_splits)
  ultimately show ?thesis by (auto simp: no_keys_def bare_world_def sample_world_def Let_def split: if_splits)
qed

text \<open>Hardware that takes every key and needs no room, and the parameters of a 16-byte CCMP key.\<close>

definition key_hw :: key_env where
  "key_hw = \<lparr>has_set_key = True, hw_set_key = (\<lambda>_. (0, 0)), supports_per_sta_gtk = True, sw_crypto_control = False, ampdu_keyborder_support = False,
     ampdu_aggregation = True, can_replace_ptk0 = True, ext_key_id = False, wowlan = False, cipher_schemes = []\<rparr>"

definition ccmp_params :: "u8 \<Rightarrow> key_params" where
  "ccmp_params b = \<lparr>kp_cipher = SUITE 4, kp_key = replicate 16 b, kp_seq_len = 0, kp_seq = None, kp_mode = NL80211_KEY_RX_TX\<rparr>"

lemma key_hw_ok: "driver_ok key_hw" "has_set_key key_hw"
  by (simp_all add: driver_ok_def key_hw_def)

end
