(* ===== verification/Key_Install.thy ===== *)
theory Key_Install
  imports Key_Safety
begin

text \<open>
  What key management promises: no dangling key pointers and exact counts over any run, no reset of counters when a key is installed again, the new key
  in place after an installation; and what goes wrong on its error paths.
\<close>

section \<open>Safety over any run\<close>

text \<open>
  C14: No key pointer dangles. Over any run of key-management calls that starts without keys, every key pointer of a station (pairwise or group key), of an
  interface (its keys and the three defaults) refers to a key that is allocated, belongs to that station or interface, has that index and
  kind, and is on the list of its interface. So neither the transmit nor the receive path can use a freed key.
\<close>

theorem key_pointers_never_dangle:
  assumes "no_keys w0" "key_run b w0 w" "slot_get w sl = Some kp"
  shows "\<exists>k sp. keys w kp = Some k \<and> slot_fits sl k \<and> key_sdata k = Some sp \<and> on_list w sp kp"
proof -
  have "key_inv (key_hw\<lparr>has_set_key := b\<rparr>) w" using key_run_inv [OF assms(2,1)] by simp
  from slot_listed [OF this assms(3)] show ?thesis by blast
qed

text \<open>
  C16: The tailroom count is exact. Over any such run, the count by which the transmit path decides whether a frame needs room behind it is, for every
  interface, the number of its keys that the hardware does not have or for which it asks for room, plus the decrements that are put off, plus
  the count of the access point if the interface is a VLAN of one.
\<close>

theorem tailroom_count_exact:
  assumes "no_keys w0" "key_run b w0 w" "sdatas w sp = Some sd"
  shows "crypto_tx_tailroom_needed_cnt sd = own_keys w sd + crypto_tx_tailroom_pending_dec sd + master_count w sd"
proof -
  have "tail_excess w sp = 0" using key_run_inv [OF assms(2,1)] by simp
  then show ?thesis using assms(3) by (simp add: tail_excess_def)
qed

definition outcome :: "('a \<Rightarrow> world \<Rightarrow> bool) \<Rightarrow> 'a key_result \<Rightarrow> bool" where
  "outcome P r = (case r of Inl _ \<Rightarrow> False | Inr (a, e, w) \<Rightarrow> P a w)"

lemma outcomeE:
  assumes "outcome P r"
  obtains a e w where "r = Inr (a, e, w)" "P a w"
  using assms by (auto simp: outcome_def split: sum.splits prod.splits)

text \<open>A pairwise key is installed.\<close>

definition install :: "key_ptr \<Rightarrow> u8 \<Rightarrow> world \<Rightarrow> int key_result" where
  "install kp b w = ieee80211_add_key key_hw kp True 0 False 2 0 True (Some sample_base) (ccmp_params b) w"

lemma sample_run:
  "\<exists>w. key_run True (bare_world NL80211_IFTYPE_AP) w \<and> slot_get w (Ptk 5 0) = Some 7 \<and>
     (\<exists>sd. sdatas w 2 = Some sd \<and> crypto_tx_tailroom_needed_cnt sd = 0)"
proof -
  have "outcome (\<lambda>_ w. slot_get w (Ptk 5 0) = Some 7 \<and> map_option crypto_tx_tailroom_needed_cnt (sdatas w 2) = Some 0)
      (install 7 1 (bare_world NL80211_IFTYPE_AP))" by code_simp
  then obtain a e w where w: "install 7 1 (bare_world NL80211_IFTYPE_AP) = Inr (a, e, w)" "slot_get w (Ptk 5 0) = Some 7"
      "map_option crypto_tx_tailroom_needed_cnt (sdatas w 2) = Some 0"
    by (elim outcomeE conjE) blast
  have c: "key_call key_hw (bare_world NL80211_IFTYPE_AP) w" using w(1) unfolding install_def by (rule call_add [rotated]) (simp add: bare_world_def Let_def)
  have "key_run True (bare_world NL80211_IFTYPE_AP) w" by (rule run_call [OF run_none _ key_hw_ok(1) c]) (simp add: key_hw_ok(2))
  then show ?thesis using w(2,3) by auto
qed

theorem key_pointers_never_dangle_witness:
  "\<exists>w k sp. key_run True (bare_world NL80211_IFTYPE_AP) w \<and> slot_get w (Ptk 5 0) = Some 7 \<and> keys w 7 = Some k \<and> slot_fits (Ptk 5 0) k \<and>
     key_sdata k = Some sp \<and> on_list w sp 7"
  using sample_run key_pointers_never_dangle [OF bare_no_keys, of True NL80211_IFTYPE_AP _ "Ptk 5 0" 7] by blast

theorem tailroom_count_exact_witness:
  "\<exists>w sd. key_run True (bare_world NL80211_IFTYPE_AP) w \<and> sdatas w 2 = Some sd \<and>
     crypto_tx_tailroom_needed_cnt sd = own_keys w sd + crypto_tx_tailroom_pending_dec sd + master_count w sd"
  using sample_run tailroom_count_exact [OF bare_no_keys, of True NL80211_IFTYPE_AP _ 2] by blast

section \<open>Installing again\<close>

text \<open>The slot that a call of the configuration is about.\<close>

definition addressed :: "world \<Rightarrow> sdata_ptr \<Rightarrow> nat \<Rightarrow> bool \<Rightarrow> mac option \<Rightarrow> key_slot \<Rightarrow> bool" where
  "addressed w sp idx pw mac_addr sl \<longleftrightarrow>
     (case mac_addr of None \<Rightarrow> sl = Iface sp idx | Some a \<Rightarrow> (\<exists>p. sta_info_get_bss w sp a = Inr (Some p) \<and> sl = slot_at sp (Some p) pw idx))"

lemma new_flags_pairwise: "key_pairwise (k\<lparr>conf_flags := new_key_flags pw mode sd s\<rparr>) = pw"
  by (auto simp: key_pairwise_def new_key_flags_def)

lemma add_key_cases:
  assumes f: "ieee80211_add_key E kp mem_ok tfm fips sp idx pw mac_addr params w = Inr (ret, e, w')"
  obtains (unchanged) "w' = w" "e = []" "ret = - EOPNOTSUPP \<longrightarrow> tfm < 0"
  | (set_tx) a where "ieee80211_set_tx E sp a idx w = Inr (ret, e, w')"
  | (link) k k' sta w1 seq_len seq cs where
      "ieee80211_key_alloc mem_ok tfm (kp_cipher params) (int idx) (kp_key params) seq_len seq cs = Inr (Inr k)"
      "\<exists>fl. k' = k\<lparr>conf_flags := fl\<rparr>" "key_pairwise k' = pw" "\<And>sl. addressed w sp idx pw mac_addr sl \<Longrightarrow> sl = slot_at sp sta pw idx"
      "w1 = w \<or> (\<exists>p s. stas w p = Some s \<and> w1 = put_sta p (s\<lparr>cipher_scheme := cs\<rparr>) w)" "keys w1 = keys w" "sdatas w1 = sdatas w"
      "\<And>sl. slot_get w1 sl = slot_get w sl"
      "ieee80211_key_link E kp sp sta (put_key kp k' w1) = Inr (ret, e, w')"
proof -
  let ?cs = "\<lambda>sd. if kp_cipher params \<in> sw_ciphers then None else ieee80211_cs_get E (kp_cipher params) (vif_type sd)"
  let ?alloc = "\<lambda>sd. ieee80211_key_alloc mem_ok tfm (kp_cipher params) (int idx) (kp_key params) (kp_seq_len params) (kp_seq params) (?cs sd)"
  let ?w = "\<lambda>sd sta s. case sta of None \<Rightarrow> w | Some p \<Rightarrow> put_sta p ((the s)\<lparr>cipher_scheme := ?cs sd\<rparr>) w"
  obtain sd where sd: "sdatas w sp = Some sd" using f by (auto simp: ieee80211_add_key_def deref_Inr_iff elim!: rbind_InrE)
  consider "w' = w" "e = []" "ret \<in> {- ENETDOWN, - EINVAL, - ENOENT}" | "w' = w" "e = []" "?alloc sd = Inr (Inl ret)"
    | a where "ieee80211_set_tx E sp a idx w = Inr (ret, e, w')"
    | k sta s where "?alloc sd = Inr (Inr k)" "(case mac_addr of None \<Rightarrow> Inr None | Some a \<Rightarrow> sta_info_get_bss w sp a) = Inr sta" "deref_opt (stas w) sta = Inr s"
        "mac_addr \<noteq> None \<longrightarrow> s \<noteq> None"
        "ieee80211_key_link E kp sp sta (put_key kp (k\<lparr>conf_flags := new_key_flags pw (kp_mode params) sd s\<rparr>) (?w sd sta s)) = Inr (ret, e, w')"
    using f sd unfolding ieee80211_add_key_def Let_def by (auto elim!: rbind_InrE split: if_splits sum.splits option.splits)
  then show thesis
  proof cases
    case 1
    then have "ret = - EOPNOTSUPP \<longrightarrow> tfm < 0" by auto
    then show thesis using unchanged 1(1,2) by blast
  next
    case 2
    then have "ret = - EOPNOTSUPP \<longrightarrow> tfm < 0"
      unfolding ieee80211_key_alloc_def key_setup_def set_rx_pns_def set_bip_pn_def set_tkip_seq_def
      by (auto simp: Let_def elim!: rbind_InrE split: if_splits option.splits)
    then show thesis using unchanged 2 by blast
  next
    case 3
    then show thesis by (rule set_tx)
  next
    case (4 k sta s)
    have p: "?w sd sta s = w \<or> (\<exists>p s'. stas w p = Some s' \<and> ?w sd sta s = put_sta p (s'\<lparr>cipher_scheme := ?cs sd\<rparr>) w)"
    proof (cases sta)
      case (Some q)
      then obtain s' where "stas w q = Some s'" "s = Some s'" using 4(3) by (auto simp: deref_opt_def deref_Inr_iff elim!: rbind_InrE)
      then show ?thesis using Some by (intro disjI2 exI [of _ q] exI [of _ s']) simp
    qed simp
    have "sl = slot_at sp sta pw idx" if "addressed w sp idx pw mac_addr sl" for sl
      using that 4(2) by (auto simp: addressed_def slot_at_def split: option.splits)
    moreover have "slot_get (?w sd sta s) sl = slot_get w sl" for sl
      using p by (elim disjE exE conjE) (cases sl; auto simp: slot_get.simps put_sta_def)+
    moreover have "keys (?w sd sta s) = keys w" "sdatas (?w sd sta s) = sdatas w" by (simp_all add: put_sta_def split: option.split)
    ultimately show thesis using link [OF 4(1) _ new_flags_pairwise _ p _ _ _ 4(5)] by blast
  qed
qed

lemma set_tx_slots:
  assumes "ieee80211_set_tx E sp a idx w = Inr (ret, e, w')"
  shows "keys w' = keys w \<and> (\<forall>sl. slot_get w' sl = slot_get w sl) \<and> ret \<in> {0, - EINVAL} \<and> set e \<subseteq> range Check_Fast_Xmit"
proof (cases rule: set_tx_cases [OF assms])
  case (2 kp)
  obtain p s s' where p: "stas w p = Some s" "ptk s' = ptk s" "gtk s' = gtk s" "w' = put_sta p s' w" "ret = 0" "e = [Check_Fast_Xmit p]"
    by (rule set_tx_key_put [OF 2])
  have "slot_get w' sl = slot_get w sl" for sl using p by (cases sl) (auto simp: slot_get.simps put_sta_def)
  then show ?thesis using p(4-6) by (simp add: put_sta_def)
qed simp

text \<open>
  C15: Installing a key again does not reset its counters. When the configuration installs, for a station or an interface, a key whose bytes are those of
  the key already in place - whatever sequence counter it passes along, and whatever the outcome - the installed key stays in place with all its
  fields, its transmit packet number and its receive counters included, and the hardware is not given any key. So a replayed handshake message makes
  neither end use a packet number twice under the same key, nor accept a frame twice.
\<close>

theorem reinstalled_key_keeps_counters:
  assumes "addressed w sp idx pw mac_addr sl" "slot_get w sl = Some op" "keys w op = Some ko" "kp_key params = conf_key ko" "keys w kp = None"
    and f: "ieee80211_add_key E kp mem_ok tfm fips sp idx pw mac_addr params w = Inr (ret, e, w')"
  shows "slot_get w' sl = Some op \<and> keys w' op = Some ko \<and> (\<forall>q. Hw_Set_Key q \<notin> set e \<and> Hw_Disable_Key q \<notin> set e)"
proof (cases rule: add_key_cases [OF f])
  case 1
  then show ?thesis using assms by simp
next
  case (2 a)
  then show ?thesis using set_tx_slots [OF 2] assms(2,3) by auto
next
  case (3 k k' sta w1 seq_len seq cs)
  let ?w = "put_key kp k' w1"
  note al = alloc_fields [OF 3(1)]
  have k': "keys ?w kp = Some k'" "conf_key k' = conf_key ko" "conf_keyidx k' = of_int (int idx)" "op \<noteq> kp" "keys ?w op = Some ko"
    using 3(2,6) al assms(3-5) by (auto simp: put_key_def)
  have ix: "unat (conf_keyidx k') = idx" using al(5) k'(3) by (simp add: unat_of_nat)
  have sl: "sl = link_slot k' sp sta" using 3(4) [OF assms(1)] 3(3) ix by (simp add: link_slot_def)
  have sg: "slot_get ?w x = slot_get w x" for x using 3(8) [of x] by (cases x) (auto simp: slot_get.simps put_key_def)
  show ?thesis
  proof (cases rule: link_cases [OF k'(1) 3(9)])
    case 1
    then show ?thesis using sg assms(2) k'(5) by simp
  next
    case 2
    have "slot_get w' x = slot_get ?w x" for x using 2(7) by (cases x) (auto simp: slot_get.simps)
    then show ?thesis using 2(6,7) sg assms(2) k'(4,5) by simp
  next
    case c: (3 sd kq w2 e1 w3 e2 u)
    have "slot_get ?w (link_slot k' sp sta) = Some op" using sg sl assms(2) by simp
    then have "kq = Some ko" using c(2) k'(5) by (auto simp: deref_opt_def)
    then have "ieee80211_key_identical sd kq k'" using k'(2) by (simp add: ieee80211_key_identical_def)
    then show ?thesis using c(3) by simp
  qed
qed

theorem reinstalled_key_keeps_counters_witness:
  "\<exists>e w'. ieee80211_add_key key_hw 7 True 0 False 2 0 True (Some sample_base) (ccmp_params 0x5a) (sample_world NL80211_IFTYPE_AP (Some 3) 16) = Inr (0, e, w') \<and>
     slot_get w' (Ptk 5 0) = Some 3 \<and> keys w' 3 = Some (sample_key 16)"
proof -
  let ?w = "sample_world NL80211_IFTYPE_AP (Some 3) 16"
  have "outcome (\<lambda>r w. r = 0) (ieee80211_add_key key_hw 7 True 0 False 2 0 True (Some sample_base) (ccmp_params 0x5a) ?w)" by code_simp
  then obtain e w' where f: "ieee80211_add_key key_hw 7 True 0 False 2 0 True (Some sample_base) (ccmp_params 0x5a) ?w = Inr (0, e, w')"
    by (auto elim: outcomeE)
  have a: "addressed ?w 2 0 True (Some sample_base) (Ptk 5 0)"
    by (simp add: addressed_def slot_at_def sample_world_def sta_info_get_bss_def)
  have s: "slot_get ?w (Ptk 5 0) = Some 3" "keys ?w 3 = Some (sample_key 16)" "kp_key (ccmp_params 0x5a) = conf_key (sample_key 16)" "keys ?w 7 = None"
    by (simp_all add: slot_get.simps nth_opt_def sample_world_def ccmp_params_def sample_key_def)
  show ?thesis using f reinstalled_key_keeps_counters [OF a s f] by blast
qed

section \<open>Installing a new key\<close>

text \<open>The world after the new key has been told where it belongs.\<close>

lemma link_prepared:
  assumes i: "key_inv E w" and k: "keys w kp = Some k" "\<not> key_uploaded k" and u: "\<And>x. \<not> on_list w x kp"
    and k': "k' = k\<lparr>key_sdata := Some sp, key_sta := sta\<rparr>" and w': "w' = put_key kp k' w"
  shows "key_inv E w'" "keys w' kp = Some k'" "key_sdata k' = Some sp" "key_sta k' = sta" "\<not> key_uploaded k'" "\<not> on_list w' x kp"
    "slot_get w (link_slot k sp sta) = slot_get w' (link_slot k' sp sta)" "link_slot k' sp sta = link_slot k sp sta" "key_pairwise k' = key_pairwise k"
    "on_list w' x q = on_list w x q" "q \<noteq> kp \<Longrightarrow> keys w' q = keys w q"
proof -
  note a = free_unlisted_inv [OF i u, where k = "Some k'"]
  have p: "w' = w\<lparr>keys := (keys w)(kp := Some k')\<rparr>" by (simp add: w' put_key_def)
  show pw: "key_pairwise k' = key_pairwise k" "\<not> key_uploaded k'" using k(2) by (simp_all add: k' key_pairwise_def key_uploaded_def)
  show ls: "link_slot k' sp sta = link_slot k sp sta" by (simp add: link_slot_def pw(1)) (simp add: k')
  show "slot_get w (link_slot k sp sta) = slot_get w' (link_slot k' sp sta)" using a(3) ls by (simp add: p)
  show "key_inv E w'" "keys w' kp = Some k'" "key_sdata k' = Some sp" "key_sta k' = sta" "\<not> on_list w' x kp" "on_list w' x q = on_list w x q"
      "q \<noteq> kp \<Longrightarrow> keys w' q = keys w q"
    using a u by (simp_all add: p) (simp_all add: k')
qed

text \<open>
  C17: An installed key replaces the old one. When a key that differs from the one in its place is linked and the call returns 0, the place holds the new
  key with its bytes and counters as allocated, and the old key is freed, off its list and in no place.
\<close>

theorem installed_key_in_place:
  assumes i: "key_inv E w" and d: "driver_ok E" and k: "keys w kp = Some k" "\<not> key_uploaded k" and u: "\<forall>x. \<not> on_list w x kp"
    and f: "ieee80211_key_link E kp sp sta w = Inr (0, e, w')"
    and n: "\<forall>sd op ko. sdatas w sp = Some sd \<longrightarrow> slot_get w (link_slot k sp sta) = Some op \<longrightarrow> keys w op = Some ko \<longrightarrow> \<not> ieee80211_key_identical sd (Some ko) k"
  shows "slot_get w' (link_slot k sp sta) = Some kp \<and>
    (\<exists>k'. keys w' kp = Some k' \<and> conf_key k' = conf_key k \<and> conf_tx_pn k' = conf_tx_pn k \<and> key_rx_pn k' = key_rx_pn k) \<and>
    (\<forall>op. slot_get w (link_slot k sp sta) = Some op \<longrightarrow> keys w' op = None \<and> (\<forall>x. \<not> on_list w' x op) \<and> (\<forall>sl. slot_get w' sl \<noteq> Some op))"
proof (cases rule: link_cases [OF k(1) f])
  case (3 sd ko w1 e1 w2 e2 r)
  let ?k = "k\<lparr>key_sdata := Some sp, key_sta := sta\<rparr>"
  have u': "\<And>x. \<not> on_list w x kp" using u by simp
  note p = link_prepared [OF i k u' refl refl, where sp = sp and sta = sta]
  have f': "ieee80211_key_replace E sp sta (key_pairwise ?k) (slot_get w (link_slot k sp sta)) (Some kp) w1 = Inr (0, e1, w2)" using 3(5) p(9) by simp
  note h = install_stage [OF p(1) d p(2-6) p(7) 3(4) f']
  have s2: "slot_get w2 (link_slot k sp sta) = Some kp" using h(6) p(8) by simp
  obtain k2 where k2: "keys w2 kp = Some k2" "tweak ?k k2" using same_keys_at [OF h(3) p(2)] by blast
  then have k2': "conf_key k2 = conf_key k" "conf_tx_pn k2 = conf_tx_pn k" "key_rx_pn k2 = key_rx_pn k" by (simp_all add: tweak_def)
  show ?thesis
  proof (cases "slot_get w (link_slot k sp sta)")
    case None
    then show ?thesis using 3(6) s2 k2(1) k2' by (simp add: ieee80211_key_destroy_def)
  next
    case (Some op)
    have gd: "key_destroy_gen op (vif_type sd = NL80211_IFTYPE_STATION) w2 = Inr (r, e2, w')" using 3(6) Some by (simp add: ieee80211_key_destroy_def)
    have ne: "op \<noteq> kp" using h(4) Some by auto
    have u2: "\<not> on_list w2 x op" for x using h(5) Some ne by simp
    note z = destroy_ok [OF h(1) u2 gd]
    have "slot_get w' sl \<noteq> Some op" for sl using z(6) h(7) [OF refl Some] by simp
    then show ?thesis using z(3,4,6) u2 s2 k2(1) k2' ne Some by simp
  qed
qed (use n in auto)

text \<open>
  C37: A refused key takes the old one with it. When linking a key fails because the hardware refuses it, the new key is freed and its place is empty
  afterwards, also if a key was there before: that key stays allocated and on the list of its interface, but the station or interface has no key there.
\<close>

theorem failed_install_clears_slot:
  assumes i: "key_inv E w" and d: "driver_ok E" and k: "keys w kp = Some k" "\<not> key_uploaded k" and u: "\<forall>x. \<not> on_list w x kp"
    and f: "ieee80211_key_link E kp sp sta w = Inr (ret, e, w')" and n: "ret \<noteq> 0" "ret \<noteq> - EOPNOTSUPP"
  shows "slot_get w' (link_slot k sp sta) = None \<and> keys w' kp = None \<and>
    (\<forall>op. slot_get w (link_slot k sp sta) = Some op \<longrightarrow> (\<exists>ko x. keys w' op = Some ko \<and> on_list w' x op))"
proof (cases rule: link_cases [OF k(1) f])
  case (3 sd ko w1 e1 w2 e2 r)
  let ?k = "k\<lparr>key_sdata := Some sp, key_sta := sta\<rparr>"
  have u': "\<And>x. \<not> on_list w x kp" using u by simp
  note p = link_prepared [OF i k u' refl refl, where sp = sp and sta = sta]
  have f': "ieee80211_key_replace E sp sta (key_pairwise ?k) (slot_get w (link_slot k sp sta)) (Some kp) w1 = Inr (ret, e1, w2)" using 3(5) p(9) by simp
  note h = install_stage [OF p(1) d p(2-6) p(7) 3(4) f']
  obtain k2 where k2: "keys w2 kp = Some k2" "tweak ?k k2" using same_keys_at [OF h(3) p(2)] by blast
  have k2': "key_sdata k2 = Some sp" using k2(2) by (simp add: tweak_def)
  have l2: "on_list w2 sp kp" using h(5) by simp
  have g: "ieee80211_key_free E (Some kp) (vif_type sd = NL80211_IFTYPE_STATION) w2 = Inr (r, e2, w')" using 3(6) n(1) by simp
  note z = key_free_keeps [OF h(1) d k2(1) k2' l2 g]
  have "slot_at sp (key_sta k2) (key_pairwise k2) (unat (conf_keyidx k2)) = link_slot k sp sta" using k2(2) p(8,9) by (simp add: tweak_def link_slot_def)
  then have 1: "slot_get w' (link_slot k sp sta) = None" using z(5) by simp
  have "\<exists>ko x. keys w' op = Some ko \<and> on_list w' x op" if op: "slot_get w (link_slot k sp sta) = Some op" for op
  proof -
    obtain ko x where ko: "keys w op = Some ko" "on_list w x op" by (rule slot_listed [OF i op])
    have ne: "op \<noteq> kp" using h(4) op by auto
    then have "keys (put_key kp ?k w) op = Some ko" using p(11) ko(1) by simp
    then obtain ko2 where "keys w2 op = Some ko2" using same_keys_at [OF h(3)] by blast
    moreover have "rel_option tweak (keys w2 op) (keys w' op)" using z(4) ne by blast
    ultimately have "keys w' op \<noteq> None" by (cases "keys w' op") auto
    moreover have "on_list w2 x op" using h(5) p(10) ko(2) n(1) by simp
    then have "on_list w' x op" using z(3) ne by blast
    ultimately show ?thesis by blast
  qed
  then show ?thesis using 1 z(2) by blast
qed (use n in auto)

text \<open>A station with a pairwise key in the hardware, and a new key at 4.\<close>

definition rekey_world :: world where
  "rekey_world = (let w = bare_world NL80211_IFTYPE_AP in
     w\<lparr>keys := [3 \<mapsto> (sample_key 16)\<lparr>conf_flags := IEEE80211_KEY_FLAG_PAIRWISE, key_flags := KEY_FLAG_UPLOADED_TO_HARDWARE\<rparr>,
                4 \<mapsto> (sample_key 16)\<lparr>conf_flags := IEEE80211_KEY_FLAG_PAIRWISE, conf_key := replicate 16 1, conf_tx_pn := 0, key_sdata := None, key_sta := None\<rparr>],
       stas := [5 \<mapsto> (the (stas w 5))\<lparr>ptk := [Some 3, None, None, None]\<rparr>],
       sdatas := [2 \<mapsto> (the (sdatas w 2))\<lparr>key_list := [3]\<rparr>]\<rparr>)"

lemmas rekey_world_defs = rekey_world_def bare_world_def sample_world_def sample_key_def Let_def

lemma rekey_world_inv: "key_inv (key_hw\<lparr>hw_set_key := g, sw_crypto_control := c\<rparr>) rekey_world"
proof -
  have "filed rekey_world sl kp" if "slot_get rekey_world sl = Some kp" for sl kp
  proof -
    have "sl = Ptk 5 0 \<and> kp = 3"
      using that by (cases sl) (auto simp: slot_get.simps rekey_world_defs nth_opt_def nth_Cons split: nat.splits if_splits)
    then show ?thesis by (auto simp: filed_def on_list_def rekey_world_defs key_pairwise_def)
  qed
  then show ?thesis
    by (auto simp: key_inv_def lists_ok_def vlans_ok_def rekey_world_defs key_hw_def split: if_splits)
qed

lemma rekey_world_new:
  obtains k where "keys rekey_world 4 = Some k" "\<not> key_uploaded k" "\<forall>x. \<not> on_list rekey_world x 4" "link_slot k 2 (Some 5) = Ptk 5 0" "conf_key k = replicate 16 1"
  by (auto simp: rekey_world_defs key_uploaded_def on_list_def link_slot_def slot_at_def key_pairwise_def split: if_splits)

lemma rekey_world_old: "slot_get rekey_world (Ptk 5 0) = Some 3"
  by (simp add: slot_get.simps rekey_world_defs nth_opt_def)

theorem installed_key_in_place_witness:
  "\<exists>e w'. ieee80211_key_link key_hw 4 2 (Some 5) rekey_world = Inr (0, e, w') \<and> slot_get w' (Ptk 5 0) = Some 4 \<and> keys w' 3 = None"
proof -
  have "outcome (\<lambda>r w. r = 0) (ieee80211_key_link key_hw 4 2 (Some 5) rekey_world)" by code_simp
  then obtain e w' where f: "ieee80211_key_link key_hw 4 2 (Some 5) rekey_world = Inr (0, e, w')" by (auto elim: outcomeE)
  obtain k where k: "keys rekey_world 4 = Some k" "\<not> key_uploaded k" "\<forall>x. \<not> on_list rekey_world x 4" "link_slot k 2 (Some 5) = Ptk 5 0" "conf_key k = replicate 16 1"
    by (rule rekey_world_new)
  have i: "key_inv key_hw rekey_world" using rekey_world_inv [where g = "hw_set_key key_hw" and c = "sw_crypto_control key_hw"] by simp
  have n: "\<forall>sd op ko. sdatas rekey_world 2 = Some sd \<longrightarrow> slot_get rekey_world (link_slot k 2 (Some 5)) = Some op \<longrightarrow> keys rekey_world op = Some ko \<longrightarrow>
      \<not> ieee80211_key_identical sd (Some ko) k"
    unfolding k(4) rekey_world_old using k(5) by (auto simp: ieee80211_key_identical_def rekey_world_defs)
  show ?thesis using f installed_key_in_place [OF i key_hw_ok(1) k(1-3) f n] k(4) rekey_world_old by simp
qed

theorem failed_install_clears_slot_witness:
  "\<exists>e w' ko. ieee80211_key_link (key_hw\<lparr>hw_set_key := (\<lambda>_. (- EINVAL, 0)), sw_crypto_control := True\<rparr>) 4 2 (Some 5) rekey_world = Inr (- EINVAL, e, w') \<and>
     slot_get w' (Ptk 5 0) = None \<and> keys w' 3 = Some ko"
proof -
  let ?E = "key_hw\<lparr>hw_set_key := (\<lambda>_. (- EINVAL, 0)), sw_crypto_control := True\<rparr>"
  have "outcome (\<lambda>r w. r = - EINVAL) (ieee80211_key_link ?E 4 2 (Some 5) rekey_world)" by code_simp
  then obtain e w' where f: "ieee80211_key_link ?E 4 2 (Some 5) rekey_world = Inr (- EINVAL, e, w')" by (auto elim: outcomeE)
  obtain k where k: "keys rekey_world 4 = Some k" "\<not> key_uploaded k" "\<forall>x. \<not> on_list rekey_world x 4" "link_slot k 2 (Some 5) = Ptk 5 0"
    by (rule rekey_world_new)
  have d: "driver_ok ?E" by (simp add: driver_ok_def)
  show ?thesis using f failed_install_clears_slot [OF rekey_world_inv d k(1-3) f] k(4) rekey_world_old by auto
qed

section \<open>Keys lost and freed too early\<close>

lemma replace_ret:
  assumes "ieee80211_key_replace E sp sta pw old new w = Inr (ret, e, w')"
  shows "ret = 0 \<or> ret = - EINVAL"
proof -
  have en: "r = 0 \<or> r = - EINVAL" if "ieee80211_key_enable_hw_accel E kp v = Inr (r, e', v')" for kp v r e' v'
    using that by (auto simp: ieee80211_key_enable_hw_accel_def key_sw_fallback_def Let_def case_prod_beta elim!: rbind_InrE split: if_splits)
  have hw: "r = 0 \<or> r = - EINVAL" if "replace_hw E old new v = Inr (r, e', v')" for old new v r e' v'
    using that by (auto simp: replace_hw_def elim!: rbind_InrE and_thenE dest!: en split: option.splits if_splits)
  show ?thesis using assms unfolding ieee80211_key_replace_def by (auto elim!: rbind_InrE and_thenE dest!: hw split: if_splits)
qed

text \<open>
  C38: A refused change of the cipher leaks the key. When the configuration installs a key and is told \<open>-EOPNOTSUPP\<close>, because the key in place has another
  cipher, the new key stays allocated, but it is on no list, in no place and belongs to no interface: nothing refers to it any more, and no call frees it.
\<close>

theorem cipher_switch_leaks_key:
  assumes i: "key_inv E w" and n: "keys w kp = None" and t: "0 \<le> tfm"
    and f: "ieee80211_add_key E kp mem_ok tfm fips sp idx pw mac_addr params w = Inr (- EOPNOTSUPP, e, w')"
  shows "\<exists>k. keys w' kp = Some k \<and> key_sdata k = None \<and> (\<forall>x. \<not> on_list w' x kp) \<and> (\<forall>sl. slot_get w' sl \<noteq> Some kp)"
proof (cases rule: add_key_cases [OF f])
  case (3 k k' sta w1 seq_len seq cs)
  have k': "keys (put_key kp k' w1) kp = Some k'" by (simp add: put_key_def)
  show ?thesis
  proof (cases rule: link_cases [OF k' 3(9)])
    case 1
    have sg: "slot_get w' x = slot_get w x" for x using 3(8) [of x] 1(5) by (cases x) (auto simp: slot_get.simps put_key_def)
    have l: "on_list w' x kp = on_list w x kp" for x using 3(7) 1(5) by (simp add: on_list_def put_key_def)
    have u: "\<not> on_list w x kp" for x by (rule fresh_unlisted [OF i n])
    have "key_sdata k' = None" using alloc_fields(9) [OF 3(1)] 3(2) by auto
    then show ?thesis using k' 1(5) sg l u unlisted_not_in_slot [OF i u] by auto
  next
    case (3 sd ko w1 e1 w2 e2 u)
    then show ?thesis using replace_ret [OF 3(5)] by simp
  qed simp
qed (use t set_tx_slots in \<open>fastforce+\<close>)

theorem cipher_switch_leaks_key_witness:
  "\<exists>e w' k. ieee80211_add_key key_hw 7 True 0 False 2 0 True (Some sample_base) ((ccmp_params 1)\<lparr>kp_cipher := SUITE 8\<rparr>) rekey_world = Inr (- EOPNOTSUPP, e, w') \<and>
     keys w' 7 = Some k \<and> (\<forall>x. \<not> on_list w' x 7) \<and> (\<forall>sl. slot_get w' sl \<noteq> Some 7)"
proof -
  let ?f = "ieee80211_add_key key_hw 7 True 0 False 2 0 True (Some sample_base) ((ccmp_params 1)\<lparr>kp_cipher := SUITE 8\<rparr>) rekey_world"
  have "outcome (\<lambda>r w. r = - EOPNOTSUPP) ?f" by code_simp
  then obtain e w' where f: "?f = Inr (- EOPNOTSUPP, e, w')" by (auto elim: outcomeE)
  have i: "key_inv key_hw rekey_world" using rekey_world_inv [where g = "hw_set_key key_hw" and c = "sw_crypto_control key_hw"] by simp
  have n: "keys rekey_world 7 = None" by (simp add: rekey_world_defs)
  show ?thesis using f cipher_switch_leaks_key [OF i n _ f] by auto
qed

text \<open>
  C39: A group key from the firmware may be freed when it is returned. When the driver reports a group key that is already installed, the new copy is freed
  and yet returned to the driver as the key that was added.
\<close>

theorem gtk_rekey_returns_freed_key:
  assumes "wowlan E" "sdatas w sp = Some sd" "vif_type sd = NL80211_IFTYPE_STATION" "0 \<le> idx" "idx < 6" "0 \<le> tfm"
    and s: "slot_get w (Iface sp (nat idx)) = Some op" "keys w op = Some ko" "keys w kp = None" "conf_cipher ko = cipher" "conf_key ko = key_data"
  shows "\<exists>w'. ieee80211_gtk_rekey_add E kp True tfm sp cipher idx key_data w = Inr (Inr kp, [], w') \<and> keys w' kp = None"
proof -
  have "\<exists>k. ieee80211_key_alloc True tfm cipher idx key_data 0 None None = Inr (Inr k)"
    using assms(4-6) by (simp add: ieee80211_key_alloc_def key_setup_def set_rx_pns_def set_bip_pn_def set_tkip_seq_def Let_def)
  then obtain k where al: "ieee80211_key_alloc True tfm cipher idx key_data 0 None None = Inr (Inr k)" by blast
  note k = alloc_fields [OF al]
  define k' where "k' = (if mgd_mfp sd then k\<lparr>conf_flags := conf_flags k OR IEEE80211_KEY_FLAG_RX_MGMT\<rparr> else k)"
  obtain n where n: "idx = int n" using assms(4) nonneg_int_cases by blast
  then have "unat (conf_keyidx k') = nat idx" using k(3) assms(5) by (simp add: k'_def unat_of_nat)
  then have k': "conf_cipher k' = cipher" "conf_key k' = key_data" "unat (conf_keyidx k') = nat idx" "\<not> key_pairwise k'"
    using k assms(5) by (simp_all add: k'_def key_pairwise_def)
  let ?w = "put_key kp k' w"
  have ne: "op \<noteq> kp" using s(2,3) by auto
  have sl: "link_slots k' sp None ?w = Inr (Some op, None)"
    using s(1) assms(2) k'(3) by (simp add: link_slots_def put_key_def slot_get.simps nth_opt_def arr_get_def split: if_splits)
  have "ieee80211_key_link E kp sp None ?w = Inr (0, [], ieee80211_key_free_unused kp ?w)"
    using sl assms(2) s(2,4,5) k' ne
    by (simp add: ieee80211_key_link_def deref_opt_def other_cipher_def ieee80211_key_identical_def put_key_def Let_def)
  then have "ieee80211_gtk_rekey_add E kp True tfm sp cipher idx key_data w = Inr (Inr kp, [], ieee80211_key_free_unused kp ?w)"
    using assms(1-3) al by (simp add: ieee80211_gtk_rekey_add_def k'_def)
  then show ?thesis by (simp add: ieee80211_key_free_unused_def ieee80211_key_free_common_def)
qed

definition station_world :: world where
  "station_world = (let w = bare_world NL80211_IFTYPE_STATION in
     w\<lparr>keys := [3 \<mapsto> (sample_key 16)\<lparr>conf_keyidx := 1, key_sta := None\<rparr>],
       sdatas := [2 \<mapsto> (the (sdatas w 2))\<lparr>sdata_keys := [None, Some 3, None, None, None, None], key_list := [3], crypto_tx_tailroom_needed_cnt := 1\<rparr>]\<rparr>)"

theorem gtk_rekey_returns_freed_key_witness:
  "\<exists>w'. ieee80211_gtk_rekey_add (key_hw\<lparr>wowlan := True\<rparr>) 9 True 0 2 (SUITE 4) 1 (replicate 16 0x5a) station_world = Inr (Inr 9, [], w') \<and> keys w' 9 = None"
proof -
  obtain sd where sd: "sdatas station_world 2 = Some sd" "vif_type sd = NL80211_IFTYPE_STATION"
    by (simp add: station_world_def bare_world_def sample_world_def Let_def)
  show ?thesis
    by (rule gtk_rekey_returns_freed_key [OF _ sd, where op = 3 and ko = "(sample_key 16)\<lparr>conf_keyidx := 1, key_sta := None\<rparr>"])
      (simp_all add: key_hw_def slot_get.simps nth_opt_def station_world_def bare_world_def sample_world_def sample_key_def Let_def)
qed

section \<open>After a restart of the hardware\<close>

abbreviation no_count :: "ieee80211_sub_if_data \<Rightarrow> ieee80211_sub_if_data" where
  "no_count sd \<equiv> sd\<lparr>crypto_tx_tailroom_needed_cnt := 0, crypto_tx_tailroom_pending_dec := 0\<rparr>"

lemma clear_tailroom_ok:
  "clear_tailroom vs w = Inr w' \<Longrightarrow> w' = w\<lparr>sdatas := (\<lambda>x. if x \<in> set vs then map_option no_count (sdatas w x) else sdatas w x)\<rparr>"
proof (induction vs arbitrary: w)
  case (Cons v vs)
  then obtain sd where sd: "sdatas w v = Some sd" "clear_tailroom vs (put_sdata v (no_count sd) w) = Inr w'"
    by (auto simp: deref_Inr_iff elim!: rbind_InrE)
  show ?case unfolding Cons.IH [OF sd(2)] using sd(1) by (auto simp: put_sdata_def intro!: world.equality ext)
qed simp

lemma bump_bump: "bump_at S a (bump_at S b w) = bump_at S (b + a) w"
  by (auto simp: bump_at_def option.map_comp o_def add.assoc intro!: world.equality ext)

lemma tail_group_bump: "tail_group (bump_at S d w) x = tail_group w x"
  by (auto simp: tail_group_def bump_at_def split: option.splits)

text \<open>Without keys in the hardware every key of the list is counted once.\<close>

lemma reenable_loop_sw:
  assumes "\<not> has_set_key E" "\<And>kp k. keys w kp = Some k \<Longrightarrow> key_flags k AND KEY_FLAG_TAINTED = 0" "vlans_ok w" "sdatas w sp = Some sd"
    "reenable_loop E sp kps w = Inr (u, e, w')"
  shows "w' = bump_at (tail_group w sp) (int (length kps)) w"
  using assms(2-)
proof (induction kps arbitrary: w sd e)
  case Nil
  have "bump_at S 0 w = w" for S by (auto simp: bump_at_def option.map_ident intro!: world.equality ext)
  then show ?case using Nil by simp
next
  case (Cons kp kps)
  let ?w = "bump_at (tail_group w sp) 1 w"
  obtain r e1 w2 e2 where f: "ieee80211_key_enable_hw_accel E kp ?w = Inr (r, e1, w2)" "reenable_loop E sp kps w2 = Inr (u, e2, w')"
    using Cons.prems(4) increment_ok [OF Cons.prems(2,3)] by (auto simp: quiet_def elim!: and_thenE rbind_InrE)
  have w2: "w2 = ?w"
    using f(1) assms(1) Cons.prems(1) by (auto simp: ieee80211_key_enable_hw_accel_def deref_Inr_iff elim!: rbind_InrE split: if_splits)
  have "w' = bump_at (tail_group ?w sp) (int (length kps)) ?w"
    by (rule Cons.IH [OF _ calm_vlans_ok [OF bump_calm Cons.prems(2)] _ f(2) [unfolded w2], where sd = "bump 1 sd"])
      (use Cons.prems(1,3) in \<open>auto simp: bump_at_def tail_group_def\<close>)
  then show ?case by (simp add: bump_bump tail_group_bump)
qed

lemma clear_vlans_ok:
  assumes "vlans_ok w"
  shows "vlans_ok (w\<lparr>sdatas := (\<lambda>x. if x \<in> S then map_option no_count (sdatas w x) else sdatas w x)\<rparr>)"
  by (rule kind_vlans_ok [OF _ assms]) (auto simp: same_kind_def option.rel_refl rel_option_iff split: option.split)

lemma reenable_keys_sw:
  assumes "\<not> has_set_key E" "\<And>kp k. keys w kp = Some k \<Longrightarrow> key_flags k AND KEY_FLAG_TAINTED = 0" "vlans_ok w" "sdatas w sp = Some sd" "iface_running sd"
    and f: "ieee80211_reenable_keys E sp w = Inr (u, e, w')"
  shows "vlans_ok w'" "keys w' = keys w"
    "sdatas w' x = (if x \<in> tail_group w sp then map_option (\<lambda>sd'. bump (int (length (key_list sd))) (no_count sd')) (sdatas w x) else sdatas w x)"
proof -
  let ?vs = "sp # (if vif_type sd = NL80211_IFTYPE_AP then ap_vlans sd else [])"
  obtain w1 e1 where g: "clear_tailroom ?vs w = Inr w1" "reenable_loop E sp (key_list sd) w1 = Inr (u, e1, w')"
    using f assms(4,5) by (auto simp: ieee80211_reenable_keys_def quiet_Inr_iff when_act_def simp del: and_then_Inr clear_tailroom.simps elim!: and_thenE)
  have s: "set ?vs = tail_group w sp" using assms(4) by (simp add: tail_group_def)
  have w1: "w1 = w\<lparr>sdatas := (\<lambda>x. if x \<in> tail_group w sp then map_option no_count (sdatas w x) else sdatas w x)\<rparr>"
    using clear_tailroom_ok [OF g(1)] unfolding s .
  have v: "vlans_ok w1" unfolding w1 by (rule clear_vlans_ok [OF assms(3)])
  have sd1: "sdatas w1 sp = Some (no_count sd)" using assms(4) by (simp add: w1 tail_group_def)
  have tg: "tail_group w1 sp = tail_group w sp" using sd1 assms(4) by (simp add: tail_group_def)
  have w': "w' = bump_at (tail_group w sp) (int (length (key_list sd))) w1"
    using reenable_loop_sw [OF assms(1) _ v sd1 g(2)] assms(2) tg by (simp add: w1)
  show "vlans_ok w'" unfolding w' by (rule calm_vlans_ok [OF bump_calm v])
  show "keys w' = keys w" by (simp add: w' w1)
  show "sdatas w' x = (if x \<in> tail_group w sp then map_option (\<lambda>sd'. bump (int (length (key_list sd))) (no_count sd')) (sdatas w x) else sdatas w x)"
    by (simp add: w' w1 bump_at_def option.map_comp o_def)
qed

text \<open>
  C40: A restart of the hardware miscounts the keys of a VLAN. When the interfaces are brought up again, keys are enabled for the access point and then for its
  VLAN. The second call sets the count of the VLAN to zero and adds its own keys only, so that the keys of the access point, which the count of a VLAN
  includes at all other times, are missing from it.
\<close>

theorem vlan_reenable_undercounts:
  assumes "\<not> has_set_key E" "vlans_ok w" "\<forall>kp k. keys w kp = Some k \<longrightarrow> key_flags k AND KEY_FLAG_TAINTED = 0"
    and m: "sdatas w m = Some md" "vif_type md = NL80211_IFTYPE_AP" "v \<in> set (ap_vlans md)" "iface_running md"
    and v: "sdatas w v = Some vd" "iface_running vd"
    and f: "ieee80211_reenable_keys E m w = Inr (u, e, w1)" "ieee80211_reenable_keys E v w1 = Inr (u', e', w2)"
  shows "\<exists>md' vd'. sdatas w2 m = Some md' \<and> sdatas w2 v = Some vd' \<and> crypto_tx_tailroom_needed_cnt md' = int (length (key_list md)) \<and>
    crypto_tx_tailroom_needed_cnt vd' = int (length (key_list vd)) \<and> key_list vd' = key_list vd \<and> sdata_bss vd' = Some m \<and> vif_type vd' = NL80211_IFTYPE_AP_VLAN"
proof -
  have t: "key_flags k AND KEY_FLAG_TAINTED = 0" if "keys w kp = Some k" for kp k using assms(3) that by blast
  note a = reenable_keys_sw [OF assms(1) t assms(2) m(1,4) f(1)]
  have vd: "vif_type vd = NL80211_IFTYPE_AP_VLAN" "sdata_bss vd = Some m" using vlans_okD(2) [OF assms(2) m(1-3)] v(1) by auto
  have g: "tail_group w m = insert m (set (ap_vlans md))" using m(1,2) by (simp add: tail_group_def)
  have v1: "sdatas w1 v = Some (bump (int (length (key_list md))) (no_count vd))" using a(3) v(1) m(3) g by simp
  have m1: "sdatas w1 m = Some (bump (int (length (key_list md))) (no_count md))" using a(3) m(1) g by simp
  have t1: "key_flags k AND KEY_FLAG_TAINTED = 0" if "keys w1 kp = Some k" for kp k using t a(2) that by simp
  have r1: "iface_running (bump (int (length (key_list md))) (no_count vd))" using v(2) by simp
  note b = reenable_keys_sw [OF assms(1) t1 a(1) v1 r1 f(2)]
  have "tail_group w1 v = {v}" using v1 vd(1) by (simp add: tail_group_def)
  moreover have "m \<noteq> v" using m(1,2) v(1) vd(1) by auto
  ultimately show ?thesis using b(3) v1 m1 vd by simp
qed

text \<open>An access point with a group key and a VLAN.\<close>

definition vlan_world :: world where
  "vlan_world = (let w = bare_world NL80211_IFTYPE_AP; sd = the (sdatas w 2) in
     w\<lparr>keys := [3 \<mapsto> (sample_key 16)\<lparr>conf_keyidx := 1, key_sta := None\<rparr>],
       sdatas := [2 \<mapsto> sd\<lparr>sdata_keys := [None, Some 3, None, None, None, None], key_list := [3], crypto_tx_tailroom_needed_cnt := 1, ap_vlans := [6]\<rparr>,
                  6 \<mapsto> sd\<lparr>vif_type := NL80211_IFTYPE_AP_VLAN, sdata_bss := Some 2, crypto_tx_tailroom_needed_cnt := 1\<rparr>]\<rparr>)"

theorem vlan_reenable_undercounts_witness:
  "\<exists>e w1 e' w2 md vd. ieee80211_reenable_keys (key_hw\<lparr>has_set_key := False\<rparr>) 2 vlan_world = Inr ((), e, w1) \<and>
     ieee80211_reenable_keys (key_hw\<lparr>has_set_key := False\<rparr>) 6 w1 = Inr ((), e', w2) \<and> sdatas w2 2 = Some md \<and> sdatas w2 6 = Some vd \<and>
     crypto_tx_tailroom_needed_cnt md = 1 \<and> crypto_tx_tailroom_needed_cnt vd = 0"
proof -
  let ?E = "key_hw\<lparr>has_set_key := False\<rparr>"
  have "outcome (\<lambda>_ w. outcome (\<lambda>_ _. True) (ieee80211_reenable_keys ?E 6 w)) (ieee80211_reenable_keys ?E 2 vlan_world)" by code_simp
  then obtain e w1 e' w2 where f: "ieee80211_reenable_keys ?E 2 vlan_world = Inr ((), e, w1)" "ieee80211_reenable_keys ?E 6 w1 = Inr ((), e', w2)"
    by (auto elim!: outcomeE)
  obtain md vd where s: "sdatas vlan_world 2 = Some md" "vif_type md = NL80211_IFTYPE_AP" "6 \<in> set (ap_vlans md)" "iface_running md"
      "sdatas vlan_world 6 = Some vd" "iface_running vd" "key_list md = [3]" "key_list vd = []"
    by (simp add: vlan_world_def bare_world_def sample_world_def Let_def)
  have v: "vlans_ok vlan_world" by (auto simp: vlans_ok_def vlan_world_def bare_world_def sample_world_def Let_def split: if_splits)
  have t: "\<forall>kp k. keys vlan_world kp = Some k \<longrightarrow> key_flags k AND KEY_FLAG_TAINTED = 0" by (simp add: vlan_world_def sample_key_def Let_def)
  show ?thesis using f vlan_reenable_undercounts [OF _ v t s(1-4) s(5,6) f] s(7,8) by auto
qed

section \<open>Reading and setting the receive counters\<close>

text \<open>
  Receive counters read back as they were set. For the ciphers with packet numbers per queue, and every traffic identifier that the driver may name (with
  \<open>-1\<close> for management frames), setting a counter and reading the key gives the new counter for that identifier, and the counters of all
  other identifiers as they were.
\<close>

theorem rx_counters_read_back:
  assumes c: "conf_cipher k \<in> {SUITE 4, SUITE 10, SUITE 8, SUITE 9}" and l: "length (key_rx_pn k) = IEEE80211_NUM_TIDS + 1"
    and t: "- 1 \<le> tid" "tid < int IEEE80211_NUM_TIDS" "- 1 \<le> t" "t < int IEEE80211_NUM_TIDS"
  shows "\<exists>k'. ieee80211_set_key_rx_seq (Seq_Pn pn) tid k = Inr k' \<and>
    ieee80211_get_key_rx_seq k' t = (if t = tid then Inr (Some (Seq_Pn pn)) else ieee80211_get_key_rx_seq k t)"
proof -
  have q: "pn_queue tid < length (key_rx_pn k)" "pn_queue t < length (key_rx_pn k)" "pn_queue t = pn_queue tid \<longleftrightarrow> t = tid"
    using t l by (auto simp: pn_queue_def nat_eq_iff)
  have n: "conf_cipher k \<noteq> SUITE 2" using c by auto
  have "ieee80211_set_key_rx_seq (Seq_Pn pn) tid k = Inr (k\<lparr>key_rx_pn := (key_rx_pn k)[pn_queue tid := pn]\<rparr>)"
    using c n t q(1) by (auto simp: ieee80211_set_key_rx_seq_def arr_set_def seq_bytes_def)
  then show ?thesis using c n t q by (auto simp: ieee80211_get_key_rx_seq_def arr_get_def nth_list_update)
qed

theorem rx_counters_read_back_witness:
  "\<exists>k'. ieee80211_set_key_rx_seq (Seq_Pn [0, 0, 0, 0, 0, 9]) (- 1) (sample_key 16) = Inr k' \<and>
     ieee80211_get_key_rx_seq k' (- 1) = Inr (Some (Seq_Pn [0, 0, 0, 0, 0, 9]))"
  using rx_counters_read_back [of "sample_key 16" "- 1" "- 1" "[0, 0, 0, 0, 0, 9]"] by (simp add: sample_key_def)

end
