(* ===== verification/Spec2Isabelle.thy ===== *)
theory Spec2Isabelle
  imports Tx_Handlers Agg_Rx Ps_Accounting Key_Install
begin

text \<open>
  MAC address re-randomisation in the Linux mac80211 stack.

  The repository is the backported Linux 5.4 wireless stack, changed so that stations and access points
  replace their MAC addresses by random ones that change every period. Its own code is
  \<^verbatim>\<open>src/net/mac80211/\<close>: \<^verbatim>\<open>mac_translation_table.c\<close> and \<^verbatim>\<open>mac_pair_station.c\<close> (address tables),
  \<^verbatim>\<open>mac_add_gen.c\<close> (derivation of addresses and packet numbers), \<^verbatim>\<open>mac_randomizer.c\<close> (period change and header
  rewriting) and \<^verbatim>\<open>rathan_debug.c\<close> (instance detection, prints), hooked into the transmit path
  \<^verbatim>\<open>tx.c\<close> and the receive path \<^verbatim>\<open>rx.c\<close>. A station and an access point that share a pairwise key derive the
  address of the period independently: SHA-1 of the key, the base address and the period number.
  On transmission base addresses are replaced in the header after encryption; on reception they are
  restored before the station is looked up, so that everything above works with base addresses only.

  \<^bold>\<open>Theories.\<close>
  \<^item> \<open>Prelude\<close>: C integers, faults and results, addresses, byte buffers, lemma collections.
  \<^item> \<open>Chained_Table\<close>, \<open>Mac_Store\<close>: chained hash tables and the interface of an address store (locales
    \<open>mac_store\<close>, \<open>mac_store_upd\<close>, \<open>chained_pairs\<close>), interpreted by both tables.
  \<^item> \<open>Mac_Translation_Table\<close>, \<open>Mac_Pair_Station\<close>: the tables of the access point and of the station, operation by
    operation, with their invariant, the refinement of a map of pairs, and what deletion misses.
  \<^item> \<open>Ieee80211\<close>, \<open>Mac80211_State\<close>: frame headers and their classification; stations, interfaces and keys
    as records in explicit stores indexed by pointers, with the module's globals, in \<open>world\<close>.
  \<^item> \<open>Mac_Add_Gen\<close>: both address generators and the packet numbers. The two sides derive the same
    address; generated addresses are local and unicast; packet numbers grow from period to period until
    the 24-bit period counter wraps; faults on stations without a key and on long keys.
  \<^item> \<open>Rathan_Debug\<close>, \<open>Mac_Randomizer\<close>: instance detection, the period change and the header rewriting in both directions.
    The uplink rewriting is undone by the receiver; a new period re-randomises every station exactly once.
  \<^item> \<open>Tx\<close>: the handlers of \<^verbatim>\<open>tx.c\<close> from the control-port check to the hand-over to the driver. Data frames for an
    encrypting station never go out in the clear, every frame is sent, freed or kept, and the fragments of a frame
    carry its payload.
  \<^item> \<open>Packet_Number\<close>, \<open>Michael\<close>, \<open>Ccmp\<close>, \<open>Bip\<close>, \<open>Wep\<close>, \<open>Tkip\<close>: the software ciphers of \<^verbatim>\<open>wpa.c\<close>, \<^verbatim>\<open>michael.c\<close>, \<^verbatim>\<open>wep.c\<close>,
    \<^verbatim>\<open>tkip.c\<close> and their wrappers: round trips, replay protection (locale \<open>replay_filter\<close>, interpreted by
    CCMP, GCMP, TKIP and BIP), the phase 1 key cache, and the reads and states the code gets wrong.
  \<^item> \<open>Cipher_Select\<close>: choice of key and cipher in both directions and the checks that drop cleartext frames.
  \<^item> \<open>Reorder\<close>, \<open>Agg_Rx\<close>: the receive reorder buffer with its timer and the block-ack sessions. Frames leave in
    order over any run of events (locale \<open>positioned_output\<close>), overdue frames are released, and the three ways the
    ring goes wrong.
  \<^item> \<open>Defrag\<close>: the fragment table and the reassembly handler: fragments in order give the frame, protected fragments must have
    consecutive packet numbers, cleartext fragments slip through, and the handler never faults on well-formed tables.
  \<^item> \<open>Rx\<close>: the entrance of the receive path: restoring the addresses, lookup of stations and interfaces, acceptance,
    duplicate and class filters.
  \<^item> \<open>Delivery\<close>: the conversion of data frames to Ethernet frames (\<^verbatim>\<open>net/wireless/util.c\<close>), port control and the hand-over to the network
    stack or back to the medium. Only authorised stations get through, apart from control-port frames, which are relayed even to
    other stations.
  \<^item> \<open>Build_Hdr\<close>: the receiving station of an outgoing Ethernet frame and its 802.11 header, as configured without mesh
    support. Building and converting back is the identity on Ethernet frames.
  \<^item> \<open>Duration\<close>, \<open>Tx_Handlers\<close>: the duration field with the rate of the acknowledgement, and the chain of the later transmit handlers, where
    the period change is hooked in. The first data frame of a period leaves the chain with a new address, sequence number
    and packet number.
  \<^item> \<open>Power_Save\<close>, \<open>Ps_Accounting\<close>: sleeping stations of an access point: the traffic indication map, buffering on transmission, delivery on wake-up, poll and
    service period, and expiry (\<^verbatim>\<open>tx.c\<close>, \<^verbatim>\<open>rx.c\<close>, \<^verbatim>\<open>sta_info.c\<close>). The counters are exact over any run of events (inductive relation \<open>ps_step\<close>) that does
    not fill the buffers, frames for a sleeping station arrive complete and in order, and the two ways a counter goes wrong.
  \<^item> \<open>Key_Mgmt\<close>, \<open>Key_Inv\<close>, \<open>Key_Safety\<close>, \<open>Key_Install\<close>: the installation, replacement and removal of keys and their hand-over to the hardware (\<^verbatim>\<open>key.c\<close> and the key
    operations of \<^verbatim>\<open>cfg.c\<close>). Over any run of calls (inductive relation \<open>key_run\<close>) no key pointer dangles and the count of keys that need
    room is exact; a key installed again keeps its counters; a key refused takes the old one with it, leaks or is
    returned freed, and a restart of the hardware miscounts the keys of a VLAN.
  \<^item> \<open>Uplink\<close>, \<open>Fragments\<close> and this theory: properties that span the two paths. An Ethernet frame that a station encrypts and sends under
    its random address is attributed to the station, accepted, decrypted and converted back to the same Ethernet
    frame by the access point; a fragmented frame is put together again.

  \<^bold>\<open>Conventions.\<close> A function of the source is a function of the same name that takes the state and returns it updated, in
  the sum type \<open>result\<close>; \<open>Inl\<close> is a fault of the kernel (null dereference, access outside a buffer, shift out of range, a
  loop that does not end). Machine integers are words of their width. Buffers are byte lists with the space
  before and behind the data; an access outside faults. Calls that only act on the hardware or on parts of the kernel outside the model
  are recorded in a list of effects (\<open>effect\<close>). Locks, reference counts and RCU are left out: each
  function runs by itself, and interleavings are sequences of such runs.

  \<^bold>\<open>Parameters.\<close> SHA-1, AES-CCM, AES-GCM, CMAC, GMAC, RC4 and CRC-32 are libraries of the kernel and are arguments;
  what is assumed of them is stated with each property (\<open>aead_correct\<close>: decrypting what was encrypted under the same key, nonce
  and additional data gives it back; RC4 as a stream cipher). Allocation outcomes, clock readings, \<^verbatim>\<open>HZ\<close> and answers of the
  driver are arguments too. What follows the modelled receive handlers is the field \<open>rx_rest\<close> of \<open>rx_env\<close>.

  \<^bold>\<open>Loops.\<close> All loops are structural recursion or have a termination proof, except those that the source itself may fail to end:
  the shift loop of \<open>calculate_l\<close> (\<open>log_loop\<close>) and the search for the next held frame of the reorder buffer (\<open>timer_scan\<close>) are
  partial functions into \<open>option\<close>, where \<open>None\<close> is a loop that never ends. When they end is proved (\<open>log_loop_terminates_iff\<close>,
  \<open>timer_scan_ends\<close>), and so is a state in which the search does not (\<open>filtered_partial_amsdu_hangs\<close>).

  \<^bold>\<open>Not modelled.\<close> Mesh forwarding and mesh power save, monitor copies, A-MSDU deaggregation, the fast paths, rate control, transmit queues and
  sender-side aggregation, the life cycle of stations and interfaces, the management state machines, cfg80211 and the drivers: upstream code that the
  randomisation does not touch, much of it driven by hardware and timers. Of the transmit handlers between the building of the header and the
  cipher the end-to-end property uses the effect only (\<open>mpdu_of_frame\<close>).
\<close>

section \<open>From Ethernet to Ethernet\<close>

text \<open>
  What the transmit handlers between the building of the header and the cipher do to a frame: the protected bit is
  set, and the sequence control and the QoS control are written.
\<close>

definition mpdu_of_frame :: "sk_buff \<Rightarrow> sk_buff \<Rightarrow> bool" where
  "mpdu_of_frame f s \<longleftrightarrow> (\<exists>fc sn q. hdr_fc (skb_data f) = Inr fc \<and> 24 + length q = ieee80211_hdrlen fc \<and>
     frame_bytes s = le16_bytes (fc OR IEEE80211_FCTL_PROTECTED) @ take 20 (drop 2 (frame_bytes f)) @ le16_bytes sn @ q @
       drop (24 + length q) (frame_bytes f))"

lemma mpdu_of_built:
  assumes f: "skb_ok f" "frame_bytes f = take 24 (hdr_bytes h) @ q0 @ body" "24 + length q0 = ieee80211_hdrlen (frame_control h)" "6 \<le> length body"
    and s: "mpdu_of_frame f s"
  shows "\<exists>sn q. length q = length q0 \<and>
    frame_bytes s = take 24 (hdr_bytes (h\<lparr>frame_control := frame_control h OR IEEE80211_FCTL_PROTECTED, seq_ctrl := sn\<rparr>)) @ q @ body"
proof -
  obtain m where "hdr_load (skb_data f) = Inr (h\<lparr>addr4 := m\<rparr>)" using snap_frame_hdr [OF f(1,2)] f(4) by auto
  then have "hdr_fc (skb_data f) = Inr (frame_control h)" using hdr_load_fields(2) by fastforce
  then obtain sn q where q: "24 + length q = ieee80211_hdrlen (frame_control h)"
      "frame_bytes s = le16_bytes (frame_control h OR IEEE80211_FCTL_PROTECTED) @ take 20 (drop 2 (frame_bytes f)) @ le16_bytes sn @ q @
         drop (24 + length q) (frame_bytes f)"
    using s by (auto simp: mpdu_of_frame_def)
  then have "length q = length q0" using f(3) by simp
  moreover have "drop (24 + length q) (frame_bytes f) = body" using f(2) calculation by simp
  moreover have "take 20 (drop 2 (frame_bytes f)) = le16_bytes (duration_id h) @ mac_bytes (addr1 h) @ mac_bytes (addr2 h) @ mac_bytes (addr3 h)"
    using f(2) by (simp add: hdr_bytes_def)
  ultimately show ?thesis using q(2) by (intro exI [of _ sn] exI [of _ q]) (simp add: hdr_bytes_def)
qed

lemma uplink_fc:
  assumes "vif_type sd = NL80211_IFTYPE_STATION" and "fc = frame_control (data_hdr sd wme eth) OR IEEE80211_FCTL_PROTECTED"
  shows "ieee80211_is_data fc" "ieee80211_is_data_present fc" "ieee80211_has_tods fc" "\<not> ieee80211_has_a4 fc" "ieee80211_has_protected fc"
    "\<not> ieee80211_is_any_nullfunc fc" "\<not> ieee80211_has_retry fc" "ieee80211_hdrlen fc = (if wme then 26 else 24)"
proof -
  have "fc = (if wme then 0x4188 else 0x4108)" using assms by (simp add: data_hdr_def Let_def)
  then show "ieee80211_is_data fc" "ieee80211_is_data_present fc" "ieee80211_has_tods fc" "\<not> ieee80211_has_a4 fc" "ieee80211_has_protected fc"
    "\<not> ieee80211_is_any_nullfunc fc" "\<not> ieee80211_has_retry fc" "ieee80211_hdrlen fc = (if wme then 26 else 24)"
    by (auto simp: ieee80211_is_data_def ieee80211_is_data_present_def ieee80211_has_tods_def ieee80211_has_a4_def ieee80211_has_protected_def
        ieee80211_is_any_nullfunc_def ieee80211_is_nullfunc_def ieee80211_is_qos_nullfunc_def fc_type_stype_def ieee80211_has_retry_def
        ieee80211_hdrlen_def ieee80211_is_data_qos_def ieee80211_has_order_def)
qed

lemma uplink_mpdu:
  assumes f: "skb_ok f" "frame_bytes f = take 24 (hdr_bytes (data_hdr sd wme eth)) @ (if wme then [0, 0] else []) @ enc @ body"
    and sd: "vif_type sd = NL80211_IFTYPE_STATION" and s: "mpdu_of_frame f s" "skb_ok s" and enc: "length enc = 6"
  obtains h q where "frame_bytes s = take 24 (hdr_bytes h) @ q @ enc @ body" "24 + length q = ieee80211_hdrlen (frame_control h)"
    "frame_control h = frame_control (data_hdr sd wme eth) OR IEEE80211_FCTL_PROTECTED" "ieee80211_get_DA h = h_dest eth"
    "ieee80211_get_SA h = h_source eth" "hdr_fc (skb_data s) = Inr (frame_control h)" "hdr_addr1 (skb_data s) = Inr (mgd_bssid sd)"
    "hdr_addr2 (skb_data s) = Inr (h_source eth)" "skb_len s = ieee80211_hdrlen (frame_control h) + 6 + length body"
proof -
  let ?h0 = "data_hdr sd wme eth"
  have hl: "24 + length (if wme then [0, 0 :: u8] else []) = ieee80211_hdrlen (frame_control ?h0)"
    using data_hdr_fc(4) [of sd NL80211_IFTYPE_AP wme eth] sd by (simp add: ds_pair_def)
  have b6: "6 \<le> length (enc @ body)" using enc by simp
  obtain sn q where q: "length q = length (if wme then [0, 0 :: u8] else [])"
      "frame_bytes s = take 24 (hdr_bytes (?h0\<lparr>frame_control := frame_control ?h0 OR IEEE80211_FCTL_PROTECTED, seq_ctrl := sn\<rparr>)) @ q @ enc @ body"
    using mpdu_of_built [OF f hl b6 s(1)] by blast
  define h where "h = ?h0\<lparr>frame_control := frame_control ?h0 OR IEEE80211_FCTL_PROTECTED, seq_ctrl := sn\<rparr>"
  have fc: "frame_control h = frame_control ?h0 OR IEEE80211_FCTL_PROTECTED" by (simp add: h_def)
  note uf = uplink_fc [OF sd fc]
  have bs: "frame_bytes s = take 24 (hdr_bytes h) @ q @ enc @ body" using q(2) by (simp add: h_def)
  have ql: "24 + length q = ieee80211_hdrlen (frame_control h)" using q(1) uf(8) by simp
  obtain m where m: "hdr_load (skb_data s) = Inr (h\<lparr>addr4 := m\<rparr>)" using snap_frame_hdr [OF s(2) bs] b6 by auto
  show thesis
  proof (rule that [OF bs ql fc])
    show "ieee80211_get_DA h = h_dest eth" "ieee80211_get_SA h = h_source eth"
      using uf(3,4) sd by (simp_all add: ieee80211_get_DA_def ieee80211_get_SA_def has_a4_iff h_def data_hdr_def Let_def)
    show "hdr_fc (skb_data s) = Inr (frame_control h)" "hdr_addr1 (skb_data s) = Inr (mgd_bssid sd)" "hdr_addr2 (skb_data s) = Inr (h_source eth)"
      using hdr_load_fields(2,3) [OF m] hdr_addr2_load [OF m] sd by (simp_all add: h_def data_hdr_def Let_def)
    show "skb_len s = ieee80211_hdrlen (frame_control h) + 6 + length body"
      using arg_cong [OF bs, of length] s(2) ql enc by simp
  qed
qed

text \<open>
  C2: End to end, from Ethernet to Ethernet. A frame of the station's network stack for which the 802.11 header is built and that is encrypted with the
  station's pairwise key and transmitted with the addresses of the current period reaches, at an access point that
  knows the station's pairs, the handlers of the very station it came from, decrypts there, and is
  converted back to the original Ethernet frame: rewriting after encryption and restoring before the
  lookup of the station and the decryption are invisible on both ends. The four fields rewritten must
  not be mistaken for random addresses; the fourth field of this header is the beginning of the encrypted body.
\<close>

theorem ethernet_uplink_end_to_end:
  assumes ws: "world_ok ws" "RND_MAC ws" "keys ws kp = Some key"
    and eth: "skb_ok skb" "frame_bytes skb = ethhdr_bytes eth @ payload" "ETH_P_802_3_MIN \<le> h_proto eth"
    and bld: "sdatas ws sp = Some bsd" "vif_type bsd = NL80211_IFTYPE_STATION" "may_send bsd (Some bp) (h_dest eth) ws" "expand_ok B" "clone_ok B"
      "ieee80211_build_hdr B sp (Some bp) fl cf skb ws = Inr (Inr (f, i))"
    and s: "mpdu_of_frame f s" "skb_len s + 8 \<le> length (skb_data s)" "8 \<le> skb_headroom s" "info_hw_key s = None"
    and tx: "aead_correct (lib_ccm L) IEEE80211_CCMP_MIC_LEN" "ccmp_encrypt_skb (lib_ccm L) IEEE80211_CCMP_MIC_LEN kp s ws = Inr (0, s', ws')"
      "hdr_load (skb_data s') = Inr h" "mac_addr_change_hdr_tx ws' [s'] (Some NL80211_IFTYPE_STATION) = Inr [air]"
    and wa: "RND_MAC wa" "which_instance True wa = rathan_INSTANCE_AP" "rx_new_period sha1 env (current_period now) wa = Inr wa"
      "set (mp_pairs (s_translation_table ws)) \<subseteq> set (mtt_pairs (translation_table wa))"
      "distinct (randoms (mtt_pairs (translation_table wa)))"
    and addrs: "\<forall>a\<in>hdr_addrs h. a \<in> set (bases (mp_pairs (s_translation_table ws))) \<or>
      a \<notin> set (randoms (mtt_pairs (translation_table wa)))"
    and st: "sta_hash wa (h_source eth) = [p]" "stas wa p = Some st" "uplink_sta wa st rkp sd" "mgd_bssid bsd = vif_addr sd"
    and rkey: "keys wa rkp = Some rkey" "uplink_key (conf_key key) (unat (conf_tx_pn key + 1) mod 2 ^ 48) rkey"
    and rx: "skb_len (rx_skb rx) = skb_len air" "frame_bytes (rx_skb rx) = frame_bytes air" "rx_status_flag rx = 0"
    and fast: "\<And>r v. invoke_fast_rx E r v = Inr (False, v)"
  shows "\<exists>rx1 w1 rx2 w2 skb'. rx_handle_packet sha1 env now E None rx wa = rx_rest E rx1 w1 \<and> rx_sta rx1 = Some p \<and>
    ieee80211_rx_h_decrypt L rx1 w1 = Inr (RX_CONTINUE, rx2, w2) \<and>
    ieee80211_data_to_8023 (vif_addr sd) NL80211_IFTYPE_AP (rx_skb rx2) = Inr (Some (eth, skb')) \<and> frame_bytes skb' = frame_bytes skb"
proof -
  obtain enc where enc: "encapsulation (h_proto eth) = (enc, 12)" "length enc = 6"
      "enc = rfc1042_header \<and> h_proto eth \<noteq> ETH_P_AARP \<and> h_proto eth \<noteq> ETH_P_IPX \<or> enc = bridge_tunnel_header"
    using encapsulation_cases [OF eth(3)] .
  have pair: "ds_pair (vif_type bsd) NL80211_IFTYPE_AP" using bld(2) by (simp add: ds_pair_def)
  let ?body = "enc @ be16_bytes (h_proto eth) @ payload"
  obtain wme where f: "skb_ok f" "frame_bytes f = take 24 (hdr_bytes (data_hdr bsd wme eth)) @ (if wme then [0, 0] else []) @ ?body"
    using build_hdr_ok [OF bld(1) pair bld(3) eth(1,2) enc(1,2) bld(4,5), of fl cf] bld(6) by auto
  have ok: "skb_ok s" using s(2) by (simp add: skb_ok_def)
  obtain h1 q where m: "frame_bytes s = take 24 (hdr_bytes h1) @ q @ ?body" "24 + length q = ieee80211_hdrlen (frame_control h1)"
      "frame_control h1 = frame_control (data_hdr bsd wme eth) OR IEEE80211_FCTL_PROTECTED" "ieee80211_get_DA h1 = h_dest eth"
      "ieee80211_get_SA h1 = h_source eth" "hdr_fc (skb_data s) = Inr (frame_control h1)" "hdr_addr1 (skb_data s) = Inr (mgd_bssid bsd)"
      "hdr_addr2 (skb_data s) = Inr (h_source eth)" "skb_len s = ieee80211_hdrlen (frame_control h1) + 6 + length (be16_bytes (h_proto eth) @ payload)"
    by (rule uplink_mpdu [OF f bld(2) s(1) ok enc(2)])
  note uf = uplink_fc [OF bld(2) m(3)]
  let ?hl = "ieee80211_hdrlen (frame_control h1)"
  have hl: "24 \<le> ?hl" "?hl \<le> 32" "?hl < skb_len s" using uf(8) m(9) by simp_all
  have up: "uplink_frame (frame_control h1) s" using m(6) uf hl(3) s by (simp add: uplink_frame_def)
  note shape = ccmp_encrypt_shape [OF tx(1,2) m(6) uf(1) hl(2,3) s(2-4) ws(3)]
  have "?hl \<le> length (skb_data s')" "?hl \<le> length (skb_data s)" using shape(3,4) hl(3) s(2) by simp_all
  from hdr_addr_prefix [OF shape(2) hl(1) this] have a: "addr1 h = vif_addr sd" "addr2 h = h_source eth"
    using m(7,8) st(4) hdr_load_fields(3) [OF tx(3)] hdr_addr2_load [OF tx(3)] by simp_all
  then obtain rx1 w1 rx2 w2 where r: "rx_handle_packet sha1 env now E None rx wa = rx_rest E rx1 w1" "rx_sta rx1 = Some p"
      "ieee80211_rx_h_decrypt L rx1 w1 = Inr (RX_CONTINUE, rx2, w2)" "frame_bytes (rx_skb rx2) = frame_bytes s" "skb_len (rx_skb rx2) = skb_len s"
    using uplink_received [OF ws up tx wa addrs _ st(2,3) _ rkey rx fast] st(1) by auto
  have "skb_ok (rx_skb rx2)" using arg_cong [OF r(4), of length] r(5) ok by (simp add: frame_bytes_def skb_ok_def)
  moreover have "ds_addresses (vif_addr sd) NL80211_IFTYPE_AP h1 0 (rx_skb rx2) 0 \<noteq> None" "NL80211_IFTYPE_AP \<noteq> NL80211_IFTYPE_MESH_POINT"
    using uf(3,4) by (simp_all add: has_a4_iff ds_addresses_def Let_def)
  ultimately obtain skb' where "ieee80211_data_to_8023 (vif_addr sd) NL80211_IFTYPE_AP (rx_skb rx2) = Inr (Some (eth, skb'))"
      "frame_bytes skb' = ethhdr_bytes eth @ payload"
    using data_to_8023_snap [OF _ r(4) [unfolded m(1)] m(2) uf(2,4) enc(2,3)] unfolding m(4,5) ethhdr_id by blast
  then show ?thesis using r(1-3) eth(2) by auto
qed

text \<open>The sample station's Ethernet frame, with the header built for it, as it goes to the cipher.\<close>

definition sample_up_hdr :: ieee80211_hdr where
  "sample_up_hdr = \<lparr>frame_control = 0x0108, duration_id = 0, addr1 = sample_iface, addr2 = sample_base, addr3 = Mac 2 0 0 0 0 9, seq_ctrl = 0,
     addr4 = no_addr\<rparr>"

definition sample_up_mpdu :: sk_buff where
  "sample_up_mpdu = sample_skb\<lparr>skb_data := take 24 (hdr_bytes (sample_up_hdr\<lparr>frame_control := 0x4108, seq_ctrl := 0x10\<rparr>)) @ rfc1042_header @
     [8, 0, 1, 2, 3, 4] @ replicate 8 0, skb_len := 36\<rparr>"

lemma sample_built:
  "case ieee80211_build_hdr sample_build 2 (Some 5) 0 0 sample_eth_skb sample_paired_sta of
     Inr (Inr (f, i)) \<Rightarrow> skb_len f \<le> length (skb_data f) \<and> frame_bytes f = take 24 (hdr_bytes sample_up_hdr) @ rfc1042_header @ [8, 0, 1, 2, 3, 4]
   | _ \<Rightarrow> False"
  by code_simp

lemma sample_up_facts:
  "hdr_fc (skb_data sample_up_mpdu) = Inr 0x4108" "skb_len sample_up_mpdu = 36" "length (skb_data sample_up_mpdu) = 44" "skb_headroom sample_up_mpdu = 16"
  "info_hw_key sample_up_mpdu = None" "ieee80211_hdrlen 0x0108 = 24"
  "frame_bytes sample_up_mpdu = take 24 (hdr_bytes (sample_up_hdr\<lparr>frame_control := 0x4108, seq_ctrl := 0x10\<rparr>)) @ rfc1042_header @ [8, 0, 1, 2, 3, 4]"
proof -
  show "hdr_fc (skb_data sample_up_mpdu) = Inr 0x4108"
    by (simp add: sample_up_mpdu_def hdr_bytes_def hdr_fc_def le16_bytes_def le16_of_def sample_up_hdr_def)
  show "ieee80211_hdrlen 0x0108 = 24"
    by (simp add: ieee80211_hdrlen_def ieee80211_is_data_def ieee80211_has_a4_def ieee80211_is_data_qos_def)
qed (simp_all add: sample_up_mpdu_def sample_skb_def rfc1042_header_def frame_bytes_def skb_headroom_def)

lemma sample_up_mpdu_of_frame:
  assumes "skb_ok f" "frame_bytes f = take 24 (hdr_bytes sample_up_hdr) @ rfc1042_header @ [8, 0, 1, 2, 3, 4]"
  shows "mpdu_of_frame f sample_up_mpdu"
proof -
  obtain m where "hdr_load (skb_data f) = Inr (sample_up_hdr\<lparr>addr4 := m\<rparr>)" using snap_frame_hdr [OF assms] by (auto simp: rfc1042_header_def)
  then have "hdr_fc (skb_data f) = Inr 0x0108" using hdr_load_fields(2) by (fastforce simp: sample_up_hdr_def)
  then show ?thesis
    unfolding mpdu_of_frame_def using assms(2) sample_up_facts(6,7)
    by (intro exI [of _ "0x0108"] exI [of _ "0x10"] exI [of _ "[]"]) (simp add: hdr_bytes_def sample_up_hdr_def)
qed

lemma sample_up_encrypted:
  "\<exists>s' ws' h. ccmp_encrypt_skb sample_aead 8 3 sample_up_mpdu sample_paired_sta = Inr (0, s', ws') \<and> hdr_load (skb_data s') = Inr h \<and>
     addr1 h = sample_iface \<and> addr2 h = sample_base \<and> addr3 h \<noteq> sample_random \<and> addr4 h \<noteq> sample_random \<and>
     ws' = put_key 3 ((sample_key 16)\<lparr>conf_tx_pn := conf_tx_pn (sample_key 16) + 1\<rparr>) sample_paired_sta"
proof -
  let ?s = sample_up_mpdu
  have fc: "hdr_fc (skb_data ?s) = Inr 0x4108" "ieee80211_is_data 0x4108" "ieee80211_hdrlen 0x4108 \<le> 32"
      "ieee80211_hdrlen 0x4108 < skb_len ?s" "skb_len ?s + 8 \<le> length (skb_data ?s)" "8 \<le> skb_headroom ?s"
    using sample_up_facts sample_mpdu_facts(2,3) by simp_all
  obtain s' ws' where e: "ccmp_encrypt_skb sample_aead 8 3 ?s sample_paired_sta = Inr (0, s', ws')"
    using ccmp.round_trip [OF sample_aead_correct fc sample_up_facts(5) sample_paired_key(1), of "sample_rx ?s" 3 sample_paired_ap
        "sample_key 16"] sample_paired_key(2) by (auto simp: ccmp_encrypt_skb_def sample_rx_def sample_key_def)
  note sh = ccmp_encrypt_shape [OF sample_aead_correct e fc sample_up_facts(5) sample_paired_key(1), unfolded sample_mpdu_facts sample_up_facts]
  obtain h where h: "hdr_load (skb_data s') = Inr h" using hdr_load_ok [of "skb_data s'"] sh(3,4) by auto
  have t: "take 6 (drop k (skb_data s')) = take 6 (drop k (skb_data ?s))" if "k \<le> 18" for k
  proof -
    have "6 \<le> 24 - k" using that by simp
    then show ?thesis using arg_cong [OF sh(2), of "\<lambda>xs. take 6 (drop k xs)"] by (simp add: drop_take min_def)
  qed
  have x: "take 6 (drop 24 (skb_data s')) = take 6 (ccmp_pn2hdr (pn_be_bytes (conf_tx_pn (sample_key 16) + 1)) (conf_keyidx (sample_key 16)))"
    using arg_cong [OF sh(5), of "take 6"] by simp
  note a = hdr_load_addrs [OF h]
  have "mac_bytes (addr1 h) = mac_bytes sample_iface" "mac_bytes (addr2 h) = mac_bytes sample_base"
      "mac_bytes (addr3 h) \<noteq> mac_bytes sample_random"
    unfolding a using t [of 4] t [of 10] t [of 16]
    by (simp_all add: sample_up_mpdu_def hdr_bytes_def le16_bytes_def sample_up_hdr_def sample_random_def sample_iface_def sample_base_def)
  moreover have "mac_bytes (addr4 h) \<noteq> mac_bytes sample_random"
    unfolding a x by (simp add: ccmp_pn2hdr_def pn_be_bytes_def sample_key_def sample_random_def)
  ultimately have "addr1 h = sample_iface" "addr2 h = sample_base" "addr3 h \<noteq> sample_random" "addr4 h \<noteq> sample_random"
    by (auto intro: mac_bytes_inj)
  then show ?thesis using e h sh(1) by blast
qed

theorem ethernet_uplink_end_to_end_witness:
  "\<exists>air rx1 w1 rx2 w2 skb'. rx_handle_packet sample_sha1 sample_env 7 sample_rx_env None (sample_rx air) sample_paired_ap = rx_rest sample_rx_env rx1 w1 \<and>
     hdr_addr2 (skb_data air) = Inr sample_random \<and> rx_sta rx1 = Some 5 \<and>
     ieee80211_rx_h_decrypt sample_crypto rx1 w1 = Inr (RX_CONTINUE, rx2, w2) \<and>
     ieee80211_data_to_8023 sample_iface NL80211_IFTYPE_AP (rx_skb rx2) = Inr (Some (sample_eth, skb')) \<and>
     frame_bytes skb' = frame_bytes sample_eth_skb"
proof -
  obtain f i where f: "ieee80211_build_hdr sample_build 2 (Some 5) 0 0 sample_eth_skb sample_paired_sta = Inr (Inr (f, i))" "skb_ok f"
      "frame_bytes f = take 24 (hdr_bytes sample_up_hdr) @ rfc1042_header @ [8, 0, 1, 2, 3, 4]"
    using sample_built by (auto simp: skb_ok_def split: sum.splits)
  note mp = sample_up_mpdu_of_frame [OF f(2,3)]
  obtain s' ws' h where e: "ccmp_encrypt_skb sample_aead 8 3 sample_up_mpdu sample_paired_sta = Inr (0, s', ws')" "hdr_load (skb_data s') = Inr h"
      "addr1 h = sample_iface" "addr2 h = sample_base" "addr3 h \<noteq> sample_random" "addr4 h \<noteq> sample_random"
      "ws' = put_key 3 ((sample_key 16)\<lparr>conf_tx_pn := conf_tx_pn (sample_key 16) + 1\<rparr>) sample_paired_sta"
    using sample_up_encrypted by blast
  define air where "air = s'\<lparr>skb_data := hdr_store (subst_hdr (s_random_of_base (s_translation_table sample_paired_sta)) h) (skb_data s')\<rparr>"
  have tx: "mac_addr_change_hdr_tx ws' [s'] (Some NL80211_IFTYPE_STATION) = Inr [air]"
    using e(2) sample_paired_instance(3) by (simp add: mac_addr_change_hdr_tx_def rewrite_head_ok e(7) put_key_def air_def)
  have known: "set (mp_pairs (s_translation_table sample_paired_sta)) \<subseteq> set (mtt_pairs (translation_table sample_paired_ap))"
      "distinct (randoms (mtt_pairs (translation_table sample_paired_ap)))" by (simp_all add: sample_pairs randoms_def)
  have ad: "\<forall>a\<in>hdr_addrs h. a \<in> set (bases (mp_pairs (s_translation_table sample_paired_sta))) \<or>
      a \<notin> set (randoms (mtt_pairs (translation_table sample_paired_ap)))"
    using e by (auto simp: sample_pairs hdr_addrs_def bases_def randoms_def sample_random_def sample_iface_def)
  define st where "st = the (stas sample_paired_ap 5)"
  define sd where "sd = the (sdatas sample_paired_ap 2)"
  define bsd where "bsd = the (sdatas sample_paired_sta 2)"
  have bsd: "sdatas sample_paired_sta 2 = Some bsd" "vif_type bsd = NL80211_IFTYPE_STATION" "may_send bsd (Some 5) (h_dest sample_eth) sample_paired_sta"
    by (simp_all add: bsd_def sample_paired_sta_def sample_sta_world_def sample_world_def put_sdata_def may_send_def)
  have st: "sta_hash sample_paired_ap (h_source sample_eth) = [5]" "stas sample_paired_ap 5 = Some st" "uplink_sta sample_paired_ap st 3 sd"
      "mgd_bssid bsd = vif_addr sd" "vif_addr sd = sample_iface"
    by (simp_all add: uplink_sta_def st_def sd_def bsd_def sample_paired_ap_def sample_paired_sta_def sample_sta_world_def sample_world_def put_sdata_def
        sta_ptk_def sample_iface_def sample_eth_def less_eq_ieee80211_sta_state_def)
  have key: "uplink_key (conf_key (sample_key 16)) (unat (conf_tx_pn (sample_key 16) + 1) mod 2 ^ 48) (sample_key 16)"
    by (simp add: uplink_key_def sample_key_def)
  have L: "aead_correct (lib_ccm sample_crypto) 8" "lib_ccm sample_crypto = sample_aead" by (simp_all add: sample_crypto_def sample_aead_correct)
  have pr: "ETH_P_802_3_MIN \<le> h_proto sample_eth" by (simp add: sample_eth_def)
  have "\<exists>rx1 w1 rx2 w2 skb'. rx_handle_packet sample_sha1 sample_env 7 sample_rx_env None (sample_rx air) sample_paired_ap = rx_rest sample_rx_env rx1 w1 \<and>
     rx_sta rx1 = Some 5 \<and> ieee80211_rx_h_decrypt sample_crypto rx1 w1 = Inr (RX_CONTINUE, rx2, w2) \<and>
     ieee80211_data_to_8023 (vif_addr sd) NL80211_IFTYPE_AP (rx_skb rx2) = Inr (Some (sample_eth, skb')) \<and> frame_bytes skb' = frame_bytes sample_eth_skb"
    by (rule ethernet_uplink_end_to_end [OF sample_paired_ok(1) sample_paired_instance(3) sample_paired_key(1) sample_eth_facts(1,2) pr bsd
          sample_eth_facts(3,4) f(1) mp _ _ sample_up_facts(5) L(1) _ e(2) tx sample_paired_instance(4,2) sample_paired_period known ad st(1-4)
          sample_paired_key(2) key])
      (simp_all add: e(1) L(2) sample_up_facts sample_rx_def sample_rx_env_def)
  moreover have "s_random_of_base (s_translation_table sample_paired_sta) sample_base = Some sample_random"
    using sample_paired_ok(1) by (simp add: mp.rnd_of_iff sample_pairs world_ok_def)
  then have "hdr_addr2 (skb_data air) = Inr sample_random"
    using hdr_addr2_load [OF hdr_load_store, of "subst_hdr (s_random_of_base (s_translation_table sample_paired_sta)) h" "skb_data s'"] e(4)
    by (simp add: air_def subst_hdr_def Let_def subst_addr_def)
  ultimately show ?thesis unfolding st(5) by blast
qed

section \<open>Fragments on both paths\<close>

text \<open>
  C4: Fragmentation round trip. The fragments the sender's handler makes of a unicast frame, at most sixteen of them, arriving in
  order at a receiver without a key, give back the frame: every fragment but the last is queued, and the frame
  then handed on is the original one, byte for byte, but for the more-fragments bit, which
  stays set in its header.
\<close>

theorem fragmentation_round_trip:
  assumes tx: "tx_skb tx = Some skb" "tx_skbs tx = []" "skb_len skb \<le> length (skb_data skb)"
      "info_flags skb AND IEEE80211_TX_CTL_DONTFRAG = 0" "info_flags skb AND IEEE80211_TX_CTL_AMPDU = 0"
    and fc: "hdr_fc (skb_data skb) = Inr fc" "\<not> ieee80211_is_ctl fc"
    and sc: "hdr_seq_ctrl (skb_data skb) = Inr sc" "sc AND IEEE80211_SCTL_FRAG = 0"
    and ad: "hdr_addr1 (skb_data skb) = Inr a1" "\<not> is_multicast_ether_addr a1" "hdr_addr2 (skb_data skb) = Inr a2"
    and thr: "unat thr < 2 ^ 31" "ieee80211_hdrlen fc + FCS_LEN < unat thr" "unat thr < skb_len skb + FCS_LEN"
      "skb_len skb + FCS_LEN < 2 ^ 32"
    and mem: "\<forall>m\<in>set allocs. unat thr \<le> length (snd m)" "skb_len skb \<le> length allocs"
    and sent: "ieee80211_tx_h_fragment False thr allocs tx = Inr (res, tx')" "length (tx_skbs tx') \<le> 16"
    and recv: "list_all2 (arrives sp q) (tx_skbs tx') (map snd ((t, rx) # fs))" "rx_key rx = None"
      "sdatas w sp = Some sd" "table_ok sd"
      "\<forall>(now, r)\<in>set fs. \<not> time_after now (t + of_nat (2 * hz)) \<and> (\<forall>p. rx_sta r = Some p \<longrightarrow> stas w p \<noteq> None)"
  shows "\<exists>out rx' w'. defragment_all hz True ((t, rx) # fs) w = Inr (out @ [(RX_CONTINUE, rx')], w') \<and>
    map fst out = replicate (length fs) RX_QUEUED \<and>
    set_hdr_fc (fc OR IEEE80211_FCTL_MOREFRAGS) (frame_bytes skb) = Inr (frame_bytes (rx_skb rx'))"
proof -
  let ?hl = "ieee80211_hdrlen fc" and ?i = "frame_id_of sp q fc sc a1 a2"
  define frags where "frags = tx_skbs tx'"
  note g = sent_fragments [OF tx fc sc(1) thr mem ad(1,3) sent(1), folded frags_def]
  define rxs where "rxs = map snd ((t, rx) # fs)"
  have ar: "list_all2 (arrives sp q) frags rxs" using recv(1) by (simp add: rxs_def frags_def)
  have len: "length rxs = length frags" "2 \<le> length rxs" "fs \<noteq> []"
    using list_all2_lengthD [OF ar] g(1) by (auto simp: rxs_def)
  have "is_fragment ?i j (Suc j < length rxs) (rxs ! j)" if "j < length rxs" for j
    using arrives_is_fragment [OF list_all2_nthD2 [OF ar that], of fc "Suc j < length rxs" sc j a1 a2] g(2) g(3) [of j] that len
      sent(2) fc(2) ad(2) sc(2) by (simp add: sent_fragment_def frags_def)
  then have c: "continues ?i 0 rxs" using len sent(2) by (intro continues_nth) (auto simp: frags_def)
  have i: "id_sdata ?i = sp" "id_hdrlen ?i = ?hl" by (simp_all add: frame_id_of_def)
  obtain out rx' w' where o: "defragment_all hz True ((t, rx) # fs) w = Inr (out @ [(RX_CONTINUE, rx')], w')"
      "map fst out = replicate (length fs) RX_QUEUED"
      "frame_bytes (rx_skb rx') = frame_bytes (rx_skb rx) @ concat (map (\<lambda>f. rx_payload ?i (snd f)) fs)"
    using fragments_in_order_reassemble [OF c [unfolded rxs_def] len(3) _ recv(4,2,5)] recv(3) i(1) by auto
  have eq: "map (\<lambda>r. frame_bytes (rx_skb r)) rxs = map frame_bytes frags"
    using ar by (auto simp: list_all2_conv_all_nth arrives_def intro!: nth_equalityI)
  have p: "rx_payload ?i rx @ concat (map (\<lambda>f. rx_payload ?i (snd f)) fs) = frag_payload ?hl skb"
    using arg_cong [OF eq, of "\<lambda>xs. concat (map (drop ?hl) xs)"] g(4)
    by (simp add: i rxs_def frag_payload_def [abs_def] frame_bytes_def comp_def)
  have h: "take ?hl (frame_bytes (rx_skb rx)) = take ?hl (skb_data (hd frags))"
    using eq g(1) g(3) [of 0] by (cases frags) (auto simp: rxs_def sent_fragment_def frame_bytes_def min_def)
  have "frame_bytes (rx_skb rx') = take ?hl (frame_bytes (rx_skb rx)) @ frag_payload ?hl skb"
    unfolding o(3) p [symmetric] i(2) by (simp only: append_assoc [symmetric] append_take_drop_id)
  also have "\<dots> = le16_bytes (fc OR IEEE80211_FCTL_MOREFRAGS) @ drop 2 (take ?hl (skb_data skb)) @ frag_payload ?hl skb"
    by (simp only: h g(5) append_assoc)
  also have "drop 2 (take ?hl (skb_data skb)) @ frag_payload ?hl skb = drop 2 (frame_bytes skb)"
    using frame_split g(2) thr(2,3) tx(3) by simp
  finally show ?thesis
    using o(1,2) thr tx(3) g(2) by (intro exI [of _ out] exI [of _ rx'] exI [of _ w']) (simp add: set_hdr_fc_eq frame_bytes_def)
qed

lemma sample_fragments:
  "case ieee80211_tx_h_fragment False 34 (replicate 40 ([], replicate 40 0)) sample_data_tx of
     Inr (r, tx') \<Rightarrow> r = TX_CONTINUE \<and> length (tx_skbs tx') = 2 \<and> list_all (\<lambda>f. skb_len f \<le> length (skb_data f)) (tx_skbs tx')
   | _ \<Rightarrow> False"
  by code_simp

theorem fragmentation_round_trip_witness:
  "\<exists>tx' f g out rx' w'. ieee80211_tx_h_fragment False 34 (replicate 40 ([], replicate 40 0)) sample_data_tx = Inr (TX_CONTINUE, tx') \<and>
     tx_skbs tx' = [f, g] \<and>
     defragment_all 250 True [(1000, sample_rx f\<lparr>rx_key := None\<rparr>), (1010, sample_rx g)] sample_paired_ap =
       Inr (out @ [(RX_CONTINUE, rx')], w') \<and> map fst out = [RX_QUEUED] \<and>
     set_hdr_fc 0x4508 (hdr_bytes sample_data_hdr @ [1, 2, 3, 4]) = Inr (frame_bytes (rx_skb rx'))"
proof -
  let ?skb = "sample_skb\<lparr>skb_data := hdr_bytes sample_data_hdr @ [1, 2, 3, 4]\<rparr>"
  have fields: "hdr_fc (skb_data ?skb) = Inr 0x4108" "hdr_seq_ctrl (skb_data ?skb) = Inr 0x10"
    using hdr_load_fields [OF hdr_load_append [of sample_data_hdr "[1, 2, 3, 4]"]]
    by (simp_all add: sample_data_hdr_def sample_hdr_def)
  have fc: "\<not> ieee80211_is_ctl 0x4108" "ieee80211_hdrlen 0x4108 = 24"
    by (simp_all add: ieee80211_hdrlen_def ieee80211_is_ctl_def ieee80211_is_data_def ieee80211_has_a4_def
        ieee80211_is_data_qos_def)
  have ad: "hdr_addr1 (skb_data ?skb) = Inr sample_iface" "hdr_addr2 (skb_data ?skb) = Inr sample_base" "\<not> is_multicast_ether_addr sample_iface"
    by (simp_all add: hdr_addr1_def hdr_addr2_def hdr_bytes_def le16_bytes_def sample_data_hdr_def sample_hdr_def sample_iface_def)
  have fb: "frame_bytes ?skb = hdr_bytes sample_data_hdr @ [1, 2, 3, 4]"
    by (simp add: frame_bytes_def sample_skb_def)
  obtain tx' f g where tx: "ieee80211_tx_h_fragment False 34 (replicate 40 ([], replicate 40 0)) sample_data_tx = Inr (TX_CONTINUE, tx')"
      "tx_skbs tx' = [f, g]" "skb_ok f" "skb_ok g"
    using sample_fragments by (auto split: sum.splits simp: numeral_2_eq_2 length_Suc_conv skb_ok_def)
  let ?rx = "sample_rx f\<lparr>rx_key := None\<rparr>"
  have ap: "\<exists>sd. sdatas sample_paired_ap 2 = Some sd \<and> table_ok sd" "stas sample_paired_ap 5 \<noteq> None"
    by (simp_all add: sample_paired_ap_def sample_world_def table_ok_def)
  then obtain sd where sd: "sdatas sample_paired_ap 2 = Some sd" "table_ok sd" by blast
  have "\<exists>out rx' w'. defragment_all 250 True ((1000, ?rx) # [(1010, sample_rx g)]) sample_paired_ap = Inr (out @ [(RX_CONTINUE, rx')], w') \<and>
    map fst out = replicate (length [(1010 :: u64, sample_rx g)]) RX_QUEUED \<and>
    set_hdr_fc (0x4108 OR IEEE80211_FCTL_MOREFRAGS) (frame_bytes ?skb) = Inr (frame_bytes (rx_skb rx'))"
    by (rule fragmentation_round_trip [where tx = sample_data_tx and thr = 34 and allocs = "replicate 40 ([], replicate 40 0)" and sp = 2 and q = 0,
          OF _ _ _ _ _ fields(1) fc(1) fields(2) _ ad(1,3,2) _ _ _ _ _ _ tx(1) _ _ _ sd])
      (use tx ap fc in \<open>auto simp: sample_data_tx_def sample_tx_def sample_skb_def sample_rx_def arrives_def time_after_def\<close>)
  then obtain out rx' w' where "defragment_all 250 True [(1000, ?rx), (1010, sample_rx g)] sample_paired_ap = Inr (out @ [(RX_CONTINUE, rx')], w')"
      "map fst out = [RX_QUEUED]" "set_hdr_fc 0x4508 (hdr_bytes sample_data_hdr @ [1, 2, 3, 4]) = Inr (frame_bytes (rx_skb rx'))"
    unfolding fb by auto
  then show ?thesis using tx(1,2) by (intro exI conjI)
qed

end
